(* ===== verification/Prelude.thy ===== *)
theory Prelude
  imports Complex_Main
begin

text \<open>
  Shared vocabulary of the development: the JavaScript values the services compute with, the
  exceptions they throw, sequencing of statements that may throw, loops with early exit, and
  the tables behind the TypeORM repositories together with the interface (a locale) that the
  services rely on.

  JavaScript numbers are modelled by exact rationals (\<open>number\<close>); the rounding of
  binary64 is outside the model. Dates are milliseconds since the epoch (\<open>time\<close>).
\<close>

named_theorems model_defs "definitions that a proof unfolds to execute the model"

subsection \<open>Values\<close>

type_synonym number = rat
type_synonym time = int
type_synonym uuid = string

text \<open>
  The text of an exception is a template literal; interpolated numbers are kept as values.
\<close>

datatype piece = Txt string | Num number

type_synonym msg = "piece list"

datatype error =
    BadRequestException msg
  | NotFoundException msg
  | ForbiddenException msg
  | ConflictException msg
  | InternalServerErrorException msg
  | TypeError msg
  | Error msg

primrec error_message :: "error \<Rightarrow> msg" where
  "error_message (BadRequestException m) = m"
| "error_message (NotFoundException m) = m"
| "error_message (ForbiddenException m) = m"
| "error_message (ConflictException m) = m"
| "error_message (InternalServerErrorException m) = m"
| "error_message (TypeError m) = m"
| "error_message (Error m) = m"

text \<open>The operator \<open>||\<close> on an optional string and on an optional number: the empty
  string and zero are falsy.\<close>

definition or_text :: "string option \<Rightarrow> string \<Rightarrow> string" where
  "or_text x d = (case x of None \<Rightarrow> d | Some t \<Rightarrow> if t = [] then d else t)"

definition or_num :: "number option \<Rightarrow> number \<Rightarrow> number" where
  "or_num x d = (case x of None \<Rightarrow> d | Some n \<Rightarrow> if n = 0 then d else n)"

definition truthy_text :: "string option \<Rightarrow> bool" where
  "truthy_text x \<longleftrightarrow> (case x of None \<Rightarrow> False | Some t \<Rightarrow> t \<noteq> [])"

definition truthy_num :: "number option \<Rightarrow> bool" where
  "truthy_num x \<longleftrightarrow> (case x of None \<Rightarrow> False | Some n \<Rightarrow> n \<noteq> 0)"

lemma or_text_simps [simp]:
  "or_text None d = d"
  "or_text (Some t) d = (if t = [] then d else t)"
  by (simp_all add: or_text_def)

lemma or_num_simps [simp]:
  "or_num None d = d"
  "or_num (Some n) d = (if n = 0 then d else n)"
  by (simp_all add: or_num_def)

lemma truthy_simps [simp]:
  "\<not> truthy_text None" "truthy_text (Some t) \<longleftrightarrow> t \<noteq> []"
  "\<not> truthy_num None" "truthy_num (Some n) \<longleftrightarrow> n \<noteq> 0"
  by (simp_all add: truthy_text_def truthy_num_def)

text \<open>\<open>toUpperCase\<close> on ASCII text.\<close>

definition upper_char :: "char \<Rightarrow> char" where
  "upper_char c = (if c \<in> set ''abcdefghijklmnopqrstuvwxyz'' then char_of (of_char c - 32 :: nat) else c)"

definition upper_text :: "string \<Rightarrow> string" where
  "upper_text t = map upper_char t"

lemma upper_char_idem [simp]: "upper_char (upper_char c) = upper_char c"
proof (cases "c \<in> set ''abcdefghijklmnopqrstuvwxyz''")
  case True
  then show ?thesis by (simp add: upper_char_def) (elim disjE; simp add: char_of_def)
next
  case False
  then have "upper_char c = c" unfolding upper_char_def by (rule if_not_P)
  then show ?thesis by simp
qed

lemma upper_text_idem [simp]: "upper_text (upper_text t) = upper_text t"
  by (simp add: upper_text_def)

text \<open>\<open>reduce\<close> with \<open>+\<close> over a projection.\<close>

definition sum_by :: "('a \<Rightarrow> number) \<Rightarrow> 'a list \<Rightarrow> number" where
  "sum_by f xs = sum_list (map f xs)"

lemma sum_by_simps [simp]:
  "sum_by f [] = 0"
  "sum_by f (x # xs) = f x + sum_by f xs"
  "sum_by f (xs @ ys) = sum_by f xs + sum_by f ys"
  by (simp_all add: sum_by_def)

lemma sum_by_nonneg: "\<forall>x \<in> set xs. 0 \<le> f x \<Longrightarrow> 0 \<le> sum_by f xs"
  by (induction xs) auto

subsection \<open>Statements that may throw\<close>

text \<open>
  An \<open>async\<close> method of a service takes the state and gives the value it returns or the
  exception it throws, together with the state it leaves. A thrown exception does not undo
  the effects that came before it; only \<open>dataSource.transaction\<close> does.
\<close>

type_synonym ('a, 's) result = "(error + 'a) \<times> 's"

definition and_then ::
  "('a, 's) result \<Rightarrow> ('a \<Rightarrow> 's \<Rightarrow> ('b, 's) result) \<Rightarrow> ('b, 's) result" where
  "and_then r k = (case fst r of Inl e \<Rightarrow> (Inl e, snd r) | Inr x \<Rightarrow> k x (snd r))"

definition catching ::
  "('a, 's) result \<Rightarrow> (error \<Rightarrow> 's \<Rightarrow> ('a, 's) result) \<Rightarrow> ('a, 's) result" where
  "catching r h = (case fst r of Inl e \<Rightarrow> h e (snd r) | Inr x \<Rightarrow> (Inr x, snd r))"

lemma and_then_simps [simp]:
  "and_then (Inl e, s) k = (Inl e, s)"
  "and_then (Inr x, s) k = k x s"
  by (simp_all add: and_then_def)

lemma catching_simps [simp]:
  "catching (Inl e, s) h = h e s"
  "catching (Inr x, s) h = (Inr x, s)"
  by (simp_all add: catching_def)

lemma and_then_Inr_iff:
  "and_then r k = (Inr y, t) \<longleftrightarrow> (\<exists>x s. r = (Inr x, s) \<and> k x s = (Inr y, t))"
  by (cases r) (auto simp: and_then_def split: sum.splits)

lemma and_then_InrE [elim]:
  assumes "and_then r k = (Inr y, t)"
  obtains x s where "r = (Inr x, s)" and "k x s = (Inr y, t)"
  using assms by (auto simp: and_then_Inr_iff)

lemma and_then_split:
  "P (and_then r k) \<longleftrightarrow>
    (\<forall>e s. r = (Inl e, s) \<longrightarrow> P (Inl e, s)) \<and> (\<forall>x s. r = (Inr x, s) \<longrightarrow> P (k x s))"
  by (cases r) (auto simp: and_then_def split: sum.splits)

lemma and_then_split_asm:
  "P (and_then r k) \<longleftrightarrow>
    \<not> ((\<exists>e s. r = (Inl e, s) \<and> \<not> P (Inl e, s)) \<or> (\<exists>x s. r = (Inr x, s) \<and> \<not> P (k x s)))"
  by (cases r) (auto simp: and_then_def split: sum.splits)

lemmas and_then_splits = and_then_split and_then_split_asm

text \<open>What every state predicate that both parts keep survives, whether or not one throws.\<close>

lemma and_then_keeps:
  assumes "Q (snd r)" and "\<And>x. fst r = Inr x \<Longrightarrow> Q (snd r) \<Longrightarrow> Q (snd (k x (snd r)))"
  shows "Q (snd (and_then r k))"
  using assms by (cases r; cases "fst r") (auto simp: and_then_def)

text \<open>A \<open>for ... of\<close> loop whose body may throw.\<close>

fun for_each :: "('x \<Rightarrow> 's \<Rightarrow> (unit, 's) result) \<Rightarrow> 'x list \<Rightarrow> 's \<Rightarrow> (unit, 's) result" where
  "for_each f [] s = (Inr (), s)"
| "for_each f (x # xs) s = and_then (f x s) (\<lambda>_ s1. for_each f xs s1)"

lemma for_each_keeps:
  assumes "\<And>x s. x \<in> set xs \<Longrightarrow> Q s \<Longrightarrow> Q (snd (f x s))" and "Q s"
  shows "Q (snd (for_each f xs s))"
  using assms
proof (induction xs arbitrary: s)
  case (Cons x xs)
  have "Q (snd (f x s))" using Cons.prems by simp
  then show ?case
    using Cons.IH Cons.prems(1) by (auto intro: and_then_keeps)
qed simp

text \<open>A loop that ran to its end kept whatever each completed round keeps.\<close>

lemma for_each_completes:
  assumes "for_each f xs s = (Inr u, t)"
    and "\<And>x s t. x \<in> set xs \<Longrightarrow> Q s \<Longrightarrow> f x s = (Inr (), t) \<Longrightarrow> Q t" and "Q s"
  shows "Q t"
  using assms
proof (induction xs arbitrary: s)
  case (Cons x xs)
  from Cons.prems(1) obtain s1 where
    fx: "f x s = (Inr (), s1)" and rest: "for_each f xs s1 = (Inr u, t)"
    by auto
  then have "Q s1" using Cons.prems(2,3) by (meson list.set_intros(1))
  with rest show ?case using Cons.IH Cons.prems(2) by (meson list.set_intros(2))
qed simp

subsection \<open>Tables\<close>

text \<open>
  A table is the list of its rows in insertion order; \<open>save\<close> overwrites the row with the
  same primary key or appends a new one, as \<open>repository.save\<close> does, and \<open>findOne\<close>
  by primary key returns the row or \<open>undefined\<close>.
\<close>

definition tbl_find :: "('r \<Rightarrow> 'k) \<Rightarrow> 'k \<Rightarrow> 'r list \<Rightarrow> 'r option" where
  "tbl_find key k t = List.find (\<lambda>r. key r = k) t"

fun tbl_save :: "('r \<Rightarrow> 'k) \<Rightarrow> 'r \<Rightarrow> 'r list \<Rightarrow> 'r list" where
  "tbl_save key r [] = [r]"
| "tbl_save key r (x # xs) = (if key x = key r then r # xs else x # tbl_save key r xs)"

lemma tbl_find_simps [simp]:
  "tbl_find key k [] = None"
  "tbl_find key k (x # xs) = (if key x = k then Some x else tbl_find key k xs)"
  by (simp_all add: tbl_find_def)

lemma tbl_find_save [simp]:
  "tbl_find key k (tbl_save key r t) = (if k = key r then Some r else tbl_find key k t)"
  by (induction t) auto

lemma tbl_find_key: "tbl_find key k t = Some r \<Longrightarrow> key r = k"
  by (induction t) (auto split: if_splits)

lemma tbl_find_mem: "tbl_find key k t = Some r \<Longrightarrow> r \<in> set t"
  by (induction t) (auto split: if_splits)

lemma tbl_save_mem: "x \<in> set (tbl_save key r t) \<Longrightarrow> x = r \<or> (x \<in> set t)"
  by (induction t) (auto split: if_splits)

lemma tbl_save_in [simp]: "r \<in> set (tbl_save key r t)"
  by (induction t) auto

lemma tbl_save_keys:
  "map key (tbl_save key r t) = (if key r \<in> set (map key t) then map key t else map key t @ [key r])"
  by (induction t) auto

lemma tbl_save_distinct: "distinct (map key t) \<Longrightarrow> distinct (map key (tbl_save key r t))"
  by (auto simp: tbl_save_keys simp del: set_map)

lemma tbl_find_distinct:
  "distinct (map key t) \<Longrightarrow> r \<in> set t \<Longrightarrow> tbl_find key (key r) t = Some r"
  by (induction t) (auto simp: image_iff)

lemma tbl_save_all: "\<forall>x \<in> set t. P x \<Longrightarrow> P r \<Longrightarrow> \<forall>x \<in> set (tbl_save key r t). P x"
  by (auto dest!: tbl_save_mem)

lemma tbl_find_none_iff: "tbl_find key k t = None \<longleftrightarrow> k \<notin> key ` set t"
  by (induction t) auto

lemma tbl_find_new:
  "\<forall>x \<in> set t. key x \<noteq> key r \<Longrightarrow> tbl_find key (key r) (t @ [r]) = Some r"
  by (induction t) auto

lemma tbl_find_append: "tbl_find key k (t @ u) = (case tbl_find key k t of None \<Rightarrow> tbl_find key k u | Some r \<Rightarrow> Some r)"
  by (induction t) auto

lemma tbl_save_new: "tbl_find key (key r) t = None \<Longrightarrow> tbl_save key r t = t @ [r]"
  by (induction t) (auto split: if_splits)

lemma tbl_save_replace:
  "key r \<notin> key ` set t \<Longrightarrow> key r' = key r \<Longrightarrow> tbl_save key r (t @ [r']) = t @ [r]"
  by (induction t) auto

text \<open>Saving a row back into its place shifts a sum over the table by the difference.\<close>

lemma sum_by_save:
  assumes "tbl_find key (key r) t = Some old"
  shows "sum_by f (tbl_save key r t) = sum_by f t - f old + f r"
  using assms by (induction t) (auto split: if_splits simp: algebra_simps)

lemma filter_save_unaffected:
  assumes "tbl_find key (key r) t = Some old" and "\<not> P old" and "\<not> P r"
  shows "filter P (tbl_save key r t) = filter P t"
  using assms by (induction t) (auto split: if_splits)

lemma tbl_save_map:
  "tbl_find key (key r) t = Some old \<Longrightarrow> f r = f old \<Longrightarrow> map f (tbl_save key r t) = map f t"
  by (induction t) (auto split: if_splits)

lemma tbl_save_others:
  "x \<in> set (tbl_save key r t) \<Longrightarrow> distinct (map key t) \<Longrightarrow> x = r \<or> (x \<in> set t \<and> key x \<noteq> key r)"
  by (induction t) (auto split: if_splits simp: image_iff)

subsection \<open>Maps of JavaScript\<close>

text \<open>A \<open>Map\<close> and an object keep their keys in the order in which they were first set.\<close>

fun map_set :: "'k \<Rightarrow> 'e \<Rightarrow> ('k \<times> 'e) list \<Rightarrow> ('k \<times> 'e) list" where
  "map_set k e [] = [(k, e)]"
| "map_set k e ((k', e') # m) = (if k = k' then (k, e) # m else (k', e') # map_set k e m)"

definition map_delete :: "'k \<Rightarrow> ('k \<times> 'e) list \<Rightarrow> ('k \<times> 'e) list" where
  "map_delete k m = filter (\<lambda>(k', _). k' \<noteq> k) m"

lemma map_of_map_set [simp]: "map_of (map_set k e m) k' = (if k' = k then Some e else map_of m k')"
  by (induction m) auto

lemma map_of_map_delete [simp]: "map_of (map_delete k m) k' = (if k' = k then None else map_of m k')"
  by (induction m) (auto simp: map_delete_def)

lemma map_set_keys: "map fst (map_set k e m) = (if k \<in> set (map fst m) then map fst m else map fst m @ [k])"
  by (induction m) (auto simp del: set_map)

lemma map_set_distinct: "distinct (map fst m) \<Longrightarrow> distinct (map fst (map_set k e m))"
  by (simp add: map_set_keys del: set_map)

lemma map_delete_distinct: "distinct (map fst m) \<Longrightarrow> distinct (map fst (map_delete k m))"
  by (simp add: map_delete_def distinct_map_filter)

lemma map_set_length: "map_of m k = Some e' \<Longrightarrow> length (map_set k e m) = length m"
  by (induction m) (auto split: if_splits)

lemma map_delete_length: "length (map_delete k m) \<le> length m"
  by (simp add: map_delete_def)

lemma map_delete_all:
  "fold map_delete ks m = filter (\<lambda>(k, _). k \<notin> set ks) m"
  by (induction ks arbitrary: m) (auto simp: map_delete_def intro!: filter_cong)

subsection \<open>The repository interface\<close>

text \<open>
  What the services rely on when they talk to a TypeORM repository of one entity: reading by
  primary key after a save, and that a save leaves the other rows alone.
\<close>

locale repository =
  fixes key :: "'r \<Rightarrow> 'k"
    and find_one :: "'k \<Rightarrow> 't \<Rightarrow> 'r option"
    and save :: "'r \<Rightarrow> 't \<Rightarrow> 't"
    and rows :: "'t \<Rightarrow> 'r list"
  assumes find_after_save: "find_one k (save r t) = (if k = key r then Some r else find_one k t)"
    and found_key: "find_one k t = Some r \<Longrightarrow> key r = k"
    and found_row: "find_one k t = Some r \<Longrightarrow> r \<in> set (rows t)"
    and saved_rows: "x \<in> set (rows (save r t)) \<Longrightarrow> x = r \<or> x \<in> set (rows t)"
begin

lemma find_other: "k \<noteq> key r \<Longrightarrow> find_one k (save r t) = find_one k t"
  by (simp add: find_after_save)

lemma save_last_wins:
  "key r = key r' \<Longrightarrow> find_one k (save r (save r' t)) = find_one k (save r t)"
  by (simp add: find_after_save)

lemma save_keeps_all:
  "\<forall>x \<in> set (rows t). P x \<Longrightarrow> P r \<Longrightarrow> \<forall>x \<in> set (rows (save r t)). P x"
  by (auto dest: saved_rows)

lemma found_satisfies:
  "\<forall>x \<in> set (rows t). P x \<Longrightarrow> find_one k t = Some r \<Longrightarrow> P r"
  by (auto dest: found_row)

text \<open>Read, change the row without touching its key, write back: an invariant of the rows that
  the change keeps is kept by the whole update.\<close>

lemma update_keeps_all:
  assumes "\<forall>x \<in> set (rows t). P x" and "find_one k t = Some r"
    and "P r \<Longrightarrow> P (upd r)"
  shows "\<forall>x \<in> set (rows (save (upd r) t)). P x"
proof -
  have "P r" using assms(1,2) by (rule found_satisfies)
  then have "P (upd r)" by (rule assms(3))
  with assms(1) show ?thesis by (rule save_keeps_all)
qed

lemma update_visible:
  assumes "find_one k t = Some r" and "key (upd r) = key r"
  shows "find_one k (save (upd r) t) = Some (upd r)"
  using assms by (simp add: find_after_save found_key)

lemma update_frame:
  assumes "find_one k t = Some r" and "key (upd r) = key r" and "j \<noteq> k"
  shows "find_one j (save (upd r) t) = find_one j t"
  using assms by (simp add: find_after_save found_key)

end

lemma table_repository: "repository key (tbl_find key) (tbl_save key) (\<lambda>t. t)"
  by unfold_locales (auto dest: tbl_find_key tbl_find_mem tbl_save_mem)

end
