(* ===== verification/Decimal.thy ===== *)
theory Decimal
  imports Prelude
begin

text \<open>
  Decimal text: the digits of a natural number (\<open>BigInt.prototype.toString\<close>,
  \<open>padStart\<close>), fixed-point text such as PostgreSQL gives for a \<open>numeric\<close> column, and
  the JavaScript values a decimal column can be read back as.
\<close>

subsection \<open>Digits\<close>

definition digit_char :: "nat \<Rightarrow> char" where
  "digit_char d = ''0123456789'' ! d"

definition digit_val :: "char \<Rightarrow> nat" where
  "digit_val c = of_char c - 48"

definition is_digit :: "char \<Rightarrow> bool" where
  "is_digit c \<longleftrightarrow> c \<in> set ''0123456789''"

lemma less_ten_cases:
  assumes "(d::nat) < 10"
  obtains "d = 0" | "d = 1" | "d = 2" | "d = 3" | "d = 4" | "d = 5" | "d = 6" | "d = 7" | "d = 8" | "d = 9"
  using assms by (auto simp: numeral_eq_Suc less_Suc_eq)

lemma digit_val_char [simp]: "d < 10 \<Longrightarrow> digit_val (digit_char d) = d"
  by (erule less_ten_cases) (simp_all add: digit_val_def digit_char_def)

lemma is_digit_char [simp]: "d < 10 \<Longrightarrow> is_digit (digit_char d)"
  unfolding is_digit_def digit_char_def by (rule nth_mem) simp

fun show_nat :: "nat \<Rightarrow> string" where
  "show_nat n = (if n < 10 then [digit_char n] else show_nat (n div 10) @ [digit_char (n mod 10)])"

declare show_nat.simps [simp del]

definition read_nat :: "string \<Rightarrow> nat" where
  "read_nat cs = foldl (\<lambda>a c. a * 10 + digit_val c) 0 cs"

lemma read_nat_simps [simp]:
  "read_nat [] = 0"
  "read_nat (cs @ [c]) = read_nat cs * 10 + digit_val c"
  by (simp_all add: read_nat_def)

lemma read_nat_Cons: "read_nat (c # cs) = digit_val c * 10 ^ length cs + read_nat cs"
proof (induction cs rule: rev_induct)
  case Nil
  then show ?case by (simp add: read_nat_def)
next
  case (snoc x xs)
  have "read_nat (c # xs @ [x]) = read_nat ((c # xs) @ [x])" by simp
  also have "\<dots> = read_nat (c # xs) * 10 + digit_val x"
    by (rule read_nat_simps(2))
  finally show ?case by (simp add: snoc algebra_simps)
qed

lemma read_nat_append: "read_nat (xs @ ys) = read_nat xs * 10 ^ length ys + read_nat ys"
  by (induction xs) (simp_all add: read_nat_Cons power_add algebra_simps)

lemma read_nat_zeros [simp]: "read_nat (replicate k (CHR ''0'')) = 0"
  by (induction k) (simp_all add: read_nat_Cons digit_val_def)

lemma read_show [simp]: "read_nat (show_nat n) = n"
proof (induction n rule: show_nat.induct)
  case (1 n)
  show ?case
  proof (cases "n < 10")
    case True
    then show ?thesis by (subst show_nat.simps) (simp add: read_nat_def)
  next
    case False
    then have "read_nat (show_nat (n div 10)) = n div 10" using 1 by simp
    with False show ?thesis by (subst show_nat.simps) simp
  qed
qed

lemma show_nat_digits: "\<forall>c \<in> set (show_nat n). is_digit c"
proof (induction n rule: show_nat.induct)
  case (1 n)
  show ?case
  proof (cases "n < 10")
    case True
    then show ?thesis by (subst show_nat.simps) simp
  next
    case False
    with 1 show ?thesis by (subst show_nat.simps) auto
  qed
qed

lemma show_nat_nonempty [simp]: "show_nat n \<noteq> []"
  by (subst show_nat.simps) simp

lemma length_show_nat: "n < 10 ^ k \<Longrightarrow> 0 < k \<Longrightarrow> length (show_nat n) \<le> k"
proof (induction n arbitrary: k rule: show_nat.induct)
  case (1 n)
  show ?case
  proof (cases "n < 10")
    case True
    with 1 show ?thesis by (subst show_nat.simps) simp
  next
    case False
    obtain j where k: "k = Suc j" using 1(3) by (cases k) auto
    have j: "0 < j" using False 1(2) k by (cases j) auto
    have "n div 10 < 10 ^ j" using 1(2) k by auto
    with 1(1) False j have "length (show_nat (n div 10)) \<le> j" by blast
    with False k show ?thesis by (subst show_nat.simps) simp
  qed
qed

text \<open>\<open>s.padStart(k, '0')\<close>.\<close>

definition pad_start :: "nat \<Rightarrow> string \<Rightarrow> string" where
  "pad_start k cs = replicate (k - length cs) (CHR ''0'') @ cs"

lemma read_nat_pad [simp]: "read_nat (pad_start k cs) = read_nat cs"
  by (simp add: pad_start_def read_nat_append)

lemma length_pad: "length cs \<le> k \<Longrightarrow> length (pad_start k cs) = k"
  by (simp add: pad_start_def)

lemma is_digit_zero [simp]: "is_digit (CHR ''0'')"
  by (simp add: is_digit_def)

lemma pad_digits: "\<forall>c \<in> set cs. is_digit c \<Longrightarrow> \<forall>c \<in> set (pad_start k cs). is_digit c"
  by (auto simp: pad_start_def)

subsection \<open>Splitting at the decimal point\<close>

definition dot :: char where "dot = CHR ''.''"
definition minus :: char where "minus = CHR ''-''"

definition before_dot :: "string \<Rightarrow> string" where
  "before_dot cs = takeWhile (\<lambda>c. c \<noteq> dot) cs"

text \<open>\<open>split('.')[1]\<close>, with the empty text for \<open>undefined\<close>.\<close>

definition after_dot :: "string \<Rightarrow> string" where
  "after_dot cs = takeWhile (\<lambda>c. c \<noteq> dot) (drop 1 (dropWhile (\<lambda>c. c \<noteq> dot) cs))"

lemma digit_not_dot: "is_digit c \<Longrightarrow> c \<noteq> dot" "is_digit c \<Longrightarrow> c \<noteq> minus"
  by (auto simp: is_digit_def dot_def minus_def)

lemma digits_not_dot: "\<forall>c \<in> set cs. is_digit c \<Longrightarrow> \<forall>c \<in> set cs. c \<noteq> dot"
  using digit_not_dot by blast

lemma before_dot_point: "\<forall>c \<in> set xs. c \<noteq> dot \<Longrightarrow> before_dot (xs @ dot # ys) = xs"
  unfolding before_dot_def by (induction xs) auto

lemma after_dot_point:
  "\<forall>c \<in> set xs. c \<noteq> dot \<Longrightarrow> \<forall>c \<in> set ys. c \<noteq> dot \<Longrightarrow> after_dot (xs @ dot # ys) = ys"
  unfolding after_dot_def by (simp add: dropWhile_append3 takeWhile_eq_all_conv)

lemma no_dot:
  assumes "\<forall>c \<in> set xs. c \<noteq> dot"
  shows "before_dot xs = xs" and "after_dot xs = []"
proof -
  have "dropWhile (\<lambda>c. c \<noteq> dot) xs = []" using assms by (simp add: dropWhile_eq_Nil_conv)
  then show "after_dot xs = []" unfolding after_dot_def by (simp only: drop_Nil takeWhile.simps)
  show "before_dot xs = xs" using assms by (simp add: before_dot_def takeWhile_eq_all_conv)
qed

subsection \<open>Fixed-point text\<close>

text \<open>The text of the integer \<open>k\<close> scaled by \<open>10 ^ p\<close>, with exactly \<open>p\<close> decimals.\<close>

definition fixed_text :: "nat \<Rightarrow> int \<Rightarrow> string" where
  "fixed_text p k =
     (let a = nat \<bar>k\<bar>; whole = show_nat (a div 10 ^ p);
          body = (if 0 < p then whole @ dot # pad_start p (show_nat (a mod 10 ^ p)) else whole)
      in if k < 0 then minus # body else body)"

text \<open>The value of decimal text (\<open>Number(text)\<close>); \<open>None\<close> is \<open>NaN\<close>. Exponents,
  hexadecimal literals and surrounding blanks, which no decimal column produces, are not
  read.\<close>

definition text_value :: "string \<Rightarrow> number option" where
  "text_value cs =
     (let neg = (case cs of [] \<Rightarrow> False | c # _ \<Rightarrow> c = minus);
          body = (if neg then tl cs else cs);
          w = before_dot body; f = after_dot body
      in if (\<forall>c \<in> set (w @ f). is_digit c) \<and> w @ f \<noteq> []
         then Some ((if neg then -1 else 1) * of_nat (read_nat (w @ f)) / 10 ^ length f)
         else None)"

lemma fixed_text_parts:
  fixes a p :: nat
  defines "f \<equiv> (if 0 < p then pad_start p (show_nat (a mod 10 ^ p)) else [])"
  shows "\<forall>c \<in> set f. is_digit c" and "length f = p"
    and "read_nat (show_nat (a div 10 ^ p) @ f) = a"
proof -
  show "\<forall>c \<in> set f. is_digit c"
    using pad_digits [OF show_nat_digits [of "a mod 10 ^ p"], of p] by (auto simp: f_def)
  show l: "length f = p"
  proof (cases "0 < p")
    case True
    have "length (show_nat (a mod 10 ^ p)) \<le> p" by (rule length_show_nat) (simp_all add: True)
    with True show ?thesis by (simp add: f_def length_pad)
  qed (simp add: f_def)
  have "read_nat f = a mod 10 ^ p" by (auto simp: f_def)
  then show "read_nat (show_nat (a div 10 ^ p) @ f) = a"
    by (simp add: read_nat_append l div_mult_mod_eq)
qed

text \<open>The pieces every reader of fixed-point text sees.\<close>

lemma fixed_text_body:
  obtains w f body where
    "fixed_text p k = (if k < 0 then minus # body else body)"
    and "before_dot body = w" and "after_dot body = f"
    and "\<forall>c \<in> set (w @ f). is_digit c" and "w \<noteq> []" and "length f = p"
    and "read_nat (w @ f) = nat \<bar>k\<bar>" and "\<exists>c cs. body = c # cs \<and> c \<noteq> minus"
proof
  define a where "a = nat \<bar>k\<bar>"
  define w where "w = show_nat (a div 10 ^ p)"
  define f where "f = (if 0 < p then pad_start p (show_nat (a mod 10 ^ p)) else [])"
  define body where "body = (if 0 < p then w @ dot # f else w)"
  have wd: "\<forall>c \<in> set w. is_digit c" by (simp add: w_def show_nat_digits)
  note fd = fixed_text_parts(1) [of p a, folded f_def]
  show fl: "length f = p" using fixed_text_parts(2) [of p a] by (simp add: f_def)
  show "read_nat (w @ f) = nat \<bar>k\<bar>"
    using fixed_text_parts(3) [of a p] by (simp add: w_def f_def a_def)
  show wne: "w \<noteq> []" by (simp add: w_def)
  show "before_dot body = w" "after_dot body = f"
    using no_dot [OF digits_not_dot [OF wd]] fl
      before_dot_point [OF digits_not_dot [OF wd], of f]
      after_dot_point [OF digits_not_dot [OF wd] digits_not_dot [OF fd]]
    by (auto simp: body_def)
  show "\<exists>c cs. body = c # cs \<and> c \<noteq> minus"
    using wne wd digit_not_dot(2) by (cases w) (auto simp: body_def)
  show "fixed_text p k = (if k < 0 then minus # body else body)"
    by (auto simp: fixed_text_def Let_def a_def w_def f_def body_def)
  show "\<forall>c \<in> set (w @ f). is_digit c" using wd fd by auto
qed

lemma text_value_fixed: "text_value (fixed_text p k) = Some (of_int k / 10 ^ p)"
proof -
  obtain w f body where tx: "fixed_text p k = (if k < 0 then minus # body else body)"
    and split: "before_dot body = w" "after_dot body = f"
    and digits: "\<forall>c \<in> set (w @ f). is_digit c" "w \<noteq> []" "length f = p"
    and val: "read_nat (w @ f) = nat \<bar>k\<bar>" and hd: "\<exists>c cs. body = c # cs \<and> c \<noteq> minus"
    by (rule fixed_text_body)
  show ?thesis
  proof (cases "k < 0")
    case True
    then have "of_int k = - (of_nat (nat \<bar>k\<bar>) :: number)" by simp
    with True show ?thesis
      using digits val by (auto simp: text_value_def Let_def tx split)
  next
    case False
    then have "of_int k = (of_nat (nat \<bar>k\<bar>) :: number)" by simp
    with False hd show ?thesis
      using digits val by (auto simp: text_value_def Let_def tx split)
  qed
qed

lemma text_value_point:
  assumes "\<forall>c \<in> set w. is_digit c" and "w \<noteq> []" and "\<forall>c \<in> set f. is_digit c"
  shows "text_value (w @ dot # f) = Some (of_nat (read_nat (w @ f)) / 10 ^ length f)"
proof -
  have "before_dot (w @ dot # f) = w" "after_dot (w @ dot # f) = f"
    using before_dot_point [OF digits_not_dot [OF assms(1)], of f]
      after_dot_point [OF digits_not_dot [OF assms(1)] digits_not_dot [OF assms(3)]] by auto
  moreover obtain c cs where "w @ dot # f = c # cs" "c \<noteq> minus"
    using assms(1,2) digit_not_dot(2) by (cases w) auto
  ultimately show ?thesis using assms by (auto simp: text_value_def Let_def)
qed

subsection \<open>parseInt\<close>

text \<open>\<open>parseInt\<close> on text without a sign reads the leading digits; without any it gives \<open>NaN\<close>.\<close>

definition parse_int :: "string \<Rightarrow> nat option" where
  "parse_int t = (let ds = takeWhile is_digit t in if ds = [] then None else Some (read_nat ds))"

lemma parse_int_show [simp]: "parse_int (show_nat n) = Some n"
proof -
  have "takeWhile is_digit (show_nat n) = show_nat n" using show_nat_digits by (simp add: takeWhile_eq_all_conv)
  then show ?thesis by (simp only: parse_int_def Let_def show_nat_nonempty if_False read_show)
qed

end
