(* ===== verification/Pricing.thy ===== *)
theory Pricing
  imports Decimal "HOL-Library.Multiset"
begin

text \<open>
  \<open>PricingService\<close> (src/src/products/services/pricing.service.ts): prices as decimal text
  and \<open>BigInt\<close> minor units, conversion between currencies with half-up rounding, and the
  order total. \<open>PriceService\<close> supplies the live rates. BigInt arithmetic is exact, so
  nothing is abstracted in the minor-unit computations.
\<close>

subsection \<open>Currencies and their tables\<close>

datatype currency = XLM | USDC | USD

fun precisionByCurrency :: "currency \<Rightarrow> nat" where
  "precisionByCurrency XLM = 7"
| "precisionByCurrency USDC = 2"
| "precisionByCurrency USD = 2"

fun minPriceByCurrency :: "currency \<Rightarrow> string" where
  "minPriceByCurrency XLM = ''0.0000001''"
| "minPriceByCurrency USDC = ''0.01''"
| "minPriceByCurrency USD = ''0.01''"

fun maxPriceByCurrency :: "currency \<Rightarrow> string" where
  "maxPriceByCurrency XLM = ''1000000000''"
| "maxPriceByCurrency USDC = ''1000000000''"
| "maxPriceByCurrency USD = ''1000000000''"

fun defaultRates :: "currency \<Rightarrow> string" where
  "defaultRates XLM = ''0.1200000''"
| "defaultRates USDC = ''1.0000000''"
| "defaultRates USD = ''1.0000000''"

definition getCurrencyPrecision :: "currency \<Rightarrow> nat" where
  "getCurrencyPrecision c = precisionByCurrency c"

fun currency_code :: "currency \<Rightarrow> string" where
  "currency_code XLM = ''XLM''"
| "currency_code USDC = ''USDC''"
| "currency_code USD = ''USD''"

subsection \<open>BigInt helpers\<close>

text \<open>\<open>pow10\<close> of a difference of scales: 1 for a power that is not positive.\<close>

definition pow10 :: "int \<Rightarrow> int" where
  "pow10 p = (if p \<le> 0 then 1 else 10 ^ nat p)"

text \<open>BigInt division truncates towards zero and the remainder takes the sign of the
  dividend.\<close>

definition big_div :: "int \<Rightarrow> int \<Rightarrow> int" where
  "big_div a b = sgn a * sgn b * (\<bar>a\<bar> div \<bar>b\<bar>)"

definition big_mod :: "int \<Rightarrow> int \<Rightarrow> int" where
  "big_mod a b = a - b * big_div a b"

definition divideWithHalfUp :: "int \<Rightarrow> int \<Rightarrow> int" where
  "divideWithHalfUp numerator denominator =
     (let quotient = big_div numerator denominator;
          remainder = big_mod numerator denominator
      in if remainder = 0 then quotient
         else
           let absRemainder = (if remainder < 0 then - remainder else remainder);
               absDenominator = (if denominator < 0 then - denominator else denominator);
               shouldRoundUp = (absRemainder * 2 \<ge> absDenominator)
           in if \<not> shouldRoundUp then quotient
              else let sign = (if numerator \<ge> 0 then 1 else -1) in quotient + sign)"

subsection \<open>Decimal text\<close>

record decimal_value =
  dv_int :: int
  dv_scale :: nat

definition getScale :: "string \<Rightarrow> nat" where
  "getScale value = length (after_dot value)"

text \<open>Leading zeros do not change what \<open>BigInt\<close> reads, so the \<open>replace\<close> that strips
  them is not repeated; text with a character that is not a digit is a \<open>SyntaxError\<close>.\<close>

definition parseDecimal :: "string \<Rightarrow> error + decimal_value" where
  "parseDecimal value =
     (let negative = (case value of [] \<Rightarrow> False | c # _ \<Rightarrow> c = minus);
          clean = (if negative then drop 1 value else value);
          integerPart = (if before_dot clean = [] then ''0'' else before_dot clean);
          fractionPart = after_dot clean;
          combined = integerPart @ fractionPart
      in if \<forall>c \<in> set combined. is_digit c
         then Inr \<lparr>dv_int = (if negative then - int (read_nat combined) else int (read_nat combined)),
                   dv_scale = length fractionPart\<rparr>
         else Inl (Error [Txt ''Cannot convert '', Txt combined, Txt '' to a BigInt'']))"

definition toMinorUnitsFromString :: "string \<Rightarrow> currency \<Rightarrow> error + int" where
  "toMinorUnitsFromString value cur =
     (case parseDecimal value of
        Inl e \<Rightarrow> Inl e
      | Inr d \<Rightarrow>
          let exponent = int (getCurrencyPrecision cur) - int (dv_scale d)
          in if exponent \<ge> 0 then Inr (dv_int d * pow10 exponent)
             else Inr (divideWithHalfUp (dv_int d) (pow10 (- exponent))))"

definition fromMinorUnitsToDecimalString :: "int \<Rightarrow> currency \<Rightarrow> string" where
  "fromMinorUnitsToDecimalString amountMinor cur =
     (let precision = getCurrencyPrecision cur;
          negative = (amountMinor < 0);
          absolute = (if negative then - amountMinor else amountMinor);
          base = pow10 (int precision);
          integer = big_div absolute base;
          fractional = big_mod absolute base;
          fractionalString =
            (if precision > 0 then pad_start precision (show_nat (nat fractional)) else []);
          value = (if precision > 0 then show_nat (nat integer) @ dot # fractionalString
                   else show_nat (nat integer))
      in if negative then minus # value else value)"

text \<open>\<open>fromMinorUnits\<close> builds the same text and applies \<open>Number\<close> to it.\<close>

definition fromMinorUnits :: "int \<Rightarrow> currency \<Rightarrow> number option" where
  "fromMinorUnits amountMinor cur = text_value (fromMinorUnitsToDecimalString amountMinor cur)"

subsection \<open>Numbers\<close>

text \<open>
  A JavaScript number is finite or not (\<open>NaN\<close> and the infinities).
  \<open>Number.prototype.toString\<close> of a finite number is plain decimal text unless the
  magnitude is below \<open>1e-6\<close> or at least \<open>1e21\<close>; then \<open>toFixed(12)\<close> with its
  trailing zeros stripped is used. Plain text has at most 25 decimals, which every double
  of that range needs at most. From \<open>1e21\<close> on \<open>toFixed\<close> still gives exponent text,
  which no later step can read; the model keeps only that (\<open>''e''\<close>).
\<close>

datatype js_number = Finite number | NotFinite

fun frac_digits :: "nat \<Rightarrow> number \<Rightarrow> string" where
  "frac_digits 0 r = []"
| "frac_digits (Suc n) r =
     (if r = 0 then [] else digit_char (nat \<lfloor>10 * r\<rfloor>) # frac_digits n (10 * r - of_int \<lfloor>10 * r\<rfloor>))"

definition number_text :: "number \<Rightarrow> string" where
  "number_text r =
     (let a = \<bar>r\<bar>; w = \<lfloor>a\<rfloor>; f = a - of_int w;
          body = (if f = 0 then show_nat (nat w) else show_nat (nat w) @ dot # frac_digits 25 f)
      in if r < 0 then minus # body else body)"

definition exponent_form :: "number \<Rightarrow> bool" where
  "exponent_form r \<longleftrightarrow> r \<noteq> 0 \<and> (\<bar>r\<bar> < 1 / 1000000 \<or> 10 ^ 21 \<le> \<bar>r\<bar>)"

text \<open>\<open>toFixed(k)\<close> for a magnitude below \<open>1e21\<close>: the nearest integer of \<open>r * 10 ^ k\<close>,
  the larger magnitude on a tie.\<close>

definition to_fixed :: "nat \<Rightarrow> number \<Rightarrow> string" where
  "to_fixed k r =
     (let n = \<lfloor>\<bar>r\<bar> * 10 ^ k + 1 / 2\<rfloor> in (if r < 0 then minus # fixed_text k n else fixed_text k n))"

definition trim_zeros :: "string \<Rightarrow> string" where
  "trim_zeros cs =
     (let stripped = rev (dropWhile (\<lambda>c. c = CHR ''0'') (rev cs))
      in if stripped \<noteq> [] \<and> last stripped = dot then butlast stripped else stripped)"

definition normalizeNumberString :: "js_number \<Rightarrow> error + string" where
  "normalizeNumberString v =
     (case v of
        NotFinite \<Rightarrow> Inl (BadRequestException [Txt ''Price must be a finite number.''])
      | Finite r \<Rightarrow>
          if \<not> exponent_form r then Inr (number_text r)
          else if 10 ^ 21 \<le> \<bar>r\<bar> then Inr ''e''
          else Inr (trim_zeros (to_fixed 12 r)))"

definition toMinorUnits :: "js_number \<Rightarrow> currency \<Rightarrow> error + int" where
  "toMinorUnits amount cur =
     (case normalizeNumberString amount of
        Inl e \<Rightarrow> Inl e | Inr t \<Rightarrow> toMinorUnitsFromString t cur)"

text \<open>A price or amount argument is a number or decimal text.\<close>

datatype price_arg = NumArg js_number | TextArg string

definition minor_of_arg :: "price_arg \<Rightarrow> currency \<Rightarrow> error + int" where
  "minor_of_arg p cur =
     (case p of NumArg n \<Rightarrow> toMinorUnits n cur | TextArg t \<Rightarrow> toMinorUnitsFromString t cur)"

definition toMinorUnitsString :: "price_arg \<Rightarrow> currency \<Rightarrow> error + string" where
  "toMinorUnitsString p cur =
     (case minor_of_arg p cur of
        Inl e \<Rightarrow> Inl e | Inr k \<Rightarrow> Inr (fixed_text 0 k))"

definition too_precise :: "currency \<Rightarrow> error" where
  "too_precise cur = BadRequestException
     [Txt ''Invalid precision for '', Txt (currency_code cur), Txt ''. Maximum '',
      Num (of_nat (getCurrencyPrecision cur)), Txt '' decimal places are allowed.'']"

definition price_out_of_range :: "currency \<Rightarrow> error" where
  "price_out_of_range cur = BadRequestException
     [Txt ''Price for '', Txt (currency_code cur), Txt '' must be between '',
      Txt (minPriceByCurrency cur), Txt '' and '', Txt (maxPriceByCurrency cur), Txt ''.'']"

definition validatePrice :: "js_number \<Rightarrow> currency \<Rightarrow> error + unit" where
  "validatePrice amount cur =
     (case normalizeNumberString amount of
        Inl e \<Rightarrow> Inl e
      | Inr amountString \<Rightarrow>
          if getScale amountString > getCurrencyPrecision cur then Inl (too_precise cur)
          else
            case toMinorUnitsFromString amountString cur of
              Inl e \<Rightarrow> Inl e
            | Inr amountMinor \<Rightarrow>
              case toMinorUnitsFromString (minPriceByCurrency cur) cur of
                Inl e \<Rightarrow> Inl e
              | Inr minMinor \<Rightarrow>
                case toMinorUnitsFromString (maxPriceByCurrency cur) cur of
                  Inl e \<Rightarrow> Inl e
                | Inr maxMinor \<Rightarrow>
                    if amountMinor < minMinor \<or> amountMinor > maxMinor
                    then Inl (price_out_of_range cur) else Inr ())"

definition validateAmountForConversion :: "js_number \<Rightarrow> currency \<Rightarrow> error + unit" where
  "validateAmountForConversion amount cur =
     (case normalizeNumberString amount of
        Inl e \<Rightarrow> Inl e
      | Inr amountString \<Rightarrow>
          if getScale amountString > getCurrencyPrecision cur then Inl (too_precise cur)
          else Inr ())"

subsection \<open>Conversion\<close>

text \<open>The live rates of \<open>PriceService\<close> (\<open>None\<close>: the service is not injected).\<close>

record rate_cache =
  XLM_USD :: number
  USDC_USD :: number

definition getLiveRates :: "rate_cache option \<Rightarrow> currency \<Rightarrow> string" where
  "getLiveRates ps c =
     (case ps of
        None \<Rightarrow> defaultRates c
      | Some rates \<Rightarrow>
          (case c of XLM \<Rightarrow> to_fixed 7 (XLM_USD rates)
                   | USDC \<Rightarrow> to_fixed 7 (USDC_USD rates)
                   | USD \<Rightarrow> ''1.0000000''))"

definition convertMinorUnits :: "(currency \<Rightarrow> string) \<Rightarrow> int \<Rightarrow> currency \<Rightarrow> currency \<Rightarrow> error + int" where
  "convertMinorUnits rates sourceMinor sourceCurrency targetCurrency =
     (case parseDecimal (rates sourceCurrency) of
        Inl e \<Rightarrow> Inl e
      | Inr sourceRate \<Rightarrow>
        case parseDecimal (rates targetCurrency) of
          Inl e \<Rightarrow> Inl e
        | Inr targetRate \<Rightarrow>
          let sourceScale = int (getCurrencyPrecision sourceCurrency);
              targetScale = int (getCurrencyPrecision targetCurrency);
              exponent = int (dv_scale targetRate) + targetScale - sourceScale - int (dv_scale sourceRate);
              numeratorMultiplier = (if exponent \<ge> 0 then pow10 exponent else 1);
              denominatorMultiplier = (if exponent < 0 then pow10 (- exponent) else 1);
              numerator = sourceMinor * dv_int sourceRate * numeratorMultiplier;
              denominator = dv_int targetRate * denominatorMultiplier
          in if denominator = 0
             then Inl (BadRequestException [Txt ''Invalid conversion rate configuration.''])
             else Inr (divideWithHalfUp numerator denominator))"

definition roundToCurrency :: "js_number \<Rightarrow> currency \<Rightarrow> error + number option" where
  "roundToCurrency amount cur =
     (case toMinorUnits amount cur of
        Inl e \<Rightarrow> Inl e | Inr minor \<Rightarrow> Inr (fromMinorUnits minor cur))"

definition convertAmount ::
  "(currency \<Rightarrow> string) \<Rightarrow> js_number \<Rightarrow> currency \<Rightarrow> currency \<Rightarrow> error + number option" where
  "convertAmount rates amount sourceCurrency targetCurrency =
     (case validateAmountForConversion amount sourceCurrency of
        Inl e \<Rightarrow> Inl e
      | Inr _ \<Rightarrow>
          if sourceCurrency = targetCurrency then roundToCurrency amount targetCurrency
          else
            case toMinorUnits amount sourceCurrency of
              Inl e \<Rightarrow> Inl e
            | Inr sourceMinor \<Rightarrow>
              case convertMinorUnits rates sourceMinor sourceCurrency targetCurrency of
                Inl e \<Rightarrow> Inl e
              | Inr targetMinor \<Rightarrow> Inr (fromMinorUnits targetMinor targetCurrency))"

definition getConversionRate ::
  "(currency \<Rightarrow> string) \<Rightarrow> currency \<Rightarrow> currency \<Rightarrow> error + number option" where
  "getConversionRate rates sourceCurrency targetCurrency =
     (if sourceCurrency = targetCurrency then Inr (Some 1)
      else
        case convertMinorUnits rates (pow10 (int (getCurrencyPrecision sourceCurrency)))
               sourceCurrency targetCurrency of
          Inl e \<Rightarrow> Inl e
        | Inr convertedMinor \<Rightarrow> Inr (fromMinorUnits convertedMinor targetCurrency))"

definition multiplyAmount :: "js_number \<Rightarrow> int \<Rightarrow> currency \<Rightarrow> error + number option" where
  "multiplyAmount amount quantity cur =
     (case toMinorUnits amount cur of
        Inl e \<Rightarrow> Inl e
      | Inr amountMinor \<Rightarrow> Inr (fromMinorUnits (amountMinor * quantity) cur))"

fun add_minor :: "js_number list \<Rightarrow> currency \<Rightarrow> int \<Rightarrow> error + int" where
  "add_minor [] cur acc = Inr acc"
| "add_minor (v # vs) cur acc =
     (case toMinorUnits v cur of Inl e \<Rightarrow> Inl e | Inr k \<Rightarrow> add_minor vs cur (acc + k))"

definition addAmounts :: "js_number list \<Rightarrow> currency \<Rightarrow> error + number option" where
  "addAmounts amounts cur =
     (case add_minor amounts cur 0 of
        Inl e \<Rightarrow> Inl e | Inr totalMinor \<Rightarrow> Inr (fromMinorUnits totalMinor cur))"

record priced_item =
  pi_price :: price_arg
  pi_currency :: currency
  pi_quantity :: int

fun order_total_minor ::
  "(currency \<Rightarrow> string) \<Rightarrow> priced_item list \<Rightarrow> currency \<Rightarrow> int \<Rightarrow> error + int" where
  "order_total_minor rates [] target totalMinor = Inr totalMinor"
| "order_total_minor rates (item # items) target totalMinor =
     (case minor_of_arg (pi_price item) (pi_currency item) of
        Inl e \<Rightarrow> Inl e
      | Inr sourceMinor \<Rightarrow>
        case convertMinorUnits rates sourceMinor (pi_currency item) target of
          Inl e \<Rightarrow> Inl e
        | Inr convertedMinor \<Rightarrow>
            order_total_minor rates items target (totalMinor + convertedMinor * pi_quantity item))"

definition calculateOrderTotal ::
  "(currency \<Rightarrow> string) \<Rightarrow> priced_item list \<Rightarrow> currency \<Rightarrow> error + string" where
  "calculateOrderTotal rates items target =
     (case order_total_minor rates items target 0 of
        Inl e \<Rightarrow> Inl e
      | Inr totalMinor \<Rightarrow> Inr (fromMinorUnitsToDecimalString totalMinor target))"

definition convertAmountToString ::
  "(currency \<Rightarrow> string) \<Rightarrow> price_arg \<Rightarrow> currency \<Rightarrow> currency \<Rightarrow> error + string" where
  "convertAmountToString rates amount sourceCurrency targetCurrency =
     (case minor_of_arg amount sourceCurrency of
        Inl e \<Rightarrow> Inl e
      | Inr sourceMinor \<Rightarrow>
        case convertMinorUnits rates sourceMinor sourceCurrency targetCurrency of
          Inl e \<Rightarrow> Inl e
        | Inr targetMinor \<Rightarrow> Inr (fromMinorUnitsToDecimalString targetMinor targetCurrency))"

subsection \<open>Half-up division\<close>

lemma big_div_nonneg: "0 \<le> n \<Longrightarrow> 0 < d \<Longrightarrow> big_div n d = n div d"
  by (cases "n = 0") (auto simp: big_div_def)

lemma big_mod_nonneg: "0 \<le> n \<Longrightarrow> 0 < d \<Longrightarrow> big_mod n d = n mod d"
  by (simp add: big_mod_def big_div_nonneg minus_mult_div_eq_mod)

lemma half_up_nonneg:
  assumes "0 \<le> n" and d: "0 < d"
  shows "divideWithHalfUp n d = (2 * n + d) div (2 * d)"
proof -
  define q r where "q = n div d" and "r = n mod d"
  have r: "0 \<le> r" "r < d" using d by (simp_all add: r_def)
  have n: "n = d * q + r" by (simp add: q_def r_def)
  have "(2 * n + d) div (2 * d) = (2 * r + d + q * (2 * d)) div (2 * d)"
    by (simp add: n algebra_simps)
  also have "\<dots> = q + (2 * r + d) div (2 * d)" using d by simp
  also have "(2 * r + d) div (2 * d) = (if d \<le> 2 * r then 1 else 0)"
    using d r by (auto simp: div_pos_pos_trivial int_div_pos_eq [where q = 1 and r = "2 * r - d"])
  finally show ?thesis
    using assms r by (auto simp: divideWithHalfUp_def Let_def big_div_nonneg big_mod_nonneg q_def r_def)
qed

lemma half_up_uminus:
  assumes "0 < n" and "0 < d"
  shows "divideWithHalfUp (- n) d = - divideWithHalfUp n d"
  using assms
  by (auto simp: divideWithHalfUp_def Let_def big_div_def big_mod_def)

lemma half_up_closed:
  assumes "0 < d"
  shows "divideWithHalfUp n d = sgn n * ((2 * \<bar>n\<bar> + d) div (2 * d))"
proof (cases "n < 0")
  case True
  then have "divideWithHalfUp (- (- n)) d = - divideWithHalfUp (- n) d"
    using assms by (intro half_up_uminus) simp_all
  with True assms show ?thesis by (simp add: half_up_nonneg)
next
  case False
  with assms show ?thesis
    by (cases "n = 0") (simp_all add: half_up_nonneg)
qed

lemma half_up_nearest:
  assumes d: "0 < d"
  shows "2 * \<bar>n - d * divideWithHalfUp n d\<bar> \<le> d"
proof -
  define m where "m = \<bar>n\<bar>"
  define q where "q = (2 * m + d) div (2 * d)"
  have "2 * m + d = 2 * d * q + (2 * m + d) mod (2 * d)" by (simp add: q_def)
  moreover have "0 \<le> (2 * m + d) mod (2 * d)" "(2 * m + d) mod (2 * d) < 2 * d"
    using d by simp_all
  ultimately have "2 * d * q \<le> 2 * m + d" "2 * m + d < 2 * d * q + 2 * d" by linarith+
  then have "2 * \<bar>m - d * q\<bar> \<le> d" by (auto simp: abs_if)
  moreover have "n - d * divideWithHalfUp n d = sgn n * (m - d * q)"
    by (cases "n = 0") (auto simp: half_up_closed [OF d] m_def q_def sgn_if algebra_simps)
  ultimately show ?thesis
    by (cases "n = 0") (auto simp: abs_mult abs_sgn_eq half_up_closed [OF d] d less_imp_le)
qed

subsection \<open>Reading and writing minor units\<close>

lemma pow10_nat [simp]: "pow10 (int n) = 10 ^ n"
  by (simp add: pow10_def)

lemma pow10_pos [simp]: "0 < pow10 p"
  by (simp add: pow10_def)

lemma precision_pos [simp]: "0 < precisionByCurrency c"
  by (cases c) simp_all

lemma nat_big_parts:
  assumes "0 \<le> a"
  shows "nat (big_div a (10 ^ p)) = nat a div 10 ^ p" "nat (big_mod a (10 ^ p)) = nat a mod 10 ^ p"
  using assms by (simp_all add: big_div_nonneg big_mod_nonneg nat_div_distrib nat_mod_distrib nat_power_eq)

lemma fromMinor_text: "fromMinorUnitsToDecimalString k c = fixed_text (precisionByCurrency c) k"
  by (cases "k < 0")
    (simp_all add: fromMinorUnitsToDecimalString_def getCurrencyPrecision_def fixed_text_def
      Let_def nat_big_parts)

lemma parse_fixed: "parseDecimal (fixed_text p k) = Inr \<lparr>dv_int = k, dv_scale = p\<rparr>"
proof -
  obtain w f body where tx: "fixed_text p k = (if k < 0 then minus # body else body)"
    and split: "before_dot body = w" "after_dot body = f"
    and digits: "\<forall>c \<in> set (w @ f). is_digit c" "w \<noteq> []" "length f = p"
    and val: "read_nat (w @ f) = nat \<bar>k\<bar>" and hd: "\<exists>c cs. body = c # cs \<and> c \<noteq> minus"
    by (rule fixed_text_body)
  show ?thesis
    using hd digits val by (auto simp: parseDecimal_def Let_def tx split)
qed

lemma toMinor_fixed:
  "toMinorUnitsFromString (fixed_text (precisionByCurrency c) k) c = Inr k"
  by (simp add: toMinorUnitsFromString_def parse_fixed getCurrencyPrecision_def Let_def pow10_def)

lemma fromMinorUnits_value: "fromMinorUnits k c = Some (of_int k / 10 ^ precisionByCurrency c)"
  by (simp add: fromMinorUnits_def fromMinor_text text_value_fixed)

text \<open>
  Property C37: writing minor units as a decimal string and reading the string back gives the
  same minor units, in every currency and for every integer, negative ones included; and the
  number the string denotes is the minor units over the currency's power of ten.
\<close>

theorem minor_units_roundtrip:
  "toMinorUnitsFromString (fromMinorUnitsToDecimalString k c) c = Inr k \<and>
   fromMinorUnits k c = Some (of_int k / 10 ^ getCurrencyPrecision c)"
  by (simp add: fromMinor_text toMinor_fixed fromMinorUnits_value getCurrencyPrecision_def)

subsection \<open>Accuracy of a conversion\<close>

text \<open>The quotient the conversion rounds, as an exact rational.\<close>

lemma scale_multipliers:
  fixes e :: int
  assumes "e = int a - int b"
  shows "of_int (if 0 \<le> e then pow10 e else 1) / of_int (if e < 0 then pow10 (- e) else 1)
         = (10 ^ a / 10 ^ b :: number)"
proof (cases "0 \<le> e")
  case True
  then have "of_int (pow10 e) = (10 ^ (a - b) :: number)" and "b \<le> a" using assms by (auto simp: pow10_def nat_diff_distrib')
  with True show ?thesis by (simp add: power_diff)
next
  case False
  then have "of_int (pow10 (- e)) = (10 ^ (b - a) :: number)" and "a \<le> b" using assms by (auto simp: pow10_def nat_diff_distrib')
  with False show ?thesis by (simp add: power_diff)
qed

lemma nearest_quotient:
  assumes "0 < d"
  shows "\<bar>of_int n / of_int d - of_int (divideWithHalfUp n d)\<bar> \<le> (1 / 2 :: number)"
proof -
  let ?q = "divideWithHalfUp n d"
  have "of_int (2 * \<bar>n - d * ?q\<bar>) \<le> (of_int d :: number)"
    using half_up_nearest [OF assms, of n] by (simp only: of_int_le_iff)
  then have "2 * \<bar>of_int n - of_int d * of_int ?q\<bar> \<le> (of_int d :: number)" by simp
  moreover have "of_int n - of_int d * of_int ?q
      = of_int d * (of_int n / of_int d - of_int ?q :: number)"
    using assms by (simp add: right_diff_distrib)
  ultimately have "of_int d * (2 * \<bar>of_int n / of_int d - of_int ?q\<bar>) \<le> (of_int d * 1 :: number)"
    using assms by (simp add: abs_mult mult.left_commute)
  then show ?thesis
    using assms by (simp only: mult_le_cancel_left_pos of_int_0_less_iff) simp
qed

lemma convertMinorUnits_accuracy:
  assumes rs: "parseDecimal (rates s) = Inr rs" and rt: "parseDecimal (rates t) = Inr rt"
    and pos: "0 < dv_int rt"
  shows "\<exists>k. convertMinorUnits rates m s t = Inr k \<and>
    \<bar>of_int m * (of_int (dv_int rs) / of_int (dv_int rt))
       * (10 ^ (dv_scale rt + getCurrencyPrecision t) / 10 ^ (getCurrencyPrecision s + dv_scale rs))
     - of_int k\<bar> \<le> (1 / 2 :: number)"
proof -
  define e where "e = int (dv_scale rt) + int (getCurrencyPrecision t)
      - int (getCurrencyPrecision s) - int (dv_scale rs)"
  define n where "n = m * dv_int rs * (if 0 \<le> e then pow10 e else 1)"
  define d where "d = dv_int rt * (if e < 0 then pow10 (- e) else 1)"
  have d: "0 < d" using pos by (simp add: d_def pow10_def)
  have e: "e = int (dv_scale rt + getCurrencyPrecision t) - int (getCurrencyPrecision s + dv_scale rs)"
    by (simp add: e_def)
  have "of_int n / of_int d = of_int m * (of_int (dv_int rs) / of_int (dv_int rt))
      * (of_int (if 0 \<le> e then pow10 e else 1) / of_int (if e < 0 then pow10 (- e) else 1) :: number)"
    by (simp add: n_def d_def)
  also have "\<dots> = of_int m * (of_int (dv_int rs) / of_int (dv_int rt))
      * (10 ^ (dv_scale rt + getCurrencyPrecision t) / 10 ^ (getCurrencyPrecision s + dv_scale rs))"
    by (simp only: scale_multipliers [OF e])
  finally have quotient: "of_int n / of_int d = \<dots>" .
  have "convertMinorUnits rates m s t = Inr (divideWithHalfUp n d)"
    using rs rt pos by (simp add: convertMinorUnits_def Let_def n_def d_def e_def pow10_pos [THEN less_imp_neq, symmetric])
  with nearest_quotient [OF d, of n] quotient show ?thesis by simp
qed

lemma text_value_parse:
  assumes "text_value cs = Some v"
  shows "\<exists>d. parseDecimal cs = Inr d \<and> v = of_int (dv_int d) / 10 ^ dv_scale d"
proof -
  define neg where "neg = (case cs of [] \<Rightarrow> False | c # _ \<Rightarrow> c = minus)"
  define body where "body = (if neg then tl cs else cs)"
  define w where "w = before_dot body"
  define f where "f = after_dot body"
  have digits: "\<forall>c \<in> set (w @ f). is_digit c"
    and v: "v = (if neg then -1 else 1) * of_nat (read_nat (w @ f)) / 10 ^ length f"
    using assms by (auto simp: text_value_def Let_def neg_def body_def w_def f_def split: if_splits)
  have zero: "read_nat (''0'' @ f) = read_nat f"
    by (simp add: read_nat_append read_nat_Cons digit_val_def)
  have clean: "(if neg then drop 1 cs else cs) = body" by (simp add: body_def drop_Suc)
  have "parseDecimal cs = Inr \<lparr>dv_int = (if neg then - int (read_nat (w @ f)) else int (read_nat (w @ f))),
      dv_scale = length f\<rparr>"
    unfolding parseDecimal_def Let_def neg_def [symmetric] clean w_def [symmetric] f_def [symmetric]
    using digits zero by (cases "w = []") auto
  then show ?thesis using v by auto
qed

text \<open>
  For any table of rates whose two entries read as decimal numbers \<open>a\<close> and
  \<open>b > 0\<close>, the conversion of \<open>m\<close> minor units succeeds, and the amount it gives differs from
  the exact product of the amount with \<open>a / b\<close> by at most half a minor unit of the target
  currency, whatever the two currencies' precisions.
\<close>

lemma conversion_within_half_unit:
  assumes "text_value (rates s) = Some a" and "text_value (rates t) = Some b" and "0 < b"
  shows "\<exists>k. convertMinorUnits rates m s t = Inr k \<and>
    \<bar>of_int k / 10 ^ getCurrencyPrecision t - of_int m / 10 ^ getCurrencyPrecision s * (a / b)\<bar>
      \<le> 1 / 2 / 10 ^ getCurrencyPrecision t"
proof -
  define p where "p = getCurrencyPrecision t"
  obtain rs rt where rs: "parseDecimal (rates s) = Inr rs" and rt: "parseDecimal (rates t) = Inr rt"
    and a: "a = of_int (dv_int rs) / 10 ^ dv_scale rs" and b: "b = of_int (dv_int rt) / 10 ^ dv_scale rt"
    using assms(1,2) [THEN text_value_parse] by blast
  have pos: "0 < dv_int rt" using assms(3) by (simp add: b zero_less_divide_iff)
  obtain k where k: "convertMinorUnits rates m s t = Inr k"
    and near: "\<bar>of_int m * (of_int (dv_int rs) / of_int (dv_int rt))
       * (10 ^ (dv_scale rt + p) / 10 ^ (getCurrencyPrecision s + dv_scale rs))
     - of_int k\<bar> \<le> (1 / 2 :: number)"
    using convertMinorUnits_accuracy [OF rs rt pos, of m] by (auto simp: p_def)
  define x where "x = of_int m / 10 ^ getCurrencyPrecision s * (a / b)"
  have "of_int m * (of_int (dv_int rs) / of_int (dv_int rt))
       * (10 ^ (dv_scale rt + p) / 10 ^ (getCurrencyPrecision s + dv_scale rs)) = x * 10 ^ p"
    by (simp add: x_def a b power_add mult_ac)
  with near have "\<bar>x * 10 ^ p - of_int k\<bar> \<le> 1 / 2" by simp
  then have "\<bar>x * 10 ^ p - of_int k\<bar> / 10 ^ p \<le> 1 / 2 / 10 ^ p"
    by (rule divide_right_mono) simp
  moreover have "\<bar>of_int k / 10 ^ p - x\<bar> = \<bar>(x * 10 ^ p - of_int k) / 10 ^ p\<bar>"
    by (simp add: diff_divide_distrib abs_minus_commute)
  ultimately have "\<bar>of_int k / 10 ^ p - x\<bar> \<le> 1 / 2 / 10 ^ p" by simp
  with k show ?thesis by (auto simp: p_def x_def)
qed

theorem conversion_within_half_unit_witness:
  "text_value (defaultRates XLM) = Some (3 / 25) \<and> text_value (defaultRates USD) = Some 1 \<and>
   (\<exists>k. convertMinorUnits defaultRates 125000000 XLM USD = Inr k \<and>
     \<bar>of_int k / 10 ^ getCurrencyPrecision USD
       - of_int 125000000 / 10 ^ getCurrencyPrecision XLM * (3 / 25 / 1 :: number)\<bar>
      \<le> 1 / 2 / 10 ^ getCurrencyPrecision USD)"
proof -
  have x: "text_value (defaultRates XLM) = Some (3 / 25)"
    and u: "text_value (defaultRates USD) = Some 1"
    by (simp_all add: text_value_def before_dot_def after_dot_def dot_def minus_def is_digit_def
        read_nat_def digit_val_def Let_def)
  show ?thesis
    using x u conversion_within_half_unit [where rates = defaultRates, OF x u, of 125000000] by simp
qed

subsection \<open>The order total\<close>

text \<open>What one item contributes, in minor units of the target currency.\<close>

definition item_minor :: "(currency \<Rightarrow> string) \<Rightarrow> currency \<Rightarrow> priced_item \<Rightarrow> error + int" where
  "item_minor rates target item =
     (case minor_of_arg (pi_price item) (pi_currency item) of
        Inl e \<Rightarrow> Inl e
      | Inr k \<Rightarrow> (case convertMinorUnits rates k (pi_currency item) target of
            Inl e \<Rightarrow> Inl e | Inr c \<Rightarrow> Inr (c * pi_quantity item)))"

lemma order_total_minor_sum:
  assumes "\<forall>i \<in> set items. item_minor rates target i = Inr (f i)"
  shows "order_total_minor rates items target acc = Inr (acc + sum_list (map f items))"
  using assms
proof (induction items arbitrary: acc)
  case (Cons i items)
  from Cons.prems have "item_minor rates target i = Inr (f i)" by simp
  then obtain k c where "minor_of_arg (pi_price i) (pi_currency i) = Inr k"
    and "convertMinorUnits rates k (pi_currency i) target = Inr c" and "f i = c * pi_quantity i"
    by (auto simp: item_minor_def split: sum.splits)
  with Cons show ?case by (simp add: add.assoc)
qed simp

text \<open>
  The order total is the text of the exact sum of the items' converted minor
  units times their quantities, so it neither depends on the order of the items nor loses a
  minor unit in the accumulation; and it reads back as that sum.
\<close>

lemma order_total_is_sum:
  assumes "\<forall>i \<in> set items. item_minor rates target i = Inr (f i)"
  shows "\<exists>t. calculateOrderTotal rates items target = Inr t \<and>
    toMinorUnitsFromString t target = Inr (sum_list (map f items)) \<and>
    (\<forall>items'. mset items' = mset items \<longrightarrow> calculateOrderTotal rates items' target = Inr t)"
proof -
  have total_eq: "calculateOrderTotal rates xs target
      = Inr (fromMinorUnitsToDecimalString (sum_list (map f items)) target)"
    if "mset xs = mset items" for xs
  proof -
    have "set xs = set items" using that by (rule mset_eq_setD)
    moreover have "sum_list (map f xs) = sum_list (map f items)"
      using that by (metis mset_map sum_mset_sum_list)
    ultimately show ?thesis
      using order_total_minor_sum [of xs rates target f 0] assms by (simp add: calculateOrderTotal_def)
  qed
  then show ?thesis using minor_units_roundtrip by blast
qed

lemmas text_eval = before_dot_def after_dot_def dot_def minus_def is_digit_def read_nat_def
  digit_val_def Let_def

lemma default_rates_read:
  "parseDecimal (defaultRates USD) = Inr \<lparr>dv_int = 10000000, dv_scale = 7\<rparr>"
  "parseDecimal (defaultRates XLM) = Inr \<lparr>dv_int = 1200000, dv_scale = 7\<rparr>"
  by (simp_all add: parseDecimal_def text_eval)

theorem order_total_is_sum_witness:
  "\<exists>t. calculateOrderTotal defaultRates
      [\<lparr>pi_price = TextArg ''1.25'', pi_currency = USD, pi_quantity = 3\<rparr>] USD = Inr t \<and>
    toMinorUnitsFromString t USD = Inr 375"
proof -
  let ?item = "\<lparr>pi_price = TextArg ''1.25'', pi_currency = USD, pi_quantity = 3\<rparr>"
  have "toMinorUnitsFromString ''1.25'' USD = Inr 125" by code_simp
  moreover have "convertMinorUnits defaultRates 125 USD USD = Inr 125"
    by (simp add: convertMinorUnits_def default_rates_read Let_def getCurrencyPrecision_def
        pow10_def divideWithHalfUp_def big_div_def big_mod_def del: defaultRates.simps)
  ultimately have "\<forall>i \<in> set [?item]. item_minor defaultRates USD i = Inr ((\<lambda>_. 375) i)"
    by (simp add: item_minor_def minor_of_arg_def)
  from order_total_is_sum [OF this] show ?thesis by auto
qed

subsection \<open>Numbers as decimal text\<close>

lemma frac_digits_fixed:
  assumes "m < 10 ^ p" and "p \<le> n"
  shows "(\<forall>c \<in> set (frac_digits n (of_nat m / 10 ^ p)). is_digit c) \<and>
    length (frac_digits n (of_nat m / 10 ^ p)) \<le> p \<and>
    read_nat (frac_digits n (of_nat m / 10 ^ p)) * 10 ^ (p - length (frac_digits n (of_nat m / 10 ^ p))) = m"
  using assms
proof (induction p arbitrary: m n)
  case 0
  then show ?case by (cases n) simp_all
next
  case (Suc q)
  then obtain k where n: "n = Suc k" and k: "q \<le> k" by (cases n) auto
  show ?case
  proof (cases "m = 0")
    case True
    then show ?thesis by (simp add: n)
  next
    case False
    define d where "d = m div 10 ^ q"
    define m' where "m' = m mod 10 ^ q"
    have m: "m = d * 10 ^ q + m'" by (simp add: d_def m'_def div_mult_mod_eq)
    have d: "d < 10" using Suc.prems(1) by (simp add: d_def less_mult_imp_div_less)
    have m': "m' < 10 ^ q" by (simp add: m'_def)
    have ten: "10 * (of_nat m / 10 ^ Suc q) = (of_nat d + of_nat m' / 10 ^ q :: number)"
      by (simp add: m add_divide_distrib)
    have "0 \<le> (of_nat m' / 10 ^ q :: number)" by simp
    moreover have "(of_nat m' / 10 ^ q :: number) < 1"
      using m' by (metis divide_less_eq_1_pos of_nat_less_iff of_nat_numeral of_nat_power
          zero_less_numeral zero_less_power)
    ultimately have floor: "\<lfloor>10 * (of_nat m / 10 ^ Suc q) :: number\<rfloor> = int d"
      unfolding ten by (simp add: floor_eq_iff)
    have step: "frac_digits n (of_nat m / 10 ^ Suc q) = digit_char d # frac_digits k (of_nat m' / 10 ^ q)"
      using False floor ten by (simp add: n)
    note IH = Suc.IH [OF m' k]
    define t where "t = frac_digits k (of_nat m' / 10 ^ q)"
    have "read_nat (digit_char d # t) * 10 ^ (Suc q - Suc (length t))
        = d * (10 ^ length t * 10 ^ (q - length t)) + read_nat t * 10 ^ (q - length t)"
      using d by (simp add: read_nat_Cons algebra_simps)
    also have "\<dots> = d * 10 ^ q + m'"
      using IH by (simp add: t_def power_add [symmetric])
    finally show ?thesis
      using IH d step m by (simp add: t_def)
  qed
qed

lemma parse_plain:
  assumes "\<forall>c \<in> set w. is_digit c" and "w \<noteq> []" and "\<forall>c \<in> set f. is_digit c"
  shows "parseDecimal (w @ dot # f) = Inr \<lparr>dv_int = int (read_nat (w @ f)), dv_scale = length f\<rparr>"
    and "parseDecimal w = Inr \<lparr>dv_int = int (read_nat w), dv_scale = 0\<rparr>"
proof -
  obtain c cs where w: "w = c # cs" and c: "c \<noteq> minus"
    using assms(1,2) digit_not_dot(2) by (cases w) auto
  note bd = before_dot_point [OF digits_not_dot [OF assms(1)], of f]
  note ad = after_dot_point [OF digits_not_dot [OF assms(1)] digits_not_dot [OF assms(3)]]
  show "parseDecimal (w @ dot # f) = Inr \<lparr>dv_int = int (read_nat (w @ f)), dv_scale = length f\<rparr>"
    using assms c bd ad by (auto simp: parseDecimal_def Let_def w)
  show "parseDecimal w = Inr \<lparr>dv_int = int (read_nat w), dv_scale = 0\<rparr>"
    using assms c no_dot [OF digits_not_dot [OF assms(1)]] by (auto simp: parseDecimal_def Let_def w)
qed

lemma number_text_minor:
  fixes k :: nat and c :: currency
  defines "p \<equiv> precisionByCurrency c"
  shows "getScale (number_text (of_nat k / 10 ^ p)) \<le> p \<and>
    toMinorUnitsFromString (number_text (of_nat k / 10 ^ p)) c = Inr (int k)"
proof -
  define w m where "w = show_nat (k div 10 ^ p)" and "m = k mod 10 ^ p"
  define f where "f = frac_digits 25 (of_nat m / 10 ^ p)"
  have p: "p \<le> 25" by (cases c) (simp_all add: p_def)
  have m: "m < 10 ^ p" by (simp add: m_def)
  have k: "k = k div 10 ^ p * 10 ^ p + m" by (simp add: m_def div_mult_mod_eq)
  have split: "(of_nat k / 10 ^ p :: number) = of_nat (k div 10 ^ p) + of_nat m / 10 ^ p"
    by (subst k) (simp add: add_divide_distrib del: div_mult_mod_eq)
  have "(of_nat m / 10 ^ p :: number) < 1"
    using m by (metis divide_less_eq_1_pos of_nat_less_iff of_nat_numeral of_nat_power
        zero_less_numeral zero_less_power)
  then have floor: "\<lfloor>of_nat k / 10 ^ p :: number\<rfloor> = int (k div 10 ^ p)"
    unfolding split by (simp add: floor_eq_iff)
  have "\<not> (of_nat (k div 10 ^ p) + of_nat m / 10 ^ p :: number) < 0" by (simp add: not_less)
  then have tx: "number_text (of_nat k / 10 ^ p) = (if m = 0 then w else w @ dot # f)"
    using floor split by (simp add: number_text_def Let_def w_def f_def)
  have wd: "\<forall>c \<in> set w. is_digit c" "w \<noteq> []" by (simp_all add: w_def show_nat_digits)
  note fr = frac_digits_fixed [OF m p, folded f_def]
  have minor: "int (read_nat (w @ f)) * 10 ^ (p - length f) = int k"
  proof -
    have "read_nat (w @ f) * 10 ^ (p - length f)
        = k div 10 ^ p * (10 ^ length f * 10 ^ (p - length f)) + read_nat f * 10 ^ (p - length f)"
      by (simp add: read_nat_append w_def algebra_simps)
    also have "\<dots> = k" using fr k by (simp add: power_add [symmetric])
    finally show ?thesis by (metis of_nat_mult of_nat_numeral of_nat_power)
  qed
  show ?thesis
  proof (cases "m = 0")
    case True
    with k have "int k = int (k div 10 ^ p) * 10 ^ p" by (metis add.right_neutral of_nat_mult of_nat_numeral of_nat_power)
    with True parse_plain(2) [OF wd, of "[]"] no_dot [OF digits_not_dot [OF wd(1)]] show ?thesis
      by (simp add: tx toMinorUnitsFromString_def getScale_def getCurrencyPrecision_def Let_def
          p_def [symmetric] w_def)
  next
    case False
    have "toMinorUnitsFromString (w @ dot # f) c = Inr (int (read_nat (w @ f)) * 10 ^ (p - length f))"
      using fr parse_plain(1) [OF wd, of f]
      by (simp add: toMinorUnitsFromString_def getCurrencyPrecision_def Let_def p_def [symmetric]
          pow10_def nat_diff_distrib')
    with False minor fr after_dot_point [OF digits_not_dot [OF wd(1)] digits_not_dot, of f] show ?thesis
      by (simp add: tx getScale_def)
  qed
qed

lemma zeros [simp]:
  "replicate 6 (CHR ''0'') = ''000000''"
  by (simp add: eval_nat_numeral)

lemma digit_char_pos: "0 < d \<Longrightarrow> d < 10 \<Longrightarrow> digit_char d \<noteq> CHR ''0''"
  by (erule less_ten_cases) (simp_all add: digit_char_def)

lemma show_tiny:
  assumes "0 < d" and "d < 10"
  shows "show_nat (d * 100000) = digit_char d # ''00000''"
proof -
  have step: "show_nat (n * 10) = show_nat n @ [CHR ''0'']" if "0 < n" for n
    using that by (subst show_nat.simps) (simp add: digit_char_def)
  have "show_nat (d * 10 * 10 * 10 * 10 * 10) = show_nat d @ ''00000''"
    using assms(1) by (simp only: step mult_pos_pos zero_less_numeral append.simps append_assoc)
  moreover have "show_nat d = [digit_char d]" using assms by (subst show_nat.simps) simp
  ultimately show ?thesis by (simp add: mult.assoc)
qed

lemma tiny_xlm_text:
  assumes "0 < d" and "d < 10"
  shows "\<exists>t. normalizeNumberString (Finite (of_nat d / 10 ^ 7)) = Inr t \<and>
    getScale t \<le> 7 \<and> toMinorUnitsFromString t XLM = Inr (int d)"
proof -
  let ?r = "of_nat d / 10 ^ 7 :: number" and ?f = "''000000'' @ [digit_char d]"
  have form: "exponent_form ?r" "\<not> 10 ^ 21 \<le> \<bar>?r\<bar>" "\<not> ?r < 0"
    using assms by (auto simp: exponent_form_def divide_less_eq not_le)
  have "\<lfloor>\<bar>?r\<bar> * 10 ^ 12 + 1 / 2\<rfloor> = int (d * 100000)"
    by (rule floor_unique) simp_all
  then have "to_fixed 12 ?r = fixed_text 12 (int (d * 100000))"
    using form(3) by (simp only: to_fixed_def Let_def if_False)
  also have "\<dots> = ''0.000000'' @ digit_char d # ''00000''"
  proof -
    have "d * 100000 < 10 ^ 12" using assms(2) by simp
    moreover have "show_nat 0 = ''0''" by (subst show_nat.simps) (simp add: digit_char_def)
    moreover have "nat \<bar>int (d * 100000)\<bar> = d * 100000" by simp
    ultimately show ?thesis
      by (simp only: fixed_text_def Let_def div_less mod_less show_tiny [OF assms] pad_start_def)
        (simp add: dot_def)
  qed
  finally have "trim_zeros (to_fixed 12 ?r) = ''0'' @ dot # ?f"
    using digit_char_pos [OF assms] digit_not_dot(1) [OF is_digit_char [OF assms(2)]]
    by (simp add: trim_zeros_def dot_def)
  then have norm: "normalizeNumberString (Finite ?r) = Inr (''0'' @ dot # ?f)"
    using form by (simp add: normalizeNumberString_def)
  have w: "\<forall>c \<in> set ''0''. is_digit c" "''0'' \<noteq> []" and f: "\<forall>c \<in> set ?f. is_digit c"
    using assms(2) by simp_all
  have "read_nat ''0000000'' = 0" by (simp add: read_nat_def digit_val_def)
  then have "read_nat (''0'' @ ?f) = d"
    using assms(2) read_nat_simps(2) [of "''0000000''" "digit_char d"] by simp
  then have "toMinorUnitsFromString (''0'' @ dot # ?f) XLM = Inr (int d)"
    using parse_plain(1) [OF w f]
    by (simp add: toMinorUnitsFromString_def getCurrencyPrecision_def pow10_def)
  moreover have "getScale (''0'' @ dot # ?f) = 7"
    using after_dot_point [OF digits_not_dot [OF w(1)] digits_not_dot [OF f]] by (simp add: getScale_def)
  ultimately show ?thesis using norm by auto
qed

lemma normalize_minor:
  assumes "k < 10 ^ 21 * 10 ^ precisionByCurrency c"
  shows "\<exists>t. normalizeNumberString (Finite (of_nat k / 10 ^ precisionByCurrency c)) = Inr t \<and>
    getScale t \<le> precisionByCurrency c \<and> toMinorUnitsFromString t c = Inr (int k)"
proof -
  let ?p = "precisionByCurrency c" and ?r = "of_nat k / 10 ^ precisionByCurrency c :: number"
  have "?r < 10 ^ 21"
    using assms by (simp add: divide_less_eq)
      (metis of_nat_less_iff of_nat_mult of_nat_numeral of_nat_power)
  then have big: "\<not> 10 ^ 21 \<le> \<bar>?r\<bar>" by simp
  show ?thesis
  proof (cases "exponent_form ?r")
    case False
    then have "normalizeNumberString (Finite ?r) = Inr (number_text ?r)"
      by (simp add: normalizeNumberString_def)
    with number_text_minor [of k c] show ?thesis by auto
  next
    case True
    then have small: "?r \<noteq> 0" "\<bar>?r\<bar> < 1 / 1000000" using big by (auto simp: exponent_form_def)
    show ?thesis
    proof (cases c)
      case XLM
      with small have "0 < k" "k < 10" by (simp_all add: divide_less_eq)
      with XLM tiny_xlm_text show ?thesis by simp
    qed (use small in \<open>simp_all add: divide_less_eq\<close>)
  qed
qed

lemma price_limits:
  "toMinorUnitsFromString (minPriceByCurrency c) c = Inr 1"
  "toMinorUnitsFromString (maxPriceByCurrency c) c = Inr (10 ^ 9 * 10 ^ precisionByCurrency c)"
  by (cases c; simp add: toMinorUnitsFromString_def parseDecimal_def getCurrencyPrecision_def
      pow10_def text_eval)+

lemma validatePrice_minor:
  assumes "k < 10 ^ 21 * 10 ^ getCurrencyPrecision c"
  shows "validatePrice (Finite (of_nat k / 10 ^ getCurrencyPrecision c)) c =
    (if 1 \<le> k \<and> k \<le> 10 ^ 9 * 10 ^ getCurrencyPrecision c then Inr () else Inl (price_out_of_range c))"
proof -
  obtain t where t: "normalizeNumberString (Finite (of_nat k / 10 ^ getCurrencyPrecision c)) = Inr t"
    "getScale t \<le> getCurrencyPrecision c" "toMinorUnitsFromString t c = Inr (int k)"
    using normalize_minor assms by (auto simp: getCurrencyPrecision_def)
  from t(2) have fits: "\<not> getCurrencyPrecision c < getScale t" by simp
  define hi where "hi = (10 ^ 9 :: nat) * 10 ^ getCurrencyPrecision c"
  have limit: "toMinorUnitsFromString (maxPriceByCurrency c) c = Inr (int hi)"
    by (simp add: price_limits hi_def getCurrencyPrecision_def)
  have "validatePrice (Finite (of_nat k / 10 ^ getCurrencyPrecision c)) c
      = (if int k < 1 \<or> int k > int hi then Inl (price_out_of_range c) else Inr ())"
    by (simp add: validatePrice_def t fits price_limits(1) limit)
  then show ?thesis unfolding hi_def [symmetric] by auto
qed

text \<open>
  An amount of \<open>k\<close> minor units, written as the JavaScript number \<open>k / 10 ^ p\<close>,
  passes \<open>validatePrice\<close> exactly when it is at least one minor unit and at most a thousand
  million units of the currency; the text the number is rendered as (exponent notation for
  the smallest XLM prices included) never makes a valid price fail.
\<close>

lemma validatePrice_accepts_iff:
  assumes "k < 10 ^ 21 * 10 ^ getCurrencyPrecision c"
  shows "validatePrice (Finite (of_nat k / 10 ^ getCurrencyPrecision c)) c = Inr () \<longleftrightarrow>
    1 \<le> k \<and> k \<le> 10 ^ 9 * 10 ^ getCurrencyPrecision c"
  using validatePrice_minor [OF assms] by (simp split: if_splits)

theorem validatePrice_accepts_iff_witness:
  "validatePrice (Finite (of_nat 3 / 10 ^ getCurrencyPrecision XLM)) XLM = Inr () \<and>
   validatePrice (Finite (of_nat 0 / 10 ^ getCurrencyPrecision USD)) USD \<noteq> Inr ()"
  using validatePrice_accepts_iff [of 3 XLM] validatePrice_accepts_iff [of 0 USD]
  by (simp add: getCurrencyPrecision_def)

end
