(* ===== verification/Products.thy ===== *)
theory Products
  imports Pricing
begin

text \<open>
  \<open>ProductsService\<close> (src/src/products/products.service.ts): the in-memory catalogue with its
  price history, the \<open>product_prices\<close> table and the price events. New identifiers, the clock
  and the outcome of \<open>MediaService\<close> are parameters.
\<close>

subsection \<open>Number.prototype.toString\<close>

text \<open>The exponent of the text of a number whose plain text JavaScript does not use.\<close>

fun scale_up :: "nat \<Rightarrow> nat \<Rightarrow> number \<Rightarrow> nat" where
  "scale_up 0 k a = k"
| "scale_up (Suc n) k a = (if 1 \<le> a * 10 ^ k then k else scale_up n (Suc k) a)"

fun scale_down :: "nat \<Rightarrow> nat \<Rightarrow> number \<Rightarrow> nat" where
  "scale_down 0 k a = k"
| "scale_down (Suc n) k a = (if a < 10 ^ Suc k then k else scale_down n (Suc k) a)"

text \<open>330 steps reach every exponent of a double (at most 308, at least -324).\<close>

definition to_string :: "number \<Rightarrow> string" where
  "to_string r =
     (if \<not> exponent_form r then number_text r
      else if \<bar>r\<bar> < 1
      then let k = scale_up 330 1 \<bar>r\<bar> in number_text (r * 10 ^ k) @ ''e-'' @ show_nat k
      else let k = scale_down 330 21 \<bar>r\<bar> in number_text (r / 10 ^ k) @ ''e+'' @ show_nat k)"

definition int_text :: "int \<Rightarrow> string" where
  "int_text n = to_string (of_int n)"

text \<open>\<open>Number(text)\<close> on such text; \<open>None\<close> is \<open>NaN\<close>.\<close>

definition read_number :: "string \<Rightarrow> number option" where
  "read_number t =
     (let mantissa = takeWhile (\<lambda>c. c \<noteq> CHR ''e'') t; rest = dropWhile (\<lambda>c. c \<noteq> CHR ''e'') t
      in case rest of
           _ # s # ds \<Rightarrow> map_option
             (\<lambda>m. if s = minus then m / 10 ^ read_nat ds else m * 10 ^ read_nat ds) (text_value mantissa)
         | _ \<Rightarrow> text_value t)"

subsection \<open>The catalogue\<close>

record rate_snapshot =
  rs_rates :: "currency \<Rightarrow> string"
  rs_timestamp :: time

definition getRateSnapshot :: "rate_cache option \<Rightarrow> time \<Rightarrow> rate_snapshot" where
  "getRateSnapshot ps now = \<lparr>rs_rates = getLiveRates ps, rs_timestamp = now\<rparr>"

record price_history_entry =
  he_id :: uuid
  he_basePrice :: string
  he_basePriceMinor :: string
  he_baseCurrency :: currency
  he_changedAt :: time
  he_rateSnapshot :: rate_snapshot
  he_updatedBy :: uuid
  he_reason :: "string option"

record catalog_product =
  cp_id :: uuid
  cp_sellerId :: uuid
  cp_name :: string
  cp_category :: string
  cp_basePrice :: string
  cp_basePriceMinor :: string
  cp_baseCurrency :: currency
  cp_price :: string
  cp_priceMinor :: string
  cp_currency :: currency
  cp_description :: "string option"
  cp_images :: "string list"
  cp_createdAt :: time
  cp_updatedAt :: time
  cp_priceHistory :: "price_history_entry list"

record product_price_row =
  pr_id :: uuid
  pr_productId :: uuid
  pr_basePrice :: "number option"
  pr_basePriceMinor :: string
  pr_rateSnapshot :: "currency \<Rightarrow> string"
  pr_rateTimestamp :: time
  pr_baseCurrency :: currency
  pr_updatedBy :: "uuid option"
  pr_reason :: "string option"
  pr_createdAt :: time

record product_price_updated =
  pe_productId :: uuid
  pe_sellerId :: uuid
  pe_basePrice :: string
  pe_basePriceMinor :: string
  pe_baseCurrency :: currency
  pe_snapshot :: rate_snapshot
  pe_updatedAt :: time

record catalog =
  cat_products :: "catalog_product list"
  cat_prices :: "product_price_row list"
  cat_events :: "product_price_updated list"

record create_product_dto =
  cd_name :: string
  cd_category :: string
  cd_price :: "number option"
  cd_basePrice :: "number option"
  cd_currency :: "currency option"
  cd_baseCurrency :: "currency option"
  cd_description :: "string option"
  cd_images :: "string list"

record update_price_dto =
  up_basePrice :: number
  up_baseCurrency :: currency
  up_reason :: "string option"

record update_product_dto =
  ud_name :: "string option"
  ud_category :: "string option"
  ud_price :: "number option"
  ud_basePrice :: "number option"
  ud_currency :: "currency option"
  ud_baseCurrency :: "currency option"
  ud_description :: "string option"
  ud_images :: "string list option"

text \<open>The operator \<open>??\<close>.\<close>

fun coalesce :: "'a option \<Rightarrow> 'a \<Rightarrow> 'a" where
  "coalesce None d = d"
| "coalesce (Some x) d = x"

text \<open>What the three random identifiers and the clock give during one request.\<close>

record fresh_ids =
  fr_product :: uuid
  fr_history :: uuid
  fr_row :: uuid
  fr_now :: time

definition price_row ::
  "uuid \<Rightarrow> uuid \<Rightarrow> string \<Rightarrow> string \<Rightarrow> currency \<Rightarrow> rate_snapshot \<Rightarrow> uuid \<Rightarrow> string option \<Rightarrow>
   time \<Rightarrow> product_price_row" where
  "price_row row productId decimal minor cur snap by reason now =
     \<lparr>pr_id = row, pr_productId = productId, pr_basePrice = read_number decimal,
      pr_basePriceMinor = minor, pr_rateSnapshot = rs_rates snap, pr_rateTimestamp = rs_timestamp snap,
      pr_baseCurrency = cur, pr_updatedBy = Some by, pr_reason = reason, pr_createdAt = now\<rparr>"

definition createProduct ::
  "rate_cache option \<Rightarrow> fresh_ids \<Rightarrow> uuid \<Rightarrow> create_product_dto \<Rightarrow> catalog \<Rightarrow>
   (catalog_product, catalog) result" where
  "createProduct ps fr sellerId dto s =
     (let baseCurrency = coalesce (cd_baseCurrency dto) (coalesce (cd_currency dto) USD)
      in case (case cd_basePrice dto of Some b \<Rightarrow> Some b | None \<Rightarrow> cd_price dto) of
           None \<Rightarrow> (Inl (BadRequestException [Txt ''Price is required.'']), s)
         | Some basePrice \<Rightarrow>
           case validatePrice (Finite basePrice) baseCurrency of
             Inl e \<Rightarrow> (Inl e, s)
           | Inr _ \<Rightarrow>
             case toMinorUnitsString (NumArg (Finite basePrice)) baseCurrency of
               Inl e \<Rightarrow> (Inl e, s)
             | Inr basePriceMinor \<Rightarrow>
               let basePriceDecimal = to_string basePrice;
                   snap = getRateSnapshot ps (fr_now fr);
                   initialHistory = \<lparr>he_id = fr_history fr, he_basePrice = basePriceDecimal,
                     he_basePriceMinor = basePriceMinor, he_baseCurrency = baseCurrency,
                     he_changedAt = fr_now fr, he_rateSnapshot = snap, he_updatedBy = sellerId,
                     he_reason = Some ''initial_price''\<rparr>;
                   product = \<lparr>cp_id = fr_product fr, cp_sellerId = sellerId, cp_name = cd_name dto,
                     cp_category = cd_category dto, cp_basePrice = basePriceDecimal,
                     cp_basePriceMinor = basePriceMinor, cp_baseCurrency = baseCurrency,
                     cp_price = basePriceDecimal, cp_priceMinor = basePriceMinor,
                     cp_currency = baseCurrency, cp_description = cd_description dto,
                     cp_images = cd_images dto, cp_createdAt = fr_now fr, cp_updatedAt = fr_now fr,
                     cp_priceHistory = [initialHistory]\<rparr>
               in (Inr product,
                   s\<lparr>cat_products := cat_products s @ [product],
                     cat_prices := tbl_save pr_id (price_row (fr_row fr) (fr_product fr)
                       basePriceDecimal basePriceMinor baseCurrency snap sellerId
                       (Some ''initial_price'') (fr_now fr)) (cat_prices s)\<rparr>))"

record display_product =
  vw_product :: catalog_product
  vw_convertedPrice :: "number option"
  vw_convertedPriceString :: string
  vw_convertedCurrency :: currency
  vw_conversionRate :: "number option"
  vw_displayPrice :: string

definition toDisplayProduct ::
  "(currency \<Rightarrow> string) \<Rightarrow> catalog_product \<Rightarrow> currency option \<Rightarrow> error + display_product" where
  "toDisplayProduct rates p preferredCurrency =
     (let displayCurrency = coalesce preferredCurrency (cp_baseCurrency p)
      in case convertAmountToString rates (TextArg (cp_basePrice p)) (cp_baseCurrency p) displayCurrency of
           Inl e \<Rightarrow> Inl e
         | Inr convertedPriceString \<Rightarrow>
           case getConversionRate rates (cp_baseCurrency p) displayCurrency of
             Inl e \<Rightarrow> Inl e
           | Inr conversionRate \<Rightarrow>
             Inr \<lparr>vw_product = p, vw_convertedPrice = read_number convertedPriceString,
                  vw_convertedPriceString = convertedPriceString,
                  vw_convertedCurrency = displayCurrency, vw_conversionRate = conversionRate,
                  vw_displayPrice = currency_code displayCurrency @ '' '' @ convertedPriceString\<rparr>)"

definition findOneProduct ::
  "(currency \<Rightarrow> string) \<Rightarrow> uuid \<Rightarrow> currency option \<Rightarrow> catalog \<Rightarrow> error + display_product option" where
  "findOneProduct rates pid preferredCurrency s =
     (case tbl_find cp_id pid (cat_products s) of
        None \<Rightarrow> Inr None
      | Some product \<Rightarrow>
        case toDisplayProduct rates product preferredCurrency of
          Inl e \<Rightarrow> Inl e | Inr v \<Rightarrow> Inr (Some v))"

text \<open>\<open>toLowerCase\<close> on ASCII text and \<open>includes\<close>.\<close>

definition lower_char :: "char \<Rightarrow> char" where
  "lower_char c = (if c \<in> set ''ABCDEFGHIJKLMNOPQRSTUVWXYZ'' then char_of (of_char c + 32 :: nat) else c)"

definition lower_text :: "string \<Rightarrow> string" where
  "lower_text t = map lower_char t"

fun includes_text :: "string \<Rightarrow> string \<Rightarrow> bool" where
  "includes_text [] p = (p = [])"
| "includes_text (c # cs) p = (take (length p) (c # cs) = p \<or> includes_text cs p)"

record filter_product_dto =
  fd_search :: "string option"
  fd_category :: "string option"
  fd_minPrice :: "number option"
  fd_maxPrice :: "number option"
  fd_limit :: nat
  fd_offset :: nat
  fd_preferredCurrency :: "currency option"

text \<open>A comparison with \<open>NaN\<close> is false.\<close>

definition matches :: "filter_product_dto \<Rightarrow> display_product \<Rightarrow> bool" where
  "matches f v \<longleftrightarrow>
     (truthy_text (fd_search f) \<longrightarrow>
        includes_text (lower_text (cp_name (vw_product v))) (lower_text (or_text (fd_search f) []))) \<and>
     (truthy_text (fd_category f) \<longrightarrow> Some (cp_category (vw_product v)) = fd_category f) \<and>
     (case fd_minPrice f of None \<Rightarrow> True
      | Some m \<Rightarrow> (case vw_convertedPrice v of None \<Rightarrow> False | Some c \<Rightarrow> m \<le> c)) \<and>
     (case fd_maxPrice f of None \<Rightarrow> True
      | Some m \<Rightarrow> (case vw_convertedPrice v of None \<Rightarrow> False | Some c \<Rightarrow> c \<le> m))"

fun display_all ::
  "(currency \<Rightarrow> string) \<Rightarrow> currency option \<Rightarrow> catalog_product list \<Rightarrow> error + display_product list" where
  "display_all rates cur [] = Inr []"
| "display_all rates cur (p # ps) =
     (case toDisplayProduct rates p cur of
        Inl e \<Rightarrow> Inl e
      | Inr v \<Rightarrow> (case display_all rates cur ps of Inl e \<Rightarrow> Inl e | Inr vs \<Rightarrow> Inr (v # vs)))"

definition findAllProducts ::
  "(currency \<Rightarrow> string) \<Rightarrow> filter_product_dto \<Rightarrow> catalog \<Rightarrow> error + display_product list" where
  "findAllProducts rates f s =
     (case display_all rates (fd_preferredCurrency f) (cat_products s) of
        Inl e \<Rightarrow> Inl e
      | Inr vs \<Rightarrow> Inr (take (fd_limit f) (drop (fd_offset f) (filter (matches f) vs))))"

definition updatePrice ::
  "rate_cache option \<Rightarrow> fresh_ids \<Rightarrow> uuid \<Rightarrow> uuid \<Rightarrow> update_price_dto \<Rightarrow> catalog \<Rightarrow>
   (catalog_product, catalog) result" where
  "updatePrice ps fr pid sellerId dto s =
     (case tbl_find cp_id pid (cat_products s) of
        None \<Rightarrow> (Inl (ForbiddenException [Txt ''Not allowed to update this product price'']), s)
      | Some product \<Rightarrow>
        if cp_sellerId product \<noteq> sellerId
        then (Inl (ForbiddenException [Txt ''Not allowed to update this product price'']), s)
        else
          case validatePrice (Finite (up_basePrice dto)) (up_baseCurrency dto) of
            Inl e \<Rightarrow> (Inl e, s)
          | Inr _ \<Rightarrow>
            case toMinorUnitsString (NumArg (Finite (up_basePrice dto))) (up_baseCurrency dto) of
              Inl e \<Rightarrow> (Inl e, s)
            | Inr basePriceMinor \<Rightarrow>
              let basePriceDecimal = to_string (up_basePrice dto);
                  hasChanged = (cp_basePrice product \<noteq> basePriceDecimal \<or>
                                cp_baseCurrency product \<noteq> up_baseCurrency dto)
              in if \<not> hasChanged then (Inr product, s)
                 else
                   let snap = getRateSnapshot ps (fr_now fr);
                       entry = \<lparr>he_id = fr_history fr, he_basePrice = basePriceDecimal,
                         he_basePriceMinor = basePriceMinor, he_baseCurrency = up_baseCurrency dto,
                         he_changedAt = fr_now fr, he_rateSnapshot = snap, he_updatedBy = sellerId,
                         he_reason = up_reason dto\<rparr>;
                       product = product\<lparr>cp_basePrice := basePriceDecimal,
                         cp_basePriceMinor := basePriceMinor, cp_baseCurrency := up_baseCurrency dto,
                         cp_price := basePriceDecimal, cp_priceMinor := basePriceMinor,
                         cp_currency := up_baseCurrency dto, cp_updatedAt := fr_now fr,
                         cp_priceHistory := cp_priceHistory product @ [entry]\<rparr>
                   in (Inr product,
                       s\<lparr>cat_products := tbl_save cp_id product (cat_products s),
                         cat_prices := tbl_save pr_id (price_row (fr_row fr) (cp_id product)
                           basePriceDecimal basePriceMinor (up_baseCurrency dto) snap sellerId
                           (up_reason dto) (fr_now fr)) (cat_prices s),
                         cat_events := cat_events s @
                           [\<lparr>pe_productId = cp_id product, pe_sellerId = sellerId,
                             pe_basePrice = cp_basePrice product,
                             pe_basePriceMinor = cp_basePriceMinor product,
                             pe_baseCurrency = cp_baseCurrency product, pe_snapshot = snap,
                             pe_updatedAt = cp_updatedAt product\<rparr>]\<rparr>))"

text \<open>\<open>Object.assign(product, rest)\<close> with the fields of the DTO that are left.\<close>

definition assign_rest :: "update_product_dto \<Rightarrow> catalog_product \<Rightarrow> catalog_product" where
  "assign_rest dto p = p\<lparr>cp_name := coalesce (ud_name dto) (cp_name p),
     cp_category := coalesce (ud_category dto) (cp_category p),
     cp_description := (case ud_description dto of None \<Rightarrow> cp_description p | Some d \<Rightarrow> Some d),
     cp_images := coalesce (ud_images dto) (cp_images p)\<rparr>"

definition price_change :: "update_product_dto \<Rightarrow> catalog_product \<Rightarrow> error + update_price_dto" where
  "price_change dto p =
     (case (case ud_basePrice dto of Some b \<Rightarrow> Some b
            | None \<Rightarrow> (case ud_price dto of Some b \<Rightarrow> Some b | None \<Rightarrow> read_number (cp_basePrice p))) of
        None \<Rightarrow> Inl (BadRequestException [Txt ''Price must be a finite number.''])
      | Some b \<Rightarrow> Inr \<lparr>up_basePrice = b,
          up_baseCurrency = coalesce (ud_baseCurrency dto) (coalesce (ud_currency dto) (cp_baseCurrency p)),
          up_reason = None\<rparr>)"

definition updateProduct ::
  "rate_cache option \<Rightarrow> fresh_ids \<Rightarrow> uuid \<Rightarrow> uuid \<Rightarrow> update_product_dto \<Rightarrow> catalog \<Rightarrow>
   (catalog_product, catalog) result" where
  "updateProduct ps fr pid sellerId dto s =
     (case tbl_find cp_id pid (cat_products s) of
        None \<Rightarrow> (Inl (ForbiddenException [Txt ''Not allowed to update this product'']), s)
      | Some product \<Rightarrow>
        if cp_sellerId product \<noteq> sellerId
        then (Inl (ForbiddenException [Txt ''Not allowed to update this product'']), s)
        else
          and_then
            (if ud_basePrice dto \<noteq> None \<or> ud_baseCurrency dto \<noteq> None \<or> ud_price dto \<noteq> None \<or>
                ud_currency dto \<noteq> None
             then (case price_change dto product of
                     Inl e \<Rightarrow> (Inl e, s)
                   | Inr change \<Rightarrow> updatePrice ps fr pid sellerId change s)
             else (Inr product, s))
            (\<lambda>product s1.
               let product = (assign_rest dto product)\<lparr>cp_updatedAt := fr_now fr\<rparr>
               in (Inr product, s1\<lparr>cat_products := tbl_save cp_id product (cat_products s1)\<rparr>)))"

definition getPriceHistory :: "uuid \<Rightarrow> catalog \<Rightarrow> product_price_row list" where
  "getPriceHistory pid s =
     rev (sort_key pr_createdAt (filter (\<lambda>r. pr_productId r = pid) (cat_prices s)))"

text \<open>\<open>deleteProductImages\<close> may fail; its failure is swallowed.\<close>

definition removeProduct ::
  "(currency \<Rightarrow> string) \<Rightarrow> uuid \<Rightarrow> uuid \<Rightarrow> catalog \<Rightarrow> (bool, catalog) result" where
  "removeProduct rates pid sellerId s =
     (case findOneProduct rates pid None s of
        Inl e \<Rightarrow> (Inl e, s)
      | Inr None \<Rightarrow> (Inl (ForbiddenException [Txt ''Not allowed to delete this product'']), s)
      | Inr (Some v) \<Rightarrow>
          if cp_sellerId (vw_product v) \<noteq> sellerId
          then (Inl (ForbiddenException [Txt ''Not allowed to delete this product'']), s)
          else (Inr True, s\<lparr>cat_products := filter (\<lambda>p. cp_id p \<noteq> pid) (cat_products s)\<rparr>))"

subsection \<open>What every reachable catalogue satisfies\<close>

interpretation catalog_rows: repository cp_id "tbl_find cp_id" "tbl_save cp_id" "\<lambda>t. t"
  by (rule table_repository)

definition priced_consistently :: "catalog_product \<Rightarrow> bool" where
  "priced_consistently p \<longleftrightarrow>
     cp_price p = cp_basePrice p \<and> cp_priceMinor p = cp_basePriceMinor p \<and>
     cp_currency p = cp_baseCurrency p \<and>
     (\<exists>b. validatePrice (Finite b) (cp_baseCurrency p) = Inr () \<and> cp_basePrice p = to_string b \<and>
        toMinorUnitsString (NumArg (Finite b)) (cp_baseCurrency p) = Inr (cp_basePriceMinor p)) \<and>
     (\<exists>es e. cp_priceHistory p = es @ [e] \<and> he_basePrice e = cp_basePrice p \<and>
        he_basePriceMinor e = cp_basePriceMinor p \<and> he_baseCurrency e = cp_baseCurrency p)"

inductive catalog_step :: "catalog \<Rightarrow> catalog \<Rightarrow> bool" where
  "catalog_step s (snd (createProduct ps fr seller dto s))"
| "catalog_step s (snd (updatePrice ps fr pid seller upd s))"
| "catalog_step s (snd (updateProduct ps fr pid seller ud s))"
| "catalog_step s (snd (removeProduct rates pid seller s))"

inductive catalog_reachable :: "catalog \<Rightarrow> bool" where
  started: "catalog_reachable \<lparr>cat_products = [], cat_prices = prices, cat_events = []\<rparr>"
| moved: "catalog_reachable s \<Longrightarrow> catalog_step s t \<Longrightarrow> catalog_reachable t"

lemma create_consistent:
  assumes "\<forall>p \<in> set (cat_products s). priced_consistently p"
  shows "\<forall>p \<in> set (cat_products (snd (createProduct ps fr seller dto s))). priced_consistently p"
  using assms
  by (auto simp: createProduct_def Let_def priced_consistently_def split: option.splits sum.splits)

lemma updatePrice_consistent:
  assumes "\<forall>p \<in> set (cat_products s). priced_consistently p"
  shows "\<forall>p \<in> set (cat_products (snd (updatePrice ps fr pid seller upd s))). priced_consistently p"
proof -
  have "priced_consistently (p\<lparr>cp_basePrice := to_string (up_basePrice upd), cp_basePriceMinor := m,
      cp_baseCurrency := up_baseCurrency upd, cp_price := to_string (up_basePrice upd), cp_priceMinor := m,
      cp_currency := up_baseCurrency upd, cp_updatedAt := now, cp_priceHistory := h @ [e]\<rparr>)"
    if "validatePrice (Finite (up_basePrice upd)) (up_baseCurrency upd) = Inr ()"
      "toMinorUnitsString (NumArg (Finite (up_basePrice upd))) (up_baseCurrency upd) = Inr m"
      "he_basePrice e = to_string (up_basePrice upd)" "he_basePriceMinor e = m"
      "he_baseCurrency e = up_baseCurrency upd" for p m now h e
    using that by (auto simp: priced_consistently_def)
  with assms show ?thesis
    by (auto simp: updatePrice_def Let_def split: option.splits sum.splits dest!: tbl_save_mem)
qed

lemma updatePrice_result:
  "updatePrice ps fr pid seller upd s = (Inr q, t) \<Longrightarrow> q \<in> set (cat_products t)"
  by (auto simp: updatePrice_def Let_def dest: tbl_find_mem split: option.splits sum.splits if_splits)

lemma updatePrice_result_consistent:
  assumes "\<forall>p \<in> set (cat_products s). priced_consistently p"
    and "updatePrice ps fr pid seller upd s = (Inr q, t)"
  shows "priced_consistently q"
  using updatePrice_consistent [OF assms(1), of ps fr pid seller upd] updatePrice_result [OF assms(2)]
    assms(2) by simp

lemma assign_rest_consistent:
  "priced_consistently p \<Longrightarrow> priced_consistently ((assign_rest dto p)\<lparr>cp_updatedAt := now\<rparr>)"
  by (simp add: priced_consistently_def assign_rest_def)

lemma updateProduct_consistent:
  assumes "\<forall>p \<in> set (cat_products s). priced_consistently p"
  shows "\<forall>p \<in> set (cat_products (snd (updateProduct ps fr pid seller dto s))). priced_consistently p"
proof (cases "tbl_find cp_id pid (cat_products s)")
  case (Some p)
  define r where "r = (if ud_basePrice dto \<noteq> None \<or> ud_baseCurrency dto \<noteq> None \<or>
      ud_price dto \<noteq> None \<or> ud_currency dto \<noteq> None
    then (case price_change dto p of Inl e \<Rightarrow> (Inl e, s)
          | Inr change \<Rightarrow> updatePrice ps fr pid seller change s) else (Inr p, s))"
  have all: "\<forall>p \<in> set (cat_products (snd r)). priced_consistently p"
    using assms updatePrice_consistent by (auto simp: r_def split: sum.splits)
  have one: "priced_consistently q" if "fst r = Inr q" for q
  proof -
    from that obtain t where "r = (Inr q, t)" by (cases r) auto
    then show ?thesis
      using assms Some updatePrice_result_consistent [OF assms]
      by (auto simp: r_def dest: tbl_find_mem split: if_splits sum.splits)
  qed
  have "\<forall>q \<in> set (cat_products (snd (and_then r (\<lambda>product s1.
      (Inr ((assign_rest dto product)\<lparr>cp_updatedAt := fr_now fr\<rparr>), s1\<lparr>cat_products :=
        tbl_save cp_id ((assign_rest dto product)\<lparr>cp_updatedAt := fr_now fr\<rparr>) (cat_products s1)\<rparr>))))).
      priced_consistently q"
    by (rule and_then_keeps [where Q = "\<lambda>t. \<forall>q \<in> set (cat_products t). priced_consistently q"])
      (use all one in \<open>auto dest!: tbl_save_mem intro: assign_rest_consistent\<close>)
  with Some assms show ?thesis by (simp add: updateProduct_def Let_def r_def)
qed (use assms in \<open>simp add: updateProduct_def\<close>)

lemma removeProduct_consistent:
  assumes "\<forall>p \<in> set (cat_products s). priced_consistently p"
  shows "\<forall>p \<in> set (cat_products (snd (removeProduct rates pid seller s))). priced_consistently p"
  using assms by (auto simp: removeProduct_def split: sum.splits option.splits)

lemma catalog_step_consistent:
  "catalog_step s t \<Longrightarrow> \<forall>p \<in> set (cat_products s). priced_consistently p \<Longrightarrow>
   \<forall>p \<in> set (cat_products t). priced_consistently p"
  by (induction rule: catalog_step.induct)
    (rule create_consistent updatePrice_consistent updateProduct_consistent removeProduct_consistent;
      assumption)+

text \<open>
  Property C17: in every catalogue that creations, price changes, updates and removals (accepted
  or refused) lead to, each product's listing price, minor units and currency are its base
  ones, its base price is a price the validation accepted together with the minor units the
  pricing service computes for it, and the last entry of its price history records exactly the
  current price.
\<close>

theorem catalog_prices_consistent:
  assumes "catalog_reachable s" and "p \<in> set (cat_products s)"
  shows "priced_consistently p"
proof -
  have "\<forall>p \<in> set (cat_products s). priced_consistently p"
    using assms(1)
  proof (induction rule: catalog_reachable.induct)
    case (moved s t)
    from moved.hyps(2) moved.IH show ?case by (rule catalog_step_consistent)
  qed simp
  with assms(2) show ?thesis by blast
qed

text \<open>The witness's shop: one product created, then its price changed by its seller.\<close>

definition empty_catalog :: catalog where
  "empty_catalog = \<lparr>cat_products = [], cat_prices = [], cat_events = []\<rparr>"

definition sample_ids :: fresh_ids where
  "sample_ids = \<lparr>fr_product = ''p'', fr_history = ''h'', fr_row = ''r'', fr_now = 0\<rparr>"

definition sample_dto :: "number \<Rightarrow> currency \<Rightarrow> create_product_dto" where
  "sample_dto price c = \<lparr>cd_name = ''Lamp'', cd_category = ''home'', cd_price = None,
     cd_basePrice = Some price, cd_currency = None, cd_baseCurrency = Some c,
     cd_description = None, cd_images = []\<rparr>"

lemma minor_string:
  assumes "k < 10 ^ 21 * 10 ^ getCurrencyPrecision c"
  shows "toMinorUnitsString (NumArg (Finite (of_nat k / 10 ^ getCurrencyPrecision c))) c =
    Inr (fixed_text 0 (int k))"
  using normalize_minor [of k c] assms
  by (auto simp: toMinorUnitsString_def minor_of_arg_def toMinorUnits_def getCurrencyPrecision_def)

lemma create_accepts:
  assumes "cd_basePrice dto = Some (of_nat k / 10 ^ getCurrencyPrecision c)"
    and "cd_baseCurrency dto = Some c" and "1 \<le> k" and "k \<le> 10 ^ 9 * 10 ^ getCurrencyPrecision c"
  obtains p where "fst (createProduct ps fr seller dto s) = Inr p"
    and "cat_products (snd (createProduct ps fr seller dto s)) = cat_products s @ [p]"
    and "cp_id p = fr_product fr" and "cp_sellerId p = seller" and "cp_baseCurrency p = c"
    and "cp_basePrice p = to_string (of_nat k / 10 ^ getCurrencyPrecision c)"
proof -
  have k: "k < 10 ^ 21 * 10 ^ getCurrencyPrecision c"
    using assms(4) by (rule le_less_trans) simp
  have "\<exists>p. fst (createProduct ps fr seller dto s) = Inr p \<and>
      cat_products (snd (createProduct ps fr seller dto s)) = cat_products s @ [p] \<and>
      cp_id p = fr_product fr \<and> cp_sellerId p = seller \<and> cp_baseCurrency p = c \<and>
      cp_basePrice p = to_string (of_nat k / 10 ^ getCurrencyPrecision c)"
    using assms validatePrice_minor [OF k] minor_string [OF k]
    by (simp add: createProduct_def Let_def)
  then show ?thesis using that by blast
qed

theorem catalog_prices_consistent_witness:
  "\<exists>p. cat_products (snd (createProduct None sample_ids ''s'' (sample_dto 3 USD) empty_catalog)) = [p] \<and>
     priced_consistently p"
proof -
  let ?t = "snd (createProduct None sample_ids ''s'' (sample_dto 3 USD) empty_catalog)"
  have "catalog_reachable empty_catalog" unfolding empty_catalog_def by (rule started)
  then have "catalog_reachable ?t" by (rule moved [OF _ catalog_step.intros(1)])
  moreover obtain p where "cat_products ?t = [p]"
    by (rule create_accepts [of "sample_dto 3 USD" 300 USD None sample_ids "''s''" empty_catalog])
      (simp_all add: sample_dto_def getCurrencyPrecision_def empty_catalog_def)
  ultimately show ?thesis using catalog_prices_consistent [of ?t p] by auto
qed

subsection \<open>Prices in exponent notation\<close>

lemma scale_up_numeral [simp]:
  "scale_up (numeral m) k a = (if 1 \<le> a * 10 ^ k then k else scale_up (pred_numeral m) (Suc k) a)"
  by (simp add: numeral_eq_Suc)

lemma tiny_text:
  assumes "1 \<le> k" and "k \<le> 9"
  shows "to_string (of_nat k / 10 ^ 7) = digit_char k # ''e-7''"
proof -
  have "number_text (of_nat k) = [digit_char k]"
    using assms by (simp add: number_text_def Let_def show_nat.simps)
  moreover have "show_nat 7 = ''7''" by (simp add: show_nat.simps digit_char_def)
  moreover have "scale_up 330 1 (of_nat k / 10000000 :: number) = 7"
    using assms by (simp add: le_divide_eq)
  ultimately show ?thesis
    using assms
    by (simp add: to_string_def exponent_form_def Let_def divide_less_eq del: scale_up_numeral)
qed

lemma tiny_unreadable:
  assumes "is_digit d"
  shows "\<exists>e. toMinorUnitsFromString (d # ''e-7'') c = Inl e"
proof -
  have "d \<noteq> dot" "d \<noteq> minus" using assms digit_not_dot by auto
  moreover have "\<not> is_digit (CHR ''e'')" by (simp add: is_digit_def)
  moreover have "CHR ''e'' \<noteq> dot" "CHR ''-'' \<noteq> dot" "CHR ''7'' \<noteq> dot" by (simp_all add: dot_def)
  ultimately show ?thesis
    by (simp add: toMinorUnitsFromString_def parseDecimal_def before_dot_def after_dot_def Let_def)
qed

lemma display_all_throws:
  assumes "p \<in> set ps" and "\<exists>e. toDisplayProduct rates p cur = Inl e"
  shows "\<exists>e. display_all rates cur ps = Inl e"
  using assms by (induction ps) (auto split: sum.splits)

text \<open>
  A product priced at one to nine ten-millionths of a lumen passes the validation
  and is stored, but its price text is in exponent notation, which the conversion cannot read:
  from then on looking the product up, listing the catalogue (with whatever filter and rates)
  and removing the product all throw.
\<close>

lemma tiny_price_blocks_catalogue:
  assumes "cd_basePrice dto = Some (of_nat k / 10 ^ 7)" and "cd_baseCurrency dto = Some XLM"
    and "1 \<le> k" and "k \<le> 9" and "\<forall>q \<in> set (cat_products s). cp_id q \<noteq> fr_product fr"
  shows "\<exists>p t. createProduct ps fr seller dto s = (Inr p, t) \<and>
    (\<forall>rates cur. \<exists>e. findOneProduct rates (cp_id p) cur t = Inl e) \<and>
    (\<forall>rates f. \<exists>e. findAllProducts rates f t = Inl e) \<and>
    (\<forall>rates by. \<exists>e. removeProduct rates (cp_id p) by t = (Inl e, t))"
proof -
  define t where "t = snd (createProduct ps fr seller dto s)"
  obtain p where created: "fst (createProduct ps fr seller dto s) = Inr p"
    and rows: "cat_products t = cat_products s @ [p]" and pid: "cp_id p = fr_product fr"
    and shown: "cp_baseCurrency p = XLM" "cp_basePrice p = to_string (of_nat k / 10 ^ 7)"
    using create_accepts [of dto k XLM ps fr seller s] assms(1-4)
    by (auto simp: getCurrencyPrecision_def t_def)
  obtain err where "toMinorUnitsFromString (digit_char k # ''e-7'') XLM = Inl err"
    using tiny_unreadable [of "digit_char k" XLM] assms(4) by auto
  moreover have "cp_basePrice p = digit_char k # ''e-7''"
    unfolding shown(2) by (rule tiny_text [OF assms(3,4)])
  ultimately have throws: "\<exists>e. toDisplayProduct rates p cur = Inl e" for rates cur
    by (simp add: toDisplayProduct_def convertAmountToString_def minor_of_arg_def shown(1) Let_def)
  have found: "tbl_find cp_id (cp_id p) (cat_products t) = Some p"
    using assms(5) unfolding rows pid [symmetric] by (rule tbl_find_new)
  have one: "\<exists>e. findOneProduct rates (cp_id p) cur t = Inl e" for rates cur
    using throws [of rates cur] by (auto simp: findOneProduct_def found)
  have all: "\<exists>e. findAllProducts rates f t = Inl e" for rates f
    using display_all_throws [OF _ throws, of "cat_products t" rates "fd_preferredCurrency f"]
    by (auto simp: findAllProducts_def rows)
  have remove: "\<exists>e. removeProduct rates (cp_id p) by t = (Inl e, t)" for rates "by"
    using one [of rates None] by (auto simp: removeProduct_def)
  have "createProduct ps fr seller dto s = (Inr p, t)"
    using created by (simp add: t_def prod_eq_iff)
  with one all remove show ?thesis by blast
qed

theorem tiny_price_blocks_catalogue_witness:
  "\<exists>p t. createProduct None sample_ids ''s'' (sample_dto (of_nat 1 / 10 ^ 7) XLM) empty_catalog = (Inr p, t) \<and>
     (\<forall>rates f. \<exists>e. findAllProducts rates f t = Inl e)"
  using tiny_price_blocks_catalogue [of "sample_dto (of_nat 1 / 10 ^ 7) XLM" 1 empty_catalog sample_ids None "''s''"]
  by (auto simp: sample_dto_def empty_catalog_def)

subsection \<open>The display of a product in its own currency\<close>

lemma same_currency_exact:
  assumes "parseDecimal (rates c) = Inr d" and "dv_int d \<noteq> 0"
  shows "convertMinorUnits rates m c c = Inr m"
proof -
  have "sgn (dv_int d) * sgn (dv_int d) = 1" using assms(2) by (simp add: sgn_if)
  moreover have "big_div (m * dv_int d) (dv_int d) = (sgn (dv_int d) * sgn (dv_int d)) * (\<bar>m\<bar> * sgn m)"
    using assms(2) unfolding big_div_def by (simp only: sgn_mult abs_mult) (simp add: ac_simps)
  ultimately have "big_div (m * dv_int d) (dv_int d) = m" by (simp only: abs_mult_sgn mult_1)
  then have "divideWithHalfUp (m * dv_int d) (dv_int d) = m"
    by (simp add: divideWithHalfUp_def big_mod_def Let_def)
  then show ?thesis using assms by (simp add: convertMinorUnits_def Let_def pow10_def)
qed

text \<open>
  A product with a price of \<open>k\<close> minor units in plain decimal notation is shown in
  its own currency at exactly that price and at rate 1, whatever the rates are as long as its
  currency's rate reads as a number other than zero.
\<close>

lemma own_currency_price_exact:
  assumes "cd_basePrice dto = Some (of_nat k / 10 ^ getCurrencyPrecision c)"
    and "cd_baseCurrency dto = Some c" and "1 \<le> k" and "k \<le> 10 ^ 9 * 10 ^ getCurrencyPrecision c"
    and "\<not> exponent_form (of_nat k / 10 ^ getCurrencyPrecision c)"
    and "\<forall>q \<in> set (cat_products s). cp_id q \<noteq> fr_product fr"
    and "parseDecimal (rates c) = Inr d" and "dv_int d \<noteq> 0"
  shows "\<exists>p v. fst (createProduct ps fr seller dto s) = Inr p \<and>
    findOneProduct rates (cp_id p) None (snd (createProduct ps fr seller dto s)) = Inr (Some v) \<and>
    vw_product v = p \<and> vw_convertedPriceString v = fromMinorUnitsToDecimalString (int k) c \<and>
    vw_convertedCurrency v = c \<and> vw_conversionRate v = Some 1"
proof -
  define t where "t = snd (createProduct ps fr seller dto s)"
  obtain p where created: "fst (createProduct ps fr seller dto s) = Inr p"
    and rows: "cat_products t = cat_products s @ [p]" and pid: "cp_id p = fr_product fr"
    and shown: "cp_baseCurrency p = c" "cp_basePrice p = to_string (of_nat k / 10 ^ getCurrencyPrecision c)"
    using create_accepts [of dto k c ps fr seller s] assms(1-4) by (auto simp: t_def)
  have "toMinorUnitsFromString (cp_basePrice p) c = Inr (int k)"
    using assms(5) number_text_minor [of k c]
    by (simp add: shown to_string_def getCurrencyPrecision_def)
  moreover have "tbl_find cp_id (cp_id p) (cat_products t) = Some p"
    using assms(6) unfolding rows pid [symmetric] by (rule tbl_find_new)
  moreover have "convertMinorUnits rates m c c = Inr m" for m
    by (rule same_currency_exact [of rates c d]) (fact assms(7,8))+
  ultimately have "\<exists>v. findOneProduct rates (cp_id p) None t = Inr (Some v) \<and>
      vw_product v = p \<and> vw_convertedPriceString v = fromMinorUnitsToDecimalString (int k) c \<and>
      vw_convertedCurrency v = c \<and> vw_conversionRate v = Some 1"
    by (simp add: findOneProduct_def toDisplayProduct_def convertAmountToString_def minor_of_arg_def
        shown(1) getConversionRate_def)
  with created show ?thesis unfolding t_def by blast
qed

theorem own_currency_price_exact_witness:
  "\<exists>p v. fst (createProduct None sample_ids ''s'' (sample_dto (of_nat 1999 / 10 ^ getCurrencyPrecision USD) USD)
       empty_catalog) = Inr p \<and>
     findOneProduct defaultRates (cp_id p) None (snd (createProduct None sample_ids ''s''
       (sample_dto (of_nat 1999 / 10 ^ getCurrencyPrecision USD) USD) empty_catalog)) = Inr (Some v) \<and>
     vw_convertedPriceString v = ''19.99''"
proof -
  have "fromMinorUnitsToDecimalString (int 1999) USD = ''19.99''"
    by (simp add: fromMinor_text fixed_text_def Let_def show_nat.simps digit_char_def pad_start_def dot_def)
  then show ?thesis
    using own_currency_price_exact [of "sample_dto (of_nat 1999 / 10 ^ getCurrencyPrecision USD) USD" 1999 USD
        empty_catalog sample_ids defaultRates "\<lparr>dv_int = 10000000, dv_scale = 7\<rparr>" None "''s''"]
      default_rates_read(1)
    by (auto simp: sample_dto_def empty_catalog_def exponent_form_def getCurrencyPrecision_def)
qed

text \<open>
  A price change, an update or a removal by anyone but the seller is refused and
  changes nothing: not the catalogue, the price table or the events.
\<close>

lemma only_seller_changes_product:
  assumes "tbl_find cp_id pid (cat_products s) = Some p" and "cp_sellerId p \<noteq> by"
  shows "(\<exists>m. updatePrice ps fr pid by upd s = (Inl (ForbiddenException m), s)) \<and>
    (\<exists>m. updateProduct ps fr pid by ud s = (Inl (ForbiddenException m), s)) \<and>
    (\<exists>e. removeProduct rates pid by s = (Inl e, s))"
  using assms
  by (auto simp: updatePrice_def updateProduct_def removeProduct_def findOneProduct_def
      toDisplayProduct_def Let_def split: sum.splits)

theorem only_seller_changes_product_witness:
  "\<exists>e. removeProduct defaultRates ''p'' ''x''
     (snd (createProduct None sample_ids ''s'' (sample_dto (of_nat 300 / 10 ^ getCurrencyPrecision USD) USD) empty_catalog)) =
     (Inl e, snd (createProduct None sample_ids ''s'' (sample_dto (of_nat 300 / 10 ^ getCurrencyPrecision USD) USD) empty_catalog))"
proof -
  let ?t = "snd (createProduct None sample_ids ''s'' (sample_dto (of_nat 300 / 10 ^ getCurrencyPrecision USD) USD) empty_catalog)"
  obtain p where "cat_products ?t = [p]" "cp_id p = ''p''" "cp_sellerId p = ''s''"
    by (rule create_accepts [of "sample_dto (of_nat 300 / 10 ^ getCurrencyPrecision USD) USD" 300 USD
          None sample_ids "''s''" empty_catalog])
      (simp_all add: sample_dto_def empty_catalog_def sample_ids_def getCurrencyPrecision_def)
  then show ?thesis using only_seller_changes_product [of "''p''" ?t p "''x''"] by simp
qed

end
