(* ===== verification/Lifecycle.thy ===== *)
theory Lifecycle
  imports Prelude
begin

text \<open>
  \<open>StatusTransitionValidator\<close> (src/src/common/validators/status-transition.validator.ts), the
  transition tables of orders, escrows and disputes, the TypeORM subscriber that guards order
  rows (src/src/orders/subscribers/order-state.subscriber.ts), and the theory of the histories
  such a table allows. The general facts live in the locales \<open>lifecycle\<close> and
  \<open>ranked_lifecycle\<close>; they are interpreted on the tables of the code.
\<close>

subsection \<open>The statuses\<close>

datatype order_status = OS_PENDING | OS_CONFIRMED | OS_PROCESSING | OS_PAID | OS_SHIPPED
  | OS_DELIVERED | OS_COMPLETED | OS_CANCELLED | OS_REFUNDED | OS_MANUAL_REVIEW

datatype escrow_status = ES_PENDING | ES_LOCKED | ES_RELEASED | ES_REFUNDED | ES_CANCELLED
  | ES_FROZEN | ES_PARTIALLY_RELEASED

datatype dispute_status = DS_OPEN | DS_ESCALATED | DS_RESOLVED | DS_REJECTED | DS_AUTO_RESOLVED

fun order_status_text :: "order_status \<Rightarrow> string" where
  "order_status_text OS_PENDING = ''pending''"
| "order_status_text OS_CONFIRMED = ''confirmed''"
| "order_status_text OS_PROCESSING = ''processing''"
| "order_status_text OS_PAID = ''paid''"
| "order_status_text OS_SHIPPED = ''shipped''"
| "order_status_text OS_DELIVERED = ''delivered''"
| "order_status_text OS_COMPLETED = ''completed''"
| "order_status_text OS_CANCELLED = ''cancelled''"
| "order_status_text OS_REFUNDED = ''refunded''"
| "order_status_text OS_MANUAL_REVIEW = ''manual_review''"

fun escrow_status_text :: "escrow_status \<Rightarrow> string" where
  "escrow_status_text ES_PENDING = ''pending''"
| "escrow_status_text ES_LOCKED = ''locked''"
| "escrow_status_text ES_RELEASED = ''released''"
| "escrow_status_text ES_REFUNDED = ''refunded''"
| "escrow_status_text ES_CANCELLED = ''cancelled''"
| "escrow_status_text ES_FROZEN = ''frozen''"
| "escrow_status_text ES_PARTIALLY_RELEASED = ''partially_released''"

text \<open>The statuses are finite, so that statements over all of them are executable.\<close>

instantiation order_status :: enum
begin

definition enum_order_status :: "order_status list" where
  "enum_order_status = [OS_PENDING, OS_CONFIRMED, OS_PROCESSING, OS_PAID, OS_SHIPPED,
     OS_DELIVERED, OS_COMPLETED, OS_CANCELLED, OS_REFUNDED, OS_MANUAL_REVIEW]"

definition enum_all_order_status :: "(order_status \<Rightarrow> bool) \<Rightarrow> bool" where
  "enum_all_order_status P = list_all P enum_class.enum"

definition enum_ex_order_status :: "(order_status \<Rightarrow> bool) \<Rightarrow> bool" where
  "enum_ex_order_status P = list_ex P enum_class.enum"

instance
proof
  show univ: "(UNIV :: order_status set) = set enum_class.enum"
    by (auto simp: enum_order_status_def intro: order_status.exhaust)
  show "distinct (enum_class.enum :: order_status list)" by (simp add: enum_order_status_def)
  show "enum_class.enum_all P \<longleftrightarrow> Ball UNIV P" for P :: "order_status \<Rightarrow> bool"
    by (simp add: enum_all_order_status_def univ list_all_iff)
  show "enum_class.enum_ex P \<longleftrightarrow> Bex UNIV P" for P :: "order_status \<Rightarrow> bool"
    by (simp add: enum_ex_order_status_def univ list_ex_iff)
qed

end

instantiation escrow_status :: enum
begin

definition enum_escrow_status :: "escrow_status list" where
  "enum_escrow_status = [ES_PENDING, ES_LOCKED, ES_RELEASED, ES_REFUNDED, ES_CANCELLED,
     ES_FROZEN, ES_PARTIALLY_RELEASED]"

definition enum_all_escrow_status :: "(escrow_status \<Rightarrow> bool) \<Rightarrow> bool" where
  "enum_all_escrow_status P = list_all P enum_class.enum"

definition enum_ex_escrow_status :: "(escrow_status \<Rightarrow> bool) \<Rightarrow> bool" where
  "enum_ex_escrow_status P = list_ex P enum_class.enum"

instance
proof
  show univ: "(UNIV :: escrow_status set) = set enum_class.enum"
    by (auto simp: enum_escrow_status_def intro: escrow_status.exhaust)
  show "distinct (enum_class.enum :: escrow_status list)" by (simp add: enum_escrow_status_def)
  show "enum_class.enum_all P \<longleftrightarrow> Ball UNIV P" for P :: "escrow_status \<Rightarrow> bool"
    by (simp add: enum_all_escrow_status_def univ list_all_iff)
  show "enum_class.enum_ex P \<longleftrightarrow> Bex UNIV P" for P :: "escrow_status \<Rightarrow> bool"
    by (simp add: enum_ex_escrow_status_def univ list_ex_iff)
qed

end

subsection \<open>The validator\<close>

text \<open>The type parameter of the class is a string enum; \<open>text_of\<close> is the string that a
  constructor of the model stands for. Every table below is total, so \<open>|| []\<close> never acts.\<close>

record 'a status_validator =
  validTransitions :: "'a \<Rightarrow> 'a list"
  entityName :: string
  text_of :: "'a \<Rightarrow> string"

fun join_text :: "string \<Rightarrow> string list \<Rightarrow> string" where
  "join_text sep [] = []"
| "join_text sep [x] = x"
| "join_text sep (x # y # ys) = x @ sep @ join_text sep (y # ys)"

definition quoted :: "string \<Rightarrow> string" where
  "quoted t = CHR 0x27 # t @ [CHR 0x27]"

definition invalid_transition :: "'a status_validator \<Rightarrow> 'a \<Rightarrow> 'a \<Rightarrow> error" where
  "invalid_transition v cur new = BadRequestException
     [Txt ''Invalid '', Txt (entityName v), Txt '' status transition from '',
      Txt (quoted (text_of v cur)), Txt '' to '', Txt (quoted (text_of v new)), Txt ''. Allowed transitions: '',
      Txt (if length (validTransitions v cur) > 0
           then join_text '', '' (map (text_of v) (validTransitions v cur))
           else ''none (terminal state)'')]"

definition validate :: "'a status_validator \<Rightarrow> 'a \<Rightarrow> 'a \<Rightarrow> error + unit" where
  "validate v currentStatus newStatus =
     (let allowed = validTransitions v currentStatus in
      if \<not> List.member allowed newStatus then Inl (invalid_transition v currentStatus newStatus)
      else Inr ())"

definition isValid :: "'a status_validator \<Rightarrow> 'a \<Rightarrow> 'a \<Rightarrow> bool" where
  "isValid v currentStatus newStatus = List.member (validTransitions v currentStatus) newStatus"

definition getAllowedTransitions :: "'a status_validator \<Rightarrow> 'a \<Rightarrow> 'a list" where
  "getAllowedTransitions v currentStatus = validTransitions v currentStatus"

definition isTerminalState :: "'a status_validator \<Rightarrow> 'a \<Rightarrow> bool" where
  "isTerminalState v s \<longleftrightarrow> length (validTransitions v s) = 0"

lemma validate_simps [simp]:
  "validate v a b = Inr u \<longleftrightarrow> b \<in> set (validTransitions v a)"
  "validate v a b = Inl e \<longleftrightarrow> b \<notin> set (validTransitions v a) \<and> e = invalid_transition v a b"
  by (auto simp: validate_def)

subsection \<open>The tables\<close>

fun orderTransitions :: "order_status \<Rightarrow> order_status list" where
  "orderTransitions OS_PENDING = [OS_CONFIRMED, OS_CANCELLED, OS_MANUAL_REVIEW]"
| "orderTransitions OS_CONFIRMED = [OS_PROCESSING, OS_CANCELLED]"
| "orderTransitions OS_PROCESSING = [OS_PAID, OS_CANCELLED]"
| "orderTransitions OS_PAID = [OS_SHIPPED, OS_CANCELLED]"
| "orderTransitions OS_SHIPPED = [OS_DELIVERED, OS_CANCELLED]"
| "orderTransitions OS_DELIVERED = [OS_COMPLETED, OS_REFUNDED]"
| "orderTransitions OS_COMPLETED = [OS_REFUNDED]"
| "orderTransitions OS_CANCELLED = []"
| "orderTransitions OS_REFUNDED = []"
| "orderTransitions OS_MANUAL_REVIEW = [OS_CONFIRMED, OS_CANCELLED]"

definition orderTransitionValidator :: "order_status status_validator" where
  "orderTransitionValidator =
     \<lparr>validTransitions = orderTransitions, entityName = ''Order'', text_of = order_status_text\<rparr>"

fun escrowTransitions :: "escrow_status \<Rightarrow> escrow_status list" where
  "escrowTransitions ES_PENDING = [ES_LOCKED, ES_CANCELLED]"
| "escrowTransitions ES_LOCKED = [ES_RELEASED, ES_REFUNDED, ES_FROZEN, ES_PARTIALLY_RELEASED]"
| "escrowTransitions ES_RELEASED = []"
| "escrowTransitions ES_REFUNDED = []"
| "escrowTransitions ES_CANCELLED = []"
| "escrowTransitions ES_FROZEN = [ES_LOCKED, ES_REFUNDED]"
| "escrowTransitions ES_PARTIALLY_RELEASED = [ES_RELEASED, ES_REFUNDED]"

definition escrowTransitionValidator :: "escrow_status status_validator" where
  "escrowTransitionValidator =
     \<lparr>validTransitions = escrowTransitions, entityName = ''Escrow'', text_of = escrow_status_text\<rparr>"

lemma validators [simp]:
  "validTransitions orderTransitionValidator = orderTransitions"
  "validTransitions escrowTransitionValidator = escrowTransitions"
  by (simp_all add: orderTransitionValidator_def escrowTransitionValidator_def)

fun allowedTransitions :: "dispute_status \<Rightarrow> dispute_status list" where
  "allowedTransitions DS_OPEN = [DS_ESCALATED, DS_AUTO_RESOLVED, DS_RESOLVED, DS_REJECTED]"
| "allowedTransitions DS_ESCALATED = [DS_RESOLVED, DS_REJECTED]"
| "allowedTransitions DS_RESOLVED = []"
| "allowedTransitions DS_REJECTED = []"
| "allowedTransitions DS_AUTO_RESOLVED = []"

definition canTransition :: "dispute_status \<Rightarrow> dispute_status \<Rightarrow> bool" where
  "canTransition a b = List.member (allowedTransitions a) b"

subsection \<open>The subscriber of the order table\<close>

text \<open>\<open>VALID_STATE_TRANSITIONS\<close> is a second copy of the table, written out in the source.
  The entity of an event and its status may be absent.\<close>

fun VALID_STATE_TRANSITIONS :: "order_status \<Rightarrow> order_status list" where
  "VALID_STATE_TRANSITIONS OS_PENDING = [OS_CONFIRMED, OS_CANCELLED, OS_MANUAL_REVIEW]"
| "VALID_STATE_TRANSITIONS OS_CONFIRMED = [OS_PROCESSING, OS_CANCELLED]"
| "VALID_STATE_TRANSITIONS OS_PROCESSING = [OS_PAID, OS_CANCELLED]"
| "VALID_STATE_TRANSITIONS OS_PAID = [OS_SHIPPED, OS_CANCELLED]"
| "VALID_STATE_TRANSITIONS OS_SHIPPED = [OS_DELIVERED, OS_CANCELLED]"
| "VALID_STATE_TRANSITIONS OS_DELIVERED = [OS_COMPLETED, OS_REFUNDED]"
| "VALID_STATE_TRANSITIONS OS_COMPLETED = [OS_REFUNDED]"
| "VALID_STATE_TRANSITIONS OS_CANCELLED = []"
| "VALID_STATE_TRANSITIONS OS_REFUNDED = []"
| "VALID_STATE_TRANSITIONS OS_MANUAL_REVIEW = [OS_CONFIRMED, OS_CANCELLED]"

definition beforeInsert :: "order_status option \<Rightarrow> error + unit" where
  "beforeInsert status = (case status of
       Some s \<Rightarrow> if s \<noteq> OS_PENDING then Inl (BadRequestException
           [Txt ''New orders must start with status '', Txt (order_status_text OS_PENDING),
            Txt ''. Invalid status: '', Txt (order_status_text s)]) else Inr ()
     | None \<Rightarrow> Inr ())"

definition isValidStateTransition :: "order_status \<Rightarrow> order_status \<Rightarrow> bool" where
  "isValidStateTransition currentStatus newStatus =
     List.member (VALID_STATE_TRANSITIONS currentStatus) newStatus"

definition illegal_order_transition :: "order_status \<Rightarrow> order_status \<Rightarrow> error" where
  "illegal_order_transition oldStatus newStatus = InternalServerErrorException
     [Txt ''Illegal state transition attempt: '', Txt (order_status_text oldStatus), Txt '' -> '',
      Txt (order_status_text newStatus), Txt ''. This violates the order state machine.'']"

definition beforeUpdate ::
  "order_status option option \<Rightarrow> order_status option option \<Rightarrow> error + unit" where
  "beforeUpdate entity databaseEntity = (case (entity, databaseEntity) of
       (Some (Some newStatus), Some (Some oldStatus)) \<Rightarrow>
         if newStatus = oldStatus then Inr ()
         else if \<not> isValidStateTransition oldStatus newStatus
         then Inl (illegal_order_transition oldStatus newStatus)
         else Inr ()
     | _ \<Rightarrow> Inr ())"


subsection \<open>Histories\<close>

text \<open>
  The successive statuses of an entity whose every change went through a table: the head is
  the status it starts in, each next one is allowed by the one before.
\<close>

inductive history :: "('a \<Rightarrow> 'a list) \<Rightarrow> 'a list \<Rightarrow> bool" for table :: "'a \<Rightarrow> 'a list" where
  start: "history table [a]"
| step: "history table (b # bs) \<Longrightarrow> b \<in> set (table a) \<Longrightarrow> history table (a # b # bs)"

inductive_simps history_simps: "history table []" "history table [a]" "history table (a # b # bs)"
inductive_cases history_stepE: "history table (a # b # bs)"

code_pred (modes: i \<Rightarrow> i \<Rightarrow> bool) history .

lemma history_append:
  assumes "history table (xs @ [a])" and "history table (a # ys)"
  shows "history table (xs @ a # ys)"
  using assms
proof (induction xs)
  case (Cons x xs)
  then show ?case by (cases xs) (auto simp: history_simps)
qed simp

locale lifecycle =
  fixes table :: "'a \<Rightarrow> 'a list"
begin

text \<open>A terminal status ends every history.\<close>

lemma terminal_ends:
  assumes "history table (xs @ a # ys)" and "table a = []"
  shows "ys = []"
  using assms
proof (induction xs)
  case Nil
  then show ?case by (cases ys) (auto simp: history_simps)
next
  case (Cons x xs)
  then show ?case by (cases xs) (auto simp: history_simps)
qed

text \<open>If every way into the statuses \<open>G\<close> from outside them is the status \<open>gate\<close>, then a
  history that starts outside and enters them passes the gate first.\<close>

lemma gate_passed:
  assumes "history table (a # xs)" and "a \<notin> G" and "b \<in> set xs" and "b \<in> G"
    and gate: "\<And>c d. c \<notin> G \<Longrightarrow> d \<in> G \<Longrightarrow> d \<in> set (table c) \<Longrightarrow> c = gate"
  shows "gate \<in> set (a # xs)"
  using assms(1-4)
proof (induction xs arbitrary: a)
  case (Cons x xs)
  then have "history table (x # xs)" "x \<in> set (table a)" by (auto simp: history_simps)
  with Cons gate show ?case by (cases "x \<in> G") auto
qed simp

end

text \<open>A table that only moves towards higher ranks: no status comes back and histories are
  bounded by the rank of the last status.\<close>

locale ranked_lifecycle = lifecycle table for table :: "'a \<Rightarrow> 'a list" +
  fixes rank :: "'a \<Rightarrow> nat"
  assumes rank_grows: "b \<in> set (table a) \<Longrightarrow> rank a < rank b"
begin

lemma ranks_above: "history table (a # xs) \<Longrightarrow> b \<in> set xs \<Longrightarrow> rank a < rank b"
proof (induction xs arbitrary: a)
  case (Cons x xs)
  then have "history table (x # xs)" "rank a < rank x"
    by (auto simp: history_simps intro: rank_grows)
  with Cons show ?case by (auto intro: less_trans)
qed simp

lemma never_returns: "history table xs \<Longrightarrow> distinct xs"
  by (induction rule: history.induct) (auto dest: ranks_above rank_grows less_trans)

lemma bounded: "history table (a # xs) \<Longrightarrow> rank a + length xs \<le> rank (last (a # xs))"
proof (induction xs arbitrary: a)
  case (Cons x xs)
  then have "history table (x # xs)" "rank a < rank x"
    by (auto simp: history_simps intro: rank_grows)
  with Cons.IH [of x] show ?case by simp
qed simp

end

fun order_rank :: "order_status \<Rightarrow> nat" where
  "order_rank OS_PENDING = 0"
| "order_rank OS_MANUAL_REVIEW = 1"
| "order_rank OS_CONFIRMED = 2"
| "order_rank OS_PROCESSING = 3"
| "order_rank OS_PAID = 4"
| "order_rank OS_SHIPPED = 5"
| "order_rank OS_DELIVERED = 6"
| "order_rank OS_COMPLETED = 7"
| "order_rank OS_CANCELLED = 8"
| "order_rank OS_REFUNDED = 8"

fun dispute_rank :: "dispute_status \<Rightarrow> nat" where
  "dispute_rank DS_OPEN = 0"
| "dispute_rank DS_ESCALATED = 1"
| "dispute_rank DS_RESOLVED = 2"
| "dispute_rank DS_REJECTED = 2"
| "dispute_rank DS_AUTO_RESOLVED = 2"

interpretation order_life: ranked_lifecycle orderTransitions order_rank
proof
  show "order_rank a < order_rank b" if "b \<in> set (orderTransitions a)" for a b
    using that by (cases a) auto
qed

interpretation dispute_life: ranked_lifecycle allowedTransitions dispute_rank
proof
  show "dispute_rank a < dispute_rank b" if "b \<in> set (allowedTransitions a)" for a b
    using that by (cases a) auto
qed

interpretation escrow_life: lifecycle escrowTransitions .

lemma order_rank_le: "order_rank s \<le> 8"
  by (cases s) auto

text \<open>
  Property C36: an order whose every status change went through the table of the orders never
  comes back to a status it left, and has at most nine statuses in its life (so every order
  reaches a terminal status or stops changing).
\<close>

theorem order_history_bounded:
  assumes "history orderTransitions h"
  shows "distinct h \<and> length h \<le> 9"
proof
  show "distinct h" using assms by (rule order_life.never_returns)
  from assms obtain a xs where h: "h = a # xs" by (cases h) (auto simp: history_simps)
  have "order_rank a + length xs \<le> 8"
    using order_life.bounded [of a xs] order_rank_le [of "last (a # xs)"] assms h by simp
  then show "length h \<le> 9" by (simp add: h)
qed

theorem order_history_bounded_witness:
  "history orderTransitions [OS_PENDING, OS_MANUAL_REVIEW, OS_CONFIRMED, OS_PROCESSING, OS_PAID,
     OS_SHIPPED, OS_DELIVERED, OS_COMPLETED, OS_REFUNDED] \<and>
   length [OS_PENDING, OS_MANUAL_REVIEW, OS_CONFIRMED, OS_PROCESSING, OS_PAID,
     OS_SHIPPED, OS_DELIVERED, OS_COMPLETED, OS_REFUNDED] \<le> 9"
  using order_history_bounded [of "[OS_PENDING, OS_MANUAL_REVIEW, OS_CONFIRMED, OS_PROCESSING,
     OS_PAID, OS_SHIPPED, OS_DELIVERED, OS_COMPLETED, OS_REFUNDED]"]
  by (simp add: history_simps)

text \<open>
  Along the table an order that starts before its payment is shipped, delivered,
  completed or refunded only after it was paid.
\<close>

lemma no_shipping_before_payment:
  assumes "history orderTransitions (a # h)" and "a \<in> {OS_PENDING, OS_CONFIRMED, OS_PROCESSING,
      OS_MANUAL_REVIEW}"
    and "b \<in> set h" and "b \<in> {OS_SHIPPED, OS_DELIVERED, OS_COMPLETED, OS_REFUNDED}"
  shows "OS_PAID \<in> set h"
proof -
  have "OS_PAID \<in> set (a # h)"
  proof (rule order_life.gate_passed [OF assms(1) _ assms(3,4)])
    show "a \<notin> {OS_SHIPPED, OS_DELIVERED, OS_COMPLETED, OS_REFUNDED}" using assms(2) by auto
    show "c = OS_PAID" if "c \<notin> {OS_SHIPPED, OS_DELIVERED, OS_COMPLETED, OS_REFUNDED}"
      "d \<in> {OS_SHIPPED, OS_DELIVERED, OS_COMPLETED, OS_REFUNDED}" "d \<in> set (orderTransitions c)"
      for c d using that by (cases c) auto
  qed
  with assms(2) show ?thesis by auto
qed

theorem no_shipping_before_payment_witness:
  "OS_PAID \<in> set [OS_CONFIRMED, OS_PROCESSING, OS_PAID, OS_SHIPPED]"
  by (rule no_shipping_before_payment [of OS_PENDING _ OS_SHIPPED]) (simp_all add: history_simps)

text \<open>
  The subscriber accepts an update of an order row exactly when the status is
  unchanged or the validator of \<open>OrdersService\<close> accepts the change: the two copies of the
  transition table agree.
\<close>

lemma subscriber_agrees_with_validator:
  "beforeUpdate (Some (Some new)) (Some (Some old)) = Inr () \<longleftrightarrow>
   old = new \<or> validate orderTransitionValidator old new = Inr ()"
proof -
  have "VALID_STATE_TRANSITIONS s = orderTransitions s" for s by (cases s) simp_all
  then show ?thesis by (auto simp: beforeUpdate_def isValidStateTransition_def)
qed

text \<open>
  An escrow that starts pending is released, refunded, frozen or partially
  released only after it was locked, and a released, refunded or cancelled escrow never
  changes its status again along the table.
\<close>

lemma escrow_moves_only_when_locked:
  assumes "history escrowTransitions (ES_PENDING # h)"
  shows "(\<forall>s \<in> set h. s \<notin> {ES_LOCKED, ES_CANCELLED, ES_PENDING} \<longrightarrow> ES_LOCKED \<in> set h) \<and>
    (\<forall>xs s ys. h = xs @ s # ys \<longrightarrow> s \<in> {ES_RELEASED, ES_REFUNDED, ES_CANCELLED} \<longrightarrow> ys = [])"
proof (intro conjI ballI allI impI)
  fix s assume s: "s \<in> set h" "s \<notin> {ES_LOCKED, ES_CANCELLED, ES_PENDING}"
  have "ES_LOCKED \<in> set (ES_PENDING # h)"
  proof (rule escrow_life.gate_passed [OF assms _ s(1)])
    show "ES_PENDING \<notin> - {ES_LOCKED, ES_CANCELLED, ES_PENDING}" by simp
    show "s \<in> - {ES_LOCKED, ES_CANCELLED, ES_PENDING}" using s(2) by simp
    show "c = ES_LOCKED" if "c \<notin> - {ES_LOCKED, ES_CANCELLED, ES_PENDING}"
      "d \<in> - {ES_LOCKED, ES_CANCELLED, ES_PENDING}" "d \<in> set (escrowTransitions c)" for c d
      using that by (cases c) auto
  qed
  then show "ES_LOCKED \<in> set h" by simp
next
  fix xs s ys assume h: "h = xs @ s # ys" and s: "s \<in> {ES_RELEASED, ES_REFUNDED, ES_CANCELLED}"
  show "ys = []"
  proof (rule escrow_life.terminal_ends [of "ES_PENDING # xs" s])
    show "history escrowTransitions ((ES_PENDING # xs) @ s # ys)" using assms h by simp
    show "escrowTransitions s = []" using s by auto
  qed
qed

theorem escrow_moves_only_when_locked_witness:
  "ES_LOCKED \<in> set [ES_LOCKED, ES_FROZEN, ES_REFUNDED]"
proof -
  have "history escrowTransitions [ES_PENDING, ES_LOCKED, ES_FROZEN, ES_REFUNDED]"
    by (simp add: history_simps)
  from escrow_moves_only_when_locked [OF this] show ?thesis by simp
qed

end
