(* ===== verification/Database.thy ===== *)
theory Database
  imports Products Lifecycle
begin

text \<open>
  The tables behind the services, one record per entity with the columns the services read or
  write, the events they emit and the payments they submit to the Stellar network; the
  \<open>dataSource.transaction\<close> wrapper; and the interface of the decimal columns. Soft deletion,
  relations and \<open>UpdateDateColumn\<close>s that only the database writes are left out.
\<close>

subsection \<open>Orders (src/src/entities/order.entity.ts)\<close>

datatype payment_status = PS_UNPAID | PS_PENDING | PS_PAID | PS_CONFIRMED | PS_FAILED | PS_TIMEOUT
  | PS_REFUNDED

datatype escrow_type = ET_STANDARD | ET_MILESTONE

record order_item =
  it_productId :: uuid
  it_variantId :: "uuid option"
  it_productName :: string
  it_quantity :: int
  it_price :: number
  it_subtotal :: number
  it_priceCurrency :: currency

record order_milestone =
  om_title :: string
  om_description :: string
  om_amount :: number
  om_percentage :: number
  om_type :: string
  om_trigger :: string
  om_autoRelease :: bool
  om_sortOrder :: number

record order_row =
  o_id :: uuid
  o_totalAmount :: number
  o_taxAmount :: number
  o_shippingCost :: number
  o_discountAmount :: number
  o_status :: order_status
  o_paymentStatus :: payment_status
  o_items :: "order_item list"
  o_shippingAddress :: "string option"
  o_trackingNumber :: "string option"
  o_notes :: "string option"
  o_cancellationReason :: "string option"
  o_expectedDeliveryDate :: "time option"
  o_currency :: currency
  o_escrowType :: "escrow_type option"
  o_milestones :: "order_milestone list option"
  o_releasedAmount :: number
  o_remainingAmount :: number
  o_createdAt :: time
  o_updatedAt :: time
  o_confirmedAt :: "time option"
  o_shippedAt :: "time option"
  o_deliveredAt :: "time option"
  o_completedAt :: "time option"
  o_cancelledAt :: "time option"
  o_refundedAt :: "time option"
  o_buyerId :: uuid
  o_sellerId :: "uuid option"

subsection \<open>Stock (product, listing and listing-variant entities, inventory-history.entity.ts)\<close>

record product_row =
  p_id :: uuid
  p_title :: string
  p_quantity :: int
  p_reserved :: int
  p_available :: int

record listing_row =
  l_id :: uuid
  l_title :: string
  l_description :: string
  l_price :: number
  l_currency :: string
  l_address :: string
  l_category :: "string option"
  l_isActive :: bool
  l_quantity :: int
  l_reserved :: int
  l_available :: int

record variant_row =
  v_id :: uuid
  v_listingId :: uuid
  v_sku :: "string option"
  v_price :: number
  v_currency :: string
  v_quantity :: int
  v_reserved :: int
  v_available :: int

datatype inventory_change_type = PURCHASE | ADJUSTMENT | RESERVATION | RELEASE | BULK_UPDATE
  | CANCELLATION | REFUND

record inventory_entry =
  h_listingId :: uuid
  h_userId :: uuid
  h_change :: int
  h_type :: inventory_change_type
  h_note :: "string option"
  h_createdAt :: time

subsection \<open>Payments (src/src/payments/entities/payment.entity.ts, wallet.entity.ts)\<close>

text \<open>What the monitor hands over about a transaction on the Stellar network; a field the
  network left out is \<open>None\<close>.\<close>

record transaction_data =
  td_id :: string
  td_source_account :: string
  td_to :: "string option"
  td_amount :: string
  td_asset_code :: "string option"
  td_created_at :: time
  td_confirmations :: "number option"

record payment_row =
  pm_id :: uuid
  pm_orderId :: uuid
  pm_amount :: number
  pm_currency :: currency
  pm_status :: payment_status
  pm_stellarTransactionId :: "string option"
  pm_destinationWalletAddress :: string
  pm_sourceWalletAddress :: "string option"
  pm_confirmationCount :: number
  pm_timeoutMinutes :: number
  pm_createdAt :: time
  pm_confirmedAt :: "time option"
  pm_failedAt :: "time option"
  pm_expiresAt :: "time option"
  pm_failureReason :: "msg option"
  pm_stellarTransactionData :: "transaction_data option"
  pm_buyerId :: uuid

record wallet_row =
  w_id :: uuid
  w_publicKey :: string
  w_userId :: uuid

subsection \<open>Escrows and disputes\<close>

record escrow_row =
  e_id :: uuid
  e_orderId :: uuid
  e_buyerPublicKey :: string
  e_sellerPublicKey :: string
  e_amount :: number
  e_releasedAmount :: number
  e_refundedAmount :: number
  e_escrowAccountPublicKey :: string
  e_lockTransactionHash :: "string option"
  e_releaseTransactionHash :: "string option"
  e_refundTransactionHash :: "string option"
  e_status :: escrow_status
  e_deliveryConfirmedAt :: "time option"
  e_cancelledAt :: "time option"
  e_errorMessage :: "msg option"
  e_disputeFlag :: bool
  e_createdAt :: time

record dispute_row =
  d_id :: uuid
  d_transactionId :: string
  d_complainantId :: uuid
  d_respondentId :: uuid
  d_reason :: string
  d_status :: dispute_status
  d_createdAt :: time
  d_escrowId :: "uuid option"
  d_description :: "string option"
  d_imageUrls :: "string option"

record evidence_row =
  ev_id :: uuid
  ev_disputeId :: uuid
  ev_submittedBy :: uuid
  ev_fileUrl :: string
  ev_description :: "string option"
  ev_createdAt :: time

subsection \<open>Milestones, returns and transactions\<close>

datatype milestone_status = MS_PENDING | MS_APPROVED | MS_RELEASED | MS_REJECTED | MS_DISPUTED
  | MS_CANCELLED

datatype milestone_type = MATERIALS | PRODUCTION | SHIPPING | DELIVERY | FINAL_INSPECTION | CUSTOM

datatype milestone_trigger = AUTOMATIC | MANUAL | TRACKING_UPDATE | DELIVERY_CONFIRMATION
  | ADMIN_APPROVAL

record milestone_document =
  doc_id :: string
  doc_name :: string
  doc_url :: string

record dispute_details =
  dd_reason :: string
  dd_description :: string
  dd_evidence :: "string list"
  dd_raisedBy :: string
  dd_raisedAt :: time

record milestone_row =
  ms_id :: uuid
  ms_orderId :: uuid
  ms_title :: string
  ms_description :: string
  ms_amount :: number
  ms_percentage :: number
  ms_status :: milestone_status
  ms_type :: milestone_type
  ms_trigger :: milestone_trigger
  ms_autoRelease :: bool
  ms_releaseAt :: "time option"
  ms_releasedAt :: "time option"
  ms_requiredDocuments :: "string list option"
  ms_uploadedDocuments :: "(milestone_document \<times> time) list option"
  ms_releaseConditions :: "string list option"
  ms_adminNotes :: "string option"
  ms_rejectionReason :: "string option"
  ms_disputeDetails :: "dispute_details option"
  ms_sortOrder :: number
  ms_createdAt :: time

datatype return_status = RS_PENDING | RS_APPROVED | RS_REJECTED | RS_PROCESSING | RS_COMPLETED

datatype refund_type = FULL | PARTIAL

datatype return_reason = DEFECTIVE | WRONG_ITEM | NOT_AS_DESCRIBED | NO_LONGER_NEEDED
  | CHANGED_MIND | OTHER

record return_item =
  ri_listingId :: uuid
  ri_quantity :: int

record return_row =
  rr_id :: uuid
  rr_orderId :: uuid
  rr_buyerId :: uuid
  rr_sellerId :: uuid
  rr_reason :: return_reason
  rr_reasonDescription :: "string option"
  rr_status :: return_status
  rr_refundType :: refund_type
  rr_requestedAmount :: "number option"
  rr_currency :: currency
  rr_items :: "return_item list option"
  rr_reviewedBy :: "uuid option"
  rr_reviewNotes :: "string option"
  rr_reviewedAt :: "time option"
  rr_returnWindowDays :: number
  rr_evidenceHash :: "string option"

text \<open>Transactions are those of \<open>src/src/transactions/entities/transaction.entity.ts\<close>.\<close>

datatype transaction_status = TS_PENDING | TS_COMPLETED | TS_FAILED | TS_CANCELLED

datatype transaction_type = TT_TRANSFER | TT_PAYMENT | TT_REFUND | TT_PURCHASE

record transaction_row =
  tx_id :: uuid
  tx_amount :: number
  tx_description :: string
  tx_status :: transaction_status
  tx_type :: transaction_type
  tx_senderId :: nat
  tx_receiverId :: nat
  tx_milestoneId :: uuid
  tx_orderId :: uuid

datatype points_transaction_type = EARNED | REDEEMED | EXPIRED | ADJUSTED

record reward_row =
  rw_id :: uuid
  rw_userId :: uuid
  rw_points :: int
  rw_transactionType :: points_transaction_type
  rw_description :: "string option"
  rw_referenceId :: "string option"
  rw_referenceType :: "string option"
  rw_balanceAfter :: int
  rw_createdAt :: time

subsection \<open>Events and the network\<close>

datatype event =
    OrderUpdatedEvent uuid uuid string order_status order_status
  | OrderCompletedEvent uuid uuid string number
  | InventoryLowStockEvent uuid string int "uuid option"
  | PaymentInitiatedEvent uuid uuid string number currency
  | PaymentConfirmedEvent uuid uuid uuid number currency string
  | PaymentFailedEvent uuid uuid uuid number msg
  | PaymentTimeoutEvent uuid uuid
  | PaymentStreamConfirmed uuid string
  | PaymentReleasedEvent uuid uuid string number string time bool
  | ReturnRequestedEvent uuid uuid uuid uuid
  | ReturnReviewedEvent uuid return_status uuid uuid

text \<open>\<open>notifyAdmin\<close> never throws; the model keeps what it was told.\<close>

record admin_notice =
  an_event :: string
  an_orderId :: uuid
  an_buyerId :: uuid
  an_amount :: number
  an_itemCount :: nat

record stellar_payment =
  sp_from :: string
  sp_to :: string
  sp_amount :: number

subsection \<open>The state of the backend\<close>

text \<open>\<open>attempts\<close> counts submissions to the network, accepted or not; \<open>ledger\<close> keeps the
  payments it accepted.\<close>

record db =
  orders :: "order_row list"
  products :: "product_row list"
  listings :: "listing_row list"
  variants :: "variant_row list"
  inv_history :: "inventory_entry list"
  payments :: "payment_row list"
  wallets :: "wallet_row list"
  escrows :: "escrow_row list"
  disputes :: "dispute_row list"
  evidences :: "evidence_row list"
  milestones :: "milestone_row list"
  returns :: "return_row list"
  txs :: "transaction_row list"
  rewards :: "reward_row list"
  shop :: catalog
  events :: "event list"
  notices :: "admin_notice list"
  attempts :: nat
  ledger :: "stellar_payment list"

definition empty_db :: db where
  "empty_db = \<lparr>orders = [], products = [], listings = [], variants = [], inv_history = [],
     payments = [], wallets = [], escrows = [], disputes = [], evidences = [], milestones = [],
     returns = [], txs = [], rewards = [], shop = empty_catalog, events = [], notices = [], attempts = 0,
     ledger = []\<rparr>"

text \<open>
  \<open>dataSource.transaction(work)\<close>: when the callback throws, every table is rolled back. What
  left the database is not: emitted events, notices, network payments and the in-memory
  catalogue stay.
\<close>

definition roll_back :: "db \<Rightarrow> db \<Rightarrow> db" where
  "roll_back s t = s\<lparr>shop := (shop s)\<lparr>cat_products := cat_products (shop t), cat_events := cat_events (shop t)\<rparr>,
     events := events t, notices := notices t, attempts := attempts t, ledger := ledger t\<rparr>"

definition transaction :: "(db \<Rightarrow> ('a, db) result) \<Rightarrow> db \<Rightarrow> ('a, db) result" where
  "transaction work s = (case work s of (Inl e, t) \<Rightarrow> (Inl e, roll_back s t) | (Inr x, t) \<Rightarrow> (Inr x, t))"

definition emit :: "event \<Rightarrow> db \<Rightarrow> db" where
  "emit ev s = s\<lparr>events := events s @ [ev]\<rparr>"

lemma roll_back_tables [simp]:
  "orders (roll_back s t) = orders s" "products (roll_back s t) = products s"
  "listings (roll_back s t) = listings s" "variants (roll_back s t) = variants s"
  "inv_history (roll_back s t) = inv_history s" "payments (roll_back s t) = payments s"
  "wallets (roll_back s t) = wallets s" "events (roll_back s t) = events t"
  "milestones (roll_back s t) = milestones s" "returns (roll_back s t) = returns s"
  "disputes (roll_back s t) = disputes s" "txs (roll_back s t) = txs s"
  "escrows (roll_back s t) = escrows s" "notices (roll_back s t) = notices t"
  by (simp_all add: roll_back_def)

lemma emit_simps [simp]:
  "orders (emit ev s) = orders s" "products (emit ev s) = products s"
  "listings (emit ev s) = listings s" "variants (emit ev s) = variants s"
  "inv_history (emit ev s) = inv_history s" "payments (emit ev s) = payments s"
  "wallets (emit ev s) = wallets s" "events (emit ev s) = events s @ [ev]"
  "escrows (emit ev s) = escrows s" "disputes (emit ev s) = disputes s"
  "milestones (emit ev s) = milestones s" "returns (emit ev s) = returns s"
  "ledger (emit ev s) = ledger s" "attempts (emit ev s) = attempts s"
  by (simp_all add: emit_def)

lemma transaction_Inr_iff: "transaction work s = (Inr x, t) \<longleftrightarrow> work s = (Inr x, t)"
  by (auto simp: transaction_def split: prod.splits sum.splits)

lemma transaction_Inl_iff:
  "transaction work s = (Inl e, t) \<longleftrightarrow> (\<exists>u. work s = (Inl e, u) \<and> t = roll_back s u)"
  by (auto simp: transaction_def split: prod.splits sum.splits)

text \<open>A transaction keeps what its work keeps when it completes.\<close>

lemma transaction_keeps:
  assumes "\<And>x t. work s = (Inr x, t) \<Longrightarrow> Q t" and "\<And>t. Q (roll_back s t)"
  shows "Q (snd (transaction work s))"
  using assms by (auto simp: transaction_def split: prod.splits sum.splits)

text \<open>The repositories of the tables.\<close>

interpretation order_table: repository o_id "tbl_find o_id" "tbl_save o_id" "\<lambda>t. t"
  by (rule table_repository)

interpretation product_table: repository p_id "tbl_find p_id" "tbl_save p_id" "\<lambda>t. t"
  by (rule table_repository)

interpretation listing_table: repository l_id "tbl_find l_id" "tbl_save l_id" "\<lambda>t. t"
  by (rule table_repository)

interpretation payment_table: repository pm_id "tbl_find pm_id" "tbl_save pm_id" "\<lambda>t. t"
  by (rule table_repository)

interpretation escrow_table: repository e_id "tbl_find e_id" "tbl_save e_id" "\<lambda>t. t"
  by (rule table_repository)

interpretation dispute_table: repository d_id "tbl_find d_id" "tbl_save d_id" "\<lambda>t. t"
  by (rule table_repository)

subsection \<open>Decimal columns\<close>

text \<open>
  The rows keep the number a decimal column holds. The entity the service gets back from the
  driver holds a JavaScript value for it: a number, or, as the PostgreSQL driver documents for
  \<open>numeric\<close>, its text. Comparisons and subtraction convert to numbers, so that only \<open>===\<close>
  and \<open>+\<close> can tell the two apart; those operations take the driver's function as an argument.
\<close>

datatype jsval = JNum number | JStr string

primrec js_text :: "jsval \<Rightarrow> string" where
  "js_text (JNum r) = to_string r"
| "js_text (JStr t) = t"

primrec js_value :: "jsval \<Rightarrow> number option" where
  "js_value (JNum r) = Some r"
| "js_value (JStr t) = text_value t"

fun js_add :: "jsval \<Rightarrow> jsval \<Rightarrow> jsval" where
  "js_add (JNum a) (JNum b) = JNum (a + b)"
| "js_add a b = JStr (js_text a @ js_text b)"

text \<open>What a decimal column makes of a value that is written to it: text that is not a number
  is refused, and the value is rounded half away from zero to the scale.\<close>

definition round_to :: "nat \<Rightarrow> number \<Rightarrow> number" where
  "round_to p r = sgn r * of_int \<lfloor>\<bar>r\<bar> * 10 ^ p + 1 / 2\<rfloor> / 10 ^ p"

lemma round_to_exact: "round_to p (of_int k / 10 ^ p) = of_int k / 10 ^ p"
proof -
  have "\<lfloor>\<bar>of_int k / 10 ^ p :: number\<bar> * 10 ^ p + 1 / 2\<rfloor> = \<bar>k\<bar>"
  proof -
    have "\<bar>of_int k / 10 ^ p :: number\<bar> * 10 ^ p = of_int \<bar>k\<bar>" by simp
    moreover have "\<lfloor>of_int \<bar>k\<bar> + 1 / 2 :: number\<rfloor> = \<bar>k\<bar>" by (rule floor_unique) simp_all
    ultimately show ?thesis by simp
  qed
  then show ?thesis by (auto simp: round_to_def sgn_if zero_less_divide_iff divide_less_0_iff)
qed

lemma round_to_zero [simp]: "round_to p 0 = 0"
  by (simp add: round_to_def)

lemma round_to_grid: "\<exists>k. round_to p r = of_int k / 10 ^ p"
  unfolding round_to_def by (rule exI [of _ "(if 0 < r then 1 else if r < 0 then -1 else 0) * \<lfloor>\<bar>r\<bar> * 10 ^ p + 1 / 2\<rfloor>"])
    (simp add: sgn_if)

lemma round_to_idem [simp]: "round_to p (round_to p r) = round_to p r"
  using round_to_grid [of p r] round_to_exact by auto

definition write_decimal :: "nat \<Rightarrow> jsval \<Rightarrow> error + number" where
  "write_decimal p v = (case js_value v of
       None \<Rightarrow> Inl (Error [Txt ''invalid input syntax for type numeric: '', Txt (js_text v)])
     | Some r \<Rightarrow> Inr (round_to p r))"

locale decimal_driver =
  fixes hyd :: "nat \<Rightarrow> number \<Rightarrow> jsval"
  assumes column_value: "js_value (hyd p (of_int k / 10 ^ p)) = Some (of_int k / 10 ^ p)"
begin

lemma integer_value: "js_value (hyd p (of_int k)) = Some (of_int k)"
  using column_value [of p "k * 10 ^ p"] by simp

lemma rewrite_same: "write_decimal p (hyd p (of_int k / 10 ^ p)) = Inr (of_int k / 10 ^ p)"
  by (simp add: write_decimal_def column_value round_to_exact)

text \<open>A value that compares equal to a number is that number: the text of a column never does.\<close>

lemma strict_equal_value: "hyd p (of_int k / 10 ^ p) = JNum r \<Longrightarrow> r = of_int k / 10 ^ p"
  using column_value [of p k] by simp

end

definition number_column :: "nat \<Rightarrow> number \<Rightarrow> jsval" where
  "number_column p r = JNum r"

definition pg_column :: "nat \<Rightarrow> number \<Rightarrow> jsval" where
  "pg_column p r = JStr (fixed_text p \<lfloor>r * 10 ^ p\<rfloor>)"

interpretation number_driver: decimal_driver number_column
  by unfold_locales (simp add: number_column_def)

interpretation pg_driver: decimal_driver pg_column
  by unfold_locales (simp add: pg_column_def text_value_fixed)

end
