(* ===== verification/Inventory.thy ===== *)
theory Inventory
  imports Database
begin

text \<open>
  \<open>InventoryService\<close> (src/src/inventory/inventory.service.ts): the stock of products
  (reserve, release, commit at checkout) and of listings with their variants (adjustments,
  bulk updates, reservations of an order, refunds), the inventory history and the low-stock
  event. Every operation is the work of one database transaction.
\<close>

subsection \<open>Helpers\<close>

definition log_change ::
  "uuid \<Rightarrow> uuid \<Rightarrow> int \<Rightarrow> inventory_change_type \<Rightarrow> string option \<Rightarrow> time \<Rightarrow> db \<Rightarrow> db" where
  "log_change listingId userId change ty note now s =
     s\<lparr>inv_history := inv_history s @ [\<lparr>h_listingId = listingId, h_userId = userId,
        h_change = change, h_type = ty, h_note = note, h_createdAt = now\<rparr>]\<rparr>"

definition notifyLowStock :: "listing_row \<Rightarrow> db \<Rightarrow> db" where
  "notifyLowStock listing s =
     emit (InventoryLowStockEvent (l_id listing) (l_title listing) (l_available listing) (Some (l_id listing))) s"

definition save_listing :: "listing_row \<Rightarrow> db \<Rightarrow> db" where
  "save_listing l s = s\<lparr>listings := tbl_save l_id l (listings s)\<rparr>"

definition save_product :: "product_row \<Rightarrow> db \<Rightarrow> db" where
  "save_product p s = s\<lparr>products := tbl_save p_id p (products s)\<rparr>"

subsection \<open>Adjustments\<close>

definition variants_of :: "uuid \<Rightarrow> db \<Rightarrow> variant_row list" where
  "variants_of listingId s = filter (\<lambda>v. v_listingId v = listingId) (variants s)"

text \<open>The aggregate of a listing; the listing object is changed in place, so it is returned.\<close>

definition aggregate :: "variant_row list \<Rightarrow> listing_row \<Rightarrow> listing_row" where
  "aggregate vs listing =
     (case vs of
        v0 # rest \<Rightarrow>
          listing\<lparr>l_quantity := sum_list (map v_quantity vs),
                  l_reserved := sum_list (map v_reserved vs),
                  l_available := sum_list (map v_available vs),
                  l_price := foldl min (v_price v0) (map v_price rest),
                  l_currency := v_currency v0\<rparr>
      | [] \<Rightarrow> listing\<lparr>l_available := l_quantity listing - l_reserved listing\<rparr>)"

definition syncListingAggregate :: "listing_row \<Rightarrow> db \<Rightarrow> listing_row \<times> db" where
  "syncListingAggregate listing s =
     (let listing = aggregate (variants_of (l_id listing) s) listing in (listing, save_listing listing s))"

definition adjustVariantInventory ::
  "uuid \<Rightarrow> uuid \<Rightarrow> int \<Rightarrow> inventory_change_type \<Rightarrow> string option \<Rightarrow> time \<Rightarrow> db \<Rightarrow> (variant_row, db) result" where
  "adjustVariantInventory variantId userId change ty note now =
     transaction (\<lambda>s.
       case tbl_find v_id variantId (variants s) of
         None \<Rightarrow> (Inl (NotFoundException [Txt ''Variant not found'']), s)
       | Some variant \<Rightarrow>
         let variant = variant\<lparr>v_quantity := v_quantity variant + change\<rparr>;
             variant = variant\<lparr>v_available := v_quantity variant - v_reserved variant\<rparr>
         in if v_available variant < 0
            then (Inl (BadRequestException [Txt ''Insufficient inventory for variant'']), s)
            else
              let s1 = s\<lparr>variants := tbl_save v_id variant (variants s)\<rparr>;
                  found = tbl_find l_id (v_listingId variant) (listings s1);
                  (listing, s2) = (case found of
                      None \<Rightarrow> (None, s1)
                    | Some l \<Rightarrow> (let (l', s') = syncListingAggregate l s1 in (Some l', s')));
                  s3 = log_change (v_listingId variant) userId change ty note now s2;
                  s4 = (case listing of
                      Some l \<Rightarrow> if v_available variant \<le> 5 then notifyLowStock l s3 else s3
                    | None \<Rightarrow> s3)
              in (Inr variant, s4))"

definition adjustInventory ::
  "uuid \<Rightarrow> uuid \<Rightarrow> int \<Rightarrow> inventory_change_type \<Rightarrow> string option \<Rightarrow> time \<Rightarrow> db \<Rightarrow> (listing_row, db) result" where
  "adjustInventory listingId userId change ty note now =
     transaction (\<lambda>s.
       case tbl_find l_id listingId (listings s) of
         None \<Rightarrow> (Inl (NotFoundException [Txt ''Listing '', Txt listingId, Txt '' not found'']), s)
       | Some listing \<Rightarrow>
         let listing = listing\<lparr>l_quantity := l_quantity listing + change\<rparr>;
             listing = listing\<lparr>l_available := l_quantity listing - l_reserved listing\<rparr>;
             s1 = log_change listingId userId change ty note now (save_listing listing s);
             s2 = (if l_available listing \<le> 5 then notifyLowStock listing s1 else s1)
         in (Inr listing, s2))"

record bulk_update =
  bu_listingId :: uuid
  bu_userId :: uuid
  bu_change :: int
  bu_note :: "string option"

fun bulk_loop :: "time \<Rightarrow> bulk_update list \<Rightarrow> listing_row list \<Rightarrow> db \<Rightarrow> (listing_row list, db) result" where
  "bulk_loop now [] results s = (Inr results, s)"
| "bulk_loop now (u # us) results s =
     (case tbl_find l_id (bu_listingId u) (listings s) of
        None \<Rightarrow> bulk_loop now us results s
      | Some listing \<Rightarrow>
        let listing = listing\<lparr>l_quantity := l_quantity listing + bu_change u\<rparr>;
            listing = listing\<lparr>l_available := l_quantity listing - l_reserved listing\<rparr>;
            s1 = log_change (bu_listingId u) (bu_userId u) (bu_change u) BULK_UPDATE (bu_note u) now
                   (save_listing listing s)
        in bulk_loop now us (results @ [listing]) s1)"

definition bulkUpdateInventory ::
  "bulk_update list \<Rightarrow> time \<Rightarrow> db \<Rightarrow> (listing_row list, db) result" where
  "bulkUpdateInventory updates now = transaction (bulk_loop now updates [])"

subsection \<open>Listings of an order\<close>

definition listing_missing :: "uuid \<Rightarrow> error" where
  "listing_missing lid = NotFoundException [Txt ''Listing '', Txt lid, Txt '' not found'']"

definition reserve_item :: "order_row \<Rightarrow> time \<Rightarrow> order_item \<Rightarrow> db \<Rightarrow> (unit, db) result" where
  "reserve_item order now item s =
     (case tbl_find l_id (it_productId item) (listings s) of
        None \<Rightarrow> (Inl (listing_missing (it_productId item)), s)
      | Some listing \<Rightarrow>
        if l_available listing < it_quantity item
        then (Inl (BadRequestException [Txt ''Not enough inventory for '', Txt (it_productName item),
               Txt ''. Available: '', Num (of_int (l_available listing)), Txt '', Requested: '',
               Num (of_int (it_quantity item))]), s)
        else
          let listing = listing\<lparr>l_reserved := l_reserved listing + it_quantity item\<rparr>;
              listing = listing\<lparr>l_available := l_quantity listing - l_reserved listing\<rparr>
          in (Inr (), log_change (it_productId item) (o_buyerId order) (it_quantity item) RESERVATION
                (Some (''Reserved for order '' @ o_id order)) now (save_listing listing s)))"

definition reserveForOrder :: "order_row \<Rightarrow> time \<Rightarrow> db \<Rightarrow> (unit, db) result" where
  "reserveForOrder order now = transaction (for_each (reserve_item order now) (o_items order))"

definition confirm_item :: "order_row \<Rightarrow> time \<Rightarrow> order_item \<Rightarrow> db \<Rightarrow> (unit, db) result" where
  "confirm_item order now item s =
     (case tbl_find l_id (it_productId item) (listings s) of
        None \<Rightarrow> (Inl (listing_missing (it_productId item)), s)
      | Some listing \<Rightarrow>
        let listing = listing\<lparr>l_quantity := l_quantity listing - it_quantity item\<rparr>;
            listing = listing\<lparr>l_reserved := l_reserved listing - it_quantity item\<rparr>;
            listing = (if l_reserved listing < 0 then listing\<lparr>l_reserved := 0\<rparr> else listing);
            listing = listing\<lparr>l_available := l_quantity listing - l_reserved listing\<rparr>;
            s1 = log_change (it_productId item) (o_buyerId order) (- it_quantity item) PURCHASE
                   (Some (''Order '' @ o_id order @ '' confirmed'')) now (save_listing listing s);
            s2 = (if l_available listing \<le> 5 then notifyLowStock listing s1 else s1)
        in (Inr (), s2))"

definition confirmOrder :: "order_row \<Rightarrow> time \<Rightarrow> db \<Rightarrow> (unit, db) result" where
  "confirmOrder order now = transaction (for_each (confirm_item order now) (o_items order))"

definition cancel_item :: "order_row \<Rightarrow> time \<Rightarrow> order_item \<Rightarrow> db \<Rightarrow> (unit, db) result" where
  "cancel_item order now item s =
     (case tbl_find l_id (it_productId item) (listings s) of
        None \<Rightarrow> (Inl (listing_missing (it_productId item)), s)
      | Some listing \<Rightarrow>
        let listing = listing\<lparr>l_reserved := l_reserved listing - it_quantity item\<rparr>;
            listing = (if l_reserved listing < 0 then listing\<lparr>l_reserved := 0\<rparr> else listing);
            listing = listing\<lparr>l_available := l_quantity listing - l_reserved listing\<rparr>
        in (Inr (), log_change (it_productId item) (o_buyerId order) (it_quantity item) CANCELLATION
              (Some (''Order '' @ o_id order @ '' cancelled'')) now (save_listing listing s)))"

definition cancelOrder_inventory :: "order_row \<Rightarrow> time \<Rightarrow> db \<Rightarrow> (unit, db) result" where
  "cancelOrder_inventory order now = transaction (for_each (cancel_item order now) (o_items order))"

definition refund_item :: "order_row \<Rightarrow> time \<Rightarrow> order_item \<Rightarrow> db \<Rightarrow> (unit, db) result" where
  "refund_item order now item s =
     (case tbl_find l_id (it_productId item) (listings s) of
        None \<Rightarrow> (Inl (listing_missing (it_productId item)), s)
      | Some listing \<Rightarrow>
        let listing = listing\<lparr>l_quantity := l_quantity listing + it_quantity item\<rparr>;
            listing = listing\<lparr>l_available := l_quantity listing - l_reserved listing\<rparr>;
            s1 = log_change (it_productId item) (o_buyerId order) (it_quantity item) REFUND
                   (Some (''Order '' @ o_id order @ '' refunded'')) now (save_listing listing s);
            s2 = (if l_available listing \<le> 5 then notifyLowStock listing s1 else s1)
        in (Inr (), s2))"

definition restoreInventoryFromRefund :: "order_row \<Rightarrow> time \<Rightarrow> db \<Rightarrow> (unit, db) result" where
  "restoreInventoryFromRefund order now = transaction (for_each (refund_item order now) (o_items order))"

definition getInventoryHistory :: "uuid \<Rightarrow> db \<Rightarrow> inventory_entry list" where
  "getInventoryHistory listingId s =
     rev (sort_key h_createdAt (filter (\<lambda>h. h_listingId h = listingId) (inv_history s)))"

definition getInventory :: "uuid \<Rightarrow> db \<Rightarrow> error + int \<times> int \<times> int" where
  "getInventory listingId s =
     (case tbl_find l_id listingId (listings s) of
        None \<Rightarrow> Inl (NotFoundException [Txt ''Listing not found''])
      | Some listing \<Rightarrow> Inr (l_quantity listing, l_reserved listing, l_available listing))"

subsection \<open>Products at checkout\<close>

definition product_missing :: error where
  "product_missing = NotFoundException [Txt ''Product not found'']"

definition reserve_work :: "uuid \<Rightarrow> uuid \<Rightarrow> int \<Rightarrow> time \<Rightarrow> db \<Rightarrow> (product_row, db) result" where
  "reserve_work productId userId amount now s =
     (case tbl_find p_id productId (products s) of
        None \<Rightarrow> (Inl product_missing, s)
      | Some product \<Rightarrow>
        if p_available product < amount
        then (Inl (BadRequestException [Txt ''Insufficient stock for product: '', Txt (p_title product)]), s)
        else
          let product = product\<lparr>p_reserved := p_reserved product + amount\<rparr>;
              product = product\<lparr>p_available := p_quantity product - p_reserved product\<rparr>;
              s1 = log_change productId userId amount RESERVATION (Some ''Reserved for checkout'') now
                     (save_product product s);
              s2 = (if p_available product \<le> 5
                    then emit (InventoryLowStockEvent (p_id product) (p_title product) (p_available product) None) s1
                    else s1)
          in (Inr product, s2))"

definition release_work :: "uuid \<Rightarrow> uuid \<Rightarrow> int \<Rightarrow> time \<Rightarrow> db \<Rightarrow> (product_row, db) result" where
  "release_work productId userId amount now s =
     (case tbl_find p_id productId (products s) of
        None \<Rightarrow> (Inl product_missing, s)
      | Some product \<Rightarrow>
        let product = product\<lparr>p_reserved := p_reserved product - amount\<rparr>;
            product = (if p_reserved product < 0 then product\<lparr>p_reserved := 0\<rparr> else product);
            product = product\<lparr>p_available := p_quantity product - p_reserved product\<rparr>
        in (Inr product, log_change productId userId (- amount) RELEASE
              (Some ''Reservation released (order cancelled/expired)'') now (save_product product s)))"

definition commit_work :: "uuid \<Rightarrow> uuid \<Rightarrow> int \<Rightarrow> time \<Rightarrow> db \<Rightarrow> (product_row, db) result" where
  "commit_work productId userId amount now s =
     (case tbl_find p_id productId (products s) of
        None \<Rightarrow> (Inl product_missing, s)
      | Some product \<Rightarrow>
        let product = product\<lparr>p_quantity := p_quantity product - amount\<rparr>;
            product = product\<lparr>p_reserved := p_reserved product - amount\<rparr>;
            product = (if p_reserved product < 0 then product\<lparr>p_reserved := 0\<rparr> else product);
            product = product\<lparr>p_available := p_quantity product - p_reserved product\<rparr>
        in (Inr product, log_change productId userId (- amount) PURCHASE None now (save_product product s)))"

text \<open>\<open>manager ? work(manager) : dataSource.transaction(work)\<close>: the flag says whether the caller
  passed its transaction's manager.\<close>

definition reserveInventory :: "uuid \<Rightarrow> uuid \<Rightarrow> int \<Rightarrow> bool \<Rightarrow> time \<Rightarrow> db \<Rightarrow> (product_row, db) result" where
  "reserveInventory productId userId amount manager now =
     (if manager then reserve_work productId userId amount now
      else transaction (reserve_work productId userId amount now))"

definition releaseInventory :: "uuid \<Rightarrow> uuid \<Rightarrow> int \<Rightarrow> bool \<Rightarrow> time \<Rightarrow> db \<Rightarrow> (product_row, db) result" where
  "releaseInventory productId userId amount manager now =
     (if manager then release_work productId userId amount now
      else transaction (release_work productId userId amount now))"

definition commitSale :: "uuid \<Rightarrow> uuid \<Rightarrow> int \<Rightarrow> bool \<Rightarrow> time \<Rightarrow> db \<Rightarrow> (product_row, db) result" where
  "commitSale productId userId amount manager now =
     (if manager then commit_work productId userId amount now
      else transaction (commit_work productId userId amount now))"

subsection \<open>The reservation contract\<close>

text \<open>
  What an order needs from a stock keeper: three figures per item (quantity, reserved,
  available) and the three moves on them. Both stocks of the service, products and listings,
  are shown to implement it below.
\<close>

datatype figures = Fig int int int

datatype stock_move = Reserve uuid int | Release uuid int | Commit uuid int

fun after_reserve :: "int \<Rightarrow> figures \<Rightarrow> figures" where
  "after_reserve n (Fig q r a) = Fig q (r + n) (q - (r + n))"

fun after_release :: "int \<Rightarrow> figures \<Rightarrow> figures" where
  "after_release n (Fig q r a) = Fig q (max 0 (r - n)) (q - max 0 (r - n))"

fun after_commit :: "int \<Rightarrow> figures \<Rightarrow> figures" where
  "after_commit n (Fig q r a) = Fig (q - n) (max 0 (r - n)) (q - n - max 0 (r - n))"

fun balanced :: "figures \<Rightarrow> bool" where
  "balanced (Fig q r a) \<longleftrightarrow> a = q - r \<and> 0 \<le> r \<and> 0 \<le> a"

definition all_balanced :: "(uuid \<Rightarrow> figures option) \<Rightarrow> bool" where
  "all_balanced st \<longleftrightarrow> (\<forall>p f. st p = Some f \<longrightarrow> balanced f)"

lemma balanced_reserve: "balanced (Fig q r a) \<Longrightarrow> n \<le> a \<Longrightarrow> 0 \<le> n \<Longrightarrow> balanced (after_reserve n (Fig q r a))"
  by simp

lemma balanced_release: "balanced f \<Longrightarrow> 0 \<le> n \<Longrightarrow> balanced (after_release n f)"
  by (cases f) (simp add: max_def)

lemma balanced_commit: "balanced (Fig q r a) \<Longrightarrow> 0 \<le> n \<Longrightarrow> n \<le> r \<Longrightarrow> balanced (after_commit n (Fig q r a))"
  by (simp add: max_def)

lemma reserve_release_figures: "balanced f \<Longrightarrow> after_release n (after_reserve n f) = f"
  by (cases f) (simp add: max_def)


lemma reserve_commit_figures:
  "balanced (Fig q r a) \<Longrightarrow> after_commit n (after_reserve n (Fig q r a)) = Fig (q - n) r (a - n)"
  by (simp add: max_def)

lemma balanced_update:
  assumes "all_balanced st" and "\<And>g. st p = Some g \<Longrightarrow> balanced g \<Longrightarrow> balanced (h g)"
  shows "all_balanced (st(p := map_option h (st p)))"
  unfolding all_balanced_def
proof (intro allI impI)
  fix k f assume f: "(st(p := map_option h (st p))) k = Some f"
  show "balanced f"
  proof (cases "k = p")
    case True
    with f obtain g where g: "st p = Some g" "f = h g" by auto
    with assms(1) have "balanced g" unfolding all_balanced_def by blast
    with assms(2) g show ?thesis by blast
  next
    case False
    with f have "st k = Some f" by simp
    with assms(1) show ?thesis unfolding all_balanced_def by blast
  qed
qed

text \<open>Figures whose available amount is the difference; several moves of one kind on such
  figures are one move of the sum.\<close>

fun settled :: "figures \<Rightarrow> bool" where
  "settled (Fig q r a) \<longleftrightarrow> a = q - r \<and> 0 \<le> r"

lemma reserve_release_settled: "settled f \<Longrightarrow> after_release n (after_reserve n f) = f"
  by (cases f) (simp add: max_def)

definition all_settled :: "(uuid \<Rightarrow> figures option) \<Rightarrow> bool" where
  "all_settled st \<longleftrightarrow> (\<forall>p f. st p = Some f \<longrightarrow> settled f)"

lemma balanced_is_settled: "balanced f \<Longrightarrow> settled f"
  by (cases f) simp

lemma balanced_settled: "all_balanced st \<Longrightarrow> all_settled st"
  unfolding all_balanced_def all_settled_def using balanced_is_settled by blast

definition additive :: "(int \<Rightarrow> figures \<Rightarrow> figures) \<Rightarrow> bool" where
  "additive h \<longleftrightarrow> (\<forall>f. settled f \<longrightarrow> h 0 f = f) \<and> (\<forall>n f. 0 \<le> n \<longrightarrow> settled f \<longrightarrow> settled (h n f)) \<and>
     (\<forall>m n f. 0 \<le> m \<longrightarrow> 0 \<le> n \<longrightarrow> settled f \<longrightarrow> h n (h m f) = h (m + n) f)"

lemma additive_moves: "additive after_reserve" "additive after_release" "additive after_commit"
  by (auto simp: additive_def max_def elim!: settled.elims)

lemma additiveD:
  assumes "additive h" and "settled f"
  shows "h 0 f = f" and "0 \<le> n \<Longrightarrow> settled (h n f)" and "0 \<le> m \<Longrightarrow> 0 \<le> n \<Longrightarrow> h n (h m f) = h (m + n) f"
  using assms by (auto simp: additive_def)

definition ordered :: "uuid \<Rightarrow> (uuid \<times> int) list \<Rightarrow> int" where
  "ordered p xs = sum_list (map snd (filter (\<lambda>i. fst i = p) xs))"

lemma ordered_simps [simp]:
  "ordered p [] = 0"
  "ordered p ((k, n) # xs) = (if k = p then n else 0) + ordered p xs"
  by (simp_all add: ordered_def)

lemma ordered_nonneg: "\<forall>i \<in> set xs. 0 \<le> snd i \<Longrightarrow> 0 \<le> ordered p xs"
  by (induction xs) auto

fun move_all :: "(stock_move \<Rightarrow> 's \<Rightarrow> 's option) \<Rightarrow> stock_move list \<Rightarrow> 's \<Rightarrow> 's option" where
  "move_all move [] s = Some s"
| "move_all move (m # ms) s = (case move m s of None \<Rightarrow> None | Some t \<Rightarrow> move_all move ms t)"

lemma all_settled_update:
  assumes "all_settled st" and "\<And>f. settled f \<Longrightarrow> settled (h f)"
  shows "all_settled (st(p := map_option h (st p)))"
  using assms by (auto simp: all_settled_def)

text \<open>The code's callers only commit what they reserved before.\<close>

fun proper :: "('s \<Rightarrow> uuid \<Rightarrow> figures option) \<Rightarrow> stock_move \<Rightarrow> 's \<Rightarrow> bool" where
  "proper stock (Reserve p n) s \<longleftrightarrow> 0 \<le> n"
| "proper stock (Release p n) s \<longleftrightarrow> 0 \<le> n"
| "proper stock (Commit p n) s \<longleftrightarrow> 0 \<le> n \<and> (\<forall>q r a. stock s p = Some (Fig q r a) \<longrightarrow> n \<le> r)"

fun run_moves :: "(stock_move \<Rightarrow> 's \<Rightarrow> 's option) \<Rightarrow> stock_move list \<Rightarrow> 's \<Rightarrow> 's" where
  "run_moves move [] s = s"
| "run_moves move (m # ms) s = (case move m s of None \<Rightarrow> run_moves move ms s | Some t \<Rightarrow> run_moves move ms t)"

fun all_proper ::
  "('s \<Rightarrow> uuid \<Rightarrow> figures option) \<Rightarrow> (stock_move \<Rightarrow> 's \<Rightarrow> 's option) \<Rightarrow> stock_move list \<Rightarrow> 's \<Rightarrow> bool" where
  "all_proper stock move [] s \<longleftrightarrow> True"
| "all_proper stock move (m # ms) s \<longleftrightarrow> proper stock m s \<and>
     (case move m s of None \<Rightarrow> all_proper stock move ms s | Some t \<Rightarrow> all_proper stock move ms t)"

locale reservation =
  fixes stock :: "'s \<Rightarrow> uuid \<Rightarrow> figures option"
    and move :: "stock_move \<Rightarrow> 's \<Rightarrow> 's option"
  assumes reserve_succeeds: "move (Reserve p n) s \<noteq> None \<longleftrightarrow> (\<exists>q r a. stock s p = Some (Fig q r a) \<and> n \<le> a)"
    and release_succeeds: "move (Release p n) s \<noteq> None \<longleftrightarrow> stock s p \<noteq> None"
    and commit_succeeds: "move (Commit p n) s \<noteq> None \<longleftrightarrow> stock s p \<noteq> None"
    and reserve_effect: "move (Reserve p n) s = Some t \<Longrightarrow>
      stock t = (stock s)(p := map_option (after_reserve n) (stock s p))"
    and release_effect: "move (Release p n) s = Some t \<Longrightarrow>
      stock t = (stock s)(p := map_option (after_release n) (stock s p))"
    and commit_effect: "move (Commit p n) s = Some t \<Longrightarrow>
      stock t = (stock s)(p := map_option (after_commit n) (stock s p))"
begin

lemma move_keeps_balance:
  assumes "all_balanced (stock s)" and "proper stock m s" and "move m s = Some t"
  shows "all_balanced (stock t)"
proof (cases m)
  case (Reserve p n)
  have t: "stock t = (stock s)(p := map_option (after_reserve n) (stock s p))"
    using assms(3) reserve_effect Reserve by blast
  from assms(3) Reserve reserve_succeeds [of p n s] obtain q r a where "stock s p = Some (Fig q r a)" "n \<le> a"
    by blast
  with assms(1,2) Reserve show ?thesis
    unfolding t by (intro balanced_update) (simp_all only: balanced_reserve proper.simps option.inject)
next
  case (Release p n)
  have t: "stock t = (stock s)(p := map_option (after_release n) (stock s p))"
    using assms(3) release_effect Release by blast
  from assms(1,2) Release show ?thesis
    unfolding t by (intro balanced_update) (simp_all only: balanced_release proper.simps)
next
  case (Commit p n)
  have t: "stock t = (stock s)(p := map_option (after_commit n) (stock s p))"
    using assms(3) commit_effect Commit by blast
  have "balanced (after_commit n g)" if "stock s p = Some g" "balanced g" for g
    using that assms(2) Commit by (cases g) (simp add: balanced_commit del: balanced.simps after_commit.simps)
  with assms(1) show ?thesis unfolding t by (intro balanced_update)
qed

lemma moves_keep_balance:
  assumes "all_balanced (stock s)" and "all_proper stock move ms s"
  shows "all_balanced (stock (run_moves move ms s))"
  using assms
proof (induction ms arbitrary: s)
  case (Cons m ms)
  show ?case
  proof (cases "move m s")
    case (Some t)
    with Cons.prems have "all_balanced (stock t)" by (intro move_keeps_balance [of s m t]) simp_all
    with Cons.IH [of t] Cons.prems Some show ?thesis by simp
  qed (use Cons in simp)
qed simp

lemma reserve_then_release:
  assumes "stock s p = Some f" and "balanced f" and "0 \<le> n"
    and "move (Reserve p n) s = Some t" and "move (Release p n) t = Some u"
  shows "stock u = stock s"
proof -
  have "stock u = (stock s)(p := Some (after_release n (after_reserve n f)))"
    using reserve_effect [OF assms(4)] release_effect [OF assms(5)] assms(1) by simp
  then show ?thesis using assms(1) by (simp add: reserve_release_figures [OF assms(2)] fun_upd_idem)
qed

lemma reserve_then_commit:
  assumes "stock s p = Some (Fig q r a)" and "balanced (Fig q r a)" and "0 \<le> n"
    and "move (Reserve p n) s = Some t" and "move (Commit p n) t = Some u"
  shows "stock u = (stock s)(p := Some (Fig (q - n) r (a - n)))"
proof -
  have "stock u = (stock s)(p := Some (after_commit n (after_reserve n (Fig q r a))))"
    using reserve_effect [OF assms(4)] commit_effect [OF assms(5)] assms(1) by simp
  then show ?thesis by (simp only: reserve_commit_figures [OF assms(2)])
qed

lemma loop_effect:
  assumes eff: "\<And>p n s t. move (K p n) s = Some t \<Longrightarrow> stock t = (stock s)(p := map_option (h n) (stock s p))"
    and h: "additive h"
    and "move_all move (map (\<lambda>i. K (fst i) (snd i)) xs) s = Some t"
    and "all_settled (stock s)" and "\<forall>i \<in> set xs. 0 \<le> snd i"
  shows "stock t = (\<lambda>p. map_option (h (ordered p xs)) (stock s p))"
  using assms(3-5)
proof (induction xs arbitrary: s)
  case Nil
  have "map_option (h 0) (stock s p) = stock s p" for p
    using additiveD(1) [OF h] Nil.prems(2) by (cases "stock s p") (auto simp: all_settled_def)
  with Nil show ?case by simp
next
  case (Cons i xs)
  obtain p n where i: "i = (p, n)" by (cases i)
  with Cons.prems(1) obtain u where u: "move (K p n) s = Some u"
    and rest: "move_all move (map (\<lambda>i. K (fst i) (snd i)) xs) u = Some t"
    by (auto split: option.splits)
  have n: "0 \<le> n" "\<forall>i \<in> set xs. 0 \<le> snd i" using Cons.prems(3) i by auto
  have "all_settled (stock u)"
    unfolding eff [OF u] using h n(1) Cons.prems(2)
    by (intro all_settled_update) (simp_all add: additive_def)
  with Cons.IH [OF rest] n have t: "stock t = (\<lambda>p. map_option (h (ordered p xs)) (stock u p))" by blast
  have "map_option (h (ordered k xs)) (map_option (h m) (stock s k)) = map_option (h (m + ordered k xs)) (stock s k)"
    if "0 \<le> m" for k m
    using additiveD(3) [OF h _ that ordered_nonneg [OF n(2), of k]] Cons.prems(2)
    by (cases "stock s k") (auto simp: all_settled_def)
  with n(1) show ?case by (auto simp: fun_eq_iff t eff [OF u] i)
qed

lemma loop_completes_iff:
  assumes "\<And>p n s. move (K p n) s \<noteq> None \<longleftrightarrow> stock s p \<noteq> None"
    and "\<And>p n s t. move (K p n) s = Some t \<Longrightarrow> stock t = (stock s)(p := map_option (h n) (stock s p))"
  shows "(\<exists>t. move_all move (map (\<lambda>i. K (fst i) (snd i)) xs) s = Some t) \<longleftrightarrow>
    (\<forall>i \<in> set xs. stock s (fst i) \<noteq> None)"
proof (induction xs arbitrary: s)
  case (Cons i xs)
  show ?case
  proof (cases "move (K (fst i) (snd i)) s")
    case None
    then show ?thesis using assms(1) [of "fst i" "snd i" s] by simp
  next
    case (Some u)
    then have "stock s (fst i) \<noteq> None" using assms(1) [of "fst i" "snd i" s] by simp
    moreover have "stock u k \<noteq> None \<longleftrightarrow> stock s k \<noteq> None" for k
      by (simp add: assms(2) [OF Some])
    ultimately show ?thesis using Cons Some by simp
  qed
qed simp

lemma release_completes_iff:
  "(\<exists>t. move_all move (map (\<lambda>i. Release (fst i) (snd i)) xs) s = Some t) \<longleftrightarrow>
   (\<forall>i \<in> set xs. stock s (fst i) \<noteq> None)"
  by (rule loop_completes_iff [where K = Release and h = after_release])
    (use release_succeeds release_effect in auto)

lemma commit_completes_iff:
  "(\<exists>t. move_all move (map (\<lambda>i. Commit (fst i) (snd i)) xs) s = Some t) \<longleftrightarrow>
   (\<forall>i \<in> set xs. stock s (fst i) \<noteq> None)"
  by (rule loop_completes_iff [where K = Commit and h = after_commit])
    (use commit_succeeds commit_effect in auto)

lemma reserved_present:
  assumes "move_all move (map (\<lambda>i. Reserve (fst i) (snd i)) xs) s = Some t"
  shows "\<forall>i \<in> set xs. stock s (fst i) \<noteq> None"
  using assms
proof (induction xs arbitrary: s)
  case (Cons i xs)
  then obtain u where u: "move (Reserve (fst i) (snd i)) s = Some u"
    and rest: "move_all move (map (\<lambda>i. Reserve (fst i) (snd i)) xs) u = Some t"
    by (auto split: option.splits)
  have "stock s (fst i) \<noteq> None" using u reserve_succeeds [of "fst i" "snd i" s] by auto
  moreover have "\<forall>j \<in> set xs. stock s (fst j) \<noteq> None"
    using Cons.IH [OF rest] unfolding reserve_effect [OF u] by (auto split: if_splits)
  ultimately show ?case by simp
qed simp

lemma reserve_all:
  assumes "all_settled (stock s)" and "\<forall>i \<in> set xs. 0 \<le> snd i"
    and "move_all move (map (\<lambda>i. Reserve (fst i) (snd i)) xs) s = Some t"
  shows "stock t = (\<lambda>p. map_option (after_reserve (ordered p xs)) (stock s p))"
    and "all_settled (stock t)" and "\<forall>i \<in> set xs. stock t (fst i) \<noteq> None"
proof -
  show t: "stock t = (\<lambda>p. map_option (after_reserve (ordered p xs)) (stock s p))"
    by (rule loop_effect [where K = Reserve]) (use assms in \<open>auto dest: reserve_effect intro: additive_moves\<close>)
  show "all_settled (stock t)"
    using assms(1) ordered_nonneg [OF assms(2)] additiveD(2) [OF additive_moves(1)]
    by (auto simp: t all_settled_def)
  show "\<forall>i \<in> set xs. stock t (fst i) \<noteq> None"
    using reserved_present [OF assms(3)] by (simp add: t)
qed

lemma release_all:
  assumes "all_settled (stock t)" and "\<forall>i \<in> set xs. 0 \<le> snd i" and "\<forall>i \<in> set xs. stock t (fst i) \<noteq> None"
  shows "\<exists>u. move_all move (map (\<lambda>i. Release (fst i) (snd i)) xs) t = Some u \<and>
    stock u = (\<lambda>p. map_option (after_release (ordered p xs)) (stock t p))"
proof -
  from assms(3) obtain u where u: "move_all move (map (\<lambda>i. Release (fst i) (snd i)) xs) t = Some u"
    using release_completes_iff by blast
  have "stock u = (\<lambda>p. map_option (after_release (ordered p xs)) (stock t p))"
    by (rule loop_effect [where K = Release])
      (use u assms in \<open>auto dest: release_effect intro: additive_moves\<close>)
  with u show ?thesis by blast
qed

lemma commit_all:
  assumes "all_settled (stock t)" and "\<forall>i \<in> set xs. 0 \<le> snd i" and "\<forall>i \<in> set xs. stock t (fst i) \<noteq> None"
  shows "\<exists>w. move_all move (map (\<lambda>i. Commit (fst i) (snd i)) xs) t = Some w \<and>
    stock w = (\<lambda>p. map_option (after_commit (ordered p xs)) (stock t p))"
proof -
  from assms(3) obtain w where w: "move_all move (map (\<lambda>i. Commit (fst i) (snd i)) xs) t = Some w"
    using commit_completes_iff by blast
  have "stock w = (\<lambda>p. map_option (after_commit (ordered p xs)) (stock t p))"
    by (rule loop_effect [where K = Commit])
      (use w assms in \<open>auto dest: commit_effect intro: additive_moves\<close>)
  with w show ?thesis by blast
qed

lemma refused_beyond_available:
  assumes "stock s p = Some (Fig q r a)" and "a < n"
  shows "move (Reserve p n) s = None"
  using reserve_succeeds [of p n s] assms by auto

end

subsection \<open>Products implement it\<close>

definition completed :: "('a, 's) result \<Rightarrow> 's option" where
  "completed r = (case fst r of Inl _ \<Rightarrow> None | Inr _ \<Rightarrow> Some (snd r))"

lemma completed_simps [simp]: "completed (Inl e, s) = None" "completed (Inr x, s) = Some s"
  by (simp_all add: completed_def)

lemma completed_transaction [simp]: "completed (transaction w s) = completed (w s)"
  by (auto simp: completed_def transaction_def split: prod.splits sum.splits)

lemma completed_Some_iff: "completed r = Some t \<longleftrightarrow> (\<exists>x. r = (Inr x, t))"
  by (cases r) (auto simp: completed_def split: sum.splits)

definition product_figures :: "product_row \<Rightarrow> figures" where
  "product_figures p = Fig (p_quantity p) (p_reserved p) (p_available p)"

definition product_stock :: "db \<Rightarrow> uuid \<Rightarrow> figures option" where
  "product_stock s p = map_option product_figures (tbl_find p_id p (products s))"

fun checkout_move :: "uuid \<Rightarrow> time \<Rightarrow> stock_move \<Rightarrow> db \<Rightarrow> db option" where
  "checkout_move user now (Reserve p n) s = completed (reserveInventory p user n False now s)"
| "checkout_move user now (Release p n) s = completed (releaseInventory p user n False now s)"
| "checkout_move user now (Commit p n) s = completed (commitSale p user n False now s)"

lemma log_change_simps [simp]:
  "products (log_change l u c ty n now s) = products s" "listings (log_change l u c ty n now s) = listings s"
  "orders (log_change l u c ty n now s) = orders s" "events (log_change l u c ty n now s) = events s"
  "variants (log_change l u c ty n now s) = variants s"
  "inv_history (log_change l u c ty n now s) = inv_history s @ [\<lparr>h_listingId = l, h_userId = u,
     h_change = c, h_type = ty, h_note = n, h_createdAt = now\<rparr>]"
  by (simp_all add: log_change_def)

lemma save_row_simps [simp]:
  "products (save_product p s) = tbl_save p_id p (products s)" "listings (save_product p s) = listings s"
  "orders (save_product p s) = orders s" "inv_history (save_product p s) = inv_history s"
  "products (save_listing l s) = products s" "listings (save_listing l s) = tbl_save l_id l (listings s)"
  "orders (save_listing l s) = orders s" "inv_history (save_listing l s) = inv_history s"
  "variants (save_listing l s) = variants s" "events (save_listing l s) = events s"
  "events (save_product p s) = events s"
  by (simp_all add: save_product_def save_listing_def)

lemma notify_simps [simp]:
  "products (notifyLowStock l s) = products s" "listings (notifyLowStock l s) = listings s"
  "orders (notifyLowStock l s) = orders s" "inv_history (notifyLowStock l s) = inv_history s"
  "variants (notifyLowStock l s) = variants s"
  by (simp_all add: notifyLowStock_def)

interpretation checkout: reservation product_stock "checkout_move user now"
proof
  fix p n s t
  show "checkout_move user now (Reserve p n) s \<noteq> None \<longleftrightarrow>
      (\<exists>q r a. product_stock s p = Some (Fig q r a) \<and> n \<le> a)"
    by (auto simp: reserveInventory_def reserve_work_def product_stock_def
        product_figures_def Let_def split: option.splits)
  show "checkout_move user now (Release p n) s \<noteq> None \<longleftrightarrow> product_stock s p \<noteq> None"
    by (auto simp: releaseInventory_def release_work_def product_stock_def Let_def
        split: option.splits)
  show "checkout_move user now (Commit p n) s \<noteq> None \<longleftrightarrow> product_stock s p \<noteq> None"
    by (auto simp: commitSale_def commit_work_def product_stock_def Let_def
        split: option.splits)
  show "product_stock t = (product_stock s)(p := map_option (after_reserve n) (product_stock s p))"
    if "checkout_move user now (Reserve p n) s = Some t"
    using that
    by (auto simp: fun_eq_iff reserveInventory_def reserve_work_def product_stock_def
        product_figures_def Let_def dest: tbl_find_key split: option.splits if_splits)
  show "product_stock t = (product_stock s)(p := map_option (after_release n) (product_stock s p))"
    if "checkout_move user now (Release p n) s = Some t"
    using that
    by (auto simp: fun_eq_iff releaseInventory_def release_work_def product_stock_def
        product_figures_def Let_def max_def dest: tbl_find_key split: option.splits if_splits)
  show "product_stock t = (product_stock s)(p := map_option (after_commit n) (product_stock s p))"
    if "checkout_move user now (Commit p n) s = Some t"
    using that
    by (auto simp: fun_eq_iff commitSale_def commit_work_def product_stock_def
        product_figures_def Let_def max_def dest: tbl_find_key split: option.splits if_splits)
qed

text \<open>
  Property C2: checkout never oversells. From a stock where every product's available is its
  quantity minus its reserved and neither is negative, every sequence of reservations,
  releases and commits with amounts that are not negative, each commit of no more than is
  reserved, leaves every product's stock that way, refused moves included.
\<close>

theorem checkout_never_oversells:
  assumes "all_balanced (product_stock s)"
    and "all_proper product_stock (checkout_move user now) moves s"
  shows "all_balanced (product_stock (run_moves (checkout_move user now) moves s))"
  using assms by (rule checkout.moves_keep_balance)

definition shelf :: "int \<Rightarrow> db" where
  "shelf n = empty_db\<lparr>products := [\<lparr>p_id = ''p'', p_title = ''Lamp'', p_quantity = n, p_reserved = 0,
     p_available = n\<rparr>]\<rparr>"

lemma shelf_balanced: "0 \<le> n \<Longrightarrow> all_balanced (product_stock (shelf n))"
  by (auto simp: all_balanced_def product_stock_def shelf_def product_figures_def split: if_splits)

theorem checkout_never_oversells_witness:
  "all_balanced (product_stock (run_moves (checkout_move ''u'' 0)
     [Reserve ''p'' 3, Reserve ''p'' 9, Commit ''p'' 2, Release ''p'' 1] (shelf 10)))"
proof (rule checkout_never_oversells)
  show "all_balanced (product_stock (shelf 10))" by (rule shelf_balanced) simp
  show "all_proper product_stock (checkout_move ''u'' 0)
     [Reserve ''p'' 3, Reserve ''p'' 9, Commit ''p'' 2, Release ''p'' 1] (shelf 10)"
    by (simp add: shelf_def empty_db_def reserveInventory_def reserve_work_def releaseInventory_def
        release_work_def commitSale_def commit_work_def product_stock_def product_figures_def
        save_product_def log_change_def emit_def Let_def)
qed

text \<open>
  Reserving some of a product and releasing it again restores every product's
  figures exactly; reserving and committing takes it out of the quantity, with what was
  reserved before still reserved; and a reservation beyond what is available is refused
  without any change to the database.
\<close>

lemma reservation_round_trip:
  assumes "product_stock s p = Some (Fig q r a)" and "balanced (Fig q r a)" and "0 \<le> n"
  shows "(n \<le> a \<longrightarrow> (\<exists>t u w. checkout_move user now (Reserve p n) s = Some t \<and>
      checkout_move user now (Release p n) t = Some u \<and> product_stock u = product_stock s \<and>
      checkout_move user now (Commit p n) t = Some w \<and>
      product_stock w = (product_stock s)(p := Some (Fig (q - n) r (a - n))))) \<and>
    (a < n \<longrightarrow> (\<exists>m. reserveInventory p user n False now s = (Inl (BadRequestException m), s)))"
proof (intro conjI impI)
  assume n: "n \<le> a"
  from n assms(1) obtain t where t: "checkout_move user now (Reserve p n) s = Some t"
    using checkout.reserve_succeeds [of user now p n s] by blast
  have st: "product_stock t p \<noteq> None"
    using checkout.reserve_effect [OF t] assms(1) by simp
  from st obtain u where u: "checkout_move user now (Release p n) t = Some u"
    using checkout.release_succeeds [of user now p n t] by blast
  from st obtain w where w: "checkout_move user now (Commit p n) t = Some w"
    using checkout.commit_succeeds [of user now p n t] by blast
  show "\<exists>t u w. checkout_move user now (Reserve p n) s = Some t \<and>
      checkout_move user now (Release p n) t = Some u \<and> product_stock u = product_stock s \<and>
      checkout_move user now (Commit p n) t = Some w \<and>
      product_stock w = (product_stock s)(p := Some (Fig (q - n) r (a - n)))"
    using t u w checkout.reserve_then_release [OF assms t u] checkout.reserve_then_commit [OF assms t w]
    by blast
next
  assume "a < n"
  with assms(1) show "\<exists>m. reserveInventory p user n False now s = (Inl (BadRequestException m), s)"
    by (auto simp: product_stock_def product_figures_def reserveInventory_def reserve_work_def
        transaction_def roll_back_def)
qed

theorem reservation_round_trip_witness:
  "\<exists>t u. checkout_move ''u'' 0 (Reserve ''p'' 4) (shelf 10) = Some t \<and>
     checkout_move ''u'' 0 (Release ''p'' 4) t = Some u \<and> product_stock u = product_stock (shelf 10)"
  using reservation_round_trip [of "shelf 10" "''p''" 10 0 10 4 "''u''" 0]
  by (auto simp: product_stock_def shelf_def product_figures_def)

subsection \<open>Listings implement it too\<close>

definition listing_figures :: "listing_row \<Rightarrow> figures" where
  "listing_figures l = Fig (l_quantity l) (l_reserved l) (l_available l)"

definition listing_stock :: "db \<Rightarrow> uuid \<Rightarrow> figures option" where
  "listing_stock s p = map_option listing_figures (tbl_find l_id p (listings s))"

definition item_of :: "uuid \<Rightarrow> int \<Rightarrow> order_item" where
  "item_of p n = \<lparr>it_productId = p, it_variantId = None, it_productName = [], it_quantity = n,
     it_price = 0, it_subtotal = 0, it_priceCurrency = USD\<rparr>"

fun order_move :: "order_row \<Rightarrow> time \<Rightarrow> stock_move \<Rightarrow> db \<Rightarrow> db option" where
  "order_move order now (Reserve p n) s = completed (reserve_item order now (item_of p n) s)"
| "order_move order now (Release p n) s = completed (cancel_item order now (item_of p n) s)"
| "order_move order now (Commit p n) s = completed (confirm_item order now (item_of p n) s)"

interpretation order_stock: reservation listing_stock "order_move order now"
proof
  fix p n s t
  show "order_move order now (Reserve p n) s \<noteq> None \<longleftrightarrow>
      (\<exists>q r a. listing_stock s p = Some (Fig q r a) \<and> n \<le> a)"
    by (auto simp: reserve_item_def item_of_def listing_stock_def listing_figures_def Let_def
        split: option.splits)
  show "order_move order now (Release p n) s \<noteq> None \<longleftrightarrow> listing_stock s p \<noteq> None"
    by (auto simp: cancel_item_def item_of_def listing_stock_def Let_def split: option.splits)
  show "order_move order now (Commit p n) s \<noteq> None \<longleftrightarrow> listing_stock s p \<noteq> None"
    by (auto simp: confirm_item_def item_of_def listing_stock_def Let_def split: option.splits)
  show "listing_stock t = (listing_stock s)(p := map_option (after_reserve n) (listing_stock s p))"
    if "order_move order now (Reserve p n) s = Some t"
    using that
    by (auto simp: fun_eq_iff reserve_item_def item_of_def listing_stock_def listing_figures_def
        Let_def dest: tbl_find_key split: option.splits if_splits)
  show "listing_stock t = (listing_stock s)(p := map_option (after_release n) (listing_stock s p))"
    if "order_move order now (Release p n) s = Some t"
    using that
    by (auto simp: fun_eq_iff cancel_item_def item_of_def listing_stock_def listing_figures_def
        Let_def max_def dest: tbl_find_key split: option.splits if_splits)
  show "listing_stock t = (listing_stock s)(p := map_option (after_commit n) (listing_stock s p))"
    if "order_move order now (Commit p n) s = Some t"
    using that
    by (auto simp: fun_eq_iff confirm_item_def item_of_def listing_stock_def listing_figures_def
        Let_def max_def dest: tbl_find_key split: option.splits if_splits)
qed

definition order_quantities :: "order_row \<Rightarrow> (uuid \<times> int) list" where
  "order_quantities order = map (\<lambda>i. (it_productId i, it_quantity i)) (o_items order)"

text \<open>The name an error message mentions is all that an item has besides its product and
  quantity; it does not change whether a step completes or the state it leaves.\<close>

lemma item_steps:
  "completed (reserve_item order now item s) = order_move order now (Reserve (it_productId item) (it_quantity item)) s"
  "completed (cancel_item order now item s) = order_move order now (Release (it_productId item) (it_quantity item)) s"
  "completed (confirm_item order now item s) = order_move order now (Commit (it_productId item) (it_quantity item)) s"
  by (simp_all add: reserve_item_def cancel_item_def confirm_item_def item_of_def Let_def
      split: option.splits)

lemma completed_for_each:
  assumes "\<And>x s. completed (f x s) = mv (K (k x) (n x)) s"
  shows "completed (for_each f xs s) = move_all mv (map (\<lambda>i. K (fst i) (snd i)) (map (\<lambda>x. (k x, n x)) xs)) s"
proof (induction xs arbitrary: s)
  case (Cons x xs)
  have "completed (and_then (f x s) (\<lambda>_ t. for_each f xs t)) =
      (case completed (f x s) of None \<Rightarrow> None | Some t \<Rightarrow> completed (for_each f xs t))"
    by (cases "f x s"; cases "fst (f x s)") (auto simp: and_then_def completed_def)
  then show ?case using Cons by (simp add: assms split: option.splits)
qed simp

lemma order_loops:
  "completed (reserveForOrder order now s) =
     move_all (order_move order now) (map (\<lambda>i. Reserve (fst i) (snd i)) (order_quantities order)) s"
  "completed (cancelOrder_inventory order now s) =
     move_all (order_move order now) (map (\<lambda>i. Release (fst i) (snd i)) (order_quantities order)) s"
  "completed (confirmOrder order now s) =
     move_all (order_move order now) (map (\<lambda>i. Commit (fst i) (snd i)) (order_quantities order)) s"
  unfolding reserveForOrder_def cancelOrder_inventory_def confirmOrder_def completed_transaction
    order_quantities_def
  by (rule completed_for_each; rule item_steps)+

text \<open>
  Property C11: the stock side of an order's life. When the listings' figures are settled and
  the reservation of an order completes, every listing has exactly the ordered amount more in
  reserve (duplicate items added up, other listings untouched); cancelling the order then
  completes and gives every listing its figures back; confirming it instead completes and
  takes the ordered amount out of the quantity without touching what is left available.
\<close>

theorem order_stock_life_cycle:
  assumes "all_settled (listing_stock s)" and "\<forall>i \<in> set (o_items order). 0 \<le> it_quantity i"
    and "reserveForOrder order now s = (Inr (), t)"
  shows "listing_stock t =
      (\<lambda>p. map_option (after_reserve (ordered p (order_quantities order))) (listing_stock s p)) \<and>
    (\<exists>u. cancelOrder_inventory order later t = (Inr (), u) \<and> listing_stock u = listing_stock s) \<and>
    (\<exists>w. confirmOrder order later t = (Inr (), w) \<and>
      listing_stock w = (\<lambda>p. map_option (after_commit (ordered p (order_quantities order)) \<circ>
        after_reserve (ordered p (order_quantities order))) (listing_stock s p)))"
proof -
  have qs: "\<forall>i \<in> set (order_quantities order). 0 \<le> snd i"
    using assms(2) by (auto simp: order_quantities_def)
  have all: "move_all (order_move order now) (map (\<lambda>i. Reserve (fst i) (snd i)) (order_quantities order)) s = Some t"
    using assms(3) order_loops(1) [of order now s] by simp
  note reserved = order_stock.reserve_all [OF assms(1) qs all]
  obtain u where u: "completed (cancelOrder_inventory order later t) = Some u"
    "listing_stock u = (\<lambda>p. map_option (after_release (ordered p (order_quantities order))) (listing_stock t p))"
    using order_stock.release_all [OF reserved(2) qs reserved(3), of order later] order_loops(2) by auto
  have "map_option (after_release n) (map_option (after_reserve n) (listing_stock s p)) = listing_stock s p" for p n
    using assms(1) by (cases "listing_stock s p") (auto simp: all_settled_def reserve_release_settled)
  then have restored: "listing_stock u = listing_stock s"
    by (simp add: u(2) reserved(1) fun_eq_iff del: option.map_comp)
  obtain w where w: "completed (confirmOrder order later t) = Some w"
    "listing_stock w = (\<lambda>p. map_option (after_commit (ordered p (order_quantities order))) (listing_stock t p))"
    using order_stock.commit_all [OF reserved(2) qs reserved(3), of order later] order_loops(3) by auto
  show ?thesis
    using reserved(1) u(1) restored w by (auto simp: completed_Some_iff option.map_comp)
qed

definition sample_listing :: listing_row where
  "sample_listing = \<lparr>l_id = ''p'', l_title = ''Lamp'', l_description = [], l_price = 10, l_currency = ''USD'',
     l_address = [], l_category = None, l_isActive = True, l_quantity = 10, l_reserved = 0, l_available = 10\<rparr>"

definition sample_order :: order_row where
  "sample_order = \<lparr>o_id = ''o'', o_totalAmount = 30, o_taxAmount = 0, o_shippingCost = 0, o_discountAmount = 0,
     o_status = OS_PENDING, o_paymentStatus = PS_UNPAID, o_items = [item_of ''p'' 2, item_of ''p'' 1],
     o_shippingAddress = None, o_trackingNumber = None, o_notes = None, o_cancellationReason = None,
     o_expectedDeliveryDate = None, o_currency = USD, o_escrowType = None, o_milestones = None,
     o_releasedAmount = 0, o_remainingAmount = 30, o_createdAt = 0, o_updatedAt = 0, o_confirmedAt = None,
     o_shippedAt = None, o_deliveredAt = None, o_completedAt = None, o_cancelledAt = None,
     o_refundedAt = None, o_buyerId = ''b'', o_sellerId = None\<rparr>"

lemma sample_items:
  "o_items sample_order = [item_of ''p'' 2, item_of ''p'' 1]" "it_productId (item_of p n) = p"
  "it_quantity (item_of p n) = n" "l_id sample_listing = ''p''" "listings empty_db = []"
  by (simp_all add: sample_order_def item_of_def sample_listing_def empty_db_def)

theorem order_stock_life_cycle_witness:
  "\<exists>t u. reserveForOrder sample_order 0 (empty_db\<lparr>listings := [sample_listing]\<rparr>) = (Inr (), t) \<and>
     listing_stock t ''p'' = Some (Fig 10 3 7) \<and> cancelOrder_inventory sample_order 1 t = (Inr (), u) \<and>
     listing_stock u ''p'' = Some (Fig 10 0 10)"
proof -
  let ?s = "empty_db\<lparr>listings := [sample_listing]\<rparr>"
  have settled: "all_settled (listing_stock ?s)"
    by (auto simp: all_settled_def listing_stock_def sample_listing_def listing_figures_def split: if_splits)
  have items: "\<forall>i \<in> set (o_items sample_order). 0 \<le> it_quantity i"
    by (simp add: sample_order_def item_of_def)
  have "\<exists>t. reserveForOrder sample_order 0 ?s = (Inr (), t)"
    by (simp add: reserveForOrder_def transaction_def sample_order_def item_of_def reserve_item_def
        sample_listing_def Let_def)
  then obtain t where t: "reserveForOrder sample_order 0 ?s = (Inr (), t)" ..
  have q: "ordered ''p'' (order_quantities sample_order) = 3" "listing_stock ?s ''p'' = Some (Fig 10 0 10)"
    by (simp_all add: order_quantities_def sample_order_def item_of_def listing_stock_def
        sample_listing_def listing_figures_def)
  from order_stock_life_cycle [OF settled items t, of 1] obtain u where
    u: "cancelOrder_inventory sample_order 1 t = (Inr (), u)" "listing_stock u = listing_stock ?s"
    and st: "listing_stock t = (\<lambda>p. map_option (after_reserve (ordered p (order_quantities sample_order)))
      (listing_stock ?s p))"
    by blast
  from t u st q show ?thesis by auto
qed

lemma completed_not_None_iff: "completed r \<noteq> None \<longleftrightarrow> (\<exists>x. fst r = Inr x)"
  by (auto simp: completed_def split: sum.splits)

lemma rolled_back_when_thrown:
  assumes "transaction w s = (Inl e, t)"
  shows "listings t = listings s" "inv_history t = inv_history s" "products t = products s"
    "orders t = orders s" "variants t = variants s"
  using assms by (auto simp: transaction_Inl_iff)

text \<open>
  Confirming or cancelling an order's stock completes exactly when every item of
  the order has a listing with the item's product id (whatever was reserved before), and when
  it does not complete, neither the listings nor the inventory history change.
\<close>

lemma order_stock_needs_listings:
  "((\<exists>u. fst (confirmOrder order now s) = Inr u) \<longleftrightarrow>
      (\<forall>i \<in> set (o_items order). tbl_find l_id (it_productId i) (listings s) \<noteq> None)) \<and>
    ((\<exists>u. fst (cancelOrder_inventory order now s) = Inr u) \<longleftrightarrow>
      (\<forall>i \<in> set (o_items order). tbl_find l_id (it_productId i) (listings s) \<noteq> None)) \<and>
    (\<forall>e t. (confirmOrder order now s = (Inl e, t) \<or> cancelOrder_inventory order now s = (Inl e, t)) \<longrightarrow>
      listings t = listings s \<and> inv_history t = inv_history s)"
proof (intro conjI allI impI)
  have present: "(\<forall>i \<in> set (order_quantities order). listing_stock s (fst i) \<noteq> None) \<longleftrightarrow>
      (\<forall>i \<in> set (o_items order). tbl_find l_id (it_productId i) (listings s) \<noteq> None)"
    by (auto simp: order_quantities_def listing_stock_def)
  show "(\<exists>u. fst (confirmOrder order now s) = Inr u) \<longleftrightarrow>
      (\<forall>i \<in> set (o_items order). tbl_find l_id (it_productId i) (listings s) \<noteq> None)"
    using order_stock.commit_completes_iff [of order now "order_quantities order" s] order_loops(3) [of order now s]
    by (metis completed_not_None_iff not_Some_eq present)
  show "(\<exists>u. fst (cancelOrder_inventory order now s) = Inr u) \<longleftrightarrow>
      (\<forall>i \<in> set (o_items order). tbl_find l_id (it_productId i) (listings s) \<noteq> None)"
    using order_stock.release_completes_iff [of order now "order_quantities order" s] order_loops(2) [of order now s]
    by (metis completed_not_None_iff not_Some_eq present)
  fix e t
  assume "confirmOrder order now s = (Inl e, t) \<or> cancelOrder_inventory order now s = (Inl e, t)"
  then show "listings t = listings s" "inv_history t = inv_history s"
    unfolding confirmOrder_def cancelOrder_inventory_def using rolled_back_when_thrown by blast+
qed

theorem order_stock_needs_listings_witness:
  "\<not> (\<exists>u. fst (confirmOrder sample_order 0 empty_db) = Inr u) \<and>
   (\<exists>u. fst (cancelOrder_inventory sample_order 0 (empty_db\<lparr>listings := [sample_listing]\<rparr>)) = Inr u)"
  using order_stock_needs_listings [of sample_order 0 empty_db]
    order_stock_needs_listings [of sample_order 0 "empty_db\<lparr>listings := [sample_listing]\<rparr>"]
  by (auto simp: sample_items)

subsection \<open>Variants\<close>

lemma least_price: "foldl min x xs = Min (set (x # xs))" for x :: number
proof -
  have "(\<lambda>a b :: number. min b a) = min" by (simp add: fun_eq_iff min.commute)
  then show ?thesis by (simp only: Min.set_eq_fold foldl_conv_fold)
qed

lemma aggregate_simps:
  "l_id (aggregate vs l) = l_id l"
  "vs \<noteq> [] \<Longrightarrow> l_quantity (aggregate vs l) = sum_list (map v_quantity vs)"
  "vs \<noteq> [] \<Longrightarrow> l_reserved (aggregate vs l) = sum_list (map v_reserved vs)"
  "vs \<noteq> [] \<Longrightarrow> l_available (aggregate vs l) = sum_list (map v_available vs)"
  "vs \<noteq> [] \<Longrightarrow> l_price (aggregate vs l) = Min (v_price ` set vs)"
  by (cases vs; simp add: aggregate_def least_price)+

text \<open>
  An accepted adjustment of a variant leaves the variant's available equal to its
  quantity minus its reserved and not negative, and its listing, when there is one, shows the
  sums over its variants (quantity, reserved, available) and their least price; a refused one
  (unknown variant, too little stock) changes no table.
\<close>

lemma variant_adjustment_aggregates:
  "case adjustVariantInventory vid user change ty note now s of
     (Inr v, t) \<Rightarrow>
       v_available v = v_quantity v - v_reserved v \<and> 0 \<le> v_available v \<and>
       tbl_find v_id vid (variants t) = Some v \<and>
       (case tbl_find l_id (v_listingId v) (listings t) of
          None \<Rightarrow> listings t = listings s
        | Some l \<Rightarrow> let vs = variants_of (v_listingId v) t in
            l_quantity l = sum_list (map v_quantity vs) \<and> l_reserved l = sum_list (map v_reserved vs) \<and>
            l_available l = sum_list (map v_available vs) \<and> l_price l = Min (v_price ` set vs))
   | (Inl e, t) \<Rightarrow> variants t = variants s \<and> listings t = listings s \<and> inv_history t = inv_history s"
proof (cases "adjustVariantInventory vid user change ty note now s")
  case (Pair r t)
  show ?thesis
  proof (cases r)
    case (Inl e)
    with Pair rolled_back_when_thrown show ?thesis
      unfolding adjustVariantInventory_def by auto
  next
    case (Inr v)
    then have run: "adjustVariantInventory vid user change ty note now s = (Inr v, t)" using Pair by simp
    then obtain old where old: "tbl_find v_id vid (variants s) = Some old"
      and v: "v = old\<lparr>v_quantity := v_quantity old + change,
        v_available := v_quantity old + change - v_reserved old\<rparr>"
      and avail: "0 \<le> v_available v"
      unfolding adjustVariantInventory_def transaction_Inr_iff
      by (auto simp: Let_def split: option.splits if_splits prod.splits)
    have vid: "v_id v = vid" using tbl_find_key [OF old] v by simp
    have vt: "variants t = tbl_save v_id v (variants s)"
      using run old avail unfolding adjustVariantInventory_def transaction_Inr_iff
      by (auto simp: Let_def v syncListingAggregate_def split: option.splits if_splits prod.splits)
    have member: "v \<in> set (variants_of (v_listingId v) t)" by (simp add: variants_of_def vt)
    then obtain v0 vs where ne: "variants_of (v_listingId v) t = v0 # vs"
      by (cases "variants_of (v_listingId v) t") auto
    have lt: "listings t = (case tbl_find l_id (v_listingId v) (listings s) of None \<Rightarrow> listings s
        | Some l \<Rightarrow> tbl_save l_id (aggregate (variants_of (v_listingId v) t) l) (listings s))"
      using run old avail unfolding adjustVariantInventory_def transaction_Inr_iff
      by (auto simp: Let_def v syncListingAggregate_def variants_of_def dest: tbl_find_key
          split: option.splits if_splits prod.splits)
    show ?thesis
    proof (cases "tbl_find l_id (v_listingId v) (listings s)")
      case None
      then show ?thesis using Pair Inr avail vid vt lt by (simp add: v)
    next
      case (Some l)
      have "l_id l = v_listingId v" by (rule tbl_find_key [OF Some])
      with Some show ?thesis
        using Pair Inr avail vid vt lt ne by (auto simp: aggregate_simps v Let_def)
    qed
  qed
qed

end
