(* ===== verification/Rewards.thy ===== *)
theory Rewards
  imports Database
begin

text \<open>
  \<open>RewardsService\<close> (src/src/rewards/rewards.service.ts): the ledger of reward points. The
  balance is a SQL \<open>SUM\<close>, which the PostgreSQL driver hands over as text like every other
  \<open>numeric\<close>, so the operations take the driver's function (\<open>hyd\<close>) as an argument.
  \<open>redeemPoints\<close>, which creates a coupon, is not modelled.
\<close>

subsection \<open>The service\<close>

definition POINTS_PER_DOLLAR :: number where "POINTS_PER_DOLLAR = 10"
definition POINTS_TO_DOLLAR_CONVERSION :: number where "POINTS_TO_DOLLAR_CONVERSION = 100"

definition points_of :: "uuid \<Rightarrow> db \<Rightarrow> int" where
  "points_of userId s = sum_list (map rw_points (filter (\<lambda>r. rw_userId r = userId) (rewards s)))"

text \<open>\<open>SUM\<close> over no row is \<open>NULL\<close>; a numeric zero is falsy, the text \<open>'0'\<close> is not.\<close>

definition getUserBalance :: "(nat \<Rightarrow> number \<Rightarrow> jsval) \<Rightarrow> uuid \<Rightarrow> db \<Rightarrow> jsval" where
  "getUserBalance hyd userId s =
     (if filter (\<lambda>r. rw_userId r = userId) (rewards s) = [] then JNum 0
      else hyd 0 (of_int (points_of userId s)))"

definition getUserRewardsHistory :: "uuid \<Rightarrow> db \<Rightarrow> reward_row list" where
  "getUserRewardsHistory userId s =
     rev (sort_key rw_createdAt (filter (\<lambda>r. rw_userId r = userId) (rewards s)))"

text \<open>\<open>a < b\<close> of a value and a number; \<open>NaN\<close> compares as false.\<close>

definition js_less :: "jsval \<Rightarrow> number \<Rightarrow> bool" where
  "js_less a b = (case js_value a of None \<Rightarrow> False | Some r \<Rightarrow> r < b)"

text \<open>What an integer column makes of a value.\<close>

definition write_int :: "jsval \<Rightarrow> error + int" where
  "write_int v = (case js_value v of
       None \<Rightarrow> Inl (Error [Txt ''invalid input syntax for type integer: '', Txt (js_text v)])
     | Some r \<Rightarrow> if r = of_int \<lfloor>r\<rfloor> then Inr \<lfloor>r\<rfloor>
         else Inl (Error [Txt ''invalid input syntax for type integer: '', Txt (js_text v)]))"

record create_reward_dto =
  cr_userId :: uuid
  cr_points :: int
  cr_transactionType :: "points_transaction_type option"
  cr_description :: "string option"
  cr_referenceId :: "string option"
  cr_referenceType :: "string option"

definition createReward ::
  "(nat \<Rightarrow> number \<Rightarrow> jsval) \<Rightarrow> uuid \<Rightarrow> time \<Rightarrow> create_reward_dto \<Rightarrow> db \<Rightarrow> (reward_row, db) result" where
  "createReward hyd rid now dto s =
     (let currentBalance = getUserBalance hyd (cr_userId dto) s;
          newBalance = js_add currentBalance (JNum (of_int (cr_points dto)))
      in if cr_transactionType dto = Some REDEEMED \<and> js_less currentBalance (of_int (cr_points dto))
         then (Inl (BadRequestException [Txt ''Insufficient reward points balance'']), s)
         else
           case write_int newBalance of
             Inl e \<Rightarrow> (Inl e, s)
           | Inr balanceAfter \<Rightarrow>
             let reward = \<lparr>rw_id = rid, rw_userId = cr_userId dto, rw_points = cr_points dto,
                   rw_transactionType = (case cr_transactionType dto of None \<Rightarrow> EARNED | Some t \<Rightarrow> t),
                   rw_description = cr_description dto, rw_referenceId = cr_referenceId dto,
                   rw_referenceType = cr_referenceType dto, rw_balanceAfter = balanceAfter,
                   rw_createdAt = now\<rparr>
             in (Inr reward, s\<lparr>rewards := tbl_save rw_id reward (rewards s)\<rparr>))"

definition grantPointsForOrder ::
  "(nat \<Rightarrow> number \<Rightarrow> jsval) \<Rightarrow> uuid \<Rightarrow> time \<Rightarrow> uuid \<Rightarrow> uuid \<Rightarrow> number \<Rightarrow> db \<Rightarrow> (reward_row, db) result" where
  "grantPointsForOrder hyd rid now userId orderId totalAmount s =
     (let pointsEarned = \<lfloor>totalAmount * POINTS_PER_DOLLAR\<rfloor>
      in if pointsEarned \<le> 0
         then (Inl (BadRequestException [Txt ''Order amount must be greater than zero to earn points'']), s)
         else createReward hyd rid now \<lparr>cr_userId = userId, cr_points = pointsEarned,
                cr_transactionType = Some EARNED,
                cr_description = Some (''Points earned for order '' @ orderId),
                cr_referenceId = Some orderId, cr_referenceType = Some ''order''\<rparr> s)"

record checkout_points =
  ck_discountAmount :: number
  ck_pointsUsed :: int
  ck_remainingBalance :: jsval

definition show_int :: "int \<Rightarrow> string" where
  "show_int n = fixed_text 0 n"

definition applyPointsToCheckout ::
  "(nat \<Rightarrow> number \<Rightarrow> jsval) \<Rightarrow> uuid \<Rightarrow> time \<Rightarrow> uuid \<Rightarrow> number \<Rightarrow> number \<Rightarrow> db \<Rightarrow> (checkout_points, db) result" where
  "applyPointsToCheckout hyd rid now userId pointsToUse orderTotal s =
     (let currentBalance = getUserBalance hyd userId s
      in if js_less currentBalance pointsToUse
         then (Inl (BadRequestException [Txt ''Insufficient reward points balance'']), s)
         else
           let maxDiscountFromPoints = pointsToUse / POINTS_TO_DOLLAR_CONVERSION;
               discountAmount = min maxDiscountFromPoints orderTotal;
               actualPointsUsed = \<lfloor>discountAmount * POINTS_TO_DOLLAR_CONVERSION\<rfloor>
           in and_then
                (createReward hyd rid now \<lparr>cr_userId = userId, cr_points = - actualPointsUsed,
                   cr_transactionType = Some REDEEMED,
                   cr_description = Some (''Applied '' @ show_int actualPointsUsed @ '' points to checkout''),
                   cr_referenceId = None, cr_referenceType = Some ''checkout''\<rparr> s)
                (\<lambda>_ t. (Inr \<lparr>ck_discountAmount = discountAmount, ck_pointsUsed = actualPointsUsed,
                   ck_remainingBalance = getUserBalance hyd userId t\<rparr>, t)))"

definition adjustPoints ::
  "(nat \<Rightarrow> number \<Rightarrow> jsval) \<Rightarrow> uuid \<Rightarrow> time \<Rightarrow> uuid \<Rightarrow> int \<Rightarrow> string \<Rightarrow> string option \<Rightarrow> db \<Rightarrow>
   (reward_row, db) result" where
  "adjustPoints hyd rid now userId points description referenceId =
     createReward hyd rid now \<lparr>cr_userId = userId, cr_points = points,
       cr_transactionType = Some ADJUSTED, cr_description = Some description,
       cr_referenceId = referenceId, cr_referenceType = Some ''admin_adjustment''\<rparr>"

subsection \<open>The ledger\<close>

definition fresh_reward :: "uuid \<Rightarrow> db \<Rightarrow> bool" where
  "fresh_reward rid s \<longleftrightarrow> rid \<notin> rw_id ` set (rewards s)"

lemma tbl_save_fresh: "key r \<notin> key ` set t \<Longrightarrow> tbl_save key r t = t @ [r]"
  by (induction t) auto

lemma points_after_save:
  assumes "fresh_reward (rw_id r) s"
  shows "points_of u (s\<lparr>rewards := tbl_save rw_id r (rewards s)\<rparr>) =
    points_of u s + (if rw_userId r = u then rw_points r else 0)"
  using assms by (simp add: points_of_def fresh_reward_def tbl_save_fresh)

lemma createReward_number:
  assumes "createReward number_column rid now dto s = (Inr r, t)" and "fresh_reward rid s"
  shows "rw_balanceAfter r = points_of (cr_userId dto) t"
    and "points_of (cr_userId dto) t = points_of (cr_userId dto) s + cr_points dto"
    and "u \<noteq> cr_userId dto \<Longrightarrow> points_of u t = points_of u s"
    and "t = s\<lparr>rewards := rewards t\<rparr>"
proof -
  have none: "points_of (cr_userId dto) s = 0" if "filter (\<lambda>r. rw_userId r = cr_userId dto) (rewards s) = []"
    using that by (simp add: points_of_def)
  have add: "js_add (getUserBalance number_column (cr_userId dto) s) (JNum (of_int (cr_points dto))) =
      JNum (of_int (points_of (cr_userId dto) s + cr_points dto))"
    by (simp add: getUserBalance_def number_column_def none)
  have int: "write_int (JNum (of_int k)) = Inr k" for k by (simp add: write_int_def)
  note written = int [of "points_of (cr_userId dto) s + cr_points dto", folded add]
  have t: "t = s\<lparr>rewards := tbl_save rw_id r (rewards s)\<rparr>" and r: "rw_id r = rid"
    "rw_userId r = cr_userId dto" "rw_points r = cr_points dto"
    "rw_balanceAfter r = points_of (cr_userId dto) s + cr_points dto"
    using assms(1) by (auto simp: createReward_def Let_def written split: if_splits)
  note sum = points_after_save [of r s, unfolded r(1), OF assms(2), folded t]
  show "points_of (cr_userId dto) t = points_of (cr_userId dto) s + cr_points dto"
    using sum [of "cr_userId dto"] r by simp
  with r show "rw_balanceAfter r = points_of (cr_userId dto) t" by simp
  show "u \<noteq> cr_userId dto \<Longrightarrow> points_of u t = points_of u s" using sum [of u] r by simp
  show "t = s\<lparr>rewards := rewards t\<rparr>" by (simp add: t)
qed

text \<open>
  With a driver that hands sums over as numbers, using points at checkout takes
  off at most the order's total and at most the points' worth (a hundred points for a unit),
  charges no more points than asked for and at least the discount's worth less one point,
  never lets the balance go below zero, and leaves other users' balances alone.
\<close>

lemma points_discount_bounded:
  assumes "applyPointsToCheckout number_column rid now user p orderTotal s = (Inr c, t)"
    and "fresh_reward rid s" and "0 \<le> p" and "0 \<le> orderTotal"
  shows "0 \<le> ck_discountAmount c \<and> ck_discountAmount c \<le> orderTotal \<and> ck_discountAmount c \<le> p / 100 \<and>
    of_int (ck_pointsUsed c) \<le> p \<and> of_int (ck_pointsUsed c) \<le> ck_discountAmount c * 100 \<and>
    ck_discountAmount c * 100 < of_int (ck_pointsUsed c) + 1 \<and>
    points_of user t = points_of user s - ck_pointsUsed c \<and> 0 \<le> points_of user t \<and>
    (\<forall>u. u \<noteq> user \<longrightarrow> points_of u t = points_of u s)"
proof -
  define discount where "discount = min (p / 100) orderTotal"
  define used where "used = \<lfloor>discount * 100\<rfloor>"
  have c: "ck_discountAmount c = discount" "ck_pointsUsed c = used"
    and bal: "\<not> js_less (getUserBalance number_column user s) p"
    using assms(1) by (auto simp: applyPointsToCheckout_def Let_def discount_def used_def
        POINTS_TO_DOLLAR_CONVERSION_def split: if_splits)
  obtain r dto where reward: "createReward number_column rid now dto s = (Inr r, t)"
    and dto: "cr_userId dto = user" "cr_points dto = - used"
    using assms(1) by (auto simp: applyPointsToCheckout_def Let_def discount_def used_def
        POINTS_TO_DOLLAR_CONVERSION_def split: if_splits)
  note ledger = createReward_number [OF reward assms(2), unfolded dto]
  have p: "discount * 100 \<le> p" by (simp add: discount_def min_def)
  have used: "of_int used \<le> discount * 100" "discount * 100 < of_int used + 1"
    unfolding used_def by linarith+
  have "p \<le> of_int (points_of user s)"
    using bal by (auto simp: getUserBalance_def number_column_def js_less_def points_of_def split: if_splits)
  with p used(1) have "of_int used \<le> (of_int (points_of user s) :: number)" by linarith
  then have "0 \<le> points_of user t" using ledger(2) by simp
  moreover have "0 \<le> discount" "discount \<le> orderTotal" "discount \<le> p / 100"
    using assms(3,4) by (auto simp: discount_def)
  ultimately show ?thesis using c used p ledger(2,3) by auto
qed

definition sample_reward :: "int \<Rightarrow> reward_row" where
  "sample_reward n = \<lparr>rw_id = ''r'', rw_userId = ''u'', rw_points = n, rw_transactionType = EARNED,
     rw_description = None, rw_referenceId = None, rw_referenceType = None, rw_balanceAfter = n,
     rw_createdAt = 0\<rparr>"

definition sample_points :: "int \<Rightarrow> db" where
  "sample_points n = empty_db\<lparr>rewards := [sample_reward n]\<rparr>"

theorem points_discount_bounded_witness:
  "\<exists>c t. applyPointsToCheckout number_column ''n'' 0 ''u'' 250 40 (sample_points 500) = (Inr c, t) \<and>
     points_of ''u'' t = 250"
proof -
  have "\<exists>c t. applyPointsToCheckout number_column ''n'' 0 ''u'' 250 40 (sample_points 500) = (Inr c, t) \<and>
      ck_pointsUsed c = 250"
    by (simp add: applyPointsToCheckout_def Let_def getUserBalance_def sample_points_def sample_reward_def
        points_of_def number_column_def js_less_def POINTS_TO_DOLLAR_CONVERSION_def createReward_def write_int_def)
  then obtain c t where run: "applyPointsToCheckout number_column ''n'' 0 ''u'' 250 40 (sample_points 500) = (Inr c, t)"
    and "ck_pointsUsed c = 250" by blast
  moreover have "fresh_reward ''n'' (sample_points 500)" "points_of ''u'' (sample_points 500) = 500"
    by (simp_all add: fresh_reward_def sample_points_def sample_reward_def points_of_def)
  ultimately show ?thesis using points_discount_bounded [OF run] by auto
qed

subsection \<open>The ledger behind the PostgreSQL driver\<close>

lemma integer_text:
  assumes "\<bar>n\<bar> < 10 ^ 21"
  shows "to_string (of_int n) = (if n < 0 then minus # show_nat (nat (- n)) else show_nat (nat n))"
proof -
  have "(10 ^ 21 :: number) = of_int (10 ^ 21)" by simp
  then have "\<not> (10 ^ 21 :: number) \<le> \<bar>of_int n\<bar>" using assms by (metis not_le of_int_abs of_int_less_iff)
  moreover have "(1 :: number) \<le> \<bar>of_int n\<bar>" if "n \<noteq> 0"
    using that by (metis of_int_abs of_int_1_le_iff zero_less_abs_iff zless_imp_add1_zle add_0)
  ultimately have "\<not> exponent_form (of_int n)" by (auto simp: exponent_form_def)
  then show ?thesis by (auto simp: to_string_def number_text_def Let_def)
qed

lemma not_digit_minus [simp]: "\<not> is_digit minus"
  by (simp add: is_digit_def minus_def)

lemma text_value_digits:
  assumes "\<forall>c \<in> set t. is_digit c" and "t \<noteq> []"
  shows "text_value t = Some (of_nat (read_nat t))"
  using assms no_dot [OF digits_not_dot [OF assms(1)]]
  by (cases t) (auto simp: text_value_def Let_def)

lemma text_value_glued:
  assumes "\<forall>c \<in> set t. is_digit c" and "t \<noteq> []" and "\<forall>c \<in> set u. is_digit c"
  shows "text_value (t @ minus # u) = None"
proof -
  have "\<forall>c \<in> set (t @ minus # u). c \<noteq> dot"
    using assms digit_not_dot by (auto simp: minus_def dot_def)
  note nd = no_dot [OF this]
  obtain c cs where t: "t = c # cs" "c \<noteq> minus"
    using assms(1,2) digit_not_dot(2) by (cases t) auto
  then show ?thesis using nd by (auto simp: text_value_def Let_def)
qed

lemma pg_balance:
  assumes "\<exists>r \<in> set (rewards s). rw_userId r = u" and "0 \<le> points_of u s"
  shows "getUserBalance pg_column u s = JStr (show_nat (nat (points_of u s)))"
  using assms by (auto simp: getUserBalance_def pg_column_def fixed_text_def Let_def filter_empty_conv)

text \<open>
  With the PostgreSQL driver, whose sums are text, the points of a user with any
  entry in the ledger cannot be used: every attempt to apply at least one point at checkout
  throws without changing anything; and an entry that earns \<open>n\<close> points writes, as the balance
  after it, the digits of the old balance followed by the digits of \<open>n\<close>.
\<close>

lemma points_with_pg_driver:
  assumes "\<exists>r \<in> set (rewards s). rw_userId r = user" and "0 \<le> points_of user s"
    and "1 \<le> n" and "n < 10 ^ 21"
  shows "(min (p / 100) orderTotal * 100 = of_int n \<longrightarrow>
      (\<exists>e. applyPointsToCheckout pg_column rid now user p orderTotal s = (Inl e, s))) \<and>
    (cr_userId dto = user \<and> cr_points dto = n \<and> cr_transactionType dto = Some EARNED \<longrightarrow>
      (\<exists>r t. createReward pg_column rid now dto s = (Inr r, t) \<and> rw_balanceAfter r =
        points_of user s * 10 ^ length (show_nat (nat n)) + n))"
proof (intro conjI impI)
  note balance = pg_balance [OF assms(1,2)]
  have shown: "to_string (of_int (- n)) = minus # show_nat (nat n)" "to_string (of_int n) = show_nat (nat n)"
    using integer_text [of "- n"] integer_text [of n] assms(3,4) by auto
  {
    assume used: "min (p / 100) orderTotal * 100 = of_int n"
    have "js_add (JStr (show_nat (nat (points_of user s)))) (JNum (of_int (- n))) =
        JStr (show_nat (nat (points_of user s)) @ minus # show_nat (nat n))"
      by (simp only: js_add.simps js_text.simps shown)
    then have "\<exists>e. write_int (js_add (getUserBalance pg_column user s) (JNum (of_int (- n)))) = Inl e"
      using text_value_glued [OF show_nat_digits show_nat_nonempty show_nat_digits]
      by (simp add: balance write_int_def)
    then obtain e where "write_int (js_add (getUserBalance pg_column user s) (JNum (of_int (- n)))) = Inl e" ..
    then show "\<exists>e. applyPointsToCheckout pg_column rid now user p orderTotal s = (Inl e, s)"
      by (simp add: applyPointsToCheckout_def Let_def POINTS_TO_DOLLAR_CONVERSION_def used createReward_def)
  next
    assume dto: "cr_userId dto = user \<and> cr_points dto = n \<and> cr_transactionType dto = Some EARNED"
    have glue: "js_add (getUserBalance pg_column user s) (JNum (of_int n)) =
        JStr (show_nat (nat (points_of user s)) @ show_nat (nat n))"
      by (simp add: balance shown)
    have "text_value (show_nat (nat (points_of user s)) @ show_nat (nat n)) =
        Some (of_nat (nat (points_of user s) * 10 ^ length (show_nat (nat n)) + nat n))"
      using show_nat_digits by (subst text_value_digits) (auto simp: read_nat_append)
    then have "write_int (JStr (show_nat (nat (points_of user s)) @ show_nat (nat n))) =
        Inr (int (nat (points_of user s) * 10 ^ length (show_nat (nat n)) + nat n))"
      by (simp only: write_int_def js_value.simps option.case floor_of_nat of_int_of_nat_eq if_True refl)
    then have "write_int (js_add (getUserBalance pg_column user s) (JNum (of_int n))) =
        Inr (points_of user s * 10 ^ length (show_nat (nat n)) + n)"
      unfolding glue using assms(2,3) by simp
    then show "\<exists>r t. createReward pg_column rid now dto s = (Inr r, t) \<and> rw_balanceAfter r =
        points_of user s * 10 ^ length (show_nat (nat n)) + n"
      using dto by (simp add: createReward_def Let_def)
  }
qed

theorem points_with_pg_driver_witness:
  "\<exists>e. applyPointsToCheckout pg_column ''n'' 0 ''u'' 100 40 (sample_points 500) = (Inl e, sample_points 500)"
  using points_with_pg_driver [of "sample_points 500" "''u''" 100 100 40 "''n''" 0]
  by (auto simp: sample_points_def sample_reward_def points_of_def)

end
