(* ===== verification/Orders.thy ===== *)
theory Orders
  imports Inventory
begin

text \<open>
  \<open>OrdersService\<close> (src/src/orders/orders.service.ts): creating an order (items priced from
  the catalogue, stock reserved), cancelling it, looking orders up, and moving one along its
  status table. The rates, the new id and the clock are parameters; logging is left out.
\<close>

subsection \<open>Saving an order row\<close>

text \<open>
  The \<open>orders\<close> table holds amounts in \<open>decimal(12, 2)\<close> columns and the currency in a
  \<open>varchar(3)\<close> column: PostgreSQL rounds the amounts, refuses those that do not fit and refuses
  longer text. The entity object the service keeps is not rounded.
\<close>

definition order_amounts :: "order_row \<Rightarrow> number list" where
  "order_amounts ord = [o_totalAmount ord, o_taxAmount ord, o_shippingCost ord, o_discountAmount ord,
     o_releasedAmount ord, o_remainingAmount ord]"

definition rounded_order :: "order_row \<Rightarrow> order_row" where
  "rounded_order ord = ord\<lparr>o_totalAmount := round_to 2 (o_totalAmount ord),
     o_taxAmount := round_to 2 (o_taxAmount ord), o_shippingCost := round_to 2 (o_shippingCost ord),
     o_discountAmount := round_to 2 (o_discountAmount ord),
     o_releasedAmount := round_to 2 (o_releasedAmount ord),
     o_remainingAmount := round_to 2 (o_remainingAmount ord)\<rparr>"

definition write_order :: "order_row \<Rightarrow> error + order_row" where
  "write_order ord =
     (if length (currency_code (o_currency ord)) > 3
      then Inl (Error [Txt ''value too long for type character varying(3)''])
      else if \<exists>a \<in> set (order_amounts (rounded_order ord)). 10 ^ 10 \<le> \<bar>a\<bar>
      then Inl (Error [Txt ''numeric field overflow''])
      else Inr (rounded_order ord))"

definition save_order :: "order_row \<Rightarrow> db \<Rightarrow> (order_row, db) result" where
  "save_order ord s = (case write_order ord of
       Inl e \<Rightarrow> (Inl e, s)
     | Inr row \<Rightarrow> (Inr ord, s\<lparr>orders := tbl_save o_id row (orders s)\<rparr>))"

subsection \<open>Creating\<close>

record create_order_item_dto =
  ci_productId :: uuid
  ci_quantity :: int

record create_order_milestone_dto =
  cm_title :: string
  cm_description :: string
  cm_amount :: number
  cm_percentage :: number
  cm_type :: "string option"
  cm_trigger :: "string option"
  cm_autoRelease :: "bool option"
  cm_sortOrder :: "number option"

record create_order_dto =
  co_items :: "create_order_item_dto list"
  co_buyerId :: uuid
  co_shippingAddress :: "string option"
  co_paymentCurrency :: "currency option"
  co_milestones :: "create_order_milestone_dto list option"
  co_escrowType :: "escrow_type option"

text \<open>\<open>Number(product.price)\<close>. The catalogue has already read the same text as a decimal when
  it shows a product, so the \<open>NaN\<close> case, given as 0 here, does not occur.\<close>

definition price_number :: "string \<Rightarrow> number" where
  "price_number t = (case read_number t of Some r \<Rightarrow> r | None \<Rightarrow> 0)"

definition order_line ::
  "(currency \<Rightarrow> string) \<Rightarrow> currency \<Rightarrow> create_order_item_dto \<Rightarrow> catalog \<Rightarrow> error + order_item" where
  "order_line rates paymentCurrency item c =
     (case findOneProduct rates (ci_productId item) (Some paymentCurrency) c of
        Inl e \<Rightarrow> Inl e
      | Inr None \<Rightarrow> Inl (NotFoundException [Txt ''Product with ID '', Txt (ci_productId item), Txt '' not found''])
      | Inr (Some view) \<Rightarrow>
        let product = vw_product view in
        if cp_currency product \<noteq> paymentCurrency
        then Inl (BadRequestException [Txt ''Product '', Txt (ci_productId item), Txt '' currency '',
               Txt (currency_code (cp_currency product)), Txt '' does not match order currency '',
               Txt (currency_code paymentCurrency)])
        else
          let price = price_number (cp_price product);
              subtotal = price * of_int (ci_quantity item)
          in Inr \<lparr>it_productId = ci_productId item, it_variantId = None, it_productName = cp_name product,
                  it_quantity = ci_quantity item, it_price = price, it_subtotal = subtotal,
                  it_priceCurrency = cp_currency product\<rparr>)"

fun order_lines ::
  "(currency \<Rightarrow> string) \<Rightarrow> currency \<Rightarrow> create_order_item_dto list \<Rightarrow> catalog \<Rightarrow> error + order_item list" where
  "order_lines rates cur [] c = Inr []"
| "order_lines rates cur (i # js) c =
     (case order_line rates cur i c of
        Inl e \<Rightarrow> Inl e
      | Inr l \<Rightarrow> (case order_lines rates cur js c of Inl e \<Rightarrow> Inl e | Inr ls \<Rightarrow> Inr (l # ls)))"

definition order_milestone_of :: "create_order_milestone_dto \<Rightarrow> order_milestone" where
  "order_milestone_of m = \<lparr>om_title = cm_title m, om_description = cm_description m,
     om_amount = cm_amount m, om_percentage = cm_percentage m,
     om_type = or_text (cm_type m) ''standard'', om_trigger = or_text (cm_trigger m) ''manual'',
     om_autoRelease = (cm_autoRelease m = Some True), om_sortOrder = or_num (cm_sortOrder m) 0\<rparr>"

text \<open>One round of the reservation loop; the product it returns is not used.\<close>

definition reserve_line :: "uuid \<Rightarrow> time \<Rightarrow> order_item \<Rightarrow> db \<Rightarrow> (unit, db) result" where
  "reserve_line buyerId now item s =
     and_then (reserveInventory (it_productId item) buyerId (it_quantity item) True now s) (\<lambda>_ t. (Inr (), t))"

definition notify_massive :: "order_row \<Rightarrow> db \<Rightarrow> db" where
  "notify_massive ord s = (if o_totalAmount ord > 5000
     then s\<lparr>notices := notices s @ [\<lparr>an_event = ''Massive Order Detected'', an_orderId = o_id ord,
            an_buyerId = o_buyerId ord, an_amount = o_totalAmount ord, an_itemCount = length (o_items ord)\<rparr>]\<rparr>
     else s)"

definition new_order ::
  "uuid \<Rightarrow> time \<Rightarrow> create_order_dto \<Rightarrow> currency \<Rightarrow> order_item list \<Rightarrow> number \<Rightarrow> order_row" where
  "new_order oid now dto cur items totalAmount =
     \<lparr>o_id = oid, o_totalAmount = totalAmount, o_taxAmount = 0, o_shippingCost = 0, o_discountAmount = 0,
      o_status = OS_PENDING, o_paymentStatus = PS_UNPAID, o_items = items,
      o_shippingAddress = co_shippingAddress dto, o_trackingNumber = None, o_notes = None,
      o_cancellationReason = None, o_expectedDeliveryDate = None, o_currency = cur,
      o_escrowType = co_escrowType dto,
      o_milestones = map_option (map order_milestone_of) (co_milestones dto), o_releasedAmount = 0,
      o_remainingAmount = totalAmount, o_createdAt = now, o_updatedAt = now, o_confirmedAt = None,
      o_shippedAt = None, o_deliveredAt = None, o_completedAt = None, o_cancelledAt = None,
      o_refundedAt = None, o_buyerId = co_buyerId dto, o_sellerId = None\<rparr>"

definition create_order ::
  "(currency \<Rightarrow> string) \<Rightarrow> uuid \<Rightarrow> time \<Rightarrow> create_order_dto \<Rightarrow> db \<Rightarrow> (order_row, db) result" where
  "create_order rates oid now dto =
     transaction (\<lambda>s.
       let paymentCurrency = coalesce (co_paymentCurrency dto) USD in
       case order_lines rates paymentCurrency (co_items dto) (shop s) of
         Inl e \<Rightarrow> (Inl e, s)
       | Inr orderItems \<Rightarrow>
         let orderMilestones = map_option (map order_milestone_of) (co_milestones dto);
             totalAmount = sum_by it_subtotal orderItems
         in if totalAmount \<le> 0
            then (Inl (BadRequestException [Txt ''Order total amount must be greater than zero'']), s)
            else
              let totalMilestoneAmount = map_option (sum_by om_amount) orderMilestones
              in if truthy_num totalMilestoneAmount \<and> or_num totalMilestoneAmount 0 > totalAmount
                 then (Inl (BadRequestException [Txt ''Total milestone amount cannot exceed order total'']), s)
                 else
                   and_then (save_order (new_order oid now dto paymentCurrency orderItems totalAmount) s)
                     (\<lambda>savedOrder s1.
                        and_then (for_each (reserve_line (o_buyerId savedOrder) now) (o_items savedOrder) s1)
                          (\<lambda>_ s2. (Inr savedOrder, notify_massive savedOrder s2))))"

subsection \<open>Cancelling, finding, moving on\<close>

definition release_line :: "uuid \<Rightarrow> time \<Rightarrow> order_item \<Rightarrow> db \<Rightarrow> (unit, db) result" where
  "release_line userId now item s =
     and_then (releaseInventory (it_productId item) userId (it_quantity item) True now s) (\<lambda>_ t. (Inr (), t))"

definition cancelOrder :: "uuid \<Rightarrow> uuid \<Rightarrow> time \<Rightarrow> db \<Rightarrow> (order_row, db) result" where
  "cancelOrder oid userId now =
     transaction (\<lambda>s.
       case tbl_find o_id oid (orders s) of
         None \<Rightarrow> (Inl (BadRequestException [Txt ''Order not found or unauthorized'']), s)
       | Some order \<Rightarrow>
         if o_buyerId order \<noteq> userId
         then (Inl (BadRequestException [Txt ''Order not found or unauthorized'']), s)
         else if o_status order = OS_CANCELLED
         then (Inl (BadRequestException [Txt ''Order is already cancelled'']), s)
         else
           and_then (for_each (release_line userId now) (o_items order) s)
             (\<lambda>_ s1. save_order (order\<lparr>o_status := OS_CANCELLED, o_cancelledAt := Some now\<rparr>) s1))"

definition findAll_orders :: "uuid option \<Rightarrow> db \<Rightarrow> order_row list" where
  "findAll_orders buyerId s =
     rev (sort_key o_createdAt
       (if truthy_text buyerId then filter (\<lambda>ord. Some (o_buyerId ord) = buyerId) (orders s) else orders s))"

definition findOne_order :: "uuid \<Rightarrow> db \<Rightarrow> error + order_row" where
  "findOne_order oid s =
     (case tbl_find o_id oid (orders s) of
        None \<Rightarrow> Inl (NotFoundException [Txt ''Order with ID '', Txt oid, Txt '' not found''])
      | Some order \<Rightarrow> Inr order)"

definition order_number :: "uuid \<Rightarrow> string" where
  "order_number oid = ''ORD-'' @ take 8 oid"

definition updateStatus :: "uuid \<Rightarrow> order_status \<Rightarrow> time \<Rightarrow> db \<Rightarrow> (order_row, db) result" where
  "updateStatus oid newStatus now s =
     (case findOne_order oid s of
        Inl e \<Rightarrow> (Inl e, s)
      | Inr order \<Rightarrow>
        let previousStatus = o_status order in
        case validate orderTransitionValidator previousStatus newStatus of
          Inl e \<Rightarrow> (Inl e, s)
        | Inr _ \<Rightarrow>
          and_then
            (if newStatus = OS_PAID
             then and_then (confirmOrder order now s)
                    (\<lambda>_ t. (Inr (order\<lparr>o_paymentStatus := PS_PAID, o_confirmedAt := Some now\<rparr>), t))
             else if newStatus = OS_CANCELLED
             then and_then (cancelOrder_inventory order now s)
                    (\<lambda>_ t. (Inr (order\<lparr>o_cancelledAt := Some now\<rparr>), t))
             else (Inr (case newStatus of
                      OS_SHIPPED \<Rightarrow> order\<lparr>o_shippedAt := Some now\<rparr>
                    | OS_DELIVERED \<Rightarrow> order\<lparr>o_deliveredAt := Some now\<rparr>
                    | _ \<Rightarrow> order), s))
            (\<lambda>order s1.
               and_then (save_order (order\<lparr>o_status := newStatus\<rparr>) s1)
                 (\<lambda>updatedOrder s2.
                    let s3 = emit (OrderUpdatedEvent (o_id updatedOrder) (o_buyerId updatedOrder)
                               (order_number (o_id updatedOrder)) (o_status updatedOrder) previousStatus) s2;
                        s4 = (if newStatus = OS_COMPLETED
                              then emit (OrderCompletedEvent (o_id updatedOrder) (o_buyerId updatedOrder)
                                     (order_number (o_id updatedOrder)) (o_totalAmount updatedOrder)) s3
                              else s3)
                    in (Inr updatedOrder, s4))))"

subsection \<open>Order rows\<close>

lemma save_order_Inr:
  "save_order r s = (Inr x, t) \<longleftrightarrow>
   x = r \<and> write_order r = Inr (rounded_order r) \<and> t = s\<lparr>orders := tbl_save o_id (rounded_order r) (orders s)\<rparr>"
  by (auto simp: save_order_def write_order_def)

lemma rounded_order_simps [simp]:
  "o_id (rounded_order r) = o_id r" "o_items (rounded_order r) = o_items r"
  "o_status (rounded_order r) = o_status r" "o_buyerId (rounded_order r) = o_buyerId r"
  "o_currency (rounded_order r) = o_currency r" "o_paymentStatus (rounded_order r) = o_paymentStatus r"
  "o_deliveredAt (rounded_order r) = o_deliveredAt r"
  "rounded_order (rounded_order r) = rounded_order r"
  by (simp_all add: rounded_order_def)

definition stored :: "order_row \<Rightarrow> bool" where
  "stored r \<longleftrightarrow> write_order r = Inr r"

lemma stored_rounded: "write_order r = Inr x \<Longrightarrow> x = rounded_order r \<and> stored x"
  by (auto simp: stored_def write_order_def order_amounts_def split: if_splits)

lemma stored_keeps:
  assumes "stored r" and "order_amounts r' = order_amounts r" and "o_currency r' = o_currency r"
  shows "stored r'"
proof -
  have amounts: "order_amounts (rounded_order x) = map (round_to 2) (order_amounts x)" for x
    by (simp add: order_amounts_def rounded_order_def)
  have fixed: "rounded_order x = x \<longleftrightarrow> map (round_to 2) (order_amounts x) = order_amounts x" for x
    by (cases x) (auto simp: order_amounts_def rounded_order_def)
  from assms(1) have "rounded_order r = r" and "\<not> length (currency_code (o_currency r)) > 3"
    and "\<not> (\<exists>a \<in> set (order_amounts (rounded_order r)). 10 ^ 10 \<le> \<bar>a\<bar>)"
    by (auto simp: stored_def write_order_def split: if_splits)
  then show ?thesis using assms(2,3) by (simp add: stored_def write_order_def amounts fixed)
qed

lemma save_stored:
  "stored r \<Longrightarrow> save_order r s = (Inr r, s\<lparr>orders := tbl_save o_id r (orders s)\<rparr>)"
  by (simp add: stored_def save_order_def)

subsection \<open>The stock loops of an order\<close>

lemma line_steps:
  "completed (reserve_line user now item s) = checkout_move user now (Reserve (it_productId item) (it_quantity item)) s"
  "completed (release_line user now item s) = checkout_move user now (Release (it_productId item) (it_quantity item)) s"
  by (auto simp: reserve_line_def release_line_def completed_def and_then_def reserveInventory_def
      releaseInventory_def transaction_def split: sum.splits prod.splits)

lemma line_loops:
  "completed (for_each (reserve_line user now) items s) = move_all (checkout_move user now)
     (map (\<lambda>i. Reserve (fst i) (snd i)) (map (\<lambda>i. (it_productId i, it_quantity i)) items)) s"
  "completed (for_each (release_line user now) items s) = move_all (checkout_move user now)
     (map (\<lambda>i. Release (fst i) (snd i)) (map (\<lambda>i. (it_productId i, it_quantity i)) items)) s"
  by (rule completed_for_each; rule line_steps)+

lemma lines_keep_orders:
  "orders (snd (for_each (reserve_line user now) items s)) = orders s"
  "orders (snd (for_each (release_line user now) items s)) = orders s"
proof -
  have r: "orders (snd (reserve_line user now i t)) = orders t" for i t
    by (auto simp: reserve_line_def reserveInventory_def reserve_work_def and_then_def Let_def
        split: option.splits)
  have l: "orders (snd (release_line user now i t)) = orders t" for i t
    by (auto simp: release_line_def releaseInventory_def release_work_def and_then_def Let_def
        split: option.splits)
  show "orders (snd (for_each (reserve_line user now) items s)) = orders s"
    by (rule for_each_keeps [where Q = "\<lambda>t. orders t = orders s"]) (simp_all add: r)
  show "orders (snd (for_each (release_line user now) items s)) = orders s"
    by (rule for_each_keeps [where Q = "\<lambda>t. orders t = orders s"]) (simp_all add: l)
qed

lemma notify_massive_simps [simp]:
  "orders (notify_massive r s) = orders s" "products (notify_massive r s) = products s"
  by (simp_all add: notify_massive_def)

lemma product_stock_cong: "products s = products t \<Longrightarrow> product_stock s = product_stock t"
  by (simp add: product_stock_def fun_eq_iff)

text \<open>What a completed creation did.\<close>

lemma create_order_steps:
  assumes "create_order rates oid now dto s = (Inr r, t)"
  obtains cur items u where "cur = coalesce (co_paymentCurrency dto) USD"
    and "order_lines rates cur (co_items dto) (shop s) = Inr items"
    and "r = new_order oid now dto cur items (sum_by it_subtotal items)"
    and "0 < sum_by it_subtotal items" and "write_order r = Inr (rounded_order r)"
    and "for_each (reserve_line (co_buyerId dto) now) items
      (s\<lparr>orders := tbl_save o_id (rounded_order r) (orders s)\<rparr>) = (Inr (), u)"
    and "t = notify_massive r u"
    and "\<And>ms. co_milestones dto = Some ms \<Longrightarrow> sum_by cm_amount ms \<le> sum_by it_subtotal items"
proof -
  define cur where "cur = coalesce (co_paymentCurrency dto) USD"
  from assms obtain items where lines: "order_lines rates cur (co_items dto) (shop s) = Inr items"
    unfolding create_order_def transaction_Inr_iff by (auto simp: Let_def cur_def split: sum.splits)
  define total where "total = sum_by it_subtotal items"
  have sums: "sum_by om_amount (map order_milestone_of ms) = sum_by cm_amount ms" for ms
    by (induction ms) (simp_all add: order_milestone_of_def)
  from assms lines have pos: "0 < total"
    and ms: "\<And>ms. co_milestones dto = Some ms \<Longrightarrow> sum_by cm_amount ms \<le> total"
    and rest: "and_then (save_order (new_order oid now dto cur items total) s) (\<lambda>savedOrder s1.
        and_then (for_each (reserve_line (o_buyerId savedOrder) now) (o_items savedOrder) s1)
          (\<lambda>_ s2. (Inr savedOrder, notify_massive savedOrder s2))) = (Inr r, t)"
    unfolding create_order_def transaction_Inr_iff
    by (auto simp: Let_def cur_def total_def sums not_le not_less split: if_splits option.splits)
  have r: "r = new_order oid now dto cur items total"
    using rest by (auto simp: and_then_Inr_iff save_order_Inr)
  obtain u where "write_order r = Inr (rounded_order r)"
    and "for_each (reserve_line (co_buyerId dto) now) items
      (s\<lparr>orders := tbl_save o_id (rounded_order r) (orders s)\<rparr>) = (Inr (), u)"
    and "t = notify_massive r u"
    using rest by (auto simp: and_then_Inr_iff save_order_Inr r) (auto simp: new_order_def)
  with that [OF cur_def lines] r pos ms show ?thesis by (auto simp: total_def)
qed

lemma order_lines_facts:
  assumes "order_lines rates cur is c = Inr items"
  shows "map (\<lambda>i. (it_productId i, it_quantity i)) items = map (\<lambda>i. (ci_productId i, ci_quantity i)) is"
    and "\<forall>i \<in> set items. it_priceCurrency i = cur \<and> it_subtotal i = it_price i * of_int (it_quantity i)"
  using assms
  by (induction "is" arbitrary: items)
    (auto simp: order_line_def Let_def split: sum.splits option.splits if_splits)

text \<open>A line of an order is at the price, in the currency and under the name the catalogue has for its product.\<close>

definition priced_from :: "catalog \<Rightarrow> currency \<Rightarrow> create_order_item_dto \<Rightarrow> order_item \<Rightarrow> bool" where
  "priced_from c cur i l \<longleftrightarrow> (\<exists>p. tbl_find cp_id (ci_productId i) (cat_products c) = Some p \<and> it_productId l = ci_productId i \<and>
     it_quantity l = ci_quantity i \<and> it_productName l = cp_name p \<and> it_price l = price_number (cp_price p) \<and>
     it_priceCurrency l = cp_currency p \<and> cp_currency p = cur)"

lemma order_lines_priced: "order_lines rates cur xs c = Inr items \<Longrightarrow> list_all2 (priced_from c cur) xs items"
proof (induction xs arbitrary: items)
  case (Cons x xs)
  then obtain l ls where l: "order_line rates cur x c = Inr l" and "order_lines rates cur xs c = Inr ls" "items = l # ls"
    by (auto split: sum.splits)
  moreover have "priced_from c cur x l" using l
    unfolding order_line_def findOneProduct_def toDisplayProduct_def priced_from_def
    by (auto simp: Let_def split: sum.splits option.splits if_splits)
  ultimately show ?case using Cons.IH by simp
qed simp

text \<open>
  Property C9: when the figures of every product are settled before (available is quantity minus
  reserved, nothing negative in reserve) and no quantity asked for is negative, a completed order
  creation stores one new pending, unpaid order with one line per requested item, of that product and
  quantity, at the price and in the currency the catalogue has for the product, which is the order's
  currency; its total is the positive sum of price times quantity, and its milestones add up to no
  more than that total; every product has exactly the ordered amount more in reserve (an item that
  occurs twice counts twice) and no other order row changes.
\<close>

theorem create_order_effect:
  assumes "create_order rates oid now dto s = (Inr r, t)" and "all_settled (product_stock s)"
    and "\<forall>i \<in> set (co_items dto). 0 \<le> ci_quantity i"
  shows "o_id r = oid \<and> o_status r = OS_PENDING \<and> o_paymentStatus r = PS_UNPAID \<and>
    o_buyerId r = co_buyerId dto \<and> o_currency r = coalesce (co_paymentCurrency dto) USD \<and>
    list_all2 (priced_from (shop s) (o_currency r)) (co_items dto) (o_items r) \<and>
    o_totalAmount r = sum_by (\<lambda>i. it_price i * of_int (it_quantity i)) (o_items r) \<and>
    0 < o_totalAmount r \<and> o_releasedAmount r = 0 \<and> o_remainingAmount r = o_totalAmount r \<and>
    (\<forall>ms. co_milestones dto = Some ms \<longrightarrow> sum_by cm_amount ms \<le> o_totalAmount r) \<and>
    tbl_find o_id oid (orders t) = Some (rounded_order r) \<and>
    (\<forall>k. k \<noteq> oid \<longrightarrow> tbl_find o_id k (orders t) = tbl_find o_id k (orders s)) \<and>
    product_stock t = (\<lambda>p. map_option (after_reserve (ordered p (order_quantities r))) (product_stock s p))"
proof -
  from assms(1) obtain cur items u where run: "cur = coalesce (co_paymentCurrency dto) USD"
    "order_lines rates cur (co_items dto) (shop s) = Inr items"
    and r: "r = new_order oid now dto cur items (sum_by it_subtotal items)"
    and pos: "0 < sum_by it_subtotal items" and w: "write_order r = Inr (rounded_order r)"
    and loop: "for_each (reserve_line (co_buyerId dto) now) items
      (s\<lparr>orders := tbl_save o_id (rounded_order r) (orders s)\<rparr>) = (Inr (), u)"
    and t: "t = notify_massive r u"
    and ms: "\<And>ms. co_milestones dto = Some ms \<Longrightarrow> sum_by cm_amount ms \<le> sum_by it_subtotal items"
    by (rule create_order_steps) blast
  note lines = order_lines_facts [OF run(2)]
  have ou: "orders u = tbl_save o_id (rounded_order r) (orders s)"
    using lines_keep_orders(1) [of "co_buyerId dto" now items "s\<lparr>orders := tbl_save o_id (rounded_order r) (orders s)\<rparr>"]
    by (simp add: loop)
  have total: "sum_by it_subtotal items = sum_by (\<lambda>i. it_price i * of_int (it_quantity i)) items"
    using lines(2) by (auto simp: sum_by_def cong: map_cong)
  let ?s = "s\<lparr>orders := tbl_save o_id (rounded_order r) (orders s)\<rparr>"
  have qs: "\<forall>i \<in> set (order_quantities r). 0 \<le> snd i"
    using assms(3) lines(1) by (auto simp: order_quantities_def r new_order_def dest!: arg_cong [where f = set])
  have "move_all (checkout_move (co_buyerId dto) now) (map (\<lambda>i. Reserve (fst i) (snd i)) (order_quantities r)) ?s = Some u"
    using line_loops(1) [of "co_buyerId dto" now items ?s] loop by (simp add: order_quantities_def r new_order_def)
  from checkout.reserve_all(1) [OF _ qs this] assms(2)
  have "product_stock u = (\<lambda>p. map_option (after_reserve (ordered p (order_quantities r))) (product_stock s p))"
    using product_stock_cong [of ?s s] by simp
  moreover have "product_stock t = product_stock u" by (rule product_stock_cong) (simp add: t)
  ultimately show ?thesis
    using order_lines_priced [OF run(2)] run(1) pos ou t ms by (auto simp: r new_order_def total)
qed

text \<open>A sample shop: one catalogue product with its stock row.\<close>

definition sample_product :: "currency \<Rightarrow> string \<Rightarrow> string \<Rightarrow> catalog_product" where
  "sample_product c price minor = \<lparr>cp_id = ''p'', cp_sellerId = ''s'', cp_name = ''Lamp'', cp_category = ''home'',
     cp_basePrice = price, cp_basePriceMinor = minor, cp_baseCurrency = c, cp_price = price,
     cp_priceMinor = minor, cp_currency = c, cp_description = None, cp_images = [],
     cp_createdAt = 0, cp_updatedAt = 0, cp_priceHistory = []\<rparr>"

definition sample_shop :: "currency \<Rightarrow> string \<Rightarrow> string \<Rightarrow> db" where
  "sample_shop c price minor = (shelf 10)\<lparr>shop := empty_catalog\<lparr>cat_products := [sample_product c price minor]\<rparr>\<rparr>"

definition sample_order_dto :: "currency \<Rightarrow> create_order_dto" where
  "sample_order_dto c = \<lparr>co_items = [\<lparr>ci_productId = ''p'', ci_quantity = 3\<rparr>], co_buyerId = ''b'',
     co_shippingAddress = None, co_paymentCurrency = Some c, co_milestones = None, co_escrowType = None\<rparr>"

lemma unit_rate: "parseDecimal ''1.0000000'' = Inr \<lparr>dv_int = 10000000, dv_scale = 7\<rparr>"
  using default_rates_read(1) by simp

lemma sample_line:
  assumes "toMinorUnitsFromString price c = Inr m" and "read_number price = Some r" and "0 < r"
    and "length (currency_code c) \<le> 3" and "r < 1000000000"
  shows "\<exists>x t. create_order (\<lambda>_. ''1.0000000'') ''o'' 0 (sample_order_dto c) (sample_shop c price minor) = (Inr x, t) \<and>
    o_totalAmount x = 3 * r"
proof -
  have conv: "convertMinorUnits (\<lambda>_. ''1.0000000'') m c c = Inr m" for m
    by (rule same_currency_exact [where d = "\<lparr>dv_int = 10000000, dv_scale = 7\<rparr>"])
      (simp_all add: unit_rate)
  have "round_to 2 (r * 3) < 10 ^ 10" "- round_to 2 (r * 3) < 10 ^ 10"
  proof -
    have "\<lfloor>r * 3 * 10 ^ 2 + 1 / 2\<rfloor> < 10 ^ 12" unfolding floor_less_iff using assms(5) by simp
    then have "(of_int \<lfloor>r * 3 * 10 ^ 2 + 1 / 2\<rfloor> :: number) < of_int (10 ^ 12)"
      by (simp only: of_int_less_iff)
    moreover have "(0 :: number) \<le> of_int \<lfloor>r * 3 * 10 ^ 2 + 1 / 2\<rfloor>" using assms(3) by simp
    ultimately show "round_to 2 (r * 3) < 10 ^ 10" "- round_to 2 (r * 3) < 10 ^ 10"
      using assms(3) by (simp_all add: round_to_def) linarith
  qed
  then show ?thesis
    using assms conv
    by (simp add: create_order_def transaction_def sample_order_dto_def sample_shop_def shelf_def empty_db_def
        order_line_def findOneProduct_def toDisplayProduct_def sample_product_def Let_def getConversionRate_def
        convertAmountToString_def minor_of_arg_def price_number_def save_order_def write_order_def new_order_def
        rounded_order_def order_amounts_def reserve_line_def reserveInventory_def reserve_work_def
        save_product_def log_change_def emit_def notify_massive_def abs_less_iff not_le)
qed

lemma sample_lamp: "\<exists>x t. create_order (\<lambda>_. ''1.0000000'') ''o'' 0 (sample_order_dto USD)
    (sample_shop USD ''20'' ''2000'') = (Inr x, t) \<and> o_totalAmount x = 3 * 20"
proof (rule sample_line)
  show "toMinorUnitsFromString ''20'' USD = Inr 2000"
    by (simp add: toMinorUnitsFromString_def parseDecimal_def text_eval getCurrencyPrecision_def pow10_def)
  show "read_number ''20'' = Some 20"
    by (simp add: read_number_def text_value_def text_eval)
qed simp_all

lemma sample_shop_settled: "all_settled (product_stock (sample_shop c price minor))"
proof -
  have "product_stock (sample_shop c price minor) = product_stock (shelf 10)"
    by (rule product_stock_cong) (simp add: sample_shop_def)
  then show ?thesis using balanced_settled [OF shelf_balanced [of 10]] by simp
qed

theorem create_order_effect_witness:
  "\<exists>x t. create_order (\<lambda>_. ''1.0000000'') ''o'' 0 (sample_order_dto USD) (sample_shop USD ''20'' ''2000'') = (Inr x, t) \<and>
     o_status x = OS_PENDING \<and> o_totalAmount x = 60 \<and> tbl_find o_id ''o'' (orders t) = Some (rounded_order x)"
proof -
  from sample_lamp obtain x t where run: "create_order (\<lambda>_. ''1.0000000'') ''o'' 0 (sample_order_dto USD)
      (sample_shop USD ''20'' ''2000'') = (Inr x, t)" and total: "o_totalAmount x = 3 * 20" by blast
  have "\<forall>i \<in> set (co_items (sample_order_dto USD)). 0 \<le> ci_quantity i" by (simp add: sample_order_dto_def)
  from create_order_effect [OF run sample_shop_settled this] run total show ?thesis by auto
qed

text \<open>
  Property C35: a creation that throws, for whatever reason and however many items it had
  already reserved, leaves no order row, no reservation and no history entry behind; and an
  order in USDC always throws, since the column that holds an order's currency takes three
  characters.
\<close>

theorem create_order_all_or_nothing:
  "(case create_order rates oid now dto s of
      (Inl e, t) \<Rightarrow> orders t = orders s \<and> products t = products s \<and> inv_history t = inv_history s
    | (Inr r, t) \<Rightarrow> o_currency r \<noteq> USDC) \<and>
   (co_paymentCurrency dto = Some USDC \<longrightarrow> (\<exists>e. fst (create_order rates oid now dto s) = Inl e))"
proof -
  have usdc: "o_currency r \<noteq> USDC" if run: "create_order rates oid now dto s = (Inr r, t)" for r t
  proof -
    from run obtain u where "write_order r = Inr (rounded_order r)"
      by (rule create_order_steps) blast
    then show ?thesis by (auto simp: write_order_def split: if_splits)
  qed
  moreover have "\<exists>e. fst (create_order rates oid now dto s) = Inl e" if "co_paymentCurrency dto = Some USDC"
  proof (cases "create_order rates oid now dto s")
    case (Pair x t)
    have "o_currency r = USDC" if "x = Inr r" for r
    proof -
      from Pair that have "create_order rates oid now dto s = (Inr r, t)" by simp
      then show ?thesis
        by (rule create_order_steps) (simp add: new_order_def \<open>co_paymentCurrency dto = Some USDC\<close>)
    qed
    with usdc Pair show ?thesis by (cases x) auto
  qed
  ultimately show ?thesis
    using rolled_back_when_thrown [of _ s] unfolding create_order_def
    by (auto split: prod.splits sum.splits)
qed

theorem create_order_all_or_nothing_witness:
  "\<exists>e. fst (create_order (\<lambda>_. ''1.0000000'') ''o'' 0 (sample_order_dto USDC) empty_db) = Inl e"
  using create_order_all_or_nothing [where rates = "\<lambda>_. ''1.0000000''" and oid = "''o''" and now = 0
      and dto = "sample_order_dto USDC" and s = empty_db]
  by (simp add: sample_order_dto_def)

lemma cancelOrder_completes:
  assumes "tbl_find o_id oid (orders s) = Some order" and "o_status order \<noteq> OS_CANCELLED"
    and "stored order" and "\<forall>i \<in> set (o_items order). tbl_find p_id (it_productId i) (products s) \<noteq> None"
  obtains r u where "cancelOrder oid (o_buyerId order) now s = (Inr r, u)"
    and "r = order\<lparr>o_status := OS_CANCELLED, o_cancelledAt := Some now\<rparr>"
    and "orders u = tbl_save o_id r (orders s)"
    and "all_settled (product_stock s) \<longrightarrow> (\<forall>i \<in> set (o_items order). 0 \<le> it_quantity i) \<longrightarrow>
      product_stock u = (\<lambda>p. map_option (after_release (ordered p (order_quantities order))) (product_stock s p))"
proof -
  define r where "r = order\<lparr>o_status := OS_CANCELLED, o_cancelledAt := Some now\<rparr>"
  have r: "stored r" by (rule stored_keeps [OF assms(3)]) (simp_all add: r_def order_amounts_def)
  have present: "\<forall>i \<in> set (order_quantities order). product_stock s (fst i) \<noteq> None"
    using assms(4) by (auto simp: order_quantities_def product_stock_def)
  then obtain v where "move_all (checkout_move (o_buyerId order) now)
      (map (\<lambda>i. Release (fst i) (snd i)) (order_quantities order)) s = Some v"
    using checkout.release_completes_iff [of "o_buyerId order" now "order_quantities order" s] by blast
  then have "completed (for_each (release_line (o_buyerId order) now) (o_items order) s) = Some v"
    by (simp only: line_loops(2) order_quantities_def)
  then have v: "for_each (release_line (o_buyerId order) now) (o_items order) s = (Inr (), v)"
    by (simp add: completed_Some_iff)
  define u where "u = v\<lparr>orders := tbl_save o_id r (orders v)\<rparr>"
  have ov: "orders v = orders s" using lines_keep_orders(2) [of "o_buyerId order" now "o_items order" s] v by simp
  have run: "cancelOrder oid (o_buyerId order) now s = (Inr r, u)"
    unfolding cancelOrder_def transaction_Inr_iff
    using assms(1,2) v save_stored [OF r, of v] by (simp add: u_def r_def)
  have "product_stock u = (\<lambda>p. map_option (after_release (ordered p (order_quantities order))) (product_stock s p))"
    if settled: "all_settled (product_stock s)" and qs: "\<forall>i \<in> set (o_items order). 0 \<le> it_quantity i"
  proof -
    have "\<forall>i \<in> set (order_quantities order). 0 \<le> snd i" using qs by (auto simp: order_quantities_def)
    from checkout.release_all [OF settled this present, of "o_buyerId order" now]
    have "product_stock v = (\<lambda>p. map_option (after_release (ordered p (order_quantities order))) (product_stock s p))"
      using line_loops(2) [of "o_buyerId order" now "o_items order" s] v by (auto simp: order_quantities_def)
    moreover have "product_stock u = product_stock v" by (rule product_stock_cong) (simp add: u_def)
    ultimately show ?thesis by simp
  qed
  with that [OF run] show ?thesis by (simp add: r_def u_def ov)
qed

text \<open>The state an order leaves that was created: its row, and its items reserved.\<close>

lemma create_order_reserves:
  assumes "create_order rates oid now dto s = (Inr r, t)" and "all_settled (product_stock s)"
    and "\<forall>i \<in> set (co_items dto). 0 \<le> ci_quantity i"
  obtains order where "tbl_find o_id oid (orders t) = Some order" "o_status order = OS_PENDING"
    "o_buyerId order = co_buyerId dto" "stored order" "all_settled (product_stock t)"
    "\<forall>i \<in> set (o_items order). tbl_find p_id (it_productId i) (products t) \<noteq> None"
    "\<forall>i \<in> set (o_items order). 0 \<le> it_quantity i"
    "product_stock t = (\<lambda>p. map_option (after_reserve (ordered p (order_quantities order))) (product_stock s p))"
proof -
  from assms(1) obtain items u where r: "r = new_order oid now dto (coalesce (co_paymentCurrency dto) USD) items (sum_by it_subtotal items)"
    and lines: "order_lines rates (coalesce (co_paymentCurrency dto) USD) (co_items dto) (shop s) = Inr items"
    and w: "write_order r = Inr (rounded_order r)"
    and loop: "for_each (reserve_line (co_buyerId dto) now) items
      (s\<lparr>orders := tbl_save o_id (rounded_order r) (orders s)\<rparr>) = (Inr (), u)" and t: "t = notify_massive r u"
    by (rule create_order_steps) blast
  let ?s = "s\<lparr>orders := tbl_save o_id (rounded_order r) (orders s)\<rparr>"
  have fields: "o_id r = oid" "o_status r = OS_PENDING" "o_buyerId r = co_buyerId dto" "o_items r = items"
    by (simp_all add: r new_order_def)
  have "map fst (order_quantities r) = map ci_productId (co_items dto)"
    and quantities: "map snd (order_quantities r) = map ci_quantity (co_items dto)"
    using order_lines_facts(1) [OF lines, THEN arg_cong [where f = "map fst"]]
      order_lines_facts(1) [OF lines, THEN arg_cong [where f = "map snd"]]
    by (simp_all add: order_quantities_def fields comp_def)
  have qs: "\<forall>i \<in> set (order_quantities r). 0 \<le> snd i"
    using assms(3) quantities by (metis (no_types, lifting) image_eqI image_iff list.set_map)
  have moves: "move_all (checkout_move (co_buyerId dto) now) (map (\<lambda>i. Reserve (fst i) (snd i)) (order_quantities r)) ?s = Some u"
    using line_loops(1) [of "co_buyerId dto" now items ?s] loop by (simp add: order_quantities_def fields)
  have settled: "all_settled (product_stock ?s)" using assms(2) product_stock_cong [of ?s s] by simp
  note reserved = checkout.reserve_all [OF settled qs moves]
  have stock: "product_stock ?s = product_stock s" "product_stock t = product_stock u"
    by (rule product_stock_cong, simp add: t)+
  have "orders u = tbl_save o_id (rounded_order r) (orders s)"
    using lines_keep_orders(1) [of "co_buyerId dto" now items ?s] loop by simp
  then have found: "tbl_find o_id oid (orders t) = Some (rounded_order r)" by (simp add: t fields)
  have present: "\<forall>i \<in> set (o_items (rounded_order r)). tbl_find p_id (it_productId i) (products t) \<noteq> None"
    using reserved(3) unfolding stock(2) [symmetric] by (auto simp: order_quantities_def product_stock_def)
  have nonneg: "\<forall>i \<in> set (o_items (rounded_order r)). 0 \<le> it_quantity i"
    using qs by (auto simp: order_quantities_def)
  have st: "all_settled (product_stock t)" using reserved(2) stock(2) by simp
  have kept: "stored (rounded_order r)" using stored_rounded [OF w] by simp
  have same: "order_quantities (rounded_order r) = order_quantities r" by (simp add: order_quantities_def)
  show ?thesis
    by (rule that [OF found _ _ kept st present nonneg]) (simp_all add: fields same stock reserved(1))
qed

text \<open>
  Property C6: when the figures of every product are settled before (available is quantity minus
  reserved, nothing negative in reserve) and no quantity asked for is negative, cancelling an order
  that was created, as its buyer and before anything else happens, always completes, marks the order
  cancelled, and gives every product exactly the figures it had before the order.
\<close>

theorem create_then_cancel_restores_stock:
  assumes "create_order rates oid now dto s = (Inr r, t)" and "all_settled (product_stock s)"
    and "\<forall>i \<in> set (co_items dto). 0 \<le> ci_quantity i"
  shows "\<exists>c u. cancelOrder oid (co_buyerId dto) later t = (Inr c, u) \<and> o_status c = OS_CANCELLED \<and>
    tbl_find o_id oid (orders u) = Some c \<and> product_stock u = product_stock s"
proof -
  obtain order where found: "tbl_find o_id oid (orders t) = Some order" and open_order: "o_status order = OS_PENDING"
    and buyer: "o_buyerId order = co_buyerId dto" and kept: "stored order" and st: "all_settled (product_stock t)"
    and present: "\<forall>i \<in> set (o_items order). tbl_find p_id (it_productId i) (products t) \<noteq> None"
    and nonneg: "\<forall>i \<in> set (o_items order). 0 \<le> it_quantity i"
    and reserved: "product_stock t = (\<lambda>p. map_option (after_reserve (ordered p (order_quantities order))) (product_stock s p))"
    by (rule create_order_reserves [OF assms])
  from open_order have "o_status order \<noteq> OS_CANCELLED" by simp
  then obtain c v where run: "cancelOrder oid (o_buyerId order) later t = (Inr c, v)"
    and c: "c = order\<lparr>o_status := OS_CANCELLED, o_cancelledAt := Some later\<rparr>"
    and ov: "orders v = tbl_save o_id c (orders t)"
    and pv: "all_settled (product_stock t) \<longrightarrow> (\<forall>i \<in> set (o_items order). 0 \<le> it_quantity i) \<longrightarrow>
      product_stock v = (\<lambda>p. map_option (after_release (ordered p (order_quantities order))) (product_stock t p))"
    by (rule cancelOrder_completes [OF found _ kept present, of later]) blast
  have "map_option (after_release n) (map_option (after_reserve n) (product_stock s p)) = product_stock s p" for p n
    using assms(2) by (cases "product_stock s p") (auto simp: all_settled_def reserve_release_settled)
  then have "product_stock v = product_stock s"
    using pv st nonneg by (simp add: reserved fun_eq_iff del: option.map_comp)
  with run c ov buyer tbl_find_key [OF found] show ?thesis by auto
qed

theorem create_then_cancel_restores_stock_witness:
  "\<exists>x t c u. create_order (\<lambda>_. ''1.0000000'') ''o'' 0 (sample_order_dto USD) (sample_shop USD ''20'' ''2000'') = (Inr x, t) \<and>
     cancelOrder ''o'' (co_buyerId (sample_order_dto USD)) 5 t = (Inr c, u) \<and>
     product_stock u = product_stock (sample_shop USD ''20'' ''2000'')"
proof -
  from sample_lamp obtain x t where run: "create_order (\<lambda>_. ''1.0000000'') ''o'' 0 (sample_order_dto USD)
      (sample_shop USD ''20'' ''2000'') = (Inr x, t)" by blast
  have "\<forall>i \<in> set (co_items (sample_order_dto USD)). 0 \<le> ci_quantity i" by (simp add: sample_order_dto_def)
  from create_then_cancel_restores_stock [OF run sample_shop_settled this, of 5] run show ?thesis by blast
qed

text \<open>
  The buyer can cancel an order in every status but cancelled as long as its
  products still have stock rows, although the order table of the same service allows no
  cancellation of a delivered, completed or refunded order.
\<close>

lemma cancel_bypasses_table:
  assumes "tbl_find o_id oid (orders s) = Some order" and "o_status order \<noteq> OS_CANCELLED"
    and "stored order" and "\<forall>i \<in> set (o_items order). tbl_find p_id (it_productId i) (products s) \<noteq> None"
  shows "(\<exists>r u. cancelOrder oid (o_buyerId order) now s = (Inr r, u) \<and> o_status r = OS_CANCELLED \<and>
      tbl_find o_id oid (orders u) = Some r) \<and>
    (o_status order \<in> {OS_DELIVERED, OS_COMPLETED, OS_REFUNDED} \<longrightarrow>
      \<not> isValid orderTransitionValidator (o_status order) OS_CANCELLED)"
proof
  show "\<exists>r u. cancelOrder oid (o_buyerId order) now s = (Inr r, u) \<and> o_status r = OS_CANCELLED \<and>
      tbl_find o_id oid (orders u) = Some r"
    using cancelOrder_completes [OF assms, of now] tbl_find_key [OF assms(1)] by fastforce
  show "o_status order \<in> {OS_DELIVERED, OS_COMPLETED, OS_REFUNDED} \<longrightarrow>
      \<not> isValid orderTransitionValidator (o_status order) OS_CANCELLED"
    by (auto simp: isValid_def)
qed

lemma sample_order_stored: "stored (sample_order\<lparr>o_status := st\<rparr>)"
proof -
  have "round_to 2 30 = 30" using round_to_exact [of 2 3000] by simp
  then show ?thesis
    by (simp add: stored_def write_order_def rounded_order_def order_amounts_def sample_order_def)
qed

theorem cancel_bypasses_table_witness:
  "\<exists>r u. cancelOrder ''o'' ''b'' 0 ((shelf 10)\<lparr>orders := [sample_order\<lparr>o_status := OS_COMPLETED\<rparr>]\<rparr>) = (Inr r, u) \<and>
     o_status r = OS_CANCELLED"
  using cancel_bypasses_table [of "''o''" "(shelf 10)\<lparr>orders := [sample_order\<lparr>o_status := OS_COMPLETED\<rparr>]\<rparr>"
      "sample_order\<lparr>o_status := OS_COMPLETED\<rparr>" 0] sample_order_stored [of OS_COMPLETED]
  by (auto simp: sample_items shelf_def) (auto simp: sample_order_def)

subsection \<open>Moving along the table\<close>

lemma items_keep_orders:
  "orders (snd (confirm_item order now i t)) = orders t" "orders (snd (cancel_item order now i t)) = orders t"
  by (auto simp: confirm_item_def cancel_item_def Let_def split: option.splits)

lemma stock_keeps_orders:
  "orders (snd (confirmOrder order now s)) = orders s"
  "orders (snd (cancelOrder_inventory order now s)) = orders s"
proof -
  have c: "orders (snd (for_each (confirm_item order now) is s)) = orders s" for "is"
    by (rule for_each_keeps [where Q = "\<lambda>t. orders t = orders s"]) (simp_all add: items_keep_orders)
  have x: "orders (snd (for_each (cancel_item order now) is s)) = orders s" for "is"
    by (rule for_each_keeps [where Q = "\<lambda>t. orders t = orders s"]) (simp_all add: items_keep_orders)
  show "orders (snd (confirmOrder order now s)) = orders s"
    "orders (snd (cancelOrder_inventory order now s)) = orders s"
    unfolding confirmOrder_def cancelOrder_inventory_def
    by (rule transaction_keeps [where Q = "\<lambda>t. orders t = orders s"]; use c x in \<open>simp add: prod_eq_iff\<close>; metis snd_conv)+
qed

lemma stock_keeps_orders_run:
  "confirmOrder order now s = (x, t) \<Longrightarrow> orders t = orders s"
  "cancelOrder_inventory order now s = (x, t) \<Longrightarrow> orders t = orders s"
  using stock_keeps_orders [of order now s] by simp_all

text \<open>
  A status update that completes was allowed by the table, stores the new status
  with the time stamp that belongs to it, leaves every other order alone, commits the order's
  listing stock when the order becomes paid and releases it when it becomes cancelled, and
  emits the event of the change; an update that throws changes no order.
\<close>

lemma updateStatus_effect:
  "(\<forall>r t. updateStatus oid new now s = (Inr r, t) \<longrightarrow>
      (\<exists>order. tbl_find o_id oid (orders s) = Some order \<and> new \<in> set (orderTransitions (o_status order)) \<and>
        o_status r = new \<and> tbl_find o_id oid (orders t) = Some (rounded_order r) \<and>
        (\<forall>k. k \<noteq> oid \<longrightarrow> tbl_find o_id k (orders t) = tbl_find o_id k (orders s)) \<and>
        (new = OS_PAID \<longrightarrow> o_paymentStatus r = PS_PAID \<and> o_confirmedAt r = Some now \<and>
          (\<exists>v. confirmOrder order now s = (Inr (), v) \<and> listings t = listings v)) \<and>
        (new = OS_CANCELLED \<longrightarrow> o_cancelledAt r = Some now \<and>
          (\<exists>v. cancelOrder_inventory order now s = (Inr (), v) \<and> listings t = listings v)) \<and>
        (new = OS_SHIPPED \<longrightarrow> o_shippedAt r = Some now) \<and> (new = OS_DELIVERED \<longrightarrow> o_deliveredAt r = Some now) \<and>
        OrderUpdatedEvent oid (o_buyerId order) (order_number oid) new (o_status order) \<in> set (events t))) \<and>
   (\<forall>e t. updateStatus oid new now s = (Inl e, t) \<longrightarrow> orders t = orders s)"
proof (intro conjI allI impI)
  fix r t assume run: "updateStatus oid new now s = (Inr r, t)"
  then obtain order where order: "tbl_find o_id oid (orders s) = Some order"
    and allowed: "new \<in> set (orderTransitions (o_status order))"
    by (auto simp: updateStatus_def findOne_order_def Let_def split: option.splits sum.splits)
  have oid: "o_id order = oid" by (rule tbl_find_key [OF order])
  have check: "validate orderTransitionValidator (o_status order) new = Inr ()" using allowed by simp
  note step = run [unfolded updateStatus_def findOne_order_def order option.case sum.case Let_def check]
  show "\<exists>order. tbl_find o_id oid (orders s) = Some order \<and> new \<in> set (orderTransitions (o_status order)) \<and>
        o_status r = new \<and> tbl_find o_id oid (orders t) = Some (rounded_order r) \<and>
        (\<forall>k. k \<noteq> oid \<longrightarrow> tbl_find o_id k (orders t) = tbl_find o_id k (orders s)) \<and>
        (new = OS_PAID \<longrightarrow> o_paymentStatus r = PS_PAID \<and> o_confirmedAt r = Some now \<and>
          (\<exists>v. confirmOrder order now s = (Inr (), v) \<and> listings t = listings v)) \<and>
        (new = OS_CANCELLED \<longrightarrow> o_cancelledAt r = Some now \<and>
          (\<exists>v. cancelOrder_inventory order now s = (Inr (), v) \<and> listings t = listings v)) \<and>
        (new = OS_SHIPPED \<longrightarrow> o_shippedAt r = Some now) \<and> (new = OS_DELIVERED \<longrightarrow> o_deliveredAt r = Some now) \<and>
        OrderUpdatedEvent oid (o_buyerId order) (order_number oid) new (o_status order) \<in> set (events t)"
    using step order allowed oid
    by (cases new) (auto simp: and_then_Inr_iff save_order_Inr dest: stock_keeps_orders_run)
next
  fix e t assume "updateStatus oid new now s = (Inl e, t)"
  then show "orders t = orders s"
    by (auto simp: updateStatus_def findOne_order_def Let_def save_order_def and_then_def
        stock_keeps_orders split: option.splits sum.splits if_splits)
qed

theorem updateStatus_effect_witness:
  "\<exists>r t. updateStatus ''o'' OS_SHIPPED 7 (empty_db\<lparr>orders := [sample_order\<lparr>o_status := OS_PAID\<rparr>]\<rparr>) = (Inr r, t) \<and>
     o_shippedAt r = Some 7"
proof -
  let ?s = "empty_db\<lparr>orders := [sample_order\<lparr>o_status := OS_PAID\<rparr>]\<rparr>"
  have "stored (sample_order\<lparr>o_shippedAt := Some 7, o_status := OS_SHIPPED\<rparr>)"
    by (rule stored_keeps [OF sample_order_stored [of OS_SHIPPED]]) (simp_all add: order_amounts_def)
  note saved = save_stored [OF this]
  have "validate orderTransitionValidator OS_PAID OS_SHIPPED = Inr ()" "o_id sample_order = ''o''"
    by (simp_all add: sample_order_def)
  with saved have "\<exists>r t. updateStatus ''o'' OS_SHIPPED 7 ?s = (Inr r, t)"
    by (simp add: updateStatus_def findOne_order_def Let_def del: validate_simps)
  then obtain r t where "updateStatus ''o'' OS_SHIPPED 7 ?s = (Inr r, t)" by blast
  with updateStatus_effect [of "''o''" OS_SHIPPED 7 ?s] show ?thesis by blast
qed

subsection \<open>Totals below the column's scale\<close>

text \<open>
  An order of less than half a hundredth of a unit of its currency (as an order in
  lumens easily is) passes the check for a positive total, but its row is stored with a total
  and a remaining amount of zero.
\<close>

lemma sub_cent_order_stored_as_zero:
  assumes "create_order rates oid now dto s = (Inr r, t)" and "o_totalAmount r < 1 / 200"
  shows "0 < o_totalAmount r \<and> (\<exists>row. tbl_find o_id oid (orders t) = Some row \<and> o_totalAmount row = 0 \<and>
    o_remainingAmount row = 0)"
proof -
  from assms(1) obtain items u cur where r: "r = new_order oid now dto cur items (sum_by it_subtotal items)"
    and pos: "0 < sum_by it_subtotal items"
    and loop: "for_each (reserve_line (co_buyerId dto) now) items
      (s\<lparr>orders := tbl_save o_id (rounded_order r) (orders s)\<rparr>) = (Inr (), u)" and t: "t = notify_massive r u"
    by (rule create_order_steps) blast
  have "orders u = tbl_save o_id (rounded_order r) (orders s)"
    using lines_keep_orders(1) [of "co_buyerId dto" now items "s\<lparr>orders := tbl_save o_id (rounded_order r) (orders s)\<rparr>"]
      loop by simp
  then have found: "tbl_find o_id oid (orders t) = Some (rounded_order r)" by (simp add: t r new_order_def)
  have "round_to 2 (o_totalAmount r) = 0"
  proof -
    have total: "0 < o_totalAmount r" using pos by (simp add: r new_order_def)
    then have "\<lfloor>\<bar>o_totalAmount r\<bar> * 10 ^ 2 + 1 / 2\<rfloor> = 0" using assms(2) by (simp add: floor_eq_iff)
    then show ?thesis by (simp add: round_to_def)
  qed
  with found pos show ?thesis by (auto simp: rounded_order_def r new_order_def)
qed

theorem sub_cent_order_stored_as_zero_witness:
  "\<exists>x t row. create_order (\<lambda>_. ''1.0000000'') ''o'' 0 (sample_order_dto XLM) (sample_shop XLM ''0.001'' ''10000'') = (Inr x, t) \<and>
     tbl_find o_id ''o'' (orders t) = Some row \<and> o_totalAmount row = 0"
proof -
  have "\<exists>x t. create_order (\<lambda>_. ''1.0000000'') ''o'' 0 (sample_order_dto XLM)
    (sample_shop XLM ''0.001'' ''10000'') = (Inr x, t) \<and> o_totalAmount x = 3 * (1 / 1000)"
  proof (rule sample_line)
    show "toMinorUnitsFromString ''0.001'' XLM = Inr 10000"
      by (simp add: toMinorUnitsFromString_def parseDecimal_def text_eval getCurrencyPrecision_def pow10_def)
    show "read_number ''0.001'' = Some (1 / 1000)"
      by (simp add: read_number_def text_value_def text_eval)
  qed simp_all
  then obtain x t where run: "create_order (\<lambda>_. ''1.0000000'') ''o'' 0 (sample_order_dto XLM)
    (sample_shop XLM ''0.001'' ''10000'') = (Inr x, t)" and total: "o_totalAmount x = 3 * (1 / 1000)" by blast
  from total have "o_totalAmount x < 1 / 200" by simp
  from sub_cent_order_stored_as_zero [OF run this] run show ?thesis by blast
qed

end
