(* ===== verification/Payments.thy ===== *)
theory Payments
  imports Orders Rewards
begin

text \<open>
  \<open>PaymentsService\<close> (src/src/payments/payments.service.ts): initiating a payment for an order,
  verifying a Stellar transaction against it, the timeout, and the lookups. Reward points come
  from \<open>RewardsService\<close>; the random ids, the clock and the decimal driver are parameters.
\<close>

subsection \<open>Values\<close>

text \<open>\<open>parseFloat\<close> on decimal text; \<open>None\<close> is \<open>NaN\<close>.\<close>

definition parse_float :: "string \<Rightarrow> number option" where
  "parse_float t = text_value (takeWhile (\<lambda>c. is_digit c \<or> c = dot \<or> c = minus) t)"

definition show_optional :: "string option \<Rightarrow> string" where
  "show_optional x = (case x of None \<Rightarrow> ''undefined'' | Some t \<Rightarrow> t)"

record payment_response =
  py_id :: uuid
  py_orderId :: uuid
  py_amount :: number
  py_currency :: currency
  py_status :: payment_status
  py_stellarTransactionId :: "string option"
  py_destinationWalletAddress :: string
  py_sourceWalletAddress :: "string option"
  py_confirmationCount :: number
  py_createdAt :: time
  py_confirmedAt :: "time option"
  py_expiresAt :: time

definition mapToResponseDto :: "time \<Rightarrow> payment_row \<Rightarrow> payment_response" where
  "mapToResponseDto now p = \<lparr>py_id = pm_id p, py_orderId = pm_orderId p, py_amount = pm_amount p,
     py_currency = pm_currency p, py_status = pm_status p,
     py_stellarTransactionId = pm_stellarTransactionId p,
     py_destinationWalletAddress = pm_destinationWalletAddress p,
     py_sourceWalletAddress = pm_sourceWalletAddress p,
     py_confirmationCount = pm_confirmationCount p, py_createdAt = pm_createdAt p,
     py_confirmedAt = pm_confirmedAt p, py_expiresAt = coalesce (pm_expiresAt p) now\<rparr>"

text \<open>The amount column has seven decimals; the entity object keeps what it was given.\<close>

definition save_payment :: "payment_row \<Rightarrow> db \<Rightarrow> db" where
  "save_payment p s = s\<lparr>payments := tbl_save pm_id (p\<lparr>pm_amount := round_to 7 (pm_amount p)\<rparr>) (payments s)\<rparr>"

subsection \<open>Initiating\<close>

record initiate_payment_dto =
  ip_orderId :: uuid
  ip_currency :: currency
  ip_timeoutMinutes :: "int option"
  ip_pointsToUse :: "number option"

definition pending_payment_of :: "uuid \<Rightarrow> db \<Rightarrow> payment_row option" where
  "pending_payment_of oid s = List.find (\<lambda>p. pm_orderId p = oid \<and> pm_status p = PS_PENDING) (payments s)"

text \<open>Points that cannot be applied are skipped: the \<open>try\<close> swallows every exception.\<close>

definition apply_points ::
  "(nat \<Rightarrow> number \<Rightarrow> jsval) \<Rightarrow> uuid \<Rightarrow> time \<Rightarrow> uuid \<Rightarrow> number option \<Rightarrow> number \<Rightarrow> db \<Rightarrow> number \<times> db" where
  "apply_points hyd rid now buyerId pointsToUse amount s =
     (case pointsToUse of
        None \<Rightarrow> (amount, s)
      | Some p \<Rightarrow>
        if p > 0
        then (case applyPointsToCheckout hyd rid now buyerId p amount s of
                (Inl _, t) \<Rightarrow> (amount, t)
              | (Inr r, t) \<Rightarrow> (amount - ck_discountAmount r, t))
        else (amount, s))"

definition initiatePayment ::
  "(nat \<Rightarrow> number \<Rightarrow> jsval) \<Rightarrow> uuid \<Rightarrow> uuid \<Rightarrow> time \<Rightarrow> initiate_payment_dto \<Rightarrow> db \<Rightarrow>
   (payment_response, db) result" where
  "initiatePayment hyd pid rid now dto s =
     (case tbl_find o_id (ip_orderId dto) (orders s) of
        None \<Rightarrow> (Inl (NotFoundException [Txt ''Order with ID '', Txt (ip_orderId dto), Txt '' not found'']), s)
      | Some order \<Rightarrow>
        if o_status order = OS_MANUAL_REVIEW
        then (Inl (BadRequestException [Txt ''Order '', Txt (o_id order),
               Txt '' is under MANUAL_REVIEW due to fraud risk; payment is halted'']), s)
        else if o_status order \<noteq> OS_PENDING
        then (Inl (BadRequestException [Txt ''Order must be in PENDING status to initiate payment'']), s)
        else if o_currency order \<noteq> ip_currency dto
        then (Inl (BadRequestException [Txt ''Payment currency '', Txt (currency_code (ip_currency dto)),
               Txt '' must match order currency '', Txt (currency_code (o_currency order))]), s)
        else
          case pending_payment_of (ip_orderId dto) s of
            Some existingPayment \<Rightarrow> (Inr (mapToResponseDto now existingPayment), s)
          | None \<Rightarrow>
            let (finalAmount, s1) =
                  apply_points hyd rid now (o_buyerId order) (ip_pointsToUse dto) (o_totalAmount order) s
            in case tbl_find w_userId (o_buyerId order) (wallets s1) of
                 None \<Rightarrow> (Inl (NotFoundException [Txt ''Wallet not found for buyer'']), s1)
               | Some wallet \<Rightarrow>
                 let timeoutMinutes =
                       (case ip_timeoutMinutes dto of None \<Rightarrow> 30 | Some m \<Rightarrow> if m = 0 then 30 else m);
                     payment = \<lparr>pm_id = pid, pm_orderId = ip_orderId dto, pm_amount = finalAmount,
                       pm_currency = ip_currency dto, pm_status = PS_PENDING, pm_stellarTransactionId = None,
                       pm_destinationWalletAddress = w_publicKey wallet, pm_sourceWalletAddress = None,
                       pm_confirmationCount = 0, pm_timeoutMinutes = of_int timeoutMinutes,
                       pm_createdAt = now, pm_confirmedAt = None, pm_failedAt = None,
                       pm_expiresAt = Some (now + timeoutMinutes * 60000), pm_failureReason = None,
                       pm_stellarTransactionData = None, pm_buyerId = o_buyerId order\<rparr>;
                     s2 = emit (PaymentInitiatedEvent pid (ip_orderId dto) (w_publicKey wallet) finalAmount
                            (ip_currency dto)) (save_payment payment s1)
                 in (Inr (mapToResponseDto now payment), s2))"

subsection \<open>Verifying\<close>

definition tolerance :: number where "tolerance = 1 / 10000"

definition amount_differs :: "payment_row \<Rightarrow> transaction_data \<Rightarrow> bool" where
  "amount_differs payment td = (case parse_float (td_amount td) of
       None \<Rightarrow> False | Some a \<Rightarrow> \<bar>a - pm_amount payment\<bar> > tolerance)"

text \<open>\<open>None\<close> for a valid transaction, the message otherwise. \<open>Math.abs(NaN) > tolerance\<close> is
  false.\<close>

definition validateTransaction :: "time \<Rightarrow> payment_row \<Rightarrow> transaction_data \<Rightarrow> msg option" where
  "validateTransaction now payment td =
     (if td_to td \<noteq> Some (pm_destinationWalletAddress payment)
      then Some [Txt ''Transaction destination '', Txt (show_optional (td_to td)),
             Txt '' does not match payment destination '', Txt (pm_destinationWalletAddress payment)]
      else if amount_differs payment td
      then Some [Txt ''Transaction amount '', Num (case parse_float (td_amount td) of Some a \<Rightarrow> a | None \<Rightarrow> 0),
             Txt '' does not match expected amount '', Num (pm_amount payment)]
      else if pm_currency payment = USD then None
      else if truthy_text (td_asset_code td)
           \<and> upper_text (or_text (td_asset_code td) []) \<noteq> currency_code (pm_currency payment)
      then Some [Txt ''Transaction asset '', Txt (upper_text (or_text (td_asset_code td) [])),
             Txt '' does not match payment currency '', Txt (currency_code (pm_currency payment))]
      else if \<not> truthy_text (td_asset_code td)
      then Some [Txt ''Transaction asset is required for '', Txt (currency_code (pm_currency payment)),
             Txt '' payments'']
      else
        let ageMinutes = of_int (now - td_created_at td) / 60000
        in if ageMinutes > pm_timeoutMinutes payment
           then Some [Txt ''Transaction is too old ('', Txt (to_fixed 2 ageMinutes), Txt '' minutes)'']
           else None)"

definition verifyAndConfirmPayment ::
  "uuid \<Rightarrow> transaction_data \<Rightarrow> time \<Rightarrow> db \<Rightarrow> (payment_response, db) result" where
  "verifyAndConfirmPayment paymentId td now s =
     (case tbl_find pm_id paymentId (payments s) of
        None \<Rightarrow> (Inl (NotFoundException [Txt ''Payment with ID '', Txt paymentId, Txt '' not found'']), s)
      | Some payment \<Rightarrow>
        let order = tbl_find o_id (pm_orderId payment) (orders s) in
        if pm_status payment \<noteq> PS_PENDING
        then (Inl (BadRequestException [Txt ''Payment is no longer in PENDING status'']), s)
        else if map_option o_status order = Some OS_MANUAL_REVIEW
        then (Inl (BadRequestException [Txt ''Payment for order '', Txt (pm_orderId payment),
               Txt '' is blocked: order is under MANUAL_REVIEW'']), s)
        else
          case validateTransaction now payment td of
            Some errorMessage \<Rightarrow>
              let payment = payment\<lparr>pm_status := PS_FAILED, pm_failureReason := Some errorMessage,
                              pm_failedAt := Some now\<rparr>;
                  s1 = emit (PaymentFailedEvent paymentId (pm_buyerId payment) (pm_orderId payment)
                         (pm_amount payment) errorMessage) (save_payment payment s)
              in (Inr (mapToResponseDto now payment), s1)
          | None \<Rightarrow>
              let payment = payment\<lparr>pm_status := PS_CONFIRMED, pm_confirmedAt := Some now,
                    pm_stellarTransactionId := Some (td_id td),
                    pm_sourceWalletAddress := Some (td_source_account td),
                    pm_stellarTransactionData := Some td,
                    pm_confirmationCount := or_num (td_confirmations td) 1\<rparr>;
                  s1 = save_payment payment s
              in case order of
                   None \<Rightarrow> (Inl (TypeError [Txt ''Cannot set properties of undefined'']), s1)
                 | Some order \<Rightarrow>
                   and_then (save_order (order\<lparr>o_status := OS_PAID, o_paymentStatus := PS_PAID,
                               o_confirmedAt := Some now, o_updatedAt := now\<rparr>) s1)
                     (\<lambda>_ s2. (Inr (mapToResponseDto now payment),
                        emit (PaymentConfirmedEvent paymentId (pm_buyerId payment) (pm_orderId payment)
                          (pm_amount payment) (pm_currency payment)
                          (or_text (pm_stellarTransactionId payment) [])) s2)))"

subsection \<open>Timeout and lookups\<close>

definition handlePaymentTimeout :: "uuid \<Rightarrow> time \<Rightarrow> db \<Rightarrow> (payment_response, db) result" where
  "handlePaymentTimeout paymentId now s =
     (case tbl_find pm_id paymentId (payments s) of
        None \<Rightarrow> (Inl (NotFoundException [Txt ''Payment with ID '', Txt paymentId, Txt '' not found'']), s)
      | Some payment \<Rightarrow>
        if pm_status payment = PS_PENDING
        then
          let payment = payment\<lparr>pm_status := PS_TIMEOUT,
                pm_failureReason := Some [Txt ''Payment timeout - no confirmation received within expected time''],
                pm_failedAt := Some now\<rparr>
          in (Inr (mapToResponseDto now payment),
              emit (PaymentTimeoutEvent paymentId (pm_orderId payment)) (save_payment payment s))
        else (Inr (mapToResponseDto now payment), s))"

definition getPaymentById :: "uuid \<Rightarrow> time \<Rightarrow> db \<Rightarrow> error + payment_response" where
  "getPaymentById pid now s =
     (case tbl_find pm_id pid (payments s) of
        None \<Rightarrow> Inl (NotFoundException [Txt ''Payment with ID '', Txt pid, Txt '' not found''])
      | Some payment \<Rightarrow> Inr (mapToResponseDto now payment))"

definition newest_first :: "payment_row list \<Rightarrow> payment_row list" where
  "newest_first ps = rev (sort_key pm_createdAt ps)"

definition getPaymentByOrderId :: "uuid \<Rightarrow> time \<Rightarrow> db \<Rightarrow> error + payment_response" where
  "getPaymentByOrderId orderId now s =
     (case newest_first (filter (\<lambda>p. pm_orderId p = orderId) (payments s)) of
        [] \<Rightarrow> Inl (NotFoundException [Txt ''Payment not found for order '', Txt orderId])
      | payment # _ \<Rightarrow> Inr (mapToResponseDto now payment))"

definition getPaymentsByBuyerId :: "uuid \<Rightarrow> time \<Rightarrow> db \<Rightarrow> payment_response list" where
  "getPaymentsByBuyerId buyerId now s =
     map (mapToResponseDto now) (newest_first (filter (\<lambda>p. pm_buyerId p = buyerId) (payments s)))"

record payment_stats =
  st_totalPayments :: nat
  st_confirmedCount :: nat
  st_pendingCount :: nat
  st_failedCount :: nat
  st_timeoutCount :: nat
  st_totalConfirmedAmount :: number

definition getPaymentStats :: "uuid \<Rightarrow> db \<Rightarrow> payment_stats" where
  "getPaymentStats buyerId s =
     (let ps = filter (\<lambda>p. pm_buyerId p = buyerId) (payments s);
          count = (\<lambda>st. length (filter (\<lambda>p. pm_status p = st) ps))
      in \<lparr>st_totalPayments = length ps, st_confirmedCount = count PS_CONFIRMED,
          st_pendingCount = count PS_PENDING, st_failedCount = count PS_FAILED,
          st_timeoutCount = count PS_TIMEOUT,
          st_totalConfirmedAmount = sum_by pm_amount (filter (\<lambda>p. pm_status p = PS_CONFIRMED) ps)\<rparr>)"

subsection \<open>What validation accepts\<close>

text \<open>
  A transaction is accepted for a payment exactly when it goes to the payment's
  destination, its amount is within a ten-thousandth of the payment's (or is no number at
  all), and, unless the payment is in USD, its asset is the payment's currency whatever the
  case of its letters and it is no older than the payment's timeout. A payment in USD accepts
  any asset of any age.
\<close>

lemma validateTransaction_accepts_iff:
  "validateTransaction now p td = None \<longleftrightarrow>
    td_to td = Some (pm_destinationWalletAddress p) \<and>
    (\<forall>a. parse_float (td_amount td) = Some a \<longrightarrow> \<bar>a - pm_amount p\<bar> \<le> 1 / 10000) \<and>
    (pm_currency p = USD \<or>
     (\<exists>code. td_asset_code td = Some code \<and> upper_text code = currency_code (pm_currency p) \<and>
        of_int (now - td_created_at td) \<le> pm_timeoutMinutes p * 60000))"
proof (cases "td_asset_code td")
  case None
  then show ?thesis
    by (auto simp: validateTransaction_def Let_def amount_differs_def tolerance_def not_less split: option.splits)
next
  case (Some code)
  have "upper_text [] \<noteq> currency_code c" for c by (cases c) (simp_all add: upper_text_def)
  with Some show ?thesis
    by (auto simp: validateTransaction_def Let_def amount_differs_def tolerance_def not_less
        divide_le_eq split: option.splits)
qed

definition sample_payment :: "currency \<Rightarrow> payment_row" where
  "sample_payment c = \<lparr>pm_id = ''y'', pm_orderId = ''o'', pm_amount = 30, pm_currency = c, pm_status = PS_PENDING,
     pm_stellarTransactionId = None, pm_destinationWalletAddress = ''W'', pm_sourceWalletAddress = None,
     pm_confirmationCount = 0, pm_timeoutMinutes = 30, pm_createdAt = 0, pm_confirmedAt = None,
     pm_failedAt = None, pm_expiresAt = Some 1800000, pm_failureReason = None,
     pm_stellarTransactionData = None, pm_buyerId = ''b''\<rparr>"

definition sample_tx :: "string option \<Rightarrow> transaction_data" where
  "sample_tx asset = \<lparr>td_id = ''T'', td_source_account = ''S'', td_to = Some ''W'', td_amount = ''30.0000000'',
     td_asset_code = asset, td_created_at = 0, td_confirmations = Some 1\<rparr>"

lemma upper_xlm: "upper_text ''xlm'' = ''XLM''"
  by code_simp

lemma sample_tx_amount: "parse_float (td_amount (sample_tx a)) = Some 30"
  by (simp add: sample_tx_def parse_float_def text_value_def text_eval)

theorem validateTransaction_accepts_iff_witness:
  "validateTransaction 60000 (sample_payment XLM) (sample_tx (Some ''xlm'')) = None \<and>
   validateTransaction 60000 (sample_payment XLM) (sample_tx None) \<noteq> None \<and>
   validateTransaction 900000000 (sample_payment USD) (sample_tx (Some ''SCAM'')) = None"
  unfolding validateTransaction_accepts_iff sample_tx_amount
  by (simp add: sample_tx_def sample_payment_def upper_xlm)

subsection \<open>The life of a payment\<close>

inductive payment_step :: "db \<Rightarrow> db \<Rightarrow> bool" where
  initiate: "pid \<notin> pm_id ` set (payments s) \<Longrightarrow> payment_step s (snd (initiatePayment hyd pid rid now dto s))"
| verify: "payment_step s (snd (verifyAndConfirmPayment pid td now s))"
| expire: "payment_step s (snd (handlePaymentTimeout pid now s))"

definition round_payment :: "payment_row \<Rightarrow> payment_row" where
  "round_payment p = p\<lparr>pm_amount := round_to 7 (pm_amount p)\<rparr>"

lemma round_payment_simps [simp]:
  "pm_id (round_payment p) = pm_id p" "pm_status (round_payment p) = pm_status p"
  "pm_orderId (round_payment p) = pm_orderId p"
  by (simp_all add: round_payment_def)

lemma save_payment_payments [simp]:
  "payments (save_payment p s) = tbl_save pm_id (round_payment p) (payments s)"
  by (simp add: save_payment_def round_payment_def)

lemma other_tables [simp]:
  "payments (snd (save_order r s)) = payments s"
  "orders (save_payment p s) = orders s"
  by (auto simp: save_order_def save_payment_def split: sum.splits)

lemma confirm_payments:
  "payments (snd (and_then (save_order r s) (\<lambda>_ u. (x, emit ev u)))) = payments s"
  by (auto simp: save_order_def and_then_def split: sum.splits)

lemma apply_points_keeps: "payments (snd (apply_points hyd rid now b p a s)) = payments s"
proof -
  have "payments (snd (createReward hyd rid now dto s)) = payments s" for dto
    by (auto simp: createReward_def Let_def split: sum.splits)
  then have "payments (snd (applyPointsToCheckout hyd rid now b q a s)) = payments s" for q
    by (auto simp: applyPointsToCheckout_def Let_def and_then_def split: sum.splits)
  then show ?thesis
    by (auto simp: apply_points_def split: option.splits prod.splits sum.splits) (metis snd_conv)+
qed

text \<open>What one step can do to the table of payments: nothing, add one pending payment to an
  order without one, or move a pending payment on.\<close>

definition payment_moves :: "payment_row list \<Rightarrow> payment_row list \<Rightarrow> bool" where
  "payment_moves ps ts \<longleftrightarrow> (\<exists>p q. tbl_find pm_id (pm_id q) ps = Some p \<and> pm_status p = PS_PENDING \<and>
      pm_orderId q = pm_orderId p \<and> pm_status q \<in> {PS_CONFIRMED, PS_FAILED, PS_TIMEOUT} \<and>
      ts = tbl_save pm_id q ps)"

lemma payment_movesI:
  assumes "tbl_find pm_id (pm_id q) ps = Some p" and "pm_status p = PS_PENDING"
    and "pm_orderId q = pm_orderId p" and "pm_status q = PS_CONFIRMED \<or> pm_status q = PS_FAILED \<or> pm_status q = PS_TIMEOUT"
  shows "payment_moves ps (tbl_save pm_id (round_payment q) ps)"
  unfolding payment_moves_def
  by (intro exI [of _ p] exI [of _ "round_payment q"]) (use assms in auto)

lemma verify_moves:
  "payment_moves (payments s) (payments (snd (verifyAndConfirmPayment pid td now s))) \<or>
   payments (snd (verifyAndConfirmPayment pid td now s)) = payments s"
proof (cases "tbl_find pm_id pid (payments s)")
  case (Some p)
  have "pm_id p = pid" by (rule tbl_find_key [OF Some])
  with Some show ?thesis
    by (cases "validateTransaction now p td")
      (auto simp: verifyAndConfirmPayment_def Let_def confirm_payments
        split: option.splits intro!: payment_movesI)
qed (simp add: verifyAndConfirmPayment_def)

lemma timeout_moves:
  "payment_moves (payments s) (payments (snd (handlePaymentTimeout pid now s))) \<or>
   payments (snd (handlePaymentTimeout pid now s)) = payments s"
proof (cases "tbl_find pm_id pid (payments s)")
  case (Some p)
  have "pm_id p = pid" by (rule tbl_find_key [OF Some])
  with Some show ?thesis
    by (auto simp: handlePaymentTimeout_def Let_def intro!: payment_movesI)
qed (simp add: handlePaymentTimeout_def)

lemma initiate_adds:
  assumes "pid \<notin> pm_id ` set (payments s)"
    and "payments (snd (initiatePayment hyd pid rid now dto s)) \<noteq> payments s"
  shows "\<exists>p. pm_status p = PS_PENDING \<and> pm_id p = pid \<and> pending_payment_of (pm_orderId p) s = None \<and>
    payments (snd (initiatePayment hyd pid rid now dto s)) = payments s @ [p]"
proof -
  have "\<exists>p. pm_status p = PS_PENDING \<and> pm_id p = pid \<and> pending_payment_of (pm_orderId p) s = None \<and>
      payments (snd (initiatePayment hyd pid rid now dto s)) = tbl_save pm_id p (payments s)"
    using assms(2)
    by (auto simp: initiatePayment_def Let_def case_prod_beta apply_points_keeps
        split: option.splits if_splits intro!: exI)
  with assms(1) show ?thesis by (metis tbl_save_fresh)
qed

lemma payment_step_cases:
  assumes "payment_step s t"
  obtains (same) "payments t = payments s"
  | (new) p where "pm_status p = PS_PENDING" "pm_id p \<notin> pm_id ` set (payments s)"
      "pending_payment_of (pm_orderId p) s = None" "payments t = payments s @ [p]"
  | (moved) "payment_moves (payments s) (payments t)"
  using assms
proof cases
  case (initiate pid hyd rid now dto)
  show ?thesis
  proof (cases "payments t = payments s")
    case False
    then show ?thesis using initiate new by (metis initiate_adds)
  qed (rule same)
next
  case (verify pid td now)
  then show ?thesis using verify_moves same moved by metis
next
  case (expire pid now)
  then show ?thesis using timeout_moves same moved by metis
qed

inductive payment_reachable :: "db \<Rightarrow> bool" where
  nothing_paid: "payments s = [] \<Longrightarrow> payment_reachable s"
| payment_steps: "payment_reachable s \<Longrightarrow> payment_step s t \<Longrightarrow> payment_reachable t"

definition one_pending :: "payment_row list \<Rightarrow> bool" where
  "one_pending ps \<longleftrightarrow> (\<forall>p \<in> set ps. \<forall>q \<in> set ps. pm_status p = PS_PENDING \<and> pm_status q = PS_PENDING \<and>
     pm_orderId p = pm_orderId q \<longrightarrow> p = q)"

lemma one_pending_append:
  assumes "one_pending ps" and "\<forall>q \<in> set ps. pm_status q = PS_PENDING \<longrightarrow> pm_orderId q \<noteq> pm_orderId p"
  shows "one_pending (ps @ [p])"
  using assms by (force simp: one_pending_def)

lemma one_pending_save:
  assumes "one_pending ps" and "pm_status q \<noteq> PS_PENDING"
  shows "one_pending (tbl_save pm_id q ps)"
  using assms by (auto simp: one_pending_def dest!: tbl_save_mem)

lemma no_pending_of:
  "pending_payment_of oid s = None \<longleftrightarrow> (\<forall>q \<in> set (payments s). pm_status q = PS_PENDING \<longrightarrow> pm_orderId q \<noteq> oid)"
  by (auto simp: pending_payment_of_def find_None_iff)

text \<open>What a step keeps: ids stay unique, at most one payment of an order waits, and a settled
  payment stays as it is.\<close>

lemma step_keeps_payments_sound:
  assumes "payment_step s t" and "distinct (map pm_id (payments s))" and "one_pending (payments s)"
  shows "distinct (map pm_id (payments t))" and "one_pending (payments t)"
proof -
  have "distinct (map pm_id (payments t)) \<and> one_pending (payments t)"
    using assms(1)
  proof (cases rule: payment_step_cases)
    case (new p)
    then show ?thesis using assms(2,3) one_pending_append by (simp add: no_pending_of)
  next
    case moved
    then show ?thesis
      using assms(2,3) by (auto simp: payment_moves_def intro!: tbl_save_distinct one_pending_save)
  qed (use assms in simp)
  then show "distinct (map pm_id (payments t))" and "one_pending (payments t)" by simp_all
qed

lemma step_keeps_settled:
  assumes "payment_step s t" and "tbl_find pm_id pid (payments s) = Some p" and "pm_status p \<noteq> PS_PENDING"
  shows "tbl_find pm_id pid (payments t) = Some p"
  using assms(1)
proof (cases rule: payment_step_cases)
  case (new q)
  then show ?thesis using assms(2) by (simp add: tbl_find_append)
next
  case moved
  then show ?thesis using assms(2,3) by (auto simp: payment_moves_def)
qed (use assms in simp)

text \<open>
  Property C4: payments that come about by initiating, verifying and timing out never share an
  id, and no order ever has two payments waiting at once.
\<close>

theorem one_pending_payment_per_order:
  assumes "payment_reachable s"
  shows "distinct (map pm_id (payments s)) \<and> one_pending (payments s)"
  using assms by induction (auto simp: one_pending_def [of "[]"] intro: step_keeps_payments_sound)

text \<open>
  A payment that was confirmed, failed or timed out is never touched again,
  whatever is initiated, verified or timed out afterwards.
\<close>

lemma settled_payment_final:
  assumes "payment_step\<^sup>*\<^sup>* s t" and "tbl_find pm_id pid (payments s) = Some p" and "pm_status p \<noteq> PS_PENDING"
  shows "tbl_find pm_id pid (payments t) = Some p"
  using assms(1) by induction (use assms(2,3) in \<open>auto intro: step_keeps_settled\<close>)

subsection \<open>Confirming\<close>

definition confirmed_payment :: "transaction_data \<Rightarrow> time \<Rightarrow> payment_row \<Rightarrow> payment_row" where
  "confirmed_payment td now p = p\<lparr>pm_status := PS_CONFIRMED, pm_confirmedAt := Some now,
     pm_stellarTransactionId := Some (td_id td), pm_sourceWalletAddress := Some (td_source_account td),
     pm_stellarTransactionData := Some td, pm_confirmationCount := or_num (td_confirmations td) 1\<rparr>"

definition paid_order :: "time \<Rightarrow> order_row \<Rightarrow> order_row" where
  "paid_order now r = r\<lparr>o_status := OS_PAID, o_paymentStatus := PS_PAID, o_confirmedAt := Some now, o_updatedAt := now\<rparr>"

lemma confirmed_simps [simp]:
  "pm_id (confirmed_payment td now p) = pm_id p" "pm_status (confirmed_payment td now p) = PS_CONFIRMED"
  "pm_stellarTransactionId (confirmed_payment td now p) = Some (td_id td)"
  "o_id (paid_order now r) = o_id r" "o_status (paid_order now r) = OS_PAID"
  "o_totalAmount (paid_order now r) = o_totalAmount r"
  by (simp_all add: confirmed_payment_def paid_order_def)

text \<open>The run of a confirmation that goes through.\<close>

lemma confirm_run:
  assumes "tbl_find pm_id pid (payments s) = Some p" and "pm_status p = PS_PENDING"
    and "tbl_find o_id (pm_orderId p) (orders s) = Some order" and "o_status order \<noteq> OS_MANUAL_REVIEW"
    and "validateTransaction now p td = None" and "stored order"
  shows "\<exists>ev. verifyAndConfirmPayment pid td now s =
      (Inr (mapToResponseDto now (confirmed_payment td now p)),
       emit ev (s\<lparr>payments := tbl_save pm_id (round_payment (confirmed_payment td now p)) (payments s),
                  orders := tbl_save o_id (paid_order now order) (orders s)\<rparr>))"
proof -
  have "stored (paid_order now order)"
    by (rule stored_keeps [OF assms(6)]) (simp_all add: order_amounts_def paid_order_def)
  note saved = save_stored [OF this, unfolded paid_order_def]
  from assms show ?thesis
    by (auto simp: verifyAndConfirmPayment_def Let_def saved confirmed_payment_def paid_order_def
        round_payment_def save_payment_def)
qed

text \<open>
  Verifying a valid transaction for a waiting payment confirms the payment, records
  the transaction and marks the order paid; nothing else in the two tables changes, and neither
  table of stock is touched. The order is marked paid from every status but manual review, a
  cancelled or refunded one included, although the order table lets only an order in processing
  become paid (and a payment can only be initiated for a pending one).
\<close>

lemma confirmation_marks_order_paid:
  assumes "tbl_find pm_id pid (payments s) = Some p" and "pm_status p = PS_PENDING"
    and "tbl_find o_id (pm_orderId p) (orders s) = Some order" and "o_status order \<noteq> OS_MANUAL_REVIEW"
    and "validateTransaction now p td = None" and "stored order"
  shows "\<exists>r t p' order'. verifyAndConfirmPayment pid td now s = (Inr r, t) \<and> py_status r = PS_CONFIRMED \<and>
      tbl_find pm_id pid (payments t) = Some p' \<and> pm_status p' = PS_CONFIRMED \<and>
      pm_stellarTransactionId p' = Some (td_id td) \<and>
      tbl_find o_id (o_id order) (orders t) = Some order' \<and> o_status order' = OS_PAID \<and>
      o_totalAmount order' = o_totalAmount order \<and>
      (\<forall>k. k \<noteq> pid \<longrightarrow> tbl_find pm_id k (payments t) = tbl_find pm_id k (payments s)) \<and>
      (\<forall>k. k \<noteq> o_id order \<longrightarrow> tbl_find o_id k (orders t) = tbl_find o_id k (orders s)) \<and>
      products t = products s \<and> listings t = listings s \<and>
      (o_status order \<noteq> OS_PROCESSING \<longrightarrow> \<not> isValid orderTransitionValidator (o_status order) OS_PAID)"
proof -
  obtain ev where run: "verifyAndConfirmPayment pid td now s =
      (Inr (mapToResponseDto now (confirmed_payment td now p)),
       emit ev (s\<lparr>payments := tbl_save pm_id (round_payment (confirmed_payment td now p)) (payments s),
                  orders := tbl_save o_id (paid_order now order) (orders s)\<rparr>))"
    using confirm_run [OF assms] by blast
  have "\<not> isValid orderTransitionValidator (o_status order) OS_PAID" if "o_status order \<noteq> OS_PROCESSING"
    using that by (cases "o_status order") (simp_all add: isValid_def)
  with run tbl_find_key [OF assms(1)] show ?thesis
    by (auto simp: mapToResponseDto_def round_payment_def)
qed

text \<open>
  Nothing ties a transaction to one payment. Verifying the same Stellar transaction
  for two waiting payments of two orders, each of which it would satisfy alone, confirms both
  and marks both orders paid.
\<close>

lemma one_transaction_pays_twice:
  assumes "tbl_find pm_id pid (payments s) = Some p" and "tbl_find pm_id qid (payments s) = Some q"
    and "pid \<noteq> qid" and "pm_orderId p \<noteq> pm_orderId q" and "pm_status p = PS_PENDING" and "pm_status q = PS_PENDING"
    and "tbl_find o_id (pm_orderId p) (orders s) = Some a" and "tbl_find o_id (pm_orderId q) (orders s) = Some b"
    and "{o_status a, o_status b} \<inter> {OS_MANUAL_REVIEW} = {}" and "stored a" and "stored b"
    and "validateTransaction now p td = None" and "validateTransaction now q td = None"
  shows "\<exists>t p' q' a' b'. snd (verifyAndConfirmPayment qid td now (snd (verifyAndConfirmPayment pid td now s))) = t \<and>
      tbl_find pm_id pid (payments t) = Some p' \<and> tbl_find pm_id qid (payments t) = Some q' \<and>
      pm_stellarTransactionId p' = Some (td_id td) \<and> pm_stellarTransactionId q' = Some (td_id td) \<and>
      pm_status p' = PS_CONFIRMED \<and> pm_status q' = PS_CONFIRMED \<and>
      tbl_find o_id (pm_orderId p) (orders t) = Some a' \<and> tbl_find o_id (pm_orderId q) (orders t) = Some b' \<and>
      o_status a' = OS_PAID \<and> o_status b' = OS_PAID"
proof -
  have keys: "pm_id p = pid" "pm_id q = qid" "o_id a = pm_orderId p" "o_id b = pm_orderId q"
    using assms tbl_find_key by metis+
  obtain ev where one: "snd (verifyAndConfirmPayment pid td now s) =
      emit ev (s\<lparr>payments := tbl_save pm_id (round_payment (confirmed_payment td now p)) (payments s),
                 orders := tbl_save o_id (paid_order now a) (orders s)\<rparr>)" (is "_ = ?s1")
    using confirm_run [of pid s p a now td] assms by auto
  have "tbl_find pm_id qid (payments ?s1) = Some q" "tbl_find o_id (pm_orderId q) (orders ?s1) = Some b"
    using assms keys by simp_all
  from confirm_run [OF this(1) assms(6) this(2) _ assms(13,11)] assms(9)
  obtain ev2 where "snd (verifyAndConfirmPayment qid td now ?s1) =
      emit ev2 (?s1\<lparr>payments := tbl_save pm_id (round_payment (confirmed_payment td now q)) (payments ?s1),
                 orders := tbl_save o_id (paid_order now b) (orders ?s1)\<rparr>)"
    by fastforce
  with one keys assms(3,4) show ?thesis by (auto simp: round_payment_def)
qed

lemma sample_payment_found:
  "tbl_find pm_id ''y'' [sample_payment c] = Some (sample_payment c)" "pm_orderId (sample_payment c) = ''o''"
  "pm_status (sample_payment c) = PS_PENDING"
  by (simp_all add: sample_payment_def)

definition cancelled_sale :: db where
  "cancelled_sale = (shelf 10)\<lparr>orders := [sample_order\<lparr>o_status := OS_CANCELLED\<rparr>],
     payments := [sample_payment USD]\<rparr>"

lemma cancelled_sale_simps [simp]:
  "payments cancelled_sale = [sample_payment USD]"
  "tbl_find o_id ''o'' (orders cancelled_sale) = Some (sample_order\<lparr>o_status := OS_CANCELLED\<rparr>)"
  by (simp_all add: cancelled_sale_def sample_order_def)

lemma sample_tx_valid: "validateTransaction 0 (sample_payment USD) (sample_tx None) = None"
  by (simp add: validateTransaction_def amount_differs_def sample_tx_amount tolerance_def)
    (simp add: sample_payment_def sample_tx_def)

theorem confirmation_marks_order_paid_witness:
  "\<exists>t order'. snd (verifyAndConfirmPayment ''y'' (sample_tx None) 0 cancelled_sale) = t \<and>
     tbl_find o_id (o_id (sample_order\<lparr>o_status := OS_CANCELLED\<rparr>)) (orders t) = Some order' \<and> o_status order' = OS_PAID"
proof -
  have "tbl_find pm_id ''y'' (payments cancelled_sale) = Some (sample_payment USD)"
    by (simp only: cancelled_sale_simps sample_payment_found)
  moreover have "tbl_find o_id (pm_orderId (sample_payment USD)) (orders cancelled_sale) =
      Some (sample_order\<lparr>o_status := OS_CANCELLED\<rparr>)"
    by (simp only: cancelled_sale_simps sample_payment_found)
  moreover have "o_status (sample_order\<lparr>o_status := OS_CANCELLED\<rparr>) \<noteq> OS_MANUAL_REVIEW" by simp
  ultimately show ?thesis
    using confirmation_marks_order_paid [OF _ sample_payment_found(3) _ _ sample_tx_valid sample_order_stored]
    by (metis snd_conv)
qed

theorem one_transaction_pays_twice_witness:
  "\<exists>t a' b'. snd (verifyAndConfirmPayment ''z'' (sample_tx None) 0 (snd (verifyAndConfirmPayment ''y'' (sample_tx None) 0
      (empty_db\<lparr>orders := [sample_order, sample_order\<lparr>o_id := ''n''\<rparr>],
         payments := [sample_payment USD, sample_payment USD\<lparr>pm_id := ''z'', pm_orderId := ''n''\<rparr>]\<rparr>)))) = t \<and>
     tbl_find o_id ''o'' (orders t) = Some a' \<and> tbl_find o_id ''n'' (orders t) = Some b' \<and>
     o_status a' = OS_PAID \<and> o_status b' = OS_PAID"
proof -
  have "stored sample_order" using sample_order_stored [of OS_PENDING] by (simp add: sample_order_def)
  moreover from this have "stored (sample_order\<lparr>o_id := ''n''\<rparr>)"
    by (rule stored_keeps) (simp_all add: order_amounts_def)
  moreover have "validateTransaction 0 (sample_payment USD\<lparr>pm_id := ''z'', pm_orderId := ''n''\<rparr>) (sample_tx None) = None"
    by (simp add: validateTransaction_def amount_differs_def sample_tx_amount tolerance_def)
      (simp add: sample_payment_def sample_tx_def)
  ultimately have "\<exists>t p' q' a' b'. snd (verifyAndConfirmPayment ''z'' (sample_tx None) 0 (snd (verifyAndConfirmPayment ''y'' (sample_tx None) 0
      (empty_db\<lparr>orders := [sample_order, sample_order\<lparr>o_id := ''n''\<rparr>],
         payments := [sample_payment USD, sample_payment USD\<lparr>pm_id := ''z'', pm_orderId := ''n''\<rparr>]\<rparr>)))) = t \<and>
      tbl_find pm_id ''y'' (payments t) = Some p' \<and> tbl_find pm_id ''z'' (payments t) = Some q' \<and>
      pm_stellarTransactionId p' = Some (td_id (sample_tx None)) \<and> pm_stellarTransactionId q' = Some (td_id (sample_tx None)) \<and>
      pm_status p' = PS_CONFIRMED \<and> pm_status q' = PS_CONFIRMED \<and>
      tbl_find o_id (pm_orderId (sample_payment USD)) (orders t) = Some a' \<and>
      tbl_find o_id (pm_orderId (sample_payment USD\<lparr>pm_id := ''z'', pm_orderId := ''n''\<rparr>)) (orders t) = Some b' \<and>
      o_status a' = OS_PAID \<and> o_status b' = OS_PAID"
    by (intro one_transaction_pays_twice [of _ _ _ _ _ sample_order "sample_order\<lparr>o_id := ''n''\<rparr>"] sample_tx_valid)
      (simp_all add: sample_payment_def sample_order_def)
  then show ?thesis by (auto simp: sample_payment_found(2))
qed

theorem settled_payment_final_witness:
  "tbl_find pm_id ''y'' (payments (snd (handlePaymentTimeout ''y'' 5
      (empty_db\<lparr>payments := [sample_payment USD\<lparr>pm_status := PS_FAILED\<rparr>]\<rparr>)))) =
   Some (sample_payment USD\<lparr>pm_status := PS_FAILED\<rparr>)"
proof (rule settled_payment_final)
  show "payment_step\<^sup>*\<^sup>* (empty_db\<lparr>payments := [sample_payment USD\<lparr>pm_status := PS_FAILED\<rparr>]\<rparr>)
     (snd (handlePaymentTimeout ''y'' 5 (empty_db\<lparr>payments := [sample_payment USD\<lparr>pm_status := PS_FAILED\<rparr>]\<rparr>)))"
    by (intro r_into_rtranclp payment_step.expire)
qed (simp_all add: sample_payment_def)

text \<open>A shop with one open order of buyer b, whose wallet is W.\<close>

definition open_sale :: db where
  "open_sale = empty_db\<lparr>orders := [sample_order],
     wallets := [\<lparr>w_id = ''w'', w_publicKey = ''W'', w_userId = ''b''\<rparr>]\<rparr>"

definition pay_dto :: initiate_payment_dto where
  "pay_dto = \<lparr>ip_orderId = ''o'', ip_currency = USD, ip_timeoutMinutes = None, ip_pointsToUse = None\<rparr>"

definition pay_twice :: db where
  "pay_twice = snd (initiatePayment pg_column ''y2'' ''r'' 1 pay_dto
     (snd (initiatePayment pg_column ''y1'' ''r'' 0 pay_dto open_sale)))"

lemma pay_once:
  "\<exists>p. payments (snd (initiatePayment pg_column ''y1'' ''r'' 0 pay_dto open_sale)) = [p] \<and>
     pm_id p = ''y1'' \<and> pm_status p = PS_PENDING \<and> pm_orderId p = ''o''"
  by (simp add: initiatePayment_def pay_dto_def open_sale_def sample_order_def pending_payment_of_def
      apply_points_def empty_db_def Let_def)

theorem one_pending_payment_per_order_witness:
  "one_pending (payments pay_twice) \<and> ''y1'' \<in> pm_id ` set (payments pay_twice)"
proof -
  let ?s1 = "snd (initiatePayment pg_column ''y1'' ''r'' 0 pay_dto open_sale)"
  obtain p where p: "payments ?s1 = [p]" "pm_id p = ''y1''" "pm_status p = PS_PENDING" "pm_orderId p = ''o''"
    using pay_once by blast
  have "payment_reachable open_sale" by (rule nothing_paid) (simp add: open_sale_def empty_db_def)
  then have "payment_reachable ?s1"
    by (rule payment_steps) (rule payment_step.initiate, simp add: open_sale_def empty_db_def)
  then have "payment_reachable pay_twice"
    unfolding pay_twice_def by (rule payment_steps) (rule payment_step.initiate, simp add: p)
  moreover have "''y1'' \<in> pm_id ` set (payments pay_twice)"
  proof -
    have "''y2'' \<notin> pm_id ` set (payments ?s1)" using p by simp
    from initiate_adds [OF this, of pg_column "''r''" 1 pay_dto]
    have "payments pay_twice = payments ?s1 \<or> (\<exists>q. payments pay_twice = payments ?s1 @ [q])"
      unfolding pay_twice_def by blast
    then show ?thesis using p by auto
  qed
  ultimately show ?thesis using one_pending_payment_per_order [of pay_twice] by simp
qed

end
