(* ===== verification/Doubles.thy ===== *)
theory Doubles
  imports Prelude "HOL-Library.Log_Nat"
begin

text \<open>
  The rounding of JavaScript's numbers. The development computes with exact rationals; where the code
  compares the result of an addition or subtraction with \<open>===\<close>, the rounding decides the outcome, and
  the result is taken to the nearest number of IEEE 754 binary64 (53 significant bits, ties to the even
  one, smallest exponent -1074; an overflow to infinity is left out).
\<close>

definition half_even :: "number \<Rightarrow> int" where
  "half_even x = (let f = \<lfloor>x\<rfloor>; d = x - of_int f in if d < 1 / 2 then f else if d > 1 / 2 then f + 1 else if even f then f else f + 1)"

definition pow2 :: "int \<Rightarrow> number" where
  "pow2 e = (if e \<ge> 0 then 2 ^ nat e else 1 / 2 ^ nat (- e))"

text \<open>The exponent of a positive number: \<open>pow2 e \<le> x < pow2 (e + 1)\<close>.\<close>

definition exponent :: "number \<Rightarrow> int" where
  "exponent x =
     (case quotient_of x of (p, q) \<Rightarrow>
        let k = int (floorlog 2 (nat p)) - int (floorlog 2 (nat q)) in if x \<ge> pow2 k then k else k - 1)"

definition binary64 :: "number \<Rightarrow> number" where
  "binary64 x =
     (if x = 0 then 0
      else let u = pow2 (max (exponent \<bar>x\<bar> - 52) (- 1074)) in of_int (half_even (x / u)) * u)"

lemma half_even_int [simp]: "half_even (of_int k) = k"
  by (simp add: half_even_def)

lemma half_even_near: "\<bar>of_int (half_even x) - x\<bar> \<le> 1 / 2"
proof -
  have "of_int \<lfloor>x\<rfloor> \<le> x" "x < of_int \<lfloor>x\<rfloor> + 1" by linarith+
  then show ?thesis unfolding half_even_def Let_def by (auto simp: abs_le_iff field_simps)
qed

lemma half_evenI:
  assumes "\<bar>x - of_int m\<bar> < 1 / 2"
  shows "half_even x = m"
proof (cases "of_int m \<le> x")
  case True
  then have "\<lfloor>x\<rfloor> = m" using assms by (simp add: floor_eq_iff)
  then show ?thesis using assms True by (simp add: half_even_def)
next
  case False
  then have "\<lfloor>x\<rfloor> = m - 1" using assms by (simp add: floor_eq_iff)
  then show ?thesis using assms False by (simp add: half_even_def Let_def)
qed

lemma pow2_pos [simp]: "0 < pow2 e"
  by (simp add: pow2_def)

lemma binary64_zero [simp]: "binary64 0 = 0"
  by (simp add: binary64_def)

text \<open>The error of one rounding is at most half a unit in the last place.\<close>

lemma binary64_near: "\<bar>binary64 x - x\<bar> \<le> pow2 (max (exponent \<bar>x\<bar> - 52) (- 1074)) / 2"
proof (cases "x = 0")
  case True
  then show ?thesis using pow2_pos [of "max (exponent \<bar>x\<bar> - 52) (- 1074)"] by (simp del: pow2_pos)
next
  case False
  let ?u = "pow2 (max (exponent \<bar>x\<bar> - 52) (- 1074))"
  have "binary64 x - x = (of_int (half_even (x / ?u)) - x / ?u) * ?u"
    using False by (simp add: binary64_def Let_def field_simps less_imp_neq [OF pow2_pos, symmetric])
  then have "\<bar>binary64 x - x\<bar> = \<bar>of_int (half_even (x / ?u)) - x / ?u\<bar> * ?u"
    by (simp add: abs_mult less_imp_le)
  also have "\<dots> \<le> 1 / 2 * ?u" using half_even_near by (intro mult_right_mono) (simp_all add: less_imp_le)
  finally show ?thesis by simp
qed

lemma binary64_int:
  assumes "\<bar>k\<bar> < 2 ^ 53"
  shows "binary64 (of_int k) = of_int k"
proof (cases "k = 0")
  case False
  have q: "quotient_of \<bar>of_int k\<bar> = (\<bar>k\<bar>, 1)" unfolding of_int_abs [symmetric] by (simp add: of_int_rat quotient_of_Fract normalize_def del: of_int_abs)
  have "nat \<bar>k\<bar> < 2 ^ 53" using assms by (simp add: nat_less_iff)
  then have "floorlog 2 (nat \<bar>k\<bar>) \<le> 53" by (simp add: floorlog_leI)
  then have "exponent \<bar>of_int k\<bar> \<le> 52" by (simp add: exponent_def q Let_def floorlog_def)
  then have "max (exponent \<bar>of_int k\<bar> - 52) (- 1074) \<le> 0" by simp
  then obtain j where u: "max (exponent \<bar>of_int k\<bar> - 52) (- 1074) = - int j" by (rule nonpos_int_cases)
  have "of_int k / pow2 (- int j) = of_int (k * 2 ^ j)" by (simp add: pow2_def)
  then have "of_int (half_even (of_int k / pow2 (- int j))) * pow2 (- int j) = of_int (k * 2 ^ j) * pow2 (- int j)"
    by (simp only: half_even_int)
  also have "\<dots> = of_int k" by (simp add: pow2_def)
  finally show ?thesis using False unfolding binary64_def u Let_def by simp
qed simp

lemma binary64_numeral [simp]:
  "(numeral n :: int) < 2 ^ 53 \<Longrightarrow> binary64 (numeral n) = numeral n"
  "(numeral n :: int) < 2 ^ 53 \<Longrightarrow> binary64 (- numeral n) = - numeral n"
  using binary64_int [of "numeral n"] binary64_int [of "- numeral n"] by simp_all

text \<open>The exponent is the only one of its kind, so that roundings can be computed by giving it.\<close>

lemma pow2_powi: "pow2 e = 2 powi e"
  unfolding pow2_def power_int_def by (simp add: power_one_over inverse_eq_divide)

lemma pow2_less: "pow2 a < pow2 b \<longleftrightarrow> a < b"
proof
  assume "pow2 a < pow2 b"
  then have "\<not> pow2 b \<le> pow2 a" by simp
  then show "a < b" unfolding pow2_powi using power_int_increasing [of b a "2 :: number"] by force
next
  assume "a < b"
  then show "pow2 a < pow2 b" unfolding pow2_powi by (intro power_int_strict_increasing) simp_all
qed

lemma pow2_diff: "pow2 (int a - int b) = 2 ^ a / 2 ^ b"
  unfolding pow2_powi by (simp add: power_int_diff)

lemma floorlog_bounds:
  assumes "0 < p"
  shows "(2 :: number) ^ floorlog 2 (nat p) \<le> 2 * of_int p" "(of_int p :: number) < 2 ^ floorlog 2 (nat p)"
proof -
  have b: "2 ^ (floorlog 2 (nat p) - 1) \<le> nat p" "nat p < 2 ^ floorlog 2 (nat p)"
    using floorlog_bounds [of "nat p" 2] assms by simp_all
  have pos: "0 < floorlog 2 (nat p)" using assms by (simp add: floorlog_def)
  have "(2 :: nat) ^ floorlog 2 (nat p) = 2 * 2 ^ (floorlog 2 (nat p) - 1)" using pos by (metis power_eq_if less_numeral_extra(3))
  then have "2 ^ floorlog 2 (nat p) \<le> 2 * nat p" using b(1) by simp
  then have "of_nat (2 ^ floorlog 2 (nat p)) \<le> (of_nat (2 * nat p) :: number)" by (rule of_nat_mono)
  then show "(2 :: number) ^ floorlog 2 (nat p) \<le> 2 * of_int p" using assms by simp
  have "of_nat (nat p) < (of_nat (2 ^ floorlog 2 (nat p)) :: number)" using b(2) by (simp only: of_nat_less_iff)
  then show "(of_int p :: number) < 2 ^ floorlog 2 (nat p)" using assms by simp
qed

lemma exponentI:
  assumes "pow2 e \<le> x" "x < pow2 (e + 1)"
  shows "exponent x = e"
proof -
  obtain p q where pq: "quotient_of x = (p, q)" by fastforce
  have q: "0 < q" using quotient_of_denom_pos [OF pq] .
  have x: "x = of_int p / of_int q" using quotient_of_div [OF pq] .
  have "0 < x" using assms(1) pow2_pos [of e] by linarith
  then have p: "0 < p" using q x by (simp add: zero_less_divide_iff)
  let ?a = "floorlog 2 (nat p)" and ?b = "floorlog 2 (nat q)"
  let ?k = "int ?a - int ?b"
  have "x < 2 ^ ?a / (2 ^ ?b / 2)"
    unfolding x using floorlog_bounds [OF p] floorlog_bounds [OF q] p q
    by (intro frac_less) (simp_all add: field_simps)
  then have upper: "x < pow2 (?k + 1)" by (simp add: pow2_powi power_int_add power_int_diff)
  have "2 ^ ?a / 2 / 2 ^ ?b < x"
    unfolding x using floorlog_bounds [OF p] floorlog_bounds [OF q] p q
    by (intro frac_less2) (simp_all add: field_simps)
  then have lower: "pow2 (?k - 1) < x" by (simp add: pow2_powi power_int_diff)
  show ?thesis
  proof (cases "x \<ge> pow2 ?k")
    case True
    have "pow2 ?k < pow2 (e + 1)" "pow2 e < pow2 (?k + 1)" using True assms upper by linarith+
    then have "?k = e" unfolding pow2_less by linarith
    then show ?thesis using True by (simp add: exponent_def pq Let_def)
  next
    case False
    have "pow2 (?k - 1) < pow2 (e + 1)" "pow2 e < pow2 ?k" using False assms lower by linarith+
    then have "?k - 1 = e" unfolding pow2_less by linarith
    then show ?thesis using False by (simp add: exponent_def pq Let_def)
  qed
qed

lemma binary64I:
  assumes "x \<noteq> 0" "pow2 e \<le> \<bar>x\<bar>" "\<bar>x\<bar> < pow2 (e + 1)" "- 1022 \<le> e" "\<bar>x / pow2 (e - 52) - of_int m\<bar> < 1 / 2" "y = of_int m * pow2 (e - 52)"
  shows "binary64 x = y"
proof -
  have "max (exponent \<bar>x\<bar> - 52) (- 1074) = e - 52" using exponentI [OF assms(2,3)] assms(4) by simp
  then show ?thesis using assms(1,6) half_evenI [OF assms(5)] by (simp add: binary64_def Let_def)
qed

text \<open>One tenth, as JavaScript has it; taking a half away and adding it again does not give it back.\<close>

lemma binary64_tenth: "binary64 (1 / 10) = 3602879701896397 / 36028797018963968"
  by (rule binary64I [where e = "- 4" and m = 7205759403792794]) (simp_all add: pow2_def)

end
