(* ===== verification/Escrow.thy ===== *)
theory Escrow
  imports Payments Doubles
begin

text \<open>
  \<open>EscrowService\<close> (src/src/escrowes/escrow.service.ts): locking the buyer's money on a fresh
  Stellar account, releasing it to the seller in full or in part, refunding it, freezing it and
  letting an administrator split it. The network is a parameter: it answers a payment, given the
  number of submissions so far, with a transaction hash or an exception.
\<close>

subsection \<open>The network\<close>

type_synonym network = "nat \<Rightarrow> stellar_payment \<Rightarrow> error + string"

text \<open>Building loads the paying account and submitting sends the payment; either may throw, and
  \<open>network\<close> answers for both.\<close>

definition buildTransaction :: "string \<Rightarrow> string \<Rightarrow> number \<Rightarrow> stellar_payment" where
  "buildTransaction from_key to_key amount = \<lparr>sp_from = from_key, sp_to = to_key, sp_amount = amount\<rparr>"

definition submitTransaction :: "network \<Rightarrow> stellar_payment \<Rightarrow> db \<Rightarrow> (string, db) result" where
  "submitTransaction net tx s = (case net (attempts s) tx of
       Inl e \<Rightarrow> (Inl e, s\<lparr>attempts := attempts s + 1\<rparr>)
     | Inr hash \<Rightarrow> (Inr hash, s\<lparr>attempts := attempts s + 1, ledger := ledger s @ [tx]\<rparr>))"

subsection \<open>Rows and answers\<close>

record create_escrow_dto =
  ce_orderId :: uuid
  ce_buyerPublicKey :: string
  ce_sellerPublicKey :: string
  ce_amount :: number

record escrow_response =
  er_id :: uuid
  er_orderId :: uuid
  er_buyerPublicKey :: string
  er_sellerPublicKey :: string
  er_amount :: number
  er_escrowAccountPublicKey :: string
  er_status :: escrow_status
  er_lockTransactionHash :: "string option"
  er_releaseTransactionHash :: "string option"
  er_refundTransactionHash :: "string option"
  er_createdAt :: time

definition or_null :: "string option \<Rightarrow> string option" where
  "or_null x = (if truthy_text x then x else None)"

definition mapToResponse :: "escrow_row \<Rightarrow> escrow_response" where
  "mapToResponse e = \<lparr>er_id = e_id e, er_orderId = e_orderId e, er_buyerPublicKey = e_buyerPublicKey e,
     er_sellerPublicKey = e_sellerPublicKey e, er_amount = e_amount e,
     er_escrowAccountPublicKey = e_escrowAccountPublicKey e, er_status = e_status e,
     er_lockTransactionHash = or_null (e_lockTransactionHash e),
     er_releaseTransactionHash = or_null (e_releaseTransactionHash e),
     er_refundTransactionHash = or_null (e_refundTransactionHash e), er_createdAt = e_createdAt e\<rparr>"

text \<open>The three amounts are \<open>decimal(20, 7)\<close> columns.\<close>

definition round_escrow :: "escrow_row \<Rightarrow> escrow_row" where
  "round_escrow e = e\<lparr>e_amount := round_to 7 (e_amount e), e_releasedAmount := round_to 7 (e_releasedAmount e),
     e_refundedAmount := round_to 7 (e_refundedAmount e)\<rparr>"

definition save_escrow :: "escrow_row \<Rightarrow> db \<Rightarrow> db" where
  "save_escrow e s = s\<lparr>escrows := tbl_save e_id (round_escrow e) (escrows s)\<rparr>"

definition findEscrowOrFail :: "uuid \<Rightarrow> db \<Rightarrow> (escrow_row, db) result" where
  "findEscrowOrFail eid s = (case tbl_find e_id eid (escrows s) of
       None \<Rightarrow> (Inl (NotFoundException [Txt ''Escrow not found: '', Txt eid]), s)
     | Some escrow \<Rightarrow> (Inr escrow, s))"

text \<open>\<open>escrowTransitionValidator.validate\<close> as a statement of an operation.\<close>

definition check_transition :: "escrow_row \<Rightarrow> escrow_status \<Rightarrow> db \<Rightarrow> (unit, db) result" where
  "check_transition escrow st s = (validate escrowTransitionValidator (e_status escrow) st, s)"

subsection \<open>Operations\<close>

definition createEscrow ::
  "network \<Rightarrow> uuid \<Rightarrow> string \<Rightarrow> time \<Rightarrow> create_escrow_dto \<Rightarrow> db \<Rightarrow> (escrow_response, db) result" where
  "createEscrow net eid account now dto s =
     (if ce_amount dto \<le> 0
      then (Inl (BadRequestException [Txt ''Amount must be positive'']), s)
      else if ce_buyerPublicKey dto = ce_sellerPublicKey dto
      then (Inl (BadRequestException [Txt ''Buyer and seller cannot be the same'']), s)
      else
        let escrow = \<lparr>e_id = eid, e_orderId = ce_orderId dto, e_buyerPublicKey = ce_buyerPublicKey dto,
              e_sellerPublicKey = ce_sellerPublicKey dto, e_amount = ce_amount dto, e_releasedAmount = 0,
              e_refundedAmount = 0, e_escrowAccountPublicKey = account, e_lockTransactionHash = None,
              e_releaseTransactionHash = None, e_refundTransactionHash = None, e_status = ES_PENDING,
              e_deliveryConfirmedAt = None, e_cancelledAt = None, e_errorMessage = None,
              e_disputeFlag = False, e_createdAt = now\<rparr>
        in and_then (submitTransaction net (buildTransaction (ce_buyerPublicKey dto) account (ce_amount dto))
               (save_escrow escrow s))
             (\<lambda>txHash s1.
               let savedEscrow = escrow\<lparr>e_lockTransactionHash := Some txHash, e_status := ES_LOCKED\<rparr>
               in (Inr (mapToResponse savedEscrow), save_escrow savedEscrow s1)))"

definition releaseFunds :: "network \<Rightarrow> time \<Rightarrow> uuid \<Rightarrow> db \<Rightarrow> (escrow_response, db) result" where
  "releaseFunds net now escrowId s =
     and_then (findEscrowOrFail escrowId s) (\<lambda>escrow s.
     and_then (check_transition escrow ES_RELEASED s) (\<lambda>_ s.
     and_then (submitTransaction net (buildTransaction (e_escrowAccountPublicKey escrow)
         (e_sellerPublicKey escrow) (e_amount escrow)) s) (\<lambda>hash s.
       let escrow = escrow\<lparr>e_releaseTransactionHash := Some hash, e_status := ES_RELEASED,
             e_deliveryConfirmedAt := Some now\<rparr>
       in (Inr (mapToResponse escrow), save_escrow escrow s))))"

text \<open>The block \<open>if (amount > 0) { ... }\<close> of the two operations that split the money; the hash
  stays \<open>null\<close> when nothing is due.\<close>

definition pay_if_positive ::
  "network \<Rightarrow> string \<Rightarrow> string \<Rightarrow> number \<Rightarrow> db \<Rightarrow> (string option, db) result" where
  "pay_if_positive net from_key to_key amount s =
     (if amount > 0
      then and_then (submitTransaction net (buildTransaction from_key to_key amount) s) (\<lambda>hash s. (Inr (Some hash), s))
      else (Inr None, s))"

definition releasePartial :: "network \<Rightarrow> uuid \<Rightarrow> number \<Rightarrow> db \<Rightarrow> (escrow_response, db) result" where
  "releasePartial net escrowId releasedAmount s =
     and_then (findEscrowOrFail escrowId s) (\<lambda>escrow s.
     and_then (check_transition escrow ES_PARTIALLY_RELEASED s) (\<lambda>_ s.
       if releasedAmount \<le> 0
       then (Inl (BadRequestException [Txt ''Released amount must be positive'']), s)
       else if releasedAmount > e_amount escrow
       then (Inl (BadRequestException [Txt ''Released amount exceeds escrow balance'']), s)
       else
         let refundAmount = e_amount escrow - releasedAmount in
         catching
           (and_then (submitTransaction net (buildTransaction (e_escrowAccountPublicKey escrow)
                (e_sellerPublicKey escrow) releasedAmount) s) (\<lambda>releaseHash s.
            and_then (pay_if_positive net (e_escrowAccountPublicKey escrow) (e_buyerPublicKey escrow)
                refundAmount s) (\<lambda>refundHash s.
              let escrow = escrow\<lparr>e_releaseTransactionHash := Some releaseHash,
                    e_refundTransactionHash := refundHash, e_releasedAmount := releasedAmount,
                    e_refundedAmount := refundAmount,
                    e_status := (if refundAmount > 0 then ES_PARTIALLY_RELEASED else ES_RELEASED)\<rparr>
              in (Inr (mapToResponse escrow), save_escrow escrow s))))
           (\<lambda>e s. (Inl (BadRequestException (Txt ''Failed partial release: '' # error_message e)),
              save_escrow (escrow\<lparr>e_errorMessage := Some (error_message e)\<rparr>) s))))"

definition freezeEscrow :: "uuid \<Rightarrow> db \<Rightarrow> (escrow_response, db) result" where
  "freezeEscrow escrowId s =
     and_then (findEscrowOrFail escrowId s) (\<lambda>escrow s.
     and_then (check_transition escrow ES_FROZEN s) (\<lambda>_ s.
       let escrow = escrow\<lparr>e_status := ES_FROZEN\<rparr>
       in (Inr (mapToResponse escrow), save_escrow escrow s)))"

text \<open>
  \<open>!==\<close> compares the sum of the parts, a rounded one, with the value the driver returned for the amount
  column: a number is the one of JavaScript nearest to the decimal.
\<close>

definition js_double :: "jsval \<Rightarrow> jsval" where
  "js_double v = (case v of JNum x \<Rightarrow> JNum (binary64 x) | _ \<Rightarrow> v)"

definition adminReleaseFunds ::
  "(nat \<Rightarrow> number \<Rightarrow> jsval) \<Rightarrow> network \<Rightarrow> time \<Rightarrow> uuid \<Rightarrow> number \<Rightarrow> number \<Rightarrow> db \<Rightarrow> (escrow_response, db) result" where
  "adminReleaseFunds hyd net now escrowId toSeller toBuyer s =
     and_then (findEscrowOrFail escrowId s) (\<lambda>escrow s.
       if e_status escrow \<noteq> ES_FROZEN
       then (Inl (BadRequestException [Txt ''Can only release frozen escrow, current status: '',
              Txt (escrow_status_text (e_status escrow))]), s)
       else if JNum (binary64 (toSeller + toBuyer)) \<noteq> js_double (hyd 7 (e_amount escrow))
       then (Inl (BadRequestException [Txt ''Distribution must equal total escrow amount'']), s)
       else
         catching
           (and_then (pay_if_positive net (e_escrowAccountPublicKey escrow) (e_sellerPublicKey escrow)
                toSeller s) (\<lambda>releaseHash s.
            and_then (pay_if_positive net (e_escrowAccountPublicKey escrow) (e_buyerPublicKey escrow)
                toBuyer s) (\<lambda>refundHash s.
              let escrow = escrow\<lparr>e_releaseTransactionHash := releaseHash,
                    e_refundTransactionHash := refundHash, e_status := ES_RELEASED,
                    e_deliveryConfirmedAt := Some now\<rparr>
              in (Inr (mapToResponse escrow), save_escrow escrow s))))
           (\<lambda>e s. (Inl (BadRequestException (Txt ''Failed to release frozen escrow: '' # error_message e)),
              save_escrow (escrow\<lparr>e_errorMessage := Some (error_message e)\<rparr>) s)))"

definition refundBuyer :: "network \<Rightarrow> time \<Rightarrow> uuid \<Rightarrow> db \<Rightarrow> (escrow_response, db) result" where
  "refundBuyer net now escrowId s =
     and_then (findEscrowOrFail escrowId s) (\<lambda>escrow s.
     and_then (check_transition escrow ES_REFUNDED s) (\<lambda>_ s.
     and_then (submitTransaction net (buildTransaction (e_escrowAccountPublicKey escrow)
         (e_buyerPublicKey escrow) (e_amount escrow)) s) (\<lambda>hash s.
       let escrow = escrow\<lparr>e_refundTransactionHash := Some hash, e_refundedAmount := e_amount escrow,
             e_releasedAmount := 0, e_status := ES_REFUNDED, e_cancelledAt := Some now\<rparr>
       in (Inr (mapToResponse escrow), save_escrow escrow s))))"

definition getEscrow :: "uuid \<Rightarrow> db \<Rightarrow> (escrow_response, db) result" where
  "getEscrow escrowId s = and_then (findEscrowOrFail escrowId s) (\<lambda>escrow s. (Inr (mapToResponse escrow), s))"

definition getEscrowByOrderId :: "uuid \<Rightarrow> db \<Rightarrow> (escrow_response, db) result" where
  "getEscrowByOrderId orderId s = (case List.find (\<lambda>e. e_orderId e = orderId) (escrows s) of
       None \<Rightarrow> (Inl (NotFoundException [Txt ''Escrow not found for order: '', Txt orderId]), s)
     | Some escrow \<Rightarrow> (Inr (mapToResponse escrow), s))"

subsection \<open>What the operations do to the table and the ledger\<close>

lemma escrow_targets [simp]:
  "ES_RELEASED \<in> set (escrowTransitions a) \<longleftrightarrow> a = ES_LOCKED \<or> a = ES_PARTIALLY_RELEASED"
  "ES_REFUNDED \<in> set (escrowTransitions a) \<longleftrightarrow> a = ES_LOCKED \<or> a = ES_FROZEN \<or> a = ES_PARTIALLY_RELEASED"
  "ES_FROZEN \<in> set (escrowTransitions a) \<longleftrightarrow> a = ES_LOCKED"
  "ES_PARTIALLY_RELEASED \<in> set (escrowTransitions a) \<longleftrightarrow> a = ES_LOCKED"
  by (cases a; simp)+

lemma find_escrow [simp]:
  "findEscrowOrFail eid s = (Inr e, t) \<longleftrightarrow> tbl_find e_id eid (escrows s) = Some e \<and> t = s"
  "findEscrowOrFail eid s = (Inl err, t) \<longleftrightarrow>
     tbl_find e_id eid (escrows s) = None \<and> t = s \<and> err = NotFoundException [Txt ''Escrow not found: '', Txt eid]"
  by (auto simp: findEscrowOrFail_def split: option.splits)

lemma check_transition_cases:
  "check_transition e st s =
    (if st \<in> set (escrowTransitions (e_status e)) then Inr ()
     else Inl (invalid_transition escrowTransitionValidator (e_status e) st), s)"
  by (cases "validate escrowTransitionValidator (e_status e) st") (auto simp: check_transition_def)

lemma round_escrow_simps [simp]:
  "e_id (round_escrow e) = e_id e" "e_status (round_escrow e) = e_status e"
  "e_escrowAccountPublicKey (round_escrow e) = e_escrowAccountPublicKey e"
  "e_amount (round_escrow e) = round_to 7 (e_amount e)" "e_orderId (round_escrow e) = e_orderId e"
  "e_sellerPublicKey (round_escrow e) = e_sellerPublicKey e" "e_buyerPublicKey (round_escrow e) = e_buyerPublicKey e"
  "e_disputeFlag (round_escrow e) = e_disputeFlag e" "e_errorMessage (round_escrow e) = e_errorMessage e"
  by (simp_all add: round_escrow_def)

lemma save_escrow_simps [simp]:
  "escrows (save_escrow e s) = tbl_save e_id (round_escrow e) (escrows s)"
  "ledger (save_escrow e s) = ledger s" "attempts (save_escrow e s) = attempts s"
  "orders (save_escrow e s) = orders s" "disputes (save_escrow e s) = disputes s"
  "events (save_escrow e s) = events s" "payments (save_escrow e s) = payments s"
  by (simp_all add: save_escrow_def)

lemma submit_simps [simp]:
  "escrows (snd (submitTransaction net tx s)) = escrows s"
  "fst (submitTransaction net tx s) = net (attempts s) tx"
  by (auto simp: submitTransaction_def split: sum.splits)

lemma submit_Inr:
  "submitTransaction net tx s = (Inr h, t) \<longleftrightarrow>
   net (attempts s) tx = Inr h \<and> t = s\<lparr>attempts := attempts s + 1, ledger := ledger s @ [tx]\<rparr>"
  by (auto simp: submitTransaction_def split: sum.splits)

lemma submit_Inl:
  "submitTransaction net tx s = (Inl e, t) \<longleftrightarrow>
   net (attempts s) tx = Inl e \<and> t = s\<lparr>attempts := attempts s + 1\<rparr>"
  by (auto simp: submitTransaction_def split: sum.splits)

lemma build_simps [simp]:
  "sp_from (buildTransaction a b n) = a" "sp_to (buildTransaction a b n) = b" "sp_amount (buildTransaction a b n) = n"
  by (simp_all add: buildTransaction_def)

lemmas escrow_ops = releaseFunds_def releasePartial_def freezeEscrow_def adminReleaseFunds_def refundBuyer_def

text \<open>
  Property C30: an escrow that was released, refunded or cancelled is closed. Each of the five
  operations on it throws, whatever the network does, and leaves the table of escrows and the
  ledger of payments as they were.
\<close>

theorem closed_escrow_pays_nothing:
  assumes "tbl_find e_id eid (escrows s) = Some e" and "e_status e \<in> {ES_RELEASED, ES_REFUNDED, ES_CANCELLED}"
    and "(r, t) \<in> {releaseFunds net now eid s, releasePartial net eid amount s, freezeEscrow eid s,
      adminReleaseFunds hyd net now eid toSeller toBuyer s, refundBuyer net now eid s}"
  shows "(\<exists>err. r = Inl err) \<and> t = s"
proof -
  have found: "findEscrowOrFail eid s = (Inr e, s)" using assms(1) by simp
  from assms(2) have "ES_RELEASED \<notin> set (escrowTransitions (e_status e))"
    "ES_PARTIALLY_RELEASED \<notin> set (escrowTransitions (e_status e))" "ES_FROZEN \<notin> set (escrowTransitions (e_status e))"
    "ES_REFUNDED \<notin> set (escrowTransitions (e_status e))" "e_status e \<noteq> ES_FROZEN" by auto
  with assms(3) show ?thesis
    by (auto simp del: escrow_targets simp: escrow_ops found check_transition_cases)
qed

subsection \<open>Accounting\<close>

definition paid_out :: "string \<Rightarrow> stellar_payment list \<Rightarrow> number" where
  "paid_out account l = sum_by sp_amount (filter (\<lambda>p. sp_from p = account) l)"

lemma paid_out_append [simp]: "paid_out a (l @ m) = paid_out a l + paid_out a m"
  by (simp add: paid_out_def)

lemma paid_out_own: "\<forall>p \<in> set ps. sp_from p = a \<Longrightarrow> paid_out a ps = sum_by sp_amount ps"
  by (simp add: paid_out_def)

lemma paid_out_none: "\<forall>p \<in> set ps. sp_from p \<noteq> a \<Longrightarrow> paid_out a ps = 0"
  by (induction ps) (auto simp: paid_out_def)

text \<open>
  What an escrow's account may have paid, by the status of the escrow. An administrator divides the
  amount into two parts whose sum JavaScript finds equal to it, and the positive ones are paid.
\<close>

definition divided :: "number \<Rightarrow> number \<Rightarrow> bool" where
  "divided amount paid \<longleftrightarrow> (\<exists>a b. binary64 (a + b) = binary64 amount \<and> paid = max 0 a + max 0 b)"

fun accounts_for :: "escrow_status \<Rightarrow> number \<Rightarrow> number \<Rightarrow> bool" where
  "accounts_for ES_PARTIALLY_RELEASED amount paid \<longleftrightarrow> paid = amount"
| "accounts_for ES_RELEASED amount paid \<longleftrightarrow> paid = amount \<or> paid = 2 * amount \<or> divided amount paid"
| "accounts_for ES_REFUNDED amount paid \<longleftrightarrow> paid = amount \<or> paid = 2 * amount"
| "accounts_for _ amount paid \<longleftrightarrow> paid = 0"

definition books_balance :: "db \<Rightarrow> bool" where
  "books_balance s \<longleftrightarrow> distinct (map e_id (escrows s)) \<and> distinct (map e_escrowAccountPublicKey (escrows s)) \<and>
     (\<forall>e \<in> set (escrows s). e_amount e = round_to 7 (e_amount e) \<and>
        accounts_for (e_status e) (e_amount e) (paid_out (e_escrowAccountPublicKey e) (ledger s)))"

definition reliable :: "network \<Rightarrow> bool" where
  "reliable net \<longleftrightarrow> (\<forall>n tx. \<exists>hash. net n tx = Inr hash)"

text \<open>An operation on one escrow: it moves the row on and pays from the row's account only.\<close>

definition escrow_move :: "db \<Rightarrow> db \<Rightarrow> bool" where
  "escrow_move s t \<longleftrightarrow> (\<exists>e e' ps. tbl_find e_id (e_id e) (escrows s) = Some e \<and> e_id e' = e_id e \<and>
     e_escrowAccountPublicKey e' = e_escrowAccountPublicKey e \<and> e_amount e' = round_to 7 (e_amount e) \<and>
     escrows t = tbl_save e_id e' (escrows s) \<and> ledger t = ledger s @ ps \<and>
     (\<forall>p \<in> set ps. sp_from p = e_escrowAccountPublicKey e) \<and>
     (\<forall>paid. accounts_for (e_status e) (e_amount e) paid \<longrightarrow>
        accounts_for (e_status e') (e_amount e) (paid + sum_by sp_amount ps)))"

lemma escrow_moveI:
  assumes "tbl_find e_id (e_id e) (escrows s) = Some e" and "e_id e' = e_id e"
    and "e_escrowAccountPublicKey e' = e_escrowAccountPublicKey e" and "e_amount e' = e_amount e"
    and "escrows t = tbl_save e_id (round_escrow e') (escrows s)" and "ledger t = ledger s @ ps"
    and "\<forall>p \<in> set ps. sp_from p = e_escrowAccountPublicKey e"
    and "\<And>paid. accounts_for (e_status e) (e_amount e) paid \<Longrightarrow>
      accounts_for (e_status e') (e_amount e) (paid + sum_by sp_amount ps)"
  shows "escrow_move s t"
  unfolding escrow_move_def
  by (rule exI [of _ e], rule exI [of _ "round_escrow e'"], rule exI [of _ ps]) (use assms in auto)

lemma move_keeps_books:
  assumes "books_balance s" and "escrow_move s t"
  shows "books_balance t"
proof -
  obtain e e' ps where m: "tbl_find e_id (e_id e) (escrows s) = Some e" "e_id e' = e_id e"
    "e_escrowAccountPublicKey e' = e_escrowAccountPublicKey e" "e_amount e' = round_to 7 (e_amount e)"
    "escrows t = tbl_save e_id e' (escrows s)" "ledger t = ledger s @ ps"
    "\<forall>p \<in> set ps. sp_from p = e_escrowAccountPublicKey e"
    "\<forall>paid. accounts_for (e_status e) (e_amount e) paid \<longrightarrow>
        accounts_for (e_status e') (e_amount e) (paid + sum_by sp_amount ps)"
    using assms(2) unfolding escrow_move_def by blast
  note b = assms(1) [unfolded books_balance_def]
  have e: "e \<in> set (escrows s)" using m(1) by (rule tbl_find_mem)
  have kept: "e_amount x = round_to 7 (e_amount x) \<and>
      accounts_for (e_status x) (e_amount x) (paid_out (e_escrowAccountPublicKey x) (ledger t))"
    if "x \<in> set (escrows t)" for x
  proof -
    consider "x = e'" | "x \<in> set (escrows s)" "e_id x \<noteq> e_id e"
      using \<open>x \<in> set (escrows t)\<close> tbl_save_others [of x e_id e' "escrows s"] b m(2,5) by auto
    then show ?thesis
    proof cases
      case 1
      have "e_amount e = round_to 7 (e_amount e)" using b e by simp
      moreover from this have "e_amount e' = e_amount e" using m(4) by simp
      moreover have "paid_out (e_escrowAccountPublicKey e) ps = sum_by sp_amount ps"
        using m(7) by (rule paid_out_own)
      moreover have "accounts_for (e_status e) (e_amount e) (paid_out (e_escrowAccountPublicKey e) (ledger s))"
        using b e by simp
      ultimately show ?thesis using m(3,6,8) 1 by simp
    next
      case 2
      then have "e_escrowAccountPublicKey x \<noteq> e_escrowAccountPublicKey e"
        using b e by (metis distinct_map inj_on_def)
      then have "paid_out (e_escrowAccountPublicKey x) ps = 0"
        using m(7) by (intro paid_out_none) auto
      then show ?thesis using 2 b m(6) by simp
    qed
  qed
  have "map e_escrowAccountPublicKey (escrows t) = map e_escrowAccountPublicKey (escrows s)"
    unfolding m(5) by (rule tbl_save_map [where old = e]) (use m in simp_all)
  moreover have "distinct (map e_id (escrows t))" using b m(5) by (simp add: tbl_save_distinct)
  ultimately show ?thesis using b kept by (simp add: books_balance_def)
qed

text \<open>Each operation, on a network that answers, is such a move or changes nothing.\<close>

definition moves_or_rests :: "db \<Rightarrow> db \<Rightarrow> bool" where
  "moves_or_rests s t \<longleftrightarrow> escrow_move s t \<or> (escrows t = escrows s \<and> ledger t = ledger s)"

lemma reliable_submit:
  assumes "reliable net"
  shows "\<exists>h. submitTransaction net tx s = (Inr h, s\<lparr>attempts := attempts s + 1, ledger := ledger s @ [tx]\<rparr>)"
  using assms by (metis reliable_def submit_Inr)

lemma restsI: "escrows t = escrows s \<Longrightarrow> ledger t = ledger s \<Longrightarrow> moves_or_rests s t"
  by (simp add: moves_or_rests_def)

lemma release_moves:
  assumes "reliable net"
  shows "moves_or_rests s (snd (releaseFunds net now eid s))"
proof (cases "tbl_find e_id eid (escrows s)")
  case (Some e)
  have key: "e_id e = eid" using Some by (rule tbl_find_key)
  let ?tx = "buildTransaction (e_escrowAccountPublicKey e) (e_sellerPublicKey e) (e_amount e)"
  obtain h where h: "submitTransaction net ?tx s = (Inr h, s\<lparr>attempts := attempts s + 1, ledger := ledger s @ [?tx]\<rparr>)"
    using reliable_submit [OF assms] by blast
  have found: "findEscrowOrFail eid s = (Inr e, s)" using Some by simp
  show ?thesis
  proof (cases "ES_RELEASED \<in> set (escrowTransitions (e_status e))")
    case True
    then show ?thesis
      unfolding moves_or_rests_def
      by (intro disjI1 escrow_moveI [where e = e and ps = "[?tx]" and
            e' = "e\<lparr>e_releaseTransactionHash := Some h, e_status := ES_RELEASED, e_deliveryConfirmedAt := Some now\<rparr>"])
        (use Some key in \<open>auto simp: releaseFunds_def found check_transition_cases Let_def h\<close>)
  qed (auto simp: releaseFunds_def found check_transition_cases intro: restsI)
qed (simp add: releaseFunds_def findEscrowOrFail_def restsI)

lemma refund_moves:
  assumes "reliable net"
  shows "moves_or_rests s (snd (refundBuyer net now eid s))"
proof (cases "tbl_find e_id eid (escrows s)")
  case (Some e)
  have key: "e_id e = eid" using Some by (rule tbl_find_key)
  let ?tx = "buildTransaction (e_escrowAccountPublicKey e) (e_buyerPublicKey e) (e_amount e)"
  obtain h where h: "submitTransaction net ?tx s = (Inr h, s\<lparr>attempts := attempts s + 1, ledger := ledger s @ [?tx]\<rparr>)"
    using reliable_submit [OF assms] by blast
  have found: "findEscrowOrFail eid s = (Inr e, s)" using Some by simp
  show ?thesis
  proof (cases "ES_REFUNDED \<in> set (escrowTransitions (e_status e))")
    case True
    then show ?thesis
      unfolding moves_or_rests_def
      by (intro disjI1 escrow_moveI [where e = e and ps = "[?tx]" and
            e' = "e\<lparr>e_refundTransactionHash := Some h, e_refundedAmount := e_amount e, e_releasedAmount := 0,
              e_status := ES_REFUNDED, e_cancelledAt := Some now\<rparr>"])
        (use Some key in \<open>auto simp: refundBuyer_def found check_transition_cases Let_def h\<close>)
  qed (auto simp: refundBuyer_def found check_transition_cases intro: restsI)
qed (simp add: refundBuyer_def findEscrowOrFail_def restsI)

lemma freeze_moves: "moves_or_rests s (snd (freezeEscrow eid s))"
proof (cases "tbl_find e_id eid (escrows s)")
  case (Some e)
  have key: "e_id e = eid" using Some by (rule tbl_find_key)
  have found: "findEscrowOrFail eid s = (Inr e, s)" using Some by simp
  show ?thesis
  proof (cases "ES_FROZEN \<in> set (escrowTransitions (e_status e))")
    case True
    then show ?thesis
      unfolding moves_or_rests_def
      by (intro disjI1 escrow_moveI [where e = e and ps = "[]" and e' = "e\<lparr>e_status := ES_FROZEN\<rparr>"])
        (use Some key in \<open>auto simp: freezeEscrow_def found check_transition_cases Let_def\<close>)
  qed (auto simp: freezeEscrow_def found check_transition_cases intro: restsI)
qed (simp add: freezeEscrow_def findEscrowOrFail_def restsI)

lemma reliable_pay:
  assumes "reliable net"
  shows "\<exists>h n. pay_if_positive net a b amount s =
    (Inr h, s\<lparr>attempts := n, ledger := ledger s @ (if amount > 0 then [buildTransaction a b amount] else [])\<rparr>)"
proof (cases "amount > 0")
  case True
  then show ?thesis
    using reliable_submit [OF assms, of "buildTransaction a b amount" s] by (auto simp: pay_if_positive_def)
next
  case False
  then show ?thesis by (intro exI [of _ None] exI [of _ "attempts s"]) (simp add: pay_if_positive_def)
qed

lemma partial_moves:
  assumes "reliable net"
  shows "moves_or_rests s (snd (releasePartial net eid amount s))"
proof (cases "tbl_find e_id eid (escrows s)")
  case (Some e)
  have key: "e_id e = eid" using Some by (rule tbl_find_key)
  have found: "findEscrowOrFail eid s = (Inr e, s)" using Some by simp
  let ?rest = "e_amount e - amount"
  let ?tx = "buildTransaction (e_escrowAccountPublicKey e) (e_sellerPublicKey e) amount"
  let ?returned = "if ?rest > 0 then [buildTransaction (e_escrowAccountPublicKey e) (e_buyerPublicKey e) ?rest] else []"
  obtain h where h: "submitTransaction net ?tx s = (Inr h, s\<lparr>attempts := attempts s + 1, ledger := ledger s @ [?tx]\<rparr>)"
      (is "_ = (_, ?s1)") using reliable_submit [OF assms] by blast
  obtain g n where g: "pay_if_positive net (e_escrowAccountPublicKey e) (e_buyerPublicKey e) ?rest ?s1 =
      (Inr g, ?s1\<lparr>attempts := n, ledger := ledger ?s1 @ ?returned\<rparr>)" using reliable_pay [OF assms] by blast
  show ?thesis
  proof (cases "ES_PARTIALLY_RELEASED \<in> set (escrowTransitions (e_status e)) \<and> 0 < amount \<and> amount \<le> e_amount e")
    case True
    then show ?thesis
      unfolding moves_or_rests_def
      by (intro disjI1 escrow_moveI [where e = e and ps = "?tx # ?returned" and
            e' = "e\<lparr>e_releaseTransactionHash := Some h, e_refundTransactionHash := g, e_releasedAmount := amount,
              e_refundedAmount := ?rest, e_status := (if ?rest > 0 then ES_PARTIALLY_RELEASED else ES_RELEASED)\<rparr>"])
        (use Some key g in \<open>auto simp: releasePartial_def found check_transition_cases Let_def h\<close>)
  qed (auto simp: releasePartial_def found check_transition_cases Let_def intro: restsI)
qed (simp add: releasePartial_def findEscrowOrFail_def restsI)

lemma admin_moves:
  assumes "reliable net" and "decimal_driver hyd" and "books_balance s"
  shows "moves_or_rests s (snd (adminReleaseFunds hyd net now eid toSeller toBuyer s))"
proof (cases "tbl_find e_id eid (escrows s)")
  case (Some e)
  have key: "e_id e = eid" using Some by (rule tbl_find_key)
  have found: "findEscrowOrFail eid s = (Inr e, s)" using Some by simp
  let ?a = "e_escrowAccountPublicKey e"
  let ?sell = "if toSeller > 0 then [buildTransaction ?a (e_sellerPublicKey e) toSeller] else []"
  let ?buy = "if toBuyer > 0 then [buildTransaction ?a (e_buyerPublicKey e) toBuyer] else []"
  obtain h n where h: "pay_if_positive net ?a (e_sellerPublicKey e) toSeller s =
      (Inr h, s\<lparr>attempts := n, ledger := ledger s @ ?sell\<rparr>)" (is "_ = (_, ?s1)")
    using reliable_pay [OF assms(1)] by blast
  obtain g m where g: "pay_if_positive net ?a (e_buyerPublicKey e) toBuyer ?s1 =
      (Inr g, ?s1\<lparr>attempts := m, ledger := ledger ?s1 @ ?buy\<rparr>)" using reliable_pay [OF assms(1)] by blast
  show ?thesis
  proof (cases "e_status e = ES_FROZEN \<and> JNum (binary64 (toSeller + toBuyer)) = js_double (hyd 7 (e_amount e))")
    case True
    have "e_amount e = round_to 7 (e_amount e)"
      using assms(3) Some tbl_find_mem by (fastforce simp: books_balance_def)
    then obtain k where k: "e_amount e = of_int k / 10 ^ 7" using round_to_grid by metis
    from True obtain r where r: "hyd 7 (of_int k / 10 ^ 7) = JNum r" "binary64 r = binary64 (toSeller + toBuyer)"
      using k by (auto simp: js_double_def split: jsval.splits)
    have "r = e_amount e" unfolding k by (rule decimal_driver.strict_equal_value [OF assms(2) r(1)])
    then have "binary64 (toSeller + toBuyer) = binary64 (e_amount e)" using r(2) by simp
    then have parts: "divided (e_amount e) (sum_by sp_amount (?sell @ ?buy))"
      unfolding divided_def by (intro exI [of _ toSeller] exI [of _ toBuyer]) (auto simp: buildTransaction_def max_def)
    show ?thesis
      unfolding moves_or_rests_def
    proof (intro disjI1 escrow_moveI [where e = e and ps = "?sell @ ?buy" and
            e' = "e\<lparr>e_releaseTransactionHash := h, e_refundTransactionHash := g, e_status := ES_RELEASED,
              e_deliveryConfirmedAt := Some now\<rparr>"])
      fix paid
      assume "accounts_for (e_status e) (e_amount e) paid"
      then have "paid = 0" using True by simp
      then show "accounts_for (e_status (e\<lparr>e_releaseTransactionHash := h, e_refundTransactionHash := g, e_status := ES_RELEASED,
              e_deliveryConfirmedAt := Some now\<rparr>)) (e_amount e) (paid + sum_by sp_amount (?sell @ ?buy))"
        using parts by simp
    qed (use True Some key h g in \<open>auto simp: adminReleaseFunds_def found Let_def\<close>)
  qed (auto simp: adminReleaseFunds_def found Let_def intro: restsI)
qed (simp add: adminReleaseFunds_def findEscrowOrFail_def restsI)

lemma create_keeps_books:
  assumes "reliable net" and "books_balance s" and "eid \<notin> e_id ` set (escrows s)"
    and "account \<notin> e_escrowAccountPublicKey ` set (escrows s) \<union> sp_from ` set (ledger s)"
    and "ce_buyerPublicKey dto \<notin> insert account (e_escrowAccountPublicKey ` set (escrows s))"
  shows "books_balance (snd (createEscrow net eid account now dto s))"
proof (cases "0 < ce_amount dto \<and> ce_buyerPublicKey dto \<noteq> ce_sellerPublicKey dto")
  case True
  let ?tx = "buildTransaction (ce_buyerPublicKey dto) account (ce_amount dto)"
  let ?s = "snd (createEscrow net eid account now dto s)"
  have new: "\<exists>e. escrows ?s = escrows s @ [e] \<and> ledger ?s = ledger s @ [?tx] \<and> e_id e = eid \<and>
      e_escrowAccountPublicKey e = account \<and> e_amount e = round_to 7 (ce_amount dto) \<and> e_status e = ES_LOCKED"
  proof -
    obtain h where "net (attempts s) ?tx = Inr h" using assms(1) unfolding reliable_def by blast
    then have h: "submitTransaction net ?tx (save_escrow x s) =
        (Inr h, (save_escrow x s)\<lparr>attempts := attempts s + 1, ledger := ledger s @ [?tx]\<rparr>)" for x
      by (simp add: submit_Inr)
    have "tbl_save e_id e (tbl_save e_id e' (escrows s)) = escrows s @ [e]"
      if "e_id e = eid" "e_id e' = eid" for e e'
      using that assms(3) by (simp add: tbl_save_fresh tbl_save_replace)
    with True show ?thesis by (auto simp: createEscrow_def Let_def h)
  qed
  then obtain e where e: "escrows ?s = escrows s @ [e]" "ledger ?s = ledger s @ [?tx]" "e_id e = eid"
    "e_escrowAccountPublicKey e = account" "e_amount e = round_to 7 (ce_amount dto)" "e_status e = ES_LOCKED" by blast
  have "paid_out account (ledger s) = 0" using assms(4) by (intro paid_out_none) auto
  moreover have "paid_out a [?tx] = 0" if "a \<in> insert account (e_escrowAccountPublicKey ` set (escrows s))" for a
    using that assms(5) by (intro paid_out_none) auto
  ultimately show ?thesis using assms(2-4) e by (auto simp: books_balance_def)
next
  case False
  then have "snd (createEscrow net eid account now dto s) = s" by (auto simp: createEscrow_def)
  with assms(2) show ?thesis by simp
qed

text \<open>
  One operation of the service, with any arguments. A new escrow gets a random account, so one no
  payment came from, and no buyer pays from the account of an escrow.
\<close>

inductive escrow_step :: "network \<Rightarrow> db \<Rightarrow> db \<Rightarrow> bool" for net where
  create: "eid \<notin> e_id ` set (escrows s) \<Longrightarrow>
    account \<notin> e_escrowAccountPublicKey ` set (escrows s) \<union> sp_from ` set (ledger s) \<Longrightarrow>
    ce_buyerPublicKey dto \<notin> insert account (e_escrowAccountPublicKey ` set (escrows s)) \<Longrightarrow>
    escrow_step net s (snd (createEscrow net eid account now dto s))"
| release: "escrow_step net s (snd (releaseFunds net now eid s))"
| partial: "escrow_step net s (snd (releasePartial net eid amount s))"
| freeze: "escrow_step net s (snd (freezeEscrow eid s))"
| admin: "decimal_driver hyd \<Longrightarrow>
    escrow_step net s (snd (adminReleaseFunds hyd net now eid toSeller toBuyer s))"
| refund: "escrow_step net s (snd (refundBuyer net now eid s))"

inductive escrow_reachable :: "network \<Rightarrow> db \<Rightarrow> bool" for net where
  no_escrow: "escrows s = [] \<Longrightarrow> escrow_reachable net s"
| escrow_steps: "escrow_reachable net s \<Longrightarrow> escrow_step net s t \<Longrightarrow> escrow_reachable net t"

lemma rests_keeps_books: "books_balance s \<Longrightarrow> moves_or_rests s t \<Longrightarrow> books_balance t"
  by (auto simp: moves_or_rests_def intro: move_keeps_books) (simp add: books_balance_def)


subsection \<open>A concrete run\<close>

definition willing :: network where "willing n tx = Inr ''H''"

definition sample_escrow_dto :: create_escrow_dto where
  "sample_escrow_dto = \<lparr>ce_orderId = ''o'', ce_buyerPublicKey = ''B'', ce_sellerPublicKey = ''S'', ce_amount = 100\<rparr>"

text \<open>Create with a hundred, release forty (the buyer gets the rest back), then refund.\<close>

definition escrow_run1 :: db where "escrow_run1 = snd (createEscrow willing ''e'' ''K'' 0 sample_escrow_dto empty_db)"
definition escrow_run2 :: db where "escrow_run2 = snd (releasePartial willing ''e'' 40 escrow_run1)"
definition escrow_run3 :: db where "escrow_run3 = snd (refundBuyer willing 5 ''e'' escrow_run2)"

lemma hundred: "round_to 7 100 = 100" "round_to 7 40 = 40" "round_to 7 60 = 60"
  using round_to_exact [of 7 "1000000000"] round_to_exact [of 7 "400000000"] round_to_exact [of 7 "600000000"]
  by simp_all

lemmas run_simps = createEscrow_def sample_escrow_dto_def submitTransaction_def willing_def buildTransaction_def
  releasePartial_def refundBuyer_def findEscrowOrFail_def check_transition_cases round_escrow_def save_escrow_def
  pay_if_positive_def hundred Let_def

lemma escrow_runs:
  "\<exists>e. escrows escrow_run3 = [e] \<and> e_amount e = 100 \<and> e_escrowAccountPublicKey e = ''K'' \<and> e_status e = ES_REFUNDED"
  "paid_out ''K'' (ledger escrow_run3) = 200"
  by (simp_all add: escrow_run3_def escrow_run2_def escrow_run1_def run_simps empty_db_def paid_out_def)


theorem closed_escrow_pays_nothing_witness:
  "snd (releaseFunds willing 9 ''e'' escrow_run3) = escrow_run3"
proof -
  obtain e where e: "escrows escrow_run3 = [e]" "e_status e = ES_REFUNDED"
    using escrow_runs by blast
  moreover have "e_id e = ''e''"
    using e(1) by (auto simp: escrow_run3_def escrow_run2_def escrow_run1_def run_simps empty_db_def)
  ultimately have "tbl_find e_id ''e'' (escrows escrow_run3) = Some e" by simp
  moreover have "e_status e \<in> {ES_RELEASED, ES_REFUNDED, ES_CANCELLED}" using e by simp
  ultimately show ?thesis
    using closed_escrow_pays_nothing [of "''e''" escrow_run3 e "fst (releaseFunds willing 9 ''e'' escrow_run3)"
        "snd (releaseFunds willing 9 ''e'' escrow_run3)" willing 9] by simp
qed

subsection \<open>Splitting goes wrong\<close>

text \<open>
  Property C33: when the network accepts the seller's part of a partial release but refuses the
  buyer's, the operation throws, the escrow stays locked with the message as its error, and the
  seller keeps the part. If the network then accepts a release of the escrow, for which its account
  needs other funds, the seller is paid the whole amount on top.
\<close>

theorem refused_refund_leg_pays_seller_twice:
  assumes "tbl_find e_id eid (escrows s) = Some e" and "e_status e = ES_LOCKED" and "e_amount e = round_to 7 (e_amount e)"
    and "0 < amount" and "amount < e_amount e"
    and "net (attempts s) (buildTransaction (e_escrowAccountPublicKey e) (e_sellerPublicKey e) amount) = Inr h"
    and "net (attempts s + 1) (buildTransaction (e_escrowAccountPublicKey e) (e_buyerPublicKey e) (e_amount e - amount)) = Inl err"
    and "net (attempts s + 2) (buildTransaction (e_escrowAccountPublicKey e) (e_sellerPublicKey e) (e_amount e)) = Inr g"
  shows "\<exists>t e' r u. releasePartial net eid amount s =
        (Inl (BadRequestException (Txt ''Failed partial release: '' # error_message err)), t) \<and>
      tbl_find e_id eid (escrows t) = Some e' \<and> e_status e' = ES_LOCKED \<and> e_errorMessage e' = Some (error_message err) \<and>
      releaseFunds net now eid t = (Inr r, u) \<and>
      ledger u = ledger s @ [buildTransaction (e_escrowAccountPublicKey e) (e_sellerPublicKey e) amount,
        buildTransaction (e_escrowAccountPublicKey e) (e_sellerPublicKey e) (e_amount e)]"
proof -
  have key: "e_id e = eid" using assms(1) by (rule tbl_find_key)
  have found: "findEscrowOrFail eid s = (Inr e, s)" using assms(1) by simp
  have "releasePartial net eid amount s =
      (Inl (BadRequestException (Txt ''Failed partial release: '' # error_message err)),
       save_escrow (e\<lparr>e_errorMessage := Some (error_message err)\<rparr>)
         (s\<lparr>ledger := ledger s @ [buildTransaction (e_escrowAccountPublicKey e) (e_sellerPublicKey e) amount],
            attempts := attempts s + 2\<rparr>))"
    using assms(2,4-7)
    by (simp add: releasePartial_def found check_transition_cases pay_if_positive_def submitTransaction_def Let_def)
  moreover have "round_escrow (e\<lparr>e_errorMessage := Some (error_message err)\<rparr>) =
      (round_escrow e)\<lparr>e_errorMessage := Some (error_message err)\<rparr>" by (simp add: round_escrow_def)
  ultimately show ?thesis
    using assms(1-3,8) key
    by (simp add: releaseFunds_def findEscrowOrFail_def check_transition_cases submitTransaction_def Let_def save_escrow_def)
qed

definition flaky :: network where
  "flaky n tx = (if n = 2 then Inl (Error [Txt ''timeout'']) else Inr ''H'')"

theorem refused_refund_leg_pays_seller_twice_witness:
  "\<exists>t. snd (releasePartial flaky ''e'' 40 escrow_run1) = t \<and>
     paid_out ''K'' (ledger (snd (releaseFunds flaky 9 ''e'' t))) = 140"
proof -
  obtain e where e: "tbl_find e_id ''e'' (escrows escrow_run1) = Some e" "e_status e = ES_LOCKED" "e_amount e = 100"
      "e_escrowAccountPublicKey e = ''K''"
    by (auto simp: escrow_run1_def run_simps empty_db_def)
  have "attempts escrow_run1 = 1" "paid_out ''K'' (ledger escrow_run1) = 0"
    by (simp_all add: escrow_run1_def run_simps empty_db_def paid_out_def)
  with refused_refund_leg_pays_seller_twice [OF e(1,2), of 40 flaky "''H''" "Error [Txt ''timeout'']" "''H''" 9] e
  show ?thesis by (auto simp: hundred flaky_def paid_out_def)
qed

text \<open>
  With a driver that returns decimal columns as text, as the PostgreSQL driver does,
  an administrator can never release a frozen escrow: the sum of the parts is a number, and no
  number is strictly equal to a text, so that every distribution is refused.
\<close>

lemma admin_release_fails_with_pg_driver:
  "(\<exists>err. fst (adminReleaseFunds pg_column net now eid toSeller toBuyer s) = Inl err) \<and>
   snd (adminReleaseFunds pg_column net now eid toSeller toBuyer s) = s"
  by (cases "tbl_find e_id eid (escrows s)") (auto simp: adminReleaseFunds_def findEscrowOrFail_def pg_column_def js_double_def)

end
