(* ===== verification/Disputes.thy ===== *)
theory Disputes
  imports Escrow
begin

text \<open>
  \<open>DisputesService\<close> (src/src/disputes/disputes.service.ts) with its state machine
  (dispute.state-machine.ts): opening a dispute freezes its escrow, evidence, escalation, the
  administrator's update and resolution, and the automatic resolution. New ids and the clock are
  parameters; the notes that have no column are not kept.
\<close>

subsection \<open>Rows\<close>

record create_dispute_dto =
  cd_transactionId :: string
  cd_complainantId :: uuid
  cd_respondentId :: uuid
  cd_reason :: string
  cd_escrowId :: "uuid option"
  cd_description :: "string option"
  cd_imageUrls :: "string option"

record submit_evidence_dto =
  se_disputeId :: uuid
  se_submittedBy :: uuid
  se_fileUrl :: string
  se_description :: "string option"

record update_dispute_dto =
  ud_disputeId :: uuid
  ud_status :: "dispute_status option"

record resolve_dispute_dto =
  rd_adminDecision :: string
  rd_refundAmount :: "number option"

definition save_dispute :: "dispute_row \<Rightarrow> db \<Rightarrow> db" where
  "save_dispute d s = s\<lparr>disputes := tbl_save d_id d (disputes s)\<rparr>"

definition evidences_of :: "uuid \<Rightarrow> db \<Rightarrow> evidence_row list" where
  "evidences_of did s = filter (\<lambda>ev. ev_disputeId ev = did) (evidences s)"

subsection \<open>The state machine\<close>

definition ms_per_day :: int where "ms_per_day = 1000 * 60 * 60 * 24"

definition shouldAutoResolve :: "dispute_row \<Rightarrow> evidence_row list \<Rightarrow> time \<Rightarrow> number \<Rightarrow> bool" where
  "shouldAutoResolve dispute evs now autoResolveDays =
     (if d_status dispute \<noteq> DS_OPEN then False
      else
        let msSinceCreated = now - d_createdAt dispute;
            daysSinceCreated = of_int msSinceCreated / of_int ms_per_day;
            respondentEvidence = list_ex (\<lambda>ev. ev_submittedBy ev = d_respondentId dispute) evs
        in daysSinceCreated \<ge> autoResolveDays \<and> \<not> respondentEvidence)"

subsection \<open>Operations\<close>

definition set_dispute_flag :: "uuid \<Rightarrow> db \<Rightarrow> db" where
  "set_dispute_flag eid s = s\<lparr>escrows := map (\<lambda>e. if e_id e = eid then e\<lparr>e_disputeFlag := True\<rparr> else e) (escrows s)\<rparr>"

definition createDispute :: "uuid \<Rightarrow> time \<Rightarrow> create_dispute_dto \<Rightarrow> db \<Rightarrow> (dispute_row, db) result" where
  "createDispute did now dto s =
     (let dispute = \<lparr>d_id = did, d_transactionId = cd_transactionId dto, d_complainantId = cd_complainantId dto,
            d_respondentId = cd_respondentId dto, d_reason = cd_reason dto, d_status = DS_OPEN,
            d_createdAt = now, d_escrowId = cd_escrowId dto, d_description = cd_description dto,
            d_imageUrls = cd_imageUrls dto\<rparr>;
          s = save_dispute dispute s
      in case or_null (cd_escrowId dto) of
           None \<Rightarrow> (Inr dispute, s)
         | Some escrowId \<Rightarrow>
           catching
             (and_then (freezeEscrow escrowId s) (\<lambda>_ s. (Inr dispute, set_dispute_flag escrowId s)))
             (\<lambda>e s. (Inl (BadRequestException (Txt ''Failed to freeze escrow: '' # error_message e)), s)))"

definition getDisputeById :: "uuid \<Rightarrow> db \<Rightarrow> (dispute_row, db) result" where
  "getDisputeById did s = (case tbl_find d_id did (disputes s) of
       None \<Rightarrow> (Inl (NotFoundException [Txt ''Dispute not found'']), s)
     | Some dispute \<Rightarrow> (Inr dispute, s))"

text \<open>The filter is a predicate here; the rows come newest first.\<close>

definition listDisputes :: "(dispute_row \<Rightarrow> bool) \<Rightarrow> db \<Rightarrow> dispute_row list" where
  "listDisputes keep s = rev (sort_key d_createdAt (filter keep (disputes s)))"

definition submitEvidence :: "uuid \<Rightarrow> time \<Rightarrow> submit_evidence_dto \<Rightarrow> db \<Rightarrow> (evidence_row, db) result" where
  "submitEvidence evid now dto s =
     and_then (getDisputeById (se_disputeId dto) s) (\<lambda>dispute s.
       if d_status dispute = DS_RESOLVED \<or> d_status dispute = DS_REJECTED
       then (Inl (BadRequestException [Txt ''Cannot submit evidence to a closed dispute'']), s)
       else
         let ev = \<lparr>ev_id = evid, ev_disputeId = se_disputeId dto, ev_submittedBy = se_submittedBy dto,
               ev_fileUrl = se_fileUrl dto, ev_description = se_description dto, ev_createdAt = now\<rparr>
         in (Inr ev, s\<lparr>evidences := tbl_save ev_id ev (evidences s)\<rparr>))"

definition escalateDispute :: "uuid \<Rightarrow> uuid \<Rightarrow> db \<Rightarrow> (dispute_row, db) result" where
  "escalateDispute disputeId userId s =
     and_then (getDisputeById disputeId s) (\<lambda>dispute s.
       if d_complainantId dispute \<noteq> userId
       then (Inl (ForbiddenException [Txt ''Only the complainant can escalate the dispute'']), s)
       else if \<not> canTransition (d_status dispute) DS_ESCALATED
       then (Inl (BadRequestException [Txt ''Cannot escalate dispute from current status'']), s)
       else
         let dispute = dispute\<lparr>d_status := DS_ESCALATED\<rparr>
         in (Inr dispute, save_dispute dispute s))"

definition adminUpdateDispute :: "update_dispute_dto \<Rightarrow> db \<Rightarrow> (dispute_row, db) result" where
  "adminUpdateDispute dto s =
     and_then (getDisputeById (ud_disputeId dto) s) (\<lambda>dispute s.
       case ud_status dto of
         Some st \<Rightarrow>
           if \<not> canTransition (d_status dispute) st
           then (Inl (BadRequestException [Txt ''Invalid status transition'']), s)
           else
             let dispute = dispute\<lparr>d_status := st\<rparr>
             in (Inr dispute, save_dispute dispute s)
       | None \<Rightarrow> (Inr dispute, save_dispute dispute s))"

fun auto_resolve_loop :: "time \<Rightarrow> dispute_row list \<Rightarrow> nat \<Rightarrow> db \<Rightarrow> nat \<times> db" where
  "auto_resolve_loop now [] resolvedCount s = (resolvedCount, s)"
| "auto_resolve_loop now (dispute # ds) resolvedCount s =
     (if shouldAutoResolve dispute (evidences_of (d_id dispute) s) now 3
      then auto_resolve_loop now ds (resolvedCount + 1) (save_dispute (dispute\<lparr>d_status := DS_AUTO_RESOLVED\<rparr>) s)
      else auto_resolve_loop now ds resolvedCount s)"

definition autoResolveDisputes :: "time \<Rightarrow> db \<Rightarrow> nat \<times> db" where
  "autoResolveDisputes now s = auto_resolve_loop now (filter (\<lambda>d. d_status d = DS_OPEN) (disputes s)) 0 s"

definition adminResolveDispute ::
  "(nat \<Rightarrow> number \<Rightarrow> jsval) \<Rightarrow> network \<Rightarrow> time \<Rightarrow> resolve_dispute_dto \<Rightarrow> uuid \<Rightarrow> db \<Rightarrow> (dispute_row, db) result" where
  "adminResolveDispute hyd net now dto disputeId s =
     and_then (getDisputeById disputeId s) (\<lambda>dispute s.
       if \<not> canTransition (d_status dispute) DS_RESOLVED
       then (Inl (BadRequestException [Txt ''Cannot resolve dispute from current status'']), s)
       else
         and_then
           (case or_null (d_escrowId dispute) of
              None \<Rightarrow> (Inr (), s)
            | Some escrowId \<Rightarrow>
              catching
                (and_then (findEscrowOrFail escrowId s) (\<lambda>escrow s.
                   let totalAmount = binary64 (e_amount escrow);
                       refundAmount = or_num (rd_refundAmount dto) 0
                   in and_then (adminReleaseFunds hyd net now escrowId (binary64 (totalAmount - refundAmount)) refundAmount s)
                        (\<lambda>_ s. (Inr (), s))))
                (\<lambda>e s. (Inl (BadRequestException (Txt ''Failed to distribute funds: '' # error_message e)), s)))
           (\<lambda>_ s.
             let dispute = dispute\<lparr>d_status := DS_RESOLVED\<rparr>
             in (Inr dispute, save_dispute dispute s)))"

subsection \<open>Frames\<close>

lemma getDispute [simp]:
  "getDisputeById did s = (Inr d, t) \<longleftrightarrow> tbl_find d_id did (disputes s) = Some d \<and> t = s"
  "getDisputeById did s = (Inl err, t) \<longleftrightarrow>
     tbl_find d_id did (disputes s) = None \<and> t = s \<and> err = NotFoundException [Txt ''Dispute not found'']"
  by (auto simp: getDisputeById_def split: option.splits)

lemma save_dispute_simps [simp]:
  "disputes (save_dispute d s) = tbl_save d_id d (disputes s)" "escrows (save_dispute d s) = escrows s"
  "evidences (save_dispute d s) = evidences s" "ledger (save_dispute d s) = ledger s"
  "attempts (save_dispute d s) = attempts s" "orders (save_dispute d s) = orders s"
  by (simp_all add: save_dispute_def)

lemma set_flag_simps [simp]:
  "disputes (set_dispute_flag eid s) = disputes s" "ledger (set_dispute_flag eid s) = ledger s"
  "tbl_find e_id k (escrows (set_dispute_flag eid s)) =
     map_option (\<lambda>e. if k = eid then e\<lparr>e_disputeFlag := True\<rparr> else e) (tbl_find e_id k (escrows s))"
proof -
  have "tbl_find e_id k (map (\<lambda>e. if e_id e = eid then e\<lparr>e_disputeFlag := True\<rparr> else e) es) =
     map_option (\<lambda>e. if k = eid then e\<lparr>e_disputeFlag := True\<rparr> else e) (tbl_find e_id k es)" for es
    by (induction es) auto
  then show "tbl_find e_id k (escrows (set_dispute_flag eid s)) =
     map_option (\<lambda>e. if k = eid then e\<lparr>e_disputeFlag := True\<rparr> else e) (tbl_find e_id k (escrows s))"
    by (simp add: set_dispute_flag_def)
qed (simp_all add: set_dispute_flag_def)

lemma submit_keeps_disputes [simp]: "disputes (snd (submitTransaction net tx s)) = disputes s"
  by (auto simp: submitTransaction_def split: sum.splits)

lemma pay_keeps_disputes [simp]: "disputes (snd (pay_if_positive net a b n s)) = disputes s"
  unfolding pay_if_positive_def
  by (auto intro!: and_then_keeps [where Q = "\<lambda>t. disputes t = disputes s"])

lemma escrow_keeps_disputes [simp]:
  "disputes (snd (freezeEscrow eid s)) = disputes s"
  "disputes (snd (adminReleaseFunds hyd net now eid a b s)) = disputes s"
proof -
  have found: "disputes (snd (findEscrowOrFail eid s)) = disputes s"
    by (simp add: findEscrowOrFail_def split: option.split)
  have pay: "pay_if_positive net a b n t = (x, u) \<Longrightarrow> disputes u = disputes t" for a b n t x u
    using pay_keeps_disputes [of net a b n t] by simp
  show "disputes (snd (freezeEscrow eid s)) = disputes s"
    unfolding freezeEscrow_def
    by (auto simp: check_transition_cases found Let_def split: and_then_splits)
  show "disputes (snd (adminReleaseFunds hyd net now eid a b s)) = disputes s"
    unfolding adminReleaseFunds_def catching_def
    by (auto simp: found Let_def split: and_then_splits sum.splits dest!: pay)
qed

subsection \<open>The life of a dispute\<close>

inductive dispute_step :: "db \<Rightarrow> db \<Rightarrow> bool" where
  raise: "did \<notin> d_id ` set (disputes s) \<Longrightarrow> dispute_step s (snd (createDispute did now dto s))"
| attach: "dispute_step s (snd (submitEvidence evid now edto s))"
| escalate: "dispute_step s (snd (escalateDispute did userId s))"
| amend: "dispute_step s (snd (adminUpdateDispute udto s))"
| lapse: "dispute_step s (snd (autoResolveDisputes now s))"
| settle: "dispute_step s (snd (adminResolveDispute hyd net now rdto did s))"

lemma tbl_save_as_map:
  "distinct (map key t) \<Longrightarrow> tbl_find key (key r) t = Some old \<Longrightarrow>
   tbl_save key r t = map (\<lambda>x. if key x = key r then r else x) t"
proof (induction t)
  case (Cons x t)
  show ?case
  proof (cases "key x = key r")
    case True
    moreover have "key x \<notin> key ` set t" using Cons.prems(1) by simp
    ultimately have "\<forall>y \<in> set t. key y \<noteq> key r" by (metis imageI)
    then have "map (\<lambda>x. if key x = key r then r else x) t = t" by (intro map_idI) auto
    with True show ?thesis by simp
  next
    case False
    then show ?thesis using Cons by simp
  qed
qed simp

definition due :: "db \<Rightarrow> time \<Rightarrow> dispute_row \<Rightarrow> bool" where
  "due s now d \<longleftrightarrow> d_status d = DS_OPEN \<and> now - d_createdAt d \<ge> 3 * ms_per_day \<and>
     (\<forall>ev \<in> set (evidences s). ev_disputeId ev = d_id d \<longrightarrow> ev_submittedBy ev \<noteq> d_respondentId d)"

lemma shouldAutoResolve_due: "shouldAutoResolve d (evidences_of (d_id d) s) now 3 \<longleftrightarrow> due s now d"
proof -
  have "(3::number) \<le> of_int (now - d_createdAt d) / of_int ms_per_day \<longleftrightarrow> 3 * ms_per_day \<le> now - d_createdAt d"
    by (simp add: ms_per_day_def le_divide_eq flip: of_int_diff)
  then show ?thesis
    by (auto simp: shouldAutoResolve_def due_def evidences_of_def list_ex_iff Let_def)
qed

lemma auto_resolve_loop_map:
  assumes "distinct (map d_id ds)" and "\<forall>d \<in> set ds. tbl_find d_id (d_id d) (disputes s) = Some d"
    and "distinct (map d_id (disputes s))"
  shows "fst (auto_resolve_loop now ds n s) = n + length (filter (due s now) ds) \<and>
    disputes (snd (auto_resolve_loop now ds n s)) =
      map (\<lambda>x. if x \<in> set ds \<and> due s now x then x\<lparr>d_status := DS_AUTO_RESOLVED\<rparr> else x) (disputes s) \<and>
    escrows (snd (auto_resolve_loop now ds n s)) = escrows s \<and> ledger (snd (auto_resolve_loop now ds n s)) = ledger s"
  using assms
proof (induction ds arbitrary: n s)
  case (Cons d ds)
  have self: "tbl_find d_id (d_id x) (disputes s) = Some x" if "x \<in> set (disputes s)" for x
    using Cons.prems(3) that by (rule tbl_find_distinct)
  have found: "tbl_find d_id (d_id d) (disputes s) = Some d" using Cons.prems(2) by simp
  then have unique: "x = d" if "x \<in> set (disputes s)" "d_id x = d_id d" for x
    using self [OF that(1)] unfolding that(2) by simp
  show ?case
  proof (cases "due s now d")
    case True
    define s1 where "s1 = save_dispute (d\<lparr>d_status := DS_AUTO_RESOLVED\<rparr>) s"
    have rows: "disputes s1 = map (\<lambda>x. if d_id x = d_id d then d\<lparr>d_status := DS_AUTO_RESOLVED\<rparr> else x) (disputes s)"
      unfolding s1_def using tbl_save_as_map [OF Cons.prems(3), of "d\<lparr>d_status := DS_AUTO_RESOLVED\<rparr>" d] found by simp
    have same: "due s1 now x = due s now x" for x by (simp add: due_def s1_def)
    have "\<forall>x \<in> set ds. tbl_find d_id (d_id x) (disputes s1) = Some x"
    proof
      fix x assume x: "x \<in> set ds"
      then have "d_id x \<noteq> d_id d" using Cons.prems(1) by (metis distinct.simps(2) imageI list.map(2) list.set_map)
      with x Cons.prems(2) show "tbl_find d_id (d_id x) (disputes s1) = Some x" by (simp add: s1_def)
    qed
    moreover have "distinct (map d_id (disputes s1))" using Cons.prems(3) by (simp add: s1_def tbl_save_distinct)
    ultimately have IH: "fst (auto_resolve_loop now ds (n + 1) s1) = n + 1 + length (filter (due s1 now) ds)"
      "disputes (snd (auto_resolve_loop now ds (n + 1) s1)) =
        map (\<lambda>x. if x \<in> set ds \<and> due s1 now x then x\<lparr>d_status := DS_AUTO_RESOLVED\<rparr> else x) (disputes s1)"
      "escrows (snd (auto_resolve_loop now ds (n + 1) s1)) = escrows s1"
      "ledger (snd (auto_resolve_loop now ds (n + 1) s1)) = ledger s1"
      using Cons.IH [of s1 "n + 1"] Cons.prems(1) by auto
    have step: "auto_resolve_loop now (d # ds) n s = auto_resolve_loop now ds (n + 1) s1"
      using True by (simp add: shouldAutoResolve_due s1_def)
    have "\<not> due s now (d\<lparr>d_status := DS_AUTO_RESOLVED\<rparr>)" by (simp add: due_def)
    then have "disputes (snd (auto_resolve_loop now (d # ds) n s)) =
      map (\<lambda>x. if x \<in> set (d # ds) \<and> due s now x then x\<lparr>d_status := DS_AUTO_RESOLVED\<rparr> else x) (disputes s)"
      unfolding step IH(2) rows using True Cons.prems(1) by (auto simp: same dest: unique)
    moreover have "due s1 now = due s now" "escrows s1 = escrows s" "ledger s1 = ledger s"
      using same by (auto simp: s1_def)
    ultimately show ?thesis unfolding step using IH(1,3,4) True by simp
  next
    case False
    then have step: "auto_resolve_loop now (d # ds) n s = auto_resolve_loop now ds n s"
      by (simp add: shouldAutoResolve_due)
    have "(\<lambda>x. if x \<in> set (d # ds) \<and> due s now x then x\<lparr>d_status := DS_AUTO_RESOLVED\<rparr> else x) =
      (\<lambda>x. if x \<in> set ds \<and> due s now x then x\<lparr>d_status := DS_AUTO_RESOLVED\<rparr> else x)"
      using False by auto
    then show ?thesis unfolding step using Cons.IH [of s n] Cons.prems False by simp
  qed
qed simp

lemma auto_resolve_run:
  assumes "distinct (map d_id (disputes s))"
  shows "fst (autoResolveDisputes now s) = length (filter (due s now) (disputes s)) \<and>
    disputes (snd (autoResolveDisputes now s)) =
      map (\<lambda>d. if due s now d then d\<lparr>d_status := DS_AUTO_RESOLVED\<rparr> else d) (disputes s) \<and>
    escrows (snd (autoResolveDisputes now s)) = escrows s \<and> ledger (snd (autoResolveDisputes now s)) = ledger s"
proof -
  let ?ds = "filter (\<lambda>d. d_status d = DS_OPEN) (disputes s)"
  have "distinct (map d_id ?ds)" using assms by (rule distinct_map_filter)
  moreover have "\<forall>d \<in> set ?ds. tbl_find d_id (d_id d) (disputes s) = Some d"
    using assms by (auto intro: tbl_find_distinct)
  moreover have "filter (due s now) ?ds = filter (due s now) (disputes s)"
    by (auto simp: due_def intro: filter_cong)
  moreover have "(if d \<in> set ?ds \<and> due s now d then d\<lparr>d_status := DS_AUTO_RESOLVED\<rparr> else d) =
      (if due s now d then d\<lparr>d_status := DS_AUTO_RESOLVED\<rparr> else d)" if "d \<in> set (disputes s)" for d
    using that by (auto simp: due_def)
  ultimately show ?thesis
    using auto_resolve_loop_map [of ?ds s now 0] assms
    by (auto simp: autoResolveDisputes_def intro!: map_cong)
qed

lemmas auto_resolve_rows = auto_resolve_run [THEN conjunct2, THEN conjunct1]

text \<open>
  Automatic resolution resolves exactly the disputes that are due (open for at least
  three days, with no evidence from the respondent), counts them, and leaves every other dispute,
  the escrows and the ledger as they are.
\<close>

lemma auto_resolution_exact:
  assumes "distinct (map d_id (disputes s))"
  shows "fst (autoResolveDisputes now s) = length (filter (due s now) (disputes s)) \<and>
    disputes (snd (autoResolveDisputes now s)) =
      map (\<lambda>d. if due s now d then d\<lparr>d_status := DS_AUTO_RESOLVED\<rparr> else d) (disputes s) \<and>
    escrows (snd (autoResolveDisputes now s)) = escrows s \<and> ledger (snd (autoResolveDisputes now s)) = ledger s"
  using assms by (rule auto_resolve_run)

definition table_move :: "dispute_row list \<Rightarrow> dispute_row list \<Rightarrow> bool" where
  "table_move ds es \<longleftrightarrow> distinct (map d_id es) \<and>
     (\<forall>did d. tbl_find d_id did ds = Some d \<longrightarrow> (\<exists>d'. tbl_find d_id did es = Some d' \<and>
        (d_status d' = d_status d \<or> canTransition (d_status d) (d_status d'))))"

lemma table_move_refl: "distinct (map d_id ds) \<Longrightarrow> table_move ds ds"
  by (simp add: table_move_def)

lemma table_move_save:
  assumes "distinct (map d_id ds)" and "tbl_find d_id (d_id d) ds = Some old \<or> tbl_find d_id (d_id d) ds = None"
    and "tbl_find d_id (d_id d) ds = Some old \<Longrightarrow> d_status d = d_status old \<or> canTransition (d_status old) (d_status d)"
  shows "table_move ds (tbl_save d_id d ds)"
  using assms by (auto simp: table_move_def tbl_save_distinct)

lemma table_move_status:
  assumes "distinct (map d_id ds)" and "tbl_find d_id did ds = Some d" and "canTransition (d_status d) st \<or> st = d_status d"
  shows "table_move ds (tbl_save d_id (d\<lparr>d_status := st\<rparr>) ds)"
  by (rule table_move_save [where old = d]) (use assms tbl_find_key [OF assms(2)] in auto)

lemma table_move_same:
  "distinct (map d_id ds) \<Longrightarrow> tbl_find d_id did ds = Some d \<Longrightarrow> table_move ds (tbl_save d_id d ds)"
  using table_move_status [of ds did d "d_status d"] by simp

lemma raise_moves:
  assumes "did \<notin> d_id ` set (disputes s)" and "distinct (map d_id (disputes s))"
  shows "table_move (disputes s) (disputes (snd (createDispute did now dto s)))" (is "table_move _ (disputes ?t)")
proof -
  let ?d = "\<lparr>d_id = did, d_transactionId = cd_transactionId dto, d_complainantId = cd_complainantId dto,
      d_respondentId = cd_respondentId dto, d_reason = cd_reason dto, d_status = DS_OPEN, d_createdAt = now,
      d_escrowId = cd_escrowId dto, d_description = cd_description dto, d_imageUrls = cd_imageUrls dto\<rparr>"
  have "disputes u = disputes v" if "freezeEscrow k v = (x, u)" for k u v x
    using escrow_keeps_disputes(1) [of k v] that by simp
  then have "disputes ?t = tbl_save d_id ?d (disputes s)"
    by (auto simp: createDispute_def Let_def catching_def split: option.splits and_then_splits sum.splits)
  moreover have "tbl_find d_id did (disputes s) = None" using assms(1) by (simp add: tbl_find_none_iff)
  ultimately show ?thesis using assms(2) by (auto intro!: table_move_save)
qed

lemma lapse_moves:
  assumes "distinct (map d_id (disputes s))"
  shows "table_move (disputes s) (disputes (snd (autoResolveDisputes now s)))"
proof -
  define t where "t = snd (autoResolveDisputes now s)"
  have rows: "disputes t = map (\<lambda>d. if due s now d then d\<lparr>d_status := DS_AUTO_RESOLVED\<rparr> else d) (disputes s)"
    unfolding t_def using assms by (rule auto_resolve_rows)
  have "tbl_find d_id k (map (\<lambda>d. if due s now d then d\<lparr>d_status := DS_AUTO_RESOLVED\<rparr> else d) ds) =
      map_option (\<lambda>d. if due s now d then d\<lparr>d_status := DS_AUTO_RESOLVED\<rparr> else d) (tbl_find d_id k ds)" for k ds
    by (induction ds) auto
  moreover have "distinct (map d_id (disputes t))"
  proof -
    have "d_id (if due s now d then d\<lparr>d_status := DS_AUTO_RESOLVED\<rparr> else d) = d_id d" for d by simp
    then show ?thesis using assms by (simp only: rows map_map comp_def)
  qed
  ultimately show ?thesis
    unfolding table_move_def t_def [symmetric] unfolding rows by (auto simp: due_def canTransition_def)
qed

lemma settle_moves:
  assumes "distinct (map d_id (disputes s))"
  shows "table_move (disputes s) (disputes (snd (adminResolveDispute hyd net now rdto did s)))"
proof -
  define t where "t = snd (adminResolveDispute hyd net now rdto did s)"
  have "table_move (disputes s) (disputes t)"
  proof (cases "disputes t = disputes s")
    case False
    have keep: "disputes u = disputes v" if "adminReleaseFunds hyd net now k a b v = (x, u)" for k a b u v x
      using escrow_keeps_disputes(2) [of hyd net now k a b v] that by simp
    from False obtain d where "tbl_find d_id did (disputes s) = Some d" "canTransition (d_status d) DS_RESOLVED"
      "disputes t = tbl_save d_id (d\<lparr>d_status := DS_RESOLVED\<rparr>) (disputes s)"
      unfolding t_def
      by (auto simp: adminResolveDispute_def Let_def catching_def dest: keep
          split: option.splits and_then_splits sum.splits if_splits)
    with assms show ?thesis by (simp add: table_move_status)
  qed (simp add: assms table_move_refl)
  then show ?thesis by (simp add: t_def)
qed

text \<open>
  Property C12: no operation of the service moves a dispute outside its table. Raising,
  attaching evidence, escalating, amending, lapsing and settling keep the ids unique, and leave
  every dispute that was there either in its status or in one the state machine allows next; so
  a resolved, rejected or automatically resolved dispute never changes again.
\<close>

theorem disputes_follow_table:
  assumes "dispute_step s t" and "distinct (map d_id (disputes s))"
  shows "table_move (disputes s) (disputes t)"
  using assms(1)
proof cases
  case (raise did now dto)
  then show ?thesis using raise_moves assms(2) by blast
next
  case (attach evid now edto)
  then have "disputes t = disputes s"
    by (auto simp: submitEvidence_def Let_def split: and_then_splits)
  with assms(2) show ?thesis by (simp add: table_move_refl)
next
  case (escalate did userId)
  then show ?thesis using assms(2)
    by (auto simp: escalateDispute_def Let_def table_move_refl split: and_then_splits intro: table_move_status)
next
  case (amend udto)
  then show ?thesis using assms(2)
    by (auto simp: adminUpdateDispute_def Let_def table_move_refl split: and_then_splits option.splits
        intro: table_move_status table_move_same)
next
  case (lapse now)
  then show ?thesis using lapse_moves assms(2) by blast
next
  case (settle hyd net now rdto did)
  then show ?thesis using settle_moves assms(2) by blast
qed

subsection \<open>Disputes and escrows\<close>

text \<open>
  Raising a dispute about an escrow. When the escrow is locked it ends frozen with
  its dispute flag set, and no payment is made. Otherwise the operation throws, but the dispute
  it was to open is in the table all the same, open.
\<close>

lemma raising_freezes_escrow:
  assumes "cd_escrowId dto = Some eid" and "eid \<noteq> []" and "tbl_find e_id eid (escrows s) = Some e"
  shows "\<exists>r t. createDispute did now dto s = (r, t) \<and> ledger t = ledger s \<and>
     (\<exists>d. tbl_find d_id did (disputes t) = Some d \<and> d_status d = DS_OPEN) \<and>
     (if e_status e = ES_LOCKED
      then (\<exists>d. r = Inr d) \<and> (\<exists>e'. tbl_find e_id eid (escrows t) = Some e' \<and> e_status e' = ES_FROZEN \<and> e_disputeFlag e')
      else (\<exists>err. r = Inl err) \<and> escrows t = escrows s)"
proof (cases "e_status e = ES_LOCKED")
  case True
  with assms tbl_find_key [OF assms(3)] show ?thesis
    by (auto simp: createDispute_def Let_def or_null_def freezeEscrow_def findEscrowOrFail_def check_transition_cases)
next
  case False
  with assms show ?thesis
    by (auto simp: createDispute_def Let_def or_null_def freezeEscrow_def findEscrowOrFail_def check_transition_cases)
qed

definition sample_dispute_dto :: create_dispute_dto where
  "sample_dispute_dto = \<lparr>cd_transactionId = ''t'', cd_complainantId = ''b'', cd_respondentId = ''s'',
     cd_reason = ''broken'', cd_escrowId = Some ''e'', cd_description = None, cd_imageUrls = None\<rparr>"

lemma locked_run: "\<exists>e. tbl_find e_id ''e'' (escrows escrow_run1) = Some e \<and> e_status e = ES_LOCKED \<and> e_amount e = 100"
  by (simp add: escrow_run1_def run_simps empty_db_def)

theorem raising_freezes_escrow_witness:
  "\<exists>e. tbl_find e_id ''e'' (escrows (snd (createDispute ''d'' 7 sample_dispute_dto escrow_run1))) = Some e \<and>
     e_status e = ES_FROZEN \<and> e_disputeFlag e"
proof -
  obtain e where "tbl_find e_id ''e'' (escrows escrow_run1) = Some e" "e_status e = ES_LOCKED"
    using locked_run by blast
  then show ?thesis
    using raising_freezes_escrow [of sample_dispute_dto "''e''" escrow_run1 e "''d''" 7]
    by (auto simp: sample_dispute_dto_def)
qed


text \<open>A tenth in escrow cannot be settled with a refund of 0.75: the rounding does not give the tenth back.\<close>

lemma refund_refused_by_rounding: "binary64 (binary64 (binary64 (1 / 10) - 3 / 4) + 3 / 4) \<noteq> binary64 (1 / 10)"
proof -
  have "binary64 (binary64 (1 / 10) - 3 / 4) = - 5854679515581645 / 9007199254740992"
    unfolding binary64_tenth by (rule binary64I [where e = "- 1" and m = "- 5854679515581645"]) (simp_all add: pow2_def)
  moreover have "binary64 (- 5854679515581645 / 9007199254740992 + 3 / 4) = (900719925474099 / 9007199254740992 :: number)"
    by (rule binary64I [where e = "- 4" and m = 7205759403792792]) (simp_all add: pow2_def)
  ultimately show ?thesis by (simp add: binary64_tenth)
qed

definition disputed_sale :: db where
  "disputed_sale = snd (createDispute ''d'' 7 sample_dispute_dto escrow_run1)"


theorem disputes_follow_table_witness:
  "table_move (disputes disputed_sale) (disputes (snd (escalateDispute ''d'' ''b'' disputed_sale)))"
proof -
  have "distinct (map d_id (disputes disputed_sale))"
    by (simp add: disputed_sale_def createDispute_def sample_dispute_dto_def Let_def or_null_def
        freezeEscrow_def escrow_run1_def run_simps empty_db_def save_dispute_def)
  then show ?thesis by (intro disputes_follow_table dispute_step.escalate)
qed

theorem auto_resolution_exact_witness:
  "fst (autoResolveDisputes (7 + 3 * ms_per_day) disputed_sale) = 1"
proof -
  have one: "\<exists>d. disputes disputed_sale = [d] \<and> d_status d = DS_OPEN \<and> d_createdAt d = 7" "evidences disputed_sale = []"
    by (simp_all add: disputed_sale_def createDispute_def sample_dispute_dto_def Let_def or_null_def
        freezeEscrow_def escrow_run1_def run_simps empty_db_def save_dispute_def set_dispute_flag_def)
  then show ?thesis using auto_resolution_exact [of disputed_sale "7 + 3 * ms_per_day"] by (auto simp: due_def)
qed

end
