(* ===== verification/AutoRelease.thy ===== *)
theory AutoRelease
  imports Disputes
begin

text \<open>
  \<open>EscrowAutoReleaseTask\<close> (src/src/scheduler/escrow-auto-release.task.ts): the daily job that
  releases the locked escrows whose order was delivered at least seven days ago and about which
  no dispute is open. The clock is read once per run here.
\<close>

subsection \<open>The job\<close>

definition delivered_long_ago :: "time \<Rightarrow> order_row \<Rightarrow> bool" where
  "delivered_long_ago now ord \<longleftrightarrow>
     (case o_deliveredAt ord of
        None \<Rightarrow> False
      | Some deliveryDate \<Rightarrow>
        let daysSinceDelivery = (now - deliveryDate) div ms_per_day
        in daysSinceDelivery \<ge> 7)"

definition findEligibleEscrows :: "time \<Rightarrow> db \<Rightarrow> escrow_row list" where
  "findEligibleEscrows now s =
     (let lockedEscrows = filter (\<lambda>e. e_status e = ES_LOCKED \<and> \<not> e_disputeFlag e) (escrows s)
      in filter (\<lambda>escrow. case tbl_find o_id (e_orderId escrow) (orders s) of
             None \<Rightarrow> False
           | Some order \<Rightarrow> o_status order = OS_DELIVERED \<and> delivered_long_ago now order) lockedEscrows)"

definition open_dispute :: "uuid \<Rightarrow> dispute_row \<Rightarrow> bool" where
  "open_dispute eid d \<longleftrightarrow> d_escrowId d = Some eid \<and> d_status d \<notin> {DS_RESOLVED, DS_REJECTED, DS_AUTO_RESOLVED}"

text \<open>\<open>executeSellerPayout\<close> only logs.\<close>

definition emitPaymentReleasedEvent :: "escrow_row \<Rightarrow> string \<Rightarrow> time \<Rightarrow> db \<Rightarrow> db" where
  "emitPaymentReleasedEvent escrow transactionHash now s =
     emit (PaymentReleasedEvent (e_id escrow) (e_orderId escrow) (e_sellerPublicKey escrow) (e_amount escrow)
       transactionHash now True) s"

definition processAutoRelease :: "network \<Rightarrow> time \<Rightarrow> escrow_row \<Rightarrow> db \<Rightarrow> (unit, db) result" where
  "processAutoRelease net now escrow s =
     (case List.find (open_dispute (e_id escrow)) (disputes s) of
        Some activeDispute \<Rightarrow> (Inr (), save_escrow (escrow\<lparr>e_disputeFlag := True\<rparr>) s)
      | None \<Rightarrow>
        and_then (releaseFunds net now (e_id escrow) s) (\<lambda>releasedEscrow s.
          let transactionHash = or_text (er_releaseTransactionHash releasedEscrow) ''pending''
          in (Inr (), emitPaymentReleasedEvent escrow transactionHash now s)))"

text \<open>A round that throws is counted and the loop goes on.\<close>

fun release_loop :: "network \<Rightarrow> time \<Rightarrow> escrow_row list \<Rightarrow> nat \<Rightarrow> nat \<Rightarrow> db \<Rightarrow> (nat \<times> nat) \<times> db" where
  "release_loop net now [] released failed s = ((released, failed), s)"
| "release_loop net now (escrow # es) released failed s =
     (case processAutoRelease net now escrow s of
        (Inr _, t) \<Rightarrow> release_loop net now es (released + 1) failed t
      | (Inl _, t) \<Rightarrow> release_loop net now es released (failed + 1) t)"

definition triggerManualRelease :: "network \<Rightarrow> time \<Rightarrow> db \<Rightarrow> (nat \<times> nat) \<times> db" where
  "triggerManualRelease net now s = release_loop net now (findEligibleEscrows now s) 0 0 s"

text \<open>The scheduled job runs the same loop and only logs the two counts.\<close>

definition handleEscrowAutoRelease :: "network \<Rightarrow> time \<Rightarrow> db \<Rightarrow> db" where
  "handleEscrowAutoRelease net now s = snd (release_loop net now (findEligibleEscrows now s) 0 0 s)"

subsection \<open>One round\<close>

definition disputed :: "db \<Rightarrow> escrow_row \<Rightarrow> bool" where
  "disputed s e \<longleftrightarrow> (\<exists>d \<in> set (disputes s). open_dispute (e_id e) d)"

definition payout :: "escrow_row \<Rightarrow> stellar_payment" where
  "payout e = buildTransaction (e_escrowAccountPublicKey e) (e_sellerPublicKey e) (e_amount e)"

text \<open>What became of an escrow of the run: flagged if disputed, else released.\<close>

definition handled :: "db \<Rightarrow> db \<Rightarrow> escrow_row \<Rightarrow> bool" where
  "handled s t e \<longleftrightarrow> (\<exists>e'. tbl_find e_id (e_id e) (escrows t) = Some e' \<and>
     (if disputed s e then e_disputeFlag e' else e_status e' = ES_RELEASED))"

lemma find_open_dispute: "List.find (open_dispute (e_id e)) (disputes s) = None \<longleftrightarrow> \<not> disputed s e"
  by (auto simp: find_None_iff disputed_def)

lemma process_disputed:
  "disputed s e \<Longrightarrow> processAutoRelease net now e s = (Inr (), save_escrow (e\<lparr>e_disputeFlag := True\<rparr>) s)"
  using find_open_dispute [of e s] by (auto simp: processAutoRelease_def split: option.splits)

lemma process_undisputed:
  assumes "\<not> disputed s e" and "tbl_find e_id (e_id e) (escrows s) = Some e" and "e_status e = ES_LOCKED" and "reliable net"
  obtains e' t where "processAutoRelease net now e s = (Inr (), t)" "e_id e' = e_id e" "e_status e' = ES_RELEASED"
    "escrows t = tbl_save e_id e' (escrows s)" "ledger t = ledger s @ [payout e]" "disputes t = disputes s" "orders t = orders s"
proof -
  obtain h where h: "submitTransaction net (payout e) s =
      (Inr h, s\<lparr>attempts := attempts s + 1, ledger := ledger s @ [payout e]\<rparr>)"
    using reliable_submit [OF assms(4)] by blast
  have found: "findEscrowOrFail (e_id e) s = (Inr e, s)" using assms(2) by simp
  let ?e = "e\<lparr>e_releaseTransactionHash := Some h, e_status := ES_RELEASED, e_deliveryConfirmedAt := Some now\<rparr>"
  have "releaseFunds net now (e_id e) s =
      (Inr (mapToResponse ?e), save_escrow ?e (s\<lparr>attempts := attempts s + 1, ledger := ledger s @ [payout e]\<rparr>))"
    using assms(3) h by (simp add: releaseFunds_def found check_transition_cases payout_def Let_def)
  then have run: "processAutoRelease net now e s =
      (Inr (), emitPaymentReleasedEvent e (or_text (er_releaseTransactionHash (mapToResponse ?e)) ''pending'') now
        (save_escrow ?e (s\<lparr>attempts := attempts s + 1, ledger := ledger s @ [payout e]\<rparr>)))"
    using assms(1) find_open_dispute [of e s] by (simp add: processAutoRelease_def Let_def)
  show ?thesis
    by (rule that [OF run, of "round_escrow ?e"]) (simp_all add: emitPaymentReleasedEvent_def)
qed

subsection \<open>The loop\<close>

text \<open>What a run over pending escrows leaves: the payouts of those without dispute, in order.\<close>

lemma release_loop_run:
  assumes "reliable net" and "distinct (map e_id es)"
    and "\<forall>e \<in> set es. tbl_find e_id (e_id e) (escrows s) = Some e \<and> e_status e = ES_LOCKED"
  shows "\<exists>t. release_loop net now es n m s = ((n + length es, m), t) \<and>
    ledger t = ledger s @ map payout (filter (\<lambda>e. \<not> disputed s e) es) \<and>
    orders t = orders s \<and> disputes t = disputes s \<and>
    (distinct (map e_id (escrows s)) \<longrightarrow> distinct (map e_id (escrows t))) \<and>
    (\<forall>k. k \<notin> e_id ` set es \<longrightarrow> tbl_find e_id k (escrows t) = tbl_find e_id k (escrows s)) \<and>
    (\<forall>e \<in> set es. handled s t e)"
  using assms
proof (induction es arbitrary: n s)
  case (Cons e es)
  have e: "tbl_find e_id (e_id e) (escrows s) = Some e" "e_status e = ES_LOCKED" using Cons.prems(3) by auto
  have "\<exists>e' s1. processAutoRelease net now e s = (Inr (), s1) \<and> e_id e' = e_id e \<and> escrows s1 = tbl_save e_id e' (escrows s) \<and>
      ledger s1 = ledger s @ (if disputed s e then [] else [payout e]) \<and> disputes s1 = disputes s \<and> orders s1 = orders s \<and>
      (if disputed s e then e_disputeFlag e' else e_status e' = ES_RELEASED)"
  proof (cases "disputed s e")
    case True
    then show ?thesis
      by (intro exI [of _ "round_escrow (e\<lparr>e_disputeFlag := True\<rparr>)"]) (simp add: process_disputed)
  next
    case False
    obtain e' t where "processAutoRelease net now e s = (Inr (), t)" "e_id e' = e_id e" "e_status e' = ES_RELEASED"
      "escrows t = tbl_save e_id e' (escrows s)" "ledger t = ledger s @ [payout e]" "disputes t = disputes s" "orders t = orders s"
      by (rule process_undisputed [OF False e Cons.prems(1)])
    with False show ?thesis by (intro exI [of _ e'] exI [of _ t]) simp
  qed
  then obtain e' s1 where p: "processAutoRelease net now e s = (Inr (), s1)" "e_id e' = e_id e"
    "escrows s1 = tbl_save e_id e' (escrows s)" "ledger s1 = ledger s @ (if disputed s e then [] else [payout e])"
    "disputes s1 = disputes s" "orders s1 = orders s"
    "if disputed s e then e_disputeFlag e' else e_status e' = ES_RELEASED" by blast
  have same: "disputed s1 = disputed s" using p(5) by (auto simp: disputed_def)
  have later: "e_id x \<noteq> e_id e" if "x \<in> set es" for x
    using Cons.prems(2) that by (metis distinct.simps(2) imageI list.map(2) list.set_map)
  have "\<forall>x \<in> set es. tbl_find e_id (e_id x) (escrows s1) = Some x \<and> e_status x = ES_LOCKED"
  proof
    fix x assume x: "x \<in> set es"
    then have "e_id x \<noteq> e_id e'" using later p(2) by simp
    with x Cons.prems(3) show "tbl_find e_id (e_id x) (escrows s1) = Some x \<and> e_status x = ES_LOCKED"
      unfolding p(3) by simp
  qed
  then obtain t where t: "release_loop net now es (n + 1) m s1 = ((n + 1 + length es, m), t)"
    "ledger t = ledger s1 @ map payout (filter (\<lambda>e. \<not> disputed s1 e) es)" "orders t = orders s1" "disputes t = disputes s1"
    "distinct (map e_id (escrows s1)) \<longrightarrow> distinct (map e_id (escrows t))"
    "\<forall>k. k \<notin> e_id ` set es \<longrightarrow> tbl_find e_id k (escrows t) = tbl_find e_id k (escrows s1)"
    "\<forall>e \<in> set es. handled s1 t e"
    using Cons.IH [OF Cons.prems(1), of s1 "n + 1"] Cons.prems(2) by auto
  have "e_id e \<notin> e_id ` set es" using later by fastforce
  then have "tbl_find e_id (e_id e) (escrows t) = Some e'" using t(6) p(2) by (simp add: p(3))
  then have "handled s t e" using p(7) by (simp add: handled_def)
  moreover have "\<forall>x \<in> set es. handled s t x" using t(7) by (simp add: handled_def same)
  moreover have "\<forall>k. k \<notin> e_id ` set (e # es) \<longrightarrow> tbl_find e_id k (escrows t) = tbl_find e_id k (escrows s)"
    using t(6) p(2) by (simp add: p(3))
  moreover have "distinct (map e_id (escrows s)) \<longrightarrow> distinct (map e_id (escrows t))"
    using t(5) by (simp add: p(3) tbl_save_distinct)
  moreover have "release_loop net now (e # es) n m s = ((n + length (e # es), m), t)" using p(1) t(1) by simp
  ultimately show ?case using t(2-4) p(4-6) by (intro exI [of _ t]) (simp add: same)
qed simp

lemma eligible_rows:
  assumes "distinct (map e_id (escrows s))"
  shows "distinct (map e_id (findEligibleEscrows now s))"
    and "\<forall>e \<in> set (findEligibleEscrows now s). tbl_find e_id (e_id e) (escrows s) = Some e \<and> e_status e = ES_LOCKED"
  using assms
  by (auto simp: findEligibleEscrows_def Let_def intro!: distinct_map_filter tbl_find_distinct)

text \<open>
  Property C5: on a network that accepts every payment the job pays, in order, exactly the
  sellers of the eligible escrows without an open dispute, once each and the full amount; it
  releases those, flags the disputed ones, leaves every other escrow alone, counts every eligible
  escrow as a success, and neither orders nor disputes change.
\<close>

theorem auto_release_effect:
  assumes "reliable net" and "distinct (map e_id (escrows s))"
  shows "\<exists>t. triggerManualRelease net now s = ((length (findEligibleEscrows now s), 0), t) \<and>
    ledger t = ledger s @ map payout (filter (\<lambda>e. \<not> disputed s e) (findEligibleEscrows now s)) \<and>
    orders t = orders s \<and> disputes t = disputes s \<and>
    (\<forall>k. k \<notin> e_id ` set (findEligibleEscrows now s) \<longrightarrow> tbl_find e_id k (escrows t) = tbl_find e_id k (escrows s)) \<and>
    (\<forall>e \<in> set (findEligibleEscrows now s). handled s t e)"
  using release_loop_run [OF assms(1) eligible_rows [OF assms(2), of now], of now 0 0]
  unfolding triggerManualRelease_def by auto

text \<open>
  The job does not pay twice. Running it again, at the same moment, finds no
  eligible escrow: whatever was due has been released or flagged.
\<close>

lemma auto_release_runs_once:
  assumes "reliable net" and "distinct (map e_id (escrows s))"
  shows "findEligibleEscrows now (handleEscrowAutoRelease net now s) = []"
proof -
  let ?es = "findEligibleEscrows now s"
  define t where "t = handleEscrowAutoRelease net now s"
  have t: "orders t = orders s" "distinct (map e_id (escrows t))"
    "\<forall>k. k \<notin> e_id ` set ?es \<longrightarrow> tbl_find e_id k (escrows t) = tbl_find e_id k (escrows s)"
    "\<forall>e \<in> set ?es. handled s t e"
    using release_loop_run [OF assms(1) eligible_rows [OF assms(2), of now], of now 0 0] assms(2)
    unfolding t_def handleEscrowAutoRelease_def by auto
  have False if e: "e \<in> set (findEligibleEscrows now t)" for e
  proof -
    have row: "tbl_find e_id (e_id e) (escrows t) = Some e" "e_status e = ES_LOCKED" "\<not> e_disputeFlag e"
      using e t(2) by (auto simp: findEligibleEscrows_def Let_def intro: tbl_find_distinct)
    show False
    proof (cases "e_id e \<in> e_id ` set ?es")
      case True
      then obtain x where "x \<in> set ?es" "e_id x = e_id e" by auto
      with t(4) row show False by (auto simp: handled_def split: if_splits)
    next
      case False
      with t(3) row have "e \<in> set (escrows s)" by (metis tbl_find_mem)
      with e t(1) have "e \<in> set ?es" by (auto simp: findEligibleEscrows_def Let_def)
      with False show False by simp
    qed
  qed
  then show ?thesis unfolding t_def by (metis list.set_intros(1) neq_Nil_conv)
qed

subsection \<open>A concrete run\<close>

definition delivered_sale :: db where
  "delivered_sale = escrow_run1\<lparr>orders := [sample_order\<lparr>o_status := OS_DELIVERED, o_deliveredAt := Some 0\<rparr>]\<rparr>"

lemma delivered_sale_facts:
  "distinct (map e_id (escrows delivered_sale))" "reliable willing" "paid_out ''K'' (ledger delivered_sale) = 0"
  "disputes delivered_sale = []"
  "\<exists>e. findEligibleEscrows (8 * ms_per_day) delivered_sale = [e] \<and> e_escrowAccountPublicKey e = ''K'' \<and> e_amount e = 100"
  by (simp_all add: delivered_sale_def escrow_run1_def run_simps empty_db_def reliable_def paid_out_def
      findEligibleEscrows_def sample_order_def delivered_long_ago_def ms_per_day_def)

theorem auto_release_effect_witness:
  "\<exists>t. triggerManualRelease willing (8 * ms_per_day) delivered_sale = ((1, 0), t) \<and> paid_out ''K'' (ledger t) = 100"
  using auto_release_effect [OF delivered_sale_facts(2,1), of "8 * ms_per_day"] delivered_sale_facts(3-5)
  by (auto simp: disputed_def payout_def paid_out_def)

theorem auto_release_runs_once_witness:
  "findEligibleEscrows (8 * ms_per_day) (handleEscrowAutoRelease willing (8 * ms_per_day) delivered_sale) = []"
  by (rule auto_release_runs_once [OF delivered_sale_facts(2,1)])

end
