(* ===== verification/Milestones.thy ===== *)
theory Milestones
  imports Payments
begin

text \<open>
  \<open>MilestonesService\<close> (src/src/milestones/milestones.service.ts): the milestones of an order, their
  approval, release and rejection, and the automatic releases. New ids, the clock, the decimal
  driver and the order the ORM loads for a milestone's relation are parameters.
\<close>

subsection \<open>Rows\<close>

record create_milestone_dto =
  mc_title :: string
  mc_description :: string
  mc_amount :: number
  mc_percentage :: number
  mc_type :: milestone_type
  mc_trigger :: milestone_trigger
  mc_autoRelease :: bool
  mc_releaseConditions :: "string list option"
  mc_requiredDocuments :: "string list option"
  mc_sortOrder :: number

record release_milestone_dto =
  mr_approvedBy :: string
  mr_notes :: "string option"
  mr_documents :: "milestone_document list option"

record dispute_details_dto =
  md_reason :: string
  md_description :: string
  md_evidence :: "string list"
  md_raisedBy :: "string option"

record update_milestone_dto =
  mu_status :: milestone_status
  mu_adminNotes :: "string option"
  mu_rejectionReason :: "string option"
  mu_disputeDetails :: "dispute_details_dto option"

text \<open>The amount is a \<open>decimal(20, 2)\<close> column, the percentage a \<open>decimal(5, 2)\<close> one.\<close>

definition round_milestone :: "milestone_row \<Rightarrow> milestone_row" where
  "round_milestone m = m\<lparr>ms_amount := round_to 2 (ms_amount m), ms_percentage := round_to 2 (ms_percentage m)\<rparr>"

definition milestone_fits :: "milestone_row \<Rightarrow> bool" where
  "milestone_fits m \<longleftrightarrow> \<bar>round_to 2 (ms_amount m)\<bar> < 10 ^ 18 \<and> \<bar>round_to 2 (ms_percentage m)\<bar> < 10 ^ 3"

definition save_milestone :: "milestone_row \<Rightarrow> db \<Rightarrow> (milestone_row, db) result" where
  "save_milestone m s =
     (if milestone_fits m
      then (Inr m, s\<lparr>milestones := tbl_save ms_id (round_milestone m) (milestones s)\<rparr>)
      else (Inl (Error [Txt ''numeric field overflow'']), s))"

text \<open>What the ORM loads for the relation \<open>order\<close> of a milestone. The relation is declared over a join
  column of its own (\<open>orderId\<close>, beside the column \<open>order_id\<close>), which no code writes: an ORM that
  follows the declaration finds no order, \<open>never_joined\<close>. \<open>by_order_id\<close>, the order the milestone
  names, is what the code seems to mean; only lemmas that say so use it.\<close>

type_synonym order_relation = "milestone_row \<Rightarrow> db \<Rightarrow> order_row option"

definition by_order_id :: order_relation where
  "by_order_id m s = tbl_find o_id (ms_orderId m) (orders s)"

definition never_joined :: order_relation where
  "never_joined m s = None"

subsection \<open>Creating and finding\<close>

fun new_milestones :: "(nat \<Rightarrow> uuid) \<Rightarrow> uuid \<Rightarrow> time \<Rightarrow> nat \<Rightarrow> create_milestone_dto list \<Rightarrow> milestone_row list" where
  "new_milestones ids orderId now index [] = []"
| "new_milestones ids orderId now index (d # ds) =
     \<lparr>ms_id = ids index, ms_orderId = orderId, ms_title = mc_title d, ms_description = mc_description d,
      ms_amount = mc_amount d, ms_percentage = mc_percentage d, ms_status = MS_PENDING, ms_type = mc_type d,
      ms_trigger = mc_trigger d, ms_autoRelease = mc_autoRelease d, ms_releaseAt = None, ms_releasedAt = None,
      ms_requiredDocuments = mc_requiredDocuments d, ms_uploadedDocuments = None,
      ms_releaseConditions = mc_releaseConditions d, ms_adminNotes = None, ms_rejectionReason = None,
      ms_disputeDetails = None, ms_sortOrder = or_num (Some (mc_sortOrder d)) (of_nat index), ms_createdAt = now\<rparr>
     # new_milestones ids orderId now (Suc index) ds"

text \<open>Saving a list of entities is one transaction.\<close>

definition save_milestones :: "milestone_row list \<Rightarrow> db \<Rightarrow> (milestone_row list, db) result" where
  "save_milestones ms s =
     and_then (transaction (for_each (\<lambda>m s. and_then (save_milestone m s) (\<lambda>_ t. (Inr (), t))) ms) s)
       (\<lambda>_ t. (Inr ms, t))"

definition createMilestones ::
  "(nat \<Rightarrow> uuid) \<Rightarrow> time \<Rightarrow> uuid \<Rightarrow> create_milestone_dto list \<Rightarrow> db \<Rightarrow> (milestone_row list, db) result" where
  "createMilestones ids now orderId ds s =
     (case tbl_find o_id orderId (orders s) of
        None \<Rightarrow> (Inl (NotFoundException [Txt ''Order not found'']), s)
      | Some order \<Rightarrow>
        let totalMilestoneAmount = sum_by mc_amount ds
        in if totalMilestoneAmount > o_totalAmount order
           then (Inl (BadRequestException [Txt ''Total milestone amounts cannot exceed order total'']), s)
           else save_milestones (new_milestones ids orderId now 0 ds) s)"

text \<open>By \<open>sortOrder\<close>, ties by creation.\<close>

definition getOrderMilestones :: "uuid \<Rightarrow> db \<Rightarrow> milestone_row list" where
  "getOrderMilestones orderId s =
     sort_key ms_sortOrder (sort_key ms_createdAt (filter (\<lambda>m. ms_orderId m = orderId) (milestones s)))"

definition getMilestoneById :: "uuid \<Rightarrow> db \<Rightarrow> (milestone_row, db) result" where
  "getMilestoneById mid s = (case tbl_find ms_id mid (milestones s) of
       None \<Rightarrow> (Inl (NotFoundException [Txt ''Milestone not found'']), s)
     | Some milestone \<Rightarrow> (Inr milestone, s))"

subsection \<open>The money of a release\<close>

text \<open>An integer column refuses \<open>NaN\<close> and a number of more than four bytes.\<close>

definition write_int4 :: "nat option \<Rightarrow> error + nat" where
  "write_int4 x = (case x of
       None \<Rightarrow> Inl (Error [Txt ''invalid input syntax for type integer: NaN''])
     | Some n \<Rightarrow> if n < 2 ^ 31 then Inr n else Inl (Error [Txt ''value out of range for type integer'']))"

definition createTransaction ::
  "uuid \<Rightarrow> number \<Rightarrow> string \<Rightarrow> nat option \<Rightarrow> nat option \<Rightarrow> uuid \<Rightarrow> uuid \<Rightarrow> db \<Rightarrow> (transaction_row, db) result" where
  "createTransaction tid amount description senderId receiverId milestoneId orderId s =
     (case write_int4 senderId of
        Inl e \<Rightarrow> (Inl e, s)
      | Inr sender \<Rightarrow>
        case write_int4 receiverId of
          Inl e \<Rightarrow> (Inl e, s)
        | Inr receiver \<Rightarrow>
          if \<bar>round_to 2 amount\<bar> \<ge> 10 ^ 8
          then (Inl (Error [Txt ''numeric field overflow'']), s)
          else
            let row = \<lparr>tx_id = tid, tx_amount = round_to 2 amount, tx_description = description,
                  tx_status = TS_PENDING, tx_type = TT_TRANSFER, tx_senderId = sender, tx_receiverId = receiver,
                  tx_milestoneId = milestoneId, tx_orderId = orderId\<rparr>
            in (Inr row, s\<lparr>txs := tbl_save tx_id row (txs s)\<rparr>))"

definition createMilestoneTransaction ::
  "order_relation \<Rightarrow> uuid \<Rightarrow> milestone_row \<Rightarrow> db \<Rightarrow> (transaction_row, db) result" where
  "createMilestoneTransaction rel tid milestone s =
     (case rel milestone s of
        None \<Rightarrow> (Inl (TypeError [Txt ''Cannot read properties of null'']), s)
      | Some order \<Rightarrow>
        createTransaction tid (ms_amount milestone) (''Milestone release: '' @ ms_title milestone)
          (parse_int (or_text (Some (o_buyerId order)) ''0''))
          (parse_int (or_text (o_sellerId order) ''0'')) (ms_id milestone) (o_id order) s)"

text \<open>\<open>amount\<close> is the value the driver gave the milestone; \<open>+\<close> concatenates when it is text.\<close>

definition updateOrderReleasedAmount :: "uuid \<Rightarrow> jsval \<Rightarrow> db \<Rightarrow> (unit, db) result" where
  "updateOrderReleasedAmount orderId amount s =
     (case tbl_find o_id orderId (orders s) of
        None \<Rightarrow> (Inr (), s)
      | Some order \<Rightarrow>
        let released = js_add (JNum (o_releasedAmount order)) amount
        in case js_value released of
             None \<Rightarrow> (Inl (Error [Txt ''invalid input syntax for type numeric: '', Txt (js_text released)]), s)
           | Some r \<Rightarrow>
             and_then (save_order (order\<lparr>o_releasedAmount := r, o_remainingAmount := o_totalAmount order - r\<rparr>) s)
               (\<lambda>_ t. (Inr (), t)))"

subsection \<open>Moving a milestone on\<close>

definition releaseMilestone ::
  "(nat \<Rightarrow> number \<Rightarrow> jsval) \<Rightarrow> order_relation \<Rightarrow> uuid \<Rightarrow> time \<Rightarrow> uuid \<Rightarrow> release_milestone_dto \<Rightarrow> db \<Rightarrow>
   (milestone_row, db) result" where
  "releaseMilestone hyd rel tid now milestoneId releaseData s =
     and_then (getMilestoneById milestoneId s) (\<lambda>milestone s.
       if ms_status milestone \<noteq> MS_PENDING \<and> ms_status milestone \<noteq> MS_APPROVED
       then (Inl (BadRequestException [Txt ''Milestone cannot be released in current status'']), s)
       else
         let amount = hyd 2 (ms_amount milestone);
             milestone = milestone\<lparr>ms_status := MS_RELEASED, ms_releasedAt := Some now,
               ms_adminNotes := Some (or_text (mr_notes releaseData) [])\<rparr>;
             milestone = (case mr_documents releaseData of
                 None \<Rightarrow> milestone
               | Some docs \<Rightarrow> milestone\<lparr>ms_uploadedDocuments := Some (map (\<lambda>d. (d, now)) docs)\<rparr>)
         in and_then (save_milestone milestone s) (\<lambda>updatedMilestone s.
            and_then (createMilestoneTransaction rel tid milestone s) (\<lambda>_ s.
            and_then (updateOrderReleasedAmount (ms_orderId milestone) amount s) (\<lambda>_ s.
              (Inr updatedMilestone, s)))))"

definition approveMilestone :: "uuid \<Rightarrow> string option \<Rightarrow> db \<Rightarrow> (milestone_row, db) result" where
  "approveMilestone milestoneId notes s =
     and_then (getMilestoneById milestoneId s) (\<lambda>milestone s.
       if ms_status milestone \<noteq> MS_PENDING
       then (Inl (BadRequestException [Txt ''Milestone cannot be approved in current status'']), s)
       else save_milestone (milestone\<lparr>ms_status := MS_APPROVED, ms_adminNotes := Some (or_text notes [])\<rparr>) s)"

definition rejectMilestone :: "uuid \<Rightarrow> update_milestone_dto \<Rightarrow> db \<Rightarrow> (milestone_row, db) result" where
  "rejectMilestone milestoneId rejectionData s =
     and_then (getMilestoneById milestoneId s) (\<lambda>milestone s.
       if ms_status milestone \<noteq> MS_PENDING \<and> ms_status milestone \<noteq> MS_APPROVED
       then (Inl (BadRequestException [Txt ''Milestone cannot be rejected in current status'']), s)
       else save_milestone (milestone\<lparr>ms_status := MS_REJECTED,
              ms_rejectionReason := Some (or_text (mu_rejectionReason rejectionData) []),
              ms_adminNotes := Some (or_text (mu_adminNotes rejectionData) [])\<rparr>) s)"

definition updateMilestoneStatus :: "time \<Rightarrow> uuid \<Rightarrow> update_milestone_dto \<Rightarrow> db \<Rightarrow> (milestone_row, db) result" where
  "updateMilestoneStatus now milestoneId updateData s =
     and_then (getMilestoneById milestoneId s) (\<lambda>milestone s.
       let milestone = milestone\<lparr>ms_status := mu_status updateData\<rparr>;
           milestone = (if truthy_text (mu_adminNotes updateData)
                        then milestone\<lparr>ms_adminNotes := mu_adminNotes updateData\<rparr> else milestone);
           milestone = (if truthy_text (mu_rejectionReason updateData)
                        then milestone\<lparr>ms_rejectionReason := mu_rejectionReason updateData\<rparr> else milestone);
           milestone = (case mu_disputeDetails updateData of
               None \<Rightarrow> milestone
             | Some d \<Rightarrow> milestone\<lparr>ms_disputeDetails := Some \<lparr>dd_reason = md_reason d,
                 dd_description = md_description d, dd_evidence = md_evidence d,
                 dd_raisedBy = or_text (md_raisedBy d) ''system'', dd_raisedAt = now\<rparr>, ms_status := MS_DISPUTED\<rparr>)
       in save_milestone milestone s)"

definition due_milestones :: "time \<Rightarrow> db \<Rightarrow> milestone_row list" where
  "due_milestones now s = filter (\<lambda>m. ms_status m = MS_PENDING \<and> ms_autoRelease m \<and>
     (case ms_releaseAt m of None \<Rightarrow> False | Some r \<Rightarrow> r < now)) (milestones s)"

text \<open>An exception of one release is logged and the loop goes on.\<close>

fun release_each ::
  "(nat \<Rightarrow> number \<Rightarrow> jsval) \<Rightarrow> order_relation \<Rightarrow> (nat \<Rightarrow> uuid) \<Rightarrow> time \<Rightarrow> nat \<Rightarrow> milestone_row list \<Rightarrow> db \<Rightarrow> db" where
  "release_each hyd rel ids now n [] s = s"
| "release_each hyd rel ids now n (m # ms) s =
     release_each hyd rel ids now (Suc n) ms
       (snd (releaseMilestone hyd rel (ids n) now (ms_id m) \<lparr>mr_approvedBy = ''system'',
          mr_notes = Some ''Automatic release based on trigger conditions'', mr_documents = None\<rparr> s))"

definition processAutomaticReleases ::
  "(nat \<Rightarrow> number \<Rightarrow> jsval) \<Rightarrow> order_relation \<Rightarrow> (nat \<Rightarrow> uuid) \<Rightarrow> time \<Rightarrow> db \<Rightarrow> db" where
  "processAutomaticReleases hyd rel ids now s = release_each hyd rel ids now 0 (due_milestones now s) s"

record milestone_stats =
  mt_total :: nat
  mt_pending :: nat
  mt_approved :: nat
  mt_released :: nat
  mt_rejected :: nat
  mt_totalReleasedAmount :: number
  mt_totalPendingAmount :: number

definition getMilestoneStatistics :: "uuid \<Rightarrow> db \<Rightarrow> milestone_stats" where
  "getMilestoneStatistics orderId s =
     (let ms = getOrderMilestones orderId s;
          having = (\<lambda>st. filter (\<lambda>m. ms_status m = st) ms)
      in \<lparr>mt_total = length ms, mt_pending = length (having MS_PENDING), mt_approved = length (having MS_APPROVED),
          mt_released = length (having MS_RELEASED), mt_rejected = length (having MS_REJECTED),
          mt_totalReleasedAmount = sum_by ms_amount (having MS_RELEASED),
          mt_totalPendingAmount = sum_by ms_amount (having MS_PENDING)\<rparr>)"

subsection \<open>Releases\<close>

lemma getMilestone [simp]:
  "getMilestoneById mid s = (Inr m, t) \<longleftrightarrow> tbl_find ms_id mid (milestones s) = Some m \<and> t = s"
  by (auto simp: getMilestoneById_def split: option.splits)

lemma found_milestone: "tbl_find ms_id mid (milestones s) = Some m \<Longrightarrow> getMilestoneById mid s = (Inr m, s)"
  by simp

text \<open>
  A milestone that was released, rejected, disputed or cancelled cannot be
  released, approved or rejected: each of the three operations throws and changes nothing.
\<close>

lemma closed_milestone_stays:
  assumes "tbl_find ms_id mid (milestones s) = Some m" and "ms_status m \<notin> {MS_PENDING, MS_APPROVED}"
    and "(r, t) \<in> {releaseMilestone hyd rel tid now mid dto s, approveMilestone mid notes s, rejectMilestone mid udto s}"
  shows "(\<exists>e. r = Inl e) \<and> t = s"
  using assms(2,3)
  by (auto simp: releaseMilestone_def approveMilestone_def rejectMilestone_def found_milestone [OF assms(1)])

text \<open>A milestone and its order as the database holds them, with users an integer column takes.\<close>

definition releasable :: "db \<Rightarrow> milestone_row \<Rightarrow> order_row \<Rightarrow> bool" where
  "releasable s m ord \<longleftrightarrow> tbl_find ms_id (ms_id m) (milestones s) = Some m \<and>
     tbl_find o_id (ms_orderId m) (orders s) = Some ord \<and> ms_status m \<in> {MS_PENDING, MS_APPROVED} \<and>
     milestone_fits m \<and> round_milestone m = m \<and> \<bar>ms_amount m\<bar> < 10 ^ 8 \<and>
     (\<exists>n. parse_int (or_text (Some (o_buyerId ord)) ''0'') = Some n \<and> n < 2 ^ 31) \<and>
     (\<exists>n. parse_int (or_text (o_sellerId ord) ''0'') = Some n \<and> n < 2 ^ 31) \<and>
     stored (ord\<lparr>o_releasedAmount := o_releasedAmount ord + ms_amount m,
       o_remainingAmount := o_totalAmount ord - (o_releasedAmount ord + ms_amount m)\<rparr>)"

definition release_effect :: "db \<Rightarrow> db \<Rightarrow> milestone_row \<Rightarrow> order_row \<Rightarrow> bool" where
  "release_effect s t m ord \<longleftrightarrow>
     (\<exists>when notes docs row. milestones t = tbl_save ms_id (m\<lparr>ms_status := MS_RELEASED, ms_releasedAt := when,
          ms_adminNotes := notes, ms_uploadedDocuments := docs\<rparr>) (milestones s) \<and>
        txs t = tbl_save tx_id row (txs s) \<and> tx_amount row = ms_amount m \<and> tx_milestoneId row = ms_id m \<and>
        orders t = tbl_save o_id (ord\<lparr>o_releasedAmount := o_releasedAmount ord + ms_amount m,
          o_remainingAmount := o_totalAmount ord - (o_releasedAmount ord + ms_amount m)\<rparr>) (orders s))"

lemma releasable_runs:
  assumes "releasable s m ord"
  shows "\<exists>r t. releaseMilestone number_column by_order_id tid now (ms_id m) dto s = (Inr r, t) \<and>
    release_effect s t m ord \<and> ms_status r = MS_RELEASED"
proof -
  note a = assms [unfolded releasable_def]
  define m' where "m' = m\<lparr>ms_status := MS_RELEASED, ms_releasedAt := Some now,
      ms_adminNotes := Some (or_text (mr_notes dto) []), ms_uploadedDocuments :=
        (case mr_documents dto of None \<Rightarrow> ms_uploadedDocuments m | Some docs \<Rightarrow> Some (map (\<lambda>d. (d, now)) docs))\<rparr>"
  have round: "round_milestone m' = m'"
  proof -
    have "round_to 2 (ms_amount m) = ms_amount m" "round_to 2 (ms_percentage m) = ms_percentage m"
      using a by (auto simp: round_milestone_def dest: arg_cong [where f = ms_amount] arg_cong [where f = ms_percentage])
    then show ?thesis by (simp add: m'_def round_milestone_def)
  qed
  have fields: "ms_id m' = ms_id m" "ms_orderId m' = ms_orderId m" "ms_amount m' = ms_amount m" "ms_status m' = MS_RELEASED"
    by (simp_all add: m'_def)
  have amount: "round_to 2 (ms_amount m) = ms_amount m"
    using round fields(3) by (auto simp: round_milestone_def dest: arg_cong [where f = ms_amount])
  have fits: "milestone_fits m'" using a by (simp add: milestone_fits_def m'_def)
  let ?s1 = "s\<lparr>milestones := tbl_save ms_id m' (milestones s)\<rparr>"
  have save: "save_milestone m' s = (Inr m', ?s1)" using fits round by (simp add: save_milestone_def)
  obtain n k where nk: "parse_int (or_text (Some (o_buyerId ord)) ''0'') = Some n" "n < 2 ^ 31"
    "parse_int (or_text (o_sellerId ord) ''0'') = Some k" "k < 2 ^ 31" using a by blast
  let ?row = "\<lparr>tx_id = tid, tx_amount = ms_amount m, tx_description = ''Milestone release: '' @ ms_title m',
      tx_status = TS_PENDING, tx_type = TT_TRANSFER, tx_senderId = n, tx_receiverId = k,
      tx_milestoneId = ms_id m, tx_orderId = o_id ord\<rparr>"
  let ?s2 = "?s1\<lparr>txs := tbl_save tx_id ?row (txs s)\<rparr>"
  have tx: "createMilestoneTransaction by_order_id tid m' ?s1 = (Inr ?row, ?s2)"
    using a nk by (simp add: createMilestoneTransaction_def by_order_id_def createTransaction_def write_int4_def
        fields amount Let_def not_le)
  have upd: "updateOrderReleasedAmount (ms_orderId m') (number_column 2 (ms_amount m)) ?s2 =
      (Inr (), ?s2\<lparr>orders := tbl_save o_id (ord\<lparr>o_releasedAmount := o_releasedAmount ord + ms_amount m,
          o_remainingAmount := o_totalAmount ord - (o_releasedAmount ord + ms_amount m)\<rparr>) (orders s)\<rparr>)"
    using a by (simp add: updateOrderReleasedAmount_def fields number_column_def save_stored)
  have "releaseMilestone number_column by_order_id tid now (ms_id m) dto s =
      (Inr m', ?s2\<lparr>orders := tbl_save o_id (ord\<lparr>o_releasedAmount := o_releasedAmount ord + ms_amount m,
          o_remainingAmount := o_totalAmount ord - (o_releasedAmount ord + ms_amount m)\<rparr>) (orders s)\<rparr>)"
  proof -
    have "m' = (case mr_documents dto of
          None \<Rightarrow> m\<lparr>ms_status := MS_RELEASED, ms_releasedAt := Some now, ms_adminNotes := Some (or_text (mr_notes dto) [])\<rparr>
        | Some docs \<Rightarrow> m\<lparr>ms_status := MS_RELEASED, ms_releasedAt := Some now,
            ms_adminNotes := Some (or_text (mr_notes dto) []), ms_uploadedDocuments := Some (map (\<lambda>d. (d, now)) docs)\<rparr>)"
      by (simp add: m'_def split: option.split)
    then show ?thesis
      using a save tx upd
      by (simp add: releaseMilestone_def found_milestone Let_def cong: option.case_cong)
  qed
  moreover have "release_effect s (?s2\<lparr>orders := tbl_save o_id (ord\<lparr>o_releasedAmount := o_releasedAmount ord + ms_amount m,
          o_remainingAmount := o_totalAmount ord - (o_releasedAmount ord + ms_amount m)\<rparr>) (orders s)\<rparr>) m ord"
    unfolding release_effect_def
    by (intro exI [of _ "ms_releasedAt m'"] exI [of _ "ms_adminNotes m'"] exI [of _ "ms_uploadedDocuments m'"] exI [of _ ?row])
      (simp add: m'_def)
  ultimately show ?thesis using fields(4) by blast
qed

text \<open>
  What a release is meant to do: were the order of the milestone found by its identifier, and did the driver
  return decimals as numbers, releasing a pending or approved milestone (whose users are integers, and
  whose order still fits its columns) would mark it released, record one transaction of its
  amount, and move the amount from the order's remaining to its released total.
\<close>

lemma milestone_release_effect:
  assumes "releasable s m ord"
  shows "\<exists>r t. releaseMilestone number_column by_order_id tid now (ms_id m) dto s = (Inr r, t) \<and>
    release_effect s t m ord"
  using releasable_runs [OF assms] by blast

text \<open>
  Property C28: the relation of a milestone to its order never loads one, because no code writes its join
  column, so a release of a pending or approved milestone that fits its columns always throws, but
  only after the milestone was saved as released: its row says so and keeps the amount, and nothing else of the
  database changes - no transaction is recorded and the order is not credited. Releasing it again from
  there, with any driver and whatever the relation loads, throws and changes nothing.
\<close>

theorem release_without_relation:
  assumes "tbl_find ms_id i (milestones s) = Some m" and "ms_status m \<in> {MS_PENDING, MS_APPROVED}" and "milestone_fits m"
  shows "\<exists>t m'. releaseMilestone hyd never_joined tid now i dto s = (Inl (TypeError [Txt ''Cannot read properties of null'']), t) \<and>
    t = s\<lparr>milestones := tbl_save ms_id m' (milestones s)\<rparr> \<and>
    ms_id m' = i \<and> ms_status m' = MS_RELEASED \<and> ms_amount m' = round_to 2 (ms_amount m) \<and>
    (\<forall>hyd' rel' tid' now' dto'. \<exists>e. releaseMilestone hyd' rel' tid' now' i dto' t = (Inl e, t))"
proof -
  have i: "ms_id m = i" using tbl_find_key [OF assms(1)] .
  define m' where "m' = (let x = m\<lparr>ms_status := MS_RELEASED, ms_releasedAt := Some now, ms_adminNotes := Some (or_text (mr_notes dto) [])\<rparr>
    in case mr_documents dto of None \<Rightarrow> x | Some docs \<Rightarrow> x\<lparr>ms_uploadedDocuments := Some (map (\<lambda>d. (d, now)) docs)\<rparr>)"
  have fields: "ms_id m' = i" "ms_status m' = MS_RELEASED"
    "ms_amount m' = ms_amount m" "ms_percentage m' = ms_percentage m"
    using i by (simp_all add: m'_def Let_def split: option.split)
  let ?t = "s\<lparr>milestones := tbl_save ms_id (round_milestone m') (milestones s)\<rparr>"
  have "save_milestone m' s = (Inr m', ?t)"
    using assms(3) fields by (simp add: save_milestone_def milestone_fits_def)
  then have run: "releaseMilestone hyd never_joined tid now i dto s = (Inl (TypeError [Txt ''Cannot read properties of null'']), ?t)"
    using assms(2) unfolding m'_def
    by (simp add: releaseMilestone_def found_milestone [OF assms(1)] createMilestoneTransaction_def never_joined_def Let_def cong: option.case_cong)
  have new: "ms_id (round_milestone m') = i" "ms_status (round_milestone m') = MS_RELEASED"
    "ms_amount (round_milestone m') = round_to 2 (ms_amount m)"
    using fields by (simp_all add: round_milestone_def)
  then have found: "tbl_find ms_id i (milestones ?t) = Some (round_milestone m')" by simp
  have "\<exists>e. releaseMilestone hyd' rel' tid' now' i dto' ?t = (Inl e, ?t)" for hyd' rel' tid' now' dto'
    by (simp add: releaseMilestone_def found_milestone [OF found] new(2) del: getMilestone)
  then show ?thesis using run new by (intro exI [of _ ?t] exI [of _ "round_milestone m'"]) blast
qed

subsection \<open>A milestone reopened\<close>

text \<open>
  A released milestone that an update of its status sets back to pending can be
  released again: the order is credited with its amount twice.
\<close>

lemma reopened_milestone_pays_twice:
  assumes "releasable s m ord" and "mu_disputeDetails u = None" and "mu_status u = MS_PENDING"
    and "ord1 = ord\<lparr>o_releasedAmount := o_releasedAmount ord + ms_amount m,
       o_remainingAmount := o_totalAmount ord - (o_releasedAmount ord + ms_amount m)\<rparr>"
    and "stored (ord1\<lparr>o_releasedAmount := o_releasedAmount ord1 + ms_amount m,
       o_remainingAmount := o_totalAmount ord1 - (o_releasedAmount ord1 + ms_amount m)\<rparr>)"
  shows "\<exists>t ord2. snd (releaseMilestone number_column by_order_id tid2 now2 (ms_id m) dto2
      (snd (updateMilestoneStatus now1 (ms_id m) u
        (snd (releaseMilestone number_column by_order_id tid now (ms_id m) dto s))))) = t \<and>
    tbl_find o_id (o_id ord) (orders t) = Some ord2 \<and>
    o_releasedAmount ord2 = o_releasedAmount ord + 2 * ms_amount m"
proof -
  obtain r t where run: "releaseMilestone number_column by_order_id tid now (ms_id m) dto s = (Inr r, t)"
    and eff: "release_effect s t m ord" using releasable_runs [OF assms(1)] by blast
  obtain x nts docs where ms: "milestones t = tbl_save ms_id (m\<lparr>ms_status := MS_RELEASED, ms_releasedAt := x,
      ms_adminNotes := nts, ms_uploadedDocuments := docs\<rparr>) (milestones s)"
    and ord1: "orders t = tbl_save o_id ord1 (orders s)"
    using eff assms(4) unfolding release_effect_def by auto
  define m' where "m' = m\<lparr>ms_status := MS_RELEASED, ms_releasedAt := x, ms_adminNotes := nts, ms_uploadedDocuments := docs\<rparr>"
  have m': "tbl_find ms_id (ms_id m) (milestones t) = Some m'" "ms_id m' = ms_id m"
      "ms_orderId m' = ms_orderId m" "ms_amount m' = ms_amount m" "ms_percentage m' = ms_percentage m"
    using ms by (simp_all add: m'_def)
  note a = assms(1) [unfolded releasable_def]
  have oid: "ms_orderId m = o_id ord" using a by (metis tbl_find_key)
  define m2 where "m2 = (let x = m'\<lparr>ms_status := MS_PENDING\<rparr>;
      x = (if truthy_text (mu_adminNotes u) then x\<lparr>ms_adminNotes := mu_adminNotes u\<rparr> else x)
    in if truthy_text (mu_rejectionReason u) then x\<lparr>ms_rejectionReason := mu_rejectionReason u\<rparr> else x)"
  have m2: "ms_id m2 = ms_id m" "ms_orderId m2 = ms_orderId m" "ms_amount m2 = ms_amount m"
    "ms_percentage m2 = ms_percentage m" "ms_status m2 = MS_PENDING"
    using m'(2-5) by (simp_all add: m2_def Let_def)
  have round: "round_to 2 (ms_amount m) = ms_amount m" "round_to 2 (ms_percentage m) = ms_percentage m"
    using a by (auto simp: round_milestone_def dest: arg_cong [where f = ms_amount] arg_cong [where f = ms_percentage])
  then have fixed: "round_milestone m2 = m2" by (simp add: round_milestone_def m2(3,4))
  have fits: "milestone_fits m2" using a by (simp add: milestone_fits_def m2(3,4))
  let ?t1 = "t\<lparr>milestones := tbl_save ms_id m2 (milestones t)\<rparr>"
  have update: "updateMilestoneStatus now1 (ms_id m) u t = (Inr m2, ?t1)"
    using assms(2,3) fits fixed
    by (simp add: updateMilestoneStatus_def found_milestone [OF m'(1)] save_milestone_def m2_def Let_def del: getMilestone)
  have "releasable ?t1 m2 ord1"
    using a assms(4,5) m2 fits fixed ord1 oid unfolding releasable_def by simp
  from releasable_runs [OF this, of tid2 now2 dto2] obtain r2 t2 where
    run2: "releaseMilestone number_column by_order_id tid2 now2 (ms_id m) dto2 ?t1 = (Inr r2, t2)"
    and eff2: "release_effect ?t1 t2 m2 ord1" unfolding m2(1) by blast
  have "orders t2 = tbl_save o_id (ord1\<lparr>o_releasedAmount := o_releasedAmount ord1 + ms_amount m2,
      o_remainingAmount := o_totalAmount ord1 - (o_releasedAmount ord1 + ms_amount m2)\<rparr>) (orders ?t1)"
    using eff2 unfolding release_effect_def by blast
  then show ?thesis using run update run2 assms(4) m2(3) by simp
qed

definition sample_milestone :: milestone_row where
  "sample_milestone = \<lparr>ms_id = ''m'', ms_orderId = ''o'', ms_title = ''Design'', ms_description = [], ms_amount = 10,
     ms_percentage = 50, ms_status = MS_APPROVED, ms_type = CUSTOM, ms_trigger = MANUAL, ms_autoRelease = False,
     ms_releaseAt = None, ms_releasedAt = None, ms_requiredDocuments = None, ms_uploadedDocuments = None,
     ms_releaseConditions = None, ms_adminNotes = None, ms_rejectionReason = None, ms_disputeDetails = None,
     ms_sortOrder = 0, ms_createdAt = 0\<rparr>"

definition sample_release :: release_milestone_dto where
  "sample_release = \<lparr>mr_approvedBy = ''a'', mr_notes = None, mr_documents = None\<rparr>"

definition milestone_sale :: db where
  "milestone_sale = empty_db\<lparr>orders := [sample_order\<lparr>o_buyerId := ''1''\<rparr>], milestones := [sample_milestone]\<rparr>"

lemma sample_users: "parse_int ''1'' = Some 1" "parse_int ''0'' = Some 0"
  by (simp_all add: parse_int_def Let_def is_digit_def read_nat_def digit_val_def)

lemma order_released_stored:
  assumes "0 \<le> k" and "k \<le> 30"
  shows "stored (sample_order\<lparr>o_buyerId := ''1'', o_releasedAmount := of_int k, o_remainingAmount := 30 - of_int k\<rparr>)"
proof -
  have whole: "round_to 2 (of_int j) = of_int j" for j using round_to_exact [of 2 "j * 100"] by simp
  have "rounded_order (sample_order\<lparr>o_buyerId := ''1'', o_releasedAmount := of_int k, o_remainingAmount := 30 - of_int k\<rparr>) =
      sample_order\<lparr>o_buyerId := ''1'', o_releasedAmount := of_int k, o_remainingAmount := 30 - of_int k\<rparr>"
    using whole [of 30] whole [of "30 - k"] whole [of k] by (simp add: rounded_order_def sample_order_def)
  moreover have "(of_int k :: number) \<le> 30" "0 \<le> (of_int k :: number)" using assms by linarith+
  ultimately show ?thesis
    by (simp add: stored_def write_order_def order_amounts_def) (simp add: sample_order_def)
qed

lemma sample_releasable: "releasable milestone_sale sample_milestone (sample_order\<lparr>o_buyerId := ''1''\<rparr>)"
proof -
  have "round_to 2 10 = 10" "round_to 2 50 = 50" using round_to_exact [of 2 1000] round_to_exact [of 2 5000] by simp_all
  then have "milestone_fits sample_milestone" "round_milestone sample_milestone = sample_milestone"
    by (simp_all add: milestone_fits_def round_milestone_def sample_milestone_def)
  moreover have "o_releasedAmount sample_order = 0" "o_totalAmount sample_order = 30" "o_sellerId sample_order = None"
    "o_id sample_order = ''o''" "ms_amount sample_milestone = 10" "ms_id sample_milestone = ''m''"
    "ms_orderId sample_milestone = ''o''" "ms_status sample_milestone = MS_APPROVED"
    by (simp_all add: sample_order_def sample_milestone_def)
  ultimately show ?thesis
    using order_released_stored [of 10] by (simp add: releasable_def milestone_sale_def sample_users or_text_def)
qed

theorem closed_milestone_stays_witness:
  "\<exists>e. releaseMilestone number_column by_order_id ''t'' 5 ''m'' sample_release
      (milestone_sale\<lparr>milestones := [sample_milestone\<lparr>ms_status := MS_REJECTED\<rparr>]\<rparr>) =
      (Inl e, milestone_sale\<lparr>milestones := [sample_milestone\<lparr>ms_status := MS_REJECTED\<rparr>]\<rparr>)"
  using closed_milestone_stays [of "''m''" "milestone_sale\<lparr>milestones := [sample_milestone\<lparr>ms_status := MS_REJECTED\<rparr>]\<rparr>"
      "sample_milestone\<lparr>ms_status := MS_REJECTED\<rparr>" _ _ number_column by_order_id "''t''" 5 sample_release None]
  by (simp add: sample_milestone_def) (metis prod.collapse)

lemma milestone_release_effect_example:
  "\<exists>r t. releaseMilestone number_column by_order_id ''t'' 5 ''m'' sample_release milestone_sale = (Inr r, t) \<and>
    release_effect milestone_sale t sample_milestone (sample_order\<lparr>o_buyerId := ''1''\<rparr>)"
  using milestone_release_effect [OF sample_releasable] by (simp add: sample_milestone_def)

theorem release_without_relation_witness:
  "\<exists>t m' e. releaseMilestone number_column never_joined ''t'' 5 ''m'' sample_release milestone_sale = (Inl e, t) \<and>
    tbl_find ms_id ''m'' (milestones t) = Some m' \<and> ms_status m' = MS_RELEASED \<and> txs t = txs milestone_sale \<and> orders t = orders milestone_sale"
proof -
  have m: "tbl_find ms_id ''m'' (milestones milestone_sale) = Some sample_milestone" "ms_status sample_milestone \<in> {MS_PENDING, MS_APPROVED}"
    "milestone_fits sample_milestone"
    using sample_releasable by (auto simp: releasable_def sample_milestone_def)
  from release_without_relation [OF m, of number_column "''t''" 5 sample_release]
  obtain t m' where "releaseMilestone number_column never_joined ''t'' 5 ''m'' sample_release milestone_sale =
      (Inl (TypeError [Txt ''Cannot read properties of null'']), t)"
    "t = milestone_sale\<lparr>milestones := tbl_save ms_id m' (milestones milestone_sale)\<rparr>" "ms_id m' = ''m''" "ms_status m' = MS_RELEASED"
    by auto
  then show ?thesis by (intro exI [of _ t] exI [of _ m']) auto
qed

theorem reopened_milestone_pays_twice_witness:
  "\<exists>t ord2. snd (releaseMilestone number_column by_order_id ''v'' 7 ''m'' sample_release
      (snd (updateMilestoneStatus 6 ''m'' \<lparr>mu_status = MS_PENDING, mu_adminNotes = None, mu_rejectionReason = None, mu_disputeDetails = None\<rparr>
        (snd (releaseMilestone number_column by_order_id ''t'' 5 ''m'' sample_release milestone_sale))))) = t \<and>
    tbl_find o_id ''o'' (orders t) = Some ord2 \<and> o_releasedAmount ord2 = 20"
proof -
  have "o_releasedAmount sample_order = 0" "o_totalAmount sample_order = 30" "ms_amount sample_milestone = 10"
    "ms_id sample_milestone = ''m''" "o_id sample_order = ''o''"
    by (simp_all add: sample_order_def sample_milestone_def)
  then show ?thesis
    using reopened_milestone_pays_twice [OF sample_releasable _ _ refl, of "\<lparr>mu_status = MS_PENDING, mu_adminNotes = None, mu_rejectionReason = None, mu_disputeDetails = None\<rparr>"]
      order_released_stored [of 20] by simp
qed

subsection \<open>Totals that come back as text\<close>

text \<open>
  With the PostgreSQL driver, which returns the amount of the milestone as text,
  the released total of the order becomes the digits of the old total followed by the text of
  the amount: after releases of 50 and of 30 the order has released 5030.
\<close>

lemma released_total_concatenates:
  assumes "tbl_find o_id orderId (orders s) = Some ord" and "o_releasedAmount ord = of_nat n" and "n < 10 ^ 21"
  shows "updateOrderReleasedAmount orderId (pg_column 2 (of_nat k / 100)) s =
    (let r = of_nat n * 10 ^ length (show_nat (k div 100)) + of_nat k / 100
     in and_then (save_order (ord\<lparr>o_releasedAmount := r, o_remainingAmount := o_totalAmount ord - r\<rparr>) s) (\<lambda>_ t. (Inr (), t)))"
proof -
  define w f where "w = show_nat (k div 100)" and "f = pad_start 2 (show_nat (k mod 100))"
  have f: "\<forall>c \<in> set f. is_digit c" "length f = 2" "read_nat (w @ f) = k"
    using fixed_text_parts(1,2) [of 2 k] fixed_text_parts(3) [of k 2] by (simp_all add: w_def f_def)
  have w: "\<forall>c \<in> set w. is_digit c" by (simp add: w_def show_nat_digits)
  have column: "pg_column 2 (of_nat k / 100) = JStr (w @ dot # f)"
    by (simp add: pg_column_def fixed_text_def Let_def w_def f_def)
  have old: "to_string (of_nat n) = show_nat n" using integer_text [of "int n"] assms(3) by simp
  have digits: "\<forall>c \<in> set (show_nat n @ w). is_digit c" using w show_nat_digits by auto
  have "read_nat ((show_nat n @ w) @ f) = n * 10 ^ (length w + 2) + k"
    using f(2,3) by (simp add: read_nat_append power_add)
  moreover have "text_value ((show_nat n @ w) @ dot # f) = Some (of_nat (read_nat ((show_nat n @ w) @ f)) / 10 ^ 2)"
    using text_value_point [OF digits _ f(1)] f(2) by simp
  ultimately have "js_value (js_add (JNum (of_nat n)) (JStr (w @ dot # f))) =
      Some (of_nat n * 10 ^ length w + of_nat k / 100)"
    by (simp add: old power_add add_divide_distrib)
  then show ?thesis
    unfolding updateOrderReleasedAmount_def assms(1) column w_def by (simp add: assms(2) Let_def)
qed

theorem released_total_concatenates_witness:
  "updateOrderReleasedAmount ''o'' (pg_column 2 30) (empty_db\<lparr>orders := [sample_order\<lparr>o_releasedAmount := 50\<rparr>]\<rparr>) =
    and_then (save_order (sample_order\<lparr>o_releasedAmount := 5030, o_remainingAmount := - 5000\<rparr>)
      (empty_db\<lparr>orders := [sample_order\<lparr>o_releasedAmount := 50\<rparr>]\<rparr>)) (\<lambda>_ t. (Inr (), t))"
proof -
  have "length (show_nat 30) = 2" by (simp add: show_nat.simps)
  then show ?thesis
    using released_total_concatenates [of "''o''" "empty_db\<lparr>orders := [sample_order\<lparr>o_releasedAmount := 50\<rparr>]\<rparr>"
        "sample_order\<lparr>o_releasedAmount := 50\<rparr>" 50 3000]
    by (simp add: sample_order_def)
qed

subsection \<open>Creating, and the automatic job\<close>

lemma save_milestone_Inr:
  "save_milestone m s = (Inr x, t) \<longleftrightarrow> milestone_fits m \<and> x = m \<and> t = s\<lparr>milestones := tbl_save ms_id (round_milestone m) (milestones s)\<rparr>"
  by (auto simp: save_milestone_def)

lemma save_milestone_only: "\<exists>ms. snd (save_milestone m s) = s\<lparr>milestones := ms\<rparr> \<and> set ms \<subseteq> insert (round_milestone m) (set (milestones s))"
proof (cases "milestone_fits m")
  case True
  then show ?thesis by (intro exI [of _ "tbl_save ms_id (round_milestone m) (milestones s)"]) (auto simp: save_milestone_def dest: tbl_save_mem)
next
  case False
  then show ?thesis by (intro exI [of _ "milestones s"]) (auto simp: save_milestone_def)
qed

text \<open>No operation writes \<open>releaseAt\<close>.\<close>

definition unscheduled :: "db \<Rightarrow> bool" where
  "unscheduled s \<longleftrightarrow> (\<forall>m \<in> set (milestones s). ms_releaseAt m = None)"

inductive milestone_step :: "db \<Rightarrow> db \<Rightarrow> bool" where
  created: "milestone_step s (snd (createMilestones ids now orderId ds s))"
| released: "milestone_step s (snd (releaseMilestone hyd rel tid now mid rdto s))"
| approved: "milestone_step s (snd (approveMilestone mid notes s))"
| rejected: "milestone_step s (snd (rejectMilestone mid udto s))"
| updated: "milestone_step s (snd (updateMilestoneStatus now mid udto s))"
| elsewhere: "milestones t = milestones s \<Longrightarrow> milestone_step s t"

lemma save_unscheduled:
  assumes "unscheduled s" and "ms_releaseAt m = None"
  shows "unscheduled (snd (save_milestone m s))"
  using assms save_milestone_only [of m s] by (auto simp: unscheduled_def round_milestone_def)

lemma found_unscheduled: "unscheduled s \<Longrightarrow> tbl_find ms_id mid (milestones s) = Some m \<Longrightarrow> ms_releaseAt m = None"
  by (auto simp: unscheduled_def dest: tbl_find_mem)

lemma unscheduled_then:
  "unscheduled (snd r) \<Longrightarrow> (\<And>x u. unscheduled u \<Longrightarrow> unscheduled (snd (k x u))) \<Longrightarrow> unscheduled (snd (and_then r k))"
  by (rule and_then_keeps) simp_all

lemma release_unscheduled:
  assumes "unscheduled s"
  shows "unscheduled (snd (releaseMilestone hyd rel tid now mid rdto s))"
proof (cases "tbl_find ms_id mid (milestones s)")
  case None
  then show ?thesis using assms by (simp add: releaseMilestone_def getMilestoneById_def)
next
  case (Some m)
  have "milestones (snd (createMilestoneTransaction rel tid m s)) = milestones s" for m s
    by (auto simp: createMilestoneTransaction_def createTransaction_def Let_def split: option.split sum.split)
  then have tx: "unscheduled (snd (createMilestoneTransaction rel tid m s)) = unscheduled s" for m s
    by (simp add: unscheduled_def)
  have "milestones (snd (updateOrderReleasedAmount oid a s)) = milestones s" for oid a s
    by (auto simp: updateOrderReleasedAmount_def save_order_def Let_def and_then_def split: option.split sum.split)
  then have upd: "unscheduled (snd (updateOrderReleasedAmount oid a s)) = unscheduled s" for oid a s
    by (simp add: unscheduled_def)
  have "unscheduled (snd (and_then (save_milestone x s) (\<lambda>u s. and_then (createMilestoneTransaction rel tid x s)
      (\<lambda>_ s. and_then (updateOrderReleasedAmount oid a s) (\<lambda>_ s. (Inr u, s))))))" if "ms_releaseAt x = None" for x oid a
    by (intro unscheduled_then save_unscheduled) (simp_all add: tx upd assms that)
  moreover have "ms_releaseAt m = None" using found_unscheduled [OF assms Some] .
  ultimately show ?thesis
    using assms by (cases "mr_documents rdto") (simp_all add: releaseMilestone_def found_milestone [OF Some] Let_def del: getMilestone)
qed

lemma unscheduled_new: "m \<in> set (new_milestones ids orderId now i ds) \<Longrightarrow> ms_releaseAt m = None"
  by (induction ds arbitrary: i) auto

lemma save_milestones_unscheduled:
  assumes "unscheduled s" and "\<forall>m \<in> set ms. ms_releaseAt m = None"
  shows "unscheduled (snd (save_milestones ms s))"
proof -
  let ?loop = "for_each (\<lambda>m s. and_then (save_milestone m s) (\<lambda>_ t. (Inr (), t))) ms"
  have loop: "unscheduled (snd (?loop s))"
    by (rule for_each_keeps [of _ unscheduled]) (simp_all add: assms save_unscheduled unscheduled_then)
  have "unscheduled (snd (transaction ?loop s))"
  proof (rule transaction_keeps)
    show "unscheduled t" if "?loop s = (Inr x, t)" for x t using loop unfolding that by simp
    show "unscheduled (roll_back s t)" for t using assms(1) by (simp add: unscheduled_def roll_back_def)
  qed
  then show ?thesis unfolding save_milestones_def by (rule unscheduled_then) simp_all
qed

lemma step_unscheduled:
  assumes "milestone_step s t" and "unscheduled s"
  shows "unscheduled t"
  using assms
proof cases
  case created
  then show ?thesis using assms(2)
    by (auto simp: createMilestones_def Let_def split: option.split intro!: save_milestones_unscheduled dest: unscheduled_new)
next
  case released
  then show ?thesis using assms(2) by (simp add: release_unscheduled)
next
  case (approved mid nts)
  then show ?thesis using assms(2)
    by (auto simp: approveMilestone_def getMilestoneById_def split: option.split intro!: save_unscheduled dest: found_unscheduled)
next
  case (rejected mid udto)
  then show ?thesis using assms(2)
    by (auto simp: rejectMilestone_def getMilestoneById_def split: option.split intro!: save_unscheduled dest: found_unscheduled)
next
  case (updated now mid udto)
  then show ?thesis using assms(2)
    by (auto simp: updateMilestoneStatus_def getMilestoneById_def Let_def split: option.split intro!: save_unscheduled dest: found_unscheduled)
next
  case elsewhere
  then show ?thesis using assms(2) by (simp add: unscheduled_def)
qed

text \<open>
  No operation of the service sets \<open>releaseAt\<close>: in every state reached from one
  without milestones the automatic job finds no due milestone and changes nothing.
\<close>

lemma automatic_release_never_fires:
  assumes "milestone_step\<^sup>*\<^sup>* s t" and "milestones s = []"
  shows "processAutomaticReleases hyd rel ids now t = t"
proof -
  have "unscheduled t" using assms
    by (induction rule: rtranclp_induct) (auto simp: unscheduled_def [of s] intro: step_unscheduled)
  then have "due_milestones now' t = []" for now' by (auto simp: due_milestones_def unscheduled_def filter_empty_conv)
  then show ?thesis by (simp add: processAutomaticReleases_def)
qed

lemma save_list_appends:
  assumes "for_each (\<lambda>m s. and_then (save_milestone m s) (\<lambda>_ t. (Inr (), t))) ms s = (Inr u, t)"
    and "distinct (map ms_id ms)" and "\<forall>m \<in> set ms. tbl_find ms_id (ms_id m) (milestones s) = None"
  shows "milestones t = milestones s @ map round_milestone ms"
  using assms
proof (induction ms arbitrary: s)
  case (Cons m ms)
  have "tbl_save ms_id (round_milestone m) (milestones s) = milestones s @ [round_milestone m]"
    using Cons.prems(3) by (intro tbl_save_new) (simp add: round_milestone_def)
  then have "for_each (\<lambda>m s. and_then (save_milestone m s) (\<lambda>_ t. (Inr (), t))) ms
      (s\<lparr>milestones := milestones s @ [round_milestone m]\<rparr>) = (Inr u, t)"
    using Cons.prems(1) by (cases "milestone_fits m") (simp_all add: save_milestone_def)
  moreover have "\<forall>x \<in> set ms. tbl_find ms_id (ms_id x) (milestones s @ [round_milestone m]) = None"
    using Cons.prems(2,3) by (auto simp: round_milestone_def tbl_find_append image_iff split: option.split)
  ultimately show ?case using Cons.IH Cons.prems(2) by simp
qed simp

lemma new_milestones_facts:
  "map ms_id (new_milestones ids orderId now i ds) = map ids [i..<i + length ds]"
  "map ms_amount (new_milestones ids orderId now i ds) = map mc_amount ds"
  "\<forall>m \<in> set (new_milestones ids orderId now i ds). ms_status m = MS_PENDING \<and> ms_orderId m = orderId"
  by (induction ds arbitrary: i) (simp_all del: upt.simps add: upt_conv_Cons)

text \<open>
  Creating milestones succeeds only for an order that exists and when the amounts of
  this call together do not exceed its total; what is stored are the given milestones, pending,
  nothing released, and the rows of other milestones are untouched. Each call is checked alone.
\<close>

lemma createMilestones_effect:
  assumes "createMilestones ids now orderId ds s = (Inr ms, t)"
    and "\<forall>i j. ids i = ids j \<longrightarrow> i = j" and "\<forall>i. tbl_find ms_id (ids i) (milestones s) = None"
  shows "\<exists>ord. tbl_find o_id orderId (orders s) = Some ord \<and> sum_by mc_amount ds \<le> o_totalAmount ord \<and>
    milestones t = milestones s @ map round_milestone ms \<and> map ms_amount ms = map mc_amount ds \<and>
    (\<forall>m \<in> set ms. ms_status m = MS_PENDING \<and> ms_orderId m = orderId)"
proof -
  let ?ms = "new_milestones ids orderId now 0 ds"
  have ids: "distinct (map ms_id ?ms)" "\<forall>m \<in> set ?ms. tbl_find ms_id (ms_id m) (milestones s) = None"
  proof -
    show "distinct (map ms_id ?ms)" using assms(2) by (simp add: new_milestones_facts(1) distinct_map inj_on_def)
    have "ms_id ` set ?ms \<subseteq> range ids" using arg_cong [OF new_milestones_facts(1) [of ids orderId now 0 ds], of set] by auto
    then show "\<forall>m \<in> set ?ms. tbl_find ms_id (ms_id m) (milestones s) = None" using assms(3) by (auto simp: image_subset_iff)
  qed
  let ?loop = "for_each (\<lambda>m s. and_then (save_milestone m s) (\<lambda>_ t. (Inr (), t))) ?ms"
  obtain ord where ord: "tbl_find o_id orderId (orders s) = Some ord"
    using assms(1) by (cases "tbl_find o_id orderId (orders s)") (simp_all add: createMilestones_def)
  have total: "sum_by mc_amount ds \<le> o_totalAmount ord" and saved: "save_milestones ?ms s = (Inr ms, t)"
    using assms(1) by (simp_all add: createMilestones_def ord Let_def not_less split: if_splits)
  from saved have "ms = ?ms" and "\<exists>u. ?loop s = (Inr u, t)"
    unfolding save_milestones_def and_then_Inr_iff transaction_Inr_iff by auto
  with save_list_appends [OF _ ids] have "ms = ?ms" "milestones t = milestones s @ map round_milestone ?ms" by blast+
  then show ?thesis using ord total new_milestones_facts(2,3) by (intro exI [of _ ord]) simp
qed

definition sample_design :: create_milestone_dto where
  "sample_design = \<lparr>mc_title = ''Design'', mc_description = [], mc_amount = 10, mc_percentage = 50, mc_type = CUSTOM,
     mc_trigger = AUTOMATIC, mc_autoRelease = True, mc_releaseConditions = None, mc_requiredDocuments = None, mc_sortOrder = 0\<rparr>"

definition marked_ids :: "nat \<Rightarrow> uuid" where
  "marked_ids n = replicate n (CHR ''m'')"

lemma sample_design_created:
  "createMilestones marked_ids 0 ''o'' [sample_design] (empty_db\<lparr>orders := [sample_order]\<rparr>) =
    (let ms = new_milestones marked_ids ''o'' 0 0 [sample_design]
     in (Inr ms, empty_db\<lparr>orders := [sample_order], milestones := ms\<rparr>))"
proof -
  have "round_to 2 10 = 10" "round_to 2 50 = 50" using round_to_exact [of 2 1000] round_to_exact [of 2 5000] by simp_all
  moreover have "o_id sample_order = ''o''" "o_totalAmount sample_order = 30" by (simp_all add: sample_order_def)
  ultimately show ?thesis
    by (simp add: createMilestones_def save_milestones_def transaction_def save_milestone_def milestone_fits_def
        round_milestone_def sample_design_def Let_def) (simp add: empty_db_def)
qed

theorem createMilestones_effect_witness:
  "\<exists>ord. tbl_find o_id ''o'' (orders (empty_db\<lparr>orders := [sample_order]\<rparr>)) = Some ord \<and> 10 \<le> o_totalAmount ord"
proof -
  have free: "\<forall>i. tbl_find ms_id (marked_ids i) (milestones (empty_db\<lparr>orders := [sample_order]\<rparr>)) = None"
    by (simp add: empty_db_def)
  have injective: "\<forall>i j. marked_ids i = marked_ids j \<longrightarrow> i = j"
    unfolding marked_ids_def by (metis length_replicate)
  show ?thesis
    using createMilestones_effect [OF sample_design_created [unfolded Let_def] injective free]
    by (elim exE conjE) (intro exI conjI, assumption, simp add: sample_design_def)
qed

theorem automatic_release_never_fires_witness:
  "processAutomaticReleases number_column by_order_id marked_ids 99 (empty_db\<lparr>orders := [sample_order],
      milestones := new_milestones marked_ids ''o'' 0 0 [sample_design]\<rparr>) =
    empty_db\<lparr>orders := [sample_order], milestones := new_milestones marked_ids ''o'' 0 0 [sample_design]\<rparr>"
proof (rule automatic_release_never_fires)
  show "milestone_step\<^sup>*\<^sup>* (empty_db\<lparr>orders := [sample_order]\<rparr>)
      (empty_db\<lparr>orders := [sample_order], milestones := new_milestones marked_ids ''o'' 0 0 [sample_design]\<rparr>)"
    using milestone_step.created [of "empty_db\<lparr>orders := [sample_order]\<rparr>" marked_ids 0 "''o''" "[sample_design]"]
    unfolding sample_design_created Let_def by simp
  show "milestones (empty_db\<lparr>orders := [sample_order]\<rparr>) = []" by (simp add: empty_db_def)
qed

end
