(* ===== verification/Refunds.thy ===== *)
theory Refunds
  imports Payments
begin

text \<open>
  \<open>RefundsService\<close> (src/src/refunds/refunds.service.ts): a buyer asks to return a delivered order
  or some of its items, a reviewer approves or rejects the request. New ids and the clock are
  parameters.
\<close>

subsection \<open>Requests\<close>

record create_return_dto =
  cq_orderId :: uuid
  cq_buyerId :: uuid
  cq_sellerId :: uuid
  cq_reason :: return_reason
  cq_reasonDescription :: "string option"
  cq_refundType :: "refund_type option"
  cq_items :: "return_item list option"
  cq_returnWindowDays :: "number option"
  cq_evidenceHash :: "string option"

datatype review_action = APPROVE | REJECT

record review_return_dto =
  rv_action :: review_action
  rv_notes :: "string option"
  rv_approvedAmount :: "number option"

definition DEFAULT_RETURN_WINDOW_DAYS :: number where
  "DEFAULT_RETURN_WINDOW_DAYS = 30"

text \<open>\<open>requestedAmount\<close> is \<open>decimal(10, 2)\<close>, \<open>currency\<close> is \<open>varchar(3)\<close>.\<close>

definition round_return :: "return_row \<Rightarrow> return_row" where
  "round_return r = r\<lparr>rr_requestedAmount := map_option (round_to 2) (rr_requestedAmount r)\<rparr>"

definition return_fits :: "return_row \<Rightarrow> error option" where
  "return_fits r =
     (if length (currency_code (rr_currency r)) > 3
      then Some (Error [Txt ''value too long for type character varying(3)''])
      else if (case rr_requestedAmount r of None \<Rightarrow> False | Some a \<Rightarrow> 10 ^ 8 \<le> \<bar>round_to 2 a\<bar>)
      then Some (Error [Txt ''numeric field overflow''])
      else None)"

definition save_return :: "return_row \<Rightarrow> db \<Rightarrow> (return_row, db) result" where
  "save_return r s = (case return_fits r of
       Some e \<Rightarrow> (Inl e, s)
     | None \<Rightarrow> (Inr r, s\<lparr>returns := tbl_save rr_id (round_return r) (returns s)\<rparr>))"

text \<open>The amount of a partial refund: the price of each named item times the quantity asked for.\<close>

fun requested_of :: "order_row \<Rightarrow> return_item list \<Rightarrow> number \<Rightarrow> error + number" where
  "requested_of order [] requestedAmount = Inr requestedAmount"
| "requested_of order (item # items) requestedAmount =
     (case List.find (\<lambda>i. it_productId i = ri_listingId item) (o_items order) of
        None \<Rightarrow> Inl (BadRequestException [Txt ''Item '', Txt (ri_listingId item), Txt '' not found in order''])
      | Some orderItem \<Rightarrow> requested_of order items (requestedAmount + it_price orderItem * of_int (ri_quantity item)))"

definition requested_amount :: "order_row \<Rightarrow> refund_type \<Rightarrow> return_item list option \<Rightarrow> error + number" where
  "requested_amount order finalRefundType items =
     (if finalRefundType = FULL then Inr (o_totalAmount order)
      else case items of
          None \<Rightarrow> Inl (BadRequestException [Txt ''Partial refund requires specifying items''])
        | Some its \<Rightarrow>
          if its = [] then Inl (BadRequestException [Txt ''Partial refund requires specifying items''])
          else requested_of order its 0)"

definition pending_return_of :: "uuid \<Rightarrow> db \<Rightarrow> return_row option" where
  "pending_return_of orderId s = List.find (\<lambda>r. rr_orderId r = orderId \<and> rr_status r = RS_PENDING) (returns s)"

text \<open>The checks of \<open>createReturnRequest\<close>, in their order; they give the order and the window.\<close>

definition return_guard :: "time \<Rightarrow> create_return_dto \<Rightarrow> db \<Rightarrow> error + (order_row \<times> number)" where
  "return_guard now dto s =
     (case tbl_find o_id (cq_orderId dto) (orders s) of
        None \<Rightarrow> Inl (NotFoundException [Txt ''Order '', Txt (cq_orderId dto), Txt '' not found''])
      | Some order \<Rightarrow>
        if o_buyerId order \<noteq> cq_buyerId dto
        then Inl (ForbiddenException [Txt ''You can only request returns for your own orders''])
        else if o_status order \<noteq> OS_DELIVERED
        then Inl (BadRequestException [Txt ''Only delivered orders can be refunded''])
        else case o_deliveredAt order of
            None \<Rightarrow> Inl (BadRequestException [Txt ''Order has no delivery date recorded''])
          | Some deliveredAt \<Rightarrow>
            let maxReturnDays = or_num (cq_returnWindowDays dto) DEFAULT_RETURN_WINDOW_DAYS;
                diffDays = of_int (now - deliveredAt) / (1000 * 60 * 60 * 24)
            in if diffDays > maxReturnDays
               then Inl (BadRequestException [Txt ''Return window of '', Num maxReturnDays, Txt '' days has expired''])
               else case pending_return_of (cq_orderId dto) s of
                   Some existing \<Rightarrow> Inl (BadRequestException [Txt ''A pending return request already exists for this order''])
                 | None \<Rightarrow> Inr (order, maxReturnDays))"

definition new_return :: "uuid \<Rightarrow> create_return_dto \<Rightarrow> currency \<Rightarrow> refund_type \<Rightarrow> number \<Rightarrow> number \<Rightarrow> return_row" where
  "new_return rid dto currency finalRefundType requestedAmount maxReturnDays =
     \<lparr>rr_id = rid, rr_orderId = cq_orderId dto, rr_buyerId = cq_buyerId dto, rr_sellerId = cq_sellerId dto,
      rr_reason = cq_reason dto, rr_reasonDescription = cq_reasonDescription dto, rr_status = RS_PENDING,
      rr_refundType = finalRefundType, rr_requestedAmount = Some requestedAmount, rr_currency = currency,
      rr_items = cq_items dto, rr_reviewedBy = None, rr_reviewNotes = None, rr_reviewedAt = None,
      rr_returnWindowDays = maxReturnDays,
      rr_evidenceHash = (if truthy_text (cq_evidenceHash dto) then cq_evidenceHash dto else None)\<rparr>"

text \<open>\<open>refundType || RefundType.FULL\<close>\<close>

definition asked_type :: "create_return_dto \<Rightarrow> refund_type" where
  "asked_type dto = (case cq_refundType dto of None \<Rightarrow> FULL | Some t \<Rightarrow> t)"

definition createReturnRequest :: "uuid \<Rightarrow> time \<Rightarrow> create_return_dto \<Rightarrow> db \<Rightarrow> (return_row, db) result" where
  "createReturnRequest rid now dto s =
     (case return_guard now dto s of
        Inl e \<Rightarrow> (Inl e, s)
      | Inr (order, maxReturnDays) \<Rightarrow>
        let finalRefundType = asked_type dto
        in case requested_amount order finalRefundType (cq_items dto) of
            Inl e \<Rightarrow> (Inl e, s)
          | Inr requestedAmount \<Rightarrow>
            and_then (save_return (new_return rid dto (o_currency order) finalRefundType requestedAmount maxReturnDays) s)
              (\<lambda>saved s. (Inr saved,
                emit (ReturnRequestedEvent (rr_id saved) (cq_orderId dto) (cq_buyerId dto) (cq_sellerId dto)) s)))"

subsection \<open>Reviews\<close>

text \<open>The entity after the decision; an undefined property of it leaves its column as it was.\<close>

definition reviewed_return :: "time \<Rightarrow> review_return_dto \<Rightarrow> uuid \<Rightarrow> return_row \<Rightarrow> return_row" where
  "reviewed_return now dto reviewerId returnRequest =
     (let returnRequest = (if rv_action dto = APPROVE
            then let r = returnRequest\<lparr>rr_status := RS_APPROVED\<rparr>
                 in if truthy_num (rv_approvedAmount dto) then r\<lparr>rr_requestedAmount := rv_approvedAmount dto\<rparr> else r
            else returnRequest\<lparr>rr_status := RS_REJECTED\<rparr>)
      in returnRequest\<lparr>rr_reviewedBy := Some reviewerId, rr_reviewedAt := Some now,
           rr_reviewNotes := (case rv_notes dto of None \<Rightarrow> rr_reviewNotes returnRequest | Some n \<Rightarrow> Some n)\<rparr>)"

definition approves_too_much :: "review_return_dto \<Rightarrow> return_row \<Rightarrow> bool" where
  "approves_too_much dto returnRequest \<longleftrightarrow> rv_action dto = APPROVE \<and>
     (case rv_approvedAmount dto of None \<Rightarrow> False | Some a \<Rightarrow> a > or_num (rr_requestedAmount returnRequest) 0)"

definition reviewReturnRequest :: "time \<Rightarrow> uuid \<Rightarrow> review_return_dto \<Rightarrow> uuid \<Rightarrow> db \<Rightarrow> (return_row, db) result" where
  "reviewReturnRequest now rid dto reviewerId s =
     (case tbl_find rr_id rid (returns s) of
        None \<Rightarrow> (Inl (NotFoundException [Txt ''Return request '', Txt rid, Txt '' not found'']), s)
      | Some returnRequest \<Rightarrow>
        if rr_status returnRequest \<noteq> RS_PENDING
        then (Inl (BadRequestException [Txt ''Can only review pending return requests'']), s)
        else if approves_too_much dto returnRequest
        then (Inl (BadRequestException [Txt ''Approved amount cannot exceed requested amount'']), s)
        else and_then (save_return (reviewed_return now dto reviewerId returnRequest) s) (\<lambda>saved s. (Inr saved,
               emit (ReturnReviewedEvent (rr_id saved) (rr_status saved) (rr_buyerId saved) (rr_sellerId saved)) s)))"

subsection \<open>What a request asks for\<close>

lemma save_return_Inr:
  "save_return r s = (Inr x, t) \<longleftrightarrow>
    return_fits r = None \<and> x = r \<and> t = s\<lparr>returns := tbl_save rr_id (round_return r) (returns s)\<rparr>"
  by (auto simp: save_return_def split: option.splits)

lemma round_return_simps [simp]:
  "rr_id (round_return r) = rr_id r" "rr_status (round_return r) = rr_status r"
  "rr_orderId (round_return r) = rr_orderId r"
  by (simp_all add: round_return_def)

lemma save_return_fails: "fst (save_return r s) = Inl e \<Longrightarrow> snd (save_return r s) = s"
  by (auto simp: save_return_def split: option.splits)

text \<open>The state changes only when the operation returns.\<close>

lemma new_return_simps [simp]:
  "rr_id (new_return rid dto c ty a w) = rid" "rr_orderId (new_return rid dto c ty a w) = cq_orderId dto"
  "rr_status (new_return rid dto c ty a w) = RS_PENDING" "rr_requestedAmount (new_return rid dto c ty a w) = Some a"
  "rr_currency (new_return rid dto c ty a w) = c"
  by (simp_all add: new_return_def)

lemma return_guard_Inr:
  "return_guard now dto s = Inr (ord, w) \<longleftrightarrow>
     tbl_find o_id (cq_orderId dto) (orders s) = Some ord \<and> o_buyerId ord = cq_buyerId dto \<and>
     o_status ord = OS_DELIVERED \<and> w = or_num (cq_returnWindowDays dto) 30 \<and>
     (\<exists>d. o_deliveredAt ord = Some d \<and> of_int (now - d) \<le> w * 86400000) \<and>
     pending_return_of (cq_orderId dto) s = None"
  by (auto simp: return_guard_def DEFAULT_RETURN_WINDOW_DAYS_def Let_def not_less field_simps split: option.splits)

lemma create_return_Inr:
  "createReturnRequest rid now dto s = (Inr r, t) \<longleftrightarrow>
     (\<exists>ord w a. return_guard now dto s = Inr (ord, w) \<and>
        requested_amount ord (asked_type dto) (cq_items dto) = Inr a \<and>
        r = new_return rid dto (o_currency ord) (asked_type dto) a w \<and> return_fits r = None \<and>
        t = emit (ReturnRequestedEvent rid (cq_orderId dto) (cq_buyerId dto) (cq_sellerId dto))
          (s\<lparr>returns := tbl_save rr_id (round_return r) (returns s)\<rparr>))"
  by (auto simp: createReturnRequest_def and_then_Inr_iff save_return_Inr Let_def split: sum.splits prod.splits)

lemma create_return_Inl: "createReturnRequest rid now dto s = (Inl e, t) \<Longrightarrow> t = s"
  by (auto simp: createReturnRequest_def Let_def and_then_def save_return_def split: sum.splits prod.splits option.splits)

text \<open>
  A return request is created exactly for a delivered order of the buyer, within the
  window the request itself names (30 days when it names none), while no other request of the
  order is pending; a full refund asks for the total of the order; what is stored is a pending
  request with that amount rounded to cents, and one event is emitted.
\<close>

lemma createReturnRequest_effect:
  assumes "createReturnRequest rid now dto s = (Inr r, t)"
  shows "\<exists>ord d. tbl_find o_id (cq_orderId dto) (orders s) = Some ord \<and> o_buyerId ord = cq_buyerId dto \<and>
    o_status ord = OS_DELIVERED \<and> o_deliveredAt ord = Some d \<and>
    of_int (now - d) \<le> or_num (cq_returnWindowDays dto) 30 * 86400000 \<and>
    pending_return_of (cq_orderId dto) s = None \<and>
    tbl_find rr_id rid (returns t) = Some (round_return r) \<and> rr_status r = RS_PENDING \<and>
    (asked_type dto = FULL \<longrightarrow> rr_requestedAmount r = Some (o_totalAmount ord)) \<and>
    events t = events s @ [ReturnRequestedEvent rid (cq_orderId dto) (cq_buyerId dto) (cq_sellerId dto)] \<and>
    orders t = orders s"
  using assms unfolding create_return_Inr return_guard_Inr
  by (auto simp: new_return_def round_return_def requested_amount_def)

subsection \<open>One pending request per order\<close>

inductive return_step :: "db \<Rightarrow> db \<Rightarrow> bool" where
  requested: "createReturnRequest rid now dto s = (r, t) \<Longrightarrow> rid \<notin> rr_id ` set (returns s) \<Longrightarrow> return_step s t"
| reviewed: "reviewReturnRequest now rid rdto reviewer s = (r, t) \<Longrightarrow> return_step s t"

definition pending_of :: "uuid \<Rightarrow> return_row list \<Rightarrow> return_row list" where
  "pending_of oid rs = filter (\<lambda>r. rr_orderId r = oid \<and> rr_status r = RS_PENDING) rs"

definition returns_wf :: "db \<Rightarrow> bool" where
  "returns_wf s \<longleftrightarrow> distinct (map rr_id (returns s)) \<and> (\<forall>oid. length (pending_of oid (returns s)) \<le> 1)"

lemma pending_none: "pending_return_of oid s = None \<longleftrightarrow> pending_of oid (returns s) = []"
  by (auto simp: pending_return_of_def pending_of_def find_None_iff filter_empty_conv)

lemma reviewed_simps [simp]:
  "rr_id (reviewed_return now dto who r) = rr_id r" "rr_orderId (reviewed_return now dto who r) = rr_orderId r"
  "rr_status (reviewed_return now dto who r) = (if rv_action dto = APPROVE then RS_APPROVED else RS_REJECTED)"
  "rr_requestedAmount (reviewed_return now dto who r) =
     (if rv_action dto = APPROVE \<and> truthy_num (rv_approvedAmount dto) then rv_approvedAmount dto else rr_requestedAmount r)"
  by (simp_all add: reviewed_return_def Let_def)

lemma review_Inr:
  "reviewReturnRequest now rid dto who s = (Inr r, t) \<longleftrightarrow>
     (\<exists>old. tbl_find rr_id rid (returns s) = Some old \<and> rr_status old = RS_PENDING \<and>
        \<not> approves_too_much dto old \<and> r = reviewed_return now dto who old \<and> return_fits r = None \<and>
        t = emit (ReturnReviewedEvent (rr_id r) (rr_status r) (rr_buyerId r) (rr_sellerId r))
          (s\<lparr>returns := tbl_save rr_id (round_return r) (returns s)\<rparr>))"
  by (auto simp: reviewReturnRequest_def and_then_Inr_iff save_return_Inr split: option.splits)

lemma review_Inl: "reviewReturnRequest now rid dto who s = (Inl e, t) \<Longrightarrow> t = s"
  by (auto simp: reviewReturnRequest_def and_then_def save_return_def split: option.splits if_splits)

text \<open>How the pending requests of an order change when a row is saved.\<close>

lemma pending_save_new:
  "rr_id r \<notin> rr_id ` set rs \<Longrightarrow> pending_of oid (tbl_save rr_id r rs) =
     pending_of oid rs @ (if rr_orderId r = oid \<and> rr_status r = RS_PENDING then [r] else [])"
  by (simp add: tbl_save_new tbl_find_none_iff pending_of_def)

lemma pending_save_closed:
  "rr_status r \<noteq> RS_PENDING \<Longrightarrow> length (pending_of oid (tbl_save rr_id r rs)) \<le> length (pending_of oid rs)"
  by (induction rs) (auto simp: pending_of_def)

lemma step_returns_wf:
  assumes "return_step s t" and "returns_wf s"
  shows "returns_wf t"
  using assms
proof cases
  case (requested rid now dto r)
  show ?thesis
  proof (cases r)
    case (Inl e)
    then show ?thesis using requested(1) assms(2) create_return_Inl by metis
  next
    case (Inr x)
    then obtain ord w a where guard: "return_guard now dto s = Inr (ord, w)"
      and x: "rr_id x = rid" "rr_orderId x = cq_orderId dto"
      and t: "returns t = tbl_save rr_id (round_return x) (returns s)"
      using requested(1) by (auto simp: create_return_Inr)
    have "rr_id (round_return x) \<notin> rr_id ` set (returns s)" using requested(2) x by simp
    moreover have "pending_of (cq_orderId dto) (returns s) = []"
      using guard by (simp add: return_guard_Inr pending_none)
    ultimately show ?thesis
      using assms(2) t x by (auto simp: returns_wf_def pending_save_new intro: tbl_save_distinct)
  qed
next
  case (reviewed now rid rdto reviewer r)
  show ?thesis
  proof (cases r)
    case (Inl e)
    then show ?thesis using reviewed(1) assms(2) review_Inl by metis
  next
    case (Inr x)
    then have t: "returns t = tbl_save rr_id (round_return x) (returns s)" and "\<exists>old. x = reviewed_return now rdto reviewer old"
      using reviewed(1) unfolding Inr review_Inr by auto
    then have closed: "rr_status (round_return x) \<noteq> RS_PENDING" by (auto split: if_splits)
    have "length (pending_of oid (returns t)) \<le> 1" for oid
    proof -
      have "length (pending_of oid (returns t)) \<le> length (pending_of oid (returns s))"
        unfolding t by (rule pending_save_closed [OF closed])
      also have "\<dots> \<le> 1" using assms(2) by (simp add: returns_wf_def)
      finally show ?thesis .
    qed
    moreover have "distinct (map rr_id (returns t))"
      using assms(2) unfolding t returns_wf_def by (intro tbl_save_distinct) blast
    ultimately show ?thesis by (simp add: returns_wf_def)
  qed
qed

text \<open>
  Property C10: in every state reached from one without return requests at most one request of each
  order is pending.
\<close>

theorem one_pending_return_per_order:
  assumes "return_step\<^sup>*\<^sup>* s t" and "returns s = []" and "x \<in> set (returns t)" and "y \<in> set (returns t)"
    and "rr_status x = RS_PENDING" and "rr_status y = RS_PENDING" and "rr_orderId x = rr_orderId y"
  shows "x = y"
proof -
  have "returns_wf t" using assms(1,2)
    by (induction rule: rtranclp_induct) (auto simp: returns_wf_def [of s] pending_of_def intro: step_returns_wf)
  then have "length (pending_of (rr_orderId x) (returns t)) \<le> 1" by (simp add: returns_wf_def)
  moreover have "x \<in> set (pending_of (rr_orderId x) (returns t))" "y \<in> set (pending_of (rr_orderId x) (returns t))"
    using assms(3-7) by (auto simp: pending_of_def)
  ultimately show ?thesis
    by (cases "pending_of (rr_orderId x) (returns t)") (auto simp: le_Suc_eq)
qed

text \<open>
  Property C32: a review that succeeds, of a request with an amount that is not negative, closes the request
  and is final. An approval sets the amount the reviewer names, which is then at most the requested one, or leaves
  the requested one when none or 0 is named; a rejection leaves it in every case; the row keeps that
  amount to two decimals, and every later review of the same request throws without changing anything.
\<close>

theorem review_final_and_never_raises:
  assumes "reviewReturnRequest now rid dto who s = (Inr r, t)"
    and "tbl_find rr_id rid (returns s) = Some old" and "rr_requestedAmount old = Some a" and "0 \<le> a"
  shows "rr_status r = (if rv_action dto = APPROVE then RS_APPROVED else RS_REJECTED) \<and>
    (\<exists>b. rr_requestedAmount r = Some b \<and> b \<le> a \<and>
      b = (if rv_action dto = APPROVE then (case rv_approvedAmount dto of None \<Rightarrow> a | Some c \<Rightarrow> if c = 0 then a else c) else a) \<and>
      tbl_find rr_id rid (returns t) = Some (r\<lparr>rr_requestedAmount := Some (round_to 2 b)\<rparr>)) \<and>
    (\<forall>now' dto' who'. \<exists>e. reviewReturnRequest now' rid dto' who' t = (Inl e, t))"
proof -
  have r: "r = reviewed_return now dto who old" and small: "\<not> approves_too_much dto old"
    and t: "returns t = tbl_save rr_id (round_return r) (returns s)"
    using assms(1,2) by (auto simp: review_Inr)
  have "rr_id r = rid" using r tbl_find_key [OF assms(2)] by simp
  then have found: "tbl_find rr_id rid (returns t) = Some (round_return r)" by (simp add: t)
  then have "\<forall>now' dto' who'. \<exists>e. reviewReturnRequest now' rid dto' who' t = (Inl e, t)"
    by (simp add: reviewReturnRequest_def r)
  moreover define b where
    "b = (if rv_action dto = APPROVE then (case rv_approvedAmount dto of None \<Rightarrow> a | Some c \<Rightarrow> if c = 0 then a else c) else a)"
  have "rr_requestedAmount r = Some b"
    using assms(3) by (auto simp: r b_def reviewed_return_def truthy_num_def Let_def split: option.split)
  moreover have "b \<le> a"
    using small assms(3,4) by (auto simp: b_def approves_too_much_def or_num_def split: option.splits if_splits)
  ultimately show ?thesis using found by (simp add: r round_return_def flip: b_def)
qed

text \<open>
  A partial refund is not bounded by what was ordered: for an item of the order,
  any quantity, however large, is accepted and asks for its price times that quantity, as
  long as the amount fits the column.
\<close>

lemma partial_refund_unbounded:
  assumes "return_guard now dto s = Inr (ord, w)" and "asked_type dto = PARTIAL"
    and "cq_items dto = Some [\<lparr>ri_listingId = p, ri_quantity = q\<rparr>]"
    and "List.find (\<lambda>i. it_productId i = p) (o_items ord) = Some i"
    and "length (currency_code (o_currency ord)) \<le> 3" and "\<bar>round_to 2 (it_price i * of_int q)\<bar> < 10 ^ 8"
  shows "\<exists>r t. createReturnRequest rid now dto s = (Inr r, t) \<and> rr_requestedAmount r = Some (it_price i * of_int q)"
proof -
  have "requested_amount ord PARTIAL (cq_items dto) = Inr (it_price i * of_int q)"
    using assms(3,4) by (simp add: requested_amount_def)
  moreover have "return_fits (new_return rid dto (o_currency ord) PARTIAL (it_price i * of_int q) w) = None"
    using assms(5,6) by (simp add: return_fits_def)
  ultimately show ?thesis
    using assms(1,2) unfolding create_return_Inr by (intro exI conjI) (assumption | simp)+
qed

subsection \<open>Sample runs\<close>

definition delivered_order :: order_row where
  "delivered_order = sample_order\<lparr>o_status := OS_DELIVERED, o_items := [(item_of ''p'' 3)\<lparr>it_price := 10\<rparr>], o_deliveredAt := Some 0\<rparr>"

definition returned_sale :: db where
  "returned_sale = empty_db\<lparr>orders := [delivered_order]\<rparr>"

lemma delivered_simps:
  "o_id delivered_order = ''o''" "o_buyerId delivered_order = ''b''" "o_status delivered_order = OS_DELIVERED"
  "o_deliveredAt delivered_order = Some 0" "o_totalAmount delivered_order = 30" "o_currency delivered_order = USD"
  by (simp_all add: delivered_order_def sample_order_def)

definition sample_return :: "refund_type \<Rightarrow> create_return_dto" where
  "sample_return ty = \<lparr>cq_orderId = ''o'', cq_buyerId = ''b'', cq_sellerId = ''s'', cq_reason = OTHER,
     cq_reasonDescription = None, cq_refundType = Some ty, cq_items = Some [\<lparr>ri_listingId = ''p'', ri_quantity = 1000\<rparr>],
     cq_returnWindowDays = None, cq_evidenceHash = None\<rparr>"

definition sample_review :: "review_action \<Rightarrow> number \<Rightarrow> review_return_dto" where
  "sample_review a x = \<lparr>rv_action = a, rv_notes = None, rv_approvedAmount = Some x\<rparr>"

lemma sample_guard: "return_guard 86400000 (sample_return ty) returned_sale = Inr (delivered_order, 30)"
  by (simp add: return_guard_Inr returned_sale_def sample_return_def pending_return_of_def delivered_simps)
    (simp add: empty_db_def)

lemma sample_full_return:
  "\<exists>t. createReturnRequest ''r'' 86400000 (sample_return FULL) returned_sale =
     (Inr (new_return ''r'' (sample_return FULL) USD FULL 30 30), t) \<and>
     tbl_find rr_id ''r'' (returns t) = Some (new_return ''r'' (sample_return FULL) USD FULL 30 30)"
proof -
  have whole: "round_to 2 30 = 30" using round_to_exact [of 2 3000] by simp
  have "return_fits (new_return ''r'' (sample_return FULL) USD FULL 30 30) = None"
    by (simp add: return_fits_def whole)
  moreover have "asked_type (sample_return ty) = ty" for ty by (simp add: asked_type_def sample_return_def)
  moreover have "round_return (new_return ''r'' (sample_return FULL) USD FULL 30 30) = new_return ''r'' (sample_return FULL) USD FULL 30 30"
    by (simp add: round_return_def whole new_return_def)
  ultimately show ?thesis
    by (simp add: createReturnRequest_def sample_guard requested_amount_def save_return_def delivered_simps)
qed

theorem createReturnRequest_effect_witness:
  "\<exists>r t d. createReturnRequest ''r'' 86400000 (sample_return FULL) returned_sale = (Inr r, t) \<and>
    of_int (86400000 - d) \<le> (30 :: number) * 86400000 \<and> rr_requestedAmount r = Some 30"
proof -
  from sample_full_return obtain t where
    "createReturnRequest ''r'' 86400000 (sample_return FULL) returned_sale =
      (Inr (new_return ''r'' (sample_return FULL) USD FULL 30 30), t)" by blast
  from this createReturnRequest_effect [OF this] show ?thesis
    by (auto simp: sample_return_def)
qed

theorem one_pending_return_per_order_witness:
  "\<exists>r t. createReturnRequest ''r'' 86400000 (sample_return FULL) returned_sale = (Inr r, t) \<and>
    (\<forall>x \<in> set (returns t). rr_status x = RS_PENDING \<longrightarrow> rr_orderId x = rr_orderId r \<longrightarrow> x = r)"
proof -
  from sample_full_return obtain t where run: "createReturnRequest ''r'' 86400000 (sample_return FULL) returned_sale =
      (Inr (new_return ''r'' (sample_return FULL) USD FULL 30 30), t)"
    and found: "tbl_find rr_id ''r'' (returns t) = Some (new_return ''r'' (sample_return FULL) USD FULL 30 30)" by blast
  have none: "returns returned_sale = []" by (simp add: returned_sale_def empty_db_def)
  have "return_step returned_sale t" using run none by (intro return_step.requested [OF run]) simp
  then have "return_step\<^sup>*\<^sup>* returned_sale t" by (rule r_into_rtranclp)
  from one_pending_return_per_order [OF this none _ tbl_find_mem [OF found]] run show ?thesis by force
qed

theorem review_final_and_never_raises_witness:
  "\<exists>s r t. reviewReturnRequest 1 ''r'' (sample_review APPROVE 20) ''a'' s = (Inr r, t) \<and>
    (\<exists>e. reviewReturnRequest 2 ''r'' (sample_review REJECT 0) ''a'' t = (Inl e, t))"
proof -
  let ?old = "new_return ''r'' (sample_return FULL) USD FULL 30 30"
  let ?s = "empty_db\<lparr>returns := [?old]\<rparr>"
  let ?new = "reviewed_return 1 (sample_review APPROVE 20) ''a'' ?old"
  have found: "tbl_find rr_id ''r'' (returns ?s) = Some ?old" by simp
  have "round_to 2 20 = 20" using round_to_exact [of 2 2000] by simp
  moreover have "rr_currency ?new = USD" by (simp add: reviewed_return_def Let_def sample_review_def)
  ultimately have "return_fits ?new = None" by (simp add: return_fits_def sample_review_def)
  moreover have "\<not> approves_too_much (sample_review APPROVE 20) ?old" by (simp add: approves_too_much_def sample_review_def)
  ultimately have run: "\<exists>t. reviewReturnRequest 1 ''r'' (sample_review APPROVE 20) ''a'' ?s = (Inr ?new, t)"
    unfolding review_Inr using found by auto
  then obtain t where run: "reviewReturnRequest 1 ''r'' (sample_review APPROVE 20) ''a'' ?s = (Inr ?new, t)" ..
  have "\<exists>e. reviewReturnRequest 2 ''r'' (sample_review REJECT 0) ''a'' t = (Inl e, t)"
    using review_final_and_never_raises [OF run found, of 30] by simp
  then show ?thesis using run by blast
qed

theorem partial_refund_unbounded_witness:
  "\<exists>r t. createReturnRequest ''r'' 86400000 (sample_return PARTIAL) returned_sale = (Inr r, t) \<and>
    rr_requestedAmount r = Some 10000 \<and> o_totalAmount delivered_order = 30"
proof -
  have "round_to 2 10000 = 10000" using round_to_exact [of 2 1000000] by simp
  then show ?thesis
    using partial_refund_unbounded [OF sample_guard [of PARTIAL], of "''p''" 1000 "(item_of ''p'' 3)\<lparr>it_price := 10\<rparr>" "''r''"]
    by (simp add: asked_type_def sample_return_def delivered_simps) (simp add: delivered_order_def item_of_def)
qed

end
