(* ===== verification/PaymentMonitor.thy ===== *)
theory PaymentMonitor
  imports Payments "HOL-Library.AList"
begin

text \<open>
  \<open>PaymentMonitorService\<close> (src/src/payments/payment-monitor.service.ts): one Stellar stream and one
  timer per watched payment, the transactions that arrive on a stream, and the periodic sweep of
  expired payments. The state is the database with the two maps of the service; whether Horizon
  opens a stream for an address is a parameter, and so is the clock. Streams, timers and the
  interval run one callback after the other.
\<close>

subsection \<open>State\<close>

text \<open>\<open>streams\<close> is the map \<open>activeStreams\<close> from payments to destinations, in insertion order,
  and \<open>timers\<close> the map \<open>timeoutIntervals\<close> to the time each handle fires at.\<close>

record monitor =
  mdb :: db
  streams :: "(uuid \<times> string) list"
  timers :: "(uuid \<times> time) list"

record stellar_operation =
  op_type :: string
  op_from :: string
  op_to :: "string option"
  op_destination :: "string option"
  op_amount :: string
  op_asset_code :: "string option"

text \<open>\<open>transaction.operations()\<close> may be refused; its records are then missing.\<close>

record stellar_transaction =
  st_id :: string
  st_created_at :: time
  st_operations :: "stellar_operation list option"

definition map_without :: "uuid \<Rightarrow> (uuid \<times> 'a) list \<Rightarrow> (uuid \<times> 'a) list" where
  "map_without k xs = filter (\<lambda>x. fst x \<noteq> k) xs"

definition isMonitoring :: "uuid \<Rightarrow> monitor \<Rightarrow> bool" where
  "isMonitoring paymentId m \<longleftrightarrow> paymentId \<in> fst ` set (streams m)"

definition getActiveStreamCount :: "monitor \<Rightarrow> nat" where
  "getActiveStreamCount m = length (streams m)"

subsection \<open>Starting and stopping\<close>

text \<open>The promise of \<open>findOne\<close> is never falsy: the timer is set whatever the payment, always for
  thirty minutes. Setting a key that is present replaces its value.\<close>

definition setupPaymentTimeout :: "time \<Rightarrow> uuid \<Rightarrow> monitor \<Rightarrow> monitor" where
  "setupPaymentTimeout now paymentId m =
     (let timeoutMs = 30 * 60 * 1000
      in m\<lparr>timers := AList.update paymentId (now + timeoutMs) (timers m)\<rparr>)"

definition clearPaymentTimeout :: "uuid \<Rightarrow> monitor \<Rightarrow> monitor" where
  "clearPaymentTimeout paymentId m = m\<lparr>timers := map_without paymentId (timers m)\<rparr>"

definition monitorPayment :: "(string \<Rightarrow> bool) \<Rightarrow> time \<Rightarrow> uuid \<Rightarrow> string \<Rightarrow> monitor \<Rightarrow> (unit, monitor) result" where
  "monitorPayment opens now paymentId destinationAddress m =
     (if isMonitoring paymentId m then (Inr (), m)
      else if opens destinationAddress
      then (Inr (), setupPaymentTimeout now paymentId
             (m\<lparr>streams := AList.update paymentId destinationAddress (streams m)\<rparr>))
      else (Inl (Error [Txt ''stream failed'']), m))"

definition stopMonitoringPayment :: "uuid \<Rightarrow> monitor \<Rightarrow> monitor" where
  "stopMonitoringPayment paymentId m =
     clearPaymentTimeout paymentId
       (if isMonitoring paymentId m then m\<lparr>streams := map_without paymentId (streams m)\<rparr> else m)"

subsection \<open>Incoming transactions\<close>

text \<open>\<open>operation.to || operation.destination\<close>.\<close>

definition op_target :: "stellar_operation \<Rightarrow> string option" where
  "op_target operation = (if truthy_text (op_to operation) then op_to operation else op_destination operation)"

definition checkPaymentOperation :: "payment_row \<Rightarrow> stellar_operation \<Rightarrow> string \<Rightarrow> bool" where
  "checkPaymentOperation payment operation destinationAddress =
     (if op_target operation \<noteq> Some destinationAddress then False
      else if (case parse_float (op_amount operation) of
                 None \<Rightarrow> False | Some a \<Rightarrow> \<bar>a - pm_amount payment\<bar> > tolerance)
      then False
      else if pm_currency payment \<noteq> XLM
        \<and> upper_text (or_text (op_asset_code operation) ''XLM'') \<noteq> currency_code (pm_currency payment)
      then False
      else True)"

definition is_payment_operation :: "stellar_operation \<Rightarrow> bool" where
  "is_payment_operation operation \<longleftrightarrow>
     op_type operation = ''payment'' \<or> op_type operation = ''path_payment_strict_receive''"

definition transaction_data_of :: "stellar_transaction \<Rightarrow> stellar_operation \<Rightarrow> transaction_data" where
  "transaction_data_of tx operation =
     \<lparr>td_id = st_id tx, td_source_account = op_from operation, td_to = op_target operation,
      td_amount = op_amount operation, td_asset_code = Some (or_text (op_asset_code operation) ''XLM''),
      td_created_at = st_created_at tx, td_confirmations = Some 1\<rparr>"

text \<open>Every exception is caught and logged, so that the effects before it stay.\<close>

definition handleIncomingTransaction ::
  "time \<Rightarrow> uuid \<Rightarrow> stellar_transaction \<Rightarrow> string \<Rightarrow> monitor \<Rightarrow> monitor" where
  "handleIncomingTransaction now paymentId tx destinationAddress m =
     (case tbl_find pm_id paymentId (payments (mdb m)) of
        None \<Rightarrow> m
      | Some payment \<Rightarrow>
        if pm_status payment \<noteq> PS_PENDING then m
        else case st_operations tx of
            None \<Rightarrow> m
          | Some operations \<Rightarrow>
            case List.find (\<lambda>operation. is_payment_operation operation \<and>
                checkPaymentOperation payment operation destinationAddress) operations of
              None \<Rightarrow> m
            | Some operation \<Rightarrow>
              case verifyAndConfirmPayment paymentId (transaction_data_of tx operation) now (mdb m) of
                (Inl e, s) \<Rightarrow> m\<lparr>mdb := s\<rparr>
              | (Inr _, s) \<Rightarrow>
                let m = stopMonitoringPayment paymentId (m\<lparr>mdb := s\<rparr>)
                in m\<lparr>mdb := emit (PaymentStreamConfirmed paymentId (st_id tx)) (mdb m)\<rparr>)"

subsection \<open>Timeouts\<close>

definition time_out :: "time \<Rightarrow> uuid \<Rightarrow> monitor \<Rightarrow> monitor" where
  "time_out now paymentId m = m\<lparr>mdb := snd (handlePaymentTimeout paymentId now (mdb m))\<rparr>"

text \<open>The callback of a timer.\<close>

definition fireTimeout :: "time \<Rightarrow> uuid \<Rightarrow> monitor \<Rightarrow> monitor" where
  "fireTimeout now paymentId m =
     (let m = (case tbl_find pm_id paymentId (payments (mdb m)) of
           None \<Rightarrow> m
         | Some currentPayment \<Rightarrow>
           if pm_status currentPayment = PS_PENDING
           then stopMonitoringPayment paymentId (time_out now paymentId m) else m)
      in clearPaymentTimeout paymentId m)"

definition pending_payments :: "db \<Rightarrow> payment_row list" where
  "pending_payments s = filter (\<lambda>p. pm_status p = PS_PENDING) (payments s)"

fun sweep :: "time \<Rightarrow> payment_row list \<Rightarrow> monitor \<Rightarrow> monitor" where
  "sweep now [] m = m"
| "sweep now (payment # ps) m =
     (case pm_expiresAt payment of
        None \<Rightarrow> sweep now ps m
      | Some expiresAt \<Rightarrow>
        if expiresAt < now
        then sweep now ps (stopMonitoringPayment (pm_id payment) (time_out now (pm_id payment) m))
        else sweep now ps m)"

definition checkAndHandleExpiredPayments :: "time \<Rightarrow> monitor \<Rightarrow> monitor" where
  "checkAndHandleExpiredPayments now m = sweep now (pending_payments (mdb m)) m"

fun resume :: "(string \<Rightarrow> bool) \<Rightarrow> time \<Rightarrow> payment_row list \<Rightarrow> monitor \<Rightarrow> monitor" where
  "resume opens now [] m = m"
| "resume opens now (payment # ps) m =
     (case pm_expiresAt payment of
        None \<Rightarrow> resume opens now ps m
      | Some expiresAt \<Rightarrow>
        if expiresAt > now
        then resume opens now ps (snd (monitorPayment opens now (pm_id payment) (pm_destinationWalletAddress payment) m))
        else resume opens now ps (time_out now (pm_id payment) m))"

definition resumePendingPaymentMonitoring :: "(string \<Rightarrow> bool) \<Rightarrow> time \<Rightarrow> monitor \<Rightarrow> monitor" where
  "resumePendingPaymentMonitoring opens now m = resume opens now (pending_payments (mdb m)) m"

definition closeAllStreams :: "monitor \<Rightarrow> monitor" where
  "closeAllStreams m = m\<lparr>streams := []\<rparr>"

definition clearAllTimeouts :: "monitor \<Rightarrow> monitor" where
  "clearAllTimeouts m = m\<lparr>timers := []\<rparr>"

text \<open>The interval that \<open>onModuleInit\<close> starts is the step that sweeps.\<close>

definition onModuleInit :: "(string \<Rightarrow> bool) \<Rightarrow> time \<Rightarrow> monitor \<Rightarrow> monitor" where
  "onModuleInit opens now m = resumePendingPaymentMonitoring opens now m"

definition onModuleDestroy :: "monitor \<Rightarrow> monitor" where
  "onModuleDestroy m = clearAllTimeouts (closeAllStreams m)"

lemmas destroy_defs = onModuleDestroy_def closeAllStreams_def clearAllTimeouts_def

subsection \<open>What every callback keeps\<close>

lemma isMonitoring_stop [simp]: "\<not> isMonitoring pid (stopMonitoringPayment pid m)"
  by (auto simp: isMonitoring_def stopMonitoringPayment_def clearPaymentTimeout_def map_without_def)

lemma monitor_mdb [simp]:
  "mdb (stopMonitoringPayment pid m) = mdb m" "mdb (clearPaymentTimeout pid m) = mdb m"
  "mdb (setupPaymentTimeout now pid m) = mdb m" "mdb (snd (monitorPayment opens now pid d m)) = mdb m"
  "mdb (time_out now pid m) = snd (handlePaymentTimeout pid now (mdb m))"
  by (simp_all add: stopMonitoringPayment_def clearPaymentTimeout_def setupPaymentTimeout_def monitorPayment_def time_out_def Let_def)

text \<open>A callback of the service, or an operation of the payments service called from elsewhere.\<close>

inductive monitor_step :: "monitor \<Rightarrow> monitor \<Rightarrow> bool" where
  watch: "monitor_step m (snd (monitorPayment opens now pid d m))"
| stop: "monitor_step m (stopMonitoringPayment pid m)"
| incoming: "(pid, d) \<in> set (streams m) \<Longrightarrow> monitor_step m (handleIncomingTransaction now pid tx d m)"
| fires: "(pid, now) \<in> set (timers m) \<Longrightarrow> monitor_step m (fireTimeout now pid m)"
| swept: "monitor_step m (checkAndHandleExpiredPayments now m)"
| resumed: "monitor_step m (onModuleInit opens now m)"
| destroyed: "monitor_step m (onModuleDestroy m)"
| elsewhere: "payment_step (mdb m) s \<Longrightarrow> monitor_step m (m\<lparr>mdb := s\<rparr>)"

text \<open>The callbacks move the payments only by steps of the payments service; the confirmation event
  they add leaves the tables alone.\<close>

definition payments_evolve :: "db \<Rightarrow> db \<Rightarrow> bool" where
  "payments_evolve s t \<longleftrightarrow> (\<exists>u. payment_step\<^sup>*\<^sup>* s u \<and> payments t = payments u)"

lemma evolve_refl [simp]: "payments_evolve s s"
  by (auto simp: payments_evolve_def)

lemma evolve_timeout: "payments_evolve s t \<Longrightarrow> payments_evolve s (snd (handlePaymentTimeout pid now t))"
proof -
  assume "payments_evolve s t"
  then obtain u where u: "payment_step\<^sup>*\<^sup>* s u" "payments t = payments u" by (auto simp: payments_evolve_def)
  have "payments (snd (handlePaymentTimeout pid now t)) = payments (snd (handlePaymentTimeout pid now u))"
    by (simp add: handlePaymentTimeout_def u(2) Let_def split: option.split)
  moreover have "payment_step\<^sup>*\<^sup>* s (snd (handlePaymentTimeout pid now u))"
    using u(1) payment_step.expire by (rule rtranclp.rtrancl_into_rtrancl)
  ultimately show ?thesis by (auto simp: payments_evolve_def)
qed

lemma evolve_sweep: "payments_evolve s (mdb m) \<Longrightarrow> payments_evolve s (mdb (sweep now ps m))"
proof (induction ps arbitrary: m)
  case (Cons p ps)
  then show ?case by (auto split: option.split intro!: Cons.IH evolve_timeout)
qed simp

lemma evolve_resume: "payments_evolve s (mdb m) \<Longrightarrow> payments_evolve s (mdb (resume opens now ps m))"
proof (induction ps arbitrary: m)
  case (Cons p ps)
  then show ?case by (auto split: option.split intro!: Cons.IH evolve_timeout)
qed simp

lemma evolve_verified:
  "verifyAndConfirmPayment pid td now s = (r, u) \<Longrightarrow> payments_evolve s u"
  using payment_step.verify [of s pid td now] by (auto simp: payments_evolve_def)

lemma evolve_emit [simp]: "payments_evolve s (emit ev t) = payments_evolve s t"
  by (simp add: payments_evolve_def)

lemma evolve_incoming: "payments_evolve (mdb m) (mdb (handleIncomingTransaction now pid tx d m))"
  by (auto simp: handleIncomingTransaction_def Let_def split: option.split sum.split prod.split dest: evolve_verified)

lemma step_evolves:
  assumes "monitor_step m n"
  shows "payments_evolve (mdb m) (mdb n)"
  using assms
proof cases
  case (fires pid now)
  then show ?thesis by (auto simp: fireTimeout_def Let_def split: option.split intro: evolve_timeout)
next
  case (elsewhere s)
  then show ?thesis by (auto simp: payments_evolve_def)
qed (auto simp: checkAndHandleExpiredPayments_def onModuleInit_def resumePendingPaymentMonitoring_def destroy_defs
    intro: evolve_sweep evolve_resume evolve_incoming)

definition payments_sound :: "db \<Rightarrow> bool" where
  "payments_sound s \<longleftrightarrow> distinct (map pm_id (payments s)) \<and> one_pending (payments s)"

lemma evolve_sound:
  assumes "payments_evolve s t" and "payments_sound s"
  shows "payments_sound t"
proof -
  obtain u where "payment_step\<^sup>*\<^sup>* s u" and t: "payments t = payments u" using assms(1) by (auto simp: payments_evolve_def)
  from this(1) have "payments_sound u"
    by induction (use assms(2) step_keeps_payments_sound in \<open>auto simp: payments_sound_def\<close>)
  then show ?thesis using t by (simp add: payments_sound_def)
qed

lemma evolve_settled:
  assumes "payments_evolve s t" and "tbl_find pm_id pid (payments s) = Some p" and "pm_status p \<noteq> PS_PENDING"
  shows "tbl_find pm_id pid (payments t) = Some p"
proof -
  obtain u where "payment_step\<^sup>*\<^sup>* s u" and t: "payments t = payments u" using assms(1) by (auto simp: payments_evolve_def)
  from this(1) have "tbl_find pm_id pid (payments u) = Some p"
    by induction (use assms(2,3) step_keeps_settled in auto)
  then show ?thesis using t by simp
qed

text \<open>
  Property C3: whatever arrives on the streams, whichever timers fire, sweeps run and calls of the
  payments service come in between, a payment that was confirmed, failed or timed out is never
  touched again, ids stay unique, and no order has two payments waiting.
\<close>

theorem monitored_payments_sound:
  assumes "monitor_step\<^sup>*\<^sup>* m n" and "payments_sound (mdb m)"
  shows "payments_sound (mdb n) \<and>
    (\<forall>pid p. tbl_find pm_id pid (payments (mdb m)) = Some p \<and> pm_status p \<noteq> PS_PENDING \<longrightarrow>
      tbl_find pm_id pid (payments (mdb n)) = Some p)"
  using assms(1)
  by induction (use assms(2) step_evolves evolve_sound evolve_settled in blast)+

subsection \<open>Streams and timers\<close>

text \<open>Each payment has at most one stream and one timer, and every timer belongs to a payment with an
  open stream.\<close>

definition wired :: "monitor \<Rightarrow> bool" where
  "wired m \<longleftrightarrow> distinct (map fst (streams m)) \<and> distinct (map fst (timers m)) \<and>
     fst ` set (timers m) \<subseteq> fst ` set (streams m)"

lemma without_keys [simp]:
  "fst ` set (map_without k xs) = fst ` set xs - {k}"
  "distinct (map fst xs) \<Longrightarrow> distinct (map fst (map_without k xs))"
  by (auto simp: map_without_def distinct_map_filter)

lemma wired_clear: "wired m \<Longrightarrow> wired (clearPaymentTimeout pid m)"
  by (auto simp: wired_def clearPaymentTimeout_def)

lemma wired_stop: "wired m \<Longrightarrow> wired (stopMonitoringPayment pid m)"
  by (auto simp: wired_def stopMonitoringPayment_def clearPaymentTimeout_def isMonitoring_def)

lemma wired_monitor: "wired m \<Longrightarrow> wired (snd (monitorPayment opens now pid d m))"
  by (auto simp: wired_def monitorPayment_def setupPaymentTimeout_def Let_def dom_update distinct_update)

lemma wired_mdb [simp]: "wired (m\<lparr>mdb := s\<rparr>) = wired m"
  by (simp add: wired_def)

lemma wired_time_out [simp]: "wired (time_out now pid m) = wired m"
  by (simp add: time_out_def)

lemma wired_sweep: "wired m \<Longrightarrow> wired (sweep now ps m)"
  by (induction ps arbitrary: m) (auto split: option.split simp: wired_stop)

lemma wired_resume: "wired m \<Longrightarrow> wired (resume opens now ps m)"
  by (induction ps arbitrary: m) (auto split: option.split simp: wired_monitor)

lemma wired_destroy: "wired (onModuleDestroy m)"
  by (simp add: wired_def destroy_defs)

lemma step_wired: "monitor_step m n \<Longrightarrow> wired m \<Longrightarrow> wired n"
  by (induction rule: monitor_step.induct)
    (auto simp: wired_destroy handleIncomingTransaction_def fireTimeout_def checkAndHandleExpiredPayments_def
      onModuleInit_def resumePendingPaymentMonitoring_def Let_def wired_monitor wired_stop wired_clear wired_sweep wired_resume
      split: option.split sum.split prod.split)

text \<open>
  In every state reached from a fresh service each payment has at most one stream and
  at most one timer, and every timer belongs to a payment with an open stream; stopping, timing
  out and sweeping a payment leave neither behind.
\<close>

lemma streams_and_timers_wired:
  assumes "monitor_step\<^sup>*\<^sup>* m n" and "streams m = []" and "timers m = []"
  shows "distinct (map fst (streams n)) \<and> distinct (map fst (timers n)) \<and>
    fst ` set (timers n) \<subseteq> fst ` set (streams n) \<and>
    \<not> isMonitoring pid (stopMonitoringPayment pid n) \<and> pid \<notin> fst ` set (timers (stopMonitoringPayment pid n))"
proof -
  have "wired n" using assms(1)
    by induction (use assms(2,3) step_wired in \<open>auto simp: wired_def\<close>)
  moreover have "pid \<notin> fst ` set (timers (stopMonitoringPayment pid n))"
    by (simp add: stopMonitoringPayment_def clearPaymentTimeout_def)
  ultimately show ?thesis by (simp add: wired_def)
qed

subsection \<open>What a transaction does\<close>

text \<open>The first operation the check accepts decides.\<close>

lemma incoming_run:
  assumes "tbl_find pm_id pid (payments (mdb m)) = Some p" and "pm_status p = PS_PENDING"
    and "st_operations tx = Some (before @ oper # after)"
    and "\<forall>x \<in> set before. \<not> (is_payment_operation x \<and> checkPaymentOperation p x d)"
    and "is_payment_operation oper" and "checkPaymentOperation p oper d"
    and "verifyAndConfirmPayment pid (transaction_data_of tx oper) now (mdb m) = (Inr r, s)"
  shows "handleIncomingTransaction now pid tx d m =
    (let n = stopMonitoringPayment pid (m\<lparr>mdb := s\<rparr>)
     in n\<lparr>mdb := emit (PaymentStreamConfirmed pid (st_id tx)) s\<rparr>)"
proof -
  have "List.find (\<lambda>x. is_payment_operation x \<and> checkPaymentOperation p x d) (before @ oper # after) = Some oper"
    using assms(4-6) by (induction before) auto
  then show ?thesis using assms(1,2,3,7) by (simp add: handleIncomingTransaction_def Let_def)
qed

text \<open>
  An operation that pays the expected amount (within the tolerance) in the currency
  of the payment to the watched address, no older than the payment's timeout, confirms the
  payment and marks its order paid; the stream and the timer of the payment are closed and the
  confirmation is announced.
\<close>

lemma matching_operation_confirms:
  assumes "tbl_find pm_id pid (payments (mdb m)) = Some p" and "pm_status p = PS_PENDING"
    and "tbl_find o_id (pm_orderId p) (orders (mdb m)) = Some ord" and "o_status ord \<noteq> OS_MANUAL_REVIEW" and "stored ord"
    and "st_operations tx = Some (before @ oper # after)"
    and "\<forall>x \<in> set before. \<not> (is_payment_operation x \<and> checkPaymentOperation p x (pm_destinationWalletAddress p))"
    and "is_payment_operation oper" and "op_target oper = Some (pm_destinationWalletAddress p)"
    and "parse_float (op_amount oper) = Some a" and "\<bar>a - pm_amount p\<bar> \<le> tolerance"
    and "upper_text (or_text (op_asset_code oper) ''XLM'') = currency_code (pm_currency p)"
    and "of_int (now - st_created_at tx) \<le> pm_timeoutMinutes p * 60000"
  shows "\<exists>n p' ord'. handleIncomingTransaction now pid tx (pm_destinationWalletAddress p) m = n \<and>
    tbl_find pm_id pid (payments (mdb n)) = Some p' \<and> pm_status p' = PS_CONFIRMED \<and>
    tbl_find o_id (pm_orderId p) (orders (mdb n)) = Some ord' \<and> o_status ord' = OS_PAID \<and>
    \<not> isMonitoring pid n \<and> pid \<notin> fst ` set (timers n) \<and>
    last (events (mdb n)) = PaymentStreamConfirmed pid (st_id tx)"
proof -
  let ?td = "transaction_data_of tx oper"
  have valid: "validateTransaction now p ?td = None"
  proof -
    have "\<not> amount_differs p ?td" using assms(10,11) by (simp add: amount_differs_def transaction_data_of_def)
    moreover have "or_text (op_asset_code oper) ''XLM'' \<noteq> []" by (auto simp: or_text_def split: option.split)
    ultimately show ?thesis using assms(9,12,13)
      by (simp add: validateTransaction_def transaction_data_of_def Let_def not_less divide_le_eq)
  qed
  have check: "checkPaymentOperation p oper (pm_destinationWalletAddress p)"
    using assms(9-12) by (simp add: checkPaymentOperation_def not_less)
  obtain ev where run: "verifyAndConfirmPayment pid ?td now (mdb m) =
      (Inr (mapToResponseDto now (confirmed_payment ?td now p)),
       emit ev ((mdb m)\<lparr>payments := tbl_save pm_id (round_payment (confirmed_payment ?td now p)) (payments (mdb m)),
          orders := tbl_save o_id (paid_order now ord) (orders (mdb m))\<rparr>))" (is "_ = (_, ?s)")
    using confirm_run [OF assms(1,2,3,4) valid assms(5)] by blast
  let ?n = "(stopMonitoringPayment pid (m\<lparr>mdb := ?s\<rparr>))\<lparr>mdb := emit (PaymentStreamConfirmed pid (st_id tx)) ?s\<rparr>"
  have "handleIncomingTransaction now pid tx (pm_destinationWalletAddress p) m = ?n"
    using incoming_run [OF assms(1,2,6,7,8) check run] by (simp add: Let_def)
  moreover have "\<not> isMonitoring pid ?n" using isMonitoring_stop [of pid "m\<lparr>mdb := ?s\<rparr>"] by (simp add: isMonitoring_def)
  moreover have "pid \<notin> fst ` set (timers ?n)" by (simp add: stopMonitoringPayment_def clearPaymentTimeout_def)
  moreover have "pm_id p = pid" "o_id ord = pm_orderId p" using assms(1,3) by (auto dest: tbl_find_key)
  ultimately show ?thesis by simp
qed

text \<open>
  The check of the stream does not look at the asset of a payment in XLM: an
  operation in any other asset of the same amount makes the verification mark the waiting payment
  failed, while the stream and the timer are closed and a confirmation is announced. Anyone can
  end another buyer's payment this way, and the order stays unpaid.
\<close>

lemma foreign_asset_fails_payment:
  assumes "tbl_find pm_id pid (payments (mdb m)) = Some p" and "pm_status p = PS_PENDING" and "pm_currency p = XLM"
    and "map_option o_status (tbl_find o_id (pm_orderId p) (orders (mdb m))) \<noteq> Some OS_MANUAL_REVIEW"
    and "st_operations tx = Some (oper # after)" and "is_payment_operation oper"
    and "op_target oper = Some (pm_destinationWalletAddress p)"
    and "parse_float (op_amount oper) = Some a" and "\<bar>a - pm_amount p\<bar> \<le> tolerance"
    and "op_asset_code oper = Some asset" and "asset \<noteq> []" and "upper_text asset \<noteq> ''XLM''"
  shows "\<exists>n p'. handleIncomingTransaction now pid tx (pm_destinationWalletAddress p) m = n \<and>
    tbl_find pm_id pid (payments (mdb n)) = Some p' \<and> pm_status p' = PS_FAILED \<and>
    orders (mdb n) = orders (mdb m) \<and> \<not> isMonitoring pid n \<and>
    last (events (mdb n)) = PaymentStreamConfirmed pid (st_id tx)"
proof -
  let ?td = "transaction_data_of tx oper"
  have check: "checkPaymentOperation p oper (pm_destinationWalletAddress p)"
    using assms(3,7-9) by (simp add: checkPaymentOperation_def not_less)
  have "\<not> amount_differs p ?td" using assms(8,9) by (simp add: amount_differs_def transaction_data_of_def)
  then have "validateTransaction now p ?td \<noteq> None"
    using assms(3,7,10-12) by (simp add: validateTransaction_def transaction_data_of_def)
  then obtain msg where bad: "validateTransaction now p ?td = Some msg" by blast
  let ?p = "p\<lparr>pm_status := PS_FAILED, pm_failureReason := Some msg, pm_failedAt := Some now\<rparr>"
  let ?s = "emit (PaymentFailedEvent pid (pm_buyerId ?p) (pm_orderId ?p) (pm_amount ?p) msg) (save_payment ?p (mdb m))"
  have run: "verifyAndConfirmPayment pid ?td now (mdb m) = (Inr (mapToResponseDto now ?p), ?s)"
    using assms(1,2,4) bad by (simp add: verifyAndConfirmPayment_def Let_def)
  let ?n = "(stopMonitoringPayment pid (m\<lparr>mdb := ?s\<rparr>))\<lparr>mdb := emit (PaymentStreamConfirmed pid (st_id tx)) ?s\<rparr>"
  have "handleIncomingTransaction now pid tx (pm_destinationWalletAddress p) m = ?n"
    using incoming_run [OF assms(1,2) _ _ assms(6) check run, of "[]" after] assms(5) by (simp add: Let_def)
  moreover have "\<not> isMonitoring pid ?n" using isMonitoring_stop [of pid "m\<lparr>mdb := ?s\<rparr>"] by (simp add: isMonitoring_def)
  moreover have "pm_id p = pid" by (rule tbl_find_key [OF assms(1)])
  ultimately show ?thesis by simp
qed

subsection \<open>Expiry\<close>

definition expired :: "time \<Rightarrow> payment_row \<Rightarrow> bool" where
  "expired now p \<longleftrightarrow> (case pm_expiresAt p of None \<Rightarrow> False | Some e \<Rightarrow> e < now)"

lemma time_out_payments:
  assumes "tbl_find pm_id pid (payments (mdb m)) = Some p" and "pm_status p = PS_PENDING"
  shows "\<exists>q. pm_id q = pid \<and> pm_status q = PS_TIMEOUT \<and>
    payments (mdb (time_out now pid m)) = tbl_save pm_id q (payments (mdb m))"
  using assms tbl_find_key [OF assms(1)]
  by (simp add: handlePaymentTimeout_def Let_def) (intro exI conjI; (rule refl | simp))

lemma isMonitoring_mdb [simp]:
  "isMonitoring pid (time_out now k m) = isMonitoring pid m"
  "isMonitoring pid (stopMonitoringPayment k m) \<longleftrightarrow> pid \<noteq> k \<and> isMonitoring pid m"
  by (auto simp: isMonitoring_def time_out_def stopMonitoringPayment_def clearPaymentTimeout_def)

lemma sweep_effect:
  assumes "distinct (map pm_id ps)"
    and "\<forall>p \<in> set ps. tbl_find pm_id (pm_id p) (payments (mdb m)) = Some p \<and> pm_status p = PS_PENDING"
  shows "(if \<exists>p \<in> set ps. pm_id p = pid \<and> expired now p
          then (\<exists>q. tbl_find pm_id pid (payments (mdb (sweep now ps m))) = Some q \<and> pm_status q = PS_TIMEOUT) \<and>
            \<not> isMonitoring pid (sweep now ps m)
          else tbl_find pm_id pid (payments (mdb (sweep now ps m))) = tbl_find pm_id pid (payments (mdb m)) \<and>
            isMonitoring pid (sweep now ps m) = isMonitoring pid m)"
  using assms
proof (induction ps arbitrary: m)
  case (Cons p ps)
  show ?case
  proof (cases "expired now p")
    case True
    let ?m = "stopMonitoringPayment (pm_id p) (time_out now (pm_id p) m)"
    obtain q where q: "pm_id q = pm_id p" "pm_status q = PS_TIMEOUT"
      "payments (mdb ?m) = tbl_save pm_id q (payments (mdb m))"
      using time_out_payments [of "pm_id p" m p now] Cons.prems(2) by auto
    have "\<forall>r \<in> set ps. pm_id r \<noteq> pm_id p" using Cons.prems(1) by (auto simp: image_iff)
    then have "\<forall>r \<in> set ps. tbl_find pm_id (pm_id r) (payments (mdb ?m)) = Some r \<and> pm_status r = PS_PENDING"
      using Cons.prems(2) q by simp
    moreover have "sweep now (p # ps) m = sweep now ps ?m" using True by (simp add: expired_def split: option.splits)
    ultimately show ?thesis
      using Cons.IH [of ?m] Cons.prems(1) q True by (auto split: if_splits)
  next
    case False
    then have "sweep now (p # ps) m = sweep now ps m" by (auto simp: expired_def split: option.splits)
    then show ?thesis using Cons.IH [of m] Cons.prems False by (auto split: if_splits)
  qed
qed simp

text \<open>
  Property C29: after a sweep no waiting payment is past its expiry: each of them was marked
  timed out and is no longer watched; every other payment, and its stream, is left as it was.
\<close>

theorem sweep_times_out_exactly_expired:
  assumes "payments_sound (mdb m)" and "tbl_find pm_id pid (payments (mdb m)) = Some p"
  shows "let n = checkAndHandleExpiredPayments now m in
    if pm_status p = PS_PENDING \<and> expired now p
    then (\<exists>q. tbl_find pm_id pid (payments (mdb n)) = Some q \<and> pm_status q = PS_TIMEOUT) \<and> \<not> isMonitoring pid n
    else tbl_find pm_id pid (payments (mdb n)) = Some p \<and> isMonitoring pid n = isMonitoring pid m"
proof -
  have dist: "distinct (map pm_id (payments (mdb m)))" using assms(1) by (simp add: payments_sound_def)
  have found: "tbl_find pm_id (pm_id r) (payments (mdb m)) = Some r" if "r \<in> set (payments (mdb m))" for r
    using tbl_find_distinct [OF dist that] .
  have "distinct (map pm_id (pending_payments (mdb m)))" by (simp add: pending_payments_def distinct_map_filter dist)
  moreover have "\<forall>r \<in> set (pending_payments (mdb m)). tbl_find pm_id (pm_id r) (payments (mdb m)) = Some r \<and> pm_status r = PS_PENDING"
    using found by (simp add: pending_payments_def)
  ultimately have eff: "if \<exists>r \<in> set (pending_payments (mdb m)). pm_id r = pid \<and> expired now r
      then (\<exists>q. tbl_find pm_id pid (payments (mdb (checkAndHandleExpiredPayments now m))) = Some q \<and> pm_status q = PS_TIMEOUT) \<and>
        \<not> isMonitoring pid (checkAndHandleExpiredPayments now m)
      else tbl_find pm_id pid (payments (mdb (checkAndHandleExpiredPayments now m))) = tbl_find pm_id pid (payments (mdb m)) \<and>
        isMonitoring pid (checkAndHandleExpiredPayments now m) = isMonitoring pid m"
    unfolding checkAndHandleExpiredPayments_def by (rule sweep_effect)
  have "(\<exists>r \<in> set (pending_payments (mdb m)). pm_id r = pid \<and> expired now r) \<longleftrightarrow> pm_status p = PS_PENDING \<and> expired now p"
    using assms(2) found tbl_find_mem [OF assms(2)] tbl_find_key [OF assms(2)]
    by (auto simp: pending_payments_def) (metis option.inject)+
  with eff show ?thesis using assms(2) by (simp add: Let_def split: if_splits)
qed

text \<open>
  Watching a payment sets its timer to thirty minutes whatever timeout the payment
  has: when the timer fires first the payment is marked timed out, also when it was to stay open
  for longer.
\<close>

lemma timer_ignores_timeout_of_payment:
  assumes "\<not> isMonitoring pid m" and "opens d" and "tbl_find pm_id pid (payments (mdb m)) = Some p"
    and "pm_status p = PS_PENDING"
  shows "\<exists>n. monitorPayment opens now pid d m = (Inr (), n) \<and> map_of (timers n) pid = Some (now + 1800000) \<and>
    (\<exists>q. tbl_find pm_id pid (payments (mdb (fireTimeout (now + 1800000) pid n))) = Some q \<and> pm_status q = PS_TIMEOUT \<and>
      pm_expiresAt q = pm_expiresAt p) \<and> \<not> isMonitoring pid (fireTimeout (now + 1800000) pid n)"
proof -
  let ?n = "snd (monitorPayment opens now pid d m)"
  have run: "monitorPayment opens now pid d m = (Inr (), ?n)" using assms(1,2) by (simp add: monitorPayment_def)
  have "map_of (timers ?n) pid = Some (now + 1800000)"
    using assms(1,2) by (simp add: monitorPayment_def setupPaymentTimeout_def Let_def AList.update_conv)
  moreover have "pm_id p = pid" by (rule tbl_find_key [OF assms(3)])
  then have "\<exists>q. tbl_find pm_id pid (payments (mdb (fireTimeout (now + 1800000) pid ?n))) = Some q \<and> pm_status q = PS_TIMEOUT \<and>
      pm_expiresAt q = pm_expiresAt p"
    using assms(3,4) by (simp add: fireTimeout_def Let_def handlePaymentTimeout_def round_payment_def)
  moreover have "\<not> isMonitoring pid (fireTimeout (now + 1800000) pid ?n)"
    using assms(3,4) isMonitoring_stop [of pid "time_out (now + 1800000) pid ?n"]
    by (simp add: fireTimeout_def Let_def isMonitoring_def clearPaymentTimeout_def)
  ultimately show ?thesis using run by blast
qed

subsection \<open>Sample runs\<close>

definition sample_monitor :: monitor where
  "sample_monitor = \<lparr>mdb = empty_db\<lparr>orders := [sample_order], payments := [sample_payment XLM]\<rparr>,
     streams = [(''y'', ''W'')], timers = [(''y'', 1800000)]\<rparr>"

definition idle_monitor :: monitor where
  "idle_monitor = sample_monitor\<lparr>streams := [], timers := []\<rparr>"

definition sample_op :: "string \<Rightarrow> stellar_operation" where
  "sample_op asset = \<lparr>op_type = ''payment'', op_from = ''S'', op_to = Some ''W'', op_destination = None,
     op_amount = ''30.0000000'', op_asset_code = Some asset\<rparr>"

definition sample_transfer :: "string \<Rightarrow> stellar_transaction" where
  "sample_transfer asset = \<lparr>st_id = ''T'', st_created_at = 0, st_operations = Some [sample_op asset]\<rparr>"

lemma sample_payment_simps:
  "pm_id (sample_payment c) = ''y''" "pm_currency (sample_payment c) = c" "pm_amount (sample_payment c) = 30"
  "pm_destinationWalletAddress (sample_payment c) = ''W''" "pm_timeoutMinutes (sample_payment c) = 30"
  "pm_expiresAt (sample_payment c) = Some 1800000"
  by (simp_all add: sample_payment_def)

lemma sample_op_simps:
  "is_payment_operation (sample_op a)" "op_target (sample_op a) = Some ''W''" "op_asset_code (sample_op a) = Some a"
  "parse_float (op_amount (sample_op a)) = Some 30"
  using sample_tx_amount by (simp_all add: sample_op_def is_payment_operation_def op_target_def sample_tx_def)

lemma sample_monitor_simps:
  "tbl_find pm_id ''y'' (payments (mdb sample_monitor)) = Some (sample_payment XLM)"
  "tbl_find o_id ''o'' (orders (mdb sample_monitor)) = Some sample_order"
  "payments (mdb idle_monitor) = payments (mdb sample_monitor)"
  by (simp_all add: sample_monitor_def idle_monitor_def sample_payment_simps) (simp add: sample_order_def)

lemma sample_monitor_sound: "payments_sound (mdb sample_monitor)"
  by (simp add: payments_sound_def one_pending_def sample_monitor_def)

theorem matching_operation_confirms_witness:
  "\<exists>n p'. handleIncomingTransaction 60000 ''y'' (sample_transfer ''xlm'') ''W'' sample_monitor = n \<and>
    tbl_find pm_id ''y'' (payments (mdb n)) = Some p' \<and> pm_status p' = PS_CONFIRMED \<and> \<not> isMonitoring ''y'' n"
proof -
  have "stored sample_order" "o_status sample_order \<noteq> OS_MANUAL_REVIEW"
    using sample_order_stored [of OS_PENDING] by (simp_all add: sample_order_def)
  moreover have "st_operations (sample_transfer ''xlm'') = Some ([] @ sample_op ''xlm'' # [])"
    "st_created_at (sample_transfer ''xlm'') = 0" by (simp_all add: sample_transfer_def)
  ultimately show ?thesis
    using matching_operation_confirms [of "''y''" sample_monitor "sample_payment XLM" sample_order
        "sample_transfer ''xlm''" "[]" "sample_op ''xlm''" "[]" 30 60000]
    by (simp add: sample_payment_found sample_monitor_simps sample_payment_simps sample_op_simps upper_xlm tolerance_def) blast
qed

theorem foreign_asset_fails_payment_witness:
  "\<exists>n p'. handleIncomingTransaction 60000 ''y'' (sample_transfer ''JUNK'') ''W'' sample_monitor = n \<and>
    tbl_find pm_id ''y'' (payments (mdb n)) = Some p' \<and> pm_status p' = PS_FAILED \<and> \<not> isMonitoring ''y'' n"
proof -
  have "o_status sample_order \<noteq> OS_MANUAL_REVIEW" by (simp add: sample_order_def)
  moreover have "st_operations (sample_transfer ''JUNK'') = Some [sample_op ''JUNK'']" by (simp add: sample_transfer_def)
  moreover have "upper_text ''JUNK'' \<noteq> ''XLM''" by code_simp
  ultimately show ?thesis
    using foreign_asset_fails_payment [of "''y''" sample_monitor "sample_payment XLM" "sample_transfer ''JUNK''"
        "sample_op ''JUNK''" "[]" 30 "''JUNK''" 60000]
    by (simp add: sample_payment_found sample_monitor_simps sample_payment_simps sample_op_simps tolerance_def) blast
qed

theorem sweep_times_out_exactly_expired_witness:
  "(\<exists>q. tbl_find pm_id ''y'' (payments (mdb (checkAndHandleExpiredPayments 1800001 sample_monitor))) = Some q \<and>
     pm_status q = PS_TIMEOUT) \<and> \<not> isMonitoring ''y'' (checkAndHandleExpiredPayments 1800001 sample_monitor)"
  using sweep_times_out_exactly_expired [OF sample_monitor_sound sample_monitor_simps(1), of 1800001]
  by (simp add: Let_def sample_payment_found expired_def sample_payment_simps)

theorem timer_ignores_timeout_of_payment_witness:
  "\<exists>n. monitorPayment (\<lambda>_. True) 5 ''y'' ''W'' idle_monitor = (Inr (), n) \<and> map_of (timers n) ''y'' = Some 1800005"
  using timer_ignores_timeout_of_payment [of "''y''" idle_monitor "\<lambda>_. True" "''W''" "sample_payment XLM" 5]
  by (simp add: sample_monitor_simps sample_payment_found isMonitoring_def) (auto simp: idle_monitor_def)

theorem streams_and_timers_wired_witness:
  "distinct (map fst (streams (snd (monitorPayment (\<lambda>_. True) 5 ''y'' ''W'' idle_monitor))))"
proof -
  have "monitor_step\<^sup>*\<^sup>* idle_monitor (snd (monitorPayment (\<lambda>_. True) 5 ''y'' ''W'' idle_monitor))"
    by (intro r_into_rtranclp monitor_step.watch)
  from streams_and_timers_wired [OF this] show ?thesis by (simp add: idle_monitor_def)
qed

theorem monitored_payments_sound_witness:
  "payments_sound (mdb (checkAndHandleExpiredPayments 1800001 sample_monitor))"
proof -
  have "monitor_step\<^sup>*\<^sup>* sample_monitor (checkAndHandleExpiredPayments 1800001 sample_monitor)"
    by (intro r_into_rtranclp monitor_step.swept)
  from monitored_payments_sound [OF this sample_monitor_sound] show ?thesis ..
qed

end
