(* ===== verification/Coupons.thy ===== *)
theory Coupons
  imports Payments
begin

text \<open>
  \<open>CouponsService\<close> (src/src/coupons/coupons.service.ts) with the entities of coupons and of their
  usages. The service reads and writes only its own two tables, kept in \<open>coupon_db\<close>. New ids and
  the clock are parameters. \<open>discountValue\<close> is only multiplied, divided and compared, so that the
  kind of value the driver returns makes no difference.
\<close>

subsection \<open>Entities\<close>

datatype discount_type = PERCENTAGE | FIXED_AMOUNT

datatype coupon_status = CS_ACTIVE | CS_INACTIVE | CS_EXPIRED | CS_DEPLETED

primrec coupon_status_text :: "coupon_status \<Rightarrow> string" where
  "coupon_status_text CS_ACTIVE = ''active''"
| "coupon_status_text CS_INACTIVE = ''inactive''"
| "coupon_status_text CS_EXPIRED = ''expired''"
| "coupon_status_text CS_DEPLETED = ''depleted''"

record coupon_restriction =
  rs_productIds :: "string list option"
  rs_categoryIds :: "string list option"
  rs_excludedProductIds :: "string list option"
  rs_excludedCategoryIds :: "string list option"
  rs_minimumOrderAmount :: "number option"
  rs_maximumDiscountAmount :: "number option"
  rs_newCustomersOnly :: "bool option"
  rs_firstOrderOnly :: "bool option"

record coupon_row =
  cu_id :: uuid
  cu_code :: string
  cu_name :: string
  cu_description :: "string option"
  cu_discountType :: discount_type
  cu_discountValue :: number
  cu_status :: coupon_status
  cu_startDate :: "time option"
  cu_endDate :: "time option"
  cu_totalUsageLimit :: int
  cu_perUserLimit :: int
  cu_currentUsageCount :: int
  cu_restrictions :: "coupon_restriction option"
  cu_createdAt :: time
  cu_updatedAt :: time
  cu_deletedAt :: "time option"

record coupon_usage_row =
  us_id :: uuid
  us_couponId :: uuid
  us_userId :: uuid
  us_orderId :: uuid
  us_orderAmount :: number
  us_discountAmount :: number
  us_currency :: string
  us_usedAt :: time

record coupon_db =
  coupons :: "coupon_row list"
  usages :: "coupon_usage_row list"

definition coupon_isValid :: "time \<Rightarrow> coupon_row \<Rightarrow> bool" where
  "coupon_isValid now c =
     (if cu_status c \<noteq> CS_ACTIVE then False
      else if (case cu_startDate c of None \<Rightarrow> False | Some d \<Rightarrow> now < d) then False
      else if (case cu_endDate c of None \<Rightarrow> False | Some d \<Rightarrow> now > d) then False
      else if cu_totalUsageLimit c > 0 \<and> cu_currentUsageCount c \<ge> cu_totalUsageLimit c then False
      else True)"

definition coupon_isExpired :: "time \<Rightarrow> coupon_row \<Rightarrow> bool" where
  "coupon_isExpired now c \<longleftrightarrow> (case cu_endDate c of None \<Rightarrow> False | Some d \<Rightarrow> now > d)"

definition coupon_isDepleted :: "coupon_row \<Rightarrow> bool" where
  "coupon_isDepleted c \<longleftrightarrow> cu_totalUsageLimit c > 0 \<and> cu_currentUsageCount c \<ge> cu_totalUsageLimit c"

text \<open>\<open>restrictions?.maximumDiscountAmount\<close> and the like.\<close>

definition restriction :: "(coupon_restriction \<Rightarrow> 'a option) \<Rightarrow> coupon_row \<Rightarrow> 'a option" where
  "restriction f c = (case cu_restrictions c of None \<Rightarrow> None | Some r \<Rightarrow> f r)"

definition calculateDiscount :: "coupon_row \<Rightarrow> number \<Rightarrow> number" where
  "calculateDiscount c orderAmount =
     (let discount = (if cu_discountType c = PERCENTAGE then (orderAmount * cu_discountValue c) / 100 else cu_discountValue c);
          discount = (case restriction rs_maximumDiscountAmount c of
              None \<Rightarrow> discount
            | Some m \<Rightarrow> if m \<noteq> 0 \<and> discount > m then m else discount)
      in min discount orderAmount)"

subsection \<open>Data transfer objects\<close>

record create_coupon_dto =
  nc_code :: string
  nc_name :: string
  nc_description :: "string option"
  nc_discountType :: discount_type
  nc_discountValue :: number
  nc_status :: "coupon_status option"
  nc_startDate :: "time option"
  nc_endDate :: "time option"
  nc_totalUsageLimit :: "int option"
  nc_perUserLimit :: "int option"
  nc_restrictions :: "coupon_restriction option"

record update_coupon_dto =
  uc_name :: "string option"
  uc_description :: "string option"
  uc_status :: "coupon_status option"
  uc_startDate :: "time option"
  uc_endDate :: "time option"
  uc_totalUsageLimit :: "int option"
  uc_perUserLimit :: "int option"
  uc_restrictions :: "coupon_restriction option"

record order_item_for_coupon =
  ic_productId :: string
  ic_categoryId :: "string option"
  ic_quantity :: number
  ic_price :: number
  ic_subtotal :: number

record apply_coupon_dto =
  ac_code :: string
  ac_userId :: uuid
  ac_items :: "order_item_for_coupon list"
  ac_subtotal :: "number option"
  ac_currency :: "string option"

record applied_coupon =
  ap_couponId :: uuid
  ap_code :: string
  ap_discountAmount :: number
  ap_newTotal :: number
  ap_appliedRestrictions :: "msg list"

text \<open>The response of \<open>validateAndApplyCoupon\<close>: the message of a refusal, or what was applied.\<close>

datatype apply_coupon_response = Refused msg | Applied applied_coupon

text \<open>\<open>remainingUses\<close> is \<open>None\<close> for \<open>Infinity\<close>.\<close>

record coupon_response =
  cs_coupon :: coupon_row
  cs_isValid :: bool
  cs_remainingUses :: "int option"

record coupon_analytics =
  ca_couponId :: uuid
  ca_couponCode :: string
  ca_totalUses :: nat
  ca_totalDiscountAmount :: number
  ca_averageOrderAmount :: number
  ca_averageDiscountAmount :: number
  ca_uniqueUsers :: nat
  ca_conversionRate :: number
  ca_usageByDay :: "(int \<times> nat) list"

subsection \<open>Managing coupons\<close>

definition toCouponResponse :: "time \<Rightarrow> coupon_row \<Rightarrow> coupon_response" where
  "toCouponResponse now coupon = \<lparr>cs_coupon = coupon, cs_isValid = coupon_isValid now coupon,
     cs_remainingUses = (if cu_totalUsageLimit coupon > 0
       then Some (cu_totalUsageLimit coupon - cu_currentUsageCount coupon) else None)\<rparr>"

text \<open>Queries do not see rows that are softly deleted.\<close>

definition present :: "coupon_db \<Rightarrow> coupon_row list" where
  "present s = filter (\<lambda>c. cu_deletedAt c = None) (coupons s)"

definition by_code :: "string \<Rightarrow> coupon_db \<Rightarrow> coupon_row option" where
  "by_code code s = List.find (\<lambda>c. cu_code c = code) (present s)"

definition by_id :: "uuid \<Rightarrow> coupon_db \<Rightarrow> coupon_row option" where
  "by_id cid s = tbl_find cu_id cid (present s)"

text \<open>The column \<open>discountValue\<close> is \<open>decimal(10, 2)\<close>, and \<open>code\<close> is unique over all rows of the
  table, the deleted ones included.\<close>

definition save_coupon :: "coupon_row \<Rightarrow> coupon_db \<Rightarrow> (coupon_row, coupon_db) result" where
  "save_coupon c s =
     (if 10 ^ 8 \<le> \<bar>round_to 2 (cu_discountValue c)\<bar>
      then (Inl (Error [Txt ''numeric field overflow'']), s)
      else if \<exists>x \<in> set (coupons s). cu_code x = cu_code c \<and> cu_id x \<noteq> cu_id c
      then (Inl (Error [Txt ''duplicate key value violates unique constraint'']), s)
      else (Inr c, s\<lparr>coupons := tbl_save cu_id (c\<lparr>cu_discountValue := round_to 2 (cu_discountValue c)\<rparr>) (coupons s)\<rparr>))"

definition dates_reversed :: "time option \<Rightarrow> time option \<Rightarrow> bool" where
  "dates_reversed startDate endDate \<longleftrightarrow>
     (case (startDate, endDate) of (Some a, Some b) \<Rightarrow> a > b | _ \<Rightarrow> False)"

definition new_coupon :: "uuid \<Rightarrow> time \<Rightarrow> create_coupon_dto \<Rightarrow> coupon_row" where
  "new_coupon cid now dto =
     \<lparr>cu_id = cid, cu_code = upper_text (nc_code dto), cu_name = nc_name dto, cu_description = nc_description dto,
      cu_discountType = nc_discountType dto, cu_discountValue = nc_discountValue dto,
      cu_status = (case nc_status dto of None \<Rightarrow> CS_ACTIVE | Some st \<Rightarrow> st),
      cu_startDate = nc_startDate dto, cu_endDate = nc_endDate dto,
      cu_totalUsageLimit = (case nc_totalUsageLimit dto of None \<Rightarrow> 0 | Some n \<Rightarrow> n),
      cu_perUserLimit = (case nc_perUserLimit dto of None \<Rightarrow> 0 | Some n \<Rightarrow> n), cu_currentUsageCount = 0,
      cu_restrictions = nc_restrictions dto, cu_createdAt = now, cu_updatedAt = now, cu_deletedAt = None\<rparr>"

definition create_coupon :: "uuid \<Rightarrow> time \<Rightarrow> create_coupon_dto \<Rightarrow> coupon_db \<Rightarrow> (coupon_response, coupon_db) result" where
  "create_coupon cid now dto s =
     (if by_code (upper_text (nc_code dto)) s \<noteq> None
      then (Inl (ConflictException [Txt ''Coupon with code '', Txt (nc_code dto), Txt '' already exists'']), s)
      else if nc_discountType dto = PERCENTAGE \<and> nc_discountValue dto > 100
      then (Inl (BadRequestException [Txt ''Percentage discount cannot exceed 100%'']), s)
      else if dates_reversed (nc_startDate dto) (nc_endDate dto)
      then (Inl (BadRequestException [Txt ''Start date cannot be after end date'']), s)
      else and_then (save_coupon (new_coupon cid now dto) s) (\<lambda>savedCoupon s. (Inr (toCouponResponse now savedCoupon), s)))"

definition findAll_coupons :: "time \<Rightarrow> coupon_status option \<Rightarrow> coupon_db \<Rightarrow> coupon_response list" where
  "findAll_coupons now status s =
     map (toCouponResponse now) (sort_key (\<lambda>c. - cu_createdAt c)
       (filter (\<lambda>c. case status of None \<Rightarrow> True | Some st \<Rightarrow> cu_status c = st) (present s)))"

definition findOne_coupon :: "time \<Rightarrow> uuid \<Rightarrow> coupon_db \<Rightarrow> error + coupon_response" where
  "findOne_coupon now cid s = (case by_id cid s of
       None \<Rightarrow> Inl (NotFoundException [Txt ''Coupon with ID '', Txt cid, Txt '' not found''])
     | Some coupon \<Rightarrow> Inr (toCouponResponse now coupon))"

definition findByCode :: "time \<Rightarrow> string \<Rightarrow> coupon_db \<Rightarrow> error + coupon_response" where
  "findByCode now code s = (case by_code (upper_text code) s of
       None \<Rightarrow> Inl (NotFoundException [Txt ''Coupon with code '', Txt code, Txt '' not found''])
     | Some coupon \<Rightarrow> Inr (toCouponResponse now coupon))"

text \<open>\<open>Object.assign(coupon, dto)\<close>.\<close>

definition assign_coupon :: "update_coupon_dto \<Rightarrow> coupon_row \<Rightarrow> coupon_row" where
  "assign_coupon dto c = c\<lparr>
     cu_name := coalesce (uc_name dto) (cu_name c),
     cu_description := (case uc_description dto of None \<Rightarrow> cu_description c | d \<Rightarrow> d),
     cu_status := coalesce (uc_status dto) (cu_status c),
     cu_startDate := (case uc_startDate dto of None \<Rightarrow> cu_startDate c | d \<Rightarrow> d),
     cu_endDate := (case uc_endDate dto of None \<Rightarrow> cu_endDate c | d \<Rightarrow> d),
     cu_totalUsageLimit := coalesce (uc_totalUsageLimit dto) (cu_totalUsageLimit c),
     cu_perUserLimit := coalesce (uc_perUserLimit dto) (cu_perUserLimit c),
     cu_restrictions := (case uc_restrictions dto of None \<Rightarrow> cu_restrictions c | d \<Rightarrow> d)\<rparr>"

definition update_coupon :: "time \<Rightarrow> uuid \<Rightarrow> update_coupon_dto \<Rightarrow> coupon_db \<Rightarrow> (coupon_response, coupon_db) result" where
  "update_coupon now cid dto s =
     (case by_id cid s of
        None \<Rightarrow> (Inl (NotFoundException [Txt ''Coupon with ID '', Txt cid, Txt '' not found'']), s)
      | Some coupon \<Rightarrow>
        if dates_reversed (uc_startDate dto) (uc_endDate dto)
        then (Inl (BadRequestException [Txt ''Start date cannot be after end date'']), s)
        else and_then (save_coupon ((assign_coupon dto coupon)\<lparr>cu_updatedAt := now\<rparr>) s)
          (\<lambda>updatedCoupon s. (Inr (toCouponResponse now updatedCoupon), s)))"

definition remove_coupon :: "time \<Rightarrow> uuid \<Rightarrow> coupon_db \<Rightarrow> (unit, coupon_db) result" where
  "remove_coupon now cid s =
     (case by_id cid s of
        None \<Rightarrow> (Inl (NotFoundException [Txt ''Coupon with ID '', Txt cid, Txt '' not found'']), s)
      | Some coupon \<Rightarrow> (Inr (), s\<lparr>coupons := tbl_save cu_id (coupon\<lparr>cu_deletedAt := Some now\<rparr>) (coupons s)\<rparr>))"

subsection \<open>Applying a coupon\<close>

definition calculateSubtotal :: "order_item_for_coupon list \<Rightarrow> number" where
  "calculateSubtotal items = sum_by ic_subtotal items"

text \<open>\<open>list?.length\<close> is falsy when there is no list.\<close>

definition listed :: "string list option \<Rightarrow> string list" where
  "listed x = (case x of None \<Rightarrow> [] | Some xs \<Rightarrow> xs)"

definition applicable :: "coupon_restriction \<Rightarrow> order_item_for_coupon \<Rightarrow> bool" where
  "applicable r item =
     (if listed (rs_excludedProductIds r) \<noteq> [] \<and> ic_productId item \<in> set (listed (rs_excludedProductIds r))
      then False
      else if listed (rs_excludedCategoryIds r) \<noteq> [] \<and> truthy_text (ic_categoryId item)
        \<and> or_text (ic_categoryId item) [] \<in> set (listed (rs_excludedCategoryIds r))
      then False
      else if listed (rs_productIds r) \<noteq> [] \<and> ic_productId item \<notin> set (listed (rs_productIds r))
      then False
      else if listed (rs_categoryIds r) \<noteq> [] \<and> (\<not> truthy_text (ic_categoryId item)
        \<or> or_text (ic_categoryId item) [] \<notin> set (listed (rs_categoryIds r)))
      then False
      else True)"

definition getApplicableItems :: "coupon_row \<Rightarrow> order_item_for_coupon list \<Rightarrow> order_item_for_coupon list" where
  "getApplicableItems coupon items = (case cu_restrictions coupon of
       None \<Rightarrow> items
     | Some r \<Rightarrow> filter (applicable r) items)"

definition getAppliedRestrictions :: "coupon_row \<Rightarrow> msg list" where
  "getAppliedRestrictions coupon = (case cu_restrictions coupon of
       None \<Rightarrow> []
     | Some r \<Rightarrow>
       (if truthy_num (rs_minimumOrderAmount r)
        then [[Txt ''Minimum order amount: '', Num (or_num (rs_minimumOrderAmount r) 0)]] else []) @
       (if truthy_num (rs_maximumDiscountAmount r)
        then [[Txt ''Maximum discount: '', Num (or_num (rs_maximumDiscountAmount r) 0)]] else []) @
       (if listed (rs_productIds r) \<noteq> [] then [[Txt ''Valid for specific products only'']] else []) @
       (if listed (rs_categoryIds r) \<noteq> [] then [[Txt ''Valid for specific categories only'']] else []) @
       (if rs_newCustomersOnly r = Some True then [[Txt ''New customers only'']] else []) @
       (if rs_firstOrderOnly r = Some True then [[Txt ''First order only'']] else []))"

definition getUserCouponUsageCount :: "uuid \<Rightarrow> uuid \<Rightarrow> coupon_db \<Rightarrow> nat" where
  "getUserCouponUsageCount couponId userId s =
     length (filter (\<lambda>u. us_couponId u = couponId \<and> us_userId u = userId) (usages s))"

text \<open>The message of a refusal, or the discount on the items the coupon applies to and those items.\<close>

definition validateCoupon ::
  "time \<Rightarrow> coupon_row \<Rightarrow> uuid \<Rightarrow> order_item_for_coupon list \<Rightarrow> number option \<Rightarrow> coupon_db \<Rightarrow>
   msg + (number \<times> order_item_for_coupon list)" where
  "validateCoupon now coupon userId items subtotal s =
     (if cu_status coupon \<noteq> CS_ACTIVE then Inl [Txt ''Coupon is '', Txt (coupon_status_text (cu_status coupon))]
      else if (case cu_startDate coupon of None \<Rightarrow> False | Some d \<Rightarrow> now < d) then Inl [Txt ''Coupon is not yet valid'']
      else if (case cu_endDate coupon of None \<Rightarrow> False | Some d \<Rightarrow> now > d) then Inl [Txt ''Coupon has expired'']
      else if cu_totalUsageLimit coupon > 0 \<and> cu_currentUsageCount coupon \<ge> cu_totalUsageLimit coupon
      then Inl [Txt ''Coupon usage limit has been reached'']
      else if cu_perUserLimit coupon > 0
        \<and> int (getUserCouponUsageCount (cu_id coupon) userId s) \<ge> cu_perUserLimit coupon
      then Inl [Txt ''You have already used this coupon the maximum number of times'', Num (of_int (cu_perUserLimit coupon))]
      else
        let orderSubtotal = or_num subtotal (calculateSubtotal items)
        in if (case restriction rs_minimumOrderAmount coupon of None \<Rightarrow> False | Some m \<Rightarrow> m \<noteq> 0 \<and> orderSubtotal < m)
           then Inl [Txt ''Minimum order amount of '', Num (or_num (restriction rs_minimumOrderAmount coupon) 0), Txt '' required'']
           else
             let applicableItems = getApplicableItems coupon items
             in if applicableItems = [] then Inl [Txt ''Coupon is not applicable to any items in your cart'']
                else Inr (calculateDiscount coupon (calculateSubtotal applicableItems), applicableItems))"

definition validateAndApplyCoupon :: "time \<Rightarrow> apply_coupon_dto \<Rightarrow> coupon_db \<Rightarrow> apply_coupon_response" where
  "validateAndApplyCoupon now dto s =
     (case by_code (upper_text (ac_code dto)) s of
        None \<Rightarrow> Refused [Txt ''Invalid coupon code'']
      | Some coupon \<Rightarrow>
        case validateCoupon now coupon (ac_userId dto) (ac_items dto) (ac_subtotal dto) s of
          Inl message \<Rightarrow> Refused message
        | Inr _ \<Rightarrow>
          let orderSubtotal = or_num (ac_subtotal dto) (calculateSubtotal (ac_items dto));
              discountAmount = calculateDiscount coupon orderSubtotal
          in Applied \<lparr>ap_couponId = cu_id coupon, ap_code = cu_code coupon, ap_discountAmount = discountAmount,
               ap_newTotal = orderSubtotal - discountAmount, ap_appliedRestrictions = getAppliedRestrictions coupon\<rparr>)"

text \<open>The usage refers to a row of the coupons table; amounts are \<open>decimal(12, 2)\<close>, the currency
  \<open>varchar(10)\<close>. \<open>increment\<close> is one statement of its own.\<close>

definition applyCouponToOrder ::
  "uuid \<Rightarrow> time \<Rightarrow> uuid \<Rightarrow> uuid \<Rightarrow> uuid \<Rightarrow> number \<Rightarrow> number \<Rightarrow> string \<Rightarrow> coupon_db \<Rightarrow> (unit, coupon_db) result" where
  "applyCouponToOrder usid now couponId orderId userId orderAmount discountAmount currency s =
     (if 10 ^ 10 \<le> \<bar>round_to 2 orderAmount\<bar> \<or> 10 ^ 10 \<le> \<bar>round_to 2 discountAmount\<bar>
      then (Inl (Error [Txt ''numeric field overflow'']), s)
      else if length currency > 10 then (Inl (Error [Txt ''value too long for type character varying(10)'']), s)
      else case tbl_find cu_id couponId (coupons s) of
          None \<Rightarrow> (Inl (Error [Txt ''violates foreign key constraint'']), s)
        | Some c \<Rightarrow>
          let usage = \<lparr>us_id = usid, us_couponId = couponId, us_userId = userId, us_orderId = orderId,
                us_orderAmount = round_to 2 orderAmount, us_discountAmount = round_to 2 discountAmount,
                us_currency = currency, us_usedAt = now\<rparr>
          in (Inr (), s\<lparr>usages := tbl_save us_id usage (usages s),
               coupons := tbl_save cu_id (c\<lparr>cu_currentUsageCount := cu_currentUsageCount c + 1\<rparr>) (coupons s)\<rparr>))"

subsection \<open>Reports\<close>

definition getCouponUsage :: "uuid option \<Rightarrow> uuid option \<Rightarrow> coupon_db \<Rightarrow> coupon_usage_row list" where
  "getCouponUsage couponId userId s =
     sort_key (\<lambda>u. - us_usedAt u)
       (filter (\<lambda>u. (truthy_text couponId \<longrightarrow> Some (us_couponId u) = couponId) \<and>
          (truthy_text userId \<longrightarrow> Some (us_userId u) = userId)) (usages s))"

text \<open>A date of \<open>toISOString().split('T')[0]\<close> is kept as the number of its day.\<close>

definition usage_day :: "coupon_usage_row \<Rightarrow> int" where
  "usage_day u = us_usedAt u div 86400000"

definition usage_by_day :: "coupon_usage_row list \<Rightarrow> (int \<times> nat) list" where
  "usage_by_day us = map (\<lambda>d. (d, length (filter (\<lambda>u. usage_day u = d) us))) (sort (remdups (map usage_day us)))"

definition getCouponAnalytics :: "uuid \<Rightarrow> coupon_db \<Rightarrow> error + coupon_analytics" where
  "getCouponAnalytics couponId s =
     (case by_id couponId s of
        None \<Rightarrow> Inl (NotFoundException [Txt ''Coupon with ID '', Txt couponId, Txt '' not found''])
      | Some coupon \<Rightarrow>
        let us = filter (\<lambda>u. us_couponId u = couponId) (usages s);
            totalUses = length us;
            totalDiscountAmount = sum_by us_discountAmount us;
            totalOrderAmount = sum_by us_orderAmount us
        in Inr \<lparr>ca_couponId = couponId, ca_couponCode = cu_code coupon, ca_totalUses = totalUses,
             ca_totalDiscountAmount = totalDiscountAmount,
             ca_averageOrderAmount = (if totalUses > 0 then totalOrderAmount / of_nat totalUses else 0),
             ca_averageDiscountAmount = (if totalUses > 0 then totalDiscountAmount / of_nat totalUses else 0),
             ca_uniqueUsers = card (set (map us_userId us)), ca_conversionRate = 0,
             ca_usageByDay = usage_by_day us\<rparr>)"

subsection \<open>The discount\<close>

text \<open>A coupon whose value and cap are not negative, as the DTO demands.\<close>

definition nonnegative_coupon :: "coupon_row \<Rightarrow> bool" where
  "nonnegative_coupon c \<longleftrightarrow> 0 \<le> cu_discountValue c \<and>
     (case restriction rs_maximumDiscountAmount c of None \<Rightarrow> True | Some m \<Rightarrow> 0 \<le> m)"

lemma discount_bounds:
  assumes "nonnegative_coupon c" and "0 \<le> a"
  shows "0 \<le> calculateDiscount c a" and "calculateDiscount c a \<le> a"
    and "restriction rs_maximumDiscountAmount c = Some m \<Longrightarrow> m \<noteq> 0 \<Longrightarrow> calculateDiscount c a \<le> m"
  using assms by (auto simp: nonnegative_coupon_def calculateDiscount_def Let_def min_def split: option.splits)

lemma applied_iff:
  "validateAndApplyCoupon now dto s = Applied a \<longleftrightarrow>
     (\<exists>c v. by_code (upper_text (ac_code dto)) s = Some c \<and>
        validateCoupon now c (ac_userId dto) (ac_items dto) (ac_subtotal dto) s = Inr v \<and>
        (let x = or_num (ac_subtotal dto) (calculateSubtotal (ac_items dto))
         in a = \<lparr>ap_couponId = cu_id c, ap_code = cu_code c, ap_discountAmount = calculateDiscount c x,
              ap_newTotal = x - calculateDiscount c x, ap_appliedRestrictions = getAppliedRestrictions c\<rparr>))"
  by (auto simp: validateAndApplyCoupon_def Let_def split: option.splits sum.splits)

lemma validate_iff:
  "validateCoupon now c user items sub s = Inr v \<longleftrightarrow>
     coupon_isValid now c \<and>
     (cu_perUserLimit c > 0 \<longrightarrow> int (getUserCouponUsageCount (cu_id c) user s) < cu_perUserLimit c) \<and>
     (\<forall>m. restriction rs_minimumOrderAmount c = Some m \<longrightarrow> m = 0 \<or> m \<le> or_num sub (calculateSubtotal items)) \<and>
     getApplicableItems c items \<noteq> [] \<and>
     v = (calculateDiscount c (calculateSubtotal (getApplicableItems c items)), getApplicableItems c items)"
  by (auto simp: validateCoupon_def coupon_isValid_def Let_def not_le not_less split: option.splits)

text \<open>
  A coupon is applied exactly when a coupon of that code (in any case) exists, it is
  valid now, the user is below the limit per user, the order reaches its minimum and at least
  one item passes the restrictions; the discount is between zero, the subtotal and the cap, and
  the new total is what remains.
\<close>

lemma coupon_applied_bounded:
  assumes "by_code (upper_text (ac_code dto)) s = Some c" and "nonnegative_coupon c"
    and "sub = or_num (ac_subtotal dto) (calculateSubtotal (ac_items dto))" and "0 \<le> sub"
  shows "((\<exists>a. validateAndApplyCoupon now dto s = Applied a) \<longleftrightarrow>
      coupon_isValid now c \<and>
      (cu_perUserLimit c > 0 \<longrightarrow> int (getUserCouponUsageCount (cu_id c) (ac_userId dto) s) < cu_perUserLimit c) \<and>
      (\<forall>m. restriction rs_minimumOrderAmount c = Some m \<longrightarrow> m = 0 \<or> m \<le> sub) \<and>
      getApplicableItems c (ac_items dto) \<noteq> []) \<and>
    (\<forall>a. validateAndApplyCoupon now dto s = Applied a \<longrightarrow>
      0 \<le> ap_discountAmount a \<and> ap_discountAmount a \<le> sub \<and> ap_newTotal a = sub - ap_discountAmount a \<and>
      (\<forall>m. restriction rs_maximumDiscountAmount c = Some m \<longrightarrow> m \<noteq> 0 \<longrightarrow> ap_discountAmount a \<le> m))"
  using assms(1) discount_bounds [OF assms(2,4)]
  by (auto simp: applied_iff validate_iff Let_def assms(3))

text \<open>
  Restrictions of a coupon decide whether it applies but not to how much: the
  validation computes a percentage of the items the coupon applies to, the response takes the
  same percentage of the whole subtotal, excluded items included.
\<close>

lemma discount_ignores_restrictions:
  assumes "by_code (upper_text (ac_code dto)) s = Some c" and "ac_subtotal dto = None"
    and "cu_discountType c = PERCENTAGE" and "restriction rs_maximumDiscountAmount c = None"
    and "0 \<le> cu_discountValue c" and "cu_discountValue c \<le> 100" and "\<forall>i \<in> set (ac_items dto). 0 \<le> ic_subtotal i"
    and "validateAndApplyCoupon now dto s = Applied a"
  shows "ap_discountAmount a = calculateSubtotal (ac_items dto) * cu_discountValue c / 100 \<and>
    (\<exists>v. validateCoupon now c (ac_userId dto) (ac_items dto) None s = Inr v \<and>
      fst v = calculateSubtotal (getApplicableItems c (ac_items dto)) * cu_discountValue c / 100)"
proof -
  have part: "x * cu_discountValue c / 100 \<le> x" if "0 \<le> x" for x
    using mult_left_mono [OF assms(6) that] by simp
  have "0 \<le> calculateSubtotal (ac_items dto)" "0 \<le> calculateSubtotal (getApplicableItems c (ac_items dto))"
    using assms(7) by (auto simp: calculateSubtotal_def getApplicableItems_def intro!: sum_by_nonneg split: option.split)
  then show ?thesis
    using assms(1,2,8) part by (auto simp: applied_iff validate_iff calculateDiscount_def assms(3,4) Let_def min_def)
qed

subsection \<open>Usages and limits\<close>

definition used :: "uuid \<Rightarrow> coupon_db \<Rightarrow> nat" where
  "used cid s = length (filter (\<lambda>u. us_couponId u = cid) (usages s))"

text \<open>What every operation keeps: ids are unique, usages belong to a coupon, and each coupon counts
  its usages.\<close>

definition coupon_books :: "coupon_db \<Rightarrow> bool" where
  "coupon_books s \<longleftrightarrow> distinct (map cu_id (coupons s)) \<and>
     (\<forall>u \<in> set (usages s). us_couponId u \<in> cu_id ` set (coupons s)) \<and>
     (\<forall>c \<in> set (coupons s). cu_currentUsageCount c = int (used (cu_id c) s))"

inductive coupon_step :: "coupon_db \<Rightarrow> coupon_db \<Rightarrow> bool" where
  created: "create_coupon cid now dto s = (r, t) \<Longrightarrow> cid \<notin> cu_id ` set (coupons s) \<Longrightarrow> coupon_step s t"
| updated: "update_coupon now cid udto s = (r, t) \<Longrightarrow> coupon_step s t"
| removed: "remove_coupon now cid s = (r, t) \<Longrightarrow> coupon_step s t"
| used: "applyCouponToOrder usid now cid oid user amount disc cur s = (r, t) \<Longrightarrow>
    usid \<notin> us_id ` set (usages s) \<Longrightarrow> coupon_step s t"

lemma find_holds: "List.find P xs = Some x \<Longrightarrow> x \<in> set xs \<and> P x"
  by (induction xs) (auto split: if_splits)

lemma snd_answer: "snd (and_then r (\<lambda>x s. (Inr (f x), s))) = snd r"
  by (cases r; cases "fst r") (auto simp: and_then_def)

lemma save_coupon_cases:
  "snd (save_coupon c s) = s \<or>
   snd (save_coupon c s) = s\<lparr>coupons := tbl_save cu_id (c\<lparr>cu_discountValue := round_to 2 (cu_discountValue c)\<rparr>) (coupons s)\<rparr>"
  by (simp add: save_coupon_def)

lemma by_id_mem: "by_id cid s = Some c \<Longrightarrow> c \<in> set (coupons s) \<and> cu_id c = cid"
  by (auto simp: by_id_def present_def dest: tbl_find_key tbl_find_mem)

lemma by_code_mem: "by_code code s = Some c \<Longrightarrow> c \<in> set (coupons s) \<and> cu_code c = code"
  by (auto simp: by_code_def present_def dest!: find_holds)

lemma create_coupon_cases:
  assumes "create_coupon cid now dto s = (r, t)"
  shows "t = s \<or> (\<exists>c. cu_id c = cid \<and> cu_currentUsageCount c = 0 \<and> t = s\<lparr>coupons := tbl_save cu_id c (coupons s)\<rparr>)"
proof -
  have "t = s \<or> t = snd (save_coupon (new_coupon cid now dto) s)"
    using arg_cong [OF assms, of snd] by (auto simp: create_coupon_def snd_answer split: if_splits)
  then show ?thesis
    using save_coupon_cases [of "new_coupon cid now dto" s]
    by (elim disjE; simp; intro disjI2 exI conjI; (assumption | simp add: new_coupon_def))
qed

lemma update_coupon_cases:
  assumes "update_coupon now cid dto s = (r, t)"
  shows "t = s \<or> (\<exists>old c. by_id cid s = Some old \<and> cu_id c = cid \<and> cu_currentUsageCount c = cu_currentUsageCount old \<and>
    t = s\<lparr>coupons := tbl_save cu_id c (coupons s)\<rparr>)"
proof (cases "by_id cid s")
  case None
  then show ?thesis using assms by (simp add: update_coupon_def)
next
  case (Some old)
  let ?new = "(assign_coupon dto old)\<lparr>cu_updatedAt := now\<rparr>"
  have "t = s \<or> t = snd (save_coupon ?new s)"
    using arg_cong [OF assms, of snd] Some by (auto simp: update_coupon_def snd_answer split: if_splits)
  moreover have "cu_id ?new = cid" "cu_currentUsageCount ?new = cu_currentUsageCount old"
    using by_id_mem [OF Some] by (simp_all add: assign_coupon_def)
  ultimately show ?thesis
    using save_coupon_cases [of ?new s] Some
    by (elim disjE; simp; intro disjI2 exI conjI; (assumption | simp))
qed

lemma remove_coupon_cases:
  assumes "remove_coupon now cid s = (r, t)"
  shows "t = s \<or> (\<exists>old. by_id cid s = Some old \<and>
    t = s\<lparr>coupons := tbl_save cu_id (old\<lparr>cu_deletedAt := Some now\<rparr>) (coupons s)\<rparr>)"
  using assms by (auto simp: remove_coupon_def split: option.splits)

lemma apply_coupon_cases:
  assumes "applyCouponToOrder usid now cid oid user amount disc cur s = (r, t)" and "usid \<notin> us_id ` set (usages s)"
  shows "t = s \<or> (\<exists>c u. tbl_find cu_id cid (coupons s) = Some c \<and> us_couponId u = cid \<and> us_userId u = user \<and>
    usages t = usages s @ [u] \<and>
    coupons t = tbl_save cu_id (c\<lparr>cu_currentUsageCount := cu_currentUsageCount c + 1\<rparr>) (coupons s))"
  using assms by (auto simp: applyCouponToOrder_def Let_def tbl_save_new tbl_find_none_iff split: if_splits option.splits)

text \<open>Replacing a coupon by one with the same id and count, or adding one that no usage names.\<close>

lemma books_save:
  assumes "coupon_books s" and "old \<in> set (coupons s)" and "cu_id c = cu_id old"
    and "cu_currentUsageCount c = cu_currentUsageCount old"
  shows "coupon_books (s\<lparr>coupons := tbl_save cu_id c (coupons s)\<rparr>)"
proof -
  have keys: "map cu_id (tbl_save cu_id c (coupons s)) = map cu_id (coupons s)"
    using assms(2,3) by (simp add: tbl_save_keys)
  then have ids: "cu_id ` set (tbl_save cu_id c (coupons s)) = cu_id ` set (coupons s)" by (metis set_map)
  have "used i (s\<lparr>coupons := x\<rparr>) = used i s" for i x by (simp add: used_def)
  then show ?thesis
    using assms unfolding coupon_books_def by (auto simp: keys ids dest!: tbl_save_mem)
qed

lemma books_add:
  assumes "coupon_books s" and "cu_id c \<notin> cu_id ` set (coupons s)" and "cu_currentUsageCount c = 0"
  shows "coupon_books (s\<lparr>coupons := tbl_save cu_id c (coupons s)\<rparr>)"
proof -
  have "used (cu_id c) s = 0"
    using assms(1,2) by (simp add: coupon_books_def used_def filter_empty_conv) metis
  moreover have "used i (s\<lparr>coupons := x\<rparr>) = used i s" for i x by (simp add: used_def)
  ultimately show ?thesis
    using assms by (auto simp: coupon_books_def tbl_save_new tbl_find_none_iff)
qed

lemma step_books:
  assumes "coupon_step s t" and "coupon_books s"
  shows "coupon_books t"
  using assms
proof cases
  case (created cid now dto r)
  from create_coupon_cases [OF created(1)] show ?thesis
    using assms(2) created(2) by (auto simp: new_coupon_def intro!: books_add)
next
  case (updated now cid udto r)
  from update_coupon_cases [OF updated] show ?thesis
    using assms(2) by (auto dest!: by_id_mem intro: books_save)
next
  case (removed now cid r)
  from remove_coupon_cases [OF removed] show ?thesis
    using assms(2) by (auto dest!: by_id_mem intro: books_save)
next
  case (used usid now cid oid user amount disc cur r)
  from apply_coupon_cases [OF used] show ?thesis
  proof (elim disjE exE conjE)
    fix c u
    assume c: "tbl_find cu_id cid (coupons s) = Some c" and u: "us_couponId u = cid" "usages t = usages s @ [u]"
      and t: "coupons t = tbl_save cu_id (c\<lparr>cu_currentUsageCount := cu_currentUsageCount c + 1\<rparr>) (coupons s)"
    let ?c = "c\<lparr>cu_currentUsageCount := cu_currentUsageCount c + 1\<rparr>"
    have cid: "cu_id c = cid" "c \<in> set (coupons s)" using c by (auto dest: tbl_find_key tbl_find_mem)
    have dist: "distinct (map cu_id (coupons s))" using assms(2) by (simp add: coupon_books_def)
    have keys: "map cu_id (coupons t) = map cu_id (coupons s)"
      unfolding t using c cid by (intro tbl_save_map) auto
    then have ids: "cu_id ` set (coupons t) = cu_id ` set (coupons s)" by (metis set_map)
    have count: "used i t = used i s + (if i = cid then 1 else 0)" for i by (simp add: used_def u)
    have "\<forall>x \<in> set (coupons t). cu_currentUsageCount x = int (used (cu_id x) t)"
    proof
      fix x assume "x \<in> set (coupons t)"
      then have "x = ?c \<or> (x \<in> set (coupons s) \<and> cu_id x \<noteq> cid)"
        using tbl_save_others [of x cu_id ?c "coupons s"] dist cid unfolding t by auto
      then show "cu_currentUsageCount x = int (used (cu_id x) t)"
        using assms(2) cid by (auto simp: coupon_books_def count)
    qed
    moreover have "cid \<in> cu_id ` set (coupons s)" using cid by blast
    ultimately show ?thesis
      using assms(2) keys ids u by (simp add: coupon_books_def)
  qed (use assms(2) in simp)
qed

text \<open>
  Property C31: in every state reached from an empty database the counter of each coupon, the
  softly deleted ones included, is the number of recorded usages of that coupon.
\<close>

theorem usage_count_exact:
  assumes "coupon_step\<^sup>*\<^sup>* s t" and "coupons s = []" and "usages s = []" and "c \<in> set (coupons t)"
  shows "cu_currentUsageCount c = int (used (cu_id c) t)"
proof -
  have "coupon_books t" using assms(1,2,3)
    by (induction rule: rtranclp_induct) (auto simp: coupon_books_def [of s] intro: step_books)
  then show ?thesis using assms(4) by (simp add: coupon_books_def)
qed

text \<open>
  The code of a removed coupon stays taken: no query finds it, but the unique index
  still holds it, so that creating a coupon with this code throws and changes nothing.
\<close>

lemma removed_code_stays_taken:
  assumes "remove_coupon now cid s = (Inr (), t)" and "by_id cid s = Some c" and "coupon_books s"
    and "\<forall>x \<in> set (coupons s). \<forall>y \<in> set (coupons s). cu_code x = cu_code y \<longrightarrow> x = y"
    and "upper_text (nc_code dto) = cu_code c" and "newid \<notin> cu_id ` set (coupons s)"
  shows "by_code (cu_code c) t = None \<and> (\<exists>e. create_coupon newid now' dto t = (Inl e, t))"
proof -
  have c: "c \<in> set (coupons s)" "cu_id c = cid" using by_id_mem [OF assms(2)] by simp_all
  have t: "coupons t = tbl_save cu_id (c\<lparr>cu_deletedAt := Some now\<rparr>) (coupons s)"
    using assms(1,2) by (auto simp: remove_coupon_def)
  have "x = c\<lparr>cu_deletedAt := Some now\<rparr> \<or> cu_code x \<noteq> cu_code c" if "x \<in> set (coupons t)" for x
    using tbl_save_others [of x cu_id "c\<lparr>cu_deletedAt := Some now\<rparr>" "coupons s"] that assms(3,4) c
    unfolding t by (auto simp: coupon_books_def)
  then have none: "by_code (cu_code c) t = None"
    by (fastforce simp: by_code_def present_def find_None_iff)
  have "c\<lparr>cu_deletedAt := Some now\<rparr> \<in> set (coupons t)" unfolding t by simp
  moreover have "cid \<noteq> newid" using c assms(6) by blast
  ultimately have "\<exists>x \<in> set (coupons t). cu_code x = cu_code (new_coupon newid now' dto) \<and> cu_id x \<noteq> cu_id (new_coupon newid now' dto)"
    using c assms(5) by (intro bexI [of _ "c\<lparr>cu_deletedAt := Some now\<rparr>"]) (simp_all add: new_coupon_def)
  then have "\<exists>e. save_coupon (new_coupon newid now' dto) t = (Inl e, t)" by (simp add: save_coupon_def)
  then show ?thesis using none assms(5) by (auto simp: create_coupon_def)
qed

subsection \<open>Sample runs\<close>

definition sample_restriction :: coupon_restriction where
  "sample_restriction = \<lparr>rs_productIds = None, rs_categoryIds = None, rs_excludedProductIds = Some [''x''],
     rs_excludedCategoryIds = None, rs_minimumOrderAmount = None, rs_maximumDiscountAmount = None,
     rs_newCustomersOnly = None, rs_firstOrderOnly = None\<rparr>"

definition sample_coupon_dto :: create_coupon_dto where
  "sample_coupon_dto = \<lparr>nc_code = ''xlm'', nc_name = ''Half'', nc_description = None, nc_discountType = PERCENTAGE,
     nc_discountValue = 50, nc_status = None, nc_startDate = None, nc_endDate = None, nc_totalUsageLimit = Some 1,
     nc_perUserLimit = None, nc_restrictions = Some sample_restriction\<rparr>"

definition sample_coupon :: coupon_row where
  "sample_coupon = new_coupon ''c'' 0 sample_coupon_dto"

definition sample_coupons :: coupon_db where
  "sample_coupons = \<lparr>coupons = [sample_coupon], usages = []\<rparr>"

definition sample_cart :: apply_coupon_dto where
  "sample_cart = \<lparr>ac_code = ''xlm'', ac_userId = ''u'', ac_items =
     [\<lparr>ic_productId = ''x'', ic_categoryId = None, ic_quantity = 1, ic_price = 90, ic_subtotal = 90\<rparr>,
      \<lparr>ic_productId = ''y'', ic_categoryId = None, ic_quantity = 1, ic_price = 10, ic_subtotal = 10\<rparr>],
     ac_subtotal = None, ac_currency = None\<rparr>"

lemma sample_coupon_simps [simp]:
  "cu_id sample_coupon = ''c''" "cu_code sample_coupon = ''XLM''" "cu_discountType sample_coupon = PERCENTAGE"
  "cu_discountValue sample_coupon = 50" "cu_status sample_coupon = CS_ACTIVE" "cu_startDate sample_coupon = None"
  "cu_endDate sample_coupon = None" "cu_totalUsageLimit sample_coupon = 1" "cu_perUserLimit sample_coupon = 0"
  "cu_currentUsageCount sample_coupon = 0" "cu_restrictions sample_coupon = Some sample_restriction"
  "cu_deletedAt sample_coupon = None"
  by (simp_all add: sample_coupon_def new_coupon_def sample_coupon_dto_def upper_xlm)

lemma sample_cart_simps [simp]:
  "ac_code sample_cart = ''xlm''" "ac_subtotal sample_cart = None" "calculateSubtotal (ac_items sample_cart) = 100"
  "calculateSubtotal (getApplicableItems sample_coupon (ac_items sample_cart)) = 10"
  "getApplicableItems sample_coupon (ac_items sample_cart) \<noteq> []"
  by (simp_all add: sample_cart_def calculateSubtotal_def getApplicableItems_def applicable_def sample_restriction_def listed_def)

lemma sample_by_code: "by_code (upper_text (ac_code sample_cart)) sample_coupons = Some sample_coupon"
  by (simp add: by_code_def present_def sample_coupons_def upper_xlm)

lemma sample_restriction_simps [simp]:
  "restriction rs_maximumDiscountAmount sample_coupon = None" "restriction rs_minimumOrderAmount sample_coupon = None"
  by (simp_all add: restriction_def sample_restriction_def)

lemma sample_nonnegative: "nonnegative_coupon sample_coupon"
  by (simp add: nonnegative_coupon_def)

lemma sample_accepted: "coupon_isValid 7 sample_coupon"
  by (simp add: coupon_isValid_def)

theorem coupon_applied_bounded_witness:
  "\<exists>a. validateAndApplyCoupon 7 sample_cart sample_coupons = Applied a \<and> ap_discountAmount a \<le> 100"
  using coupon_applied_bounded [OF sample_by_code sample_nonnegative refl, of 7] sample_accepted by auto

theorem discount_ignores_restrictions_witness:
  "\<exists>a v. validateAndApplyCoupon 7 sample_cart sample_coupons = Applied a \<and> ap_discountAmount a = 50 \<and>
    validateCoupon 7 sample_coupon (ac_userId sample_cart) (ac_items sample_cart) None sample_coupons = Inr v \<and> fst v = 5"
proof -
  have "\<exists>a. validateAndApplyCoupon 7 sample_cart sample_coupons = Applied a"
    using sample_by_code sample_accepted by (auto simp: applied_iff validate_iff Let_def)
  then obtain a where run: "validateAndApplyCoupon 7 sample_cart sample_coupons = Applied a" ..
  have "\<forall>i \<in> set (ac_items sample_cart). 0 \<le> ic_subtotal i" by (simp add: sample_cart_def)
  from discount_ignores_restrictions [OF sample_by_code _ _ _ _ _ this run] run show ?thesis by auto
qed

lemma sample_coupon_created: "create_coupon ''c'' 0 sample_coupon_dto \<lparr>coupons = [], usages = []\<rparr> = (Inr (toCouponResponse 0 sample_coupon), sample_coupons)"
proof -
  have "round_to 2 50 = 50" using round_to_exact [of 2 5000] by simp
  moreover have "sample_coupon\<lparr>cu_discountValue := 50\<rparr> = sample_coupon"
    by (simp add: sample_coupon_def new_coupon_def sample_coupon_dto_def)
  ultimately show ?thesis
    by (simp add: create_coupon_def by_code_def present_def dates_reversed_def save_coupon_def sample_coupons_def
        sample_coupon_def [symmetric]) (simp add: sample_coupon_dto_def)
qed

definition sample_usage :: coupon_usage_row where
  "sample_usage = \<lparr>us_id = ''n'', us_couponId = ''c'', us_userId = ''u'', us_orderId = ''o'', us_orderAmount = 100,
     us_discountAmount = 50, us_currency = ''USD'', us_usedAt = 7\<rparr>"

lemma sample_used:
  "applyCouponToOrder ''n'' 7 ''c'' ''o'' ''u'' 100 50 ''USD'' sample_coupons =
    (Inr (), \<lparr>coupons = [sample_coupon\<lparr>cu_currentUsageCount := 1\<rparr>], usages = [sample_usage]\<rparr>)"
proof -
  have "round_to 2 50 = 50" "round_to 2 100 = 100" using round_to_exact [of 2 5000] round_to_exact [of 2 10000] by simp_all
  then show ?thesis by (simp add: applyCouponToOrder_def sample_coupons_def sample_usage_def Let_def)
qed

theorem usage_count_exact_witness:
  "cu_currentUsageCount (sample_coupon\<lparr>cu_currentUsageCount := 1\<rparr>) =
    int (used ''c'' \<lparr>coupons = [sample_coupon\<lparr>cu_currentUsageCount := 1\<rparr>], usages = [sample_usage]\<rparr>)"
proof -
  have "coupon_step \<lparr>coupons = [], usages = []\<rparr> sample_coupons"
    by (rule coupon_step.created [OF sample_coupon_created]) simp
  moreover have "coupon_step sample_coupons \<lparr>coupons = [sample_coupon\<lparr>cu_currentUsageCount := 1\<rparr>], usages = [sample_usage]\<rparr>"
    by (rule coupon_step.used [OF sample_used]) (simp add: sample_coupons_def)
  ultimately have "coupon_step\<^sup>*\<^sup>* \<lparr>coupons = [], usages = []\<rparr> \<lparr>coupons = [sample_coupon\<lparr>cu_currentUsageCount := 1\<rparr>], usages = [sample_usage]\<rparr>"
    by (rule converse_rtranclp_into_rtranclp [OF _ r_into_rtranclp])
  from usage_count_exact [OF this, of "sample_coupon\<lparr>cu_currentUsageCount := 1\<rparr>"] show ?thesis by simp
qed

theorem removed_code_stays_taken_witness:
  "\<exists>t. remove_coupon 5 ''c'' sample_coupons = (Inr (), t) \<and> (\<exists>e. create_coupon ''d'' 6 sample_coupon_dto t = (Inl e, t))"
proof -
  have found: "by_id ''c'' sample_coupons = Some sample_coupon" by (simp add: by_id_def present_def sample_coupons_def)
  then have run: "remove_coupon 5 ''c'' sample_coupons = (Inr (), \<lparr>coupons = [sample_coupon\<lparr>cu_deletedAt := Some 5\<rparr>], usages = []\<rparr>)"
    by (simp add: remove_coupon_def) (simp add: sample_coupons_def)
  have "coupon_books sample_coupons" by (simp add: coupon_books_def sample_coupons_def used_def)
  from removed_code_stays_taken [OF run found this, of sample_coupon_dto "''d''" 6] run show ?thesis
    by (simp add: sample_coupons_def) (simp add: sample_coupon_dto_def upper_xlm)
qed

end
