(* ===== verification/RateLimit.thy ===== *)
theory RateLimit
  imports Products "HOL-Library.AList"
begin

text \<open>
  \<open>RateLimitService\<close> (src/src/rate-limiting/rate-limit.service.ts) and \<open>RateLimitGuard\<close>
  (src/src/guards/rate-limit.guard.ts): a sliding window of requests per key in a sorted set of
  Redis. Redis is not part of the program: its commands are the argument \<open>ops\<close> of the
  definitions, over a store of any type, and locale \<open>sorted_sets\<close> states what the service relies
  on. The clock and the two random texts of a request are parameters.
\<close>

subsection \<open>Redis\<close>

datatype user_tier = FREE_TIER | PREMIUM | ENTERPRISE | ADMIN

text \<open>A configuration whose fields may be \<open>undefined\<close>.\<close>

record rate_limit_config =
  rl_windowMs :: "int option"
  rl_maxRequests :: "int option"
  rl_burstAllowance :: "int option"

record analytics_entry =
  ae_identifier :: string
  ae_endpoint :: string
  ae_userTier :: user_tier
  ae_success :: bool
  ae_totalHits :: int
  ae_timestamp :: time

text \<open>The commands the service sends; \<open>lpush\<close> files an entry under the day of its key, \<open>set_tier\<close>
  and \<open>set_endpoint\<close> are \<open>SET\<close> on the keys of stored configurations.\<close>

record 'r redis =
  zremrangebyscore :: "string \<Rightarrow> int \<Rightarrow> int \<Rightarrow> 'r \<Rightarrow> 'r"
  zcard :: "string \<Rightarrow> 'r \<Rightarrow> nat"
  zadd :: "string \<Rightarrow> int \<Rightarrow> string \<Rightarrow> 'r \<Rightarrow> 'r"
  zrem :: "string \<Rightarrow> string \<Rightarrow> 'r \<Rightarrow> 'r"
  expire_key :: "string \<Rightarrow> int \<Rightarrow> 'r \<Rightarrow> 'r"
  del_key :: "string \<Rightarrow> 'r \<Rightarrow> 'r"
  lpush :: "int \<Rightarrow> analytics_entry \<Rightarrow> 'r \<Rightarrow> 'r"
  lrange :: "int \<Rightarrow> 'r \<Rightarrow> analytics_entry list"
  set_tier :: "user_tier \<Rightarrow> rate_limit_config \<Rightarrow> 'r \<Rightarrow> 'r"
  set_endpoint :: "string \<Rightarrow> rate_limit_config \<Rightarrow> 'r \<Rightarrow> 'r"
  get_tier :: "user_tier \<Rightarrow> 'r \<Rightarrow> rate_limit_config option"
  endpoint_entries :: "'r \<Rightarrow> (string \<times> rate_limit_config) list"

text \<open>
  Redis documents: \<open>ZADD\<close> adds a member with its score or changes the score it has,
  \<open>ZREMRANGEBYSCORE\<close> removes the members with a score in the closed range, \<open>ZCARD\<close> counts,
  \<open>ZREM\<close> and \<open>DEL\<close> remove. \<open>EXPIRE\<close> takes the key away only after its time, when every entry of
  the window has left it; commands on other types leave the sorted sets alone.
\<close>

locale sorted_sets =
  fixes ops :: "'r redis"
    and zset :: "string \<Rightarrow> 'r \<Rightarrow> (string \<times> int) set"
  assumes zadd_set: "zset k (zadd ops k' sc m st) =
      (if k = k' then insert (m, sc) {x \<in> zset k st. fst x \<noteq> m} else zset k st)"
    and zremrange_set: "zset k (zremrangebyscore ops k' lo hi st) =
      (if k = k' then {x \<in> zset k st. \<not> (lo \<le> snd x \<and> snd x \<le> hi)} else zset k st)"
    and zrem_set: "zset k (zrem ops k' m st) = (if k = k' then {x \<in> zset k st. fst x \<noteq> m} else zset k st)"
    and zcard_set: "zcard ops k st = card (zset k st)"
    and expire_set: "zset k (expire_key ops k' sec st) = zset k st"
    and lpush_set: "zset k (lpush ops day e st) = zset k st"
    and del_set: "zset k (del_key ops k' st) = (if k = k' then {} else zset k st)"
    and finite_set: "finite (zset k st)"

subsection \<open>Configuration\<close>

text \<open>A partial configuration: a key may be absent, or present and \<open>undefined\<close>.\<close>

record partial_config =
  pc_windowMs :: "int option option"
  pc_maxRequests :: "int option option"
  pc_burstAllowance :: "int option option"

text \<open>\<open>{ ...config, ...partial }\<close>: a key that is present overrides, also with \<open>undefined\<close>.\<close>

definition spread :: "rate_limit_config \<Rightarrow> partial_config \<Rightarrow> rate_limit_config" where
  "spread config p = \<lparr>
     rl_windowMs = (case pc_windowMs p of None \<Rightarrow> rl_windowMs config | Some x \<Rightarrow> x),
     rl_maxRequests = (case pc_maxRequests p of None \<Rightarrow> rl_maxRequests config | Some x \<Rightarrow> x),
     rl_burstAllowance = (case pc_burstAllowance p of None \<Rightarrow> rl_burstAllowance config | Some x \<Rightarrow> x)\<rparr>"

record rate_limiter =
  tierConfigs :: "user_tier \<Rightarrow> rate_limit_config"
  endpointConfigs :: "(string \<times> partial_config) list"

primrec default_tier :: "user_tier \<Rightarrow> rate_limit_config" where
  "default_tier FREE_TIER = \<lparr>rl_windowMs = Some 60000, rl_maxRequests = Some 10, rl_burstAllowance = Some 3\<rparr>"
| "default_tier PREMIUM = \<lparr>rl_windowMs = Some 60000, rl_maxRequests = Some 50, rl_burstAllowance = Some 10\<rparr>"
| "default_tier ENTERPRISE = \<lparr>rl_windowMs = Some 60000, rl_maxRequests = Some 200, rl_burstAllowance = Some 50\<rparr>"
| "default_tier ADMIN = \<lparr>rl_windowMs = Some 60000, rl_maxRequests = Some 1000, rl_burstAllowance = Some 200\<rparr>"

definition full_partial :: "int \<Rightarrow> int \<Rightarrow> int \<Rightarrow> partial_config" where
  "full_partial w n b = \<lparr>pc_windowMs = Some (Some w), pc_maxRequests = Some (Some n), pc_burstAllowance = Some (Some b)\<rparr>"

definition default_limiter :: rate_limiter where
  "default_limiter = \<lparr>tierConfigs = default_tier, endpointConfigs =
     [(''/api/auth/login'', full_partial (15 * 60 * 1000) 5 0),
      (''/api/auth/register'', full_partial (60 * 60 * 1000) 3 0),
      (''/api/listings'', full_partial (60 * 1000) 30 5),
      (''/api/search'', full_partial (60 * 1000) 20 3)]\<rparr>"

definition getRateLimitConfig ::
  "rate_limiter \<Rightarrow> user_tier \<Rightarrow> string option \<Rightarrow> partial_config option \<Rightarrow> rate_limit_config" where
  "getRateLimitConfig rl userTier endpoint customConfig =
     (let config = tierConfigs rl userTier;
          config = (case (if truthy_text endpoint then map_of (endpointConfigs rl) (or_text endpoint []) else None) of
              None \<Rightarrow> config | Some e \<Rightarrow> spread config e)
      in case customConfig of None \<Rightarrow> config | Some c \<Rightarrow> spread config c)"

definition alnum :: "char \<Rightarrow> bool" where
  "alnum c \<longleftrightarrow> c \<in> set ''abcdefghijklmnopqrstuvwxyzABCDEFGHIJKLMNOPQRSTUVWXYZ0123456789''"

definition generateKey :: "string \<Rightarrow> string option \<Rightarrow> string" where
  "generateKey identifier endpoint =
     ''rate_limit:'' @ identifier @
     (if truthy_text endpoint
      then '':'' @ map (\<lambda>c. if alnum c then c else CHR ''_'') (or_text endpoint []) else [])"

subsection \<open>The sliding window\<close>

record rate_limit_result =
  rr_success :: bool
  rr_totalHits :: int
  rr_remainingPoints :: int
  rr_msBeforeNext :: int
  rr_headers :: "(string \<times> string) list"

definition generateHeaders :: "time \<Rightarrow> int \<Rightarrow> int \<Rightarrow> int option \<Rightarrow> int \<Rightarrow> int \<Rightarrow> (string \<times> string) list" where
  "generateHeaders now windowMs maxRequests burst remainingPoints msBeforeNext =
     [(''X-RateLimit-Limit'', int_text maxRequests), (''X-RateLimit-Remaining'', int_text remainingPoints),
      (''X-RateLimit-Reset'', int_text \<lceil>of_int (now + windowMs) / 1000 :: rat\<rceil>),
      (''X-RateLimit-Window'', int_text windowMs),
      (''X-RateLimit-Burst'', int_text (case burst of None \<Rightarrow> 0 | Some b \<Rightarrow> b)),
      (''Retry-After'', if msBeforeNext > 0 then int_text \<lceil>of_int msBeforeNext / 1000 :: rat\<rceil> else ''0'')]"

definition member_text :: "time \<Rightarrow> string \<Rightarrow> string" where
  "member_text now random = int_text now @ ''-'' @ random"

text \<open>
  A pipeline runs every command and reports the errors of single ones: without a window the bound
  of the range and the expiry are \<open>NaN\<close>, which Redis refuses, so that the count and the new
  entry are all that happens before the method throws. Without a maximum the comparison with
  \<open>NaN\<close> fails, and the headers throw after the entry was \<open>removed\<close>. The member to remove is built
  with a second random number.
\<close>

definition slidingWindowRateLimit ::
  "'r redis \<Rightarrow> time \<Rightarrow> string \<Rightarrow> string \<Rightarrow> string \<Rightarrow> rate_limit_config \<Rightarrow> 'r \<Rightarrow> (rate_limit_result, 'r) result" where
  "slidingWindowRateLimit ops now random random2 key config st =
     (case rl_windowMs config of
        None \<Rightarrow> (Inl (Error [Txt ''Redis pipeline execution failed'']), zadd ops key now (member_text now random) st)
      | Some windowMs \<Rightarrow>
        let windowStart = now - windowMs;
            st = zremrangebyscore ops key 0 windowStart st;
            counted = zcard ops key st;
            st = zadd ops key now (member_text now random) st;
            st = expire_key ops key \<lceil>of_int windowMs / 1000 :: rat\<rceil> st;
            currentCount = int counted + 1
        in case rl_maxRequests config of
            None \<Rightarrow> (Inl (TypeError [Txt ''Cannot read properties of undefined'']),
                zrem ops key (member_text now random2) st)
          | Some maxRequests \<Rightarrow>
            let maxAllowed = maxRequests + (case rl_burstAllowance config of None \<Rightarrow> 0 | Some b \<Rightarrow> b);
                success = (currentCount \<le> maxAllowed);
                remainingPoints = max 0 (maxAllowed - currentCount);
                msBeforeNext = (if success then 0 else windowMs);
                st = (if success then st else zrem ops key (member_text now random2) st)
            in (Inr \<lparr>rr_success = success, rr_totalHits = currentCount, rr_remainingPoints = remainingPoints,
                  rr_msBeforeNext = msBeforeNext,
                  rr_headers = generateHeaders now windowMs maxRequests (rl_burstAllowance config) remainingPoints msBeforeNext\<rparr>,
                st))"

definition fail_open :: rate_limit_result where
  "fail_open = \<lparr>rr_success = True, rr_totalHits = 0, rr_remainingPoints = 100, rr_msBeforeNext = 0, rr_headers = []\<rparr>"

definition logAnalytics ::
  "'r redis \<Rightarrow> time \<Rightarrow> string \<Rightarrow> string \<Rightarrow> user_tier \<Rightarrow> rate_limit_result \<Rightarrow> 'r \<Rightarrow> 'r" where
  "logAnalytics ops now identifier endpoint userTier res st =
     lpush ops (now div 86400000) \<lparr>ae_identifier = identifier, ae_endpoint = endpoint, ae_userTier = userTier,
       ae_success = rr_success res, ae_totalHits = rr_totalHits res, ae_timestamp = now\<rparr> st"

definition checkRateLimit ::
  "'r redis \<Rightarrow> time \<Rightarrow> string \<Rightarrow> string \<Rightarrow> rate_limiter \<Rightarrow> string \<Rightarrow> user_tier \<Rightarrow> string option \<Rightarrow>
   partial_config option \<Rightarrow> 'r \<Rightarrow> rate_limit_result \<times> 'r" where
  "checkRateLimit ops now random random2 rl identifier userTier endpoint customConfig st =
     (let config = getRateLimitConfig rl userTier endpoint customConfig;
          key = generateKey identifier endpoint
      in case slidingWindowRateLimit ops now random random2 key config st of
           (Inl e, st) \<Rightarrow> (fail_open, st)
         | (Inr res, st) \<Rightarrow> (res, logAnalytics ops now identifier (or_text endpoint []) userTier res st))"

subsection \<open>Administration\<close>

definition getAnalytics :: "'r redis \<Rightarrow> time \<Rightarrow> nat \<Rightarrow> 'r \<Rightarrow> (int \<times> analytics_entry list) list" where
  "getAnalytics ops now days st =
     map (\<lambda>i. (now div 86400000 - int i, lrange ops (now div 86400000 - int i) st)) [0..<days]"

definition updateTierConfig ::
  "'r redis \<Rightarrow> user_tier \<Rightarrow> partial_config \<Rightarrow> rate_limiter \<Rightarrow> 'r \<Rightarrow> rate_limiter \<times> 'r" where
  "updateTierConfig ops tier config rl st =
     (let new = spread (tierConfigs rl tier) config
      in (rl\<lparr>tierConfigs := (tierConfigs rl)(tier := new)\<rparr>, set_tier ops tier new st))"

text \<open>\<open>{ ...endpointConfigs[endpoint], ...config }\<close>.\<close>

definition spread_partial :: "partial_config \<Rightarrow> partial_config \<Rightarrow> partial_config" where
  "spread_partial old new = \<lparr>
     pc_windowMs = (case pc_windowMs new of None \<Rightarrow> pc_windowMs old | x \<Rightarrow> x),
     pc_maxRequests = (case pc_maxRequests new of None \<Rightarrow> pc_maxRequests old | x \<Rightarrow> x),
     pc_burstAllowance = (case pc_burstAllowance new of None \<Rightarrow> pc_burstAllowance old | x \<Rightarrow> x)\<rparr>"

definition no_partial :: partial_config where
  "no_partial = \<lparr>pc_windowMs = None, pc_maxRequests = None, pc_burstAllowance = None\<rparr>"

text \<open>\<open>JSON.stringify\<close> drops undefined fields, \<open>JSON.parse\<close> then leaves them absent.\<close>

definition stringified :: "partial_config \<Rightarrow> rate_limit_config" where
  "stringified p = \<lparr>rl_windowMs = Option.bind (pc_windowMs p) (\<lambda>x. x),
     rl_maxRequests = Option.bind (pc_maxRequests p) (\<lambda>x. x),
     rl_burstAllowance = Option.bind (pc_burstAllowance p) (\<lambda>x. x)\<rparr>"

definition parsed :: "rate_limit_config \<Rightarrow> partial_config" where
  "parsed c = \<lparr>pc_windowMs = map_option Some (rl_windowMs c),
     pc_maxRequests = map_option Some (rl_maxRequests c),
     pc_burstAllowance = map_option Some (rl_burstAllowance c)\<rparr>"

definition updateEndpointConfig ::
  "'r redis \<Rightarrow> string \<Rightarrow> partial_config \<Rightarrow> rate_limiter \<Rightarrow> 'r \<Rightarrow> rate_limiter \<times> 'r" where
  "updateEndpointConfig ops endpoint config rl st =
     (let old = (case map_of (endpointConfigs rl) endpoint of None \<Rightarrow> no_partial | Some e \<Rightarrow> e);
          new = spread_partial old config
      in (rl\<lparr>endpointConfigs := AList.update endpoint new (endpointConfigs rl)\<rparr>,
          set_endpoint ops endpoint (stringified new) st))"

definition all_tiers :: "user_tier list" where
  "all_tiers = [FREE_TIER, PREMIUM, ENTERPRISE, ADMIN]"

definition loadConfigurations :: "'r redis \<Rightarrow> 'r \<Rightarrow> rate_limiter \<Rightarrow> rate_limiter" where
  "loadConfigurations ops st rl =
     rl\<lparr>tierConfigs := fold (\<lambda>tier f. case get_tier ops tier st of None \<Rightarrow> f | Some c \<Rightarrow> f(tier := c)) all_tiers (tierConfigs rl),
        endpointConfigs := fold (\<lambda>(endpoint, c) es. AList.update endpoint (parsed c) es)
          (endpoint_entries ops st) (endpointConfigs rl)\<rparr>"

definition resetRateLimit :: "'r redis \<Rightarrow> string \<Rightarrow> string option \<Rightarrow> 'r \<Rightarrow> 'r" where
  "resetRateLimit ops identifier endpoint st = del_key ops (generateKey identifier endpoint) st"

record rate_limit_status =
  rs_currentCount :: nat
  rs_windowStart :: time
  rs_nextReset :: time

text \<open>The status always looks at one minute, and removes what is older.\<close>

definition getRateLimitStatus ::
  "'r redis \<Rightarrow> time \<Rightarrow> string \<Rightarrow> string option \<Rightarrow> 'r \<Rightarrow> rate_limit_status \<times> 'r" where
  "getRateLimitStatus ops now identifier endpoint st =
     (let key = generateKey identifier endpoint; windowMs = 60 * 1000; windowStart = now - windowMs;
          st = zremrangebyscore ops key 0 windowStart st
      in (\<lparr>rs_currentCount = zcard ops key st, rs_windowStart = windowStart, rs_nextReset = now + windowMs\<rparr>, st))"

subsection \<open>The guard\<close>

record auth_user =
  au_id :: "string option"
  au_roles :: "string list option"
  au_role :: "string option"
  au_tier :: "user_tier option"
  au_subscription :: "string option"

record http_request =
  hr_user :: "auth_user option"
  hr_forwarded :: "string option"
  hr_realIp :: "string option"
  hr_cfConnectingIp :: "string option"
  hr_connectionAddress :: "string option"
  hr_socketAddress :: "string option"
  hr_routePath :: "string option"
  hr_path :: string

text \<open>The options of the decorator; \<open>tierLimits\<close> gives options for some tiers. A key generator of
  the decorator gives the identifier.\<close>

record tier_limits =
  tl_windowMs :: "int option"
  tl_maxRequests :: "int option"
  tl_burstAllowance :: "int option"

record rate_limit_options =
  ro_windowMs :: "int option"
  ro_maxRequests :: "int option"
  ro_burstAllowance :: "int option"
  ro_keyGenerator :: "(http_request \<Rightarrow> string) option"
  ro_tierLimits :: "(user_tier \<times> tier_limits) list"
  ro_message :: "string option"
  ro_enabled :: "bool option"

definition is_blank :: "char \<Rightarrow> bool" where
  "is_blank c \<longleftrightarrow> c = CHR '' ''"

definition trim_text :: "string \<Rightarrow> string" where
  "trim_text t = rev (dropWhile is_blank (rev (dropWhile is_blank t)))"

definition getClientIp :: "http_request \<Rightarrow> string" where
  "getClientIp request =
     (case hr_forwarded request of
        Some forwarded \<Rightarrow> trim_text (takeWhile (\<lambda>c. c \<noteq> CHR '','') forwarded)
      | None \<Rightarrow> case hr_realIp request of
          Some realIp \<Rightarrow> realIp
        | None \<Rightarrow> case hr_cfConnectingIp request of
            Some cfConnectingIp \<Rightarrow> cfConnectingIp
          | None \<Rightarrow> or_text (hr_connectionAddress request) (or_text (hr_socketAddress request) ''127.0.0.1''))"

definition generateIdentifier :: "http_request \<Rightarrow> rate_limit_options \<Rightarrow> string" where
  "generateIdentifier request options =
     (case ro_keyGenerator options of
        Some f \<Rightarrow> f request
      | None \<Rightarrow>
        case hr_user request of
          Some user \<Rightarrow>
            if truthy_text (au_id user) then ''user:'' @ or_text (au_id user) []
            else ''ip:'' @ getClientIp request
        | None \<Rightarrow> ''ip:'' @ getClientIp request)"

definition getUserTier :: "http_request \<Rightarrow> user_tier" where
  "getUserTier request =
     (case hr_user request of
        None \<Rightarrow> FREE_TIER
      | Some user \<Rightarrow>
        if (case au_roles user of None \<Rightarrow> False | Some rs \<Rightarrow> ''admin'' \<in> set rs) \<or> au_role user = Some ''admin''
        then ADMIN
        else case au_tier user of
            Some tier \<Rightarrow> tier
          | None \<Rightarrow>
            case au_subscription user of
              None \<Rightarrow> FREE_TIER
            | Some sub \<Rightarrow>
              if lower_text sub = ''enterprise'' then ENTERPRISE
              else if lower_text sub = ''premium'' then PREMIUM
              else FREE_TIER)"

definition getEndpointPath :: "http_request \<Rightarrow> string" where
  "getEndpointPath request = or_text (hr_routePath request) (or_text (Some (hr_path request)) ''/'')"

text \<open>\<open>a || b\<close> on numbers that may be undefined.\<close>

definition or_int :: "int option \<Rightarrow> int option \<Rightarrow> int option" where
  "or_int a b = (case a of None \<Rightarrow> b | Some n \<Rightarrow> if n = 0 then b else Some n)"

text \<open>The three keys are always present in what the guard hands over.\<close>

definition getEffectiveConfig :: "rate_limit_options \<Rightarrow> user_tier \<Rightarrow> partial_config" where
  "getEffectiveConfig options userTier =
     (case map_of (ro_tierLimits options) userTier of
        None \<Rightarrow> \<lparr>pc_windowMs = Some (ro_windowMs options), pc_maxRequests = Some (ro_maxRequests options),
                 pc_burstAllowance = Some (ro_burstAllowance options)\<rparr>
      | Some tierConfig \<Rightarrow>
                \<lparr>pc_windowMs = Some (or_int (tl_windowMs tierConfig) (ro_windowMs options)),
                 pc_maxRequests = Some (or_int (tl_maxRequests tierConfig) (ro_maxRequests options)),
                 pc_burstAllowance = Some (or_int (tl_burstAllowance tierConfig) (ro_burstAllowance options))\<rparr>)"

text \<open>\<open>Inl\<close> is the exception with status 429, and holds the seconds to wait.\<close>

definition canActivate ::
  "'r redis \<Rightarrow> time \<Rightarrow> string \<Rightarrow> string \<Rightarrow> rate_limiter \<Rightarrow> rate_limit_options option \<Rightarrow> http_request \<Rightarrow> 'r \<Rightarrow>
   (int + bool) \<times> 'r" where
  "canActivate ops now random random2 rl rateLimitOptions request st =
     (case rateLimitOptions of
        None \<Rightarrow> (Inr True, st)
      | Some options \<Rightarrow>
        if ro_enabled options = Some False then (Inr True, st)
        else
          let identifier = generateIdentifier request options;
              userTier = getUserTier request;
              endpoint = getEndpointPath request;
              effectiveConfig = getEffectiveConfig options userTier;
              (res, st) = checkRateLimit ops now random random2 rl identifier userTier (Some endpoint) (Some effectiveConfig) st
          in if rr_success res then (Inr True, st)
             else (Inl \<lceil>of_int (rr_msBeforeNext res) / 1000 :: rat\<rceil>, st))"

subsection \<open>What the window counts\<close>

text \<open>A request is a time and the two random texts drawn for it; the limiter answers a list of them
  for one key and one configuration.\<close>

type_synonym hit = "time \<times> string \<times> string"

definition hit_member :: "hit \<Rightarrow> string" where
  "hit_member h = member_text (fst h) (fst (snd h))"

definition hit_rejected :: "hit \<Rightarrow> string" where
  "hit_rejected h = member_text (fst h) (snd (snd h))"

definition serve_one :: "'r redis \<Rightarrow> string \<Rightarrow> int \<Rightarrow> int \<Rightarrow> int \<Rightarrow> hit \<Rightarrow> 'r \<Rightarrow> bool \<times> 'r" where
  "serve_one ops key w n b h st =
     (case slidingWindowRateLimit ops (fst h) (fst (snd h)) (snd (snd h)) key
        \<lparr>rl_windowMs = Some w, rl_maxRequests = Some n, rl_burstAllowance = Some b\<rparr> st of
        (Inl e, st) \<Rightarrow> (True, st)
      | (Inr res, st) \<Rightarrow> (rr_success res, st))"

fun serve :: "'r redis \<Rightarrow> string \<Rightarrow> int \<Rightarrow> int \<Rightarrow> int \<Rightarrow> hit list \<Rightarrow> 'r \<Rightarrow> bool list \<times> 'r" where
  "serve ops key w n b [] st = ([], st)"
| "serve ops key w n b (h # hs) st =
     (let (ok, st) = serve_one ops key w n b h st; (oks, st) = serve ops key w n b hs st in (ok # oks, st))"

text \<open>The requests, answered or refused, that are younger than the window at a time.\<close>

definition recent :: "int \<Rightarrow> time \<Rightarrow> hit list \<Rightarrow> hit list" where
  "recent w now hs = filter (\<lambda>h. now - w < fst h) hs"

lemma image_without:
  assumes "m \<notin> hit_member ` A"
  shows "{x \<in> (\<lambda>h. (hit_member h, fst h)) ` A. fst x \<noteq> m} = (\<lambda>h. (hit_member h, fst h)) ` A"
proof -
  have "fst y \<noteq> m" if "y \<in> (\<lambda>h. (hit_member h, fst h)) ` A" for y
    using that assms by (elim imageE) (metis fst_conv imageI)
  then show ?thesis by blast
qed

context sorted_sets
begin

text \<open>The set after a run: the requests younger than the window at the last one.\<close>

definition tracks :: "string \<Rightarrow> int \<Rightarrow> time \<Rightarrow> hit list \<Rightarrow> 'r \<Rightarrow> bool" where
  "tracks key w prev hs st \<longleftrightarrow> zset key st = (\<lambda>h. (hit_member h, fst h)) ` set (recent w prev hs)"

lemma serve_one_step:
  assumes "tracks key w prev hs st" and "prev \<le> fst h" and "\<forall>x \<in> set hs. 0 \<le> fst x" and "0 < w"
    and fresh: "hit_member h \<notin> hit_member ` set hs" "hit_rejected h \<notin> hit_member ` set (hs @ [h])"
    and dist: "distinct (map hit_member hs)"
  shows "fst (serve_one ops key w n b h st) \<longleftrightarrow> int (length (recent w (fst h) (hs @ [h]))) \<le> n + b"
    and "tracks key w (fst h) (hs @ [h]) (snd (serve_one ops key w n b h st))"
proof -
  let ?now = "fst h" and ?f = "\<lambda>h. (hit_member h, fst h)"
  let ?st1 = "zremrangebyscore ops key 0 (?now - w) st"
  have recent: "set (recent w ?now hs) = {x \<in> set (recent w prev hs). ?now - w < fst x}"
    using assms(2) by (auto simp: recent_def)
  have set1: "zset key ?st1 = ?f ` set (recent w ?now hs)"
  proof -
    have "zset key ?st1 = {y \<in> ?f ` set (recent w prev hs). \<not> (0 \<le> snd y \<and> snd y \<le> ?now - w)}"
      using assms(1) by (simp add: zremrange_set tracks_def)
    also have "\<dots> = ?f ` {x \<in> set (recent w prev hs). ?now - w < fst x}"
      using assms(3) by (auto simp: recent_def)
    finally show ?thesis by (simp only: recent)
  qed
  have inj: "inj_on ?f (set (recent w ?now hs))"
    using dist by (auto simp: inj_on_def recent_def distinct_map)
  have "distinct (recent w ?now hs)" using dist by (simp add: recent_def distinct_map)
  then have "card (zset key ?st1) = length (recent w ?now hs)"
    unfolding set1 card_image [OF inj] by (rule distinct_card)
  then have counted: "int (zcard ops key ?st1) + 1 = int (length (recent w ?now (hs @ [h])))"
    using assms(4) by (simp add: zcard_set recent_def)
  let ?st3 = "expire_key ops key \<lceil>of_int w / 1000 :: rat\<rceil> (zadd ops key ?now (hit_member h) ?st1)"
  have set3: "zset key ?st3 = ?f ` set (recent w ?now (hs @ [h]))"
  proof -
    have "set (recent w ?now (hs @ [h])) = insert h (set (recent w ?now hs))"
      using assms(4) by (simp add: recent_def)
    moreover have "hit_member h \<notin> hit_member ` set (recent w ?now hs)" using fresh(1) by (auto simp: recent_def)
    note image_without [OF this]
    ultimately show ?thesis by (simp add: expire_set zadd_set set1)
  qed
  have "hit_rejected h \<notin> hit_member ` set (recent w ?now (hs @ [h]))" using fresh(2) by (auto simp: recent_def)
  note image_without [OF this]
  then have kept: "zset key (zrem ops key (hit_rejected h) ?st3) = zset key ?st3" by (simp add: zrem_set set3)
  have run: "serve_one ops key w n b h st = (int (length (recent w ?now (hs @ [h]))) \<le> n + b,
      if int (length (recent w ?now (hs @ [h]))) \<le> n + b then ?st3 else zrem ops key (hit_rejected h) ?st3)"
    using counted by (simp add: serve_one_def slidingWindowRateLimit_def Let_def hit_member_def hit_rejected_def)
  show "fst (serve_one ops key w n b h st) \<longleftrightarrow> int (length (recent w ?now (hs @ [h]))) \<le> n + b"
    by (simp add: run)
  show "tracks key w ?now (hs @ [h]) (snd (serve_one ops key w n b h st))"
    using set3 kept by (simp add: run tracks_def)
qed

lemma serve_exact:
  assumes "tracks key w prev past st" and "0 < w" and "sorted (prev # map fst hs)"
    and "\<forall>x \<in> set past. 0 \<le> fst x" and "0 \<le> prev"
    and "distinct (map hit_member (past @ hs))"
    and "hit_rejected ` set hs \<inter> hit_member ` set (past @ hs) = {}"
  shows "fst (serve ops key w n b hs st) =
    map (\<lambda>i. int (length (recent w (fst (hs ! i)) (past @ take (Suc i) hs))) \<le> n + b) [0..<length hs]"
  using assms(1,3-)
proof (induction hs arbitrary: past prev st)
  case (Cons h hs)
  have fresh: "hit_member h \<notin> hit_member ` set past" "hit_rejected h \<notin> hit_member ` set (past @ [h])"
    and dist: "distinct (map hit_member past)"
    using Cons.prems(5,6) by auto
  note one = serve_one_step [OF Cons.prems(1) _ Cons.prems(3) assms(2) fresh dist, of n b]
  let ?st = "snd (serve_one ops key w n b h st)"
  have ok: "prev \<le> fst h" using Cons.prems(2) by simp
  have "fst (serve ops key w n b hs ?st) =
      map (\<lambda>i. int (length (recent w (fst (hs ! i)) ((past @ [h]) @ take (Suc i) hs))) \<le> n + b) [0..<length hs]"
  proof (rule Cons.IH)
    show "tracks key w (fst h) (past @ [h]) ?st" by (rule one(2) [OF ok])
    show "sorted (fst h # map fst hs)" "distinct (map hit_member ((past @ [h]) @ hs))"
      using Cons.prems(2,5) by simp_all
    show "0 \<le> fst h" "\<forall>x \<in> set (past @ [h]). 0 \<le> fst x" using Cons.prems(3,4) ok by auto
    show "hit_rejected ` set hs \<inter> hit_member ` set ((past @ [h]) @ hs) = {}" using Cons.prems(6) by auto
  qed
  moreover have "[0..<length (h # hs)] = 0 # map Suc [0..<length hs]"
    by (simp add: map_Suc_upt upt_conv_Cons del: upt_Suc)
  ultimately show ?case
    using one(1) [OF ok] by (simp add: case_prod_beta del: upt_Suc)
qed simp

end

subsection \<open>Safety of the limiter\<close>

definition hits_ok :: "hit list \<Rightarrow> bool" where
  "hits_ok hs \<longleftrightarrow> sorted (map fst hs) \<and> (\<forall>h \<in> set hs. 0 \<le> fst h) \<and> distinct (map hit_member hs) \<and>
     hit_rejected ` set hs \<inter> hit_member ` set hs = {}"

lemma serve_from_empty:
  assumes "sorted_sets ops zset" and "zset key st = {}" and "0 < w" and "hits_ok hs"
  shows "fst (serve ops key w n b hs st) =
    map (\<lambda>i. int (length (recent w (fst (hs ! i)) (take (Suc i) hs))) \<le> n + b) [0..<length hs]"
proof -
  have "sorted (0 # map fst hs)" using assms(4) by (auto simp: hits_ok_def)
  moreover have "sorted_sets.tracks zset key w 0 [] st"
    by (simp add: sorted_sets.tracks_def [OF assms(1)] assms(2) recent_def)
  ultimately show ?thesis
    using sorted_sets.serve_exact [OF assms(1), of key w 0 "[]" st hs n b] assms(3,4) by (simp add: hits_ok_def)
qed

lemma limiter_iff:
  assumes "sorted_sets ops zset" and "zset key st = {}" and "0 < w" and "hits_ok hs" and "i < length hs"
  shows "fst (serve ops key w n b hs st) ! i \<longleftrightarrow>
    int (length (filter (\<lambda>h. fst (hs ! i) - w < fst h) (take (Suc i) hs))) \<le> n + b"
  using serve_from_empty [OF assms(1-4), of n b] assms(5) by (simp add: recent_def)

text \<open>
  A request is let through exactly when, itself included, at most \<open>maxRequests\<close>
  plus the burst requests came in the window that ends with it, and refused requests count like
  the others, because the member removed for a refusal is never the one that was added. A client
  that keeps asking faster than the limit is therefore refused for as long as it goes on.
\<close>

lemma limiter_counts_every_request:
  assumes "sorted_sets ops zset" and "zset key st = {}" and "0 < w" and "hits_ok hs" and "i < length hs"
  shows "fst (serve ops key w n b hs st) ! i \<longleftrightarrow>
    int (length (filter (\<lambda>h. fst (hs ! i) - w < fst h) (take (Suc i) hs))) \<le> n + b"
  using assms by (rule limiter_iff)

text \<open>The requests answered alone: at most \<open>maxRequests\<close> plus the burst in any window.\<close>

lemma served_in_window:
  assumes "sorted_sets ops zset" and "zset key st = {}" and "0 < w" and "hits_ok hs" and "0 \<le> n + b"
  shows "int (card {i. i < length hs \<and> fst (serve ops key w n b hs st) ! i \<and>
      a < fst (hs ! i) \<and> fst (hs ! i) \<le> a + w}) \<le> n + b"
proof (cases "{i. i < length hs \<and> fst (serve ops key w n b hs st) ! i \<and> a < fst (hs ! i) \<and> fst (hs ! i) \<le> a + w} = {}")
  case False
  let ?S = "{i. i < length hs \<and> fst (serve ops key w n b hs st) ! i \<and> a < fst (hs ! i) \<and> fst (hs ! i) \<le> a + w}"
  have fin: "finite ?S" by simp
  define l where "l = Max ?S"
  have l: "l \<in> ?S" unfolding l_def by (rule Max_in [OF fin False])
  let ?R = "{i. i < length (take (Suc l) hs) \<and> fst (hs ! l) - w < fst (take (Suc l) hs ! i)}"
  have "?S \<subseteq> ?R"
  proof
    fix i assume i: "i \<in> ?S"
    then have "i \<le> l" unfolding l_def by (rule Max_ge [OF fin])
    with i l show "i \<in> ?R" by auto
  qed
  then have "card ?S \<le> card ?R" by (intro card_mono) simp_all
  also have "card ?R = length (filter (\<lambda>h. fst (hs ! l) - w < fst h) (take (Suc l) hs))"
    by (simp only: length_filter_conv_card)
  finally have "int (card ?S) \<le> int (length (filter (\<lambda>h. fst (hs ! l) - w < fst h) (take (Suc l) hs)))" by simp
  also have "\<dots> \<le> n + b"
    using limiter_iff [OF assms(1-4), of l n b] l by simp
  finally show ?thesis .
next
  case True
  show ?thesis unfolding True using assms(5) by simp
qed

subsection \<open>Traffic on many keys\<close>

text \<open>A call of the service: a request is checked, the status of a key is asked, a key is reset.\<close>

datatype limiter_call =
    Check string rate_limit_config hit
  | Status string "string option" time
  | Reset string "string option"

fun call_key :: "limiter_call \<Rightarrow> string" where
  "call_key (Check k c h) = k"
| "call_key (Status i e now) = generateKey i e"
| "call_key (Reset i e) = generateKey i e"

text \<open>What a call answers (a request is let through unless the limiter answers that it is refused)
  and the store it leaves.\<close>

fun call_limiter :: "'r redis \<Rightarrow> limiter_call \<Rightarrow> 'r \<Rightarrow> bool \<times> 'r" where
  "call_limiter ops (Check k c h) st =
     (case slidingWindowRateLimit ops (fst h) (fst (snd h)) (snd (snd h)) k c st of
        (Inl e, st) \<Rightarrow> (True, st)
      | (Inr res, st) \<Rightarrow> (rr_success res, st))"
| "call_limiter ops (Status i e now) st = (True, snd (getRateLimitStatus ops now i e st))"
| "call_limiter ops (Reset i e) st = (True, resetRateLimit ops i e st)"

text \<open>The requests of a key that a run of calls lets through.\<close>

fun let_through :: "'r redis \<Rightarrow> string \<Rightarrow> limiter_call list \<Rightarrow> 'r \<Rightarrow> hit list" where
  "let_through ops key [] st = []"
| "let_through ops key (c # cs) st =
     (let (ok, st) = call_limiter ops c st; rest = let_through ops key cs st
      in case c of Check k cfg h \<Rightarrow> if k = key \<and> ok then h # rest else rest | _ \<Rightarrow> rest)"

context sorted_sets
begin

text \<open>A call on another key leaves the set of this one alone, whatever its configuration.\<close>

lemma other_key: "call_key c \<noteq> key \<Longrightarrow> zset key (snd (call_limiter ops c st)) = zset key st"
  by (cases c) (auto simp: slidingWindowRateLimit_def getRateLimitStatus_def resetRateLimit_def Let_def
      zremrange_set zadd_set expire_set zrem_set del_set split: option.split)

lemma own_key: "call_limiter ops (Check key \<lparr>rl_windowMs = Some w, rl_maxRequests = Some n, rl_burstAllowance = Some b\<rparr> h) =
    serve_one ops key w n b h"
  by (simp add: serve_one_def fun_eq_iff)

text \<open>An answer and the next set depend on the set of the key alone.\<close>

lemma serve_one_cong:
  assumes "zset key st = zset key st'"
  shows "fst (serve_one ops key w n b h st) = fst (serve_one ops key w n b h st')"
    and "zset key (snd (serve_one ops key w n b h st)) = zset key (snd (serve_one ops key w n b h st'))"
  using assms by (simp_all add: serve_one_def slidingWindowRateLimit_def Let_def
      zremrange_set zadd_set expire_set zrem_set zcard_set)

lemma let_through_alone:
  assumes "zset key st = zset key st'"
    and "filter (\<lambda>c. call_key c = key) calls =
      map (Check key \<lparr>rl_windowMs = Some w, rl_maxRequests = Some n, rl_burstAllowance = Some b\<rparr>) hs"
  shows "let_through ops key calls st = map fst (filter snd (zip hs (fst (serve ops key w n b hs st'))))"
  using assms
proof (induction calls arbitrary: hs st st')
  case (Cons c calls)
  show ?case
  proof (cases "call_key c = key")
    case True
    then obtain h hs' where hs: "hs = h # hs'"
      and c: "c = Check key \<lparr>rl_windowMs = Some w, rl_maxRequests = Some n, rl_burstAllowance = Some b\<rparr> h"
      and rest: "filter (\<lambda>c. call_key c = key) calls =
        map (Check key \<lparr>rl_windowMs = Some w, rl_maxRequests = Some n, rl_burstAllowance = Some b\<rparr>) hs'"
      using Cons.prems(2) by (cases hs) auto
    note same = serve_one_cong [OF Cons.prems(1), of w n b h]
    show ?thesis
      using Cons.IH [OF same(2) rest] same(1)
      by (simp add: hs c own_key case_prod_beta Let_def del: call_limiter.simps)
  next
    case False
    then have "let_through ops key (c # calls) st = let_through ops key calls (snd (call_limiter ops c st))"
      by (cases c) (simp_all add: case_prod_beta Let_def del: call_limiter.simps)
    moreover have "zset key (snd (call_limiter ops c st)) = zset key st'"
      using other_key [OF False] Cons.prems(1) by simp
    ultimately show ?thesis using Cons.IH [of _ st' hs] Cons.prems(2) False by simp
  qed
qed simp

end

lemma length_serve [simp]: "length (fst (serve ops key w n b hs st)) = length hs"
  by (induction hs arbitrary: st) (simp_all add: case_prod_beta)

lemma length_chosen:
  assumes "length bs = length xs"
  shows "length (filter P (map fst (filter snd (zip xs bs)))) = card {i. i < length xs \<and> bs ! i \<and> P (xs ! i)}"
proof -
  have "length (filter P (map fst (filter snd (zip xs bs)))) = length (filter (\<lambda>x. snd x \<and> P (fst x)) (zip xs bs))"
    by (simp add: filter_map o_def conj_commute)
  also have "\<dots> = card {i. i < length (zip xs bs) \<and> snd (zip xs bs ! i) \<and> P (fst (zip xs bs ! i))}"
    by (rule length_filter_conv_card)
  also have "{i. i < length (zip xs bs) \<and> snd (zip xs bs ! i) \<and> P (fst (zip xs bs ! i))} =
      {i. i < length xs \<and> bs ! i \<and> P (xs ! i)}"
    using assms by auto
  finally show ?thesis .
qed

text \<open>
  Property C7: take any run of checks, status queries and resets on any keys in which a key is
  only ever checked, with one configuration (window \<open>w\<close>, \<open>maxRequests\<close> \<open>n\<close>, burst \<open>b\<close>), at times
  that do not go back, with no status query and no reset of that key (a status query does make
  the limiter forget), on a Redis that answers and whose set of the key is empty at first, where
  no two of the key's requests get the same member text and the text drawn to remove a refused
  request is none of them. Then in no stretch of time of length \<open>w\<close>, wherever it starts, are more than
  \<open>n + b\<close> requests of the key let through, however the other keys are used in between.
\<close>

theorem limiter_bounds_every_window:
  assumes "sorted_sets ops zset" and "zset key st = {}" and "0 < w" and "hits_ok hs" and "0 \<le> n + b"
    and "filter (\<lambda>c. call_key c = key) calls =
      map (Check key \<lparr>rl_windowMs = Some w, rl_maxRequests = Some n, rl_burstAllowance = Some b\<rparr>) hs"
  shows "int (length (filter (\<lambda>h. a < fst h \<and> fst h \<le> a + w) (let_through ops key calls st))) \<le> n + b"
  unfolding sorted_sets.let_through_alone [OF assms(1) refl assms(6)] length_chosen [OF length_serve]
  by (rule served_in_window [OF assms(1-5)])

subsection \<open>Limits that are lost\<close>

text \<open>
  A decorator that leaves out the window or the maximum switches the limiter off:
  the guard passes the missing value on as \<open>undefined\<close>, which overrides the configuration of the
  tier and of the endpoint, the check throws and is answered by letting the request through,
  whatever Redis holds.
\<close>

lemma incomplete_options_fail_open:
  assumes "ro_windowMs options = None \<or> ro_maxRequests options = None"
    and "map_of (ro_tierLimits options) (getUserTier request) = None"
  shows "fst (canActivate ops now random random2 rl (Some options) request st) = Inr True"
proof -
  have "rl_windowMs (getRateLimitConfig rl tier endpoint (Some (getEffectiveConfig options (getUserTier request)))) = ro_windowMs options"
    and "rl_maxRequests (getRateLimitConfig rl tier endpoint (Some (getEffectiveConfig options (getUserTier request)))) = ro_maxRequests options"
    for tier endpoint
    using assms(2) by (simp_all add: getRateLimitConfig_def getEffectiveConfig_def spread_def Let_def)
  then show ?thesis
    using assms(1) by (auto simp: canActivate_def checkRateLimit_def slidingWindowRateLimit_def fail_open_def Let_def
        split: option.split)
qed

text \<open>
  Asking for the status of a key removes every request older than one minute, also
  when the window of the endpoint is longer: right after it a login that was refused (five
  requests in fifteen minutes) is let through, since only the requests of the last minute are left.
\<close>

lemma status_query_forgets:
  assumes "sorted_sets ops zset" and "\<forall>x \<in> zset (generateKey identifier endpoint) st. 0 \<le> snd x \<and> snd x \<le> now - 60000"
    and "rl_windowMs config = Some w" and "rl_maxRequests config = Some n" and "1 \<le> n" and "rl_burstAllowance config = None"
  shows "\<exists>res t. slidingWindowRateLimit ops now random random2 (generateKey identifier endpoint) config
      (snd (getRateLimitStatus ops now identifier endpoint st)) = (Inr res, t) \<and> rr_success res \<and> rr_totalHits res = 1"
proof -
  let ?k = "generateKey identifier endpoint" and ?st = "snd (getRateLimitStatus ops now identifier endpoint st)"
  have "zset ?k ?st = {x \<in> zset ?k st. \<not> (0 \<le> snd x \<and> snd x \<le> now - 60000)}"
    by (simp add: getRateLimitStatus_def Let_def sorted_sets.zremrange_set [OF assms(1)])
  then have "zset ?k ?st = {}" using assms(2) by auto
  then have "zcard ops ?k (zremrangebyscore ops ?k 0 (now - w) ?st) = 0"
    by (simp add: sorted_sets.zcard_set [OF assms(1)] sorted_sets.zremrange_set [OF assms(1)])
  then show ?thesis using assms(3-6) by (simp add: slidingWindowRateLimit_def Let_def)
qed

subsection \<open>A store of sorted sets\<close>

text \<open>Redis with one association list per key, which has the laws of \<open>sorted_sets\<close>.\<close>

record redis_store =
  rd_sets :: "string \<Rightarrow> (string \<times> int) list"
  rd_logs :: "int \<Rightarrow> analytics_entry list"
  rd_tiers :: "user_tier \<Rightarrow> rate_limit_config option"
  rd_endpoints :: "(string \<times> rate_limit_config) list"

definition at_key :: "string \<Rightarrow> ((string \<times> int) list \<Rightarrow> (string \<times> int) list) \<Rightarrow> redis_store \<Rightarrow> redis_store" where
  "at_key k f st = st\<lparr>rd_sets := (rd_sets st)(k := f (rd_sets st k))\<rparr>"

definition list_redis :: "redis_store redis" where
  "list_redis = \<lparr>zremrangebyscore = \<lambda>k lo hi. at_key k (filter (\<lambda>x. \<not> (lo \<le> snd x \<and> snd x \<le> hi))),
     zcard = \<lambda>k st. length (remdups (rd_sets st k)),
     zadd = \<lambda>k sc m. at_key k (\<lambda>xs. (m, sc) # filter (\<lambda>x. fst x \<noteq> m) xs),
     zrem = \<lambda>k m. at_key k (filter (\<lambda>x. fst x \<noteq> m)),
     expire_key = \<lambda>k sec st. st, del_key = \<lambda>k. at_key k (\<lambda>_. []),
     lpush = \<lambda>day e st. st\<lparr>rd_logs := (rd_logs st)(day := e # rd_logs st day)\<rparr>, lrange = \<lambda>day st. rd_logs st day,
     set_tier = \<lambda>tier c st. st\<lparr>rd_tiers := (rd_tiers st)(tier := Some c)\<rparr>,
     set_endpoint = \<lambda>e c st. st\<lparr>rd_endpoints := AList.update e c (rd_endpoints st)\<rparr>,
     get_tier = \<lambda>tier st. rd_tiers st tier, endpoint_entries = rd_endpoints\<rparr>"

definition list_zset :: "string \<Rightarrow> redis_store \<Rightarrow> (string \<times> int) set" where
  "list_zset k st = set (rd_sets st k)"

interpretation list_store: sorted_sets list_redis list_zset
  by unfold_locales (auto simp: list_redis_def list_zset_def at_key_def length_remdups_card_conv)

definition empty_redis :: redis_store where
  "empty_redis = \<lparr>rd_sets = \<lambda>_. [], rd_logs = \<lambda>_. [], rd_tiers = \<lambda>_. None, rd_endpoints = []\<rparr>"

definition sample_hits :: "hit list" where
  "sample_hits = [(0, ''a'', ''z''), (1, ''b'', ''z''), (2, ''c'', ''z'')]"

lemma sample_member_texts: "hit_member (0, ''a'', ''z'') = int_text 0 @ ''-a''" "hit_rejected (0, ''a'', ''z'') = int_text 0 @ ''-z''"
  by (simp_all add: hit_member_def hit_rejected_def member_text_def)

text \<open>Members end in their random text.\<close>

lemma last_member: "last (hit_member (t, [c], [d])) = c" "last (hit_rejected (t, [c], [d])) = d"
  by (simp_all add: hit_member_def hit_rejected_def member_text_def)

lemma sample_hits_ok: "hits_ok sample_hits"
proof -
  have "hit_member (t, [c], [d]) \<noteq> hit_member (t', [c'], [d'])" if "c \<noteq> c'" for t c d t' c' d'
    using that last_member by metis
  moreover have "hit_rejected (t, [c], [d]) \<noteq> hit_member (t', [c'], [d'])" if "d \<noteq> c'" for t c d t' c' d'
    using that last_member by metis
  ultimately show ?thesis by (simp add: hits_ok_def sample_hits_def)
qed

lemma sample_redis_empty: "list_zset key empty_redis = {}"
  by (simp add: list_zset_def empty_redis_def)

theorem limiter_counts_every_request_witness:
  "fst (serve list_redis ''k'' 1000 2 0 sample_hits empty_redis) ! 1 \<and>
   \<not> fst (serve list_redis ''k'' 1000 2 0 sample_hits empty_redis) ! 2"
  using limiter_counts_every_request [OF list_store.sorted_sets_axioms sample_redis_empty _ sample_hits_ok, of 1000 1 "''k''" 2 0]
    limiter_counts_every_request [OF list_store.sorted_sets_axioms sample_redis_empty _ sample_hits_ok, of 1000 2 "''k''" 2 0]
  by (simp add: sample_hits_def numeral_2_eq_2)

text \<open>Two requests a second for key \<open>k\<close>; a status query and a request of another key come in between.\<close>

definition sample_calls :: "limiter_call list" where
  "sample_calls = (let c = \<lparr>rl_windowMs = Some 1000, rl_maxRequests = Some 2, rl_burstAllowance = Some 0\<rparr> in
     [Check ''k'' c (0, ''a'', ''z''), Status ''9.9.9.9'' None 0, Check ''k'' c (1, ''b'', ''z''),
      Check ''j'' (c\<lparr>rl_windowMs := None\<rparr>) (1, ''q'', ''z''), Check ''k'' c (2, ''c'', ''z'')])"

theorem limiter_bounds_every_window_witness:
  "int (length (filter (\<lambda>h. - 1 < fst h \<and> fst h \<le> 999) (let_through list_redis ''k'' sample_calls empty_redis))) \<le> 2"
proof -
  have "filter (\<lambda>c. call_key c = ''k'') sample_calls =
      map (Check ''k'' \<lparr>rl_windowMs = Some 1000, rl_maxRequests = Some 2, rl_burstAllowance = Some 0\<rparr>) sample_hits"
    by (simp add: sample_calls_def sample_hits_def Let_def generateKey_def)
  from limiter_bounds_every_window [OF list_store.sorted_sets_axioms sample_redis_empty _ sample_hits_ok _ this, of "- 1"]
  show ?thesis by simp
qed

definition sample_request :: http_request where
  "sample_request = \<lparr>hr_user = None, hr_forwarded = Some ''9.9.9.9, 10.0.0.1'', hr_realIp = None, hr_cfConnectingIp = None,
     hr_connectionAddress = None, hr_socketAddress = None, hr_routePath = Some ''/api/auth/login'', hr_path = ''/''\<rparr>"

definition sample_options :: rate_limit_options where
  "sample_options = \<lparr>ro_windowMs = None, ro_maxRequests = Some 1, ro_burstAllowance = None, ro_keyGenerator = None,
     ro_tierLimits = [], ro_message = None, ro_enabled = None\<rparr>"

theorem incomplete_options_fail_open_witness:
  "fst (canActivate list_redis 5 ''a'' ''b'' default_limiter (Some sample_options) sample_request empty_redis) = Inr True"
  by (rule incomplete_options_fail_open) (simp_all add: sample_options_def)

definition old_logins :: redis_store where
  "old_logins = empty_redis\<lparr>rd_sets := (\<lambda>_. [(''1'', 1), (''2'', 2), (''3'', 3), (''4'', 4), (''5'', 5)])\<rparr>"

theorem status_query_forgets_witness:
  "\<exists>res t. slidingWindowRateLimit list_redis 70000 ''a'' ''b'' (generateKey ''ip'' (Some ''/api/auth/login''))
      \<lparr>rl_windowMs = Some 900000, rl_maxRequests = Some 5, rl_burstAllowance = None\<rparr>
      (snd (getRateLimitStatus list_redis 70000 ''ip'' (Some ''/api/auth/login'') old_logins)) = (Inr res, t) \<and> rr_success res"
proof -
  have "\<forall>x \<in> list_zset (generateKey ''ip'' (Some ''/api/auth/login'')) old_logins. 0 \<le> snd x \<and> snd x \<le> 70000 - 60000"
    by (simp add: list_zset_def old_logins_def)
  then have "\<exists>res t. slidingWindowRateLimit list_redis 70000 ''a'' ''b'' (generateKey ''ip'' (Some ''/api/auth/login''))
      \<lparr>rl_windowMs = Some 900000, rl_maxRequests = Some 5, rl_burstAllowance = None\<rparr>
      (snd (getRateLimitStatus list_redis 70000 ''ip'' (Some ''/api/auth/login'') old_logins)) = (Inr res, t) \<and>
      rr_success res \<and> rr_totalHits res = 1"
    by (intro status_query_forgets [OF list_store.sorted_sets_axioms, where w = 900000 and n = 5]) simp_all
  then show ?thesis by blast
qed

end
