(* ===== verification/Calendar.thy ===== *)
theory Calendar
  imports Prelude
begin

text \<open>
  The methods of a JavaScript \<open>Date\<close> that the services use to move a date: \<open>setMonth\<close>,
  \<open>setFullYear\<close> and \<open>setDate\<close>, with the roll-over of days that a month does not have. The
  calendar is the proleptic Gregorian one and the time zone of the process is UTC. Months are
  counted from January of year 0, so that the month \<open>12 * y + m\<close> is month \<open>m\<close> (from 0) of year
  \<open>y\<close>; days are counted from 1970-01-01.
\<close>

subsection \<open>Days and months\<close>

text \<open>The day before the first of a month: years of the formula begin in March, so that the
  leap day is their last one.\<close>

definition year_days :: "int \<Rightarrow> int" where
  "year_days a = 365 * a + a div 4 - a div 100 + a div 400"

definition first_of_month :: "int \<Rightarrow> int" where
  "first_of_month n = year_days ((n - 2) div 12) + (153 * ((n - 2) mod 12) + 2) div 5 - 719468"

definition leap :: "int \<Rightarrow> bool" where
  "leap y \<longleftrightarrow> 4 dvd y \<and> (100 dvd y \<longrightarrow> 400 dvd y)"

text \<open>The month and the day of the month (from 1) of a day.\<close>

definition civil :: "int \<Rightarrow> int \<times> int" where
  "civil z =
     (let w = z + 719468; era = w div 146097; doe = w mod 146097;
          c = min 3 (doe div 36524); r1 = doe - 36524 * c;
          q = r1 div 1461; r2 = r1 - 1461 * q;
          a = min 3 (r2 div 365); doy = r2 - 365 * a;
          year = 400 * era + 100 * c + 4 * q + a;
          mp = (5 * doy + 2) div 153
      in (12 * year + mp + 2, doy - (153 * mp + 2) div 5 + 1))"

lemma quotient:
  fixes r k :: int
  assumes "0 < k"
  shows "k * (r div k) \<le> r" "r < k * (r div k) + k"
  using assms mult_div_mod_eq [of k r] pos_mod_bound [of k r] pos_mod_sign [of k r] by linarith+

lemma quotient_eq: "b * q \<le> a \<Longrightarrow> a < b * q + b \<Longrightarrow> a div b = q" for a b q :: int
  by (rule int_div_pos_eq [of _ _ _ "a - b * q"]) simp_all

lemma capped_quotient:
  fixes r k :: int
  assumes "0 < k" "0 \<le> r" "r \<le> 4 * k"
  defines "c \<equiv> min 3 (r div k)"
  shows "0 \<le> c" "c \<le> 3" "0 \<le> r - k * c" "r - k * c \<le> k"
proof -
  have pos: "0 \<le> r div k" using assms(1,2) by (simp add: pos_imp_zdiv_nonneg_iff)
  show "0 \<le> c" "c \<le> 3" using pos by (simp_all add: c_def)
  consider "c = r div k" | "c = 3" "3 \<le> r div k" by (cases "3 \<le> r div k") (simp_all add: c_def)
  then have "0 \<le> r - k * c \<and> r - k * c \<le> k"
  proof cases
    case 1
    then show ?thesis using quotient [OF assms(1), of r] by simp_all
  next
    case 2
    have "k * 3 \<le> k * (r div k)" using assms(1) 2(2) by simp
    then have "k * 3 \<le> r" using quotient(1) [OF assms(1), of r] by linarith
    then show ?thesis using assms(3) 2(1) by simp
  qed
  then show "0 \<le> r - k * c" "r - k * c \<le> k" by simp_all
qed

lemma year_days_parts:
  assumes "0 \<le> c" "c \<le> 3" "0 \<le> q" "q \<le> 24" "0 \<le> a" "a \<le> 3"
  shows "year_days (400 * era + 100 * c + 4 * q + a) = 146097 * era + 36524 * c + 1461 * q + 365 * a"
proof -
  let ?y = "400 * era + 100 * c + 4 * q + a"
  have d4: "?y div 4 = 100 * era + 25 * c + q" using assms by (intro quotient_eq; simp)
  have d100: "?y div 100 = 4 * era + c" using assms by (intro quotient_eq; simp)
  have d400: "?y div 400 = era" using assms by (intro quotient_eq; simp)
  show ?thesis unfolding year_days_def d4 d100 d400 by (simp add: algebra_simps)
qed

lemma first_of_month_parts:
  assumes "0 \<le> p" "p < 12"
  shows "first_of_month (12 * a + p + 2) = year_days a + (153 * p + 2) div 5 - 719468"
proof -
  have "(12 * a + p) div 12 = a" "(12 * a + p) mod 12 = p" using assms by simp_all
  then show ?thesis by (simp add: first_of_month_def)
qed

text \<open>The two directions agree: a day is the day it is called in its month.\<close>

lemma civil_first: "civil z = (n, d) \<Longrightarrow> first_of_month n + d - 1 = z"
proof -
  assume civil: "civil z = (n, d)"
  define era where "era = (z + 719468) div 146097"
  define doe where "doe = (z + 719468) mod 146097"
  define c where "c = min 3 (doe div 36524)"
  define r1 where "r1 = doe - 36524 * c"
  define q where "q = r1 div 1461"
  define r2 where "r2 = r1 - 1461 * q"
  define a where "a = min 3 (r2 div 365)"
  define doy where "doy = r2 - 365 * a"
  define mp where "mp = (5 * doy + 2) div 153"
  have nd: "n = 12 * (400 * era + 100 * c + 4 * q + a) + mp + 2" "d = doy - (153 * mp + 2) div 5 + 1"
    using civil unfolding civil_def Let_def era_def [symmetric] doe_def [symmetric] c_def [symmetric] r1_def [symmetric]
      q_def [symmetric] r2_def [symmetric] a_def [symmetric] doy_def [symmetric] mp_def [symmetric] prod.inject
    by (simp_all only: simp_thms)
  have doe: "0 \<le> doe" "doe < 146097" by (simp_all add: doe_def)
  have c: "0 \<le> c" "c \<le> 3" "0 \<le> r1" "r1 \<le> 36524"
    using capped_quotient [of 36524 doe, folded c_def, folded r1_def] doe by simp_all
  have q: "0 \<le> q" "q \<le> 24" "0 \<le> r2" "r2 \<le> 1460"
    using quotient [of 1461 r1, folded q_def] c(3,4) unfolding r2_def by simp_all
  have a: "0 \<le> a" "a \<le> 3" "0 \<le> doy" "doy \<le> 365"
    using capped_quotient [of 365 r2, folded a_def, folded doy_def] q(3,4) by simp_all
  have "153 * mp \<le> 5 * doy + 2" "5 * doy + 2 < 153 * mp + 153" using quotient [of 153 "5 * doy + 2", folded mp_def] by simp_all
  then have mp: "0 \<le> mp" "mp \<le> 11" using a(3,4) by linarith+
  have "z + 719468 = 146097 * era + doe" by (simp add: era_def doe_def)
  then have "z + 719468 = 146097 * era + 36524 * c + 1461 * q + 365 * a + doy"
    by (simp add: doy_def r2_def r1_def)
  then show ?thesis
    using first_of_month_parts [of mp "400 * era + 100 * c + 4 * q + a"] mp nd
      year_days_parts [OF c(1,2) q(1,2) a(1,2)] by simp
qed

text \<open>The length of a month.\<close>

definition month_days :: "int \<Rightarrow> int" where
  "month_days n = (let m = n mod 12 in
     if m = 1 then (if leap (n div 12) then 29 else 28) else if m \<in> {3, 5, 8, 10} then 30 else 31)"

lemma year_days_step: "year_days a - year_days (a - 1) = (if leap a then 366 else 365)"
proof -
  have step: "a div k - (a - 1) div k = (if k dvd a then 1 else 0)" if "0 < k" for k :: int
  proof (cases "k dvd a")
    case True
    then obtain b where b: "a = k * b" by (elim dvdE)
    have "(a - 1) div k = b - 1" by (rule quotient_eq) (use b that in \<open>auto simp: algebra_simps\<close>)
    then show ?thesis using True b that by simp
  next
    case False
    then have "a \<noteq> k * (a div k)" by (metis dvd_triv_left)
    then have "(a - 1) div k = a div k"
      using quotient [OF that, of a] by (intro quotient_eq) auto
    then show ?thesis using False by simp
  qed
  have "4 dvd a" if "100 dvd a" using that by (rule dvd_trans [rotated]) simp
  moreover have "100 dvd a" if "400 dvd a" using that by (rule dvd_trans [rotated]) simp
  moreover have "365 * a + x4 - x100 + x400 - (365 * (a - 1) + y4 - y100 + y400) = (if P4 \<and> (P100 \<longrightarrow> P400) then 366 else 365)"
    if "x4 - y4 = (if P4 then 1 else 0)" "x100 - y100 = (if P100 then 1 else 0)" "x400 - y400 = (if P400 then 1 else 0)"
      "P100 \<Longrightarrow> P4" "P400 \<Longrightarrow> P100" for x4 y4 x100 y100 x400 y400 :: int and P4 P100 P400
    using that by (auto split: if_splits)
  ultimately show ?thesis
    unfolding year_days_def leap_def using step by simp
qed

lemma small_int_cases:
  "0 \<le> p \<Longrightarrow> p < 12 \<Longrightarrow> p = 0 \<or> p = 1 \<or> p = 2 \<or> p = 3 \<or> p = 4 \<or> p = 5 \<or> p = 6 \<or> p = 7 \<or> p = 8
     \<or> p = 9 \<or> p = 10 \<or> p = (11 :: int)"
  by presburger

lemma month_cases:
  obtains a p where "n = 12 * a + p + 2"
    and "p = 0 \<or> p = 1 \<or> p = 2 \<or> p = 3 \<or> p = 4 \<or> p = 5 \<or> p = 6 \<or> p = 7 \<or> p = 8 \<or> p = 9 \<or> p = 10 \<or> p = (11 :: int)"
proof -
  have "n = 12 * ((n - 2) div 12) + (n - 2) mod 12 + 2" by simp
  moreover have "0 \<le> (n - 2) mod 12" "(n - 2) mod 12 < 12" by simp_all
  ultimately show thesis using that small_int_cases by blast
qed

lemma month_length: "first_of_month (n + 1) - first_of_month n = month_days n"
proof -
  obtain a p where n: "n = 12 * a + p + 2" and
    p: "p = 0 \<or> p = 1 \<or> p = 2 \<or> p = 3 \<or> p = 4 \<or> p = 5 \<or> p = 6 \<or> p = 7 \<or> p = 8 \<or> p = 9 \<or> p = 10 \<or> p = 11"
    by (rule month_cases)
  show ?thesis
  proof (cases "p = 11")
    case True
    then have "n + 1 = 12 * (a + 1) + 0 + 2" "n = 12 * a + 11 + 2" "n mod 12 = 1" "n div 12 = a + 1"
      unfolding n by simp_all
    then show ?thesis
      using first_of_month_parts [of 0 "a + 1"] first_of_month_parts [of 11 a] year_days_step [of "a + 1"]
      by (simp add: month_days_def)
  next
    case False
    then have "n + 1 = 12 * a + (p + 1) + 2" "0 \<le> p" "p < 11" using n p by auto
    then have "first_of_month (n + 1) - first_of_month n = (153 * (p + 1) + 2) div 5 - (153 * p + 2) div 5"
      using first_of_month_parts [of "p + 1" a] first_of_month_parts [of p a] n by simp
    also have "\<dots> = month_days n"
      using p False unfolding n by (elim disjE) (simp_all add: month_days_def)
    finally show ?thesis .
  qed
qed

subsection \<open>Dates\<close>

definition day_ms :: int where
  "day_ms = 86400000"

definition getFullYear :: "time \<Rightarrow> int" where
  "getFullYear t = fst (civil (t div day_ms)) div 12"

definition getMonth :: "time \<Rightarrow> int" where
  "getMonth t = fst (civil (t div day_ms)) mod 12"

definition getDate :: "time \<Rightarrow> int" where
  "getDate t = snd (civil (t div day_ms))"

text \<open>The date with the given year, month and day, which may lie outside their ranges, at the
  time of the day of \<open>t\<close>.\<close>

definition make_date :: "int \<Rightarrow> int \<Rightarrow> int \<Rightarrow> time \<Rightarrow> time" where
  "make_date year month day t = (first_of_month (12 * year + month) + day - 1) * day_ms + t mod day_ms"

definition setMonth :: "int \<Rightarrow> time \<Rightarrow> time" where
  "setMonth month t = make_date (getFullYear t) month (getDate t) t"

definition setFullYear :: "int \<Rightarrow> time \<Rightarrow> time" where
  "setFullYear year t = make_date year (getMonth t) (getDate t) t"

definition setDate :: "int \<Rightarrow> time \<Rightarrow> time" where
  "setDate day t = make_date (getFullYear t) (getMonth t) day t"

lemma make_date_shift:
  assumes "civil (t div day_ms) = (n, d)"
  shows "make_date y m d t = t + (first_of_month (12 * y + m) - first_of_month n) * day_ms"
proof -
  have d: "d - 1 = t div day_ms - first_of_month n" using civil_first [OF assms] by simp
  have "first_of_month (12 * y + m) + d - 1 = t div day_ms + (first_of_month (12 * y + m) - first_of_month n)"
    using d by simp
  then show ?thesis unfolding make_date_def by (simp only: distrib_right) simp
qed

lemma setMonth_shift:
  "\<exists>n. setMonth (getMonth t + k) t = t + (first_of_month (n + k) - first_of_month n) * day_ms
     \<and> n = 12 * getFullYear t + getMonth t"
proof -
  obtain n d where c: "civil (t div day_ms) = (n, d)" by fastforce
  then have "12 * getFullYear t + (getMonth t + k) = n + k" "n = 12 * getFullYear t + getMonth t" "getDate t = d"
    by (simp_all add: getFullYear_def getMonth_def getDate_def)
  then show ?thesis using make_date_shift [OF c] by (intro exI [of _ n]) (simp add: setMonth_def add.assoc)
qed

lemma setFullYear_shift:
  "setFullYear (getFullYear t + k) t = setMonth (getMonth t + 12 * k) t"
  by (simp add: setFullYear_def setMonth_def make_date_def algebra_simps)

lemma setDate_shift: "setDate (getDate t + k) t = t + k * day_ms"
proof -
  obtain n d where c: "civil (t div day_ms) = (n, d)" by fastforce
  then have "12 * getFullYear t + getMonth t = n" "getDate t = d"
    by (simp_all add: getFullYear_def getMonth_def getDate_def)
  then show ?thesis using make_date_shift [OF c, of "getFullYear t" "getMonth t"]
    by (simp add: setDate_def make_date_def algebra_simps)
qed

lemma month_days_range: "28 \<le> month_days n" "month_days n \<le> 31"
  by (simp_all add: month_days_def Let_def)

lemma one_month: "first_of_month (n + 1) - first_of_month n \<in> {28..31}"
  using month_days_range [of n] by (simp add: month_length)

lemma quarter_days: "first_of_month (n + 3) - first_of_month n \<in> {89..92}"
proof -
  obtain a p where n: "n = 12 * a + p + 2" and
    p: "p = 0 \<or> p = 1 \<or> p = 2 \<or> p = 3 \<or> p = 4 \<or> p = 5 \<or> p = 6 \<or> p = 7 \<or> p = 8 \<or> p = 9 \<or> p = 10 \<or> p = 11"
    by (rule month_cases)
  have "first_of_month (n + 3) - first_of_month n = month_days n + month_days (n + 1) + month_days (n + 2)"
    using month_length [of n] month_length [of "n + 1"] month_length [of "n + 2"] by (simp add: add.assoc)
  also have "\<dots> \<in> {89..92}"
    using p unfolding n by (elim disjE) (simp_all add: month_days_def)
  finally show ?thesis .
qed

lemma year_length: "first_of_month (n + 12) - first_of_month n \<in> {365..366}"
proof -
  obtain a p where n: "n = 12 * a + p + 2" and
    p: "p = 0 \<or> p = 1 \<or> p = 2 \<or> p = 3 \<or> p = 4 \<or> p = 5 \<or> p = 6 \<or> p = 7 \<or> p = 8 \<or> p = 9 \<or> p = 10 \<or> p = 11"
    by (rule month_cases)
  then have "0 \<le> p" "p < 12" by auto
  then show ?thesis
    using first_of_month_parts [of p a] first_of_month_parts [of p "a + 1"] year_days_step [of "a + 1"] n
    by (simp add: algebra_simps split: if_splits)
qed

end
