(* ===== verification/Subscriptions.thy ===== *)
theory Subscriptions
  imports Database Calendar
begin

text \<open>
  Subscriptions of sellers: \<open>SubscriptionsService\<close> (src/src/subscriptions/subscriptions.service.ts),
  the table of tiers (config/subscription-tiers.config.ts and its copy in
  enums/subscription.enums.ts) and \<open>SubscriptionGuard\<close> (guards/subscription.guard.ts). A tier in a
  request is \<open>None\<close> when it is not one of the enumeration. New ids and the clock are parameters.
\<close>

subsection \<open>Tiers\<close>

datatype subscription_tier = TIER_FREE | TIER_BASIC | TIER_PREMIUM

datatype subscription_status = SUB_ACTIVE | SUB_EXPIRED | SUB_CANCELLED | SUB_PENDING | SUB_SUSPENDED

datatype billing_cycle = MONTHLY | QUARTERLY | YEARLY

datatype subscription_feature = MAX_LISTINGS | MAX_IMAGES_PER_LISTING | FEATURED_LISTINGS
  | ANALYTICS_DASHBOARD | BULK_UPLOAD | PRIORITY_SUPPORT | CUSTOM_BRANDING | API_ACCESS
  | ADVANCED_ANALYTICS | VERIFICATION_BADGE

text \<open>The value of a feature in a tier: a number or a boolean.\<close>

datatype limit = Count int | Flag bool

text \<open>The features of a tier are an object; the list keeps the order of its keys.\<close>

type_synonym subscription_limits = "(subscription_feature \<times> limit) list"

record subscription_tier_config =
  tc_tier :: subscription_tier
  tc_name :: string
  tc_description :: string
  tc_monthlyPrice :: number
  tc_yearlyPrice :: number
  tc_features :: subscription_limits
  tc_isActive :: bool
  tc_sortOrder :: int

definition SUBSCRIPTION_TIERS :: "subscription_tier_config list" where
  "SUBSCRIPTION_TIERS =
    [\<lparr>tc_tier = TIER_FREE, tc_name = ''Free'',
      tc_description = ''Perfect for getting started with basic selling features'',
      tc_monthlyPrice = 0, tc_yearlyPrice = 0,
      tc_features =
        [(MAX_LISTINGS, Count 5), (MAX_IMAGES_PER_LISTING, Count 3), (FEATURED_LISTINGS, Count 0),
         (ANALYTICS_DASHBOARD, Flag False), (BULK_UPLOAD, Flag False), (PRIORITY_SUPPORT, Flag False),
         (CUSTOM_BRANDING, Flag False), (API_ACCESS, Flag False), (ADVANCED_ANALYTICS, Flag False),
         (VERIFICATION_BADGE, Flag False)],
      tc_isActive = True, tc_sortOrder = 1\<rparr>,
     \<lparr>tc_tier = TIER_BASIC, tc_name = ''Basic'',
      tc_description = ''Great for growing sellers with expanded features'',
      tc_monthlyPrice = 999 / 100, tc_yearlyPrice = 9999 / 100,
      tc_features =
        [(MAX_LISTINGS, Count 50), (MAX_IMAGES_PER_LISTING, Count 10), (FEATURED_LISTINGS, Count 2),
         (ANALYTICS_DASHBOARD, Flag True), (BULK_UPLOAD, Flag False), (PRIORITY_SUPPORT, Flag False),
         (CUSTOM_BRANDING, Flag False), (API_ACCESS, Flag False), (ADVANCED_ANALYTICS, Flag False),
         (VERIFICATION_BADGE, Flag True)],
      tc_isActive = True, tc_sortOrder = 2\<rparr>,
     \<lparr>tc_tier = TIER_PREMIUM, tc_name = ''Premium'',
      tc_description = ''Complete solution for professional sellers with unlimited possibilities'',
      tc_monthlyPrice = 2999 / 100, tc_yearlyPrice = 29999 / 100,
      tc_features =
        [(MAX_LISTINGS, Count (-1)), (MAX_IMAGES_PER_LISTING, Count 20), (FEATURED_LISTINGS, Count 10),
         (ANALYTICS_DASHBOARD, Flag True), (BULK_UPLOAD, Flag True), (PRIORITY_SUPPORT, Flag True),
         (CUSTOM_BRANDING, Flag True), (API_ACCESS, Flag True), (ADVANCED_ANALYTICS, Flag True),
         (VERIFICATION_BADGE, Flag True)],
      tc_isActive = True, tc_sortOrder = 3\<rparr>]"

definition getTierConfig :: "subscription_tier option \<Rightarrow> subscription_tier_config option" where
  "getTierConfig tier = List.find (\<lambda>config. Some (tc_tier config) = tier) SUBSCRIPTION_TIERS"

definition getAllActiveTiers :: "subscription_tier_config list" where
  "getAllActiveTiers = sort_key tc_sortOrder (filter tc_isActive SUBSCRIPTION_TIERS)"

definition getTierLimits :: "subscription_tier \<Rightarrow> subscription_limits" where
  "getTierLimits tier = (case getTierConfig (Some tier) of None \<Rightarrow> [] | Some config \<Rightarrow> tc_features config)"

definition canUpgrade :: "subscription_tier \<Rightarrow> subscription_tier option \<Rightarrow> bool" where
  "canUpgrade currentTier targetTier =
     (case (getTierConfig (Some currentTier), getTierConfig targetTier) of
        (Some current, Some target) \<Rightarrow> tc_sortOrder target > tc_sortOrder current
      | _ \<Rightarrow> False)"

definition getUpgradePath :: "subscription_tier \<Rightarrow> subscription_tier list" where
  "getUpgradePath currentTier =
     (case getTierConfig (Some currentTier) of
        None \<Rightarrow> []
      | Some current \<Rightarrow> map tc_tier (sort_key tc_sortOrder
          (filter (\<lambda>config. tc_isActive config \<and> tc_sortOrder config > tc_sortOrder current) SUBSCRIPTION_TIERS)))"

text \<open>The copy of the table in the file of the enumerations, which the guard uses.\<close>

definition getTierConfig_enums :: "subscription_tier option \<Rightarrow> subscription_tier_config option" where
  "getTierConfig_enums tier =
     (case tier of
        Some TIER_FREE \<Rightarrow> Some \<lparr>tc_tier = TIER_FREE, tc_name = ''Free'',
          tc_description = ''Perfect for getting started'', tc_monthlyPrice = 0, tc_yearlyPrice = 0,
          tc_features =
            [(MAX_LISTINGS, Count 5), (MAX_IMAGES_PER_LISTING, Count 3), (FEATURED_LISTINGS, Count 0),
             (ANALYTICS_DASHBOARD, Flag False), (BULK_UPLOAD, Flag False), (PRIORITY_SUPPORT, Flag False),
             (CUSTOM_BRANDING, Flag False), (API_ACCESS, Flag False), (ADVANCED_ANALYTICS, Flag False),
             (VERIFICATION_BADGE, Flag False)],
          tc_isActive = True, tc_sortOrder = 1\<rparr>
      | Some TIER_BASIC \<Rightarrow> Some \<lparr>tc_tier = TIER_BASIC, tc_name = ''Basic'',
          tc_description = ''Great for growing sellers'',
          tc_monthlyPrice = 999 / 100, tc_yearlyPrice = 9999 / 100,
          tc_features =
            [(MAX_LISTINGS, Count 50), (MAX_IMAGES_PER_LISTING, Count 10), (FEATURED_LISTINGS, Count 2),
             (ANALYTICS_DASHBOARD, Flag True), (BULK_UPLOAD, Flag False), (PRIORITY_SUPPORT, Flag False),
             (CUSTOM_BRANDING, Flag False), (API_ACCESS, Flag False), (ADVANCED_ANALYTICS, Flag False),
             (VERIFICATION_BADGE, Flag True)],
          tc_isActive = True, tc_sortOrder = 2\<rparr>
      | Some TIER_PREMIUM \<Rightarrow> Some \<lparr>tc_tier = TIER_PREMIUM, tc_name = ''Premium'',
          tc_description = ''Complete solution for professionals'',
          tc_monthlyPrice = 2999 / 100, tc_yearlyPrice = 29999 / 100,
          tc_features =
            [(MAX_LISTINGS, Count (-1)), (MAX_IMAGES_PER_LISTING, Count 20), (FEATURED_LISTINGS, Count 10),
             (ANALYTICS_DASHBOARD, Flag True), (BULK_UPLOAD, Flag True), (PRIORITY_SUPPORT, Flag True),
             (CUSTOM_BRANDING, Flag True), (API_ACCESS, Flag True), (ADVANCED_ANALYTICS, Flag True),
             (VERIFICATION_BADGE, Flag True)],
          tc_isActive = True, tc_sortOrder = 3\<rparr>
      | None \<Rightarrow> None)"

subsection \<open>Rows\<close>

record usage_stats =
  us_currentListings :: int
  us_currentFeaturedListings :: int
  us_totalUploadsThisMonth :: int
  us_lastUsageReset :: time

record subscription =
  sb_id :: uuid
  sb_userId :: int
  sb_tier :: subscription_tier
  sb_status :: subscription_status
  sb_billingCycle :: billing_cycle
  sb_price :: number
  sb_currency :: string
  sb_startsAt :: time
  sb_endsAt :: "time option"
  sb_expiresAt :: time
  sb_lastPaymentAt :: "time option"
  sb_nextBillingAt :: "time option"
  sb_paymentMethodToken :: "string option"
  sb_paymentProvider :: "string option"
  sb_autoRenew :: bool
  sb_cancellationReason :: "string option"
  sb_cancelledAt :: "time option"
  sb_usage :: "usage_stats option"
  sb_createdAt :: time

text \<open>The columns of the users table the service writes, and of the listings it counts (a listing
  that was deleted softly is no row here).\<close>

record user_row =
  u_id :: int
  u_subscriptionTier :: subscription_tier
  u_subscriptionStatus :: "subscription_status option"
  u_subscriptionExpiresAt :: "time option"
  u_hasPremiumSubscription :: bool

record owned_listing =
  ol_userId :: string
  ol_isFeatured :: bool

record sub_db =
  subs :: "subscription list"
  users :: "user_row list"
  owned :: "owned_listing list"

record create_subscription_dto =
  cs_tier :: "subscription_tier option"
  cs_billingCycle :: "billing_cycle option"
  cs_paymentMethodToken :: "string option"
  cs_paymentProvider :: "string option"
  cs_autoRenew :: "bool option"

record upgrade_subscription_dto =
  up_targetTier :: "subscription_tier option"
  up_billingCycle :: "billing_cycle option"
  up_paymentMethodToken :: "string option"

record usage_stats_dto =
  ud_currentListings :: int
  ud_maxListings :: "limit option"
  ud_currentFeaturedListings :: int
  ud_maxFeaturedListings :: "limit option"
  ud_currentImagesPerListing :: int
  ud_maxImagesPerListing :: "limit option"
  ud_usedFeatures :: "subscription_feature list"
  ud_availableFeatures :: "subscription_feature list"

text \<open>The price is a \<open>decimal(10, 2)\<close> column; the entity in memory keeps the unrounded number.\<close>

definition save_sub :: "subscription \<Rightarrow> sub_db \<Rightarrow> sub_db" where
  "save_sub r s = s\<lparr>subs := tbl_save sb_id (r\<lparr>sb_price := round_to 2 (sb_price r)\<rparr>) (subs s)\<rparr>"

subsection \<open>Private helpers of the service\<close>

text \<open>By \<open>createdAt\<close>, latest first; of rows created in the same instant, one of them.\<close>

definition getActiveSubscription :: "int \<Rightarrow> sub_db \<Rightarrow> subscription option" where
  "getActiveSubscription userId s =
     (case sort_key (\<lambda>r. - sb_createdAt r)
         (filter (\<lambda>r. sb_userId r = userId \<and> sb_status r = SUB_ACTIVE) (subs s)) of
        [] \<Rightarrow> None | r # _ \<Rightarrow> Some r)"

definition updateUserSubscriptionStatus :: "int \<Rightarrow> subscription \<Rightarrow> sub_db \<Rightarrow> sub_db" where
  "updateUserSubscriptionStatus userId r s =
     (let hasPremium = sb_tier r \<noteq> TIER_FREE \<and> sb_status r = SUB_ACTIVE
      in s\<lparr>users := map (\<lambda>u. if u_id u = userId
            then u\<lparr>u_subscriptionTier := sb_tier r, u_subscriptionStatus := Some (sb_status r),
                   u_subscriptionExpiresAt := Some (sb_expiresAt r), u_hasPremiumSubscription := hasPremium\<rparr>
            else u) (users s)\<rparr>)"

text \<open>A cycle the request leaves out is \<open>undefined\<close> and reaches the \<open>default\<close> branch, or none.\<close>

definition calculatePrice :: "subscription_tier_config \<Rightarrow> billing_cycle option \<Rightarrow> number" where
  "calculatePrice tierConfig billingCycle =
     (case billingCycle of
        Some MONTHLY \<Rightarrow> tc_monthlyPrice tierConfig
      | Some YEARLY \<Rightarrow> tc_yearlyPrice tierConfig
      | Some QUARTERLY \<Rightarrow> tc_monthlyPrice tierConfig * 3 * (9 / 10)
      | None \<Rightarrow> tc_monthlyPrice tierConfig)"

definition calculateEndDate :: "time \<Rightarrow> billing_cycle option \<Rightarrow> time" where
  "calculateEndDate startDate billingCycle =
     (case billingCycle of
        Some MONTHLY \<Rightarrow> setMonth (getMonth startDate + 1) startDate
      | Some QUARTERLY \<Rightarrow> setMonth (getMonth startDate + 3) startDate
      | Some YEARLY \<Rightarrow> setFullYear (getFullYear startDate + 1) startDate
      | None \<Rightarrow> startDate)"

definition count_listings :: "int \<Rightarrow> sub_db \<Rightarrow> int" where
  "count_listings userId s = int (length (filter (\<lambda>l. ol_userId l = int_text userId) (owned s)))"

definition count_featured :: "int \<Rightarrow> sub_db \<Rightarrow> int" where
  "count_featured userId s =
     int (length (filter (\<lambda>l. ol_userId l = int_text userId \<and> ol_isFeatured l) (owned s)))"

definition getCurrentUsage :: "int \<Rightarrow> subscription_feature \<Rightarrow> sub_db \<Rightarrow> int" where
  "getCurrentUsage userId feature s =
     (case feature of
        MAX_LISTINGS \<Rightarrow> count_listings userId s
      | FEATURED_LISTINGS \<Rightarrow> count_featured userId s
      | _ \<Rightarrow> 0)"

definition getAvailableFeatures :: "subscription_limits \<Rightarrow> subscription_feature list" where
  "getAvailableFeatures tierLimits =
     map fst (filter (\<lambda>(feature, v). v = Flag True \<or> (case v of Count n \<Rightarrow> n > 0 | Flag _ \<Rightarrow> False)) tierLimits)"

definition getUsedFeatures :: "subscription_tier \<Rightarrow> subscription_feature list" where
  "getUsedFeatures tier =
     (case getTierConfig (Some tier) of
        None \<Rightarrow> []
      | Some tierConfig \<Rightarrow>
        map fst (filter (\<lambda>(feature, v). v = Flag True \<or> (case v of Count n \<Rightarrow> n > 0 | Flag _ \<Rightarrow> False)) (tc_features tierConfig)))"

subsection \<open>Operations\<close>

definition createSubscription ::
  "uuid \<Rightarrow> time \<Rightarrow> int \<Rightarrow> create_subscription_dto \<Rightarrow> sub_db \<Rightarrow> (subscription, sub_db) result" where
  "createSubscription sid now userId dto s =
     (case getActiveSubscription userId s of
        Some existing \<Rightarrow>
          (Inl (BadRequestException [Txt ''User already has an active subscription'']), s)
      | None \<Rightarrow>
        case getTierConfig (cs_tier dto) of
          None \<Rightarrow> (Inl (BadRequestException [Txt ''Invalid subscription tier'']), s)
        | Some tierConfig \<Rightarrow>
          if \<not> tc_isActive tierConfig then (Inl (BadRequestException [Txt ''Invalid subscription tier'']), s)
          else
            let price = calculatePrice tierConfig (cs_billingCycle dto);
                endsAt = calculateEndDate now (cs_billingCycle dto);
                row = \<lparr>sb_id = sid, sb_userId = userId, sb_tier = tc_tier tierConfig, sb_status = SUB_PENDING,
                  sb_billingCycle = (case cs_billingCycle dto of None \<Rightarrow> MONTHLY | Some c \<Rightarrow> c),
                  sb_price = price, sb_currency = ''USD'', sb_startsAt = now, sb_endsAt = Some endsAt,
                  sb_expiresAt = endsAt, sb_lastPaymentAt = None, sb_nextBillingAt = None,
                  sb_paymentMethodToken = cs_paymentMethodToken dto, sb_paymentProvider = cs_paymentProvider dto,
                  sb_autoRenew = (case cs_autoRenew dto of None \<Rightarrow> True | Some b \<Rightarrow> b),
                  sb_cancellationReason = None, sb_cancelledAt = None,
                  sb_usage = Some \<lparr>us_currentListings = 0, us_currentFeaturedListings = 0,
                    us_totalUploadsThisMonth = 0, us_lastUsageReset = now\<rparr>,
                  sb_createdAt = now\<rparr>
            in (Inr row, updateUserSubscriptionStatus userId row (save_sub row s)))"

definition upgradeSubscription ::
  "time \<Rightarrow> int \<Rightarrow> upgrade_subscription_dto \<Rightarrow> sub_db \<Rightarrow> (subscription, sub_db) result" where
  "upgradeSubscription now userId dto s =
     (case getActiveSubscription userId s of
        None \<Rightarrow> (Inl (NotFoundException [Txt ''No active subscription found'']), s)
      | Some current \<Rightarrow>
        if \<not> canUpgrade (sb_tier current) (up_targetTier dto)
        then (Inl (BadRequestException [Txt ''Cannot downgrade to lower tier'']), s)
        else case getTierConfig (up_targetTier dto) of
          None \<Rightarrow> (Inl (BadRequestException [Txt ''Invalid target subscription tier'']), s)
        | Some tierConfig \<Rightarrow>
          if \<not> tc_isActive tierConfig then (Inl (BadRequestException [Txt ''Invalid target subscription tier'']), s)
          else
            let billingCycle = (case up_billingCycle dto of None \<Rightarrow> sb_billingCycle current | Some c \<Rightarrow> c);
                price = calculatePrice tierConfig (Some billingCycle);
                endsAt = calculateEndDate now (Some billingCycle);
                row = current\<lparr>sb_tier := tc_tier tierConfig, sb_billingCycle := billingCycle, sb_price := price,
                  sb_endsAt := Some endsAt, sb_expiresAt := endsAt, sb_nextBillingAt := Some endsAt,
                  sb_status := SUB_PENDING,
                  sb_paymentMethodToken := (if truthy_text (up_paymentMethodToken dto)
                    then up_paymentMethodToken dto else sb_paymentMethodToken current)\<rparr>
            in (Inr row, updateUserSubscriptionStatus userId row (save_sub row s)))"

definition cancelSubscription ::
  "time \<Rightarrow> int \<Rightarrow> string option \<Rightarrow> sub_db \<Rightarrow> (subscription, sub_db) result" where
  "cancelSubscription now userId reason s =
     (case getActiveSubscription userId s of
        None \<Rightarrow> (Inl (NotFoundException [Txt ''No active subscription found'']), s)
      | Some current \<Rightarrow>
        let row = current\<lparr>sb_status := SUB_CANCELLED,
              sb_cancellationReason := (if truthy_text reason then reason else None),
              sb_cancelledAt := Some now, sb_autoRenew := False\<rparr>
        in (Inr row, updateUserSubscriptionStatus userId row (save_sub row s)))"

definition getCurrentSubscription :: "int \<Rightarrow> sub_db \<Rightarrow> subscription option" where
  "getCurrentSubscription userId s = getActiveSubscription userId s"

definition current_tier :: "int \<Rightarrow> sub_db \<Rightarrow> subscription_tier" where
  "current_tier userId s = (case getActiveSubscription userId s of None \<Rightarrow> TIER_FREE | Some r \<Rightarrow> sb_tier r)"

definition getUserUsage :: "int \<Rightarrow> sub_db \<Rightarrow> usage_stats_dto" where
  "getUserUsage userId s =
     (let tierLimits = getTierLimits (current_tier userId s)
      in \<lparr>ud_currentListings = count_listings userId s,
          ud_maxListings = map_of tierLimits MAX_LISTINGS,
          ud_currentFeaturedListings = count_featured userId s,
          ud_maxFeaturedListings = map_of tierLimits FEATURED_LISTINGS,
          ud_currentImagesPerListing = 0,
          ud_maxImagesPerListing = map_of tierLimits MAX_IMAGES_PER_LISTING,
          ud_usedFeatures = getUsedFeatures (current_tier userId s),
          ud_availableFeatures = getAvailableFeatures tierLimits\<rparr>)"

text \<open>\<open>currentUsage + count <= limit\<close>: a boolean limit is 0 or 1 there, and an absent one \<open>NaN\<close>,
  with which no number compares. A feature outside the enumeration is \<open>None\<close>.\<close>

definition within_limit :: "int \<Rightarrow> limit option \<Rightarrow> bool" where
  "within_limit n l = (case l of
       None \<Rightarrow> False | Some (Count k) \<Rightarrow> n \<le> k | Some (Flag b) \<Rightarrow> n \<le> (if b then 1 else 0))"

definition canPerformAction :: "int \<Rightarrow> subscription_feature option \<Rightarrow> int \<Rightarrow> sub_db \<Rightarrow> bool" where
  "canPerformAction userId feature n s =
     (case feature of
        None \<Rightarrow> within_limit (0 + n) None
      | Some f \<Rightarrow>
        let lim = map_of (getTierLimits (current_tier userId s)) f
        in if lim = Some (Count (-1)) then True
           else within_limit (getCurrentUsage userId f s + n) lim)"

definition getUpgradePaths :: "int \<Rightarrow> sub_db \<Rightarrow> subscription_tier list" where
  "getUpgradePaths userId s = getUpgradePath (current_tier userId s)"

definition getAvailableTiers :: "subscription_tier_config list" where
  "getAvailableTiers = getAllActiveTiers"

text \<open>
  A call of the renewal to the database that fails, with its error: loading the row, saving it, or updating
  the row of the user.
\<close>

datatype renewal_call = Find_row | Save_row | Update_user

definition processRenewal ::
  "(renewal_call \<times> error) option \<Rightarrow> time \<Rightarrow> uuid \<Rightarrow> sub_db \<Rightarrow> (subscription, sub_db) result" where
  "processRenewal fault now subscriptionId s =
     (case fault of
        Some (Find_row, e) \<Rightarrow> (Inl e, s)
      | _ \<Rightarrow>
        case tbl_find sb_id subscriptionId (subs s) of
          None \<Rightarrow> (Inl (NotFoundException [Txt ''Subscription not found'']), s)
        | Some r \<Rightarrow>
          if \<not> sb_autoRenew r then (Inr r, s)
          else
            let endsAt = calculateEndDate now (Some (sb_billingCycle r));
                row = r\<lparr>sb_status := SUB_ACTIVE, sb_lastPaymentAt := Some now, sb_nextBillingAt := Some endsAt,
                  sb_expiresAt := endsAt, sb_endsAt := Some endsAt\<rparr>
            in case fault of
                 Some (Save_row, e) \<Rightarrow> (Inl e, s)
               | Some (_, e) \<Rightarrow> (Inl e, save_sub row s)
               | None \<Rightarrow> (Inr row, updateUserSubscriptionStatus (sb_userId r) row (save_sub row s)))"

text \<open>
  One round of the hourly job. The row it holds is the one the query returned: the renewal loads
  and saves another object, so that the last statement writes the columns of the old one to the
  user, and a renewal that fails after its row was saved is overwritten with the old columns. \<open>clock\<close>
  gives the time at which the renewal of a subscription reads the clock, \<open>fault\<close> what fails in it. The
  statements of the job outside its \<open>try\<close> do not fail here; an error there ends the run.
\<close>

definition settle_expired ::
  "(uuid \<Rightarrow> (renewal_call \<times> error) option) \<Rightarrow> (uuid \<Rightarrow> time) \<Rightarrow> subscription \<Rightarrow> sub_db \<Rightarrow> sub_db" where
  "settle_expired fault clock r s =
     (if sb_autoRenew r
      then (case processRenewal (fault (sb_id r)) (clock (sb_id r)) (sb_id r) s of
          (Inr _, t) \<Rightarrow> updateUserSubscriptionStatus (sb_userId r) r t
        | (Inl _, t) \<Rightarrow>
          let r' = r\<lparr>sb_status := SUB_SUSPENDED\<rparr>
          in updateUserSubscriptionStatus (sb_userId r') r' (save_sub r' t))
      else
        let r' = r\<lparr>sb_status := SUB_EXPIRED\<rparr>
        in updateUserSubscriptionStatus (sb_userId r') r' (save_sub r' s))"

definition renewal_due :: "time \<Rightarrow> subscription \<Rightarrow> bool" where
  "renewal_due now r \<longleftrightarrow> sb_status r = SUB_ACTIVE \<and> sb_expiresAt r < now"

definition checkExpiredSubscriptions ::
  "(uuid \<Rightarrow> (renewal_call \<times> error) option) \<Rightarrow> time \<Rightarrow> (uuid \<Rightarrow> time) \<Rightarrow> sub_db \<Rightarrow> sub_db" where
  "checkExpiredSubscriptions fault now clock s = fold (settle_expired fault clock) (filter (renewal_due now) (subs s)) s"

text \<open>The subscriptions the daily job logs a reminder for.\<close>

definition sendRenewalReminders :: "time \<Rightarrow> sub_db \<Rightarrow> subscription list" where
  "sendRenewalReminders now s =
     (let sevenDaysFromNow = setDate (getDate now + 7) now
      in filter (\<lambda>r. sb_status r = SUB_ACTIVE \<and> now \<le> sb_expiresAt r \<and> sb_expiresAt r \<le> sevenDaysFromNow
           \<and> sb_autoRenew r) (subs s))"

subsection \<open>The guard\<close>

record feature_options =
  fo_feature :: "subscription_feature option"
  fo_count :: "int option"

record tier_options =
  to_tier :: "subscription_tier option"
  to_allowHigher :: "bool option"

definition checkFeatureAccess :: "int \<Rightarrow> feature_options \<Rightarrow> sub_db \<Rightarrow> error + bool" where
  "checkFeatureAccess userId options s =
     (let wanted = (case fo_count options of None \<Rightarrow> 1 | Some n \<Rightarrow> if n = 0 then 1 else n)
      in if \<not> canPerformAction userId (fo_feature options) wanted s
         then Inl (ForbiddenException [Txt ''Access denied: Feature requires a higher subscription tier''])
         else Inr True)"

definition checkTierAccess :: "int \<Rightarrow> tier_options \<Rightarrow> sub_db \<Rightarrow> error + bool" where
  "checkTierAccess userId options s =
     (if to_tier options = None then Inl (ForbiddenException [Txt ''Tier check requires a target tier''])
      else case getTierConfig_enums (to_tier options) of
        None \<Rightarrow> Inl (ForbiddenException [Txt ''Invalid subscription tier specified''])
      | Some tierConfig \<Rightarrow>
        case getTierConfig_enums (Some (current_tier userId s)) of
          None \<Rightarrow> Inr True
        | Some currentTierConfig \<Rightarrow>
          if to_allowHigher options = Some True
          then Inr (tc_sortOrder currentTierConfig \<ge> tc_sortOrder tierConfig)
          else Inr (tc_sortOrder currentTierConfig \<ge> tc_sortOrder tierConfig))"

definition subscription_canActivate ::
  "int option \<Rightarrow> feature_options option \<Rightarrow> tier_options option \<Rightarrow> sub_db \<Rightarrow> error + bool" where
  "subscription_canActivate user featureOptions tierOptions s =
     (case user of
        None \<Rightarrow> Inl (ForbiddenException [Txt ''User not authenticated''])
      | Some userId \<Rightarrow>
        case featureOptions of
          Some f \<Rightarrow> checkFeatureAccess userId f s
        | None \<Rightarrow> case tierOptions of Some t \<Rightarrow> checkTierAccess userId t s | None \<Rightarrow> Inr True)"

subsection \<open>Tiers: the lemmas\<close>

primrec rank :: "subscription_tier \<Rightarrow> int" where
  "rank TIER_FREE = 1" | "rank TIER_BASIC = 2" | "rank TIER_PREMIUM = 3"

lemma getTierConfig_None [simp]: "getTierConfig None = None"
  by (simp add: getTierConfig_def SUBSCRIPTION_TIERS_def)

lemma getTierConfig_Some:
  obtains c where "getTierConfig (Some t) = Some c" "tc_tier c = t" "tc_isActive c" "tc_sortOrder c = rank t"
  by (cases t) (simp_all add: getTierConfig_def SUBSCRIPTION_TIERS_def)

lemma canUpgrade_iff: "canUpgrade t target \<longleftrightarrow> (\<exists>b. target = Some b \<and> rank t < rank b)"
proof (cases target)
  case (Some b)
  show ?thesis
    by (rule getTierConfig_Some [of t], rule getTierConfig_Some [of b]) (simp add: canUpgrade_def Some)
qed (simp add: canUpgrade_def split: option.splits)

lemma getUpgradePath_tiers: "set (getUpgradePath t) = {b. canUpgrade t (Some b)}"
proof -
  have "b \<in> set (getUpgradePath t) \<longleftrightarrow> rank t < rank b" for b
    by (cases t; cases b) (simp_all add: getUpgradePath_def getTierConfig_def SUBSCRIPTION_TIERS_def)
  then show ?thesis by (auto simp: canUpgrade_iff)
qed

lemma tier_tables_agree:
  "map_option (\<lambda>c. c\<lparr>tc_description := []\<rparr>) (getTierConfig t) =
   map_option (\<lambda>c. c\<lparr>tc_description := []\<rparr>) (getTierConfig_enums t)"
proof (cases t)
  case (Some u)
  then show ?thesis
    by (cases u) (simp_all add: getTierConfig_def getTierConfig_enums_def SUBSCRIPTION_TIERS_def)
qed (simp add: getTierConfig_enums_def)

lemma getTierConfig_enums_rank: "map_option tc_sortOrder (getTierConfig_enums t) = map_option rank t"
proof (cases t)
  case (Some u)
  then show ?thesis by (cases u) (simp_all add: getTierConfig_enums_def)
qed (simp add: getTierConfig_enums_def)

text \<open>Both branches of \<open>allowHigher\<close> ask for the tier or a higher one.\<close>

lemma checkTierAccess_order:
  "checkTierAccess userId \<lparr>to_tier = Some t, to_allowHigher = h\<rparr> s = Inr (rank t \<le> rank (current_tier userId s))"
  using getTierConfig_enums_rank [of "Some t"] getTierConfig_enums_rank [of "Some (current_tier userId s)"]
  by (auto simp: checkTierAccess_def)

text \<open>The limit of a feature never shrinks from a tier to a higher one.\<close>

definition feature_limit :: "subscription_tier \<Rightarrow> subscription_feature \<Rightarrow> limit option" where
  "feature_limit t f = map_of (getTierLimits t) f"

lemma feature_limit_table:
  "feature_limit TIER_FREE f =
     Some (case f of MAX_LISTINGS \<Rightarrow> Count 5 | MAX_IMAGES_PER_LISTING \<Rightarrow> Count 3 | FEATURED_LISTINGS \<Rightarrow> Count 0
       | _ \<Rightarrow> Flag False)"
  "feature_limit TIER_BASIC f =
     Some (case f of MAX_LISTINGS \<Rightarrow> Count 50 | MAX_IMAGES_PER_LISTING \<Rightarrow> Count 10 | FEATURED_LISTINGS \<Rightarrow> Count 2
       | ANALYTICS_DASHBOARD \<Rightarrow> Flag True | VERIFICATION_BADGE \<Rightarrow> Flag True | _ \<Rightarrow> Flag False)"
  "feature_limit TIER_PREMIUM f =
     Some (case f of MAX_LISTINGS \<Rightarrow> Count (-1) | MAX_IMAGES_PER_LISTING \<Rightarrow> Count 20
       | FEATURED_LISTINGS \<Rightarrow> Count 10 | _ \<Rightarrow> Flag True)"
  by (cases f; simp add: feature_limit_def getTierLimits_def getTierConfig_def SUBSCRIPTION_TIERS_def)+

lemma feature_limit_monotone:
  assumes "rank a < rank b" "feature_limit a f = Some (Count (-1)) \<or> within_limit n (feature_limit a f)"
  shows "feature_limit b f = Some (Count (-1)) \<or> within_limit n (feature_limit b f)"
  using assms
  by (cases a; cases b; cases f) (simp_all add: feature_limit_table within_limit_def)

lemma canPerformAction_limit:
  "canPerformAction userId (Some f) n s \<longleftrightarrow>
     (let l = feature_limit (current_tier userId s) f
      in l = Some (Count (-1)) \<or> within_limit (getCurrentUsage userId f s + n) l)"
  by (simp add: canPerformAction_def feature_limit_def Let_def)

text \<open>
  Whatever a user may do under a tier is allowed under every tier the upgrade path
  offers, for every feature and number of items, with the same listings.
\<close>

lemma upgrade_keeps_permissions:
  assumes "current_tier userId t \<in> set (getUpgradePaths userId s)" and "owned t = owned s"
    and "canPerformAction userId feature n s"
  shows "canPerformAction userId feature n t"
proof (cases feature)
  case None
  then show ?thesis using assms(3) by (simp add: canPerformAction_def within_limit_def)
next
  case (Some f)
  have "rank (current_tier userId s) < rank (current_tier userId t)"
    using assms(1) by (simp add: getUpgradePaths_def getUpgradePath_tiers canUpgrade_iff)
  moreover have "getCurrentUsage userId f t = getCurrentUsage userId f s"
    using assms(2) by (simp add: getCurrentUsage_def count_listings_def count_featured_def split: subscription_feature.splits)
  ultimately show ?thesis
    using assms(3) feature_limit_monotone unfolding Some canPerformAction_limit Let_def by metis
qed

lemma unlimited_listings_not_available:
  "MAX_LISTINGS \<notin> set (getAvailableFeatures (getTierLimits TIER_PREMIUM))"
  "MAX_LISTINGS \<in> set (getAvailableFeatures (getTierLimits TIER_FREE))"
  by (simp_all add: getAvailableFeatures_def getTierLimits_def getTierConfig_def SUBSCRIPTION_TIERS_def)

subsection \<open>End dates\<close>

lemma billing_days:
  "\<exists>days. calculateEndDate t (Some cycle) = t + days * day_ms \<and>
     days \<in> (case cycle of MONTHLY \<Rightarrow> {28..31} | QUARTERLY \<Rightarrow> {89..92} | YEARLY \<Rightarrow> {365..366})"
proof -
  obtain n where n: "\<And>k. setMonth (getMonth t + k) t = t + (first_of_month (n + k) - first_of_month n) * day_ms"
    using setMonth_shift [of t] by blast
  have year: "setFullYear (getFullYear t + 1) t = setMonth (getMonth t + 12) t"
    using setFullYear_shift [of t 1] by simp
  show ?thesis
    using one_month [of n] quarter_days [of n] year_length [of n]
    by (cases cycle) (auto simp: calculateEndDate_def year n)
qed

text \<open>
  A billing period lasts 28 to 31 days when it is monthly, 89 to 92 days when it is
  quarterly and 365 or 366 days when it is yearly, whatever the start date, and ends at the same
  time of the day.
\<close>

lemma billing_period_bounds:
  "\<exists>days. calculateEndDate t (Some cycle) = t + days * day_ms \<and>
     days \<in> (case cycle of MONTHLY \<Rightarrow> {28..31} | QUARTERLY \<Rightarrow> {89..92} | YEARLY \<Rightarrow> {365..366})"
  by (rule billing_days)

lemma billing_bound: "t + 28 * day_ms \<le> calculateEndDate t (Some c)"
proof -
  obtain days where days: "calculateEndDate t (Some c) = t + days * day_ms"
    "days \<in> (case c of MONTHLY \<Rightarrow> {28..31} | QUARTERLY \<Rightarrow> {89..92} | YEARLY \<Rightarrow> {365..366})"
    using billing_days by blast
  from days(2) have "28 \<le> days" by (cases c) simp_all
  then show ?thesis using days(1) by (simp add: day_ms_def)
qed

text \<open>A monthly period that begins on 31 January skips February.\<close>

lemma end_of_january:
  "calculateEndDate (30 * day_ms) (Some MONTHLY) = (31 + 28 + 3 - 1) * day_ms"
  by code_simp

subsection \<open>The life of subscriptions\<close>

text \<open>
  The requests, the hourly job and everything the listings service may do, in any order. New ids
  are fresh; every clock reading is arbitrary, and so is what fails in a renewal.
\<close>

inductive sub_step :: "sub_db \<Rightarrow> sub_db \<Rightarrow> bool" where
  created: "tbl_find sb_id sid (subs s) = None \<Longrightarrow> createSubscription sid now userId dto s = (r, t) \<Longrightarrow> sub_step s t"
| upgraded: "upgradeSubscription now userId up s = (r, t) \<Longrightarrow> sub_step s t"
| cancelled: "cancelSubscription now userId reason s = (r, t) \<Longrightarrow> sub_step s t"
| renewed: "processRenewal fault now sid s = (r, t) \<Longrightarrow> sub_step s t"
| swept: "checkExpiredSubscriptions fault now clock s = t \<Longrightarrow> sub_step s t"
| listed: "sub_step s (s\<lparr>owned := ls\<rparr>)"

inductive sub_reachable :: "sub_db \<Rightarrow> bool" where
  start: "sub_reachable \<lparr>subs = [], users = us, owned = ls\<rparr>"
| step: "sub_reachable s \<Longrightarrow> sub_step s t \<Longrightarrow> sub_reachable t"

definition sub_ok :: "subscription \<Rightarrow> bool" where
  "sub_ok r \<longleftrightarrow> sb_status r \<noteq> SUB_EXPIRED
     \<and> (sb_status r = SUB_ACTIVE \<longrightarrow> sb_autoRenew r \<and> sb_lastPaymentAt r \<noteq> None)
     \<and> (sb_status r = SUB_CANCELLED \<longrightarrow> \<not> sb_autoRenew r \<and> sb_cancelledAt r \<noteq> None)
     \<and> sb_endsAt r = Some (sb_expiresAt r) \<and> round_to 2 (sb_price r) = sb_price r"

definition subs_ok :: "sub_db \<Rightarrow> bool" where
  "subs_ok s \<longleftrightarrow> distinct (map sb_id (subs s)) \<and> (\<forall>r \<in> set (subs s). sub_ok r)"

lemma updateUser_tables [simp]:
  "subs (updateUserSubscriptionStatus userId r s) = subs s"
  "owned (updateUserSubscriptionStatus userId r s) = owned s"
  by (simp_all add: updateUserSubscriptionStatus_def Let_def)

lemma save_sub_tables [simp]:
  "subs (save_sub r s) = tbl_save sb_id (r\<lparr>sb_price := round_to 2 (sb_price r)\<rparr>) (subs s)"
  "users (save_sub r s) = users s" "owned (save_sub r s) = owned s"
  by (simp_all add: save_sub_def)

lemma subs_ok_save:
  assumes "subs_ok s" and "sub_ok (r\<lparr>sb_price := round_to 2 (sb_price r)\<rparr>)"
  shows "subs_ok (updateUserSubscriptionStatus userId r' (save_sub r s))"
  using assms by (auto simp: subs_ok_def intro: tbl_save_distinct dest!: tbl_save_mem)

lemma active_row:
  assumes "getActiveSubscription userId s = Some r"
  shows "r \<in> set (subs s)" "sb_userId r = userId" "sb_status r = SUB_ACTIVE"
proof -
  obtain rest where "sort_key (\<lambda>r. - sb_createdAt r)
      (filter (\<lambda>r. sb_userId r = userId \<and> sb_status r = SUB_ACTIVE) (subs s)) = r # rest"
    using assms by (auto simp: getActiveSubscription_def split: list.splits)
  then have "r \<in> set (filter (\<lambda>r. sb_userId r = userId \<and> sb_status r = SUB_ACTIVE) (subs s))"
    by (metis list.set_intros(1) set_sort)
  then show "r \<in> set (subs s)" "sb_userId r = userId" "sb_status r = SUB_ACTIVE" by simp_all
qed

lemma no_active_row:
  "getActiveSubscription userId s = None \<longleftrightarrow> (\<forall>r \<in> set (subs s). sb_userId r = userId \<longrightarrow> sb_status r \<noteq> SUB_ACTIVE)"
proof -
  have "getActiveSubscription userId s = None \<longleftrightarrow> set (sort_key (\<lambda>r. - sb_createdAt r)
      (filter (\<lambda>r. sb_userId r = userId \<and> sb_status r = SUB_ACTIVE) (subs s))) = {}"
    unfolding getActiveSubscription_def by (simp only: set_empty split: list.split) simp
  then show ?thesis by (auto simp: set_sort)
qed

lemma found_ok: "subs_ok s \<Longrightarrow> tbl_find sb_id k (subs s) = Some r \<Longrightarrow> sub_ok r"
  by (auto simp: subs_ok_def dest: tbl_find_mem)

text \<open>What the job makes of a row.\<close>

definition renewed_row :: "time \<Rightarrow> subscription \<Rightarrow> subscription" where
  "renewed_row now r =
     (let endsAt = calculateEndDate now (Some (sb_billingCycle r))
      in r\<lparr>sb_status := SUB_ACTIVE, sb_lastPaymentAt := Some now, sb_nextBillingAt := Some endsAt,
           sb_expiresAt := endsAt, sb_endsAt := Some endsAt\<rparr>)"

definition settled_row ::
  "(uuid \<Rightarrow> (renewal_call \<times> error) option) \<Rightarrow> (uuid \<Rightarrow> time) \<Rightarrow> subscription \<Rightarrow> subscription" where
  "settled_row fault clock r =
     (if \<not> sb_autoRenew r then r\<lparr>sb_status := SUB_EXPIRED\<rparr>
      else if fault (sb_id r) = None then renewed_row (clock (sb_id r)) r
      else r\<lparr>sb_status := SUB_SUSPENDED\<rparr>)"

lemma renewed_row_fields [simp]:
  "sb_id (renewed_row now r) = sb_id r" "sb_userId (renewed_row now r) = sb_userId r"
  "sb_status (renewed_row now r) = SUB_ACTIVE" "sb_price (renewed_row now r) = sb_price r"
  "sb_tier (renewed_row now r) = sb_tier r" "sb_autoRenew (renewed_row now r) = sb_autoRenew r"
  "sb_expiresAt (renewed_row now r) = calculateEndDate now (Some (sb_billingCycle r))"
  "sb_lastPaymentAt (renewed_row now r) = Some now"
  "sb_endsAt (renewed_row now r) = Some (sb_expiresAt (renewed_row now r))"
  by (simp_all add: renewed_row_def Let_def)

lemma settled_row_fields [simp]:
  "sb_id (settled_row fault clock r) = sb_id r" "sb_price (settled_row fault clock r) = sb_price r"
  by (simp_all add: settled_row_def)

lemma processRenewal_row:
  "processRenewal fault now sid s =
     (if \<exists>e. fault = Some (Find_row, e) then (Inl (snd (the fault)), s)
      else case tbl_find sb_id sid (subs s) of
        None \<Rightarrow> (Inl (NotFoundException [Txt ''Subscription not found'']), s)
      | Some r \<Rightarrow> if \<not> sb_autoRenew r then (Inr r, s)
        else case fault of
            None \<Rightarrow> (Inr (renewed_row now r), updateUserSubscriptionStatus (sb_userId r) (renewed_row now r) (save_sub (renewed_row now r) s))
          | Some (c, e) \<Rightarrow> (Inl e, if c = Save_row then s else save_sub (renewed_row now r) s))"
  by (auto simp: processRenewal_def renewed_row_def Let_def split: option.split renewal_call.split)

lemma renewal_fails:
  assumes "fault = Some (c, e)" "tbl_find sb_id sid (subs s) = Some r" "sb_autoRenew r"
  shows "processRenewal fault now sid s = (Inl e, if c = Update_user then save_sub (renewed_row now r) s else s)"
  using assms by (cases c) (simp_all add: processRenewal_row)

lemma save_sub_ok: "subs_ok s \<Longrightarrow> sub_ok (r\<lparr>sb_price := round_to 2 (sb_price r)\<rparr>) \<Longrightarrow> subs_ok (save_sub r s)"
  by (auto simp: subs_ok_def intro: tbl_save_distinct dest!: tbl_save_mem)

lemma processRenewal_ok:
  assumes "subs_ok s" "processRenewal fault now sid s = (res, t)"
  shows "subs_ok t"
proof -
  have "sub_ok (renewed_row now r\<lparr>sb_price := round_to 2 (sb_price r)\<rparr>)" if "sub_ok r" "sb_autoRenew r" for r
    using that by (simp add: sub_ok_def)
  then have saved: "subs_ok (save_sub (renewed_row now r) s)"
      "subs_ok (updateUserSubscriptionStatus k r' (save_sub (renewed_row now r) s))"
    if "tbl_find sb_id sid (subs s) = Some r" "sb_autoRenew r" for r r' k
    using that found_ok [OF assms(1) that(1)] assms(1) by (simp_all add: save_sub_ok subs_ok_save)
  show ?thesis
    using assms saved by (auto simp: processRenewal_row split: if_splits option.splits)
qed

lemma tbl_save_twice: "key a = key b \<Longrightarrow> tbl_save key a (tbl_save key b t) = tbl_save key a t"
  by (induction t) auto

lemma tbl_save_at:
  assumes "distinct (map key t)" "r \<in> set t" "key r' = key r"
  shows "tbl_save key r' t = map (\<lambda>x. if x = r then r' else x) t"
proof -
  have other: "key r \<notin> key ` set t \<Longrightarrow> map (\<lambda>x. if x = r then r' else x) t = t" for t
    by (induction t) auto
  show ?thesis using assms by (induction t) (auto simp: other)
qed

lemma save_sub_at:
  assumes "distinct (map sb_id (subs s))" "r \<in> set (subs s)" "sb_id r' = sb_id r" "round_to 2 (sb_price r') = sb_price r'"
  shows "subs (save_sub r' s) = map (\<lambda>x. if x = r then r' else x) (subs s)"
proof -
  have "r'\<lparr>sb_price := round_to 2 (sb_price r')\<rparr> = r'" using assms(4) by simp
  then show ?thesis using tbl_save_at [OF assms(1,2,3)] by simp
qed

lemma settle_rows:
  assumes "distinct (map sb_id (subs s))" "r \<in> set (subs s)" "round_to 2 (sb_price r) = sb_price r"
  shows "subs (settle_expired fault clock r s) = map (\<lambda>x. if x = r then settled_row fault clock r else x) (subs s)"
proof (cases "sb_autoRenew r \<and> fault (sb_id r) \<noteq> None")
  case True
  have found: "tbl_find sb_id (sb_id r) (subs s) = Some r" using assms(1,2) by (rule tbl_find_distinct)
  obtain c e where f: "fault (sb_id r) = Some (c, e)" using True by auto
  let ?r = "r\<lparr>sb_status := SUB_SUSPENDED\<rparr>"
  have "subs (settle_expired fault clock r s) = subs (save_sub ?r s)"
    using renewal_fails [OF f found conjunct1 [OF True]] True
    by (simp add: settle_expired_def Let_def tbl_save_twice)
  then show ?thesis using save_sub_at [OF assms(1,2), of ?r] assms(3) True f by (simp add: settled_row_def del: save_sub_tables(1))
next
  case False
  then have "fault (sb_id r) = None" if "sb_autoRenew r" using that by blast
  moreover have "tbl_find sb_id (sb_id r) (subs s) = Some r" using assms(1,2) by (rule tbl_find_distinct)
  ultimately show ?thesis
    using save_sub_at [OF assms(1,2)] assms(3)
    by (cases "sb_autoRenew r") (simp_all add: settle_expired_def processRenewal_row settled_row_def Let_def del: save_sub_tables(1))
qed

text \<open>The rows the job still has to settle are rows of the table.\<close>

definition to_settle :: "subscription list \<Rightarrow> sub_db \<Rightarrow> bool" where
  "to_settle rs s \<longleftrightarrow> distinct (map sb_id (subs s)) \<and> distinct (map sb_id rs) \<and> set rs \<subseteq> set (subs s)
     \<and> (\<forall>r \<in> set rs. round_to 2 (sb_price r) = sb_price r)"

lemma to_settle_found: "to_settle rs s \<Longrightarrow> r \<in> set rs \<Longrightarrow> tbl_find sb_id (sb_id r) (subs s) = Some r"
  by (auto simp: to_settle_def intro!: tbl_find_distinct)

lemma to_settle_Cons:
  assumes "to_settle (r # rs) s"
  shows "subs (settle_expired fault clock r s) = map (\<lambda>x. if x = r then settled_row fault clock r else x) (subs s)"
    and "to_settle rs (settle_expired fault clock r s)"
    and "r \<notin> set rs" and "settled_row fault clock r \<notin> set rs"
proof -
  show rows: "subs (settle_expired fault clock r s) = map (\<lambda>x. if x = r then settled_row fault clock r else x) (subs s)"
    using assms unfolding to_settle_def by (intro settle_rows) auto
  have ids: "map sb_id (subs (settle_expired fault clock r s)) = map sb_id (subs s)" by (auto simp: rows)
  show r: "r \<notin> set rs" using assms by (auto simp: to_settle_def)
  show "settled_row fault clock r \<notin> set rs"
    using assms by (auto simp: to_settle_def image_iff)
  have "set rs \<subseteq> set (subs (settle_expired fault clock r s))"
    using assms r unfolding rows to_settle_def by auto
  then show "to_settle rs (settle_expired fault clock r s)"
    using assms ids by (simp add: to_settle_def)
qed

lemma settle_all_rows:
  assumes "to_settle rs s"
  shows "subs (fold (settle_expired fault clock) rs s) = map (\<lambda>x. if x \<in> set rs then settled_row fault clock x else x) (subs s)"
  using assms
proof (induction rs arbitrary: s)
  case (Cons r rs)
  show ?case
    using Cons.IH [OF to_settle_Cons(2) [OF Cons.prems]] to_settle_Cons(1,3,4) [OF Cons.prems] by auto
qed simp

lemma to_settle_append:
  assumes "to_settle (xs @ ys) s"
  shows "to_settle xs s" and "to_settle ys (fold (settle_expired fault clock) xs s)"
proof -
  show "to_settle xs s" using assms by (auto simp: to_settle_def)
  show "to_settle ys (fold (settle_expired fault clock) xs s)"
    using assms by (induction xs arbitrary: s) (auto intro: to_settle_Cons(2))
qed

lemma to_settle_due:
  assumes "distinct (map sb_id (subs s))" and "\<forall>r \<in> set (subs s). round_to 2 (sb_price r) = sb_price r"
  shows "to_settle (filter (renewal_due now) (subs s)) s"
  using assms by (simp add: to_settle_def distinct_map_filter)

lemma sweep_rows:
  assumes "distinct (map sb_id (subs s))" and "\<forall>r \<in> set (subs s). round_to 2 (sb_price r) = sb_price r"
  shows "subs (checkExpiredSubscriptions fault now clock s) = map (\<lambda>r. if renewal_due now r then settled_row fault clock r else r) (subs s)"
  using settle_all_rows [OF to_settle_due [OF assms]] by (simp add: checkExpiredSubscriptions_def)

lemma subs_ok_sweep:
  assumes "subs_ok s"
  shows "subs_ok (checkExpiredSubscriptions fault now clock s)"
proof -
  have rows: "subs (checkExpiredSubscriptions fault now clock s) = map (\<lambda>r. if renewal_due now r then settled_row fault clock r else r) (subs s)"
    using assms by (intro sweep_rows) (auto simp: subs_ok_def sub_ok_def)
  have "map sb_id (subs (checkExpiredSubscriptions fault now clock s)) = map sb_id (subs s)" by (auto simp: rows)
  moreover have "sub_ok (settled_row fault clock r)" if "sub_ok r" "renewal_due now r" for r
    using that by (auto simp: sub_ok_def renewal_due_def settled_row_def)
  ultimately show ?thesis
    using assms unfolding subs_ok_def by (simp only: rows set_map) auto
qed

lemma subs_ok_step:
  assumes "sub_step s t" "subs_ok s"
  shows "subs_ok t"
  using assms
proof (induction rule: sub_step.induct)
  case (created sid s now userId dto r t)
  then show ?case
    by (auto simp: createSubscription_def Let_def sub_ok_def split: option.splits if_splits intro!: subs_ok_save)
next
  case (upgraded now userId up s r t)
  show ?case
  proof (cases "getActiveSubscription userId s")
    case (Some current)
    have "sub_ok current" using active_row(1) [OF Some] upgraded(2) by (simp add: subs_ok_def)
    then show ?thesis
      using upgraded Some by (auto simp: upgradeSubscription_def Let_def sub_ok_def split: option.splits if_splits intro!: subs_ok_save)
  qed (use upgraded in \<open>simp add: upgradeSubscription_def\<close>)
next
  case (cancelled now userId reason s r t)
  show ?case
  proof (cases "getActiveSubscription userId s")
    case (Some current)
    have "sub_ok current" using active_row(1) [OF Some] cancelled(2) by (simp add: subs_ok_def)
    then show ?thesis
      using cancelled Some by (auto simp: cancelSubscription_def Let_def sub_ok_def intro!: subs_ok_save)
  qed (use cancelled in \<open>simp add: cancelSubscription_def\<close>)
next
  case (renewed fault now sid s r t)
  then show ?case using processRenewal_ok by blast
next
  case (swept fault now clock s t)
  then show ?case using subs_ok_sweep by blast
qed (simp add: subs_ok_def)

lemma reachable_subs_ok: "sub_reachable s \<Longrightarrow> subs_ok s"
  by (induction rule: sub_reachable.induct) (auto simp: subs_ok_def [of "\<lparr>subs = [], users = _, owned = _\<rparr>"] intro: subs_ok_step)

text \<open>
  Property C14: whatever requests, renewals (of which any may fail at the database) and runs of the hourly job
  came before, no subscription is EXPIRED, and every active one has its automatic renewal on. So when
  the job, whose own writes succeed, meets an active subscription whose time is over, it makes it active
  again from the moment it is handled, for one billing cycle, with that moment as its payment date; or, when
  the database fails in the renewal, leaves its other columns and suspends it.
\<close>

theorem subscriptions_never_expire:
  assumes "sub_reachable s" and "r \<in> set (subs s)"
  shows "sb_status r \<noteq> SUB_EXPIRED \<and> (sb_status r = SUB_ACTIVE \<longrightarrow> sb_autoRenew r)
    \<and> (renewal_due now r \<longrightarrow> tbl_find sb_id (sb_id r) (subs (checkExpiredSubscriptions fault now clock s)) =
        Some (if fault (sb_id r) = None
          then let endsAt = calculateEndDate (clock (sb_id r)) (Some (sb_billingCycle r))
            in r\<lparr>sb_status := SUB_ACTIVE, sb_lastPaymentAt := Some (clock (sb_id r)), sb_nextBillingAt := Some endsAt,
                 sb_expiresAt := endsAt, sb_endsAt := Some endsAt\<rparr>
          else r\<lparr>sb_status := SUB_SUSPENDED\<rparr>))"
proof -
  let ?t = "checkExpiredSubscriptions fault now clock s"
  have ok: "subs_ok s" and r: "sub_ok r" using reachable_subs_ok [OF assms(1)] assms(2) by (simp_all add: subs_ok_def)
  have "tbl_find sb_id (sb_id r) (subs ?t) = Some (settled_row fault clock r)" if "renewal_due now r"
  proof -
    have "subs ?t = map (\<lambda>r. if renewal_due now r then settled_row fault clock r else r) (subs s)"
      using ok by (intro sweep_rows) (auto simp: subs_ok_def sub_ok_def)
    then have "settled_row fault clock r \<in> set (subs ?t)" using that assms(2) by (auto simp: image_iff)
    moreover have "distinct (map sb_id (subs ?t))" using subs_ok_sweep [OF ok] by (simp add: subs_ok_def)
    ultimately show ?thesis using tbl_find_distinct [of sb_id "subs ?t" "settled_row fault clock r"] by simp
  qed
  moreover have "sb_autoRenew r" if "renewal_due now r" using that r by (simp add: renewal_due_def sub_ok_def)
  ultimately show ?thesis using r by (auto simp: sub_ok_def settled_row_def renewed_row_def)
qed

text \<open>
  Property C38: one run of the job (whose own writes succeed, on rows as the database stores them, with
  different ids and prices of two decimals, and no clock reading before its start) settles exactly the active subscriptions
  whose time is over: each is renewed from the moment it is handled, or suspended when the database fails
  in its renewal, or expires when it does not renew; no other row changes. No subscription is left due,
  and none falls due again within 28 days of its renewal.
\<close>

theorem sweep_settles_exactly_due:
  assumes "distinct (map sb_id (subs s))" and "\<forall>r \<in> set (subs s). round_to 2 (sb_price r) = sb_price r"
    and "\<forall>k. now \<le> clock k"
  shows "subs (checkExpiredSubscriptions fault now clock s) = map (\<lambda>r. if renewal_due now r then settled_row fault clock r else r) (subs s)
    \<and> (\<forall>r \<in> set (subs (checkExpiredSubscriptions fault now clock s)). \<not> renewal_due now r)
    \<and> (\<forall>r \<in> set (subs s). renewal_due now r \<longrightarrow> sb_autoRenew r \<longrightarrow> \<not> renewal_due (clock (sb_id r) + 28 * day_ms) (settled_row fault clock r))"
proof (intro conjI)
  show rows: "subs (checkExpiredSubscriptions fault now clock s) = map (\<lambda>r. if renewal_due now r then settled_row fault clock r else r) (subs s)"
    using assms(1,2) by (rule sweep_rows)
  have later: "t + 28 * day_ms \<le> calculateEndDate t (Some c)" for t c
    using billing_bound [of t c] by simp
  then show "\<forall>r \<in> set (subs s). renewal_due now r \<longrightarrow> sb_autoRenew r \<longrightarrow> \<not> renewal_due (clock (sb_id r) + 28 * day_ms) (settled_row fault clock r)"
    by (auto simp: renewal_due_def settled_row_def not_less)
  have "\<not> renewal_due now (settled_row fault clock r)" for r
    using later [of "clock (sb_id r)" "sb_billingCycle r"] assms(3) [rule_format, of "sb_id r"]
    by (auto simp: renewal_due_def settled_row_def day_ms_def)
  then show "\<forall>r \<in> set (subs (checkExpiredSubscriptions fault now clock s)). \<not> renewal_due now r"
    unfolding rows by auto
qed

lemma step_keeps_cancelled:
  assumes "sub_step s t" "subs_ok s" "tbl_find sb_id k (subs s) = Some r" "sb_status r = SUB_CANCELLED"
  shows "tbl_find sb_id k (subs t) = Some r"
  using assms
proof (induction rule: sub_step.induct)
  case (created sid s now userId dto x t)
  then have "k \<noteq> sid" by auto
  then show ?case using created by (auto simp: createSubscription_def Let_def split: option.splits if_splits)
next
  case (upgraded now userId up s x t)
  show ?case
  proof (cases "getActiveSubscription userId s")
    case (Some current)
    have "tbl_find sb_id (sb_id current) (subs s) = Some current"
      using active_row(1) [OF Some] upgraded(2) by (simp add: subs_ok_def tbl_find_distinct)
    then have "k \<noteq> sb_id current" using active_row(3) [OF Some] upgraded(3,4) by auto
    then show ?thesis
      using upgraded Some by (auto simp: upgradeSubscription_def Let_def split: option.splits if_splits)
  qed (use upgraded in \<open>simp add: upgradeSubscription_def\<close>)
next
  case (cancelled now userId reason s x t)
  show ?case
  proof (cases "getActiveSubscription userId s")
    case (Some current)
    have "tbl_find sb_id (sb_id current) (subs s) = Some current"
      using active_row(1) [OF Some] cancelled(2) by (simp add: subs_ok_def tbl_find_distinct)
    then have "k \<noteq> sb_id current" using active_row(3) [OF Some] cancelled(3,4) by auto
    then show ?thesis using cancelled Some by (auto simp: cancelSubscription_def Let_def)
  qed (use cancelled in \<open>simp add: cancelSubscription_def\<close>)
next
  case (renewed fault now sid s x t)
  have "\<not> sb_autoRenew r" using found_ok [OF renewed(2,3)] renewed(4) by (simp add: sub_ok_def)
  then show ?case
    using renewed by (cases "sid = k") (auto simp: processRenewal_row split: option.splits if_splits dest: tbl_find_key)
next
  case (swept fault now clock s t)
  have t: "subs t = map (\<lambda>r. if renewal_due now r then settled_row fault clock r else r) (subs s)"
    unfolding swept(1) [symmetric] using swept(2) by (intro sweep_rows) (auto simp: subs_ok_def sub_ok_def)
  have "r \<in> set (subs s)" using swept(3) by (rule tbl_find_mem)
  moreover have "\<not> renewal_due now r" using swept(4) by (simp add: renewal_due_def)
  ultimately have "r \<in> set (subs t)" unfolding t by (auto intro!: image_eqI [of _ _ r])
  moreover have "distinct (map sb_id (subs t))"
    using subs_ok_sweep [OF swept(2)] swept(1) by (auto simp: subs_ok_def)
  ultimately have "tbl_find sb_id (sb_id r) (subs t) = Some r" by (rule tbl_find_distinct [rotated])
  then show ?case using tbl_find_key [OF swept(3)] by simp
qed simp

text \<open>
  A cancelled subscription is final: no request, renewal or run of the job that may
  follow changes any column of it.
\<close>

lemma cancelled_subscription_final:
  assumes "sub_reachable s" and "sub_step\<^sup>*\<^sup>* s t"
    and "tbl_find sb_id k (subs s) = Some r" and "sb_status r = SUB_CANCELLED"
  shows "tbl_find sb_id k (subs t) = Some r"
proof -
  have "sub_reachable t \<and> tbl_find sb_id k (subs t) = Some r"
    using assms(2)
  proof (induction rule: rtranclp_induct)
    case (step y z)
    then show ?case
      using step_keeps_cancelled reachable_subs_ok sub_reachable.step assms(4) by blast
  qed (use assms in simp)
  then show ?thesis by simp
qed

subsection \<open>What the user sees\<close>

lemma find_user_update:
  "tbl_find u_id k (users (updateUserSubscriptionStatus userId r s)) =
     (case tbl_find u_id k (users s) of
        None \<Rightarrow> None
      | Some u \<Rightarrow> Some (if k = userId
          then u\<lparr>u_subscriptionTier := sb_tier r, u_subscriptionStatus := Some (sb_status r),
                 u_subscriptionExpiresAt := Some (sb_expiresAt r),
                 u_hasPremiumSubscription := sb_tier r \<noteq> TIER_FREE \<and> sb_status r = SUB_ACTIVE\<rparr>
          else u))"
proof -
  define f :: "user_row \<Rightarrow> user_row" where "f = (\<lambda>u. if u_id u = userId
     then u\<lparr>u_subscriptionTier := sb_tier r, u_subscriptionStatus := Some (sb_status r),
            u_subscriptionExpiresAt := Some (sb_expiresAt r),
            u_hasPremiumSubscription := sb_tier r \<noteq> TIER_FREE \<and> sb_status r = SUB_ACTIVE\<rparr>
     else u)"
  have "tbl_find u_id k (map f us) = map_option f (tbl_find u_id k us)" for us
    by (induction us) (auto simp: f_def)
  moreover have "users (updateUserSubscriptionStatus userId r s) = map f (users s)"
    by (simp add: updateUserSubscriptionStatus_def Let_def f_def)
  ultimately show ?thesis by (auto simp: f_def split: option.split dest: tbl_find_key)
qed

lemma settle_user_other:
  assumes "sb_userId r \<noteq> k" "tbl_find sb_id (sb_id r) (subs s) = Some r"
  shows "tbl_find u_id k (users (settle_expired fault clock r s)) = tbl_find u_id k (users s)"
  using assms by (auto simp: settle_expired_def processRenewal_row find_user_update Let_def split: option.splits)

lemma settle_user_stale:
  assumes "sb_userId r = k" "sb_autoRenew r" "fault (sb_id r) = None" "tbl_find sb_id (sb_id r) (subs s) = Some r"
    and "tbl_find u_id k (users s) = Some u"
  shows "\<exists>u'. tbl_find u_id k (users (settle_expired fault clock r s)) = Some u' \<and>
     u_subscriptionStatus u' = Some (sb_status r) \<and> u_subscriptionExpiresAt u' = Some (sb_expiresAt r)"
  using assms by (simp add: settle_expired_def processRenewal_row find_user_update)

lemma settle_users_other:
  assumes "to_settle rs s" "\<forall>r \<in> set rs. sb_userId r \<noteq> k"
  shows "tbl_find u_id k (users (fold (settle_expired fault clock) rs s)) = tbl_find u_id k (users s)"
  using assms
proof (induction rs arbitrary: s)
  case (Cons r rs)
  then show ?case
    using settle_user_other [of r k s] to_settle_found [OF Cons.prems(1), of r] to_settle_Cons(2) [OF Cons.prems(1)] by simp
qed simp

text \<open>
  After the job has renewed the one subscription of a user that was due, the row of the
  user says it is active and already over: it keeps the expiry date from before the renewal,
  because the job writes the columns of the row it loaded first.
\<close>

lemma renewed_user_looks_expired:
  assumes "distinct (map sb_id (subs s))" and "\<forall>r \<in> set (subs s). round_to 2 (sb_price r) = sb_price r"
    and "filter (\<lambda>r. renewal_due now r \<and> sb_userId r = k) (subs s) = [r]" and "sb_autoRenew r" and "fault (sb_id r) = None"
    and "tbl_find u_id k (users s) = Some u" and "now \<le> clock (sb_id r)"
  shows "\<exists>u' r'. tbl_find u_id k (users (checkExpiredSubscriptions fault now clock s)) = Some u'
     \<and> tbl_find sb_id (sb_id r) (subs (checkExpiredSubscriptions fault now clock s)) = Some r'
     \<and> u_subscriptionStatus u' = Some SUB_ACTIVE \<and> sb_status r' = SUB_ACTIVE
     \<and> u_subscriptionExpiresAt u' = Some (sb_expiresAt r) \<and> sb_expiresAt r < now \<and> now < sb_expiresAt r'"
proof -
  let ?rs = "filter (renewal_due now) (subs s)" and ?t = "checkExpiredSubscriptions fault now clock s"
  have rs: "to_settle ?rs s" using assms(1,2) by (rule to_settle_due)
  obtain us vs where uv: "subs s = us @ r # vs" "\<forall>u \<in> set us. renewal_due now u \<longrightarrow> sb_userId u \<noteq> k" "renewal_due now r"
    "sb_userId r = k" "\<forall>u \<in> set vs. renewal_due now u \<longrightarrow> sb_userId u \<noteq> k"
    using assms(3) unfolding filter_eq_Cons_iff by (auto simp: filter_empty_conv [of _ vs for vs] dest!: sym [of "[]"])
  define xs ys where "xs = filter (renewal_due now) us" and "ys = filter (renewal_due now) vs"
  have split: "?rs = xs @ r # ys" and k: "sb_userId r = k"
    and others: "\<forall>x \<in> set xs. sb_userId x \<noteq> k" "\<forall>x \<in> set ys. sb_userId x \<noteq> k"
    using uv by (auto simp: xs_def ys_def)
  have r: "r \<in> set (subs s)" "renewal_due now r" using uv(1,3) by simp_all
  let ?s1 = "fold (settle_expired fault clock) xs s"
  have s1: "to_settle (r # ys) ?s1" and xs: "to_settle xs s" using to_settle_append rs unfolding split by blast+
  have "tbl_find u_id k (users ?s1) = Some u" using settle_users_other [OF xs others(1)] assms(6) by simp
  then obtain u' where u': "tbl_find u_id k (users (settle_expired fault clock r ?s1)) = Some u'"
    "u_subscriptionStatus u' = Some (sb_status r)" "u_subscriptionExpiresAt u' = Some (sb_expiresAt r)"
    using settle_user_stale [of r k fault, OF k assms(4,5) to_settle_found [OF s1]] by auto
  have "users ?t = users (fold (settle_expired fault clock) ys (settle_expired fault clock r ?s1))"
    by (simp add: checkExpiredSubscriptions_def split)
  then have user: "tbl_find u_id k (users ?t) = Some u'"
    using settle_users_other [OF to_settle_Cons(2) [OF s1] others(2)] u'(1) by simp
  have rows: "subs ?t = map (\<lambda>r. if renewal_due now r then settled_row fault clock r else r) (subs s)"
    using assms(1,2) by (rule sweep_rows)
  then have "settled_row fault clock r \<in> set (subs ?t)" "map sb_id (subs ?t) = map sb_id (subs s)"
    using r by (auto simp: image_iff)
  then have "tbl_find sb_id (sb_id r) (subs ?t) = Some (settled_row fault clock r)"
    using tbl_find_distinct [of sb_id "subs ?t" "settled_row fault clock r"] assms(1) by simp
  moreover have "now < sb_expiresAt (settled_row fault clock r)"
    using billing_bound [of "clock (sb_id r)" "sb_billingCycle r"] assms(4,5,7)
    by (simp add: settled_row_def day_ms_def)
  ultimately show ?thesis
    using user u'(2,3) r(2) assms(4,5) by (intro exI [of _ u'] exI [of _ "settled_row fault clock r"]) (simp add: renewal_due_def settled_row_def)
qed

subsection \<open>Activation\<close>

lemma createSubscription_row:
  assumes "createSubscription sid now userId dto s = (Inr row, t)"
  shows "t = updateUserSubscriptionStatus userId row (save_sub row s)" and "sb_id row = sid"
    and "sb_status row = SUB_PENDING" and "sb_userId row = userId" and "cs_tier dto = Some (sb_tier row)"
    and "sb_autoRenew row \<longleftrightarrow> cs_autoRenew dto \<noteq> Some False"
    and "getActiveSubscription userId s = None"
proof -
  obtain b c where b: "getActiveSubscription userId s = None" "cs_tier dto = Some b" "getTierConfig (Some b) = Some c"
    using assms by (cases "cs_tier dto") (auto simp: createSubscription_def split: option.splits)
  moreover have "tc_tier c = b" using getTierConfig_Some [of b] b(3) by (metis option.inject)
  ultimately show "t = updateUserSubscriptionStatus userId row (save_sub row s)" "sb_id row = sid"
    "sb_status row = SUB_PENDING" "sb_userId row = userId" "cs_tier dto = Some (sb_tier row)"
    "sb_autoRenew row \<longleftrightarrow> cs_autoRenew dto \<noteq> Some False" "getActiveSubscription userId s = None"
    using assms by (auto simp: createSubscription_def Let_def split: if_splits option.splits)
qed

text \<open>
  Nothing between the request for a subscription and its activation is a payment: the
  renewal of the pending row, which any signed-in user may ask for, makes it the active one with a
  payment date, whatever its tier and with no payment method. A subscription requested without
  automatic renewal cannot be activated at all.
\<close>

lemma activation_without_payment:
  assumes "createSubscription sid now userId dto s = (Inr row, t)"
  shows "if cs_autoRenew dto = Some False
     then snd (processRenewal None later sid t) = t \<and> getActiveSubscription userId t = None
     else \<exists>active u. processRenewal None later sid t = (Inr active, u)
       \<and> getActiveSubscription userId u = Some (active\<lparr>sb_price := round_to 2 (sb_price active)\<rparr>)
       \<and> sb_lastPaymentAt active = Some later \<and> Some (current_tier userId u) = cs_tier dto"
proof -
  note row = createSubscription_row [OF assms]
  let ?row = "row\<lparr>sb_price := round_to 2 (sb_price row)\<rparr>"
  have found: "tbl_find sb_id sid (subs t) = Some ?row" using row(2) by (simp add: row(1))
  have others: "sb_userId x = userId \<longrightarrow> sb_status x \<noteq> SUB_ACTIVE" if "x \<in> set (subs t)" for x
    using that row(3,7) by (auto simp: row(1) no_active_row dest!: tbl_save_mem)
  have "snd (processRenewal None later sid t) = t \<and> getActiveSubscription userId t = None" if "cs_autoRenew dto = Some False"
    using that found row(6) others by (simp add: processRenewal_row no_active_row)
  moreover have "\<exists>active u. processRenewal None later sid t = (Inr active, u)
      \<and> getActiveSubscription userId u = Some (active\<lparr>sb_price := round_to 2 (sb_price active)\<rparr>)
      \<and> sb_lastPaymentAt active = Some later \<and> Some (current_tier userId u) = cs_tier dto"
    if "cs_autoRenew dto \<noteq> Some False"
  proof -
    have auto: "sb_autoRenew ?row" using row(6) that by simp
    let ?active = "renewed_row later ?row"
    let ?u = "updateUserSubscriptionStatus userId ?active (save_sub ?active t)"
    let ?saved = "?active\<lparr>sb_price := round_to 2 (sb_price ?active)\<rparr>"
    have renewal: "processRenewal None later sid t = (Inr ?active, ?u)"
      using found auto row(4) by (simp add: processRenewal_row)
    have mem: "?saved \<in> set (subs ?u)" by simp
    have only: "x = ?saved" if "x \<in> set (subs ?u)" "sb_userId x = userId" "sb_status x = SUB_ACTIVE" for x
      using that others by (auto dest!: tbl_save_mem)
    have active: "getActiveSubscription userId ?u = Some ?saved"
    proof (cases "getActiveSubscription userId ?u")
      case None
      then have "sb_status ?saved \<noteq> SUB_ACTIVE" using mem row(4) unfolding no_active_row by fastforce
      then show ?thesis by simp
    next
      case (Some x)
      then show ?thesis using only [OF active_row [OF Some]] by simp
    qed
    show ?thesis
      using renewal active row(5) by (intro exI [of _ ?active] exI [of _ ?u]) (simp add: current_tier_def)
  qed
  ultimately show ?thesis by simp
qed

text \<open>
  An upgrade takes the paid plan away: the subscription becomes pending, so that a user
  with one active subscription is treated as a free user, loses the premium mark, and is refused
  a second upgrade or a cancellation until somebody renews the row.
\<close>

lemma upgrade_suspends_access:
  assumes "upgradeSubscription now userId dto s = (Inr row, t)"
    and "distinct (map sb_id (subs s))"
    and "\<forall>r \<in> set (subs s). \<forall>r' \<in> set (subs s). sb_userId r = userId \<and> sb_userId r' = userId
           \<and> sb_status r = SUB_ACTIVE \<and> sb_status r' = SUB_ACTIVE \<longrightarrow> r = r'"
  shows "current_tier userId t = TIER_FREE
    \<and> fst (upgradeSubscription now' userId dto' t) = Inl (NotFoundException [Txt ''No active subscription found''])
    \<and> fst (cancelSubscription now' userId reason t) = Inl (NotFoundException [Txt ''No active subscription found''])
    \<and> (\<forall>u. tbl_find u_id userId (users t) = Some u \<longrightarrow> \<not> u_hasPremiumSubscription u)"
proof -
  obtain current c where cur: "getActiveSubscription userId s = Some current"
    using assms(1) by (auto simp: upgradeSubscription_def split: option.splits)
  have row: "sb_id row = sb_id current" "sb_status row = SUB_PENDING"
    and t: "t = updateUserSubscriptionStatus userId row (save_sub row s)"
    using assms(1) cur by (auto simp: upgradeSubscription_def Let_def split: option.splits if_splits)
  note c = active_row [OF cur]
  have "sb_status x \<noteq> SUB_ACTIVE" if x: "x \<in> set (subs t)" "sb_userId x = userId" for x
  proof (cases "x = row\<lparr>sb_price := round_to 2 (sb_price row)\<rparr>")
    case False
    then have "x \<in> set (subs s)" "sb_id x \<noteq> sb_id current"
      using x(1) tbl_save_others [of x sb_id "row\<lparr>sb_price := round_to 2 (sb_price row)\<rparr>" "subs s"] assms(2) row(1)
      by (auto simp: t)
    then show ?thesis using assms(3) c x(2) by metis
  qed (use row(2) in simp)
  then have none: "getActiveSubscription userId t = None" by (simp add: no_active_row)
  have "current_tier userId t = TIER_FREE" using none by (simp add: current_tier_def)
  moreover have "\<not> u_hasPremiumSubscription u" if "tbl_find u_id userId (users t) = Some u" for u
    using that row(2) by (auto simp: t find_user_update split: option.splits)
  ultimately show ?thesis using none by (simp add: upgradeSubscription_def cancelSubscription_def)
qed

subsection \<open>Examples\<close>

definition sample_user :: user_row where
  "sample_user = \<lparr>u_id = 7, u_subscriptionTier = TIER_FREE, u_subscriptionStatus = None,
     u_subscriptionExpiresAt = None, u_hasPremiumSubscription = False\<rparr>"

definition sample_subs :: sub_db where
  "sample_subs = \<lparr>subs = [], users = [sample_user], owned = []\<rparr>"

definition sample_create :: create_subscription_dto where
  "sample_create = \<lparr>cs_tier = Some TIER_BASIC, cs_billingCycle = Some MONTHLY, cs_paymentMethodToken = None,
     cs_paymentProvider = None, cs_autoRenew = None\<rparr>"

definition sample_upgrade :: upgrade_subscription_dto where
  "sample_upgrade = \<lparr>up_targetTier = Some TIER_PREMIUM, up_billingCycle = None, up_paymentMethodToken = None\<rparr>"

definition sample_created :: sub_db where
  "sample_created = snd (createSubscription ''a'' 0 7 sample_create sample_subs)"

definition sample_active :: sub_db where
  "sample_active = snd (processRenewal None 5 ''a'' sample_created)"

definition sample_twice :: sub_db where
  "sample_twice = snd (processRenewal None 5 ''b'' (snd (processRenewal None 5 ''a'' (snd (createSubscription ''b'' 1 7 sample_create sample_created)))))"

lemma sample_twice_rows:
  "map (\<lambda>r. (sb_id r, sb_userId r, sb_status r)) (subs sample_twice) = [(''a'', 7, SUB_ACTIVE), (''b'', 7, SUB_ACTIVE)]"
  by code_simp

lemma sample_active_rows:
  "map (\<lambda>r. (sb_id r, sb_userId r, sb_status r, sb_autoRenew r, sb_expiresAt r, sb_price r)) (subs sample_active)
     = [(''a'', 7, SUB_ACTIVE, True, 31 * day_ms + 5, 999 / 100)]"
  by code_simp

lemma sample_reachable:
  "sub_reachable sample_subs" "sub_reachable sample_created" "sub_reachable sample_active" "sub_reachable sample_twice"
proof -
  show s0: "sub_reachable sample_subs" unfolding sample_subs_def by (rule sub_reachable.start)
  have new: "tbl_find sb_id ''a'' (subs sample_subs) = None" "tbl_find sb_id ''b'' (subs sample_created) = None" by code_simp+
  show s1: "sub_reachable sample_created"
    unfolding sample_created_def by (rule sub_reachable.step [OF s0]) (rule sub_step.created [OF new(1) surjective_pairing])
  show "sub_reachable sample_active"
    unfolding sample_active_def by (rule sub_reachable.step [OF s1]) (rule sub_step.renewed [OF surjective_pairing])
  show "sub_reachable sample_twice"
    unfolding sample_twice_def
    by (rule sub_reachable.step [OF sub_reachable.step [OF sub_reachable.step [OF s1
        sub_step.created [OF new(2) surjective_pairing]] sub_step.renewed [OF surjective_pairing]]
        sub_step.renewed [OF surjective_pairing]])
qed

text \<open>Nothing keeps a user from having two active subscriptions: only an active one blocks a request,
  and pending ones are renewed one by one.\<close>

lemma two_active_subscriptions:
  "\<exists>s r r'. sub_reachable s \<and> r \<in> set (subs s) \<and> r' \<in> set (subs s) \<and> sb_id r \<noteq> sb_id r' \<and> sb_userId r = sb_userId r'
     \<and> sb_status r = SUB_ACTIVE \<and> sb_status r' = SUB_ACTIVE"
proof -
  obtain r r' where "subs sample_twice = [r, r']" "sb_id r = ''a''" "sb_id r' = ''b''" "sb_userId r = 7" "sb_userId r' = 7"
    "sb_status r = SUB_ACTIVE" "sb_status r' = SUB_ACTIVE"
    using sample_twice_rows by (auto simp: map_eq_Cons_conv)
  then show ?thesis
    using sample_reachable(4) by (intro exI [of _ sample_twice] exI [of _ r] exI [of _ r']) simp
qed

lemma sample_active_single:
  obtains r where "subs sample_active = [r]" "sb_id r = ''a''" "sb_userId r = 7" "sb_status r = SUB_ACTIVE" "sb_autoRenew r"
    "sb_expiresAt r = 31 * day_ms + 5" "sb_price r = 999 / 100"
  using sample_active_rows that by (auto simp: map_eq_Cons_conv)

theorem upgrade_keeps_permissions_witness:
  "\<not> canPerformAction 7 (Some MAX_LISTINGS) 6 sample_subs \<and> canPerformAction 7 (Some MAX_LISTINGS) 5 sample_active"
proof -
  have "current_tier 7 sample_active \<in> set (getUpgradePaths 7 sample_subs)" "owned sample_active = owned sample_subs"
    "canPerformAction 7 (Some MAX_LISTINGS) 5 sample_subs" "\<not> canPerformAction 7 (Some MAX_LISTINGS) 6 sample_subs"
    by code_simp+
  then show ?thesis using upgrade_keeps_permissions by blast
qed

theorem subscriptions_never_expire_witness:
  "sb_status (hd (subs sample_twice)) \<noteq> SUB_EXPIRED \<and> sb_autoRenew (hd (subs sample_twice))"
proof -
  have "hd (subs sample_twice) \<in> set (subs sample_twice)" "sb_status (hd (subs sample_twice)) = SUB_ACTIVE"
    using sample_twice_rows by (auto simp: map_eq_Cons_conv)
  then show ?thesis using subscriptions_never_expire [OF sample_reachable(4)] by simp
qed

theorem sweep_settles_exactly_due_witness:
  "filter (renewal_due (40 * day_ms)) (subs sample_active) \<noteq> [] \<and>
   filter (renewal_due (40 * day_ms)) (subs (checkExpiredSubscriptions (\<lambda>_. None) (40 * day_ms) (\<lambda>_. 40 * day_ms) sample_active)) = []"
proof -
  obtain r where r: "subs sample_active = [r]" "sb_id r = ''a''" "sb_userId r = 7" "sb_status r = SUB_ACTIVE" "sb_autoRenew r"
    "sb_expiresAt r = 31 * day_ms + 5" "sb_price r = 999 / 100" by (rule sample_active_single)
  have price: "round_to 2 (sb_price r) = sb_price r" unfolding r(7) by code_simp
  have "distinct (map sb_id (subs sample_active))" "\<forall>r \<in> set (subs sample_active). round_to 2 (sb_price r) = sb_price r"
    using r(1) price by simp_all
  from sweep_settles_exactly_due [OF this, of "40 * day_ms" "\<lambda>_. 40 * day_ms" "\<lambda>_. None"]
  have "\<forall>r \<in> set (subs (checkExpiredSubscriptions (\<lambda>_. None) (40 * day_ms) (\<lambda>_. 40 * day_ms) sample_active)). \<not> renewal_due (40 * day_ms) r"
    by blast
  then show ?thesis using r by (simp add: renewal_due_def day_ms_def filter_empty_conv)
qed

theorem renewed_user_looks_expired_witness:
  "\<exists>u. tbl_find u_id 7 (users (checkExpiredSubscriptions (\<lambda>_. None) (40 * day_ms) (\<lambda>_. 40 * day_ms) sample_active)) = Some u
     \<and> u_subscriptionStatus u = Some SUB_ACTIVE \<and> u_subscriptionExpiresAt u = Some (31 * day_ms + 5)"
proof -
  obtain r where r: "subs sample_active = [r]" "sb_id r = ''a''" "sb_userId r = 7" "sb_status r = SUB_ACTIVE" "sb_autoRenew r"
    "sb_expiresAt r = 31 * day_ms + 5" "sb_price r = 999 / 100" by (rule sample_active_single)
  have price: "round_to 2 (999 / 100) = 999 / 100" by code_simp
  have "tbl_find u_id 7 (users sample_active) \<noteq> None" by code_simp
  then obtain u where "tbl_find u_id 7 (users sample_active) = Some u" by blast
  then show ?thesis
    using renewed_user_looks_expired [of sample_active "40 * day_ms" 7 r "\<lambda>_. None" u "\<lambda>_. 40 * day_ms"] r price
    by (auto simp: renewal_due_def day_ms_def)
qed

definition sample_cancelled :: sub_db where
  "sample_cancelled = snd (cancelSubscription 9 7 None sample_active)"

theorem cancelled_subscription_final_witness:
  "\<exists>r. sb_status r = SUB_CANCELLED \<and> tbl_find sb_id ''a'' (subs (snd (processRenewal None 10 ''a'' sample_cancelled))) = Some r"
proof -
  have "map_option sb_status (tbl_find sb_id ''a'' (subs sample_cancelled)) = Some SUB_CANCELLED" by code_simp
  then obtain r where r: "tbl_find sb_id ''a'' (subs sample_cancelled) = Some r" "sb_status r = SUB_CANCELLED" by auto
  have "sub_reachable sample_cancelled"
    unfolding sample_cancelled_def
    by (rule sub_reachable.step [OF sample_reachable(3)]) (rule sub_step.cancelled [OF surjective_pairing])
  moreover have "sub_step\<^sup>*\<^sup>* sample_cancelled (snd (processRenewal None 10 ''a'' sample_cancelled))"
    by (rule r_into_rtranclp) (rule sub_step.renewed [OF surjective_pairing])
  ultimately show ?thesis using cancelled_subscription_final r by blast
qed

theorem activation_without_payment_witness:
  "\<exists>active u. processRenewal None 5 ''a'' sample_created = (Inr active, u) \<and> current_tier 7 u = TIER_BASIC"
proof -
  have "\<not> isl (fst (createSubscription ''a'' 0 7 sample_create sample_subs))" by code_simp
  then obtain row where "fst (createSubscription ''a'' 0 7 sample_create sample_subs) = Inr row"
    by (cases "fst (createSubscription ''a'' 0 7 sample_create sample_subs)") simp_all
  then have "createSubscription ''a'' 0 7 sample_create sample_subs = (Inr row, sample_created)"
    by (simp add: sample_created_def prod_eq_iff)
  from activation_without_payment [OF this, of 5] show ?thesis by (auto simp: sample_create_def)
qed

theorem upgrade_suspends_access_witness:
  "current_tier 7 sample_active = TIER_BASIC \<and> current_tier 7 (snd (upgradeSubscription 6 7 sample_upgrade sample_active)) = TIER_FREE"
proof -
  have before: "current_tier 7 sample_active = TIER_BASIC" by code_simp
  have "\<not> isl (fst (upgradeSubscription 6 7 sample_upgrade sample_active))" by code_simp
  then obtain row where "fst (upgradeSubscription 6 7 sample_upgrade sample_active) = Inr row"
    by (cases "fst (upgradeSubscription 6 7 sample_upgrade sample_active)") simp_all
  then obtain t where up: "upgradeSubscription 6 7 sample_upgrade sample_active = (Inr row, t)"
    by (metis prod.collapse)
  obtain r where r: "subs sample_active = [r]" by (rule sample_active_single)
  from upgrade_suspends_access [OF up] r up before show ?thesis by auto
qed

end
