(* ===== verification/Fraud.thy ===== *)
theory Fraud
  imports Milestones
begin

text \<open>
  Fraud detection: the scoring rules (src/src/fraud/score.ts), \<open>FraudService\<close>
  (fraud/fraud.service.ts), the middleware that runs before every request
  (fraud/middleware/request-monitor.middleware.ts), the counter of the cache
  (cache/cache.service.ts), the distance of geolocation/geolocation.service.ts, the suspension of
  admin/admin.service.ts and its webhook (admin/admin-webhook.service.ts), and the three rules over
  Redis (fraud/rules) with the client that store/redis.store.ts builds for tests.

  Redis, the lookup of an IP address and the geocoder are not part of the program: they are the
  arguments \<open>ops\<close>, \<open>geo_ip\<close> and \<open>geo_code\<close>. New ids and the clock are parameters.
\<close>

subsection \<open>Scoring\<close>

record geo_point =
  latitude :: real
  longitude :: real

text \<open>\<open>metadata\<close> has type \<open>any\<close>: an address of a request is an object or a text.\<close>

record geo_address =
  ga_street :: "string option"
  ga_city :: "string option"
  ga_state :: "string option"
  ga_postalCode :: "string option"
  ga_country :: "string option"

datatype address = AddrText string | AddrObject geo_address

record fraud_metadata =
  fm_amount :: "number option"
  fm_orderCount :: "number option"
  fm_duplicateOrderInWindow :: "bool option"
  fm_knownBadIp :: "bool option"
  fm_accountAgeDays :: "number option"
  fm_accountAgeHours :: "number option"
  fm_billingAddress :: "string option"
  fm_shippingAddress :: "address option"
  fm_failedPaymentCount :: "number option"
  fm_isFirstOrder :: "bool option"
  fm_geoDistanceMiles :: "real option"
  fm_ipGeoPoint :: "geo_point option"
  fm_shippingGeoPoint :: "geo_point option"

record fraud_input =
  fi_userId :: "string option"
  fi_orderId :: "uuid option"
  fi_ip :: "string option"
  fi_deviceFingerprint :: "string option"
  fi_metadata :: "fraud_metadata option"

record score_result =
  sr_riskScore :: int
  sr_reason :: string
  sr_triggeredRules :: "string list"

record fraud_rule =
  fr_name :: string
  fr_score :: int
  fr_check :: "fraud_input \<Rightarrow> error + bool"

text \<open>\<open>metadata?.field ?? d\<close>.\<close>

definition meta :: "(fraud_metadata \<Rightarrow> 'a option) \<Rightarrow> fraud_input \<Rightarrow> 'a option" where
  "meta field input = (case fi_metadata input of None \<Rightarrow> None | Some m \<Rightarrow> field m)"

definition num_or :: "'a \<Rightarrow> 'a option \<Rightarrow> 'a" where
  "num_or d x = (case x of None \<Rightarrow> d | Some n \<Rightarrow> n)"

definition white_space :: "char \<Rightarrow> bool" where
  "white_space c \<longleftrightarrow> c \<in> {CHR '' '', CHR 0x09, CHR 0x0A, CHR 0x0B, CHR 0x0C, CHR 0x0D}"

definition trim_white :: "string \<Rightarrow> string" where
  "trim_white t = rev (dropWhile white_space (rev (dropWhile white_space t)))"

definition address_truthy :: "address option \<Rightarrow> bool" where
  "address_truthy a = (case a of None \<Rightarrow> False | Some (AddrText t) \<Rightarrow> t \<noteq> [] | Some (AddrObject _) \<Rightarrow> True)"

definition account_is_new :: "fraud_input \<Rightarrow> bool" where
  "account_is_new input =
     ((case meta fm_accountAgeHours input of
         Some h \<Rightarrow> h
       | None \<Rightarrow> if truthy_num (meta fm_accountAgeDays input) then num_or 0 (meta fm_accountAgeDays input) * 24 else 999) < 24)"

text \<open>An object has no \<open>trim\<close>.\<close>

definition addresses_differ :: "fraud_input \<Rightarrow> error + bool" where
  "addresses_differ input =
     (if truthy_text (meta fm_billingAddress input) \<and> address_truthy (meta fm_shippingAddress input)
      then case meta fm_shippingAddress input of
          Some (AddrText t) \<Rightarrow>
            Inr (lower_text (trim_white (or_text (meta fm_billingAddress input) [])) \<noteq> lower_text (trim_white t))
        | _ \<Rightarrow> Inl (TypeError [Txt ''metadata.shippingAddress.trim is not a function''])
      else Inr False)"

definition RULES :: "fraud_rule list" where
  "RULES =
    [\<lparr>fr_name = ''high_value_order'', fr_score = 20, fr_check = (\<lambda>input. Inr (num_or 0 (meta fm_amount input) > 500))\<rparr>,
     \<lparr>fr_name = ''new_account'', fr_score = 30, fr_check = (\<lambda>input. Inr (account_is_new input))\<rparr>,
     \<lparr>fr_name = ''billing_shipping_mismatch'', fr_score = 30, fr_check = addresses_differ\<rparr>,
     \<lparr>fr_name = ''high_velocity'', fr_score = 35, fr_check = (\<lambda>input. Inr (num_or 0 (meta fm_orderCount input) \<ge> 5))\<rparr>,
     \<lparr>fr_name = ''duplicate_order'', fr_score = 40,
      fr_check = (\<lambda>input. Inr (meta fm_duplicateOrderInWindow input = Some True))\<rparr>,
     \<lparr>fr_name = ''suspicious_amount'', fr_score = 25, fr_check = (\<lambda>input. Inr (num_or 0 (meta fm_amount input) > 10000))\<rparr>,
     \<lparr>fr_name = ''known_bad_ip'', fr_score = 50, fr_check = (\<lambda>input. Inr (meta fm_knownBadIp input = Some True))\<rparr>,
     \<lparr>fr_name = ''repeated_payment_failures'', fr_score = 35,
      fr_check = (\<lambda>input. Inr (num_or 0 (meta fm_failedPaymentCount input) \<ge> 3))\<rparr>,
     \<lparr>fr_name = ''first_order_high_value'', fr_score = 20,
      fr_check = (\<lambda>input. Inr (meta fm_isFirstOrder input = Some True \<and> num_or 0 (meta fm_amount input) > 1000))\<rparr>,
     \<lparr>fr_name = ''geo_distance'', fr_score = 50,
      fr_check = (\<lambda>input. Inr (num_or 0 (meta fm_geoDistanceMiles input) > 1000))\<rparr>]"

fun triggered_of :: "fraud_input \<Rightarrow> fraud_rule list \<Rightarrow> error + fraud_rule list" where
  "triggered_of input [] = Inr []"
| "triggered_of input (rule # rules) =
     (case fr_check rule input of
        Inl e \<Rightarrow> Inl e
      | Inr hit \<Rightarrow> case triggered_of input rules of
          Inl e \<Rightarrow> Inl e
        | Inr rest \<Rightarrow> Inr (if hit then rule # rest else rest))"

definition evaluateAllRules :: "fraud_input \<Rightarrow> error + score_result" where
  "evaluateAllRules input =
     (case triggered_of input RULES of
        Inl e \<Rightarrow> Inl e
      | Inr triggered \<Rightarrow>
        let rawScore = sum_list (map fr_score triggered);
            triggeredRules = map fr_name triggered
        in Inr \<lparr>sr_riskScore = min rawScore 100,
                sr_reason = (if triggeredRules \<noteq> [] then join_text '', '' triggeredRules else ''no_rules_triggered''),
                sr_triggeredRules = triggeredRules\<rparr>)"

subsection \<open>Geolocation\<close>

definition toRads :: "real \<Rightarrow> real" where
  "toRads x = x * pi / 180"

text \<open>\<open>Math.atan2\<close> for arguments that are not negative.\<close>

definition atan2 :: "real \<Rightarrow> real \<Rightarrow> real" where
  "atan2 y x = (if x = 0 then (if y = 0 then 0 else pi / 2) else arctan (y / x))"

definition haversine :: "geo_point \<Rightarrow> geo_point \<Rightarrow> real" where
  "haversine a b =
     (let dLat = toRads (latitude b - latitude a); dLon = toRads (longitude b - longitude a);
          lat1 = toRads (latitude a); lat2 = toRads (latitude b)
      in sin (dLat / 2) * sin (dLat / 2) + sin (dLon / 2) * sin (dLon / 2) * cos lat1 * cos lat2)"

definition distanceMiles :: "geo_point \<Rightarrow> geo_point \<Rightarrow> real" where
  "distanceMiles a b =
     (let h = haversine a b; c = 2 * atan2 (sqrt h) (sqrt (1 - h)) in 3958.8 * c)"

text \<open>What the geocoder answers: it fails, or gives places with or without coordinates.\<close>

type_synonym geocoder = "string \<Rightarrow> (real option \<times> real option) list option"

definition getLocationFromIp :: "(string \<Rightarrow> geo_point option) \<Rightarrow> string option \<Rightarrow> geo_point option" where
  "getLocationFromIp geo_ip ip = (if \<not> truthy_text ip then None else geo_ip (or_text ip []))"

definition or_empty :: "string option \<Rightarrow> string" where
  "or_empty x = (case x of None \<Rightarrow> [] | Some t \<Rightarrow> t)"

definition geocodeAddress :: "geocoder \<Rightarrow> address \<Rightarrow> geo_point option" where
  "geocodeAddress geo_code a =
     (case a of
        AddrText _ \<Rightarrow> None
      | AddrObject o' \<Rightarrow>
        if \<not> truthy_text (ga_country o') \<or> \<not> truthy_text (ga_city o') then None
        else
          let query = trim_white (or_empty (ga_street o') @ '' '' @ or_empty (ga_city o') @ '' '' @ or_empty (ga_state o') @ '' ''
                @ or_empty (ga_postalCode o') @ '' '' @ or_empty (ga_country o'))
          in case geo_code query of
               None \<Rightarrow> None
             | Some results \<Rightarrow> case results of
                 (Some lat, Some lon) # _ \<Rightarrow> Some \<lparr>latitude = lat, longitude = lon\<rparr>
               | _ \<Rightarrow> None)"

subsection \<open>Redis\<close>

text \<open>The commands the fraud code sends; \<open>INCR\<close> may fail.\<close>

record 'r fraud_redis =
  incr_cmd :: "string \<Rightarrow> 'r \<Rightarrow> nat option \<times> 'r"
  expire_cmd :: "string \<Rightarrow> int \<Rightarrow> 'r \<Rightarrow> 'r"
  setnx_cmd :: "string \<Rightarrow> string \<Rightarrow> int \<Rightarrow> 'r \<Rightarrow> bool \<times> 'r"
  sismember_cmd :: "string \<Rightarrow> string \<Rightarrow> 'r \<Rightarrow> bool"
  sadd_cmd :: "string \<Rightarrow> string \<Rightarrow> 'r \<Rightarrow> 'r"
  scard_cmd :: "string \<Rightarrow> 'r \<Rightarrow> nat"

text \<open>
  What Redis documents of them, for the keys that have not expired: \<open>INCR\<close> counts from 0 and
  answers the new count; \<open>SET NX\<close> succeeds exactly when the key is absent; the set commands are
  those of a set. \<open>EXPIRE\<close> takes a key away only after its time.
\<close>

locale fraud_store =
  fixes ops :: "'r fraud_redis"
    and counter :: "string \<Rightarrow> 'r \<Rightarrow> nat"
    and present :: "string \<Rightarrow> 'r \<Rightarrow> bool"
    and members :: "string \<Rightarrow> 'r \<Rightarrow> string set"
  assumes incr_answer: "fst (incr_cmd ops k r) = Some (counter k r + 1)"
    and incr_counter: "counter k' (snd (incr_cmd ops k r)) = (if k' = k then counter k r + 1 else counter k' r)"
    and expire_counter: "counter k' (expire_cmd ops k sec r) = counter k' r"
    and setnx_answer: "fst (setnx_cmd ops k v sec r) \<longleftrightarrow> \<not> present k r"
    and setnx_present: "present k' (snd (setnx_cmd ops k v sec r)) \<longleftrightarrow> k' = k \<or> present k' r"
    and sismember_members: "sismember_cmd ops k m r \<longleftrightarrow> m \<in> members k r"
    and sadd_members: "members k' (sadd_cmd ops k m r) = (if k' = k then insert m (members k r) else members k' r)"
    and scard_members: "scard_cmd ops k r = card (members k r)"
    and expire_members: "members k' (expire_cmd ops k sec r) = members k' r"
    and finite_members: "finite (members k r)"

text \<open>The client of store/redis.store.ts for tests: a map of values and a map of sets.\<close>

record test_client =
  tc_store :: "(string \<times> nat) list"
  tc_sets :: "(string \<times> string list) list"

definition set_of :: "string \<Rightarrow> test_client \<Rightarrow> string list" where
  "set_of key c = (case map_of (tc_sets c) key of None \<Rightarrow> [] | Some s \<Rightarrow> s)"

definition client_incr :: "string \<Rightarrow> test_client \<Rightarrow> nat option \<times> test_client" where
  "client_incr key c =
     (let v = (case map_of (tc_store c) key of None \<Rightarrow> 0 | Some n \<Rightarrow> n) + 1
      in (Some v, c\<lparr>tc_store := (key, v) # tc_store c\<rparr>))"

definition client_expire :: "string \<Rightarrow> int \<Rightarrow> test_client \<Rightarrow> test_client" where
  "client_expire key sec c = c"

text \<open>The value the rules set is the text \<open>1\<close>, which \<open>Number\<close> reads as 1.\<close>

definition client_setnx :: "string \<Rightarrow> string \<Rightarrow> int \<Rightarrow> test_client \<Rightarrow> bool \<times> test_client" where
  "client_setnx key v ttl c =
     (if map_of (tc_store c) key \<noteq> None then (False, c)
      else (True, c\<lparr>tc_store := (key, read_nat v) # tc_store c\<rparr>))"

definition client_sismember :: "string \<Rightarrow> string \<Rightarrow> test_client \<Rightarrow> bool" where
  "client_sismember key member c \<longleftrightarrow> member \<in> set (set_of key c)"

definition client_sadd :: "string \<Rightarrow> string \<Rightarrow> test_client \<Rightarrow> test_client" where
  "client_sadd key member c =
     c\<lparr>tc_sets := (key, if member \<in> set (set_of key c) then set_of key c else set_of key c @ [member]) # tc_sets c\<rparr>"

definition client_scard :: "string \<Rightarrow> test_client \<Rightarrow> nat" where
  "client_scard key c = length (remdups (set_of key c))"

definition client :: "test_client fraud_redis" where
  "client = \<lparr>incr_cmd = client_incr, expire_cmd = client_expire, setnx_cmd = client_setnx,
     sismember_cmd = client_sismember, sadd_cmd = client_sadd, scard_cmd = client_scard\<rparr>"

lemma set_of_client [simp]:
  "set (set_of k' (client_sadd k m c)) = (if k' = k then insert m (set (set_of k c)) else set (set_of k' c))"
  "set_of k (client_expire k' sec c) = set_of k c"
  by (auto simp: client_sadd_def client_expire_def set_of_def split: option.splits)

interpretation test: fraud_store client
  "\<lambda>k c. case map_of (tc_store c) k of None \<Rightarrow> 0 | Some n \<Rightarrow> n"
  "\<lambda>k c. map_of (tc_store c) k \<noteq> None" "\<lambda>k c. set (set_of k c)"
  by unfold_locales
    (auto simp: client_def client_incr_def client_setnx_def client_sismember_def client_expire_def
      client_scard_def Let_def length_remdups_card_conv split: option.splits)

subsection \<open>The rules over Redis\<close>

text \<open>Nothing calls them: the service scores with \<open>evaluateAllRules\<close> only.\<close>

definition velocity_key :: "string \<Rightarrow> string" where
  "velocity_key uid = ''fraud:velocity:'' @ uid"

definition duplicate_key :: "string \<Rightarrow> string \<Rightarrow> string" where
  "duplicate_key uid oid = ''fraud:duplicate:'' @ uid @ '':'' @ oid"

definition fingerprint_key :: "string \<Rightarrow> string" where
  "fingerprint_key fp = ''fraud:fp:'' @ fp"

definition blacklist_key :: string where
  "blacklist_key = ''fraud:blacklist:ips''"

definition evaluateVelocity :: "'r fraud_redis \<Rightarrow> string option \<Rightarrow> 'r \<Rightarrow> (int \<times> string) \<times> 'r" where
  "evaluateVelocity ops userId r =
     (if \<not> truthy_text userId then ((0, ''velocity:insufficient''), r)
      else
        let windowSec = 60; threshold = 20;
            key = velocity_key (or_text userId ''anon'');
            (answer, r) = incr_cmd ops key r;
            count' = (case answer of None \<Rightarrow> 0 | Some n \<Rightarrow> int n);
            r = expire_cmd ops key windowSec r
        in if count' > threshold
           then ((min 50 ((count' - threshold) * 2), ''velocity:'' @ int_text count' @ ''/min''), r)
           else ((0, ''velocity:ok''), r))"

definition evaluateDuplicateOrder ::
  "'r fraud_redis \<Rightarrow> string option \<Rightarrow> string option \<Rightarrow> 'r \<Rightarrow> (int \<times> string) \<times> 'r" where
  "evaluateDuplicateOrder ops userId orderId r =
     (if \<not> truthy_text userId \<or> \<not> truthy_text orderId then ((0, ''duplicate:insufficient''), r)
      else
        let key = duplicate_key (or_text userId []) (or_text orderId []);
            (fresh, r) = setnx_cmd ops key ''1'' (5 * 60) r
        in if \<not> fresh then ((40, ''duplicate:repeat-order''), r) else ((0, ''duplicate:ok''), r))"

definition evaluateIpFingerprint ::
  "'r fraud_redis \<Rightarrow> string option \<Rightarrow> string option \<Rightarrow> 'r \<Rightarrow> (int \<times> string) \<times> 'r" where
  "evaluateIpFingerprint ops ip deviceFingerprint r =
     (if \<not> truthy_text ip \<or> \<not> truthy_text deviceFingerprint then ((0, ''ip-fingerprint:insufficient''), r)
      else
        let i = or_text ip [];
            black = sismember_cmd ops blacklist_key i r;
            key = fingerprint_key (or_text deviceFingerprint []);
            wasMember = sismember_cmd ops key i r;
            r = sadd_cmd ops key i r;
            r = expire_cmd ops key (24 * 3600) r;
            multi = \<not> wasMember \<and> scard_cmd ops key r \<ge> 3;
            reasons = (if black then [''ip:blacklist''] else []) @ (if multi then [''fingerprint:multi-ip''] else [])
        in (((if black then 40 else 0) + (if multi then 30 else 0),
             if reasons = [] then ''ipfp:ok'' else join_text ''|'' reasons), r))"

subsection \<open>The service\<close>

datatype fraud_status = FS_PENDING | FS_REVIEWED | FS_SUSPENDED | FS_SAFE | FS_MANUAL_REVIEW

datatype user_status = US_ACTIVE | US_INACTIVE | US_SUSPENDED | US_DELETED | US_LOCKED

record fraud_alert =
  fa_id :: uuid
  fa_userId :: "string option"
  fa_orderId :: "uuid option"
  fa_ip :: "string option"
  fa_deviceFingerprint :: "string option"
  fa_riskScore :: int
  fa_reason :: string
  fa_status :: fraud_status
  fa_metadata :: "fraud_metadata option"
  fa_createdAt :: time

text \<open>The table of users is mapped twice: \<open>User\<close> (entities/user.entity.ts) has uuid keys and a
  status, \<open>Users\<close> (users/users.entity.ts) has numeric keys and a role.\<close>

record account_row =
  ac_id :: uuid
  ac_email :: string
  ac_firstName :: string
  ac_status :: user_status

record users_row =
  ur_id :: nat
  ur_role :: "string option"

datatype audit_status = AS_SUCCESS | AS_WARNING

datatype fraud_event =
    Alert_created uuid "string option" audit_status int fraud_status "string list"
  | Account_locked uuid uuid audit_status user_status nat
  | Alert_reviewed uuid string fraud_status fraud_status

record admin_alert =
  aa_title :: string
  aa_color :: nat
  aa_fields :: "(string \<times> string) list"

record 'r fraud_db =
  fr_core :: db
  fr_alerts :: "fraud_alert list"
  fr_accounts :: "account_row list"
  fr_users :: "users_row list"
  fr_redis :: 'r
  fr_events :: "fraud_event list"
  fr_mails :: "(string \<times> string \<times> string) list"
  fr_hooks :: "admin_alert list"

definition text_or_undefined :: "string option \<Rightarrow> string" where
  "text_or_undefined x = (case x of None \<Rightarrow> ''undefined'' | Some t \<Rightarrow> t)"

text \<open>\<open>capitalized\<close> is \<open>key.charAt(0).toUpperCase() + key.slice(1)\<close>; a failing request is only
  logged.\<close>

definition capitalized :: "string \<Rightarrow> string" where
  "capitalized key = upper_text (take 1 key) @ drop 1 key"

definition notifyAdmin ::
  "string option \<Rightarrow> string \<Rightarrow> (string \<times> string) list \<Rightarrow> int option \<Rightarrow> 'r fraud_db \<Rightarrow> 'r fraud_db" where
  "notifyAdmin webhookUrl event details riskScore s =
     (if \<not> truthy_text webhookUrl then s
      else s\<lparr>fr_hooks := fr_hooks s @
        [\<lparr>aa_title = event,
          aa_color = (case riskScore of Some n \<Rightarrow> if n \<noteq> 0 \<and> n \<ge> 90 then 15158332 else 3447003 | None \<Rightarrow> 3447003),
          aa_fields = map (\<lambda>(key, v). (capitalized key, v)) details @
            [(''Risk Score'', case riskScore of Some n \<Rightarrow> int_text n | None \<Rightarrow> ''N/A'')]\<rparr>]\<rparr>)"

definition increment :: "'r fraud_redis \<Rightarrow> string \<Rightarrow> int \<Rightarrow> 'r \<Rightarrow> nat \<times> 'r" where
  "increment ops key ttl r =
     (case incr_cmd ops key r of
        (Some n, r) \<Rightarrow> (n, if n = 1 then expire_cmd ops key ttl r else r)
      | (None, r) \<Rightarrow> (0, r))"

text \<open>A key that is \<open>NaN\<close> is refused by the driver.\<close>

definition set_role :: "string \<Rightarrow> string \<Rightarrow> 'r fraud_db \<Rightarrow> (users_row, 'r fraud_db) result" where
  "set_role role userId s =
     (case parse_int userId of
        None \<Rightarrow> (Inl (Error [Txt ''invalid input syntax for type integer: NaN'']), s)
      | Some n \<Rightarrow> case tbl_find ur_id n (fr_users s) of
          None \<Rightarrow> (Inl (ForbiddenException [Txt ''User not found'']), s)
        | Some user \<Rightarrow>
          let user = user\<lparr>ur_role := Some role\<rparr>
          in (Inr user, s\<lparr>fr_users := tbl_save ur_id user (fr_users s)\<rparr>))"

definition suspendUser :: "string \<Rightarrow> 'r fraud_db \<Rightarrow> (users_row, 'r fraud_db) result" where
  "suspendUser userId s = set_role ''SUSPENDED'' userId s"

definition activateUser :: "string \<Rightarrow> 'r fraud_db \<Rightarrow> (users_row, 'r fraud_db) result" where
  "activateUser userId s = set_role ''USER'' userId s"

text \<open>The shipping address adds the distance between the two places to the metadata.\<close>

definition enrich :: "(string \<Rightarrow> geo_point option) \<Rightarrow> geocoder \<Rightarrow> fraud_input \<Rightarrow> fraud_input" where
  "enrich geo_ip geo_code input =
     (case fi_metadata input of
        None \<Rightarrow> input
      | Some m \<Rightarrow>
        case fm_shippingAddress m of
          None \<Rightarrow> input
        | Some a \<Rightarrow>
          if truthy_text (fi_ip input) \<and> address_truthy (Some a)
          then case (getLocationFromIp geo_ip (fi_ip input), geocodeAddress geo_code a) of
              (Some ipLocation, Some shipLocation) \<Rightarrow>
                input\<lparr>fi_metadata := Some (m\<lparr>fm_geoDistanceMiles := Some (distanceMiles ipLocation shipLocation),
                  fm_ipGeoPoint := Some ipLocation, fm_shippingGeoPoint := Some shipLocation\<rparr>)\<rparr>
            | _ \<Rightarrow> input
          else input)"

definition alert_status :: "int \<Rightarrow> fraud_status" where
  "alert_status riskScore =
     (if riskScore \<ge> 90 then FS_SUSPENDED else if riskScore \<ge> 75 then FS_MANUAL_REVIEW else FS_PENDING)"

definition new_alert :: "uuid \<Rightarrow> time \<Rightarrow> fraud_input \<Rightarrow> score_result \<Rightarrow> fraud_alert" where
  "new_alert aid now input r = \<lparr>fa_id = aid, fa_userId = fi_userId input, fa_orderId = fi_orderId input,
     fa_ip = fi_ip input, fa_deviceFingerprint = fi_deviceFingerprint input, fa_riskScore = sr_riskScore r,
     fa_reason = sr_reason r, fa_status = alert_status (sr_riskScore r), fa_metadata = fi_metadata input,
     fa_createdAt = now\<rparr>"

definition save_alert :: "uuid \<Rightarrow> time \<Rightarrow> fraud_input \<Rightarrow> score_result \<Rightarrow> 'r fraud_db \<Rightarrow> 'r fraud_db" where
  "save_alert aid now input r s =
     (let alert = new_alert aid now input r
      in s\<lparr>fr_alerts := tbl_save fa_id alert (fr_alerts s),
           fr_events := fr_events s @
             [Alert_created aid (Some (or_text (fi_userId input) ''system''))
               (if fa_status alert = FS_PENDING then AS_SUCCESS else AS_WARNING)
               (sr_riskScore r) (fa_status alert) (sr_triggeredRules r)]\<rparr>)"

text \<open>The lockout: the third flag within the hour of the first one locks the account.\<close>

definition flag_key :: "string \<Rightarrow> string" where
  "flag_key uid = ''fraud_flags:'' @ uid"

definition count_flag :: "'r fraud_redis \<Rightarrow> uuid \<Rightarrow> string option \<Rightarrow> 'r fraud_db \<Rightarrow> 'r fraud_db" where
  "count_flag ops aid userId s =
     (if \<not> truthy_text userId then s
      else
        let uid = or_text userId [];
            (flagCount, r) = increment ops (flag_key uid) 3600 (fr_redis s);
            s = s\<lparr>fr_redis := r\<rparr>
        in if flagCount \<ge> 3
           then case tbl_find ac_id uid (fr_accounts s) of
               None \<Rightarrow> s
             | Some user \<Rightarrow>
               if ac_status user \<noteq> US_LOCKED
               then s\<lparr>fr_accounts := tbl_save ac_id (user\<lparr>ac_status := US_LOCKED\<rparr>) (fr_accounts s),
                      fr_events := fr_events s @ [Account_locked uid aid AS_WARNING (ac_status user) flagCount],
                      fr_mails := fr_mails s @ [(uid, ac_email user, or_text (Some (ac_firstName user)) ''User'')]\<rparr>
               else s
           else s)"

definition warn_admin :: "string option \<Rightarrow> fraud_input \<Rightarrow> score_result \<Rightarrow> 'r fraud_db \<Rightarrow> 'r fraud_db" where
  "warn_admin webhookUrl input r s =
     (if sr_riskScore r \<ge> 90
      then notifyAdmin webhookUrl ''High Risk Fraud Detected''
        [(''userId'', text_or_undefined (fi_userId input)), (''riskScore'', int_text (sr_riskScore r)),
         (''rulesTriggered'', join_text '', '' (sr_triggeredRules r)), (''ip'', text_or_undefined (fi_ip input))]
        (Some (sr_riskScore r)) s
      else s)"

definition review_order :: "int \<Rightarrow> uuid option \<Rightarrow> 'r fraud_db \<Rightarrow> (unit, 'r fraud_db) result" where
  "review_order riskScore orderId s =
     (if riskScore \<ge> 75 \<and> truthy_text orderId
      then case tbl_find o_id (or_text orderId []) (orders (fr_core s)) of
          None \<Rightarrow> (Inr (), s)
        | Some order \<Rightarrow>
          if o_status order \<noteq> OS_MANUAL_REVIEW
          then (case save_order (order\<lparr>o_status := OS_MANUAL_REVIEW\<rparr>) (fr_core s) of
              (Inl e, t) \<Rightarrow> (Inl e, s\<lparr>fr_core := t\<rparr>)
            | (Inr _, t) \<Rightarrow> (Inr (), s\<lparr>fr_core := t\<rparr>))
          else (Inr (), s)
      else (Inr (), s))"

text \<open>\<open>adminService\<close> is optional; its failure is only logged.\<close>

definition suspend_user :: "bool \<Rightarrow> int \<Rightarrow> string option \<Rightarrow> 'r fraud_db \<Rightarrow> 'r fraud_db" where
  "suspend_user hasAdmin riskScore userId s =
     (if riskScore \<ge> 90 \<and> truthy_text userId \<and> hasAdmin then snd (suspendUser (or_text userId []) s) else s)"

record fraud_verdict =
  fv_flagged :: bool
  fv_alert :: score_result

record fraud_env =
  fe_geo_ip :: "string \<Rightarrow> geo_point option"
  fe_geo_code :: geocoder
  fe_webhookUrl :: "string option"
  fe_hasAdmin :: bool

definition analyzeRequest ::
  "'r fraud_redis \<Rightarrow> fraud_env \<Rightarrow> uuid \<Rightarrow> time \<Rightarrow> fraud_input \<Rightarrow> 'r fraud_db \<Rightarrow> (fraud_verdict, 'r fraud_db) result" where
  "analyzeRequest ops env aid now input s =
     (let input = enrich (fe_geo_ip env) (fe_geo_code env) input
      in case evaluateAllRules input of
           Inl e \<Rightarrow> (Inl e, s)
         | Inr r \<Rightarrow>
           if sr_riskScore r \<ge> 20
           then
             let s = save_alert aid now input r s;
                 s = count_flag ops aid (fi_userId input) s;
                 s = warn_admin (fe_webhookUrl env) input r s
             in and_then (review_order (sr_riskScore r) (fi_orderId input) s) (\<lambda>_ s.
                  (Inr \<lparr>fv_flagged = True, fv_alert = r\<rparr>,
                   suspend_user (fe_hasAdmin env) (sr_riskScore r) (fi_userId input) s))
           else (Inr \<lparr>fv_flagged = False, fv_alert = r\<rparr>, s))"

text \<open>Latest first; the database refuses negative numbers. The controller never asks for 0 rows.\<close>

definition getAlerts :: "int option \<Rightarrow> int option \<Rightarrow> 'r fraud_db \<Rightarrow> (fraud_alert list \<times> nat \<times> int \<times> int, 'r fraud_db) result" where
  "getAlerts page pageSize s =
     (let page = num_or 1 page; pageSize = num_or 25 pageSize; skip = (page - 1) * pageSize
      in if pageSize < 0 then (Inl (Error [Txt ''LIMIT must not be negative'']), s)
         else if skip < 0 then (Inl (Error [Txt ''OFFSET must not be negative'']), s)
         else (Inr (take (nat pageSize) (drop (nat skip) (sort_key (\<lambda>a. - fa_createdAt a) (fr_alerts s))),
                    length (fr_alerts s), page, pageSize), s))"

definition reviewAlert ::
  "uuid \<Rightarrow> fraud_status \<Rightarrow> string option \<Rightarrow> 'r fraud_db \<Rightarrow> fraud_alert option \<times> 'r fraud_db" where
  "reviewAlert aid mark reviewer s =
     (case tbl_find fa_id aid (fr_alerts s) of
        None \<Rightarrow> (None, s)
      | Some alert \<Rightarrow>
        let alert' = alert\<lparr>fa_status := mark\<rparr>
        in (Some alert', s\<lparr>fr_alerts := tbl_save fa_id alert' (fr_alerts s),
              fr_events := fr_events s @ [Alert_reviewed aid (or_text reviewer ''system'') (fa_status alert) mark]\<rparr>))"

subsection \<open>The middleware\<close>

record monitored_request =
  mq_userId :: "string option"
  mq_xUserId :: "string option"
  mq_xDeviceFingerprint :: "string option"
  mq_ip :: "string option"
  mq_xForwardedFor :: "string option"
  mq_shippingAddress :: "address option"
  mq_address :: "address option"
  mq_orderShippingAddress :: "address option"

definition or_else :: "('a option \<Rightarrow> bool) \<Rightarrow> 'a option \<Rightarrow> 'a option \<Rightarrow> 'a option" where
  "or_else truthy a b = (if truthy a then a else b)"

definition request_ip :: "monitored_request \<Rightarrow> string option" where
  "request_ip req =
     (case or_else truthy_text (mq_ip req) (mq_xForwardedFor req) of
        None \<Rightarrow> None
      | Some ip \<Rightarrow> Some (if CHR '','' \<in> set ip then trim_white (takeWhile (\<lambda>c. c \<noteq> CHR '','') ip) else ip))"

definition request_address :: "monitored_request \<Rightarrow> address option" where
  "request_address req =
     (let a = or_else address_truthy (mq_shippingAddress req) (or_else address_truthy (mq_address req) (mq_orderShippingAddress req))
      in if address_truthy a then a else None)"

text \<open>The metadata of the middleware holds the path and the method, which no rule reads, the address
  and the place of the IP address.\<close>

definition monitored_input :: "fraud_env \<Rightarrow> monitored_request \<Rightarrow> fraud_input" where
  "monitored_input env req =
     \<lparr>fi_userId = or_else truthy_text (mq_userId req) (mq_xUserId req), fi_orderId = None, fi_ip = request_ip req,
      fi_deviceFingerprint = mq_xDeviceFingerprint req,
      fi_metadata = Some \<lparr>fm_amount = None, fm_orderCount = None, fm_duplicateOrderInWindow = None,
        fm_knownBadIp = None, fm_accountAgeDays = None, fm_accountAgeHours = None, fm_billingAddress = None,
        fm_shippingAddress = request_address req, fm_failedPaymentCount = None, fm_isFirstOrder = None,
        fm_geoDistanceMiles = None, fm_ipGeoPoint = getLocationFromIp (fe_geo_ip env) (request_ip req),
        fm_shippingGeoPoint = None\<rparr>\<rparr>"

text \<open>\<open>use\<close>: the result is what \<open>next\<close> receives, an exception or nothing.\<close>

definition monitor_request ::
  "'r fraud_redis \<Rightarrow> fraud_env \<Rightarrow> uuid \<Rightarrow> time \<Rightarrow> monitored_request \<Rightarrow> 'r fraud_db \<Rightarrow> (unit, 'r fraud_db) result" where
  "monitor_request ops env aid now req s =
     and_then (analyzeRequest ops env aid now (monitored_input env req) s) (\<lambda>result s.
       if fv_flagged result \<and> sr_riskScore (fv_alert result) \<ge> 90
       then (Inl (ForbiddenException [Txt ''Account suspended due to suspicious activity'']), s)
       else (Inr (), s))"

subsection \<open>Scores\<close>

lemma triggered_of_filter:
  "triggered_of input rules = Inr hits \<Longrightarrow> hits = filter (\<lambda>rule. fr_check rule input = Inr True) rules"
  by (induction rules arbitrary: hits) (auto split: sum.splits if_splits)

lemma RULES_score: "rule \<in> set RULES \<Longrightarrow> 20 \<le> fr_score rule"
  by (auto simp: RULES_def)

text \<open>
  The score of a request lies between 0 and 100; it is the capped sum of the rules that
  hold, the reported names are exactly those rules, and every rule that holds alone raises an alert
  (20 or more).
\<close>

lemma score_explained:
  assumes "evaluateAllRules input = Inr r"
  defines "hits \<equiv> filter (\<lambda>rule. fr_check rule input = Inr True) RULES"
  shows "sr_riskScore r = min (sum_list (map fr_score hits)) 100 \<and> 0 \<le> sr_riskScore r \<and> sr_riskScore r \<le> 100
    \<and> sr_triggeredRules r = map fr_name hits \<and> (20 \<le> sr_riskScore r \<longleftrightarrow> hits \<noteq> [])"
proof -
  obtain triggered where t: "triggered_of input RULES = Inr triggered"
    using assms(1) by (auto simp: evaluateAllRules_def split: sum.splits)
  then have hits: "triggered = hits" unfolding hits_def by (rule triggered_of_filter)
  have r: "sr_riskScore r = min (sum_list (map fr_score hits)) 100" "sr_triggeredRules r = map fr_name hits"
    using assms(1) t by (auto simp: evaluateAllRules_def Let_def hits)
  have pos: "0 \<le> sum_list (map fr_score hs)" if "set hs \<subseteq> set RULES" for hs
    using that by (induction hs) (auto dest!: RULES_score)
  have "20 \<le> sum_list (map fr_score hits)" if "hits \<noteq> []"
  proof -
    from that obtain h hs where h: "hits = h # hs" by (cases hits) auto
    have "set hits \<subseteq> set RULES" by (auto simp: hits_def)
    then show ?thesis using RULES_score [of h] pos [of hs] by (simp add: h)
  qed
  moreover have "0 \<le> sum_list (map fr_score hits)" by (rule pos) (auto simp: hits_def)
  ultimately show ?thesis using r by (cases "hits = []") (auto simp: min_def)
qed

text \<open>A count of days that is zero is falsy: an account of today is as old as an unknown one.\<close>

lemma account_of_today_not_new:
  assumes "fi_metadata input = Some m" "fm_accountAgeDays m = Some 0" "fm_accountAgeHours m = None"
  shows "\<not> account_is_new input"
  using assms by (simp add: account_is_new_def meta_def)

lemma haversine_sym: "haversine a b = haversine b a"
proof -
  have neg: "toRads (x - y) / 2 = - (toRads (y - x) / 2)" for x y by (simp add: toRads_def field_simps)
  show ?thesis
    unfolding haversine_def Let_def neg [of "latitude b" "latitude a"] neg [of "longitude b" "longitude a"]
    by (simp add: mult_ac)
qed

lemma distanceMiles_sym: "distanceMiles a b = distanceMiles b a"
  by (simp add: distanceMiles_def haversine_sym [of a b])

lemma distance_of_antipodes:
  "distanceMiles \<lparr>latitude = 0, longitude = 0\<rparr> \<lparr>latitude = 0, longitude = 180\<rparr> = 3958.8 * pi"
  by (simp add: distanceMiles_def haversine_def atan2_def toRads_def Let_def)

subsection \<open>The middleware never blocks\<close>

text \<open>All the rules can learn from the middleware is the distance.\<close>

definition known_distance :: "fraud_env \<Rightarrow> monitored_request \<Rightarrow> real option" where
  "known_distance env req = meta fm_geoDistanceMiles (enrich (fe_geo_ip env) (fe_geo_code env) (monitored_input env req))"

lemma enriched_monitored_input:
  obtains m where "fi_metadata (enrich (fe_geo_ip env) (fe_geo_code env) (monitored_input env req)) = Some m"
    "fm_geoDistanceMiles m = known_distance env req" "fm_amount m = None" "fm_orderCount m = None"
    "fm_duplicateOrderInWindow m = None" "fm_knownBadIp m = None" "fm_accountAgeDays m = None"
    "fm_accountAgeHours m = None" "fm_billingAddress m = None" "fm_failedPaymentCount m = None" "fm_isFirstOrder m = None"
proof -
  obtain m0 where m0: "fi_metadata (monitored_input env req) = Some m0" by (simp add: monitored_input_def)
  define e where "e = enrich (fe_geo_ip env) (fe_geo_code env) (monitored_input env req)"
  have "\<exists>m. fi_metadata e = Some m \<and> fm_amount m = fm_amount m0 \<and> fm_orderCount m = fm_orderCount m0
      \<and> fm_duplicateOrderInWindow m = fm_duplicateOrderInWindow m0 \<and> fm_knownBadIp m = fm_knownBadIp m0
      \<and> fm_accountAgeDays m = fm_accountAgeDays m0 \<and> fm_accountAgeHours m = fm_accountAgeHours m0
      \<and> fm_billingAddress m = fm_billingAddress m0 \<and> fm_failedPaymentCount m = fm_failedPaymentCount m0
      \<and> fm_isFirstOrder m = fm_isFirstOrder m0"
    unfolding e_def using m0 by (simp add: enrich_def split: option.splits prod.splits)
  then show thesis
    using that m0 unfolding e_def known_distance_def by (auto simp: meta_def monitored_input_def)
qed

lemma monitored_score:
  "evaluateAllRules (enrich (fe_geo_ip env) (fe_geo_code env) (monitored_input env req)) =
     Inr (if num_or 0 (known_distance env req) > 1000
          then \<lparr>sr_riskScore = 50, sr_reason = ''geo_distance'', sr_triggeredRules = [''geo_distance'']\<rparr>
          else \<lparr>sr_riskScore = 0, sr_reason = ''no_rules_triggered'', sr_triggeredRules = []\<rparr>)"
proof -
  obtain m where m: "fi_metadata (enrich (fe_geo_ip env) (fe_geo_code env) (monitored_input env req)) = Some m"
    "fm_geoDistanceMiles m = known_distance env req" "fm_amount m = None" "fm_orderCount m = None"
    "fm_duplicateOrderInWindow m = None" "fm_knownBadIp m = None" "fm_accountAgeDays m = None"
    "fm_accountAgeHours m = None" "fm_billingAddress m = None" "fm_failedPaymentCount m = None" "fm_isFirstOrder m = None"
    by (rule enriched_monitored_input)
  then show ?thesis
    by (simp add: evaluateAllRules_def RULES_def meta_def num_or_def account_is_new_def addresses_differ_def)
qed

lemma enrich_keeps [simp]:
  "fi_userId (enrich geo_ip geo_code input) = fi_userId input"
  "fi_orderId (enrich geo_ip geo_code input) = fi_orderId input"
  by (auto simp: enrich_def split: option.splits)

definition flag_effects :: "'r fraud_redis \<Rightarrow> fraud_env \<Rightarrow> uuid \<Rightarrow> time \<Rightarrow> fraud_input \<Rightarrow> score_result \<Rightarrow> 'r fraud_db \<Rightarrow> 'r fraud_db" where
  "flag_effects ops env aid now input r s =
     warn_admin (fe_webhookUrl env) input r (count_flag ops aid (fi_userId input) (save_alert aid now input r s))"

lemma analyzeRequest_scored:
  assumes "evaluateAllRules (enrich (fe_geo_ip env) (fe_geo_code env) input) = Inr r"
  shows "analyzeRequest ops env aid now input s =
    (if sr_riskScore r \<ge> 20
     then and_then (review_order (sr_riskScore r) (fi_orderId input)
         (flag_effects ops env aid now (enrich (fe_geo_ip env) (fe_geo_code env) input) r s))
       (\<lambda>_ s. (Inr \<lparr>fv_flagged = True, fv_alert = r\<rparr>,
          suspend_user (fe_hasAdmin env) (sr_riskScore r) (fi_userId input) s))
     else (Inr \<lparr>fv_flagged = False, fv_alert = r\<rparr>, s))"
  by (simp add: analyzeRequest_def flag_effects_def assms Let_def)

lemma review_order_low: "riskScore < 75 \<Longrightarrow> review_order riskScore orderId s = (Inr (), s)"
  by (simp add: review_order_def)

lemma monitor_request_through:
  "monitor_request ops env aid now req s = (Inr (), snd (analyzeRequest ops env aid now (monitored_input env req) s))"
  using analyzeRequest_scored [OF monitored_score [of env req], of ops aid now s]
  by (simp add: monitor_request_def review_order_low split: if_splits)

text \<open>
  The middleware blocks no request, whatever it holds: of the ten rules only the distance can
  fire there, which scores 50, and a request is blocked from 90 on.
\<close>

lemma middleware_never_blocks:
  "fst (monitor_request ops env aid now req s) = Inr ()"
  by (simp add: monitor_request_through)

subsection \<open>The lockout\<close>

lemma warn_admin_keeps [simp]:
  "fr_accounts (warn_admin url input r s) = fr_accounts s" "fr_redis (warn_admin url input r s) = fr_redis s"
  "fr_core (warn_admin url input r s) = fr_core s"
  by (simp_all add: warn_admin_def notifyAdmin_def)

lemma save_alert_keeps [simp]:
  "fr_accounts (save_alert aid now input r s) = fr_accounts s" "fr_redis (save_alert aid now input r s) = fr_redis s"
  "fr_core (save_alert aid now input r s) = fr_core s"
  by (simp_all add: save_alert_def Let_def)

lemma review_order_keeps [simp]:
  "fr_accounts (snd (review_order n oid s)) = fr_accounts s" "fr_redis (snd (review_order n oid s)) = fr_redis s"
  by (auto simp: review_order_def split: option.splits prod.splits sum.splits)

lemma suspend_user_keeps [simp]:
  "fr_accounts (suspend_user b n uid s) = fr_accounts s" "fr_redis (suspend_user b n uid s) = fr_redis s"
  by (auto simp: suspend_user_def suspendUser_def set_role_def Let_def split: option.splits)

text \<open>What a request changes of the accounts and of Redis is what its flag does.\<close>

lemma analyzeRequest_accounts:
  assumes "evaluateAllRules (enrich (fe_geo_ip env) (fe_geo_code env) input) = Inr r" "20 \<le> sr_riskScore r"
  defines "i \<equiv> enrich (fe_geo_ip env) (fe_geo_code env) input"
  shows "fr_accounts (snd (analyzeRequest ops env aid now input s)) = fr_accounts (count_flag ops aid (fi_userId input) (save_alert aid now i r s))"
    and "fr_redis (snd (analyzeRequest ops env aid now input s)) = fr_redis (count_flag ops aid (fi_userId input) (save_alert aid now i r s))"
proof -
  let ?s = "flag_effects ops env aid now i r s"
  have "fr_accounts (snd (analyzeRequest ops env aid now input s)) = fr_accounts (snd (review_order (sr_riskScore r) (fi_orderId input) ?s))"
    and "fr_redis (snd (analyzeRequest ops env aid now input s)) = fr_redis (snd (review_order (sr_riskScore r) (fi_orderId input) ?s))"
    using analyzeRequest_scored [OF assms(1), of ops aid now s] assms(2)
    by (cases "review_order (sr_riskScore r) (fi_orderId input) ?s"; cases "fst (review_order (sr_riskScore r) (fi_orderId input) ?s)";
        simp add: i_def)+
  then show "fr_accounts (snd (analyzeRequest ops env aid now input s)) = fr_accounts (count_flag ops aid (fi_userId input) (save_alert aid now i r s))"
    and "fr_redis (snd (analyzeRequest ops env aid now input s)) = fr_redis (count_flag ops aid (fi_userId input) (save_alert aid now i r s))"
    by (simp_all add: flag_effects_def i_def)
qed

text \<open>The account has been flagged \<open>n\<close> times in the hour: it is locked from the third time on.\<close>

definition flagged_times :: "(string \<Rightarrow> 'r \<Rightarrow> nat) \<Rightarrow> string \<Rightarrow> nat \<Rightarrow> 'r fraud_db \<Rightarrow> bool" where
  "flagged_times counter uid n s \<longleftrightarrow> counter (flag_key uid) (fr_redis s) = n
     \<and> (\<exists>a. tbl_find ac_id uid (fr_accounts s) = Some a \<and> (ac_status a = US_LOCKED \<longleftrightarrow> 3 \<le> n))"

context fraud_store
begin

lemma incr_cases:
  "\<exists>r'. incr_cmd ops k r = (Some (counter k r + 1), r')
     \<and> (\<forall>k'. counter k' r' = (if k' = k then counter k r + 1 else counter k' r))"
  using incr_answer [of k r] incr_counter [of _ k r] by (cases "incr_cmd ops k r") simp

lemma increment_cases:
  "\<exists>r'. increment ops k ttl r = (counter k r + 1, r')
     \<and> (\<forall>k'. counter k' r' = (if k' = k then counter k r + 1 else counter k' r))"
proof -
  obtain r' where "incr_cmd ops k r = (Some (counter k r + 1), r')"
    and "\<forall>k'. counter k' r' = (if k' = k then counter k r + 1 else counter k' r)" using incr_cases by blast
  then show ?thesis
    by (intro exI [of _ "if counter k r = 0 then expire_cmd ops k ttl r' else r'"]) (simp add: increment_def expire_counter)
qed

lemma count_flag_step:
  assumes "flagged_times counter uid n s" "uid \<noteq> []"
  shows "flagged_times counter uid (Suc n) (count_flag ops aid (Some uid) s)"
proof -
  obtain a where a: "tbl_find ac_id uid (fr_accounts s) = Some a" "ac_status a = US_LOCKED \<longleftrightarrow> 3 \<le> n"
    and n: "counter (flag_key uid) (fr_redis s) = n"
    using assms(1) by (auto simp: flagged_times_def)
  obtain r where inc: "increment ops (flag_key uid) 3600 (fr_redis s) = (Suc n, r)" and r: "counter (flag_key uid) r = Suc n"
    using increment_cases [of "flag_key uid" 3600 "fr_redis s"] n by (metis Suc_eq_plus1)
  have "ac_id a = uid" using a(1) by (rule tbl_find_key)
  then show ?thesis
    using a r assms(2) inc by (auto simp: flagged_times_def count_flag_def Let_def)
qed

lemma analyzeRequest_counts:
  assumes "flagged_times counter uid n s" "uid \<noteq> []" "fi_userId input = Some uid"
    and "evaluateAllRules (enrich (fe_geo_ip env) (fe_geo_code env) input) = Inr r" "20 \<le> sr_riskScore r"
  shows "flagged_times counter uid (Suc n) (snd (analyzeRequest ops env aid now input s))"
proof -
  let ?i = "enrich (fe_geo_ip env) (fe_geo_code env) input"
  have "flagged_times counter uid n (save_alert aid now ?i r s)" using assms(1) by (simp add: flagged_times_def)
  from count_flag_step [OF this assms(2), of aid] show ?thesis
    using analyzeRequest_accounts [OF assms(4,5), of ops aid now s] assms(3) by (simp add: flagged_times_def)
qed

text \<open>The velocity rule counts the requests of the minute.\<close>

lemma velocity_score:
  assumes "uid \<noteq> []"
  shows "fst (fst (evaluateVelocity ops (Some uid) r)) =
      (let n = int (counter (velocity_key uid) r) + 1 in if n > 20 then min 50 ((n - 20) * 2) else 0)"
    and "counter (velocity_key uid) (snd (evaluateVelocity ops (Some uid) r)) = counter (velocity_key uid) r + 1"
proof -
  obtain r' where "incr_cmd ops (velocity_key uid) r = (Some (counter (velocity_key uid) r + 1), r')"
    "\<forall>k'. counter k' r' = (if k' = velocity_key uid then counter (velocity_key uid) r + 1 else counter k' r)"
    using incr_cases by blast
  then show "fst (fst (evaluateVelocity ops (Some uid) r)) =
      (let n = int (counter (velocity_key uid) r) + 1 in if n > 20 then min 50 ((n - 20) * 2) else 0)"
    and "counter (velocity_key uid) (snd (evaluateVelocity ops (Some uid) r)) = counter (velocity_key uid) r + 1"
    using assms by (simp_all add: evaluateVelocity_def Let_def expire_counter add.commute)
qed

lemma duplicate_flagged_once_seen:
  assumes "uid \<noteq> []" "oid \<noteq> []"
  shows "fst (fst (evaluateDuplicateOrder ops (Some uid) (Some oid) (snd (evaluateDuplicateOrder ops (Some uid) (Some oid) r)))) = 40"
proof -
  let ?k = "duplicate_key uid oid" and ?run = "\<lambda>r. evaluateDuplicateOrder ops (Some uid) (Some oid) r"
  have run: "?run r = (if fst (setnx_cmd ops ?k ''1'' 300 r) then ((0, ''duplicate:ok''), snd (setnx_cmd ops ?k ''1'' 300 r))
      else ((40, ''duplicate:repeat-order''), snd (setnx_cmd ops ?k ''1'' 300 r)))" for r
    using assms by (simp add: evaluateDuplicateOrder_def split: prod.split)
  have "present ?k (snd (?run r))" by (simp add: run setnx_present)
  then show ?thesis by (simp add: run [of "snd (?run r)"] setnx_answer)
qed

lemma fingerprint_third_address:
  assumes "ip \<noteq> []" "fp \<noteq> []" "ip \<notin> members (fingerprint_key fp) r" "ip \<notin> members blacklist_key r"
  shows "fst (fst (evaluateIpFingerprint ops (Some ip) (Some fp) r)) = (if 2 \<le> card (members (fingerprint_key fp) r) then 30 else 0)"
  using assms by (simp add: evaluateIpFingerprint_def Let_def sismember_members scard_members expire_members sadd_members finite_members)

end

lemma flags_add_up:
  assumes "fraud_store ops counter present members" and "uid \<noteq> []" and "flagged_times counter uid n s"
    and "\<forall>(aid, now, input) \<in> set reqs. fi_userId input = Some uid \<and>
          (\<exists>r. evaluateAllRules (enrich (fe_geo_ip env) (fe_geo_code env) input) = Inr r \<and> 20 \<le> sr_riskScore r)"
  shows "flagged_times counter uid (n + length reqs) (fold (\<lambda>(aid, now, input) s. snd (analyzeRequest ops env aid now input s)) reqs s)"
  using assms(3,4)
proof (induction reqs arbitrary: n s)
  case (Cons q reqs)
  obtain aid now input where q: "q = (aid, now, input)" by (cases q) auto
  then obtain r where "fi_userId input = Some uid"
    "evaluateAllRules (enrich (fe_geo_ip env) (fe_geo_code env) input) = Inr r" "20 \<le> sr_riskScore r"
    using Cons.prems(2) by auto
  then have "flagged_times counter uid (Suc n) (snd (analyzeRequest ops env aid now input s))"
    using fraud_store.analyzeRequest_counts [OF assms(1) Cons.prems(1) assms(2)] by blast
  then show ?case using Cons.IH [of "Suc n"] Cons.prems(2) by (simp add: q)
qed simp

text \<open>
  Within the hour of the first flag, flagged requests of a user lock the account from the third
  on, and not before.
\<close>

lemma third_flag_locks_account:
  assumes "fraud_store ops counter present members" and "uid \<noteq> []" and "counter (flag_key uid) (fr_redis s) = 0"
    and "tbl_find ac_id uid (fr_accounts s) = Some a" and "ac_status a \<noteq> US_LOCKED"
    and "\<forall>(aid, now, input) \<in> set reqs. fi_userId input = Some uid \<and>
          (\<exists>r. evaluateAllRules (enrich (fe_geo_ip env) (fe_geo_code env) input) = Inr r \<and> 20 \<le> sr_riskScore r)"
  shows "\<exists>a'. tbl_find ac_id uid (fr_accounts (fold (\<lambda>(aid, now, input) s. snd (analyzeRequest ops env aid now input s)) reqs s)) = Some a'
     \<and> (ac_status a' = US_LOCKED \<longleftrightarrow> 3 \<le> length reqs)"
proof -
  have "flagged_times counter uid 0 s" using assms(3-5) by (simp add: flagged_times_def)
  from flags_add_up [OF assms(1,2) this assms(6)] show ?thesis by (auto simp: flagged_times_def)
qed

text \<open>
  Anybody locks the account of anybody: three requests without a session that name the user in
  the header x-user-id and a place far from the caller are all let through, and the third locks the
  account of the named user.
\<close>

lemma spoofed_header_locks_account:
  assumes "fraud_store ops counter present members" and "uid \<noteq> []" and "counter (flag_key uid) (fr_redis s) = 0"
    and "tbl_find ac_id uid (fr_accounts s) = Some a" and "ac_status a \<noteq> US_LOCKED"
    and "mq_userId req = None" and "mq_xUserId req = Some uid" and "known_distance env req = Some d" and "1000 < d"
  shows "\<exists>a'. tbl_find ac_id uid (fr_accounts (fold (\<lambda>aid s. snd (monitor_request ops env aid now req s)) [i1, i2, i3] s)) = Some a'
     \<and> ac_status a' = US_LOCKED \<and> fst (monitor_request ops env aid now req t) = Inr ()"
proof -
  let ?input = "monitored_input env req"
  have input: "fi_userId ?input = Some uid" using assms(6,7) by (simp add: monitored_input_def or_else_def)
  have score: "\<exists>r. evaluateAllRules (enrich (fe_geo_ip env) (fe_geo_code env) ?input) = Inr r \<and> 20 \<le> sr_riskScore r"
    using assms(8,9) by (simp add: monitored_score num_or_def)
  have through: "monitor_request ops env aid now req s = (Inr (), snd (analyzeRequest ops env aid now ?input s))" for aid s
    by (rule monitor_request_through)
  have start: "flagged_times counter uid 0 s" using assms(3-5) by (simp add: flagged_times_def)
  let ?reqs = "[(i1, now, ?input), (i2, now, ?input), (i3, now, ?input)]"
  have "\<forall>(aid, now, input) \<in> set ?reqs. fi_userId input = Some uid \<and>
      (\<exists>r. evaluateAllRules (enrich (fe_geo_ip env) (fe_geo_code env) input) = Inr r \<and> 20 \<le> sr_riskScore r)"
    using input score by simp
  from flags_add_up [OF assms(1,2) start this] show ?thesis by (simp add: flagged_times_def through)
qed

text \<open>An order marked for review is not paid until somebody confirms it.\<close>

lemma reviewed_order_not_paid:
  assumes "evaluateAllRules (enrich (fe_geo_ip env) (fe_geo_code env) input) = Inr r" "75 \<le> sr_riskScore r"
    and "fi_orderId input = Some oid" "oid \<noteq> []" "tbl_find o_id oid (orders (fr_core s)) = Some order"
    and "analyzeRequest ops env aid now input s = (Inr v, t)" "ip_orderId dto = oid"
  shows "\<exists>m. fst (initiatePayment hyd pid rid later dto (fr_core t)) = Inl (BadRequestException m)"
proof -
  let ?s = "flag_effects ops env aid now (enrich (fe_geo_ip env) (fe_geo_code env) input) r s"
  have core: "fr_core ?s = fr_core s"
    by (simp add: flag_effects_def count_flag_def Let_def split: prod.split option.split)
  have suspended: "fr_core (suspend_user b n u x) = fr_core x" for b n u x
    by (auto simp: suspend_user_def suspendUser_def set_role_def Let_def split: option.splits)
  obtain s1 where s1: "review_order (sr_riskScore r) (Some oid) ?s = (Inr (), s1)" and t: "fr_core t = fr_core s1"
    using assms(2,3,6) analyzeRequest_scored [OF assms(1), of ops aid now s] by (auto simp: and_then_Inr_iff suspended)
  have oid: "o_id order = oid" using assms(5) by (rule tbl_find_key)
  have "\<exists>o'. tbl_find o_id oid (orders (fr_core s1)) = Some o' \<and> o_status o' = OS_MANUAL_REVIEW"
    using s1 assms(2,4,5) core oid
    by (auto simp: review_order_def save_order_Inr split: if_splits prod.splits sum.splits)
  then show ?thesis unfolding t [symmetric] using assms(7) by (auto simp: initiatePayment_def)
qed

subsection \<open>Examples\<close>

definition far_address :: geo_address where
  "far_address = \<lparr>ga_street = None, ga_city = Some ''Levuka'', ga_state = None, ga_postalCode = None, ga_country = Some ''Fiji''\<rparr>"

definition sample_env :: fraud_env where
  "sample_env = \<lparr>fe_geo_ip = (\<lambda>_. Some \<lparr>latitude = 0, longitude = 0\<rparr>), fe_geo_code = (\<lambda>_. Some [(Some 0, Some 180)]),
     fe_webhookUrl = None, fe_hasAdmin = True\<rparr>"

definition sample_spoof :: monitored_request where
  "sample_spoof = \<lparr>mq_userId = None, mq_xUserId = Some ''victim'', mq_xDeviceFingerprint = None, mq_ip = Some ''203.0.113.9'',
     mq_xForwardedFor = None, mq_shippingAddress = Some (AddrObject far_address), mq_address = None,
     mq_orderShippingAddress = None\<rparr>"

definition sample_account :: account_row where
  "sample_account = \<lparr>ac_id = ''victim'', ac_email = ''v@example.org'', ac_firstName = ''V'', ac_status = US_ACTIVE\<rparr>"

definition sample_fraud_db :: "test_client fraud_db" where
  "sample_fraud_db = \<lparr>fr_core = empty_db, fr_alerts = [], fr_accounts = [sample_account],
     fr_users = [\<lparr>ur_id = 7, ur_role = Some ''USER''\<rparr>],
     fr_redis = \<lparr>tc_store = [], tc_sets = []\<rparr>, fr_events = [], fr_mails = [], fr_hooks = []\<rparr>"

lemma sample_distance: "known_distance sample_env sample_spoof = Some (3958.8 * pi)" "1000 < 3958.8 * pi"
proof -
  show "known_distance sample_env sample_spoof = Some (3958.8 * pi)"
    by (simp add: known_distance_def enrich_def monitored_input_def request_ip_def request_address_def or_else_def
        address_truthy_def sample_spoof_def sample_env_def far_address_def getLocationFromIp_def geocodeAddress_def
        meta_def distance_of_antipodes Let_def)
  show "1000 < 3958.8 * pi" using pi_ge_two by simp
qed

definition big_order :: fraud_input where
  "big_order = \<lparr>fi_userId = Some ''victim'', fi_orderId = None, fi_ip = None, fi_deviceFingerprint = None,
     fi_metadata = Some \<lparr>fm_amount = Some 600, fm_orderCount = None, fm_duplicateOrderInWindow = None, fm_knownBadIp = None,
       fm_accountAgeDays = None, fm_accountAgeHours = None, fm_billingAddress = None, fm_shippingAddress = None,
       fm_failedPaymentCount = None, fm_isFirstOrder = None, fm_geoDistanceMiles = None, fm_ipGeoPoint = None,
       fm_shippingGeoPoint = None\<rparr>\<rparr>"

lemma big_order_score:
  "evaluateAllRules big_order = Inr \<lparr>sr_riskScore = 20, sr_reason = ''high_value_order'', sr_triggeredRules = [''high_value_order'']\<rparr>"
  "enrich geo_ip geo_code big_order = big_order"
  by (simp_all add: evaluateAllRules_def RULES_def meta_def num_or_def account_is_new_def addresses_differ_def
      big_order_def enrich_def)

theorem score_explained_witness:
  "20 \<le> sr_riskScore \<lparr>sr_riskScore = 20, sr_reason = ''high_value_order'', sr_triggeredRules = [''high_value_order'']\<rparr>
    \<and> filter (\<lambda>rule. fr_check rule big_order = Inr True) RULES \<noteq> []"
  using score_explained [OF big_order_score(1)] by simp

theorem third_flag_locks_account_witness:
  "\<exists>a'. tbl_find ac_id ''victim'' (fr_accounts (fold (\<lambda>(aid, now, input) s. snd (analyzeRequest client sample_env aid now input s))
       [(''1'', 0, big_order), (''2'', 5, big_order), (''3'', 9, big_order)] sample_fraud_db)) = Some a' \<and> ac_status a' = US_LOCKED"
proof -
  have user: "fi_userId big_order = Some ''victim''" by (simp add: big_order_def)
  show ?thesis
    using third_flag_locks_account [OF test.fraud_store_axioms, of "''victim''" sample_fraud_db sample_account
        "[(''1'', 0, big_order), (''2'', 5, big_order), (''3'', 9, big_order)]" sample_env]
    by (simp add: sample_fraud_db_def sample_account_def user big_order_score)
qed

theorem spoofed_header_locks_account_witness:
  "\<exists>a'. tbl_find ac_id ''victim'' (fr_accounts (fold (\<lambda>aid s. snd (monitor_request client sample_env aid 0 sample_spoof s))
       [''1'', ''2'', ''3''] sample_fraud_db)) = Some a' \<and> ac_status a' = US_LOCKED"
proof -
  have "mq_userId sample_spoof = None" "mq_xUserId sample_spoof = Some ''victim''" by (simp_all add: sample_spoof_def)
  moreover have "(case map_of (tc_store (fr_redis sample_fraud_db)) (flag_key ''victim'') of None \<Rightarrow> 0 | Some n \<Rightarrow> n) = 0"
    "tbl_find ac_id ''victim'' (fr_accounts sample_fraud_db) = Some sample_account" "ac_status sample_account \<noteq> US_LOCKED"
    by (simp_all add: sample_fraud_db_def sample_account_def)
  ultimately show ?thesis
    using spoofed_header_locks_account [OF test.fraud_store_axioms _ _ _ _ _ _ sample_distance] by blast
qed

text \<open>The numeric key that is suspended is read off the digits that begin the uuid.\<close>

lemma suspends_leading_digits:
  "fr_users (snd (suspendUser ''7f3c-11'' sample_fraud_db)) = [\<lparr>ur_id = 7, ur_role = Some ''SUSPENDED''\<rparr>]"
  by code_simp

end
