(* ===== verification/Cache.thy ===== *)
theory Cache
  imports Prelude "HOL-Library.Multiset"
begin

text \<open>
  \<open>CacheService\<close> (src/src/cache/cache.service.ts) and \<open>CacheManagerService\<close>
  (cache/cache-manager.service.ts): a bounded map in memory in front of Redis. Redis is the argument
  \<open>ops\<close>; locale \<open>key_value\<close> states its documented laws. \<open>truthy\<close> is the truth value
  JavaScript gives a cached value, \<open>maxItems\<close> the environment variable CACHE_MAX_MEMORY_ITEMS; the
  clock is a parameter. Values are taken to survive JSON unchanged.
\<close>

subsection \<open>Redis\<close>

record ('v, 'r) cache_redis =
  cr_get :: "string \<Rightarrow> time \<Rightarrow> 'r \<Rightarrow> 'v option"
  cr_setex :: "string \<Rightarrow> int \<Rightarrow> time \<Rightarrow> 'v \<Rightarrow> 'r \<Rightarrow> 'r"
  cr_del :: "string \<Rightarrow> 'r \<Rightarrow> 'r"
  cr_sadd :: "string \<Rightarrow> string \<Rightarrow> 'r \<Rightarrow> 'r"
  cr_smembers :: "string \<Rightarrow> 'r \<Rightarrow> string list"
  cr_flushdb :: "'r \<Rightarrow> 'r"

text \<open>A key set with a time to live is there until the time is over; sets of members have keys of
  their own.\<close>

locale key_value =
  fixes ops :: "('v, 'r) cache_redis"
  assumes get_setex: "cr_get ops k now (cr_setex ops k' ttl t v r) =
      (if k = k' then (if now < t + ttl * 1000 then Some v else None) else cr_get ops k now r)"
    and get_del: "cr_get ops k now (cr_del ops k' r) = (if k = k' then None else cr_get ops k now r)"
    and get_sadd: "cr_get ops k now (cr_sadd ops tag m r) = cr_get ops k now r"
    and get_flushdb: "cr_get ops k now (cr_flushdb ops r) = None"
    and smembers_sadd: "set (cr_smembers ops tag (cr_sadd ops tag' m r)) =
      (if tag = tag' then insert m (set (cr_smembers ops tag r)) else set (cr_smembers ops tag r))"
    and smembers_setex: "cr_smembers ops tag (cr_setex ops k ttl t v r) = cr_smembers ops tag r"

subsection \<open>The service\<close>

record cache_config =
  cc_ttl :: int
  cc_tags :: "string list option"

record 'v cache_entry =
  ce_data :: 'v
  ce_timestamp :: time
  ce_ttl :: int
  ce_tags :: "string list"
  ce_accessCount :: nat
  ce_lastAccessed :: time

record cache_metrics =
  cm_hits :: nat
  cm_misses :: nat
  cm_totalRequests :: nat
  cm_averageResponseTime :: number

text \<open>\<open>inMemoryCache\<close> is a JavaScript \<open>Map\<close>.\<close>

record ('v, 'r) cache =
  inMemoryCache :: "(string \<times> 'v cache_entry) list"
  cache_redis_state :: 'r
  metrics :: cache_metrics

definition isExpired :: "time \<Rightarrow> 'v cache_entry \<Rightarrow> bool" where
  "isExpired now entry \<longleftrightarrow> now - ce_timestamp entry > ce_ttl entry"

definition getFromMemory :: "string \<Rightarrow> time \<Rightarrow> ('v, 'r) cache \<Rightarrow> 'v option \<times> ('v, 'r) cache" where
  "getFromMemory key now s =
     (case map_of (inMemoryCache s) key of
        None \<Rightarrow> (None, s)
      | Some entry \<Rightarrow>
        if isExpired now entry then (None, s\<lparr>inMemoryCache := map_delete key (inMemoryCache s)\<rparr>)
        else (Some (ce_data entry),
              s\<lparr>inMemoryCache := map_set key
                 (entry\<lparr>ce_accessCount := ce_accessCount entry + 1, ce_lastAccessed := now\<rparr>) (inMemoryCache s)\<rparr>))"

text \<open>The least recently read entries leave until \<open>maxItems\<close> are left.\<close>

definition cleanupMemoryCache :: "nat \<Rightarrow> ('v, 'r) cache \<Rightarrow> ('v, 'r) cache" where
  "cleanupMemoryCache maxItems s =
     (if length (inMemoryCache s) \<le> maxItems then s
      else
        let entries = sort_key (\<lambda>(_, e). ce_lastAccessed e) (inMemoryCache s);
            itemsToRemove = length (inMemoryCache s) - maxItems
        in s\<lparr>inMemoryCache := fold map_delete (map fst (take itemsToRemove entries)) (inMemoryCache s)\<rparr>)"

definition setInMemory ::
  "nat \<Rightarrow> string \<Rightarrow> 'v \<Rightarrow> cache_config \<Rightarrow> time \<Rightarrow> ('v, 'r) cache \<Rightarrow> ('v, 'r) cache" where
  "setInMemory maxItems key v config now s =
     (let entry = \<lparr>ce_data = v, ce_timestamp = now, ce_ttl = cc_ttl config * 1000,
            ce_tags = (case cc_tags config of None \<Rightarrow> [] | Some ts \<Rightarrow> ts), ce_accessCount = 0, ce_lastAccessed = now\<rparr>
      in cleanupMemoryCache maxItems (s\<lparr>inMemoryCache := map_set key entry (inMemoryCache s)\<rparr>))"

definition setInRedis ::
  "('v, 'r) cache_redis \<Rightarrow> string \<Rightarrow> 'v \<Rightarrow> cache_config \<Rightarrow> time \<Rightarrow> ('v, 'r) cache \<Rightarrow> ('v, 'r) cache" where
  "setInRedis ops key v config now s =
     (let r = cr_setex ops key (cc_ttl config) now v (cache_redis_state s);
          tags = (case cc_tags config of None \<Rightarrow> [] | Some ts \<Rightarrow> ts)
      in s\<lparr>cache_redis_state := fold (\<lambda>tag r. cr_sadd ops (''tag:'' @ tag) key r) tags r\<rparr>)"

text \<open>\<open>elapsed\<close> is the time the request took.\<close>

definition updateAverageResponseTime :: "int \<Rightarrow> cache_metrics \<Rightarrow> cache_metrics" where
  "updateAverageResponseTime elapsed m =
     m\<lparr>cm_averageResponseTime :=
        (cm_averageResponseTime m * (of_nat (cm_totalRequests m) - 1) + of_int elapsed) / of_nat (cm_totalRequests m)\<rparr>"

definition recordHit :: "int \<Rightarrow> ('v, 'r) cache \<Rightarrow> ('v, 'r) cache" where
  "recordHit elapsed s =
     s\<lparr>metrics := updateAverageResponseTime elapsed ((metrics s)\<lparr>cm_hits := cm_hits (metrics s) + 1\<rparr>)\<rparr>"

definition recordMiss :: "int \<Rightarrow> ('v, 'r) cache \<Rightarrow> ('v, 'r) cache" where
  "recordMiss elapsed s =
     s\<lparr>metrics := updateAverageResponseTime elapsed ((metrics s)\<lparr>cm_misses := cm_misses (metrics s) + 1\<rparr>)\<rparr>"

definition getMetrics :: "('v, 'r) cache \<Rightarrow> cache_metrics \<times> number" where
  "getMetrics s =
     (metrics s, if cm_totalRequests (metrics s) > 0
        then of_nat (cm_hits (metrics s)) / of_nat (cm_totalRequests (metrics s)) * 100 else 0)"

definition resetMetrics :: "('v, 'r) cache \<Rightarrow> ('v, 'r) cache" where
  "resetMetrics s = s\<lparr>metrics := \<lparr>cm_hits = 0, cm_misses = 0, cm_totalRequests = 0, cm_averageResponseTime = 0\<rparr>\<rparr>"

definition cache_get ::
  "('v \<Rightarrow> bool) \<Rightarrow> nat \<Rightarrow> ('v, 'r) cache_redis \<Rightarrow> int \<Rightarrow> string \<Rightarrow> cache_config option \<Rightarrow> time \<Rightarrow> ('v, 'r) cache \<Rightarrow>
   'v option \<times> ('v, 'r) cache" where
  "cache_get truthy maxItems ops elapsed key config now s =
     (let s = s\<lparr>metrics := (metrics s)\<lparr>cm_totalRequests := cm_totalRequests (metrics s) + 1\<rparr>\<rparr>;
          (found, s) = getFromMemory key now s
      in if (case found of None \<Rightarrow> False | Some v \<Rightarrow> truthy v) then (found, recordHit elapsed s)
         else
           let found = cr_get ops key now (cache_redis_state s)
           in case found of
                None \<Rightarrow> (None, recordMiss elapsed s)
              | Some v \<Rightarrow>
                if truthy v
                then (Some v, recordHit elapsed (setInMemory maxItems key v
                   (case config of None \<Rightarrow> \<lparr>cc_ttl = 3600, cc_tags = None\<rparr> | Some c \<Rightarrow> c) now s))
                else (None, recordMiss elapsed s))"

definition cache_set ::
  "nat \<Rightarrow> ('v, 'r) cache_redis \<Rightarrow> string \<Rightarrow> 'v \<Rightarrow> cache_config \<Rightarrow> time \<Rightarrow> ('v, 'r) cache \<Rightarrow> ('v, 'r) cache" where
  "cache_set maxItems ops key v config now s =
     setInMemory maxItems key v config now (setInRedis ops key v config now s)"

definition deleteFromMemory :: "string \<Rightarrow> ('v, 'r) cache \<Rightarrow> ('v, 'r) cache" where
  "deleteFromMemory key s = s\<lparr>inMemoryCache := map_delete key (inMemoryCache s)\<rparr>"

definition cache_delete :: "('v, 'r) cache_redis \<Rightarrow> string \<Rightarrow> ('v, 'r) cache \<Rightarrow> ('v, 'r) cache" where
  "cache_delete ops key s = deleteFromMemory key (s\<lparr>cache_redis_state := cr_del ops key (cache_redis_state s)\<rparr>)"

definition getKeysByTags :: "('v, 'r) cache_redis \<Rightarrow> string list \<Rightarrow> ('v, 'r) cache \<Rightarrow> string list" where
  "getKeysByTags ops tags s = remdups (concat (map (\<lambda>tag. cr_smembers ops (''tag:'' @ tag) (cache_redis_state s)) tags))"

definition deleteByTags :: "('v, 'r) cache_redis \<Rightarrow> string list \<Rightarrow> ('v, 'r) cache \<Rightarrow> ('v, 'r) cache" where
  "deleteByTags ops tags s =
     (let keys = getKeysByTags ops tags s in if keys \<noteq> [] then fold (cache_delete ops) keys s else s)"

definition flush_cache :: "('v, 'r) cache_redis \<Rightarrow> ('v, 'r) cache \<Rightarrow> ('v, 'r) cache" where
  "flush_cache ops s = s\<lparr>cache_redis_state := cr_flushdb ops (cache_redis_state s), inMemoryCache := []\<rparr>"

definition warmUp ::
  "nat \<Rightarrow> ('v, 'r) cache_redis \<Rightarrow> (string \<times> 'v \<times> cache_config option) list \<Rightarrow> time \<Rightarrow> ('v, 'r) cache \<Rightarrow> ('v, 'r) cache" where
  "warmUp maxItems ops entries now s =
     fold (\<lambda>(key, v, config) s. cache_set maxItems ops key v
        (case config of None \<Rightarrow> \<lparr>cc_ttl = 3600, cc_tags = None\<rparr> | Some c \<Rightarrow> c) now s) entries s"

subsection \<open>The manager\<close>

text \<open>\<open>factory\<close> computes the value when the cache has none.\<close>

definition getOrSet ::
  "('v \<Rightarrow> bool) \<Rightarrow> nat \<Rightarrow> ('v, 'r) cache_redis \<Rightarrow> int \<Rightarrow> string \<Rightarrow> 'v \<Rightarrow> cache_config \<Rightarrow> time \<Rightarrow> ('v, 'r) cache \<Rightarrow>
   'v \<times> ('v, 'r) cache" where
  "getOrSet truthy maxItems ops elapsed key factory config now s =
     (case cache_get truthy maxItems ops elapsed key (Some config) now s of
        (Some cached, s) \<Rightarrow> (cached, s)
      | (None, s) \<Rightarrow> (factory, cache_set maxItems ops key factory config now s))"

definition getKeysByPattern :: "string \<Rightarrow> string list" where
  "getKeysByPattern pattern = []"

definition invalidatePattern :: "('v, 'r) cache_redis \<Rightarrow> string \<Rightarrow> ('v, 'r) cache \<Rightarrow> ('v, 'r) cache" where
  "invalidatePattern ops pattern s = fold (cache_delete ops) (getKeysByPattern pattern) s"

definition invalidateUser :: "('v, 'r) cache_redis \<Rightarrow> string \<Rightarrow> ('v, 'r) cache \<Rightarrow> ('v, 'r) cache" where
  "invalidateUser ops userId s = invalidatePattern ops (''user:'' @ userId @ '':*'') s"

definition invalidateListing :: "('v, 'r) cache_redis \<Rightarrow> string \<Rightarrow> ('v, 'r) cache \<Rightarrow> ('v, 'r) cache" where
  "invalidateListing ops listingId s =
     deleteByTags ops [''listings'', ''listing:'' @ listingId] (invalidatePattern ops (''listing:'' @ listingId @ '':*'') s)"

definition invalidateMarketplace :: "('v, 'r) cache_redis \<Rightarrow> string \<Rightarrow> ('v, 'r) cache \<Rightarrow> ('v, 'r) cache" where
  "invalidateMarketplace ops marketplaceId s =
     deleteByTags ops [''marketplaces'', ''marketplace:'' @ marketplaceId]
       (invalidatePattern ops (''marketplace:'' @ marketplaceId @ '':*'') s)"

lemma invalidatePattern_nothing [simp]: "invalidatePattern ops pattern s = s"
  by (simp add: invalidatePattern_def getKeysByPattern_def)

subsection \<open>The map in memory\<close>

text \<open>Evicting by keys keeps exactly the entries at the end of the sorted list.\<close>

lemma evicted_size:
  assumes "distinct (map fst m)" "mset es = mset m" "n \<le> length m"
  shows "length (fold map_delete (map fst (take n es)) m) = length m - n"
proof -
  have d: "distinct (map fst es)" using assms(1,2) by (metis mset_eq_imp_distinct_iff mset_map)
  have split: "distinct (map fst (take n es))" "set (map fst (take n es)) \<inter> set (map fst (drop n es)) = {}"
    using d by (metis append_take_drop_id distinct_append map_append)+
  let ?P = "\<lambda>(k, _). k \<notin> set (map fst (take n es))"
  have "filter ?P (take n es) = []" by (auto simp: filter_empty_conv image_iff)
  moreover have "filter ?P (drop n es) = drop n es" using split(2) by (auto simp: filter_id_conv) (metis disjoint_iff fst_conv image_eqI)
  ultimately have "filter ?P es = drop n es" by (metis append_Nil append_take_drop_id filter_append)
  then have "length (filter (\<lambda>(k, _). k \<notin> set (map fst (take n es))) m) = length (drop n es)"
    using assms(2) by (metis mset_filter size_mset)
  then show ?thesis using assms(2) by (simp add: map_delete_all) (metis size_mset)
qed

subsection \<open>Bounds\<close>

definition memory_ok :: "nat \<Rightarrow> ('v, 'r) cache \<Rightarrow> bool" where
  "memory_ok maxItems s \<longleftrightarrow> distinct (map fst (inMemoryCache s)) \<and> length (inMemoryCache s) \<le> maxItems"

lemma fold_delete_distinct: "distinct (map fst m) \<Longrightarrow> distinct (map fst (fold map_delete ks m))"
  by (simp add: map_delete_all distinct_map_filter)

lemma cleanup_ok:
  assumes "distinct (map fst (inMemoryCache s))"
  shows "memory_ok maxItems (cleanupMemoryCache maxItems s)"
proof (cases "length (inMemoryCache s) \<le> maxItems")
  case False
  let ?m = "inMemoryCache s" and ?es = "sort_key (\<lambda>(_, e). ce_lastAccessed e) (inMemoryCache s)"
  have "length (fold map_delete (map fst (take (length ?m - maxItems) ?es)) ?m) = length ?m - (length ?m - maxItems)"
    using assms by (intro evicted_size) simp_all
  then show ?thesis
    using False assms by (simp add: memory_ok_def cleanupMemoryCache_def Let_def fold_delete_distinct)
qed (use assms in \<open>simp add: memory_ok_def cleanupMemoryCache_def\<close>)

lemma getFromMemory_ok: "memory_ok maxItems s \<Longrightarrow> memory_ok maxItems (snd (getFromMemory key now s))"
  by (cases "map_of (inMemoryCache s) key")
    (simp_all add: memory_ok_def getFromMemory_def map_set_distinct map_delete_distinct map_set_length
      le_trans [OF map_delete_length])

text \<open>What may happen to a cache, with the time at which it happens.\<close>

datatype 'v cache_op =
    Get string "cache_config option" time
  | Put string 'v cache_config time
  | Delete string

primrec op_key :: "'v cache_op \<Rightarrow> string" where
  "op_key (Get k c t) = k" | "op_key (Put k v c t) = k" | "op_key (Delete k) = k"

primrec run_op ::
  "('v \<Rightarrow> bool) \<Rightarrow> nat \<Rightarrow> ('v, 'r) cache_redis \<Rightarrow> 'v cache_op \<Rightarrow> ('v, 'r) cache \<Rightarrow> ('v, 'r) cache" where
  "run_op truthy maxItems ops (Get k c t) s = snd (cache_get truthy maxItems ops 0 k c t s)"
| "run_op truthy maxItems ops (Put k v c t) s = cache_set maxItems ops k v c t s"
| "run_op truthy maxItems ops (Delete k) s = cache_delete ops k s"

lemma setInMemory_ok:
  "memory_ok maxItems s \<Longrightarrow> memory_ok maxItems (setInMemory maxItems key v config now s)"
  unfolding setInMemory_def Let_def by (rule cleanup_ok) (simp add: map_set_distinct memory_ok_def)

lemma record_memory [simp]:
  "inMemoryCache (recordHit e s) = inMemoryCache s" "inMemoryCache (recordMiss e s) = inMemoryCache s"
  "cache_redis_state (recordHit e s) = cache_redis_state s" "cache_redis_state (recordMiss e s) = cache_redis_state s"
  by (simp_all add: recordHit_def recordMiss_def)

lemma memory_ok_cong: "inMemoryCache s = inMemoryCache t \<Longrightarrow> memory_ok n s \<longleftrightarrow> memory_ok n t"
  by (simp add: memory_ok_def)

lemma cache_get_ok:
  assumes "memory_ok maxItems s"
  shows "memory_ok maxItems (snd (cache_get truthy maxItems ops e key config now s))"
proof -
  let ?s = "s\<lparr>metrics := (metrics s)\<lparr>cm_totalRequests := cm_totalRequests (metrics s) + 1\<rparr>\<rparr>"
  obtain found t where t: "getFromMemory key now ?s = (found, t)" by fastforce
  have "memory_ok maxItems ?s" using assms by (simp add: memory_ok_def)
  then have "memory_ok maxItems t" using getFromMemory_ok [of maxItems ?s key now] t by simp
  then show ?thesis
    using t setInMemory_ok [of maxItems t key]
    by (auto simp: cache_get_def memory_ok_cong [of "recordHit _ _" ] memory_ok_def split: option.splits)
qed

lemma run_op_ok: "memory_ok maxItems s \<Longrightarrow> memory_ok maxItems (run_op truthy maxItems ops op s)"
proof (induction op)
  case (Put k v c t)
  then have "memory_ok maxItems (setInRedis ops k v c t s)" by (simp add: setInRedis_def Let_def memory_ok_def)
  then show ?case by (simp add: cache_set_def setInMemory_ok)
next
  case (Delete k)
  then show ?case
    by (simp add: cache_delete_def deleteFromMemory_def memory_ok_def map_delete_distinct le_trans [OF map_delete_length])
qed (simp add: cache_get_ok)

text \<open>
  The map in memory never holds more entries than configured, and one entry per key, after
  any sequence of reads, writes and deletions.
\<close>

lemma memory_bounded:
  assumes "inMemoryCache s = []"
  shows "length (inMemoryCache (fold (run_op truthy maxItems ops) xs s)) \<le> maxItems
    \<and> distinct (map fst (inMemoryCache (fold (run_op truthy maxItems ops) xs s)))"
proof -
  have "memory_ok maxItems (fold (run_op truthy maxItems ops) xs s)"
    if "memory_ok maxItems s" for s
    using that by (induction xs arbitrary: s) (simp_all add: run_op_ok)
  from this [of s] show ?thesis using assms by (simp add: memory_ok_def)
qed

subsection \<open>What a read returns\<close>

text \<open>The value of a key until \<open>deadline\<close>: in Redis, and in memory whenever memory has the key.\<close>

definition holds :: "('v, 'r) cache_redis \<Rightarrow> string \<Rightarrow> 'v \<Rightarrow> time \<Rightarrow> ('v, 'r) cache \<Rightarrow> bool" where
  "holds ops k v deadline s \<longleftrightarrow> (\<forall>now < deadline. cr_get ops k now (cache_redis_state s) = Some v)
     \<and> (\<forall>e. map_of (inMemoryCache s) k = Some e \<longrightarrow> ce_data e = v)"

lemma fold_delete_memory: "map_of (fold map_delete ks m) k = Some e \<Longrightarrow> map_of m k = Some e"
proof (induction ks arbitrary: m)
  case (Cons a ks)
  have "map_of (map_delete a m) k = Some e" by (rule Cons.IH) (use Cons.prems in simp)
  then show ?case by (cases "k = a") simp_all
qed simp

lemma cleanup_memory:
  assumes "map_of (inMemoryCache (cleanupMemoryCache n s)) k = Some e"
  shows "map_of (inMemoryCache s) k = Some e"
proof (cases "length (inMemoryCache s) \<le> n")
  case True
  then show ?thesis using assms by (simp add: cleanupMemoryCache_def)
next
  case False
  define ks where "ks = map fst (take (length (inMemoryCache s) - n) (sort_key (\<lambda>(_, e). ce_lastAccessed e) (inMemoryCache s)))"
  have "inMemoryCache (cleanupMemoryCache n s) = fold map_delete ks (inMemoryCache s)"
    using False by (simp add: cleanupMemoryCache_def Let_def ks_def)
  with assms have "map_of (fold map_delete ks (inMemoryCache s)) k = Some e" by simp
  then show ?thesis by (rule fold_delete_memory)
qed

lemma cleanup_redis [simp]: "cache_redis_state (cleanupMemoryCache n s) = cache_redis_state s"
  by (simp add: cleanupMemoryCache_def Let_def)

lemma setInMemory_redis [simp]: "cache_redis_state (setInMemory n k v c now s) = cache_redis_state s"
  by (simp add: setInMemory_def Let_def)

lemma setInMemory_memory:
  "map_of (inMemoryCache (setInMemory n k' v c now s)) k = Some e \<Longrightarrow>
     (if k = k' then ce_data e = v else map_of (inMemoryCache s) k = Some e)"
  by (auto simp: setInMemory_def Let_def dest!: cleanup_memory split: if_splits)

lemma getFromMemory_redis [simp]: "cache_redis_state (snd (getFromMemory k now s)) = cache_redis_state s"
  by (simp add: getFromMemory_def split: option.split)

lemma getFromMemory_memory:
  "map_of (inMemoryCache (snd (getFromMemory k' now s))) k = Some e \<Longrightarrow>
     \<exists>e'. map_of (inMemoryCache s) k = Some e' \<and> ce_data e' = ce_data e"
  by (auto simp: getFromMemory_def split: option.splits if_splits)

lemma getFromMemory_found:
  "fst (getFromMemory k now s) = Some v \<Longrightarrow> \<exists>e. map_of (inMemoryCache s) k = Some e \<and> ce_data e = v"
  by (auto simp: getFromMemory_def split: option.splits if_splits)

lemma holds_metrics [simp]: "holds ops k v d (s\<lparr>metrics := m\<rparr>) \<longleftrightarrow> holds ops k v d s"
  by (simp add: holds_def)

lemma holds_record [simp]: "holds ops k v d (recordHit e s) \<longleftrightarrow> holds ops k v d s" "holds ops k v d (recordMiss e s) \<longleftrightarrow> holds ops k v d s"
  by (simp_all add: holds_def)

lemma holds_getFromMemory: "holds ops k v d s \<Longrightarrow> holds ops k v d (snd (getFromMemory k' now s))"
  by (auto simp: holds_def dest!: getFromMemory_memory)

lemma holds_setInMemory:
  "holds ops k v d s \<Longrightarrow> k' \<noteq> k \<or> v' = v \<Longrightarrow> holds ops k v d (setInMemory n k' v' c now s)"
  by (auto simp: holds_def dest!: setInMemory_memory split: if_splits)

lemma cache_get_holds:
  assumes "holds ops k v d s" "truthy v" "now < d"
  shows "fst (cache_get truthy n ops e k c now s) = Some v" "holds ops k v d (snd (cache_get truthy n ops e k c now s))"
proof -
  let ?s = "s\<lparr>metrics := (metrics s)\<lparr>cm_totalRequests := cm_totalRequests (metrics s) + 1\<rparr>\<rparr>"
  obtain found t where t: "getFromMemory k now ?s = (found, t)" by fastforce
  have h: "holds ops k v d t" using holds_getFromMemory [of ops k v d ?s k now] assms(1) t by simp
  have found: "found = Some w \<Longrightarrow> w = v" for w
    using getFromMemory_found [of k now ?s w] t assms(1) by (auto simp: holds_def)
  have "cr_get ops k now (cache_redis_state t) = Some v" using h assms(3) by (simp add: holds_def)
  then show "fst (cache_get truthy n ops e k c now s) = Some v" "holds ops k v d (snd (cache_get truthy n ops e k c now s))"
    using t found assms(2) h holds_setInMemory [OF h, of k v n]
    by (auto simp: cache_get_def split: option.splits)
qed

lemma cache_get_holds_other:
  assumes "holds ops k v d s" "k' \<noteq> k"
  shows "holds ops k v d (snd (cache_get truthy n ops e k' c now s))"
proof -
  let ?s = "s\<lparr>metrics := (metrics s)\<lparr>cm_totalRequests := cm_totalRequests (metrics s) + 1\<rparr>\<rparr>"
  obtain found t where t: "getFromMemory k' now ?s = (found, t)" by fastforce
  have h: "holds ops k v d t" using holds_getFromMemory [of ops k v d ?s k' now] assms(1) t by simp
  then show ?thesis
    using t holds_setInMemory [OF h, of k'] assms(2) by (auto simp: cache_get_def split: option.splits)
qed

context key_value
begin

lemma setInRedis_get:
  "cr_get ops k now (cache_redis_state (setInRedis ops k' v c t s)) =
     (if k = k' then (if now < t + cc_ttl c * 1000 then Some v else None) else cr_get ops k now (cache_redis_state s))"
proof -
  have "cr_get ops k now (fold (\<lambda>tag r. cr_sadd ops (''tag:'' @ tag) k' r) tags r) = cr_get ops k now r" for tags r
    by (induction tags arbitrary: r) (simp_all add: get_sadd)
  then show ?thesis by (simp add: setInRedis_def get_setex)
qed

lemma cache_set_holds: "holds ops k v (t + cc_ttl c * 1000) (cache_set n ops k v c t s)"
  by (auto simp: holds_def cache_set_def setInRedis_get dest!: setInMemory_memory)

lemma run_op_holds:
  assumes "holds ops k v d s" "op_key op \<noteq> k"
  shows "holds ops k v d (run_op truthy n ops op s)"
proof (cases op)
  case (Get k' c t)
  then show ?thesis using assms by (simp add: cache_get_holds_other)
next
  case (Put k' v' c t)
  have "holds ops k v d (setInRedis ops k' v' c t s)"
    using assms Put by (auto simp: holds_def setInRedis_get) (simp add: setInRedis_def Let_def)
  then show ?thesis using assms(2) Put by (simp add: cache_set_def holds_setInMemory)
next
  case (Delete k')
  then show ?thesis using assms by (auto simp: holds_def cache_delete_def deleteFromMemory_def get_del)
qed

lemma run_ops_holds:
  assumes "holds ops k v d s" "\<forall>op \<in> set xs. op_key op \<noteq> k"
  shows "holds ops k v d (fold (run_op truthy n ops) xs s)"
  using assms by (induction xs arbitrary: s) (simp_all add: run_op_holds)

lemma delete_then_get: "fst (cache_get truthy n ops e k c now (cache_delete ops k s)) = None"
  by (simp add: cache_get_def cache_delete_def deleteFromMemory_def getFromMemory_def get_del Let_def)

end

text \<open>
  Property C40: a value that was written is read back until its time to live is over, whatever is read,
  written or deleted under other keys in between, and however small the memory is, provided the value
  is truthy.
\<close>

theorem read_your_write:
  assumes "key_value ops" and "truthy v" and "now < t + cc_ttl c * 1000"
    and "\<forall>op \<in> set xs. op_key op \<noteq> k"
  shows "fst (cache_get truthy n ops e k c' now (fold (run_op truthy n ops) xs (cache_set n ops k v c t s))) = Some v"
proof -
  have "holds ops k v (t + cc_ttl c * 1000) (cache_set n ops k v c t s)"
    by (rule key_value.cache_set_holds [OF assms(1)])
  then have "holds ops k v (t + cc_ttl c * 1000) (fold (run_op truthy n ops) xs (cache_set n ops k v c t s))"
    by (rule key_value.run_ops_holds [OF assms(1) _ assms(4)])
  then show ?thesis using assms(2,3) by (rule cache_get_holds(1))
qed

text \<open>A falsy value is never found: zero and the empty text are computed again each time.\<close>

lemma falsy_never_hits:
  assumes "\<not> truthy v" "fst (cache_get truthy n ops e k c now s) = Some w"
  shows "w \<noteq> v"
  using assms by (auto simp: cache_get_def split: option.splits prod.splits if_splits)

text \<open>
  A read may keep a value alive beyond its time to live: a process that finds it in Redis shortly
  before the end keeps it in memory for another full period.
\<close>

lemma stale_after_ttl:
  assumes "cr_get ops k now (cache_redis_state s) = Some v" and "truthy v" and "inMemoryCache s = []" and "0 < n"
    and "now \<le> later" and "later \<le> now + cc_ttl c * 1000"
  shows "fst (cache_get truthy n ops e k (Some c) later (snd (cache_get truthy n ops e k (Some c) now s))) = Some v"
  using assms
  by (simp add: cache_get_def getFromMemory_def setInMemory_def cleanupMemoryCache_def isExpired_def Let_def)

text \<open>Evicted entries were not read after the ones that stay.\<close>

lemma evicts_least_recent:
  assumes "distinct (map fst (inMemoryCache s))"
    and "(k, e) \<in> set (inMemoryCache s)" "map_of (inMemoryCache (cleanupMemoryCache n s)) k = None"
    and "(k', e') \<in> set (inMemoryCache (cleanupMemoryCache n s))"
  shows "ce_lastAccessed e \<le> ce_lastAccessed e'"
proof -
  let ?m = "inMemoryCache s" and ?key = "\<lambda>(_ :: string, e). ce_lastAccessed e"
  let ?es = "sort_key ?key ?m" and ?r = "length (inMemoryCache s) - n"
  have big: "\<not> length ?m \<le> n"
  proof
    assume "length ?m \<le> n"
    then have "map_of ?m k = None" using assms(3) by (simp add: cleanupMemoryCache_def)
    then show False using assms(2) by (auto simp: map_of_eq_None_iff image_iff)
  qed
  then have kept: "inMemoryCache (cleanupMemoryCache n s) = filter (\<lambda>(k, _). k \<notin> set (map fst (take ?r ?es))) ?m"
    by (simp add: cleanupMemoryCache_def Let_def map_delete_all)
  have d: "distinct (map fst ?es)" using assms(1) by (metis mset_eq_imp_distinct_iff mset_map mset_sort)
  have "(k, e) \<notin> set (inMemoryCache (cleanupMemoryCache n s))"
    using assms(3) by (auto simp: map_of_eq_None_iff image_iff)
  then have "k \<in> set (map fst (take ?r ?es))" using assms(2) unfolding kept by simp
  then obtain e1 where e1: "(k, e1) \<in> set (take ?r ?es)" by auto
  then have "(k, e1) \<in> set ?m" using in_set_takeD set_sort by fastforce
  then have "e1 = e" using assms(1,2) by (metis eq_key_imp_eq_value)
  have k': "(k', e') \<in> set ?es" "k' \<notin> set (map fst (take ?r ?es))" using assms(4) unfolding kept by auto
  have "(k', e') \<notin> set (take ?r ?es)"
  proof
    assume "(k', e') \<in> set (take ?r ?es)"
    then have "fst (k', e') \<in> set (map fst (take ?r ?es))" by (simp only: set_map image_eqI)
    then show False using k'(2) by simp
  qed
  moreover have "set ?es = set (take ?r ?es) \<union> set (drop ?r ?es)" by (metis append_take_drop_id set_append)
  ultimately have "(k', e') \<in> set (drop ?r ?es)" using k'(1) by blast
  moreover have "sorted (map ?key (take ?r ?es @ drop ?r ?es))" by (simp only: append_take_drop_id sorted_sort_key)
  then have "\<forall>x \<in> set (take ?r ?es). \<forall>y \<in> set (drop ?r ?es). ?key x \<le> ?key y"
    by (simp only: map_append sorted_append) simp
  ultimately have "?key (k, e1) \<le> ?key (k', e')" using e1 by blast
  then show ?thesis using \<open>e1 = e\<close> by simp
qed

context key_value
begin

lemma tagged_by_setInRedis:
  "set (cr_smembers ops (''tag:'' @ tag) (cache_redis_state (setInRedis ops key v c t s))) =
     (if tag \<in> set (case cc_tags c of None \<Rightarrow> [] | Some ts \<Rightarrow> ts)
      then insert key (set (cr_smembers ops (''tag:'' @ tag) (cache_redis_state s)))
      else set (cr_smembers ops (''tag:'' @ tag) (cache_redis_state s)))"
proof -
  have "set (cr_smembers ops (''tag:'' @ tag) (fold (\<lambda>tag r. cr_sadd ops (''tag:'' @ tag) key r) tags r)) =
      (if tag \<in> set tags then insert key (set (cr_smembers ops (''tag:'' @ tag) r)) else set (cr_smembers ops (''tag:'' @ tag) r))"
    for tags r
    by (induction tags arbitrary: r) (auto simp: smembers_sadd)
  then show ?thesis by (auto simp: setInRedis_def Let_def smembers_setex)
qed

lemma deleted_stays_away:
  assumes "map_of (inMemoryCache s) k = None" "\<forall>now. cr_get ops k now (cache_redis_state s) = None"
  shows "map_of (inMemoryCache (cache_delete ops k' s)) k = None \<and> (\<forall>now. cr_get ops k now (cache_redis_state (cache_delete ops k' s)) = None)"
  using assms by (simp add: cache_delete_def deleteFromMemory_def get_del)

lemma delete_all:
  assumes "k \<in> set ks"
  shows "map_of (inMemoryCache (fold (cache_delete ops) ks s)) k = None \<and> (\<forall>now. cr_get ops k now (cache_redis_state (fold (cache_delete ops) ks s)) = None)"
proof -
  have away: "map_of (inMemoryCache (fold (cache_delete ops) ks s)) k = None \<and> (\<forall>now. cr_get ops k now (cache_redis_state (fold (cache_delete ops) ks s)) = None)"
    if "map_of (inMemoryCache s) k = None \<and> (\<forall>now. cr_get ops k now (cache_redis_state s) = None)" for ks s
    using that by (induction ks arbitrary: s) (simp_all add: deleted_stays_away)
  show ?thesis
    using assms
  proof (induction ks arbitrary: s)
    case (Cons a ks)
    show ?case
    proof (cases "k = a")
      case True
      have "map_of (inMemoryCache (cache_delete ops a s)) k = None \<and> (\<forall>now. cr_get ops k now (cache_redis_state (cache_delete ops a s)) = None)"
        by (simp add: True cache_delete_def deleteFromMemory_def get_del)
      from away [OF this, of ks] show ?thesis by simp
    qed (use Cons in simp)
  qed simp
qed

end

text \<open>
  Deleting by a tag removes every value that was written with the tag and whose key is still
  listed under it: whatever the memory and Redis held of it is not found again.
\<close>

lemma tag_deletes_value:
  assumes "key_value ops" and "cc_tags c = Some tags" and "tag \<in> set tags" and "tag \<in> set deleted"
  shows "fst (cache_get truthy n ops e k c' now (deleteByTags ops deleted (cache_set n ops k v c t s))) = None"
proof -
  let ?s = "cache_set n ops k v c t s"
  have "k \<in> set (cr_smembers ops (''tag:'' @ tag) (cache_redis_state ?s))"
    using key_value.tagged_by_setInRedis [OF assms(1), of tag k v c t s] assms(2,3) by (simp add: cache_set_def)
  then have k: "k \<in> set (getKeysByTags ops deleted ?s)" using assms(4) by (auto simp: getKeysByTags_def)
  then have "getKeysByTags ops deleted ?s \<noteq> []" by auto
  then have "map_of (inMemoryCache (deleteByTags ops deleted ?s)) k = None"
    "cr_get ops k now (cache_redis_state (deleteByTags ops deleted ?s)) = None"
    using key_value.delete_all [OF assms(1) k, of ?s] by (simp_all add: deleteByTags_def)
  then show ?thesis by (simp add: cache_get_def getFromMemory_def Let_def)
qed

subsection \<open>A store that satisfies the laws\<close>

record 'v kv_store =
  kv_values :: "(string \<times> 'v \<times> time) list"
  kv_sets :: "(string \<times> string list) list"

definition kv_members :: "string \<Rightarrow> 'v kv_store \<Rightarrow> string list" where
  "kv_members k r = (case map_of (kv_sets r) k of None \<Rightarrow> [] | Some ms \<Rightarrow> ms)"

definition list_cache_redis :: "('v, 'v kv_store) cache_redis" where
  "list_cache_redis = \<lparr>
     cr_get = (\<lambda>k now r. case map_of (kv_values r) k of None \<Rightarrow> None | Some (v, until) \<Rightarrow> if now < until then Some v else None),
     cr_setex = (\<lambda>k ttl t v r. r\<lparr>kv_values := map_set k (v, t + ttl * 1000) (kv_values r)\<rparr>),
     cr_del = (\<lambda>k r. r\<lparr>kv_values := map_delete k (kv_values r)\<rparr>),
     cr_sadd = (\<lambda>k m r. r\<lparr>kv_sets := map_set k (List.insert m (kv_members k r)) (kv_sets r)\<rparr>),
     cr_smembers = kv_members,
     cr_flushdb = (\<lambda>r. \<lparr>kv_values = [], kv_sets = []\<rparr>)\<rparr>"

interpretation lists: key_value list_cache_redis
  by unfold_locales (auto simp: list_cache_redis_def kv_members_def split: option.split)

definition empty_cache :: "(int, int kv_store) cache" where
  "empty_cache = \<lparr>inMemoryCache = [], cache_redis_state = \<lparr>kv_values = [], kv_sets = []\<rparr>,
     metrics = \<lparr>cm_hits = 0, cm_misses = 0, cm_totalRequests = 0, cm_averageResponseTime = 0\<rparr>\<rparr>"

definition two_minutes :: cache_config where
  "two_minutes = \<lparr>cc_ttl = 120, cc_tags = Some [''counts'']\<rparr>"

theorem memory_bounded_witness:
  "length (inMemoryCache (fold (run_op (\<lambda>v. v \<noteq> 0) 1 list_cache_redis)
     [Put ''a'' 1 two_minutes 0, Put ''b'' 2 two_minutes 1, Get ''a'' None 2] empty_cache)) \<le> 1"
  by (rule memory_bounded [THEN conjunct1]) (simp add: empty_cache_def)

theorem read_your_write_witness:
  "fst (cache_get (\<lambda>v. v \<noteq> 0) 1 list_cache_redis 0 ''a'' None 119999
     (fold (run_op (\<lambda>v. v \<noteq> 0) 1 list_cache_redis) [Put ''b'' 2 two_minutes 1, Delete ''c''] (cache_set 1 list_cache_redis ''a'' 7 two_minutes 0 empty_cache)))
   = Some 7"
  by (rule read_your_write [OF lists.key_value_axioms]) (simp_all add: two_minutes_def)

theorem stale_after_ttl_witness:
  "fst (cache_get (\<lambda>v. v \<noteq> 0) 10 list_cache_redis 0 ''a'' (Some two_minutes) 239000
     (snd (cache_get (\<lambda>v. v \<noteq> 0) 10 list_cache_redis 0 ''a'' (Some two_minutes) 119000
        (empty_cache\<lparr>cache_redis_state := \<lparr>kv_values = [(''a'', 7, 120000)], kv_sets = []\<rparr>\<rparr>)))) = Some 7"
  by (rule stale_after_ttl) (simp_all add: two_minutes_def empty_cache_def list_cache_redis_def)

theorem tag_deletes_value_witness:
  "fst (cache_get (\<lambda>v. v \<noteq> 0) 10 list_cache_redis 0 ''a'' None 1
     (deleteByTags list_cache_redis [''counts''] (cache_set 10 list_cache_redis ''a'' 7 two_minutes 0 empty_cache))) = None"
  by (rule tag_deletes_value [OF lists.key_value_axioms, where tags = "[''counts'']" and tag = "''counts''"])
    (simp_all add: two_minutes_def)

end
