(* ===== verification/Retry.thy ===== *)
theory Retry
  imports Products
begin

text \<open>
  \<open>RetryStrategyService\<close> (src/src/notifications/retry-strategy.service.ts): an operation is run
  again after growing, bounded delays until it succeeds or the retries are used up. The operation
  works on a state of any type; \<open>random\<close> is what \<open>Math.random()\<close> answers for an attempt,
  \<open>clock\<close> the time at which an attempt ended.
\<close>

subsection \<open>Configuration\<close>

record retry_config =
  rc_maxRetries :: nat
  rc_initialDelayMs :: number
  rc_maxDelayMs :: number
  rc_backoffMultiplier :: number
  rc_useJitter :: bool

text \<open>A partial configuration: the keys that are present override.\<close>

record retry_overrides =
  ro_maxRetries :: "nat option"
  ro_initialDelayMs :: "number option"
  ro_maxDelayMs :: "number option"
  ro_backoffMultiplier :: "number option"
  ro_useJitter :: "bool option"

definition DEFAULT_RETRY_CONFIG :: retry_config where
  "DEFAULT_RETRY_CONFIG = \<lparr>rc_maxRetries = 3, rc_initialDelayMs = 1000, rc_maxDelayMs = 30000,
     rc_backoffMultiplier = 2, rc_useJitter = True\<rparr>"

definition pick :: "'a \<Rightarrow> 'a option \<Rightarrow> 'a" where
  "pick d x = (case x of None \<Rightarrow> d | Some v \<Rightarrow> v)"

definition final_config :: "retry_overrides \<Rightarrow> retry_config" where
  "final_config c =
     \<lparr>rc_maxRetries = pick (rc_maxRetries DEFAULT_RETRY_CONFIG) (ro_maxRetries c),
      rc_initialDelayMs = pick (rc_initialDelayMs DEFAULT_RETRY_CONFIG) (ro_initialDelayMs c),
      rc_maxDelayMs = pick (rc_maxDelayMs DEFAULT_RETRY_CONFIG) (ro_maxDelayMs c),
      rc_backoffMultiplier = pick (rc_backoffMultiplier DEFAULT_RETRY_CONFIG) (ro_backoffMultiplier c),
      rc_useJitter = pick (rc_useJitter DEFAULT_RETRY_CONFIG) (ro_useJitter c)\<rparr>"

definition overrides :: "nat \<Rightarrow> number \<Rightarrow> number \<Rightarrow> retry_overrides" where
  "overrides n i m = \<lparr>ro_maxRetries = Some n, ro_initialDelayMs = Some i, ro_maxDelayMs = Some m,
     ro_backoffMultiplier = None, ro_useJitter = None\<rparr>"

definition no_overrides :: retry_overrides where
  "no_overrides = \<lparr>ro_maxRetries = None, ro_initialDelayMs = None, ro_maxDelayMs = None,
     ro_backoffMultiplier = None, ro_useJitter = None\<rparr>"

text \<open>Where the code returns the default configuration itself nothing is overridden.\<close>

definition getConfigForNotificationType :: "string \<Rightarrow> retry_overrides" where
  "getConfigForNotificationType notificationType =
     (if notificationType = ''email'' then overrides 5 2000 60000
      else if notificationType = ''push'' then overrides 3 1000 30000
      else if notificationType = ''sms'' then overrides 4 3000 45000
      else no_overrides)"

definition calculateBackoff :: "(nat \<Rightarrow> number) \<Rightarrow> nat \<Rightarrow> retry_config \<Rightarrow> number" where
  "calculateBackoff random attempt config =
     (let exponentialDelay = rc_initialDelayMs config * rc_backoffMultiplier config ^ (attempt - 1);
          cappedDelay = min exponentialDelay (rc_maxDelayMs config)
      in if rc_useJitter config then of_int \<lfloor>random attempt * cappedDelay\<rfloor> else cappedDelay)"

subsection \<open>Running\<close>

record retry_attempt =
  ra_attemptNumber :: nat
  ra_delayMs :: number
  ra_timestamp :: time
  ra_error :: "error option"

datatype retry_event =
    Retry_started nat nat msg
  | Retry_succeeded nat nat
  | Retry_attempt_failed nat nat msg number
  | Retry_exhausted nat "msg option" "(nat \<times> msg option \<times> time) list"

record 'a retry_result =
  rr_ok :: bool
  rr_result :: "'a option"
  rr_attempts :: "retry_attempt list"
  rr_error :: "error option"

type_synonym ('a, 's) operation = "'s \<Rightarrow> ('a, 's) result"

text \<open>The loop over the retries: \<open>left\<close> of them remain, the next is number \<open>attempt\<close>.\<close>

fun retry_loop ::
  "(nat \<Rightarrow> number) \<Rightarrow> (nat \<Rightarrow> time) \<Rightarrow> ('a, 's) operation \<Rightarrow> retry_config \<Rightarrow> nat \<Rightarrow> nat \<Rightarrow> retry_attempt list \<Rightarrow>
   retry_event list \<Rightarrow> 's \<Rightarrow> 'a retry_result \<times> retry_event list \<times> 's" where
  "retry_loop random clock operation config attempt 0 attempts trace s =
     (let finalError = (if attempts = [] then None else ra_error (last attempts))
      in (\<lparr>rr_ok = False, rr_result = None, rr_attempts = attempts, rr_error = finalError\<rparr>,
          trace @ [Retry_exhausted (length attempts) (map_option error_message finalError)
            (map (\<lambda>a. (ra_attemptNumber a, map_option error_message (ra_error a), ra_timestamp a)) attempts)], s))"
| "retry_loop random clock operation config attempt (Suc left) attempts trace s =
     (let delayMs = calculateBackoff random attempt config
      in case operation s of
           (Inr x, t) \<Rightarrow>
             let attempts = attempts @ [\<lparr>ra_attemptNumber = attempt, ra_delayMs = delayMs, ra_timestamp = clock attempt, ra_error = None\<rparr>]
             in (\<lparr>rr_ok = True, rr_result = Some x, rr_attempts = attempts, rr_error = None\<rparr>,
                 trace @ [Retry_succeeded attempt (length attempts)], t)
         | (Inl e, t) \<Rightarrow>
             let attempts = attempts @ [\<lparr>ra_attemptNumber = attempt, ra_delayMs = delayMs, ra_timestamp = clock attempt, ra_error = Some e\<rparr>]
             in retry_loop random clock operation config (Suc attempt) left attempts
                  (trace @ [Retry_attempt_failed attempt (rc_maxRetries config) (error_message e)
                     (if left \<noteq> 0 then calculateBackoff random (attempt + 1) config else 0)]) t)"

definition executeWithRetry ::
  "(nat \<Rightarrow> number) \<Rightarrow> (nat \<Rightarrow> time) \<Rightarrow> ('a, 's) operation \<Rightarrow> retry_overrides \<Rightarrow> 's \<Rightarrow>
   'a retry_result \<times> retry_event list \<times> 's" where
  "executeWithRetry random clock operation config s =
     (let finalConfig = final_config config
      in case operation s of
           (Inr x, t) \<Rightarrow> (\<lparr>rr_ok = True, rr_result = Some x, rr_attempts = [], rr_error = None\<rparr>, [], t)
         | (Inl e, t) \<Rightarrow>
           retry_loop random clock operation finalConfig 1 (rc_maxRetries finalConfig)
             [\<lparr>ra_attemptNumber = 0, ra_delayMs = 0, ra_timestamp = clock 0, ra_error = Some e\<rparr>]
             [Retry_started 0 (rc_maxRetries finalConfig) (error_message e)] t)"

subsection \<open>Delays\<close>

lemma backoff_bounds:
  assumes "0 \<le> rc_initialDelayMs c" "0 \<le> rc_backoffMultiplier c" "0 \<le> rc_maxDelayMs c" "0 \<le> random n" "random n < 1"
  shows "0 \<le> calculateBackoff random n c" "calculateBackoff random n c \<le> rc_maxDelayMs c"
    "calculateBackoff random n c \<le> rc_initialDelayMs c * rc_backoffMultiplier c ^ (n - 1)"
proof -
  define capped where "capped = min (rc_initialDelayMs c * rc_backoffMultiplier c ^ (n - 1)) (rc_maxDelayMs c)"
  have capped: "0 \<le> capped" "capped \<le> rc_maxDelayMs c" "capped \<le> rc_initialDelayMs c * rc_backoffMultiplier c ^ (n - 1)"
    using assms(1-3) by (simp_all add: capped_def)
  have "random n * capped \<le> 1 * capped" using assms(5) capped(1) by (intro mult_right_mono) simp_all
  then have floor: "of_int \<lfloor>random n * capped\<rfloor> \<le> capped" using of_int_floor_le [of "random n * capped"] by linarith
  have "0 \<le> random n * capped" using assms(4) capped(1) by simp
  then have nonneg: "(0 :: rat) \<le> of_int \<lfloor>random n * capped\<rfloor>" by simp
  have b: "calculateBackoff random n c = (if rc_useJitter c then of_int \<lfloor>random n * capped\<rfloor> else capped)"
    by (simp add: calculateBackoff_def capped_def Let_def)
  show "0 \<le> calculateBackoff random n c" "calculateBackoff random n c \<le> rc_maxDelayMs c"
    "calculateBackoff random n c \<le> rc_initialDelayMs c * rc_backoffMultiplier c ^ (n - 1)"
    unfolding b using capped floor nonneg by (simp_all del: of_int_0_le_iff)
qed

subsection \<open>The outcome\<close>

text \<open>The state after the operation has been run \<open>n\<close> times, and what the next run answers.\<close>

fun after :: "('a, 's) operation \<Rightarrow> nat \<Rightarrow> 's \<Rightarrow> 's" where
  "after operation 0 s = s"
| "after operation (Suc n) s = after operation n (snd (operation s))"

definition answer :: "('a, 's) operation \<Rightarrow> nat \<Rightarrow> 's \<Rightarrow> error + 'a" where
  "answer operation n s = fst (operation (after operation n s))"

lemma answer_simps [simp]:
  "answer operation 0 s = fst (operation s)"
  "answer operation n (snd (operation s)) = answer operation (Suc n) s"
  by (simp_all add: answer_def)

lemma upt_Suc_Cons: "[0..<Suc n] = 0 # map Suc [0..<n]"
  using upt_conv_Cons [of 0 "Suc n"] by (simp only: map_Suc_upt zero_less_Suc simp_thms One_nat_def)

text \<open>The attempts of a loop that begins at \<open>attempt\<close> and stops before run \<open>n\<close>.\<close>

definition logged ::
  "(nat \<Rightarrow> number) \<Rightarrow> (nat \<Rightarrow> time) \<Rightarrow> retry_config \<Rightarrow> nat \<Rightarrow> (error + 'a) \<Rightarrow> retry_attempt" where
  "logged random clock config n outcome =
     \<lparr>ra_attemptNumber = n, ra_delayMs = calculateBackoff random n config, ra_timestamp = clock n,
      ra_error = (case outcome of Inl e \<Rightarrow> Some e | Inr _ \<Rightarrow> None)\<rparr>"

lemma retry_loop_Inr:
  "fst (operation s) = Inr x \<Longrightarrow> retry_loop random clock operation config attempt (Suc left) attempts trace s =
    (\<lparr>rr_ok = True, rr_result = Some x, rr_attempts = attempts @ [logged random clock config attempt (Inr x :: error + 'a)], rr_error = None\<rparr>,
     trace @ [Retry_succeeded attempt (length attempts + 1)], snd (operation s))"
  for x :: 'a
  by (cases "operation s") (simp add: logged_def)

lemma retry_loop_Inl:
  "fst (operation s) = Inl e \<Longrightarrow> retry_loop random clock operation config attempt (Suc left) attempts trace s =
    retry_loop random clock operation config (Suc attempt) left (attempts @ [logged random clock config attempt (fst (operation s))])
      (trace @ [Retry_attempt_failed attempt (rc_maxRetries config) (error_message e)
         (if left \<noteq> 0 then calculateBackoff random (attempt + 1) config else 0)]) (snd (operation s))"
  by (cases "operation s") (simp add: logged_def)

lemma retry_loop_success:
  assumes "\<forall>i < k. isl (answer operation i s)" "answer operation k s = Inr x" "k < left"
  shows "\<exists>trace'. retry_loop random clock operation config attempt left attempts trace s =
     (\<lparr>rr_ok = True, rr_result = Some x,
       rr_attempts = attempts @ map (\<lambda>i. logged random clock config (attempt + i) (answer operation i s)) [0..<Suc k],
       rr_error = None\<rparr>, trace', after operation (Suc k) s)"
  using assms
proof (induction left arbitrary: k attempt attempts trace s)
  case (Suc left)
  show ?case
  proof (cases k)
    case 0
    then have "fst (operation s) = Inr x" using Suc.prems(2) by simp
    then show ?thesis unfolding 0 by (simp only: retry_loop_Inr) simp
  next
    case (Suc k')
    obtain e where e: "fst (operation s) = Inl e" using Suc.prems(1) Suc by (auto simp: isl_def)
    let ?s = "snd (operation s)"
    have "\<forall>i < k'. isl (answer operation i ?s)" "answer operation k' ?s = Inr x" "k' < left"
      using Suc.prems Suc by auto
    note rest = Suc.IH [OF this]
    have "map (\<lambda>i. logged random clock config (attempt + i) (answer operation i s)) [0..<Suc k] =
        logged random clock config attempt (fst (operation s)) #
        map (\<lambda>i. logged random clock config (Suc attempt + i) (answer operation i ?s)) [0..<Suc k']"
      unfolding Suc by (subst map_upt_Suc) simp
    then show ?thesis
      using rest [of "Suc attempt" "attempts @ [logged random clock config attempt (fst (operation s))]"
          "trace @ [Retry_attempt_failed attempt (rc_maxRetries config) (error_message e)
             (if left \<noteq> 0 then calculateBackoff random (attempt + 1) config else 0)]"] Suc
      by (simp add: retry_loop_Inl [of operation s e, OF e] del: upt_Suc retry_loop.simps)
  qed
qed simp

lemma retry_loop_failure:
  assumes "\<forall>i < left. isl (answer operation i s)" "attempts \<noteq> []"
  shows "\<exists>trace'. retry_loop random clock operation config attempt left attempts trace s =
     (let all = attempts @ map (\<lambda>i. logged random clock config (attempt + i) (answer operation i s)) [0..<left]
      in (\<lparr>rr_ok = False, rr_result = None, rr_attempts = all, rr_error = ra_error (last all)\<rparr>, trace', after operation left s))"
  using assms
proof (induction left arbitrary: attempt attempts trace s)
  case (Suc left)
  obtain e where e: "fst (operation s) = Inl e" using Suc.prems(1) by (auto simp: isl_def)
  let ?s = "snd (operation s)"
  have "\<forall>i < left. isl (answer operation i ?s)" using Suc.prems by auto
  note rest = Suc.IH [OF this, of "attempts @ [logged random clock config attempt (fst (operation s))]" "Suc attempt"
      "trace @ [Retry_attempt_failed attempt (rc_maxRetries config) (error_message e)
         (if left \<noteq> 0 then calculateBackoff random (attempt + 1) config else 0)]"]
  have "map (\<lambda>i. logged random clock config (attempt + i) (answer operation i s)) [0..<Suc left] =
      logged random clock config attempt (fst (operation s)) #
      map (\<lambda>i. logged random clock config (Suc attempt + i) (answer operation i ?s)) [0..<left]"
    by (subst map_upt_Suc) simp
  then show ?case using rest by (simp add: retry_loop_Inl [of operation s e, OF e] Let_def del: upt_Suc retry_loop.simps)
qed (simp add: Let_def)

text \<open>
  Property C16: an operation is retried until its first success and no longer, and at most the configured
  number of times: when run k is the first to succeed, its value is returned after k + 1 runs; when the
  first run and all retries fail, the error of the last run is returned and the operation is not run again.
\<close>

theorem retry_outcome:
  assumes "n = rc_maxRetries (final_config config)"
  shows "(\<forall>k x. k \<le> n \<and> (\<forall>i < k. isl (answer operation i s)) \<and> answer operation k s = Inr x \<longrightarrow>
       (\<exists>r trace. executeWithRetry random clock operation config s = (r, trace, after operation (Suc k) s)
          \<and> rr_ok r \<and> rr_result r = Some x \<and> map ra_attemptNumber (rr_attempts r) = (if k = 0 then [] else [0..<Suc k])))
   \<and> ((\<forall>i \<le> n. isl (answer operation i s)) \<longrightarrow>
       (\<exists>r trace. executeWithRetry random clock operation config s = (r, trace, after operation (Suc n) s)
          \<and> \<not> rr_ok r \<and> map ra_attemptNumber (rr_attempts r) = [0..<Suc n]
          \<and> Some (answer operation n s) = map_option Inl (rr_error r)))"
proof (intro conjI allI impI)
  define c where "c = final_config config"
  let ?s = "snd (operation s)"
  let ?a = "\<lambda>e. \<lparr>ra_attemptNumber = 0, ra_delayMs = 0, ra_timestamp = clock 0, ra_error = Some e\<rparr>"
  have first: "executeWithRetry random clock operation config s =
      retry_loop random clock operation c 1 n [?a e] [Retry_started 0 n (error_message e)] ?s" if "fst (operation s) = Inl e" for e
    using that assms by (cases "operation s") (simp add: executeWithRetry_def Let_def c_def)
  show "\<exists>r trace. executeWithRetry random clock operation config s = (r, trace, after operation (Suc k) s)
      \<and> rr_ok r \<and> rr_result r = Some x \<and> map ra_attemptNumber (rr_attempts r) = (if k = 0 then [] else [0..<Suc k])"
    if k: "k \<le> n \<and> (\<forall>i < k. isl (answer operation i s)) \<and> answer operation k s = Inr x" for k x
  proof (cases k)
    case 0
    then have "fst (operation s) = Inr x" using k by simp
    then show ?thesis unfolding 0 by (cases "operation s") (simp add: executeWithRetry_def)
  next
    case (Suc k')
    obtain e where e: "fst (operation s) = Inl e" using k Suc by (auto simp: isl_def)
    have "\<forall>i < k'. isl (answer operation i ?s)" "answer operation k' ?s = Inr x" "k' < n" using k Suc by auto
    from retry_loop_success [OF this, of random clock c 1 "[?a e]" "[Retry_started 0 n (error_message e)]"]
    obtain trace' where run: "executeWithRetry random clock operation config s = (\<lparr>rr_ok = True, rr_result = Some x,
        rr_attempts = [?a e] @ map (\<lambda>i. logged random clock c (1 + i) (answer operation i ?s)) [0..<Suc k'],
        rr_error = None\<rparr>, trace', after operation (Suc k') ?s)"
      unfolding first [OF e] by blast
    have "map ra_attemptNumber ([?a e] @ map (\<lambda>i. logged random clock c (1 + i) (answer operation i ?s)) [0..<Suc k']) = [0..<Suc k]"
      unfolding Suc upt_Suc_Cons [of "Suc k'"] by (simp add: logged_def del: upt_Suc)
    then show ?thesis using run Suc by (simp del: upt_Suc)
  qed
  show "\<exists>r trace. executeWithRetry random clock operation config s = (r, trace, after operation (Suc n) s)
      \<and> \<not> rr_ok r \<and> map ra_attemptNumber (rr_attempts r) = [0..<Suc n]
      \<and> Some (answer operation n s) = map_option Inl (rr_error r)"
    if all: "\<forall>i \<le> n. isl (answer operation i s)"
  proof -
    obtain e where e: "fst (operation s) = Inl e" using all by (auto simp: isl_def)
    have "\<forall>i < n. isl (answer operation i ?s)" using all by auto
    from retry_loop_failure [OF this, of "[?a e]" random clock c 1 "[Retry_started 0 n (error_message e)]"]
    obtain trace' attempts where at: "attempts = [?a e] @ map (\<lambda>i. logged random clock c (1 + i) (answer operation i ?s)) [0..<n]"
      and run: "executeWithRetry random clock operation config s =
        (\<lparr>rr_ok = False, rr_result = None, rr_attempts = attempts, rr_error = ra_error (last attempts)\<rparr>, trace', after operation n ?s)"
      unfolding first [OF e] by (auto simp: Let_def)
    have numbers: "map ra_attemptNumber attempts = [0..<Suc n]"
      unfolding at upt_Suc_Cons [of n] by (simp add: logged_def del: upt_Suc)
    have "Some (answer operation n s) = map_option Inl (ra_error (last attempts))"
    proof (cases n)
      case (Suc m)
      then have "last attempts = logged random clock c n (answer operation n s)" by (simp add: at)
      moreover obtain e' where "answer operation n s = Inl e'" using all by (auto simp: isl_def)
      ultimately show ?thesis by (simp add: logged_def)
    qed (simp add: at e)
    then show ?thesis using run numbers by (simp del: upt_Suc)
  qed
qed

text \<open>An operation that fails twice and then answers what it was asked.\<close>

definition flaky_operation :: "(nat, nat) operation" where
  "flaky_operation n = (if n < 2 then Inl (Error [Txt ''timeout'']) else Inr n, n + 1)"

theorem retry_outcome_witness:
  "\<exists>r trace. executeWithRetry (\<lambda>_. 1 / 2) (\<lambda>_. 0) flaky_operation (getConfigForNotificationType ''push'') 0 = (r, trace, 3)
     \<and> rr_ok r \<and> rr_result r = Some 2 \<and> map ra_attemptNumber (rr_attempts r) = [0, 1, 2]"
proof -
  have n: "rc_maxRetries (final_config (getConfigForNotificationType ''push'')) = 3"
    by (simp add: getConfigForNotificationType_def overrides_def final_config_def pick_def)
  have first: "2 \<le> (3 :: nat) \<and> (\<forall>i < 2. isl (answer flaky_operation i 0)) \<and> answer flaky_operation 2 0 = Inr 2"
    by (simp add: numeral_2_eq_2 less_Suc_eq answer_def flaky_operation_def)
  have "\<exists>r trace. executeWithRetry (\<lambda>_. 1 / 2) (\<lambda>_. 0) flaky_operation (getConfigForNotificationType ''push'') 0 =
      (r, trace, after flaky_operation (Suc 2) 0) \<and> rr_ok r \<and> rr_result r = Some 2
      \<and> map ra_attemptNumber (rr_attempts r) = (if (2 :: nat) = 0 then [] else [0..<Suc 2])"
    by (rule conjunct1 [OF retry_outcome [OF n [symmetric]], rule_format, OF first])
  moreover have "after flaky_operation (Suc 2) 0 = 3" by (simp add: numeral_2_eq_2 flaky_operation_def)
  moreover have "(if (2 :: nat) = 0 then [] else [0..<Suc 2]) = [0, 1, 2 :: nat]" by (simp add: numeral_2_eq_2)
  ultimately show ?thesis by (simp only:)
qed

text \<open>What every run of the operation keeps, the retries keep.\<close>

lemma retry_loop_keeps:
  assumes "\<And>s. Q s \<Longrightarrow> Q (snd (operation s))" "Q s"
  shows "Q (snd (snd (retry_loop random clock operation c attempt left attempts trace s)))"
  using assms(2)
proof (induction left arbitrary: attempt attempts trace s)
  case (Suc left)
  obtain r t where op: "operation s = (r, t)" by fastforce
  then have "Q t" using assms(1) [OF Suc.prems] by simp
  then show ?case using Suc.IH op by (cases r) (simp_all add: Let_def)
qed (simp add: Let_def)

lemma executeWithRetry_keeps:
  assumes "\<And>s. Q s \<Longrightarrow> Q (snd (operation s))" "Q s"
  shows "Q (snd (snd (executeWithRetry random clock operation config s)))"
proof -
  obtain r t where op: "operation s = (r, t)" by fastforce
  then have "Q t" using assms(1) [OF assms(2)] by simp
  then show ?thesis
    using op retry_loop_keeps [of Q operation t] assms(1) by (cases r) (simp_all add: executeWithRetry_def Let_def)
qed

subsection \<open>How long a run sleeps\<close>

definition slept :: "retry_attempt list \<Rightarrow> number" where
  "slept attempts = sum_list (map ra_delayMs attempts)"

lemma slept_append [simp]: "slept (xs @ ys) = slept xs + slept ys"
  by (simp add: slept_def)

lemma retry_loop_slept:
  assumes "0 \<le> rc_initialDelayMs c" "0 \<le> rc_backoffMultiplier c" "0 \<le> rc_maxDelayMs c"
    and random: "\<forall>n. 0 \<le> random n \<and> random n < 1"
  shows "slept (rr_attempts (fst (retry_loop random clock operation c attempt left attempts trace s)))
    \<le> slept attempts + of_nat left * rc_maxDelayMs c"
proof (induction left arbitrary: attempt attempts trace s)
  case (Suc left)
  have d: "calculateBackoff random attempt c \<le> rc_maxDelayMs c"
    by (rule backoff_bounds (2)) (use assms in simp_all)
  obtain r t where op: "operation s = (r, t)" by fastforce
  show ?case
  proof (cases r)
    case (Inl e)
    let ?new = "attempts @ [\<lparr>ra_attemptNumber = attempt, ra_delayMs = calculateBackoff random attempt c,
        ra_timestamp = clock attempt, ra_error = Some e\<rparr>]"
    have new: "slept ?new \<le> slept attempts + rc_maxDelayMs c" using d by (simp add: slept_def)
    have "slept (rr_attempts (fst (retry_loop random clock operation c attempt (Suc left) attempts trace s)))
        \<le> slept ?new + of_nat left * rc_maxDelayMs c"
      using Suc.IH [of "Suc attempt" ?new] by (simp add: op Inl Let_def del: slept_append)
    also have "\<dots> \<le> slept attempts + rc_maxDelayMs c + of_nat left * rc_maxDelayMs c"
      using new by (rule add_right_mono)
    finally show ?thesis by (simp add: algebra_simps)
  next
    case (Inr x)
    have "0 \<le> of_nat left * rc_maxDelayMs c" using assms(3) by simp
    then show ?thesis using d op Inr by (simp add: Let_def slept_def algebra_simps)
  qed
qed (simp add: Let_def)

text \<open>
  With the configuration of any notification type, and whatever the random numbers, the delays
  before the retries sum to at most maxRetries times the largest delay: five minutes for an e-mail,
  three for an SMS, ninety seconds for the others.
\<close>

lemma retries_end_in_time:
  assumes "\<forall>n. 0 \<le> random n \<and> random n < 1"
  shows "slept (rr_attempts (fst (executeWithRetry random clock operation (getConfigForNotificationType type) s)))
    \<le> (if type = ''email'' then 300000 else if type = ''sms'' then 180000 else 90000)"
proof -
  let ?c = "final_config (getConfigForNotificationType type)"
  have c: "0 \<le> rc_initialDelayMs ?c" "0 \<le> rc_backoffMultiplier ?c" "0 \<le> rc_maxDelayMs ?c"
    by (simp_all add: getConfigForNotificationType_def overrides_def no_overrides_def final_config_def pick_def DEFAULT_RETRY_CONFIG_def)
  have max: "of_nat (rc_maxRetries ?c) * rc_maxDelayMs ?c
      = (if type = ''email'' then 300000 else if type = ''sms'' then 180000 else 90000)"
    by (simp add: getConfigForNotificationType_def overrides_def no_overrides_def final_config_def pick_def DEFAULT_RETRY_CONFIG_def)
  obtain r t where op: "operation s = (r, t)" by fastforce
  show ?thesis
  proof (cases r)
    case (Inl e)
    then show ?thesis
      using retry_loop_slept [OF c assms, of clock operation 1 "rc_maxRetries ?c"
          "[\<lparr>ra_attemptNumber = 0, ra_delayMs = 0, ra_timestamp = clock 0, ra_error = Some e\<rparr>]"
          "[Retry_started 0 (rc_maxRetries ?c) (error_message e)]" t]
      unfolding max executeWithRetry_def op Let_def by (simp add: slept_def)
  next
    case (Inr x)
    then show ?thesis by (simp add: executeWithRetry_def op Let_def slept_def)
  qed
qed

theorem retries_end_in_time_witness:
  "slept (rr_attempts (fst (executeWithRetry (\<lambda>_. 1 / 2) (\<lambda>_. 0) flaky_operation (getConfigForNotificationType ''email'') 0))) \<le> 300000"
  using retries_end_in_time [of "\<lambda>_. 1 / 2" "\<lambda>_. 0" flaky_operation "''email''" 0] by simp

end
