(* ===== verification/DeadLetter.thy ===== *)
theory DeadLetter
  imports Products Calendar
begin

text \<open>
  \<open>DeadLetterQueueService\<close> (src/src/notifications/dead-letter-queue.service.ts): the table of the
  events that could not be processed, its triage states, statistics and nightly cleanup. New
  identifiers, the clock and the answer of the database to an insert are parameters; \<open>isoText\<close> is the
  text JSON gives a date. The stack of an error is left out.
\<close>

subsection \<open>Entries\<close>

text \<open>The values of a JSON column.\<close>

datatype jvalue = JText string | JNumber number | JBool bool | JNull
  | JArray "jvalue list" | JObject "(string \<times> jvalue) list"

type_synonym jobject = "(string \<times> jvalue) list"

fun join_commas :: "string list \<Rightarrow> string" where
  "join_commas [] = []"
| "join_commas [t] = t"
| "join_commas (t # u # ts) = t @ '','' @ join_commas (u # ts)"

text \<open>\<open>String(value)\<close>; an array joins its elements, of which \<open>null\<close> is empty.\<close>

fun jvalue_text :: "jvalue \<Rightarrow> string" where
  "jvalue_text (JText t) = t"
| "jvalue_text (JNumber n) = to_string n"
| "jvalue_text (JBool b) = (if b then ''true'' else ''false'')"
| "jvalue_text JNull = ''null''"
| "jvalue_text (JArray xs) = join_commas (map (\<lambda>x. if x = JNull then [] else jvalue_text x) xs)"
| "jvalue_text (JObject m) = ''[object Object]''"

fun js_truthy :: "jvalue \<Rightarrow> bool" where
  "js_truthy (JText t) \<longleftrightarrow> t \<noteq> []"
| "js_truthy (JNumber n) \<longleftrightarrow> n \<noteq> 0"
| "js_truthy (JBool b) \<longleftrightarrow> b"
| "js_truthy JNull \<longleftrightarrow> False"
| "js_truthy (JArray xs) \<longleftrightarrow> True"
| "js_truthy (JObject m) \<longleftrightarrow> True"

text \<open>\<open>{...xs, ...ys}\<close>.\<close>

definition spread_object :: "jobject \<Rightarrow> jobject \<Rightarrow> jobject" where
  "spread_object xs ys = fold (\<lambda>(k, v). map_set k v) ys xs"

datatype dlq_status = DLQ_PENDING | DLQ_INVESTIGATING | DLQ_RESOLVED | DLQ_DISCARDED

primrec dlq_status_text :: "dlq_status \<Rightarrow> string" where
  "dlq_status_text DLQ_PENDING = ''pending''"
| "dlq_status_text DLQ_INVESTIGATING = ''investigating''"
| "dlq_status_text DLQ_RESOLVED = ''resolved''"
| "dlq_status_text DLQ_DISCARDED = ''discarded''"

primrec error_name :: "error \<Rightarrow> string" where
  "error_name (BadRequestException m) = ''BadRequestException''"
| "error_name (NotFoundException m) = ''NotFoundException''"
| "error_name (ForbiddenException m) = ''ForbiddenException''"
| "error_name (ConflictException m) = ''ConflictException''"
| "error_name (InternalServerErrorException m) = ''InternalServerErrorException''"
| "error_name (TypeError m) = ''TypeError''"
| "error_name (Error m) = ''Error''"

record retry_note =
  rn_attemptNumber :: nat
  rn_timestamp :: time
  rn_error :: msg

record failure_context =
  fc_attempts :: nat
  fc_firstFailureAt :: time
  fc_lastFailureAt :: time
  fc_retryHistory :: "retry_note list"

record dlq_entry =
  dq_id :: uuid
  dq_eventType :: string
  dq_domain :: string
  dq_originalPayload :: jobject
  dq_error :: "msg \<times> string"
  dq_failureContext :: failure_context
  dq_metadata :: jobject
  dq_status :: dlq_status
  dq_createdAt :: time
  dq_updatedAt :: time

datatype dlq_event =
    Dlq_created uuid string string nat msg time
  | Dlq_status_changed uuid dlq_status dlq_status time
  | Dlq_retry uuid string string jobject "jvalue option" time
  | Dlq_deleted uuid time
  | Dlq_cleanup nat nat time

record dlq =
  dlq_entries :: "dlq_entry list"
  dlq_events :: "dlq_event list"

definition dlq_emit :: "dlq_event \<Rightarrow> dlq \<Rightarrow> dlq" where
  "dlq_emit ev s = s\<lparr>dlq_events := dlq_events s @ [ev]\<rparr>"

definition dlq_save :: "dlq_entry \<Rightarrow> dlq \<Rightarrow> dlq" where
  "dlq_save e s = s\<lparr>dlq_entries := tbl_save dq_id e (dlq_entries s)\<rparr>"

subsection \<open>Operations\<close>

record dlq_failure =
  df_attempts :: nat
  df_retryHistory :: "retry_note list"
  df_eventId :: "string option"
  df_correlationId :: "string option"
  df_metadata :: jobject

text \<open>A key whose value is \<open>undefined\<close> is not stored.\<close>

definition text_field :: "string \<Rightarrow> string option \<Rightarrow> jobject" where
  "text_field k x = (case x of None \<Rightarrow> [] | Some t \<Rightarrow> [(k, JText t)])"

definition routeToDLQ ::
  "error option \<Rightarrow> uuid \<Rightarrow> time \<Rightarrow> string \<Rightarrow> string \<Rightarrow> jobject \<Rightarrow> error \<Rightarrow> dlq_failure \<Rightarrow> dlq \<Rightarrow> (dlq_entry, dlq) result" where
  "routeToDLQ refused newId now eventType domain payload err context s =
     (let entry = \<lparr>dq_id = newId, dq_eventType = eventType, dq_domain = domain, dq_originalPayload = payload,
            dq_error = (error_message err, error_name err),
            dq_failureContext =
              \<lparr>fc_attempts = df_attempts context,
               fc_firstFailureAt = (case df_retryHistory context of [] \<Rightarrow> now | h # _ \<Rightarrow> rn_timestamp h),
               fc_lastFailureAt = now, fc_retryHistory = df_retryHistory context\<rparr>,
            dq_metadata = spread_object (text_field ''eventId'' (df_eventId context)
                @ text_field ''correlationId'' (df_correlationId context)
                @ [(''sourceService'', JText ''marketx-backend'')]) (df_metadata context),
            dq_status = DLQ_PENDING, dq_createdAt = now, dq_updatedAt = now\<rparr>
      in case refused of
           Some dlqError \<Rightarrow> (Inl dlqError, s)
         | None \<Rightarrow> (Inr entry, dlq_emit (Dlq_created newId eventType domain (df_attempts context) (error_message err) now)
             (dlq_save entry s)))"

record dlq_query =
  qq_status :: "string option"
  qq_domain :: "string option"
  qq_eventType :: "string option"
  qq_limit :: "nat option"
  qq_offset :: "nat option"

definition or_default :: "nat option \<Rightarrow> nat \<Rightarrow> nat" where
  "or_default x d = (case x of None \<Rightarrow> d | Some n \<Rightarrow> if n = 0 then d else n)"

text \<open>Newest first; the database may order entries of the same moment in any way, here as inserted.\<close>

definition getDLQEntries :: "dlq_query \<Rightarrow> dlq \<Rightarrow> dlq_entry list \<times> nat" where
  "getDLQEntries options s =
     (let matches = \<lambda>x f. truthy_text x \<longrightarrow> x = Some f;
          found = filter (\<lambda>e. matches (qq_status options) (dlq_status_text (dq_status e))
              \<and> matches (qq_domain options) (dq_domain e) \<and> matches (qq_eventType options) (dq_eventType e)) (dlq_entries s)
      in (take (or_default (qq_limit options) 50) (drop (or_default (qq_offset options) 0)
            (sort_key (\<lambda>e. - dq_createdAt e) found)), length found))"

definition getDLQEntry :: "uuid \<Rightarrow> dlq \<Rightarrow> dlq_entry option" where
  "getDLQEntry i s = tbl_find dq_id i (dlq_entries s)"

definition updateDLQEntryStatus ::
  "time \<Rightarrow> uuid \<Rightarrow> dlq_status \<Rightarrow> jobject option \<Rightarrow> dlq \<Rightarrow> (dlq_entry, dlq) result" where
  "updateDLQEntryStatus now i status metadata s =
     (case tbl_find dq_id i (dlq_entries s) of
        None \<Rightarrow> (Inl (Error [Txt ''DLQ entry not found: '', Txt i]), s)
      | Some entry \<Rightarrow>
        let entry = entry\<lparr>dq_status := status, dq_updatedAt := now\<rparr>;
            entry = (case metadata of None \<Rightarrow> entry | Some m \<Rightarrow> entry\<lparr>dq_metadata := spread_object (dq_metadata entry) m\<rparr>)
        in (Inr entry, dlq_emit (Dlq_status_changed i status status now) (dlq_save entry s)))"

text \<open>\<open>(value || 0) + 1\<close>: \<open>+\<close> adds to a number or a truth value and appends to the text of any
  other.\<close>

definition next_count :: "jvalue option \<Rightarrow> jvalue" where
  "next_count v =
     (case v of
        None \<Rightarrow> JNumber 1
      | Some x \<Rightarrow>
        if \<not> js_truthy x then JNumber 1
        else case x of JNumber n \<Rightarrow> JNumber (n + 1) | JBool b \<Rightarrow> JNumber 2 | _ \<Rightarrow> JText (jvalue_text x @ ''1''))"

definition retryDLQEntry :: "(time \<Rightarrow> string) \<Rightarrow> time \<Rightarrow> uuid \<Rightarrow> dlq \<Rightarrow> (bool, dlq) result" where
  "retryDLQEntry isoText now i s =
     (case tbl_find dq_id i (dlq_entries s) of
        None \<Rightarrow> (Inl (Error [Txt ''DLQ entry not found: '', Txt i]), s)
      | Some entry \<Rightarrow>
        if dq_status entry = DLQ_RESOLVED then (Inr False, s)
        else
          let entry = entry\<lparr>dq_status := DLQ_INVESTIGATING, dq_updatedAt := now,
                dq_metadata := spread_object (dq_metadata entry) [(''lastRetryAt'', JText (isoText now)),
                  (''retryCount'', next_count (map_of (dq_metadata entry) ''retryCount''))]\<rparr>
          in (Inr True, dlq_emit (Dlq_retry i (dq_eventType entry) (dq_domain entry) (dq_originalPayload entry)
                (map_of (dq_metadata entry) ''retryCount'') now) (dlq_save entry s)))"

definition deleteDLQEntry :: "time \<Rightarrow> uuid \<Rightarrow> dlq \<Rightarrow> (unit, dlq) result" where
  "deleteDLQEntry now i s =
     (let kept = filter (\<lambda>e. dq_id e \<noteq> i) (dlq_entries s); affected = length (dlq_entries s) - length kept
      in if affected = 0 then (Inl (Error [Txt ''DLQ entry not found: '', Txt i]), s)
         else (Inr (), dlq_emit (Dlq_deleted i now) (s\<lparr>dlq_entries := kept\<rparr>)))"

subsection \<open>Statistics\<close>

text \<open>The rows of \<open>SELECT f, COUNT(*) ... GROUP BY f\<close>; the driver returns a count as text.\<close>

definition group_rows :: "('r \<Rightarrow> string) \<Rightarrow> 'r list \<Rightarrow> (string \<times> string) list" where
  "group_rows f rows = map (\<lambda>k. (k, show_nat (length (filter (\<lambda>r. f r = k) rows)))) (remdups (map f rows))"

definition reduceCount :: "(string \<times> string) list \<Rightarrow> (string \<times> nat option) list" where
  "reduceCount results = fold (\<lambda>(k, n) acc. map_set k (parse_int n) acc) results []"

record dlq_stats =
  ds_total :: nat
  ds_byStatus :: "(string \<times> nat option) list"
  ds_byDomain :: "(string \<times> nat option) list"
  ds_byEventType :: "(string \<times> nat option) list"
  ds_olderThan24h :: nat
  ds_olderThan7d :: nat

definition older_than :: "time \<Rightarrow> dlq \<Rightarrow> nat" where
  "older_than threshold s = length (filter (\<lambda>e. dq_createdAt e < threshold) (dlq_entries s))"

definition getDLQStats :: "time \<Rightarrow> dlq \<Rightarrow> dlq_stats" where
  "getDLQStats now s =
     \<lparr>ds_total = length (dlq_entries s),
      ds_byStatus = reduceCount (group_rows (\<lambda>e. dlq_status_text (dq_status e)) (dlq_entries s)),
      ds_byDomain = reduceCount (group_rows dq_domain (dlq_entries s)),
      ds_byEventType = reduceCount (group_rows dq_eventType (dlq_entries s)),
      ds_olderThan24h = older_than (now - 24 * 60 * 60 * 1000) s,
      ds_olderThan7d = older_than (now - 7 * 24 * 60 * 60 * 1000) s\<rparr>"

subsection \<open>Cleanup\<close>

definition retentionDays :: nat where
  "retentionDays = 30"

definition cleanupOldDLQEntries :: "time \<Rightarrow> dlq \<Rightarrow> dlq" where
  "cleanupOldDLQEntries now s =
     (let cutoffDate = setDate (getDate now - int retentionDays) now;
          kept = filter (\<lambda>e. \<not> (dq_status e \<in> {DLQ_RESOLVED, DLQ_DISCARDED} \<and> dq_createdAt e < cutoffDate)) (dlq_entries s);
          deletedCount = length (dlq_entries s) - length kept;
          s = s\<lparr>dlq_entries := kept\<rparr>
      in if deletedCount > 0 then dlq_emit (Dlq_cleanup deletedCount retentionDays now) s else s)"

subsection \<open>No event is lost\<close>

lemma dlq_emit_entries [simp]: "dlq_entries (dlq_emit ev s) = dlq_entries s"
  by (simp add: dlq_emit_def)

lemma dlq_save_entries [simp]: "dlq_entries (dlq_save e s) = tbl_save dq_id e (dlq_entries s)"
  by (simp add: dlq_save_def)

lemma tbl_find_filter: "tbl_find key k t = Some r \<Longrightarrow> P r \<Longrightarrow> tbl_find key k (filter P t) = Some r"
  by (induction t) (auto split: if_splits)

datatype dlq_op =
    Route "error option" uuid time string string jobject error dlq_failure
  | SetStatus time uuid dlq_status "jobject option"
  | RetryEntry time uuid
  | DeleteEntry time uuid
  | Cleanup time

primrec run_dlq :: "(time \<Rightarrow> string) \<Rightarrow> dlq_op \<Rightarrow> dlq \<Rightarrow> dlq" where
  "run_dlq isoText (Route r i now ty d p e c) s = snd (routeToDLQ r i now ty d p e c s)"
| "run_dlq isoText (SetStatus now i st m) s = snd (updateDLQEntryStatus now i st m s)"
| "run_dlq isoText (RetryEntry now i) s = snd (retryDLQEntry isoText now i s)"
| "run_dlq isoText (DeleteEntry now i) s = snd (deleteDLQEntry now i s)"
| "run_dlq isoText (Cleanup now) s = cleanupOldDLQEntries now s"

text \<open>The operations by which a person gives up the entry \<open>i\<close>, or that insert another one under its
  identifier.\<close>

primrec settles :: "uuid \<Rightarrow> dlq_op \<Rightarrow> bool" where
  "settles i (Route r j now ty d p e c) \<longleftrightarrow> i = j"
| "settles i (SetStatus now j st m) \<longleftrightarrow> i = j \<and> st \<in> {DLQ_RESOLVED, DLQ_DISCARDED}"
| "settles i (RetryEntry now j) \<longleftrightarrow> False"
| "settles i (DeleteEntry now j) \<longleftrightarrow> i = j"
| "settles i (Cleanup now) \<longleftrightarrow> False"

definition open_entry :: "dlq_entry \<Rightarrow> dlq_entry \<Rightarrow> bool" where
  "open_entry e e' \<longleftrightarrow> dq_id e' = dq_id e \<and> dq_status e' \<in> {DLQ_PENDING, DLQ_INVESTIGATING}
     \<and> dq_eventType e' = dq_eventType e \<and> dq_domain e' = dq_domain e \<and> dq_originalPayload e' = dq_originalPayload e
     \<and> dq_error e' = dq_error e \<and> dq_failureContext e' = dq_failureContext e \<and> dq_createdAt e' = dq_createdAt e"

lemma open_status:
  "open_entry e e' \<Longrightarrow> dq_status e' \<noteq> DLQ_RESOLVED" "open_entry e e' \<Longrightarrow> dq_status e' \<noteq> DLQ_DISCARDED"
  by (auto simp: open_entry_def)

lemma open_entry_stays:
  assumes "tbl_find dq_id i (dlq_entries s) = Some e'" "open_entry e e'" "\<not> settles i x"
  shows "\<exists>e''. tbl_find dq_id i (dlq_entries (run_dlq isoText x s)) = Some e'' \<and> open_entry e e''"
proof (cases x)
  case (Route r j now ty d p err c)
  then show ?thesis using assms by (cases r) (auto simp: routeToDLQ_def Let_def)
next
  case (SetStatus now j st m)
  show ?thesis
  proof (cases "j = i")
    case True
    then have "st \<in> {DLQ_PENDING, DLQ_INVESTIGATING}" using assms(3) SetStatus by (cases st) simp_all
    then show ?thesis
      using assms(1,2) SetStatus True tbl_find_key [OF assms(1)]
      by (cases m) (simp_all add: updateDLQEntryStatus_def Let_def open_entry_def)
  next
    case False
    then show ?thesis
      using assms(1,2) SetStatus
      by (cases "tbl_find dq_id j (dlq_entries s)"; cases m) (auto simp: updateDLQEntryStatus_def Let_def dest: tbl_find_key)
  qed
next
  case (RetryEntry now j)
  show ?thesis
  proof (cases "j = i")
    case True
    then show ?thesis
      using assms(1,2) RetryEntry tbl_find_key [OF assms(1)] open_status [OF assms(2)]
      by (simp add: retryDLQEntry_def Let_def) (simp add: open_entry_def)
  next
    case False
    then show ?thesis
      using assms(1,2) RetryEntry
      by (cases "tbl_find dq_id j (dlq_entries s)") (auto simp: retryDLQEntry_def Let_def dest: tbl_find_key)
  qed
next
  case (DeleteEntry now j)
  then show ?thesis using assms tbl_find_key [OF assms(1)]
    by (auto simp: deleteDLQEntry_def Let_def intro!: exI [of _ e'] tbl_find_filter)
next
  case (Cleanup now)
  then show ?thesis
    using assms open_status [OF assms(2)] by (auto simp: cleanupOldDLQEntries_def Let_def intro!: exI [of _ e'] tbl_find_filter)
qed

text \<open>
  Property C15: an event in the dead letter queue is never lost: until a person resolves, discards or
  deletes its entry, the entry survives every routing, status change, retry and nightly cleanup, with its
  payload, error and failure history unchanged. A retry never closes an entry.
\<close>

theorem failed_event_never_lost:
  assumes "getDLQEntry i s = Some e" "dq_status e = DLQ_PENDING" "\<forall>x \<in> set xs. \<not> settles i x"
  shows "\<exists>e'. getDLQEntry i (fold (run_dlq isoText) xs s) = Some e' \<and> open_entry e e'"
proof -
  have "\<exists>e'. tbl_find dq_id i (dlq_entries (fold (run_dlq isoText) xs s)) = Some e' \<and> open_entry e e'"
    if "tbl_find dq_id i (dlq_entries s) = Some e'" "open_entry e e'" for s e'
    using assms(3) that
  proof (induction xs arbitrary: s e')
    case (Cons x xs)
    have "\<exists>e''. tbl_find dq_id i (dlq_entries (run_dlq isoText x s)) = Some e'' \<and> open_entry e e''"
      by (rule open_entry_stays) (use Cons.prems in simp_all)
    then show ?case using Cons.IH Cons.prems(1) by fastforce
  qed simp
  then show ?thesis using assms(1,2) by (simp add: getDLQEntry_def open_entry_def)
qed

definition sample_failure :: dlq_failure where
  "sample_failure = \<lparr>df_attempts = 6, df_retryHistory = [], df_eventId = Some ''n1'', df_correlationId = None, df_metadata = []\<rparr>"

definition sample_dlq :: dlq where
  "sample_dlq = snd (routeToDLQ None ''q1'' 0 ''notification.email'' ''notification'' [] (Error [Txt ''timeout'']) sample_failure
     \<lparr>dlq_entries = [], dlq_events = []\<rparr>)"

theorem failed_event_never_lost_witness:
  "\<exists>e. getDLQEntry ''q1'' (fold (run_dlq (\<lambda>_. ''2026'')) [RetryEntry 5 ''q1'', Cleanup 9000000000] sample_dlq) = Some e
     \<and> dq_status e \<in> {DLQ_PENDING, DLQ_INVESTIGATING}"
proof -
  have "\<exists>e. getDLQEntry ''q1'' sample_dlq = Some e \<and> dq_status e = DLQ_PENDING"
    by (simp add: sample_dlq_def routeToDLQ_def getDLQEntry_def Let_def)
  then obtain e where "getDLQEntry ''q1'' sample_dlq = Some e" "dq_status e = DLQ_PENDING" by blast
  from failed_event_never_lost [OF this, of "[RetryEntry 5 ''q1'', Cleanup 9000000000]" "\<lambda>_. ''2026''"]
  show ?thesis by (auto simp: open_entry_def)
qed

subsection \<open>What the cleanup deletes\<close>

text \<open>
  The nightly cleanup deletes exactly the entries that are resolved or discarded and were
  created more than 30 days ago, and announces how many they were.
\<close>

lemma cleanup_deletes_exactly:
  "dlq_entries (cleanupOldDLQEntries now s) = filter (\<lambda>e. dq_status e \<in> {DLQ_PENDING, DLQ_INVESTIGATING}
       \<or> now - 30 * 86400000 \<le> dq_createdAt e) (dlq_entries s)
   \<and> dlq_events (cleanupOldDLQEntries now s) = dlq_events s @
       (let n = length (dlq_entries s) - length (dlq_entries (cleanupOldDLQEntries now s))
        in if n = 0 then [] else [Dlq_cleanup n 30 now])"
proof -
  have cutoff: "setDate (getDate now - int retentionDays) now = now - 30 * 86400000"
    using setDate_shift [of now "- 30"] by (simp add: retentionDays_def day_ms_def)
  have keep: "(\<lambda>e. \<not> (dq_status e \<in> {DLQ_RESOLVED, DLQ_DISCARDED} \<and> dq_createdAt e < now - 30 * 86400000)) =
      (\<lambda>e. dq_status e \<in> {DLQ_PENDING, DLQ_INVESTIGATING} \<or> now - 30 * 86400000 \<le> dq_createdAt e)" (is "?l = ?r")
  proof
    show "?l e = ?r e" for e by (cases "dq_status e") (simp_all add: not_less)
  qed
  show ?thesis
    unfolding cleanupOldDLQEntries_def Let_def cutoff keep by (simp add: dlq_emit_def retentionDays_def)
qed

subsection \<open>The statistics\<close>

lemma reduceCount_group_rows:
  "reduceCount (group_rows f rows) = map (\<lambda>k. (k, Some (length (filter (\<lambda>r. f r = k) rows)))) (remdups (map f rows))"
proof -
  have new: "fold (\<lambda>(k, n) acc. map_set k (parse_int n) acc) (map (\<lambda>k. (k, show_nat (c k))) ks) acc =
      acc @ map (\<lambda>k. (k, Some (c k))) ks"
    if "distinct ks" "set ks \<inter> set (map fst acc) = {}" for ks acc and c :: "string \<Rightarrow> nat"
    using that
  proof (induction ks arbitrary: acc)
    case (Cons k ks)
    have "map_set k (Some (c k)) acc = acc @ [(k, Some (c k))]"
      using Cons.prems(2) by (induction acc) auto
    then show ?case using Cons by auto
  qed simp
  show ?thesis unfolding reduceCount_def group_rows_def by (subst new) simp_all
qed

lemma sum_groups: "sum_list (map (\<lambda>k. length (filter (\<lambda>r. f r = k) rows)) (remdups (map f rows))) = length rows"
proof -
  have "sum_list (map (\<lambda>k. length (filter (\<lambda>r. f r = k) rows)) (remdups (map f rows))) =
      (\<Sum>k \<in> set (map f rows). length (filter (\<lambda>r. f r = k) rows))"
    by (simp add: sum_list_distinct_conv_sum_set)
  also have "\<dots> = (\<Sum>k \<in> set (map f rows). count_list (map f rows) k)"
    by (intro sum.cong refl) (simp add: count_list_eq_length_filter filter_map o_def eq_commute)
  also have "\<dots> = length rows" by (simp add: sum_count_set)
  finally show ?thesis .
qed

text \<open>The sum of the counts of a statistic.\<close>

definition counted :: "(string \<times> nat option) list \<Rightarrow> nat option" where
  "counted m = fold (\<lambda>(_, n) acc. case (n, acc) of (Some a, Some b) \<Rightarrow> Some (a + b) | _ \<Rightarrow> None) m (Some 0)"

lemma counted_groups: "counted (reduceCount (group_rows f rows)) = Some (length rows)"
proof -
  have "fold (\<lambda>(_, n) acc. case (n, acc) of (Some a, Some b) \<Rightarrow> Some (a + b) | _ \<Rightarrow> None)
      (map (\<lambda>k. (k, Some (c k))) ks) (Some b) = Some (b + sum_list (map c ks))" for ks and c :: "string \<Rightarrow> nat" and b
    by (induction ks arbitrary: b) (simp_all add: ac_simps)
  then show ?thesis by (simp add: counted_def reduceCount_group_rows sum_groups)
qed

text \<open>
  The statistics are consistent: the counts by status, by domain and by event type each sum to
  the total, no count is NaN, and the entries older than seven days are among those older than a day.
\<close>

lemma dlq_stats_consistent:
  "let st = getDLQStats now s
   in counted (ds_byStatus st) = Some (ds_total st) \<and> counted (ds_byDomain st) = Some (ds_total st)
     \<and> counted (ds_byEventType st) = Some (ds_total st)
     \<and> ds_olderThan7d st \<le> ds_olderThan24h st \<and> ds_olderThan24h st \<le> ds_total st"
proof -
  have "length (filter (\<lambda>e. dq_createdAt e < a) xs) \<le> length (filter (\<lambda>e. dq_createdAt e < b) xs)"
    if "a \<le> b" for a b and xs :: "dlq_entry list"
    using that by (induction xs) auto
  from this [of "now - 7 * 24 * 60 * 60 * 1000" "now - 24 * 60 * 60 * 1000"]
  have "older_than (now - 7 * 24 * 60 * 60 * 1000) s \<le> older_than (now - 24 * 60 * 60 * 1000) s"
    by (simp add: older_than_def)
  then show ?thesis by (simp add: getDLQStats_def Let_def counted_groups older_than_def)
qed

end
