(* ===== verification/Notifications.thy ===== *)
theory Notifications
  imports Retry DeadLetter Cache
begin

text \<open>
  \<open>NotificationsService\<close> (src/src/notifications/notifications.service.ts) with its entities,
  listener, owner guard and cleanup task: preferences, creation per channel, delivery with retries
  and the dead letter queue, reading and marking through the cache. Delivery runs in the background:
  \<open>processNotification\<close> is a step of its own on the copy of the row that creation left.

  Parameters are new identifiers, the clock, the answers of the database to an insert and of the
  mail queue to each job (kept in the state), Redis, the translations and the text of dates.
\<close>

subsection \<open>Entities\<close>

datatype notification_type = TRANSACTION_RECEIVED | TRANSACTION_SENT | PAYMENT_SUCCESS | PAYMENT_FAILED
  | SYSTEM_ALERT | ACCOUNT_UPDATE | SECURITY_ALERT | PROMOTION | REMINDER | PRICE_DROP | ORDER_CREATED
  | ORDER_UPDATED | ORDER_CANCELLED | ORDER_COMPLETED | SHIPMENT_UPDATE | PASSWORD_RESET | WELCOME

primrec notification_type_text :: "notification_type \<Rightarrow> string" where
  "notification_type_text TRANSACTION_RECEIVED = ''transaction_received''"
| "notification_type_text TRANSACTION_SENT = ''transaction_sent''"
| "notification_type_text PAYMENT_SUCCESS = ''payment_success''"
| "notification_type_text PAYMENT_FAILED = ''payment_failed''"
| "notification_type_text SYSTEM_ALERT = ''system_alert''"
| "notification_type_text ACCOUNT_UPDATE = ''account_update''"
| "notification_type_text SECURITY_ALERT = ''security_alert''"
| "notification_type_text PROMOTION = ''promotion''"
| "notification_type_text REMINDER = ''reminder''"
| "notification_type_text PRICE_DROP = ''price_drop''"
| "notification_type_text ORDER_CREATED = ''order_created''"
| "notification_type_text ORDER_UPDATED = ''order_updated''"
| "notification_type_text ORDER_CANCELLED = ''order_cancelled''"
| "notification_type_text ORDER_COMPLETED = ''order_completed''"
| "notification_type_text SHIPMENT_UPDATE = ''shipment_update''"
| "notification_type_text PASSWORD_RESET = ''password_reset''"
| "notification_type_text WELCOME = ''welcome''"

datatype notification_status = NS_PENDING | NS_SENT | NS_FAILED | NS_READ

datatype notification_channel = IN_APP | EMAIL | SMS | PUSH

primrec channel_text :: "notification_channel \<Rightarrow> string" where
  "channel_text IN_APP = ''in_app''" | "channel_text EMAIL = ''email''"
| "channel_text SMS = ''sms''" | "channel_text PUSH = ''push''"

datatype notification_priority = NP_LOW | NP_MEDIUM | NP_HIGH | NP_URGENT

primrec priority_text :: "notification_priority \<Rightarrow> string" where
  "priority_text NP_LOW = ''low''" | "priority_text NP_MEDIUM = ''medium''"
| "priority_text NP_HIGH = ''high''" | "priority_text NP_URGENT = ''urgent''"

record notification_row =
  nf_id :: uuid
  nf_userId :: string
  nf_title :: string
  nf_message :: string
  nf_read :: bool
  nf_isRead :: bool
  nf_status :: notification_status
  nf_type :: notification_type
  nf_channel :: notification_channel
  nf_priority :: notification_priority
  nf_metadata :: "jobject option"
  nf_relatedEntityId :: "string option"
  nf_relatedEntityType :: "string option"
  nf_scheduledAt :: "time option"
  nf_sentAt :: "time option"
  nf_readAt :: "time option"
  nf_expiresAt :: "time option"
  nf_createdAt :: time

record preferences_row =
  pf_id :: uuid
  pf_userId :: string
  pf_preferences :: "(string \<times> notification_channel list) list"
  pf_emailEnabled :: bool
  pf_inAppEnabled :: bool
  pf_pushEnabled :: bool
  pf_allowPromotionalEmail :: bool
  pf_allowOrderSms :: bool
  pf_allowInAppAlerts :: bool

definition default_preferences :: "uuid \<Rightarrow> string \<Rightarrow> preferences_row" where
  "default_preferences newId userId =
     \<lparr>pf_id = newId, pf_userId = userId,
      pf_preferences =
        [(''order_created'', [EMAIL, IN_APP]), (''order_updated'', [IN_APP]), (''order_cancelled'', [EMAIL, IN_APP]),
         (''order_completed'', [EMAIL, IN_APP]), (''payment_received'', [EMAIL, IN_APP]), (''payment_failed'', [EMAIL, IN_APP]),
         (''message_received'', [IN_APP]), (''system_alert'', [EMAIL, IN_APP])],
      pf_emailEnabled = True, pf_inAppEnabled = True, pf_pushEnabled = False, pf_allowPromotionalEmail = True,
      pf_allowOrderSms = True, pf_allowInAppAlerts = True\<rparr>"

record notified_user =
  nu_id :: uuid
  nu_email :: "string option"
  nu_language :: "string option"

subsection \<open>State\<close>

datatype notification_event =
    Notification_created uuid string notification_type string string notification_channel
  | Notification_bulk_created notification_row
  | Notification_read notification_row
  | Notification_push string string string jobject

record email_job =
  ej_to :: jvalue
  ej_subject :: string
  ej_template :: string
  ej_context :: jobject

record socket_message =
  sm_room :: string
  sm_type :: notification_type
  sm_message :: string
  sm_payload :: "jobject option"

datatype cached = Cached_rows "notification_row list" | Cached_count nat

primrec cached_truthy :: "cached \<Rightarrow> bool" where
  "cached_truthy (Cached_rows rows) \<longleftrightarrow> True"
| "cached_truthy (Cached_count n) \<longleftrightarrow> n \<noteq> 0"

text \<open>\<open>nt_queue\<close> holds the answers of the mail queue to the coming jobs; without one it accepts.\<close>

record 'r notify =
  nt_rows :: "notification_row list"
  nt_preferences :: "preferences_row list"
  nt_users :: "notified_user list"
  nt_events :: "notification_event list"
  nt_emails :: "email_job list"
  nt_queue :: "error option list"
  nt_socket :: "socket_message list"
  nt_retries :: "retry_event list"
  nt_dlq :: dlq
  nt_cache :: "(cached, 'r) cache"

definition save_notification :: "notification_row \<Rightarrow> 'r notify \<Rightarrow> 'r notify" where
  "save_notification n s = s\<lparr>nt_rows := tbl_save nf_id n (nt_rows s)\<rparr>"

definition announce :: "notification_event \<Rightarrow> 'r notify \<Rightarrow> 'r notify" where
  "announce ev s = s\<lparr>nt_events := nt_events s @ [ev]\<rparr>"

definition forget :: "(cached, 'r) cache_redis \<Rightarrow> string \<Rightarrow> 'r notify \<Rightarrow> 'r notify" where
  "forget ops pattern s = s\<lparr>nt_cache := invalidatePattern ops pattern (nt_cache s)\<rparr>"

definition pages_of :: "string \<Rightarrow> string" where
  "pages_of userId = ''user:'' @ userId @ '':notifications:*''"

definition unread_key :: "string \<Rightarrow> string" where
  "unread_key userId = ''user:'' @ userId @ '':notifications:unread-count''"

subsection \<open>Preferences\<close>

definition getUserPreferences :: "uuid \<Rightarrow> string \<Rightarrow> 'r notify \<Rightarrow> preferences_row \<times> 'r notify" where
  "getUserPreferences newId userId s =
     (case List.find (\<lambda>p. pf_userId p = userId) (nt_preferences s) of
        Some preferences \<Rightarrow> (preferences, s)
      | None \<Rightarrow>
        let preferences = default_preferences newId userId
        in (preferences, s\<lparr>nt_preferences := tbl_save pf_id preferences (nt_preferences s)\<rparr>))"

record update_preferences_dto =
  up_preferences :: "(string \<times> notification_channel list) list option"
  up_emailEnabled :: "bool option"
  up_inAppEnabled :: "bool option"
  up_pushEnabled :: "bool option"

definition updateUserPreferences ::
  "uuid \<Rightarrow> string \<Rightarrow> update_preferences_dto \<Rightarrow> 'r notify \<Rightarrow> preferences_row \<times> 'r notify" where
  "updateUserPreferences newId userId dto s =
     (let (preferences, s) = getUserPreferences newId userId s;
          preferences = preferences
            \<lparr>pf_preferences := pick (pf_preferences preferences) (up_preferences dto),
             pf_emailEnabled := pick (pf_emailEnabled preferences) (up_emailEnabled dto),
             pf_inAppEnabled := pick (pf_inAppEnabled preferences) (up_inAppEnabled dto),
             pf_pushEnabled := pick (pf_pushEnabled preferences) (up_pushEnabled dto)\<rparr>
      in (preferences, s\<lparr>nt_preferences := tbl_save pf_id preferences (nt_preferences s)\<rparr>))"

subsection \<open>Creation\<close>

datatype requested_channel = No_channel | One_channel notification_channel | Channels "notification_channel list"

record create_notification_dto =
  cn_userId :: string
  cn_title :: string
  cn_message :: string
  cn_type :: "notification_type option"
  cn_channel :: requested_channel
  cn_priority :: "notification_priority option"
  cn_metadata :: "jobject option"
  cn_relatedEntityId :: "string option"
  cn_relatedEntityType :: "string option"
  cn_scheduledAt :: "time option"
  cn_expiresAt :: "time option"
  cn_createdAt :: "time option"

text \<open>The row an insert of the fields leaves, with the defaults of the columns.\<close>

definition notification_of :: "uuid \<Rightarrow> time \<Rightarrow> create_notification_dto \<Rightarrow> notification_channel \<Rightarrow> notification_row" where
  "notification_of newId now dto channel =
     \<lparr>nf_id = newId, nf_userId = cn_userId dto, nf_title = cn_title dto, nf_message = cn_message dto,
      nf_read = False, nf_isRead = False, nf_status = NS_PENDING, nf_type = pick SYSTEM_ALERT (cn_type dto),
      nf_channel = channel, nf_priority = pick NP_MEDIUM (cn_priority dto), nf_metadata = cn_metadata dto,
      nf_relatedEntityId = cn_relatedEntityId dto, nf_relatedEntityType = cn_relatedEntityType dto,
      nf_scheduledAt = cn_scheduledAt dto, nf_sentAt = None, nf_readAt = None, nf_expiresAt = cn_expiresAt dto,
      nf_createdAt = pick now (cn_createdAt dto)\<rparr>"

definition channels_to_create :: "preferences_row \<Rightarrow> create_notification_dto \<Rightarrow> notification_channel list" where
  "channels_to_create preferences dto =
     (let preferred = (case cn_type dto of None \<Rightarrow> [] | Some ty \<Rightarrow>
            pick [] (map_of (pf_preferences preferences) (notification_type_text ty)))
      in case cn_channel dto of
           Channels cs \<Rightarrow> cs
         | One_channel c \<Rightarrow> [c]
         | No_channel \<Rightarrow> if preferred \<noteq> [] then preferred else [IN_APP])"

definition channel_allowed :: "preferences_row \<Rightarrow> notification_type option \<Rightarrow> notification_channel \<Rightarrow> bool" where
  "channel_allowed preferences ty channel \<longleftrightarrow>
     \<not> (channel = EMAIL \<and> \<not> pf_emailEnabled preferences) \<and>
     \<not> (channel = IN_APP \<and> \<not> pf_inAppEnabled preferences) \<and>
     \<not> (channel = PUSH \<and> \<not> pf_pushEnabled preferences) \<and>
     \<not> (channel = EMAIL \<and> ty = Some ORDER_CREATED \<and> \<not> pf_allowPromotionalEmail preferences) \<and>
     \<not> (channel = PUSH \<and> ty = Some ORDER_CREATED \<and> \<not> pf_allowOrderSms preferences) \<and>
     \<not> (channel = IN_APP \<and> ty = Some ORDER_CREATED \<and> \<not> pf_allowInAppAlerts preferences)"

definition created_event :: "notification_row \<Rightarrow> notification_event" where
  "created_event n = Notification_created (nf_id n) (nf_userId n) (nf_type n) (nf_title n) (nf_message n) (nf_channel n)"

text \<open>\<open>newIds\<close> are the identifiers of the preferences and of the rows, \<open>refused\<close> is the answer of the
  database to the insert of the rows. A list of one element stands for the element.\<close>

definition createNotification ::
  "(cached, 'r) cache_redis \<Rightarrow> error option \<Rightarrow> (nat \<Rightarrow> uuid) \<Rightarrow> time \<Rightarrow> create_notification_dto \<Rightarrow> 'r notify \<Rightarrow>
   (notification_row list, 'r notify) result" where
  "createNotification ops refused newIds now dto s =
     (let userId = cn_userId dto;
          (preferences, s) = getUserPreferences (newIds 0) userId s;
          channels = filter (channel_allowed preferences (cn_type dto)) (channels_to_create preferences dto);
          saved = map (\<lambda>(i, c). notification_of (newIds (Suc i)) now dto c) (enumerate 0 channels)
      in if saved = [] then (Inr [], s)
         else case refused of
           Some e \<Rightarrow> (Inl e, s)
         | None \<Rightarrow>
           let s = fold save_notification saved s;
               s = fold (\<lambda>n. announce (created_event n)) saved s;
               s = forget ops (pages_of (nf_userId (hd saved))) s;
               s = forget ops (unread_key (nf_userId (hd saved))) s
           in (Inr saved, s))"

subsection \<open>Delivery\<close>

primrec getTemplateForNotificationType :: "notification_type \<Rightarrow> string" where
  "getTemplateForNotificationType ORDER_CREATED = ''order-confirmation''"
| "getTemplateForNotificationType ORDER_UPDATED = ''shipping-update''"
| "getTemplateForNotificationType WELCOME = ''welcome''"
| "getTemplateForNotificationType SYSTEM_ALERT = ''default''"
| "getTemplateForNotificationType TRANSACTION_RECEIVED = ''default''"
| "getTemplateForNotificationType TRANSACTION_SENT = ''default''"
| "getTemplateForNotificationType PAYMENT_SUCCESS = ''default''"
| "getTemplateForNotificationType PAYMENT_FAILED = ''default''"
| "getTemplateForNotificationType ACCOUNT_UPDATE = ''default''"
| "getTemplateForNotificationType SECURITY_ALERT = ''default''"
| "getTemplateForNotificationType PROMOTION = ''default''"
| "getTemplateForNotificationType REMINDER = ''default''"
| "getTemplateForNotificationType PRICE_DROP = ''default''"
| "getTemplateForNotificationType ORDER_CANCELLED = ''default''"
| "getTemplateForNotificationType ORDER_COMPLETED = ''default''"
| "getTemplateForNotificationType SHIPMENT_UPDATE = ''default''"
| "getTemplateForNotificationType PASSWORD_RESET = ''default''"

definition metadata_of :: "notification_row \<Rightarrow> jobject" where
  "metadata_of n = pick [] (nf_metadata n)"

text \<open>The address is the one of the metadata, otherwise the one of the user; \<open>None\<close> without a truthy one.\<close>

definition email_address :: "notification_row \<Rightarrow> notified_user list \<Rightarrow> jvalue option" where
  "email_address n users =
     (let found = map_of (metadata_of n) ''email''
      in if (case found of None \<Rightarrow> False | Some v \<Rightarrow> js_truthy v) then found
         else case tbl_find nu_id (nf_userId n) users of
           None \<Rightarrow> None
         | Some user \<Rightarrow> if truthy_text (nu_email user) then map_option JText (nu_email user) else None)"

definition queueEmailNotification :: "notification_row \<Rightarrow> 'r notify \<Rightarrow> (unit, 'r notify) result" where
  "queueEmailNotification n s =
     (case email_address n (nt_users s) of
        None \<Rightarrow> (Inr (), s)
      | Some userEmail \<Rightarrow>
        let job = \<lparr>ej_to = userEmail, ej_subject = nf_title n, ej_template = getTemplateForNotificationType (nf_type n),
              ej_context = spread_object (metadata_of n) [(''message'', JText (nf_message n))]\<rparr>
        in case nt_queue s of
             [] \<Rightarrow> (Inr (), s\<lparr>nt_emails := nt_emails s @ [job]\<rparr>)
           | None # later \<Rightarrow> (Inr (), s\<lparr>nt_emails := nt_emails s @ [job], nt_queue := later\<rparr>)
           | Some e # later \<Rightarrow> (Inl e, s\<lparr>nt_queue := later\<rparr>))"

definition sendInAppNotification :: "notification_row \<Rightarrow> 'r notify \<Rightarrow> (unit, 'r notify) result" where
  "sendInAppNotification n s =
     (Inr (), s\<lparr>nt_socket := nt_socket s @
        [\<lparr>sm_room = ''user:'' @ nf_userId n, sm_type = nf_type n, sm_message = nf_message n, sm_payload = nf_metadata n\<rparr>]\<rparr>)"

text \<open>A nullable column that was not set is \<open>null\<close> after the insert.\<close>

definition nullable_text :: "string option \<Rightarrow> jvalue" where
  "nullable_text x = (case x of None \<Rightarrow> JNull | Some t \<Rightarrow> JText t)"

definition sendPushNotification :: "notification_row \<Rightarrow> 'r notify \<Rightarrow> (unit, 'r notify) result" where
  "sendPushNotification n s =
     (Inr (), announce (Notification_push (nf_userId n) (nf_title n) (nf_message n)
        [(''notificationId'', JText (nf_id n)), (''relatedEntityId'', nullable_text (nf_relatedEntityId n))]) s)"

definition sendViaChannel :: "notification_row \<Rightarrow> 'r notify \<Rightarrow> (unit, 'r notify) result" where
  "sendViaChannel n s =
     (case nf_channel n of
        EMAIL \<Rightarrow> queueEmailNotification n s
      | IN_APP \<Rightarrow> sendInAppNotification n s
      | PUSH \<Rightarrow> sendPushNotification n s
      | SMS \<Rightarrow> (Inr (), s))"

text \<open>What one delivery meets: the random numbers of the delays, the time at the end of each attempt
  and of the delivery, the identifier of a dead letter and the answer of the database to its insert.\<close>

record delivery =
  dl_random :: "nat \<Rightarrow> number"
  dl_clock :: "nat \<Rightarrow> time"
  dl_now :: time
  dl_isoText :: "time \<Rightarrow> string"
  dl_newId :: uuid
  dl_refused :: "error option"

definition piece_text :: "piece \<Rightarrow> string" where
  "piece_text p = (case p of Txt t \<Rightarrow> t | Num n \<Rightarrow> to_string n)"

definition msg_text :: "msg \<Rightarrow> string" where
  "msg_text m = concat (map piece_text m)"

definition or_unknown :: "error option \<Rightarrow> msg" where
  "or_unknown e = (case e of
       None \<Rightarrow> [Txt ''Unknown error'']
     | Some x \<Rightarrow> if msg_text (error_message x) = [] then [Txt ''Unknown error''] else error_message x)"

definition dead_letter_payload :: "notification_row \<Rightarrow> jobject" where
  "dead_letter_payload n =
     [(''notificationId'', JText (nf_id n)), (''userId'', JText (nf_userId n)),
      (''type'', JText (notification_type_text (nf_type n))), (''channel'', JText (channel_text (nf_channel n))),
      (''title'', JText (nf_title n)), (''message'', JText (nf_message n))]"

definition dead_letter_failure :: "notification_row \<Rightarrow> retry_attempt list \<Rightarrow> dlq_failure" where
  "dead_letter_failure n attempts =
     \<lparr>df_attempts = length attempts,
      df_retryHistory = map (\<lambda>a. \<lparr>rn_attemptNumber = ra_attemptNumber a, rn_timestamp = ra_timestamp a,
        rn_error = or_unknown (ra_error a)\<rparr>) attempts,
      df_eventId = Some (nf_id n), df_correlationId = None,
      df_metadata = [(''priority'', JText (priority_text (nf_priority n))),
        (''relatedEntityType'', nullable_text (nf_relatedEntityType n)),
        (''relatedEntityId'', nullable_text (nf_relatedEntityId n))]\<rparr>"

definition failed_metadata :: "delivery \<Rightarrow> notification_row \<Rightarrow> error option \<Rightarrow> jobject" where
  "failed_metadata d n e =
     spread_object (metadata_of n)
       (text_field ''lastError'' (map_option (\<lambda>x. msg_text (error_message x)) e)
        @ [(''lastErrorAt'', JText (dl_isoText d (dl_now d)))])"

text \<open>\<open>n\<close> is the copy of the row in memory. Updates of the table are taken to succeed.\<close>

definition processNotification :: "delivery \<Rightarrow> notification_row \<Rightarrow> 'r notify \<Rightarrow> 'r notify" where
  "processNotification d n s =
     (let (r, trace, s) = executeWithRetry (dl_random d) (dl_clock d) (sendViaChannel n)
            (getConfigForNotificationType (channel_text (nf_channel n))) s;
          s = s\<lparr>nt_retries := nt_retries s @ trace\<rparr>
      in if rr_ok r
         then save_notification (n\<lparr>nf_status := NS_SENT, nf_sentAt := Some (dl_now d)\<rparr>) s
         else
           let (routed, q) = routeToDLQ (dl_refused d) (dl_newId d) (dl_now d)
                 (''notification.'' @ channel_text (nf_channel n)) ''notification'' (dead_letter_payload n)
                 (pick (Error [Txt ''Notification processing failed'']) (rr_error r))
                 (dead_letter_failure n (rr_attempts r)) (nt_dlq s);
               s = s\<lparr>nt_dlq := q\<rparr>
           in case routed of
                Inl e \<Rightarrow> save_notification (n\<lparr>nf_status := NS_FAILED\<rparr>) s
              | Inr entry \<Rightarrow> save_notification (n\<lparr>nf_status := NS_FAILED,
                  nf_metadata := Some (failed_metadata d n (rr_error r))\<rparr>) s)"

text \<open>\<open>sendBulkNotifications\<close> up to the background deliveries: preferences are not asked.\<close>

definition bulk_channel :: "create_notification_dto \<Rightarrow> notification_channel" where
  "bulk_channel dto = (case cn_channel dto of One_channel c \<Rightarrow> c | _ \<Rightarrow> IN_APP)"

definition sendBulkNotifications ::
  "(cached, 'r) cache_redis \<Rightarrow> error option \<Rightarrow> (nat \<Rightarrow> uuid) \<Rightarrow> time \<Rightarrow> create_notification_dto list \<Rightarrow> 'r notify \<Rightarrow>
   (notification_row list, 'r notify) result" where
  "sendBulkNotifications ops refused newIds now dtos s =
     (let created = map (\<lambda>(i, dto). notification_of (newIds i) now dto (bulk_channel dto)) (enumerate 0 dtos)
      in case refused of
           Some e \<Rightarrow> (Inl e, s)
         | None \<Rightarrow>
           let s = fold save_notification created s;
               s = fold (\<lambda>n. announce (Notification_bulk_created n)) created s;
               s = fold (\<lambda>u. forget ops (pages_of u)) (remdups (map nf_userId created)) s
           in (Inr created, s))"

text \<open>\<open>translate\<close> is \<open>I18nService.translate\<close>: key, language, amount and currency.\<close>

definition getUserLanguage :: "string \<Rightarrow> 'r notify \<Rightarrow> string" where
  "getUserLanguage userId s =
     (case tbl_find nu_id userId (nt_users s) of None \<Rightarrow> ''en'' | Some user \<Rightarrow> or_text (nu_language user) ''en'')"

definition sendTransactionReceivedNotification ::
  "(cached, 'r) cache_redis \<Rightarrow> (string \<Rightarrow> string \<Rightarrow> string \<Rightarrow> string \<Rightarrow> string) \<Rightarrow> error option \<Rightarrow> (nat \<Rightarrow> uuid) \<Rightarrow> time \<Rightarrow>
   string \<Rightarrow> string \<Rightarrow> number \<Rightarrow> string \<Rightarrow> 'r notify \<Rightarrow> (notification_row list, 'r notify) result" where
  "sendTransactionReceivedNotification ops translate refused newIds now userId transactionId amount currency s =
     (let language = getUserLanguage userId s;
          shown = to_fixed 2 amount;
          dto = \<lparr>cn_userId = userId, cn_title = translate ''emails.transaction_received.title'' language shown currency,
            cn_message = translate ''emails.transaction_received.message'' language shown currency,
            cn_type = Some TRANSACTION_RECEIVED, cn_channel = One_channel IN_APP, cn_priority = Some NP_HIGH,
            cn_metadata = Some [(''amount'', JText shown), (''currency'', JText currency), (''transactionId'', JText transactionId)],
            cn_relatedEntityId = Some transactionId, cn_relatedEntityType = Some ''transaction'', cn_scheduledAt = None,
            cn_expiresAt = None, cn_createdAt = None\<rparr>
      in and_then (createNotification ops refused newIds now dto s) (\<lambda>created s.
           (Inr created, fold (\<lambda>c. announce (Notification_push userId (nf_title c) (nf_message c)
              [(''notificationId'', JText (nf_id c)), (''transactionId'', JText transactionId)])) created s)))"

subsection \<open>Reading\<close>

record notifications_query =
  gq_page :: "nat option"
  gq_limit :: "nat option"
  gq_type :: "notification_type option"
  gq_status :: "notification_status option"
  gq_isRead :: "bool option"
  gq_channel :: "notification_channel option"
  gq_sortBy :: "string option"
  gq_ascending :: bool

record notifications_page =
  gp_items :: "notification_row list"
  gp_total :: nat
  gp_page :: nat
  gp_limit :: nat
  gp_totalPages :: int

text \<open>The conditions are joined without brackets, so that the one on \<open>read\<close>, the last, stands
  beside the conjunction of all others.\<close>

definition query_selects :: "string \<Rightarrow> notifications_query \<Rightarrow> notification_row \<Rightarrow> bool" where
  "query_selects userId q n \<longleftrightarrow>
     (let others = nf_userId n = userId \<and> nf_channel n = pick IN_APP (gq_channel q)
            \<and> (case gq_type q of None \<Rightarrow> True | Some ty \<Rightarrow> nf_type n = ty)
            \<and> (case gq_status q of None \<Rightarrow> True | Some st \<Rightarrow> nf_status n = st)
      in case gq_isRead q of
           None \<Rightarrow> others
         | Some r \<Rightarrow> (others \<and> nf_isRead n = r) \<or> nf_read n = r)"

text \<open>\<open>column\<close> orders the rows by the column of the given name.\<close>

definition getUserNotifications ::
  "(string \<Rightarrow> notification_row \<Rightarrow> int) \<Rightarrow> string \<Rightarrow> notifications_query \<Rightarrow> 'r notify \<Rightarrow> notifications_page" where
  "getUserNotifications column userId q s =
     (let page = pick 1 (gq_page q); limit = pick 20 (gq_limit q); sortBy = pick ''createdAt'' (gq_sortBy q);
          found = filter (query_selects userId q) (nt_rows s);
          ordered = sort_key (\<lambda>n. if gq_ascending q then column sortBy n else - column sortBy n) found
      in \<lparr>gp_items = take limit (drop ((page - 1) * limit) ordered), gp_total = length found, gp_page = page,
          gp_limit = limit, gp_totalPages = \<lceil>of_nat (length found) / of_nat limit :: rat\<rceil>\<rparr>)"

text \<open>The documented options of the two cached reads.\<close>

definition page_cache :: "string \<Rightarrow> cache_config" where
  "page_cache userId = \<lparr>cc_ttl = 300, cc_tags = Some [''notifications'', ''user:'' @ userId]\<rparr>"

definition count_cache :: "string \<Rightarrow> cache_config" where
  "count_cache userId = \<lparr>cc_ttl = 120, cc_tags = Some [''notifications'', ''user:'' @ userId, ''counts'']\<rparr>"

definition findUserNotifications ::
  "nat \<Rightarrow> (cached, 'r) cache_redis \<Rightarrow> time \<Rightarrow> string \<Rightarrow> nat \<Rightarrow> nat \<Rightarrow> 'r notify \<Rightarrow> cached \<times> 'r notify" where
  "findUserNotifications maxItems ops now userId page limit s =
     (let rows = take limit (drop ((page - 1) * limit)
            (sort_key (\<lambda>n. - nf_createdAt n) (filter (\<lambda>n. nf_userId n = userId) (nt_rows s))));
          (value, c) = getOrSet cached_truthy maxItems ops 0
            (''user:'' @ userId @ '':notifications:page:'' @ show_nat page @ '':limit:'' @ show_nat limit)
            (Cached_rows rows) (page_cache userId) now (nt_cache s)
      in (value, s\<lparr>nt_cache := c\<rparr>))"

definition unread_count :: "string \<Rightarrow> 'r notify \<Rightarrow> nat" where
  "unread_count userId s =
     length (filter (\<lambda>n. nf_userId n = userId \<and> \<not> nf_isRead n \<and> nf_channel n = IN_APP) (nt_rows s))"

definition getUnreadCount ::
  "nat \<Rightarrow> (cached, 'r) cache_redis \<Rightarrow> time \<Rightarrow> string \<Rightarrow> 'r notify \<Rightarrow> cached \<times> 'r notify" where
  "getUnreadCount maxItems ops now userId s =
     (let (value, c) = getOrSet cached_truthy maxItems ops 0 (unread_key userId)
            (Cached_count (unread_count userId s)) (count_cache userId) now (nt_cache s)
      in (value, s\<lparr>nt_cache := c\<rparr>))"

definition find_own :: "string \<Rightarrow> uuid \<Rightarrow> 'r notify \<Rightarrow> notification_row option" where
  "find_own userId i s = List.find (\<lambda>n. nf_id n = i \<and> nf_userId n = userId) (nt_rows s)"

definition getNotificationById :: "uuid \<Rightarrow> string \<Rightarrow> 'r notify \<Rightarrow> (notification_row, 'r notify) result" where
  "getNotificationById i userId s =
     (case find_own userId i s of
        None \<Rightarrow> (Inl (NotFoundException [Txt ''Notification not found'']), s)
      | Some n \<Rightarrow> (Inr n, s))"

definition getUserNotificationStats ::
  "string \<Rightarrow> 'r notify \<Rightarrow> nat \<times> nat \<times> nat \<times> (string \<times> nat) list \<times> (string \<times> nat) list" where
  "getUserNotificationStats userId s =
     (let rows = filter (\<lambda>n. nf_userId n = userId) (nt_rows s);
          total = length rows;
          unread = length (filter (\<lambda>n. \<not> nf_isRead n) rows);
          tally = \<lambda>f. fold (\<lambda>n acc. map_set (f n) (pick 0 (map_of acc (f n)) + 1) acc) rows []
      in (total, unread, total - unread, tally (\<lambda>n. notification_type_text (nf_type n)),
          tally (\<lambda>n. priority_text (nf_priority n))))"

subsection \<open>Changes by the user\<close>

definition markAsRead ::
  "(cached, 'r) cache_redis \<Rightarrow> time \<Rightarrow> string \<Rightarrow> uuid \<Rightarrow> 'r notify \<Rightarrow> (notification_row, 'r notify) result" where
  "markAsRead ops now userId i s =
     (case find_own userId i s of
        None \<Rightarrow> (Inl (NotFoundException [Txt ''Notification not found'']), s)
      | Some n \<Rightarrow>
        if \<not> nf_isRead n \<or> \<not> nf_read n
        then
          let n = n\<lparr>nf_isRead := True, nf_read := True, nf_readAt := Some now\<rparr>;
              s = announce (Notification_read n) (save_notification n s)
          in (Inr n, forget ops (unread_key userId) (forget ops (pages_of userId) s))
        else (Inr n, s))"

definition mark_rows :: "(notification_row \<Rightarrow> bool) \<Rightarrow> time \<Rightarrow> 'r notify \<Rightarrow> 'r notify" where
  "mark_rows selected now s =
     s\<lparr>nt_rows := map (\<lambda>n. if selected n then n\<lparr>nf_read := True, nf_isRead := True, nf_readAt := Some now\<rparr> else n) (nt_rows s)\<rparr>"

definition markMultipleAsRead ::
  "(cached, 'r) cache_redis \<Rightarrow> time \<Rightarrow> uuid list \<Rightarrow> string \<Rightarrow> 'r notify \<Rightarrow> nat \<times> 'r notify" where
  "markMultipleAsRead ops now ids userId s =
     (let selected = \<lambda>n. nf_id n \<in> set ids \<and> nf_userId n = userId \<and> \<not> nf_read n
      in (length (filter selected (nt_rows s)),
          forget ops (unread_key userId) (forget ops (pages_of userId) (mark_rows selected now s))))"

definition markAllAsReadInDb :: "(cached, 'r) cache_redis \<Rightarrow> time \<Rightarrow> string \<Rightarrow> 'r notify \<Rightarrow> 'r notify" where
  "markAllAsReadInDb ops now userId s =
     forget ops (unread_key userId) (forget ops (pages_of userId)
       (mark_rows (\<lambda>n. nf_userId n = userId \<and> (\<not> nf_isRead n \<or> \<not> nf_read n)) now s))"

definition markAsReadCached ::
  "(cached, 'r) cache_redis \<Rightarrow> time \<Rightarrow> string \<Rightarrow> uuid \<Rightarrow> 'r notify \<Rightarrow> (msg, 'r notify) result" where
  "markAsReadCached ops now userId i s =
     and_then (markAsRead ops now userId i s) (\<lambda>_ s.
       (Inr [Txt ''Notification marked as read''], forget ops (pages_of userId) s))"

definition markAllAsRead :: "(cached, 'r) cache_redis \<Rightarrow> time \<Rightarrow> string \<Rightarrow> 'r notify \<Rightarrow> msg \<times> 'r notify" where
  "markAllAsRead ops now userId s =
     ([Txt ''All notifications marked as read''], forget ops (pages_of userId) (markAllAsReadInDb ops now userId s))"

record update_notification_dto =
  un_title :: "string option"
  un_message :: "string option"
  un_read :: "bool option"
  un_metadata :: "jobject option"

definition updateNotification ::
  "(cached, 'r) cache_redis \<Rightarrow> uuid \<Rightarrow> string \<Rightarrow> update_notification_dto \<Rightarrow> 'r notify \<Rightarrow> (notification_row, 'r notify) result" where
  "updateNotification ops i userId dto s =
     and_then (getNotificationById i userId s) (\<lambda>n s.
       let n = n\<lparr>nf_title := pick (nf_title n) (un_title dto), nf_message := pick (nf_message n) (un_message dto),
             nf_read := pick (nf_read n) (un_read dto),
             nf_metadata := (case un_metadata dto of None \<Rightarrow> nf_metadata n | Some m \<Rightarrow> Some m)\<rparr>
       in (Inr n, forget ops (pages_of userId) (save_notification n s)))"

definition deleteNotification ::
  "(cached, 'r) cache_redis \<Rightarrow> uuid \<Rightarrow> string \<Rightarrow> 'r notify \<Rightarrow> (unit, 'r notify) result" where
  "deleteNotification ops i userId s =
     (let kept = filter (\<lambda>n. \<not> (nf_id n = i \<and> nf_userId n = userId)) (nt_rows s)
      in if length kept = length (nt_rows s)
         then (Inl (NotFoundException [Txt ''Notification not found'']), s)
         else (Inr (), forget ops (pages_of userId) (s\<lparr>nt_rows := kept\<rparr>)))"

definition deleteMultipleNotifications ::
  "(cached, 'r) cache_redis \<Rightarrow> uuid list \<Rightarrow> string \<Rightarrow> 'r notify \<Rightarrow> 'r notify" where
  "deleteMultipleNotifications ops ids userId s =
     forget ops (pages_of userId) (s\<lparr>nt_rows := filter (\<lambda>n. \<not> (nf_id n \<in> set ids \<and> nf_userId n = userId)) (nt_rows s)\<rparr>)"

definition cleanupExpiredNotifications :: "time \<Rightarrow> 'r notify \<Rightarrow> nat \<times> 'r notify" where
  "cleanupExpiredNotifications now s =
     (let kept = filter (\<lambda>n. case nf_expiresAt n of None \<Rightarrow> True | Some t \<Rightarrow> \<not> t < now) (nt_rows s)
      in (length (nt_rows s) - length kept, s\<lparr>nt_rows := kept\<rparr>))"

text \<open>\<open>NotificationOwnerGuard.canActivate\<close>.\<close>

definition owner_guard :: "uuid \<Rightarrow> string \<Rightarrow> 'r notify \<Rightarrow> error + bool" where
  "owner_guard i userId s =
     (case fst (getNotificationById i userId s) of
        Inr n \<Rightarrow> Inr True
      | Inl e \<Rightarrow> Inl (ForbiddenException [Txt ''You can only access your own notifications'']))"

subsection \<open>Events that become notifications (listeners/notification-event.listener.ts)\<close>

definition plain_dto :: "string \<Rightarrow> notification_type \<Rightarrow> string \<Rightarrow> string \<Rightarrow> jobject \<Rightarrow> create_notification_dto" where
  "plain_dto userId ty title message metadata =
     \<lparr>cn_userId = userId, cn_title = title, cn_message = message, cn_type = Some ty, cn_channel = No_channel,
      cn_priority = None, cn_metadata = Some metadata, cn_relatedEntityId = None, cn_relatedEntityType = None,
      cn_scheduledAt = None, cn_expiresAt = None, cn_createdAt = None\<rparr>"

definition handleOrderCreated :: "uuid \<Rightarrow> string \<Rightarrow> string \<Rightarrow> number \<Rightarrow> jvalue list \<Rightarrow> create_notification_dto" where
  "handleOrderCreated orderId userId orderNumber totalAmount items =
     plain_dto userId ORDER_CREATED ''Order Created''
       (''Your order #'' @ orderNumber @ '' has been created successfully. Total: $'' @ to_string totalAmount)
       [(''orderId'', JText orderId), (''orderNumber'', JText orderNumber), (''totalAmount'', JNumber totalAmount),
        (''items'', JArray items)]"

definition handleOrderUpdated :: "uuid \<Rightarrow> string \<Rightarrow> string \<Rightarrow> string \<Rightarrow> string \<Rightarrow> create_notification_dto" where
  "handleOrderUpdated orderId userId orderNumber status previousStatus =
     plain_dto userId ORDER_UPDATED ''Order Status Updated''
       (''Your order #'' @ orderNumber @ '' status changed from '' @ previousStatus @ '' to '' @ status)
       [(''orderId'', JText orderId), (''orderNumber'', JText orderNumber), (''status'', JText status),
        (''previousStatus'', JText previousStatus)]"

definition handleOrderCancelled :: "uuid \<Rightarrow> string \<Rightarrow> string \<Rightarrow> string \<Rightarrow> create_notification_dto" where
  "handleOrderCancelled orderId userId orderNumber reason =
     plain_dto userId ORDER_CANCELLED ''Order Cancelled''
       (''Your order #'' @ orderNumber @ '' has been cancelled. Reason: '' @ reason)
       [(''orderId'', JText orderId), (''orderNumber'', JText orderNumber), (''reason'', JText reason)]"

definition handleOrderCompleted :: "uuid \<Rightarrow> string \<Rightarrow> string \<Rightarrow> number \<Rightarrow> create_notification_dto" where
  "handleOrderCompleted orderId userId orderNumber totalAmount =
     plain_dto userId ORDER_COMPLETED ''Order Completed''
       (''Your order #'' @ orderNumber @ '' has been completed. Thank you for your purchase!'')
       [(''orderId'', JText orderId), (''orderNumber'', JText orderNumber), (''totalAmount'', JNumber totalAmount)]"

definition handlePaymentReceived ::
  "uuid \<Rightarrow> string \<Rightarrow> uuid \<Rightarrow> number \<Rightarrow> string \<Rightarrow> string \<Rightarrow> create_notification_dto" where
  "handlePaymentReceived paymentId userId orderId amount currency stellarTransactionId =
     plain_dto userId PAYMENT_SUCCESS ''Payment Received''
       (''Your payment of $'' @ to_string amount @ '' '' @ currency @ '' has been confirmed (tx: '' @ stellarTransactionId @ '')'')
       [(''paymentId'', JText paymentId), (''orderId'', JText orderId), (''amount'', JNumber amount),
        (''currency'', JText currency), (''stellarTransactionId'', JText stellarTransactionId)]"

definition handlePaymentFailed :: "uuid \<Rightarrow> string \<Rightarrow> uuid \<Rightarrow> number \<Rightarrow> string \<Rightarrow> create_notification_dto" where
  "handlePaymentFailed paymentId userId orderId amount reason =
     plain_dto userId PAYMENT_FAILED ''Payment Failed''
       (''Your payment of $'' @ to_string amount @ '' failed. Reason: '' @ reason)
       [(''paymentId'', JText paymentId), (''orderId'', JText orderId), (''amount'', JNumber amount), (''reason'', JText reason)]"

definition handleMessageReceived ::
  "uuid \<Rightarrow> string \<Rightarrow> string \<Rightarrow> string \<Rightarrow> string \<Rightarrow> string \<Rightarrow> create_notification_dto" where
  "handleMessageReceived messageId recipientId senderId senderName content conversationId =
     plain_dto recipientId SYSTEM_ALERT ''New Message'' (''You received a new message from '' @ senderName)
       [(''messageId'', JText messageId), (''senderId'', JText senderId), (''senderName'', JText senderName),
        (''conversationId'', JText conversationId), (''preview'', JText (take 50 content))]"

definition handlePasswordResetRequested :: "string \<Rightarrow> string \<Rightarrow> string \<Rightarrow> create_notification_dto" where
  "handlePasswordResetRequested email name resetUrl =
     plain_dto ''system'' PASSWORD_RESET ''Password Reset Request'' ''You have requested to reset your password.''
       [(''email'', JText email), (''name'', JText name), (''resetUrl'', JText resetUrl)]"

subsection \<open>What a delivery does\<close>

lemma forget_nothing [simp]: "forget ops pattern s = s"
  by (simp add: forget_def)

text \<open>The mail queue refuses the next job.\<close>

definition refusing :: "notification_row \<Rightarrow> 'r notify \<Rightarrow> bool" where
  "refusing n s \<longleftrightarrow> nf_channel n = EMAIL \<and> email_address n (nt_users s) \<noteq> None
     \<and> (case nt_queue s of Some e # later \<Rightarrow> True | _ \<Rightarrow> False)"

lemma send_refused_iff: "isl (fst (sendViaChannel n s)) \<longleftrightarrow> refusing n s"
  by (cases "nf_channel n")
    (auto simp: sendViaChannel_def queueEmailNotification_def sendInAppNotification_def sendPushNotification_def
      refusing_def Let_def split: option.splits list.splits)

lemma send_refused: "refusing n s \<Longrightarrow> snd (sendViaChannel n s) = s\<lparr>nt_queue := tl (nt_queue s)\<rparr>"
  by (auto simp: sendViaChannel_def queueEmailNotification_def refusing_def Let_def split: option.splits list.splits)

lemma after_refusals:
  "\<forall>i < k. isl (answer (sendViaChannel n) i s) \<Longrightarrow> after (sendViaChannel n) k s = s\<lparr>nt_queue := drop k (nt_queue s)\<rparr>"
proof (induction k arbitrary: s)
  case (Suc k)
  have "isl (answer (sendViaChannel n) 0 s)" using Suc.prems by blast
  then have refused: "snd (sendViaChannel n s) = s\<lparr>nt_queue := tl (nt_queue s)\<rparr>"
    by (simp add: send_refused_iff send_refused)
  have "\<forall>i < k. isl (answer (sendViaChannel n) i (snd (sendViaChannel n s)))" using Suc.prems by simp
  from Suc.IH [OF this] show ?case by (simp add: refused drop_Suc)
qed simp

text \<open>The queue would refuse the first \<open>k\<close> jobs of an e-mail that has an address.\<close>

definition refuses :: "nat \<Rightarrow> notification_row \<Rightarrow> 'r notify \<Rightarrow> bool" where
  "refuses k n s \<longleftrightarrow> (0 < k \<longrightarrow> nf_channel n = EMAIL \<and> email_address n (nt_users s) \<noteq> None)
     \<and> k \<le> length (nt_queue s) \<and> None \<notin> set (take k (nt_queue s))"

lemma refuses_iff: "(\<forall>i < k. isl (answer (sendViaChannel n) i s)) \<longleftrightarrow> refuses k n s"
proof (induction k)
  case (Suc k)
  have "(\<forall>i < Suc k. isl (answer (sendViaChannel n) i s)) \<longleftrightarrow>
      (\<forall>i < k. isl (answer (sendViaChannel n) i s)) \<and> isl (answer (sendViaChannel n) k s)"
    by (auto simp: less_Suc_eq)
  also have "\<dots> \<longleftrightarrow> refuses k n s \<and> refusing n (s\<lparr>nt_queue := drop k (nt_queue s)\<rparr>)"
    using Suc after_refusals [of k n s] by (auto simp: answer_def send_refused_iff)
  also have "\<dots> \<longleftrightarrow> refuses (Suc k) n s"
    using take_add [of k 1 "nt_queue s"] by (cases "drop k (nt_queue s)")
      (auto simp: refuses_def refusing_def split: option.splits dest: arg_cong [where f = length])
  finally show ?case .
qed (simp add: refuses_def)

text \<open>
  What a successful delivery sends: the one job of the mail queue, the one message of the socket or the one
  event of the push channel, with its address and content; nothing for an SMS and for an e-mail without an
  address.
\<close>

definition mail_sent :: "notification_row \<Rightarrow> 'r notify \<Rightarrow> email_job list" where
  "mail_sent n s = (case (nf_channel n, email_address n (nt_users s)) of
     (EMAIL, Some a) \<Rightarrow> [\<lparr>ej_to = a, ej_subject = nf_title n, ej_template = getTemplateForNotificationType (nf_type n),
       ej_context = spread_object (metadata_of n) [(''message'', JText (nf_message n))]\<rparr>]
   | _ \<Rightarrow> [])"

definition socket_sent :: "notification_row \<Rightarrow> socket_message list" where
  "socket_sent n = (if nf_channel n = IN_APP
     then [\<lparr>sm_room = ''user:'' @ nf_userId n, sm_type = nf_type n, sm_message = nf_message n, sm_payload = nf_metadata n\<rparr>]
     else [])"

definition push_sent :: "notification_row \<Rightarrow> notification_event list" where
  "push_sent n = (if nf_channel n = PUSH
     then [Notification_push (nf_userId n) (nf_title n) (nf_message n)
       [(''notificationId'', JText (nf_id n)), (''relatedEntityId'', nullable_text (nf_relatedEntityId n))]]
     else [])"

definition delivered :: "notification_row \<Rightarrow> 'r notify \<Rightarrow> 'r notify \<Rightarrow> bool" where
  "delivered n s t \<longleftrightarrow> nt_emails t = nt_emails s @ mail_sent n s
     \<and> nt_socket t = nt_socket s @ socket_sent n \<and> nt_events t = nt_events s @ push_sent n"

lemmas sent_defs = mail_sent_def socket_sent_def push_sent_def

lemma send_delivers: "sendViaChannel n s = (Inr u, t) \<Longrightarrow> delivered n s t \<and> nt_dlq t = nt_dlq s \<and> nt_rows t = nt_rows s"
  by (cases "nf_channel n")
    (auto simp: sendViaChannel_def queueEmailNotification_def sendInAppNotification_def sendPushNotification_def
      delivered_def sent_defs announce_def Let_def split: option.splits list.splits)

lemma delivered_queue [simp]: "delivered n (s\<lparr>nt_queue := q\<rparr>) t \<longleftrightarrow> delivered n s t"
  by (simp add: delivered_def mail_sent_def)

lemma delivered_saved [simp]: "delivered n s (save_notification n' t) \<longleftrightarrow> delivered n s t"
  "delivered n s (t\<lparr>nt_retries := x\<rparr>) \<longleftrightarrow> delivered n s t"
  by (simp_all add: delivered_def save_notification_def)

lemma email_retries: "nf_channel n = EMAIL \<Longrightarrow> rc_maxRetries (final_config (getConfigForNotificationType (channel_text (nf_channel n)))) = 5"
  by (simp add: getConfigForNotificationType_def overrides_def final_config_def pick_def)

text \<open>The two ways in which the retries of a delivery end.\<close>

lemma delivery_ends:
  fixes n :: notification_row and s :: "'r notify"
  defines "c \<equiv> getConfigForNotificationType (channel_text (nf_channel n))"
  shows "(\<exists>r trace t. executeWithRetry random clock (sendViaChannel n) c s = (r, trace, t)
       \<and> rr_ok r \<and> delivered n s t \<and> nt_dlq t = nt_dlq s \<and> nt_rows t = nt_rows s \<and> \<not> refuses 6 n s)
   \<or> (\<exists>r trace e. executeWithRetry random clock (sendViaChannel n) c s = (r, trace, s\<lparr>nt_queue := drop 6 (nt_queue s)\<rparr>)
       \<and> \<not> rr_ok r \<and> length (rr_attempts r) = 6 \<and> rr_error r = Some e \<and> refuses 6 n s)"
proof -
  define N where "N = rc_maxRetries (final_config c)"
  note out = retry_outcome [of N c "sendViaChannel n" s random clock, OF N_def]
  show ?thesis
  proof (cases "refuses (Suc N) n s")
    case True
    then have "nf_channel n = EMAIL" by (simp add: refuses_def)
    then have N: "Suc N = 6" using email_retries [of n] by (simp add: N_def c_def)
    have all: "\<forall>i \<le> N. isl (answer (sendViaChannel n) i s)"
      using True refuses_iff [of "Suc N" n s] by (simp add: less_Suc_eq_le)
    from conjunct2 [OF out, rule_format, OF all [rule_format]]
    obtain r trace where run: "executeWithRetry random clock (sendViaChannel n) c s = (r, trace, after (sendViaChannel n) (Suc N) s)"
      and r: "\<not> rr_ok r" "map ra_attemptNumber (rr_attempts r) = [0..<Suc N]"
        "Some (answer (sendViaChannel n) N s) = map_option Inl (rr_error r)" by blast
    have "after (sendViaChannel n) (Suc N) s = s\<lparr>nt_queue := drop 6 (nt_queue s)\<rparr>"
      using after_refusals [OF refuses_iff [THEN iffD2, OF True]] by (simp only: N)
    moreover have "length (rr_attempts r) = 6" using arg_cong [OF r(2), of length] N by simp
    moreover obtain e where "rr_error r = Some e" using r(3) by (cases "rr_error r") auto
    ultimately show ?thesis using run r(1) True N by auto
  next
    case False
    define k where "k = (LEAST k. \<not> isl (answer (sendViaChannel n) k s))"
    obtain i where i: "i \<le> N" "\<not> isl (answer (sendViaChannel n) i s)"
      using False refuses_iff [of "Suc N" n s] by (auto simp: less_Suc_eq_le)
    then have k: "k \<le> N" "\<not> isl (answer (sendViaChannel n) k s)" "\<forall>i < k. isl (answer (sendViaChannel n) i s)"
      using LeastI [of "\<lambda>k. \<not> isl (answer (sendViaChannel n) k s)" i] Least_le [of "\<lambda>k. \<not> isl (answer (sendViaChannel n) k s)" i]
        not_less_Least [of _ "\<lambda>k. \<not> isl (answer (sendViaChannel n) k s)"] unfolding k_def by auto
    then obtain x where x: "answer (sendViaChannel n) k s = Inr x" by (cases "answer (sendViaChannel n) k s") auto
    have "k \<le> N \<and> (\<forall>i < k. isl (answer (sendViaChannel n) i s)) \<and> answer (sendViaChannel n) k s = Inr x"
      using k x by blast
    from conjunct1 [OF out, rule_format, OF this]
    obtain r trace where run: "executeWithRetry random clock (sendViaChannel n) c s = (r, trace, after (sendViaChannel n) (Suc k) s)"
      and r: "rr_ok r" by blast
    have step: "after (sendViaChannel n) (Suc k) s = snd (sendViaChannel n (after (sendViaChannel n) k s))" for k s
      by (induction k arbitrary: s) simp_all
    have "sendViaChannel n (s\<lparr>nt_queue := drop k (nt_queue s)\<rparr>) = (Inr x, after (sendViaChannel n) (Suc k) s)"
      using x after_refusals [OF k(3)] unfolding step by (simp add: answer_def prod_eq_iff)
    from send_delivers [OF this] have "delivered n s (after (sendViaChannel n) (Suc k) s)"
      "nt_dlq (after (sendViaChannel n) (Suc k) s) = nt_dlq s"
      "nt_rows (after (sendViaChannel n) (Suc k) s) = nt_rows s" by simp_all
    moreover have "\<not> refuses 6 n s"
    proof
      assume six: "refuses 6 n s"
      then have "N = 5" using email_retries [of n] by (simp add: N_def c_def refuses_def)
      then show False using False six by simp
    qed
    ultimately show ?thesis using run r by blast
  qed
qed

text \<open>
  Property C13: a delivery always settles its notification and writes no other row. It is marked failed exactly
  when it is an e-mail with an address and the mail queue refused it six times (it is tried again after the
  first five): then no job, socket message or event was sent, and the dead letter queue gets a pending entry
  that names it, or stays as it was when the database refuses that entry. Otherwise it is marked sent, with
  the time, and exactly the one message of its channel went out, to its user and with its content - none
  for an SMS or for an e-mail without an address, which count as sent as well - and the dead letter queue is untouched.
\<close>

theorem notification_settled:
  "let out = processNotification d n s in
    \<exists>n'. nt_rows out = tbl_save nf_id n' (nt_rows s) \<and> nf_id n' = nf_id n
    \<and> (if refuses 6 n s
       then nf_status n' = NS_FAILED
         \<and> nt_emails out = nt_emails s \<and> nt_socket out = nt_socket s \<and> nt_events out = nt_events s
         \<and> (case dl_refused d of
              Some _ \<Rightarrow> nt_dlq out = nt_dlq s
            | None \<Rightarrow> \<exists>e. getDLQEntry (dl_newId d) (nt_dlq out) = Some e \<and> dq_status e = DLQ_PENDING
              \<and> map_of (dq_originalPayload e) ''notificationId'' = Some (JText (nf_id n)) \<and> fc_attempts (dq_failureContext e) = 6)
       else n' = n\<lparr>nf_status := NS_SENT, nf_sentAt := Some (dl_now d)\<rparr> \<and> nt_dlq out = nt_dlq s
         \<and> nt_emails out = nt_emails s @ mail_sent n s
         \<and> nt_socket out = nt_socket s @ socket_sent n \<and> nt_events out = nt_events s @ push_sent n)"
  using delivery_ends [of "dl_random d" "dl_clock d" n s]
proof (elim disjE exE conjE)
  fix r trace t
  assume "executeWithRetry (dl_random d) (dl_clock d) (sendViaChannel n) (getConfigForNotificationType (channel_text (nf_channel n))) s = (r, trace, t)"
    "rr_ok r" "delivered n s t" "nt_dlq t = nt_dlq s" "nt_rows t = nt_rows s" "\<not> refuses 6 n s"
  then show ?thesis by (simp add: processNotification_def Let_def) (simp add: save_notification_def delivered_def)
next
  fix r trace e
  assume "executeWithRetry (dl_random d) (dl_clock d) (sendViaChannel n) (getConfigForNotificationType (channel_text (nf_channel n))) s
      = (r, trace, s\<lparr>nt_queue := drop 6 (nt_queue s)\<rparr>)"
    "\<not> rr_ok r" "length (rr_attempts r) = 6" "rr_error r = Some e" "refuses 6 n s"
  then show ?thesis
    by (cases "dl_refused d") (auto simp: processNotification_def routeToDLQ_def Let_def save_notification_def getDLQEntry_def
        dead_letter_payload_def dead_letter_failure_def)
qed

subsection \<open>Late deliveries\<close>

text \<open>
  A delivery that ends after the user has marked its notification as read, or deleted it, undoes
  that: the copy it saves makes the notification unread, or brings it back.
\<close>

lemma late_delivery_overwrites:
  assumes "find_own (nf_userId n) (nf_id n) s = Some n" "\<not> nf_isRead n" "\<not> nf_read n"
  shows "(\<exists>r t. markAsRead ops now (nf_userId n) (nf_id n) s = (Inr r, t) \<and> nf_isRead r
        \<and> (\<exists>n'. tbl_find nf_id (nf_id n) (nt_rows (processNotification d n t)) = Some n' \<and> \<not> nf_isRead n' \<and> \<not> nf_read n'))
    \<and> (\<exists>t. deleteNotification ops (nf_id n) (nf_userId n) s = (Inr (), t)
        \<and> (\<exists>n'. tbl_find nf_id (nf_id n) (nt_rows (processNotification d n t)) = Some n' \<and> nf_userId n' = nf_userId n))"
proof
  have saved: "\<exists>n'. tbl_find nf_id (nf_id n) (nt_rows (processNotification d n t)) = Some n'
      \<and> nf_isRead n' = nf_isRead n \<and> nf_read n' = nf_read n \<and> nf_userId n' = nf_userId n" for t :: "'a notify"
    by (auto simp: processNotification_def Let_def save_notification_def split: prod.split sum.split)
  obtain r t where m: "markAsRead ops now (nf_userId n) (nf_id n) s = (Inr r, t)" "nf_isRead r"
    using assms by (simp add: markAsRead_def Let_def)
  then show "\<exists>r t. markAsRead ops now (nf_userId n) (nf_id n) s = (Inr r, t) \<and> nf_isRead r
      \<and> (\<exists>n'. tbl_find nf_id (nf_id n) (nt_rows (processNotification d n t)) = Some n' \<and> \<not> nf_isRead n' \<and> \<not> nf_read n')"
    using saved [of t] assms(2,3) by blast
  have "n \<in> set (nt_rows s)" using assms(1) by (auto simp: find_own_def find_Some_iff)
  then have "length (filter (\<lambda>m. \<not> (nf_id m = nf_id n \<and> nf_userId m = nf_userId n)) (nt_rows s)) < length (nt_rows s)"
    by (rule length_filter_less) simp
  then obtain t where "deleteNotification ops (nf_id n) (nf_userId n) s = (Inr (), t)"
    by (simp add: deleteNotification_def Let_def)
  then show "\<exists>t. deleteNotification ops (nf_id n) (nf_userId n) s = (Inr (), t)
      \<and> (\<exists>n'. tbl_find nf_id (nf_id n) (nt_rows (processNotification d n t)) = Some n' \<and> nf_userId n' = nf_userId n)"
    using saved [of t] by blast
qed

subsection \<open>Preferences\<close>

lemma created_rows:
  assumes "createNotification ops refused newIds now dto s = (Inr rows, t)"
  shows "let p = fst (getUserPreferences (newIds 0) (cn_userId dto) s)
    in rows = map (\<lambda>(i, c). notification_of (newIds (Suc i)) now dto c)
         (enumerate 0 (filter (channel_allowed p (cn_type dto)) (channels_to_create p dto)))
     \<and> nt_rows t = nt_rows (fold save_notification rows s)"
proof -
  obtain p s' where p: "getUserPreferences (newIds 0) (cn_userId dto) s = (p, s')" by fastforce
  have rows': "nt_rows s' = nt_rows s" using p by (auto simp: getUserPreferences_def Let_def split: option.splits)
  have saves: "nt_rows (fold save_notification ns a) = nt_rows (fold save_notification ns b)"
    if "nt_rows a = nt_rows b" for ns and a b :: "'a notify"
    using that by (induction ns arbitrary: a b) (simp_all add: save_notification_def)
  have announced: "nt_rows (fold (\<lambda>n. announce (created_event n)) ns a) = nt_rows a" for ns and a :: "'a notify"
    by (induction ns arbitrary: a) (simp_all add: announce_def)
  have "rows = map (\<lambda>(i, c). notification_of (newIds (Suc i)) now dto c)
       (enumerate 0 (filter (channel_allowed p (cn_type dto)) (channels_to_create p dto)))"
    and t: "nt_rows t = nt_rows (fold save_notification rows s')"
    using assms p by (auto simp: createNotification_def Let_def announced split: if_splits option.splits)
  then show ?thesis using p saves [OF rows'] by (simp add: Let_def)
qed

text \<open>
  Notifications are created only on channels the user has not switched off; only on the channels
  the request names, otherwise on those of the preferences for its type, otherwise in the app; every row is
  the user's own, pending and unread; and nothing is created when the list is empty.
\<close>

lemma creation_respects_preferences:
  assumes "createNotification ops refused newIds now dto s = (Inr rows, t)"
    and "fst (getUserPreferences (newIds 0) (cn_userId dto) s) = p"
  shows "(\<forall>n \<in> set rows. nf_userId n = cn_userId dto \<and> nf_status n = NS_PENDING \<and> \<not> nf_isRead n
       \<and> nf_channel n \<in> set (channels_to_create p dto)
       \<and> (nf_channel n = EMAIL \<longrightarrow> pf_emailEnabled p) \<and> (nf_channel n = IN_APP \<longrightarrow> pf_inAppEnabled p)
       \<and> (nf_channel n = PUSH \<longrightarrow> pf_pushEnabled p))
    \<and> nt_rows t = nt_rows (fold save_notification rows s)"
proof -
  define channels where "channels = filter (channel_allowed p (cn_type dto)) (channels_to_create p dto)"
  have rows: "rows = map (\<lambda>(i, c). notification_of (newIds (Suc i)) now dto c) (enumerate 0 channels)"
    and t: "nt_rows t = nt_rows (fold save_notification rows s)"
    using created_rows [OF assms(1)] assms(2) by (simp_all add: channels_def)
  have "nf_userId n = cn_userId dto \<and> nf_status n = NS_PENDING \<and> \<not> nf_isRead n
       \<and> nf_channel n \<in> set (channels_to_create p dto)
       \<and> (nf_channel n = EMAIL \<longrightarrow> pf_emailEnabled p) \<and> (nf_channel n = IN_APP \<longrightarrow> pf_inAppEnabled p)
       \<and> (nf_channel n = PUSH \<longrightarrow> pf_pushEnabled p)" if n: "n \<in> set rows" for n
  proof -
    obtain i c where "(i, c) \<in> set (enumerate 0 channels)" "n = notification_of (newIds (Suc i)) now dto c"
      using n unfolding rows by auto
    moreover then have "c \<in> set channels" by (auto simp: in_set_enumerate_eq)
    ultimately show ?thesis by (simp add: notification_of_def channels_def channel_allowed_def)
  qed
  with t show ?thesis by blast
qed

text \<open>
  With the default preferences a request to reset a password never becomes an e-mail: it is one
  in-app notification of the user "system", and its delivery queues no mail.
\<close>

lemma password_reset_never_mailed:
  assumes "List.find (\<lambda>p. pf_userId p = ''system'') (nt_preferences s) = None"
  shows "\<exists>n t. createNotification ops None newIds now (handlePasswordResetRequested email name resetUrl) s = (Inr [n], t)
    \<and> nf_userId n = ''system'' \<and> nf_channel n = IN_APP \<and> nt_emails t = nt_emails s
    \<and> nt_emails (processNotification d n t) = nt_emails t"
proof -
  let ?dto = "handlePasswordResetRequested email name resetUrl"
  let ?n = "notification_of (newIds (Suc 0)) now ?dto IN_APP"
  have n: "nf_channel ?n = IN_APP" "nf_userId ?n = ''system''"
    by (simp_all add: notification_of_def handlePasswordResetRequested_def plain_dto_def)
  obtain t where t: "createNotification ops None newIds now ?dto s = (Inr [?n], t)" "nt_emails t = nt_emails s"
    using assms
    by (simp add: createNotification_def getUserPreferences_def default_preferences_def handlePasswordResetRequested_def
        plain_dto_def channels_to_create_def channel_allowed_def pick_def announce_def save_notification_def Let_def)
  have "\<not> refuses 6 ?n t" using n(1) by (simp add: refuses_def)
  with delivery_ends [of "dl_random d" "dl_clock d" ?n t] obtain r trace u
    where "executeWithRetry (dl_random d) (dl_clock d) (sendViaChannel ?n) (getConfigForNotificationType (channel_text (nf_channel ?n))) t
        = (r, trace, u)" "rr_ok r" "delivered ?n t u" by blast
  then have "nt_emails (processNotification d ?n t) = nt_emails t"
    using n(1) by (simp add: processNotification_def Let_def save_notification_def delivered_def mail_sent_def)
  with t n show ?thesis by blast
qed

subsection \<open>The unread count\<close>

lemma marked_all_read: "unread_count userId (markAllAsReadInDb ops now userId s) = 0"
  by (auto simp: markAllAsReadInDb_def mark_rows_def unread_count_def filter_empty_conv)

lemma mark_cache [simp]: "nt_cache (snd (markAllAsRead ops now userId s)) = nt_cache s"
  by (simp add: markAllAsRead_def markAllAsReadInDb_def mark_rows_def)

text \<open>
  After the user has marked everything as read, the unread count that was cached before is still
  returned until its two minutes are over, because the invalidation of the pattern deletes nothing.
\<close>

lemma unread_count_stale:
  assumes "key_value ops" and "0 < unread_count u s" and "t' < t + 120000"
    and "fst (cache_get cached_truthy m ops 0 (unread_key u) (Some (count_cache u)) t (nt_cache s)) = None"
    and marked_def: "marked = snd (markAllAsRead ops tm u (snd (getUnreadCount m ops t u s)))"
  shows "unread_count u marked = 0 \<and> fst (getUnreadCount m ops t' u marked) = Cached_count (unread_count u s)"
proof
  show "unread_count u marked = 0"
    unfolding marked_def markAllAsRead_def by (simp add: marked_all_read)
  let ?k = "unread_key u" and ?v = "Cached_count (unread_count u s)"
  obtain c where c: "cache_get cached_truthy m ops 0 ?k (Some (count_cache u)) t (nt_cache s) = (None, c)"
    using assms(4) by (metis prod.collapse)
  then have "nt_cache marked = cache_set m ops ?k ?v (count_cache u) t c"
    by (simp add: marked_def getUnreadCount_def getOrSet_def)
  then have holds: "holds ops ?k ?v (t + 120000) (nt_cache marked)"
    using key_value.cache_set_holds [OF assms(1), of ?k ?v t "count_cache u" m c] by (simp add: count_cache_def)
  have "cached_truthy ?v" using assms(2) by simp
  then have "fst (cache_get cached_truthy m ops 0 ?k (Some (count_cache u)) t' (nt_cache marked)) = Some ?v"
    by (rule cache_get_holds(1) [OF holds]) (rule assms(3))
  then obtain c' where "cache_get cached_truthy m ops 0 ?k (Some (count_cache u)) t' (nt_cache marked) = (Some ?v, c')"
    by (metis prod.collapse)
  then show "fst (getUnreadCount m ops t' u marked) = ?v" by (simp add: getUnreadCount_def getOrSet_def)
qed

subsection \<open>Whose rows a listing shows\<close>

text \<open>
  A listing without the filter on read shows only rows of the user; with the filter a large enough
  page shows every row of any user whose column read has that value.
\<close>

lemma listing_scope:
  "(gq_isRead q = None \<longrightarrow> (\<forall>n \<in> set (gp_items (getUserNotifications column u q s)). nf_userId n = u))
   \<and> (\<forall>r limit n. gq_isRead q = Some r \<and> gq_page q = None \<and> gq_limit q = Some limit \<and> length (nt_rows s) \<le> limit
        \<and> n \<in> set (nt_rows s) \<and> nf_read n = r \<longrightarrow> n \<in> set (gp_items (getUserNotifications column u q s)))"
proof (intro conjI impI allI)
  assume none: "gq_isRead q = None"
  show "\<forall>n \<in> set (gp_items (getUserNotifications column u q s)). nf_userId n = u"
    using none by (auto simp: getUserNotifications_def query_selects_def Let_def dest!: in_set_takeD in_set_dropD)
next
  fix r limit n
  assume a: "gq_isRead q = Some r \<and> gq_page q = None \<and> gq_limit q = Some limit \<and> length (nt_rows s) \<le> limit
        \<and> n \<in> set (nt_rows s) \<and> nf_read n = r"
  then have "length (filter (query_selects u q) (nt_rows s)) \<le> limit" using length_filter_le order_trans by blast
  then show "n \<in> set (gp_items (getUserNotifications column u q s))"
    using a by (simp add: getUserNotifications_def pick_def Let_def) (simp add: query_selects_def Let_def)
qed

subsection \<open>The two read flags\<close>

datatype 'r notify_op =
    Create "error option" "nat \<Rightarrow> uuid" time create_notification_dto
  | Deliver delivery notification_row
  | Bulk "error option" "nat \<Rightarrow> uuid" time "create_notification_dto list"
  | Mark_read time string uuid
  | Mark_many time "uuid list" string
  | Mark_all time string
  | Update uuid string update_notification_dto
  | Delete_one uuid string
  | Delete_many "uuid list" string
  | Expire time

primrec run_notify :: "(cached, 'r) cache_redis \<Rightarrow> 'r notify_op \<Rightarrow> 'r notify \<Rightarrow> 'r notify" where
  "run_notify ops (Create r f now dto) s = snd (createNotification ops r f now dto s)"
| "run_notify ops (Deliver d n) s = processNotification d n s"
| "run_notify ops (Bulk r f now dtos) s = snd (sendBulkNotifications ops r f now dtos s)"
| "run_notify ops (Mark_read now u i) s = snd (markAsRead ops now u i s)"
| "run_notify ops (Mark_many now ids u) s = snd (markMultipleAsRead ops now ids u s)"
| "run_notify ops (Mark_all now u) s = snd (markAllAsRead ops now u s)"
| "run_notify ops (Update i u dto) s = snd (updateNotification ops i u dto s)"
| "run_notify ops (Delete_one i u) s = snd (deleteNotification ops i u s)"
| "run_notify ops (Delete_many ids u) s = deleteMultipleNotifications ops ids u s"
| "run_notify ops (Expire now) s = snd (cleanupExpiredNotifications now s)"

definition flags_agree :: "notification_row \<Rightarrow> bool" where
  "flags_agree n \<longleftrightarrow> nf_read n = nf_isRead n"

text \<open>Only the update of the column \<open>read\<close> on its own, and the delivery of such a row, may part the flags.\<close>

fun parts_flags :: "'r notify_op \<Rightarrow> bool" where
  "parts_flags (Update i u dto) \<longleftrightarrow> un_read dto \<noteq> None"
| "parts_flags (Deliver d n) \<longleftrightarrow> \<not> flags_agree n"
| "parts_flags _ \<longleftrightarrow> False"

definition agreeing :: "'r notify \<Rightarrow> bool" where
  "agreeing s \<longleftrightarrow> (\<forall>n \<in> set (nt_rows s). flags_agree n)"

lemma agreeing_cong: "nt_rows t = nt_rows s \<Longrightarrow> agreeing s \<Longrightarrow> agreeing t"
  by (simp add: agreeing_def)

lemma agreeing_save [intro]: "agreeing s \<Longrightarrow> flags_agree n \<Longrightarrow> agreeing (save_notification n s)"
  by (auto simp: agreeing_def save_notification_def dest: tbl_save_mem)

lemma agreeing_save_all: "agreeing s \<Longrightarrow> \<forall>n \<in> set ns. flags_agree n \<Longrightarrow> agreeing (fold save_notification ns s)"
  by (induction ns arbitrary: s) auto

lemma announce_agreeing [simp]: "agreeing (announce e s) \<longleftrightarrow> agreeing s"
  by (simp add: agreeing_def announce_def)

lemma announce_all_agreeing [simp]: "agreeing (fold (\<lambda>n. announce (f n)) ns s) \<longleftrightarrow> agreeing s"
  by (induction ns arbitrary: s) simp_all

lemma fold_forget [simp]: "fold (\<lambda>u. forget ops (g u)) us s = s"
  by (induction us) simp_all

lemma new_row_agrees [simp]: "flags_agree (notification_of i now dto c)"
  by (simp add: flags_agree_def notification_of_def)

lemma create_agrees: "agreeing s \<Longrightarrow> agreeing (snd (createNotification ops r f now dto s))"
proof -
  assume s: "agreeing s"
  obtain p s' where p: "getUserPreferences (f 0) (cn_userId dto) s = (p, s')" by fastforce
  then have "nt_rows s' = nt_rows s" by (auto simp: getUserPreferences_def Let_def split: option.splits)
  then have s': "agreeing s'" using s by (rule agreeing_cong)
  have "agreeing (fold save_notification (map (\<lambda>(i, c). notification_of (f (Suc i)) now dto c) xs) s')" for xs
    by (rule agreeing_save_all [OF s']) auto
  then show ?thesis using p s' by (simp add: createNotification_def Let_def split: option.split)
qed

lemma bulk_agrees: "agreeing s \<Longrightarrow> agreeing (snd (sendBulkNotifications ops r f now dtos s))"
proof -
  assume s: "agreeing s"
  have "agreeing (fold save_notification (map (\<lambda>(i, dto). notification_of (f i) now dto (bulk_channel dto)) xs) s)" for xs
    by (rule agreeing_save_all [OF s]) auto
  then show ?thesis using s by (simp add: sendBulkNotifications_def Let_def split: option.split)
qed

lemma send_rows: "nt_rows (snd (sendViaChannel n s)) = nt_rows s"
  by (cases "nf_channel n") (auto simp: sendViaChannel_def queueEmailNotification_def sendInAppNotification_def
    sendPushNotification_def announce_def Let_def split: option.split list.split)

lemma deliver_agrees:
  assumes "agreeing s" "flags_agree n"
  shows "agreeing (processNotification d n s)"
proof -
  obtain r trace t where run: "executeWithRetry (dl_random d) (dl_clock d) (sendViaChannel n)
      (getConfigForNotificationType (channel_text (nf_channel n))) s = (r, trace, t)" by (metis prod.exhaust)
  have "agreeing (snd (snd (executeWithRetry (dl_random d) (dl_clock d) (sendViaChannel n)
      (getConfigForNotificationType (channel_text (nf_channel n))) s)))"
    by (rule executeWithRetry_keeps) (simp_all add: assms(1) agreeing_cong [OF send_rows])
  then have t: "agreeing t" by (simp add: run)
  have "agreeing (t\<lparr>nt_retries := x\<rparr>)" "agreeing (t\<lparr>nt_retries := x, nt_dlq := q\<rparr>)" for x q
    by (rule agreeing_cong [OF _ t]; simp)+
  moreover have "flags_agree (n\<lparr>nf_status := st, nf_sentAt := sent\<rparr>)" "flags_agree (n\<lparr>nf_status := st, nf_metadata := md\<rparr>)"
    "flags_agree (n\<lparr>nf_status := st\<rparr>)" for st sent md
    using assms(2) by (simp_all add: flags_agree_def)
  ultimately show ?thesis
    by (auto simp: processNotification_def run Let_def split: prod.split sum.split)
qed

lemma filtered_agrees: "agreeing s \<Longrightarrow> agreeing (s\<lparr>nt_rows := filter P (nt_rows s)\<rparr>)"
  by (auto simp: agreeing_def)

lemma marked_agrees: "agreeing s \<Longrightarrow> agreeing (mark_rows P now s)"
  by (auto simp: agreeing_def mark_rows_def flags_agree_def)

lemma found_agrees: "find_own u i s = Some n \<Longrightarrow> agreeing s \<Longrightarrow> flags_agree n"
  by (auto simp: find_own_def agreeing_def find_Some_iff)

lemma run_agrees: "agreeing s \<Longrightarrow> \<not> parts_flags x \<Longrightarrow> agreeing (run_notify ops x s)"
proof (cases x)
  case (Update i u dto)
  assume a: "agreeing s" "\<not> parts_flags x"
  then show ?thesis
  proof (cases "find_own u i s")
    case (Some n)
    then have "flags_agree n" using a(1) by (rule found_agrees)
    then show ?thesis
      using a Some Update
      by (auto simp: updateNotification_def getNotificationById_def Let_def pick_def flags_agree_def intro!: agreeing_save)
  qed (simp add: Update updateNotification_def getNotificationById_def)
next
  case (Mark_read now u i)
  assume "agreeing s"
  then show ?thesis
    using Mark_read by (auto simp: markAsRead_def Let_def flags_agree_def intro!: agreeing_save split: option.split)
qed (simp_all add: create_agrees deliver_agrees bulk_agrees filtered_agrees marked_agrees markMultipleAsRead_def Let_def
    markAllAsRead_def markAllAsReadInDb_def deleteNotification_def deleteMultipleNotifications_def cleanupExpiredNotifications_def)

text \<open>
  Property C39: the two columns that say whether a notification was read agree after any operations of the
  service, so that counts by either are the same, unless an update sets one of them alone.
\<close>

theorem read_flags_agree:
  assumes "nt_rows s = []" "\<forall>x \<in> set xs. \<not> parts_flags x"
  shows "\<forall>n \<in> set (nt_rows (fold (run_notify ops) xs s)). nf_read n = nf_isRead n"
proof -
  have "agreeing s" using assms(1) by (simp add: agreeing_def)
  then have "agreeing (fold (run_notify ops) xs s)"
    using assms(2) by (induction xs arbitrary: s) (simp_all add: run_agrees)
  then show ?thesis by (simp add: agreeing_def flags_agree_def)
qed

subsection \<open>Witnesses\<close>

definition fresh_notify :: "cached kv_store notify" where
  "fresh_notify = \<lparr>nt_rows = [], nt_preferences = [], nt_users = [\<lparr>nu_id = ''u1'', nu_email = Some ''a@b'', nu_language = None\<rparr>],
     nt_events = [], nt_emails = [], nt_queue = replicate 6 (Some (Error [Txt ''full''])), nt_socket = [], nt_retries = [],
     nt_dlq = \<lparr>dlq_entries = [], dlq_events = []\<rparr>,
     nt_cache = \<lparr>inMemoryCache = [], cache_redis_state = \<lparr>kv_values = [], kv_sets = []\<rparr>,
       metrics = \<lparr>cm_hits = 0, cm_misses = 0, cm_totalRequests = 0, cm_averageResponseTime = 0\<rparr>\<rparr>\<rparr>"

definition sample_delivery :: delivery where
  "sample_delivery = \<lparr>dl_random = (\<lambda>_. 1 / 2), dl_clock = (\<lambda>n. int n), dl_now = 9, dl_isoText = (\<lambda>_. ''2026''), dl_newId = ''q1'',
     dl_refused = None\<rparr>"

definition sample_row :: "notification_channel \<Rightarrow> notification_row" where
  "sample_row c = notification_of ''n1'' 5 (plain_dto ''u1'' ORDER_CREATED ''t'' ''m'' []) c"

lemma sample_row_simps [simp]:
  "nf_channel (sample_row c) = c" "nf_userId (sample_row c) = ''u1''" "nf_id (sample_row c) = ''n1''"
  "\<not> nf_isRead (sample_row c)" "\<not> nf_read (sample_row c)" "nf_metadata (sample_row c) = Some []"
  by (simp_all add: sample_row_def notification_of_def plain_dto_def)

theorem notification_settled_witness:
  "(\<exists>n'. tbl_find nf_id ''n1'' (nt_rows (processNotification sample_delivery (sample_row EMAIL) fresh_notify)) = Some n'
     \<and> nf_status n' = NS_FAILED) \<and> nt_socket (processNotification sample_delivery (sample_row EMAIL) fresh_notify) = []"
proof -
  have "refuses 6 (sample_row EMAIL) fresh_notify"
    by (simp add: refuses_def fresh_notify_def email_address_def metadata_of_def pick_def)
  with notification_settled [of sample_delivery "sample_row EMAIL" fresh_notify] obtain n'
    where "nt_rows (processNotification sample_delivery (sample_row EMAIL) fresh_notify) = tbl_save nf_id n' (nt_rows fresh_notify)"
      "nf_id n' = nf_id (sample_row EMAIL)" "nf_status n' = NS_FAILED"
      "nt_socket (processNotification sample_delivery (sample_row EMAIL) fresh_notify) = nt_socket fresh_notify"
    by (auto simp: Let_def)
  then show ?thesis by (simp add: fresh_notify_def)
qed

theorem late_delivery_overwrites_witness:
  "\<exists>r t. markAsRead list_cache_redis 6 ''u1'' ''n1'' (fresh_notify\<lparr>nt_rows := [sample_row EMAIL]\<rparr>) = (Inr r, t) \<and> nf_isRead r
     \<and> (\<exists>n'. tbl_find nf_id ''n1'' (nt_rows (processNotification sample_delivery (sample_row EMAIL) t)) = Some n' \<and> \<not> nf_isRead n')"
proof -
  have "find_own (nf_userId (sample_row EMAIL)) (nf_id (sample_row EMAIL)) (fresh_notify\<lparr>nt_rows := [sample_row EMAIL]\<rparr>) = Some (sample_row EMAIL)"
    by (simp add: find_own_def)
  from late_delivery_overwrites [OF this, of list_cache_redis 6 sample_delivery] show ?thesis by fastforce
qed

lemma notification_accepted: "\<exists>rows t. createNotification ops None newIds now dto s = (Inr rows, t)"
  by (cases "getUserPreferences (newIds 0) (cn_userId dto) s") (auto simp: createNotification_def Let_def)

theorem creation_respects_preferences_witness:
  "\<exists>rows t. createNotification list_cache_redis None (\<lambda>i. ''n'' @ show_nat i) 5 (plain_dto ''u1'' ORDER_CREATED ''t'' ''m'' []) fresh_notify
       = (Inr rows, t) \<and> (\<forall>n \<in> set rows. nf_userId n = ''u1'')"
proof -
  let ?dto = "plain_dto ''u1'' ORDER_CREATED ''t'' ''m'' []"
  obtain r t where c: "createNotification list_cache_redis None (\<lambda>i. ''n'' @ show_nat i) 5 ?dto fresh_notify = (Inr r, t)"
    using notification_accepted by blast
  from creation_respects_preferences [OF c refl] have "\<forall>n \<in> set r. nf_userId n = ''u1''" by (simp add: plain_dto_def)
  with c show ?thesis by blast
qed

theorem password_reset_never_mailed_witness:
  "\<exists>n t. createNotification list_cache_redis None (\<lambda>i. ''n'') 5 (handlePasswordResetRequested ''a@b'' ''A'' ''https'') fresh_notify = (Inr [n], t)
     \<and> nt_emails (processNotification sample_delivery n t) = []"
proof -
  have "List.find (\<lambda>p. pf_userId p = ''system'') (nt_preferences fresh_notify) = None" by (simp add: fresh_notify_def)
  from password_reset_never_mailed [OF this, of list_cache_redis "\<lambda>i. ''n''" 5 "''a@b''" "''A''" "''https''" sample_delivery]
  show ?thesis by (auto simp: fresh_notify_def)
qed

theorem unread_count_stale_witness:
  "fst (getUnreadCount 10 list_cache_redis 119999 ''u1'' (snd (markAllAsRead list_cache_redis 5 ''u1''
     (snd (getUnreadCount 10 list_cache_redis 0 ''u1'' (fresh_notify\<lparr>nt_rows := [sample_row IN_APP]\<rparr>)))))) = Cached_count 1"
proof -
  let ?s = "fresh_notify\<lparr>nt_rows := [sample_row IN_APP]\<rparr>"
  have count: "unread_count ''u1'' ?s = 1" by (simp add: unread_count_def)
  have "fst (cache_get cached_truthy 10 list_cache_redis 0 (unread_key ''u1'') (Some (count_cache ''u1'')) 0 (nt_cache ?s)) = None"
    by (simp add: cache_get_def getFromMemory_def fresh_notify_def list_cache_redis_def Let_def)
  then show ?thesis
    using unread_count_stale [OF lists.key_value_axioms _ _ _ refl, of "''u1''" ?s 119999 0 10 5] count by simp
qed

theorem listing_scope_witness:
  "sample_row EMAIL \<in> set (gp_items (getUserNotifications (\<lambda>_ n. nf_createdAt n) ''u2''
     \<lparr>gq_page = None, gq_limit = Some 20, gq_type = None, gq_status = None, gq_isRead = Some False, gq_channel = None,
      gq_sortBy = None, gq_ascending = False\<rparr> (fresh_notify\<lparr>nt_rows := [sample_row EMAIL]\<rparr>)))"
  by (rule conjunct2 [OF listing_scope, rule_format, where limit = 20 and r = False]) simp

theorem read_flags_agree_witness:
  "list_all (\<lambda>n. nf_read n = nf_isRead n) (nt_rows (fold (run_notify list_cache_redis)
     [Create None (\<lambda>i. ''n'' @ show_nat i) 5 (plain_dto ''u1'' ORDER_CREATED ''t'' ''m'' []), Mark_all 6 ''u1'', Deliver sample_delivery (sample_row EMAIL)]
     fresh_notify))"
  unfolding list_all_iff by (rule read_flags_agree) (simp_all add: fresh_notify_def flags_agree_def)

end
