(* ===== verification/Categories.thy ===== *)
theory Categories
  imports Fraud "HOL-Library.Multiset"
begin

text \<open>
  \<open>CategoriesService\<close> (src/src/categories/categories.service.ts): the tree of categories as an
  adjacency list - creation under a parent, the guard against cycles, the tree handed to clients and
  the descendants of a category. The next identifier is a parameter.
\<close>

subsection \<open>Rows\<close>

record category =
  ca_id :: nat
  ca_name :: string
  ca_description :: "string option"
  ca_icon :: "string option"
  ca_isActive :: bool
  ca_parentId :: "nat option"

record create_category_dto =
  cc_name :: string
  cc_description :: "string option"
  cc_icon :: "string option"
  cc_isActive :: "bool option"
  cc_parentId :: "nat option"

text \<open>The unique index on parent and name; NULL is equal to no other NULL.\<close>

definition sibling_taken :: "nat option \<Rightarrow> string \<Rightarrow> category list \<Rightarrow> bool" where
  "sibling_taken parentId name rows \<longleftrightarrow>
     parentId \<noteq> None \<and> (\<exists>c \<in> set rows. ca_parentId c = parentId \<and> ca_name c = name)"

definition create_category :: "nat \<Rightarrow> create_category_dto \<Rightarrow> category list \<Rightarrow> (category, category list) result" where
  "create_category newId dto rows =
     (if (case cc_parentId dto of None \<Rightarrow> False | Some p \<Rightarrow> tbl_find ca_id p rows = None)
      then (Inl (BadRequestException [Txt ''Parent category '', Num (of_nat (the (cc_parentId dto))), Txt '' not found'']), rows)
      else
        let entity = \<lparr>ca_id = newId, ca_name = trim_white (cc_name dto), ca_description = cc_description dto,
              ca_icon = cc_icon dto, ca_isActive = (case cc_isActive dto of None \<Rightarrow> True | Some b \<Rightarrow> b),
              ca_parentId = cc_parentId dto\<rparr>
        in if sibling_taken (ca_parentId entity) (ca_name entity) rows
           then (Inl (BadRequestException [Txt ''A category named '', Txt [CHR 0x22], Txt (cc_name dto), Txt [CHR 0x22],
                  Txt '' already exists under the selected parent.'']), rows)
           else (Inr entity, tbl_save ca_id entity rows))"

subsection \<open>The guard against cycles\<close>

text \<open>The walk up from \<open>currentId\<close>; every step visits a row that was not visited.\<close>

function walk_up :: "category list \<Rightarrow> nat \<Rightarrow> nat option \<Rightarrow> nat set \<Rightarrow> error + unit" where
  "walk_up rows categoryId None visited = Inr ()"
| "walk_up rows categoryId (Some currentId) visited =
     (if currentId \<in> visited
      then Inl (BadRequestException [Txt ''Category tree is corrupted (cycle detected).''])
      else if currentId = categoryId
      then Inl (BadRequestException [Txt ''Circular category relationship is not allowed.''])
      else case tbl_find ca_id currentId rows of
             None \<Rightarrow> Inl (BadRequestException [Txt ''Invalid parent reference detected.''])
           | Some node \<Rightarrow> walk_up rows categoryId (ca_parentId node) (insert currentId visited))"
  by pat_completeness auto

termination
proof (relation "measure (\<lambda>(rows, categoryId, currentId, visited). card (ca_id ` set rows - visited))")
  fix rows :: "category list" and categoryId currentId :: nat and visited and node
  assume "currentId \<notin> visited" "tbl_find ca_id currentId rows = Some node"
  then have "currentId \<in> ca_id ` set rows" by (metis image_eqI tbl_find_key tbl_find_mem)
  then have "ca_id ` set rows - insert currentId visited \<subset> ca_id ` set rows - visited"
    using \<open>currentId \<notin> visited\<close> by blast
  then have "card (ca_id ` set rows - insert currentId visited) < card (ca_id ` set rows - visited)"
    by (intro psubset_card_mono) simp_all
  then show "((rows, categoryId, ca_parentId node, insert currentId visited), rows, categoryId, Some currentId, visited)
      \<in> measure (\<lambda>(rows, categoryId, currentId, visited). card (ca_id ` set rows - visited))"
    by simp
qed simp

definition assertNoCycle :: "category list \<Rightarrow> nat \<Rightarrow> nat option \<Rightarrow> error + unit" where
  "assertNoCycle rows categoryId newParentId =
     (if newParentId = Some categoryId
      then Inl (BadRequestException [Txt ''A category cannot be its own parent.''])
      else walk_up rows categoryId newParentId {})"

subsection \<open>Descendants\<close>

definition kids_of :: "(nat \<times> nat list) list \<Rightarrow> nat \<Rightarrow> nat list" where
  "kids_of m i = (case map_of m i of None \<Rightarrow> [] | Some kids \<Rightarrow> kids)"

definition children_by_parent :: "category list \<Rightarrow> (nat \<times> nat list) list" where
  "children_by_parent rows =
     fold (\<lambda>c m. case ca_parentId c of
         None \<Rightarrow> m
       | Some pid \<Rightarrow> map_set pid (kids_of m pid @ [ca_id c]) m) rows []"

text \<open>The top of the stack is the head of the list.\<close>

function collect :: "(nat \<times> nat list) list \<Rightarrow> nat list \<Rightarrow> nat set \<Rightarrow> nat list \<Rightarrow> nat list" where
  "collect m [] seen found = found"
| "collect m (i # stack) seen found =
     (if i \<in> seen then collect m stack seen found
      else collect m (rev (kids_of m i) @ stack) (insert i seen) (found @ [i]))"
  by pat_completeness auto

text \<open>What the search can still meet.\<close>

definition universe :: "(nat \<times> nat list) list \<Rightarrow> nat list \<Rightarrow> nat set" where
  "universe m stack = set stack \<union> \<Union> (set ` snd ` set m)"

lemma kids_universe: "set (kids_of m i) \<subseteq> universe m []"
  by (auto simp: kids_of_def universe_def dest: map_of_SomeD split: option.splits) (metis image_eqI map_of_SomeD snd_conv)

termination collect
proof (relation "measures [\<lambda>(m, stack, seen, found). card (universe m stack - seen), \<lambda>(m, stack, seen, found). length stack]")
  fix m :: "(nat \<times> nat list) list" and i stack and seen :: "nat set" and found :: "nat list"
  have fin: "finite (universe m (i # stack) - seen)" by (simp add: universe_def)
  have "universe m stack - seen \<subseteq> universe m (i # stack) - seen" by (auto simp: universe_def)
  then have "card (universe m stack - seen) \<le> card (universe m (i # stack) - seen)" by (rule card_mono [OF fin])
  then show "((m, stack, seen, found), m, i # stack, seen, found)
      \<in> measures [\<lambda>(m, stack, seen, found). card (universe m stack - seen), \<lambda>(m, stack, seen, found). length stack]"
    by auto
  assume "i \<notin> seen"
  then have "universe m (rev (kids_of m i) @ stack) - insert i seen \<subset> universe m (i # stack) - seen"
    using kids_universe [of m i] by (auto simp: universe_def)
  then have "card (universe m (rev (kids_of m i) @ stack) - insert i seen) < card (universe m (i # stack) - seen)"
    by (rule psubset_card_mono [OF fin])
  then show "((m, rev (kids_of m i) @ stack, insert i seen, found @ [i]), m, i # stack, seen, found)
      \<in> measures [\<lambda>(m, stack, seen, found). card (universe m stack - seen), \<lambda>(m, stack, seen, found). length stack]"
    by simp
qed simp

definition getDescendantCategoryIds :: "category list \<Rightarrow> nat \<Rightarrow> nat list" where
  "getDescendantCategoryIds rows categoryId = collect (children_by_parent rows) [categoryId] {} []"

subsection \<open>The tree\<close>

text \<open>The nodes as the service links them: the roots, and the list of children of every node.\<close>

record category_forest =
  fo_roots :: "nat list"
  fo_children :: "(nat \<times> nat list) list"

definition attach_node :: "nat list \<Rightarrow> category \<Rightarrow> category_forest \<Rightarrow> category_forest" where
  "attach_node ids node f =
     (case ca_parentId node of
        None \<Rightarrow> f\<lparr>fo_roots := fo_roots f @ [ca_id node]\<rparr>
      | Some parentId \<Rightarrow>
        if parentId \<notin> set ids then f\<lparr>fo_roots := fo_roots f @ [ca_id node]\<rparr>
        else f\<lparr>fo_children := map_set parentId (kids_of (fo_children f) parentId @ [ca_id node]) (fo_children f)\<rparr>)"

text \<open>\<open>byId\<close> keeps one node per identifier, the last row with it at the place of the first.\<close>

definition nodes_by_id :: "category list \<Rightarrow> (nat \<times> category) list" where
  "nodes_by_id categories = fold (\<lambda>c m. map_set (ca_id c) c m) categories []"

definition buildTree :: "category list \<Rightarrow> category_forest" where
  "buildTree categories =
     (let nodes = nodes_by_id categories; ids = map fst nodes
      in fold (attach_node ids) (map snd nodes) \<lparr>fo_roots = [], fo_children = map (\<lambda>i. (i, [])) ids\<rparr>)"

text \<open>\<open>collate\<close> is the order the database gives the names.\<close>

definition getTree :: "(string \<Rightarrow> int) \<Rightarrow> category list \<Rightarrow> category_forest" where
  "getTree collate rows = buildTree (sort_key (\<lambda>c. collate (ca_name c)) rows)"

subsection \<open>The relation of children and parents\<close>

definition parent_edges :: "category list \<Rightarrow> (nat \<times> nat) set" where
  "parent_edges rows = {(k, p). \<exists>r. tbl_find ca_id k rows = Some r \<and> ca_parentId r = Some p}"

lemma parent_edges_of: "tbl_find ca_id k rows = Some r \<Longrightarrow> (k, p) \<in> parent_edges rows \<longleftrightarrow> ca_parentId r = Some p"
  by (simp add: parent_edges_def)

lemma parent_edges_found: "(k, p) \<in> parent_edges rows \<Longrightarrow> k \<in> ca_id ` set rows"
  by (auto simp: parent_edges_def image_iff dest: tbl_find_mem tbl_find_key)

lemma finite_parent_edges: "finite (parent_edges rows)"
proof (rule finite_subset)
  show "parent_edges rows \<subseteq> (\<lambda>r. (ca_id r, the (ca_parentId r))) ` set rows"
  proof
    fix e
    assume "e \<in> parent_edges rows"
    then obtain r where r: "tbl_find ca_id (fst e) rows = Some r" "ca_parentId r = Some (snd e)" by (auto simp: parent_edges_def)
    then have "r \<in> set rows" "e = (ca_id r, the (ca_parentId r))"
      using tbl_find_mem [OF r(1)] tbl_find_key [OF r(1)] by (cases e; simp)+
    then show "e \<in> (\<lambda>r. (ca_id r, the (ca_parentId r))) ` set rows" by blast
  qed
qed simp

text \<open>What the service relies on: identifiers are keys, parents exist, no category is its own
  ancestor.\<close>

definition tree_ok :: "category list \<Rightarrow> bool" where
  "tree_ok rows \<longleftrightarrow> distinct (map ca_id rows)
     \<and> (\<forall>c \<in> set rows. \<forall>p. ca_parentId c = Some p \<longrightarrow> p \<in> ca_id ` set rows) \<and> acyclic (parent_edges rows)"

lemma parent_edge_row:
  assumes "distinct (map ca_id rows)" "c \<in> set rows"
  shows "(ca_id c, p) \<in> parent_edges rows \<longleftrightarrow> ca_parentId c = Some p"
  using tbl_find_distinct [OF assms] by (simp add: parent_edges_def)

subsection \<open>Creation\<close>

lemma tbl_find_ca: "k \<in> ca_id ` set rows \<longleftrightarrow> tbl_find ca_id k rows \<noteq> None"
  by (simp add: tbl_find_none_iff)

lemma fresh_leaf_acyclic:
  assumes "acyclic E" "\<forall>(k, p) \<in> E. p \<noteq> n" "p \<noteq> n"
  shows "acyclic (insert (n, p) E)"
proof -
  have "x \<noteq> n" if "(p, x) \<in> E\<^sup>*" for x
    using that assms(2,3) by (induction rule: rtrancl_induct) auto
  then show ?thesis using assms(1) by (auto simp: acyclic_insert)
qed

text \<open>Children of one parent have names of their own.\<close>

definition siblings_differ :: "category list \<Rightarrow> bool" where
  "siblings_differ rows \<longleftrightarrow> (\<forall>c \<in> set rows. \<forall>d \<in> set rows.
     ca_parentId c \<noteq> None \<and> ca_parentId c = ca_parentId d \<and> ca_name c = ca_name d \<longrightarrow> ca_id c = ca_id d)"

lemma siblings_differ_append:
  assumes "siblings_differ rows" "\<not> sibling_taken (ca_parentId e) (ca_name e) rows"
  shows "siblings_differ (rows @ [e])"
  unfolding siblings_differ_def
proof (intro ballI impI)
  fix c d
  assume cd: "c \<in> set (rows @ [e])" "d \<in> set (rows @ [e])"
    "ca_parentId c \<noteq> None \<and> ca_parentId c = ca_parentId d \<and> ca_name c = ca_name d"
  have "x \<notin> set rows" if "ca_parentId e \<noteq> None" "ca_parentId x = ca_parentId e" "ca_name x = ca_name e" for x
    using assms(2) that unfolding sibling_taken_def by blast
  then show "ca_id c = ca_id d" using cd assms(1) unfolding siblings_differ_def by (metis Un_iff empty_iff insert_iff list.set(1,2) set_append)
qed

text \<open>
  Creating categories keeps the tree a tree: identifiers stay unique, every parent exists, no
  category becomes its own ancestor, and no two children of one parent share a name.
\<close>

lemma creation_keeps_tree:
  assumes "tree_ok rows" "newId \<notin> ca_id ` set rows"
    and "siblings_differ rows" and "create_category newId dto rows = (r, rows')"
  shows "tree_ok rows' \<and> siblings_differ rows'"
proof (cases "rows' = rows")
  case False
  then obtain e where e: "rows' = tbl_save ca_id e rows" "ca_id e = newId" "ca_parentId e = cc_parentId dto"
    "\<not> sibling_taken (ca_parentId e) (ca_name e) rows" "\<forall>p. cc_parentId dto = Some p \<longrightarrow> p \<in> ca_id ` set rows"
    using assms(4) by (auto simp: create_category_def Let_def tbl_find_none_iff split: if_splits option.splits)
  have rows': "rows' = rows @ [e]" using e(1,2) assms(2) by (simp add: tbl_save_new tbl_find_none_iff)
  have edges: "parent_edges rows' = (case ca_parentId e of None \<Rightarrow> parent_edges rows | Some p \<Rightarrow> insert (newId, p) (parent_edges rows))"
  proof -
    have new: "tbl_find ca_id newId rows = None" using assms(2) by (simp add: tbl_find_none_iff)
    have "(k, p) \<in> parent_edges rows' \<longleftrightarrow> (k, p) \<in> parent_edges rows \<or> k = newId \<and> ca_parentId e = Some p" for k p
      using new e(2) by (cases "k = newId") (simp_all add: parent_edges_def e(1))
    then show ?thesis by (cases "ca_parentId e") auto
  qed
  have old: "\<forall>(k, p) \<in> parent_edges rows. p \<noteq> newId"
    using assms(1,2) by (auto simp: parent_edges_def tree_ok_def dest!: tbl_find_mem)
  have "acyclic (parent_edges rows')"
  proof (cases "ca_parentId e")
    case (Some p)
    then have "p \<noteq> newId" using e(3,5) assms(2) by auto
    then show ?thesis using fresh_leaf_acyclic [OF _ old] assms(1) Some by (simp add: edges tree_ok_def)
  qed (use assms(1) in \<open>simp add: edges tree_ok_def\<close>)
  then have "tree_ok rows'"
    using assms(1,2) e(2,3,5) unfolding tree_ok_def rows' by (simp add: ball_Un)
  moreover have "siblings_differ rows'" unfolding rows' by (rule siblings_differ_append [OF assms(3) e(4)])
  ultimately show ?thesis by simp
qed (use assms in simp)

subsection \<open>The guard\<close>

lemma walk_up_sound: "walk_up rows c (Some i) visited = Inr () \<Longrightarrow> (i, c) \<notin> (parent_edges rows)\<^sup>*"
proof (induction rows c "Some i" visited arbitrary: i rule: walk_up.induct)
  case (2 rows c i visited)
  then obtain node where node: "i \<noteq> c" "i \<notin> visited" "tbl_find ca_id i rows = Some node"
    "walk_up rows c (ca_parentId node) (insert i visited) = Inr ()"
    by (auto split: if_splits option.splits)
  show ?case
  proof
    assume "(i, c) \<in> (parent_edges rows)\<^sup>*"
    then obtain p where p: "(i, p) \<in> parent_edges rows" "(p, c) \<in> (parent_edges rows)\<^sup>*"
      using node(1) by (auto elim: converse_rtranclE)
    then have "ca_parentId node = Some p" using node(3) by (simp add: parent_edges_of)
    then show False using "2.hyps" [OF node(2,1,3), of p] node(4) p(2) by simp
  qed
qed

lemma walk_up_complete:
  assumes "tree_ok rows" "(i, c) \<notin> (parent_edges rows)\<^sup>*" "i \<in> ca_id ` set rows" "\<forall>v \<in> visited. (v, i) \<in> (parent_edges rows)\<^sup>+"
  shows "walk_up rows c (Some i) visited = Inr ()"
  using assms
proof (induction rows c "Some i" visited arbitrary: i rule: walk_up.induct)
  case (2 rows c i visited)
  have "i \<notin> visited" using 2(2,5) by (auto simp: tree_ok_def acyclic_def)
  moreover have "i \<noteq> c" using 2(3) by auto
  moreover obtain node where node: "tbl_find ca_id i rows = Some node" using 2(4) by (auto simp: tbl_find_ca)
  moreover have "walk_up rows c (ca_parentId node) (insert i visited) = Inr ()"
  proof (cases "ca_parentId node")
    case (Some p)
    then have edge: "(i, p) \<in> parent_edges rows" using node by (simp add: parent_edges_of)
    have "walk_up rows c (Some p) (insert i visited) = Inr ()"
    proof (rule "2.hyps" [OF \<open>i \<notin> visited\<close> \<open>i \<noteq> c\<close> node Some 2(2)])
      show "(p, c) \<notin> (parent_edges rows)\<^sup>*" using edge 2(3) by (meson converse_rtrancl_into_rtrancl)
      show "p \<in> ca_id ` set rows" using Some node 2(2) by (auto simp: tree_ok_def dest!: tbl_find_mem)
      show "\<forall>v \<in> insert i visited. (v, p) \<in> (parent_edges rows)\<^sup>+" using edge 2(5) by (auto intro: trancl_into_trancl)
    qed
    then show ?thesis by (simp add: Some)
  qed simp
  ultimately show ?case by simp
qed

text \<open>
  Property C23: the guard of a move is exact: in a tree, it accepts a new parent precisely when the tree with
  the category moved there still has no cycle; and it always returns, even on corrupted data.
\<close>

theorem move_guard_exact:
  assumes "tree_ok rows" "tbl_find ca_id c rows = Some r" "p \<in> ca_id ` set rows"
  shows "assertNoCycle rows c (Some p) = Inr () \<longleftrightarrow> acyclic (parent_edges (tbl_save ca_id (r\<lparr>ca_parentId := Some p\<rparr>) rows))"
proof -
  let ?E = "parent_edges rows" and ?r = "r\<lparr>ca_parentId := Some p\<rparr>"
  have key: "ca_id ?r = c" using tbl_find_key [OF assms(2)] by simp
  have edges: "parent_edges (tbl_save ca_id ?r rows) = insert (c, p) {e \<in> ?E. fst e \<noteq> c}"
  proof -
    have "(k, q) \<in> parent_edges (tbl_save ca_id ?r rows) \<longleftrightarrow> (k, q) \<in> insert (c, p) {e \<in> ?E. fst e \<noteq> c}" for k q
      using key by (cases "k = c") (auto simp: parent_edges_def)
    then show ?thesis by auto
  qed
  have guard: "assertNoCycle rows c (Some p) = Inr () \<longleftrightarrow> (p, c) \<notin> ?E\<^sup>*"
  proof (cases "p = c")
    case False
    then have "assertNoCycle rows c (Some p) = walk_up rows c (Some p) {}" by (simp add: assertNoCycle_def)
    then show ?thesis using walk_up_sound [of rows c p "{}"] walk_up_complete [OF assms(1) _ assms(3)] by fastforce
  qed (simp add: assertNoCycle_def)
  have "(p, c) \<in> ?E\<^sup>* \<longleftrightarrow> (p, c) \<in> {e \<in> ?E. fst e \<noteq> c}\<^sup>*"
  proof
    assume "(p, c) \<in> ?E\<^sup>*"
    then show "(p, c) \<in> {e \<in> ?E. fst e \<noteq> c}\<^sup>*"
    proof (induction rule: converse_rtrancl_induct)
      case (step x y)
      then show ?case by (cases "x = c") (auto intro: converse_rtrancl_into_rtrancl)
    qed simp
  next
    assume "(p, c) \<in> {e \<in> ?E. fst e \<noteq> c}\<^sup>*"
    then show "(p, c) \<in> ?E\<^sup>*" by (rule rtrancl_mono [THEN subsetD, rotated]) auto
  qed
  moreover have "acyclic {e \<in> ?E. fst e \<noteq> c}"
    using assms(1) by (auto simp: tree_ok_def intro: acyclic_subset)
  ultimately show ?thesis by (simp add: guard edges acyclic_insert)
qed

subsection \<open>All descendants\<close>

lemma kids_of_map_set [simp]: "kids_of (map_set p ks m) i = (if i = p then ks else kids_of m i)"
  by (simp add: kids_of_def)

lemma children_by_parent_kids: "kids_of (children_by_parent rows) p = map ca_id (filter (\<lambda>c. ca_parentId c = Some p) rows)"
proof -
  have "kids_of (fold (\<lambda>c m. case ca_parentId c of
         None \<Rightarrow> m
       | Some pid \<Rightarrow> map_set pid (kids_of m pid @ [ca_id c]) m) rows m) p
      = kids_of m p @ map ca_id (filter (\<lambda>c. ca_parentId c = Some p) rows)" for m
  proof (induction rows arbitrary: m)
    case (Cons c rows)
    show ?case by (cases "ca_parentId c") (simp_all add: Cons.IH)
  qed simp
  then show ?thesis by (simp add: children_by_parent_def kids_of_def)
qed

lemma collect_reaches:
  assumes "set found = seen" "distinct found" "\<forall>i \<in> seen. set (kids_of m i) \<subseteq> seen \<union> set stack"
  shows "set (collect m stack seen found) = {(i, k). k \<in> set (kids_of m i)}\<^sup>* `` (seen \<union> set stack)
    \<and> distinct (collect m stack seen found)"
  using assms
proof (induction m stack seen found rule: collect.induct)
  case (1 m seen found)
  then have "{(i, k). k \<in> set (kids_of m i)} `` seen \<subseteq> seen" by auto
  then show ?case using 1 by (simp add: Image_closed_trancl)
next
  case (2 m i stack seen found)
  let ?R = "{(i, k). k \<in> set (kids_of m i)}"
  show ?case
  proof (cases "i \<in> seen")
    case True
    moreover have "set (collect m stack seen found) = ?R\<^sup>* `` (seen \<union> set stack) \<and> distinct (collect m stack seen found)"
      by (rule "2.IH"(1)) (use True "2.prems" in auto)
    ultimately show ?thesis by (simp add: insert_absorb)
  next
    case False
    have "set (collect m (rev (kids_of m i) @ stack) (insert i seen) (found @ [i]))
        = ?R\<^sup>* `` (insert i seen \<union> set (rev (kids_of m i) @ stack))
      \<and> distinct (collect m (rev (kids_of m i) @ stack) (insert i seen) (found @ [i]))"
      by (rule "2.IH"(2)) (use False "2.prems" in auto)
    moreover have "?R\<^sup>* `` (insert i seen \<union> set (rev (kids_of m i) @ stack)) = ?R\<^sup>* `` (seen \<union> set (i # stack))"
    proof -
      have "set (kids_of m i) \<subseteq> ?R\<^sup>* `` {i}" by auto
      then have "?R\<^sup>* `` set (kids_of m i) \<subseteq> ?R\<^sup>* `` {i}" by (auto intro: rtrancl_trans)
      then show ?thesis by auto
    qed
    ultimately show ?thesis using False by simp
  qed
qed

text \<open>
  The search for the descendants of a category returns, each once, exactly the category and
  everything below it, and ends on any data, cyclic data included.
\<close>

lemma descendants_exact:
  "set (getDescendantCategoryIds rows c) = {d. (c, d) \<in> {(p, k). \<exists>r \<in> set rows. ca_id r = k \<and> ca_parentId r = Some p}\<^sup>*}
   \<and> distinct (getDescendantCategoryIds rows c)"
proof -
  have "{(i, k). k \<in> set (kids_of (children_by_parent rows) i)} = {(p, k). \<exists>r \<in> set rows. ca_id r = k \<and> ca_parentId r = Some p}"
    by (auto simp: children_by_parent_kids)
  then show ?thesis
    using collect_reaches [of "[]" "{}" "children_by_parent rows" "[c]"] by (auto simp: getDescendantCategoryIds_def)
qed

subsection \<open>The tree handed out\<close>

definition child_links :: "category_forest \<Rightarrow> (nat \<times> nat) set" where
  "child_links f = {(p, k). k \<in> set (kids_of (fo_children f) p)}"

lemma nodes_by_id_distinct: "distinct (map ca_id rows) \<Longrightarrow> nodes_by_id rows = map (\<lambda>c. (ca_id c, c)) rows"
proof -
  have "fold (\<lambda>c m. map_set (ca_id c) c m) rows m = m @ map (\<lambda>c. (ca_id c, c)) rows"
    if "distinct (map fst m @ map ca_id rows)" for m :: "(nat \<times> category) list"
    using that
  proof (induction rows arbitrary: m)
    case (Cons c rows)
    have "ca_id c \<notin> fst ` set m" using Cons.prems by auto
    then have "map_set (ca_id c) c m = m @ [(ca_id c, c)]" by (induction m) auto
    moreover have "distinct (map fst (m @ [(ca_id c, c)]) @ map ca_id rows)" using Cons.prems by auto
    ultimately show ?case using Cons.IH [of "m @ [(ca_id c, c)]"] by simp
  qed simp
  then show "distinct (map ca_id rows) \<Longrightarrow> nodes_by_id rows = map (\<lambda>c. (ca_id c, c)) rows" by (simp add: nodes_by_id_def)
qed

lemma attach_node_effect:
  "fo_roots (attach_node ids c f) = fo_roots f @
     (if (case ca_parentId c of None \<Rightarrow> True | Some p \<Rightarrow> p \<notin> set ids) then [ca_id c] else [])"
  "kids_of (fo_children (attach_node ids c f)) p = kids_of (fo_children f) p @
     (if ca_parentId c = Some p \<and> p \<in> set ids then [ca_id c] else [])"
  by (cases "ca_parentId c"; simp add: attach_node_def)+

lemma attach_all:
  "fo_roots (fold (attach_node ids) rows f) = fo_roots f @
     map ca_id (filter (\<lambda>c. case ca_parentId c of None \<Rightarrow> True | Some p \<Rightarrow> p \<notin> set ids) rows)
   \<and> kids_of (fo_children (fold (attach_node ids) rows f)) p = kids_of (fo_children f) p @
     map ca_id (filter (\<lambda>c. ca_parentId c = Some p \<and> p \<in> set ids) rows)"
proof (induction rows arbitrary: f)
  case (Cons c rows)
  then show ?case by (simp add: attach_node_effect)
qed simp

lemma build_tree:
  assumes "distinct (map ca_id rows)"
  shows "fo_roots (buildTree rows) = map ca_id (filter (\<lambda>c. case ca_parentId c of None \<Rightarrow> True | Some p \<Rightarrow> p \<notin> ca_id ` set rows) rows)"
    "kids_of (fo_children (buildTree rows)) p = map ca_id (filter (\<lambda>c. ca_parentId c = Some p \<and> p \<in> ca_id ` set rows) rows)"
proof -
  have empty: "kids_of (map (\<lambda>c. (ca_id c, [])) rows) p = []"
    by (induction rows) (simp_all add: kids_of_def)
  show "fo_roots (buildTree rows) = map ca_id (filter (\<lambda>c. case ca_parentId c of None \<Rightarrow> True | Some p \<Rightarrow> p \<notin> ca_id ` set rows) rows)"
    "kids_of (fo_children (buildTree rows)) p = map ca_id (filter (\<lambda>c. ca_parentId c = Some p \<and> p \<in> ca_id ` set rows) rows)"
    using attach_all [of "map ca_id rows" rows] empty assms
    by (simp_all add: buildTree_def nodes_by_id_distinct o_def cong: option.case_cong)
qed

text \<open>
  The tree handed to clients shows every category: its roots are the categories without a parent,
  each other category hangs below its own parent and nowhere else, and everything is reached from a root.
\<close>

lemma tree_shows_everything:
  assumes "tree_ok rows"
  shows "set (fo_roots (getTree collate rows)) = {ca_id c |c. c \<in> set rows \<and> ca_parentId c = None}
    \<and> child_links (getTree collate rows) = {(p, ca_id c) |p c. c \<in> set rows \<and> ca_parentId c = Some p}
    \<and> (\<forall>c \<in> set rows. \<exists>r \<in> set (fo_roots (getTree collate rows)). (r, ca_id c) \<in> (child_links (getTree collate rows))\<^sup>*)"
proof -
  let ?f = "getTree collate rows"
  have d: "distinct (map ca_id (sort_key (\<lambda>c. collate (ca_name c)) rows))"
    using assms unfolding tree_ok_def by (metis mset_eq_imp_distinct_iff mset_map mset_sort)
  have parents: "c \<in> set rows \<Longrightarrow> ca_parentId c = Some p \<Longrightarrow> p \<in> ca_id ` set rows" for c p
    using assms unfolding tree_ok_def by blast
  have roots: "set (fo_roots ?f) = {ca_id c |c. c \<in> set rows \<and> ca_parentId c = None}"
    using parents unfolding getTree_def build_tree(1) [OF d] by (auto split: option.splits)
  have links: "child_links ?f = {(p, ca_id c) |p c. c \<in> set rows \<and> ca_parentId c = Some p}"
    using parents unfolding getTree_def child_links_def build_tree(2) [OF d] by auto
  have "wf ((parent_edges rows)\<inverse>)"
    using assms by (intro finite_acyclic_wf_converse finite_parent_edges) (simp add: tree_ok_def)
  then have "i \<in> ca_id ` set rows \<longrightarrow> (\<exists>r \<in> set (fo_roots ?f). (r, i) \<in> (child_links ?f)\<^sup>*)" for i
  proof (induction i rule: wf_induct_rule)
    case (less i)
    show ?case
    proof
      assume "i \<in> ca_id ` set rows"
      then obtain c where c: "c \<in> set rows" "i = ca_id c" by blast
      show "\<exists>r \<in> set (fo_roots ?f). (r, i) \<in> (child_links ?f)\<^sup>*"
      proof (cases "ca_parentId c")
        case None
        then have "i \<in> set (fo_roots ?f)" using c unfolding roots by blast
        then show ?thesis by blast
      next
        case (Some p)
        then have "(i, p) \<in> parent_edges rows" using assms c parent_edge_row [of rows c p] by (simp add: tree_ok_def)
        then obtain r where "r \<in> set (fo_roots ?f)" "(r, p) \<in> (child_links ?f)\<^sup>*"
          using less [of p] parents [OF c(1) Some] by auto
        moreover have "(p, i) \<in> child_links ?f" using c Some unfolding links by blast
        ultimately show ?thesis by (meson rtrancl.rtrancl_into_rtrancl)
      qed
    qed
  qed
  then show ?thesis using roots links by blast
qed

subsection \<open>Witnesses\<close>

definition named :: "nat \<Rightarrow> string \<Rightarrow> nat option \<Rightarrow> category" where
  "named i name parentId = \<lparr>ca_id = i, ca_name = name, ca_description = None, ca_icon = None, ca_isActive = True, ca_parentId = parentId\<rparr>"

definition phones :: "category list" where
  "phones = [named 1 ''Electronics'' None, named 2 ''Phones'' (Some 1), named 3 ''Cases'' (Some 2)]"

lemma phones_ok: "tree_ok phones" "siblings_differ phones"
proof -
  have "parent_edges phones = {(2, 1), (3, 2)}"
    by (auto simp: parent_edges_def phones_def named_def split: if_splits)
  moreover have "acyclic {(2, 1), (3, 2 :: nat)}"
    by (rule acyclic_subset [OF wf_acyclic [OF wf_less, THEN acyclic_converse [THEN iffD2]]]) auto
  ultimately show "tree_ok phones" by (simp add: tree_ok_def) (simp add: phones_def named_def)
  show "siblings_differ phones" by (simp add: siblings_differ_def phones_def named_def)
qed

theorem creation_keeps_tree_witness:
  "tree_ok (snd (create_category 4 \<lparr>cc_name = '' Chargers '', cc_description = None, cc_icon = None, cc_isActive = None,
     cc_parentId = Some 2\<rparr> phones))"
  by (rule conjunct1 [OF creation_keeps_tree [OF phones_ok(1) _ phones_ok(2) surjective_pairing]])
    (simp add: phones_def named_def)

theorem move_guard_exact_witness:
  "assertNoCycle phones 1 (Some 3) = Inr () \<longleftrightarrow> acyclic (parent_edges (tbl_save ca_id (named 1 ''Electronics'' (Some 3)) phones))"
  using move_guard_exact [OF phones_ok(1), of 1 "named 1 ''Electronics'' None" 3] by (simp add: phones_def named_def)

theorem tree_shows_everything_witness:
  "\<exists>r \<in> set (fo_roots (getTree (\<lambda>t. int (length t)) phones)). (r, 3) \<in> (child_links (getTree (\<lambda>t. int (length t)) phones))\<^sup>*"
proof -
  have "named 3 ''Cases'' (Some 2) \<in> set phones" "ca_id (named 3 ''Cases'' (Some 2)) = 3" by (simp_all add: phones_def named_def)
  with tree_shows_everything [OF phones_ok(1), of "\<lambda>t. int (length t)"] show ?thesis by (metis (no_types, lifting))
qed

end
