(* ===== verification/Wishlists.thy ===== *)
theory Wishlists
  imports Orders Notifications
begin

text \<open>
  \<open>WishlistsService\<close> (src/src/wishlist/wishlists.service.ts) and the hourly
  \<open>WishlistPriceScheduler\<close> (wishlists.scheduler.ts): lists, share links, items and the price alerts
  that \<open>NotificationsService\<close> creates. New identifiers, share tokens and the clock are parameters.
\<close>

subsection \<open>Rows\<close>

record wishlist_row =
  wl_id :: uuid
  wl_userId :: string
  wl_name :: string
  wl_description :: "string option"
  wl_isPublic :: bool
  wl_shareToken :: "string option"
  wl_createdAt :: time

record price_point =
  pp_price :: number
  pp_recordedAt :: time

record wishlist_item =
  wi_id :: uuid
  wi_wishlistId :: uuid
  wi_productId :: uuid
  wi_productName :: string
  wi_priceAtAdded :: number
  wi_currentPrice :: number
  wi_lowestPrice :: "number option"
  wi_productImageUrl :: "string option"
  wi_productUrl :: "string option"
  wi_isAvailable :: bool
  wi_priceAlertThreshold :: "number option"
  wi_notificationsEnabled :: bool
  wi_priceHistory :: "price_point list option"

record 'r wishes =
  ws_lists :: "wishlist_row list"
  ws_items :: "wishlist_item list"
  ws_notify :: "'r notify"

definition MAX_ITEMS_PER_WISHLIST :: nat where
  "MAX_ITEMS_PER_WISHLIST = 100"

text \<open>The decimal columns have scale 2 and twelve digits.\<close>

definition round_item :: "wishlist_item \<Rightarrow> wishlist_item" where
  "round_item i = i\<lparr>wi_priceAtAdded := round_to 2 (wi_priceAtAdded i), wi_currentPrice := round_to 2 (wi_currentPrice i),
     wi_lowestPrice := map_option (round_to 2) (wi_lowestPrice i),
     wi_priceAlertThreshold := map_option (round_to 2) (wi_priceAlertThreshold i)\<rparr>"

definition too_wide :: "wishlist_item \<Rightarrow> bool" where
  "too_wide i \<longleftrightarrow> \<bar>wi_priceAtAdded i\<bar> \<ge> 10 ^ 10 \<or> \<bar>wi_currentPrice i\<bar> \<ge> 10 ^ 10
     \<or> (case wi_lowestPrice i of None \<Rightarrow> False | Some p \<Rightarrow> \<bar>p\<bar> \<ge> 10 ^ 10)
     \<or> (case wi_priceAlertThreshold i of None \<Rightarrow> False | Some p \<Rightarrow> \<bar>p\<bar> \<ge> 10 ^ 10)"

text \<open>Saving several rows is one transaction.\<close>

definition save_items :: "wishlist_item list \<Rightarrow> 'r wishes \<Rightarrow> (wishlist_item list, 'r wishes) result" where
  "save_items xs s =
     (if \<exists>i \<in> set xs. too_wide (round_item i) then (Inl (Error [Txt ''numeric field overflow'']), s)
      else (Inr xs, s\<lparr>ws_items := fold (tbl_save wi_id) (map round_item xs) (ws_items s)\<rparr>))"

subsection \<open>Lists\<close>

record create_wishlist_dto =
  cw_name :: string
  cw_description :: "string option"
  cw_isPublic :: "bool option"

definition create_wishlist :: "uuid \<Rightarrow> time \<Rightarrow> string \<Rightarrow> create_wishlist_dto \<Rightarrow> 'r wishes \<Rightarrow> wishlist_row \<times> 'r wishes" where
  "create_wishlist newId now userId dto s =
     (let wishlist = \<lparr>wl_id = newId, wl_userId = userId, wl_name = cw_name dto, wl_description = cw_description dto,
            wl_isPublic = pick False (cw_isPublic dto), wl_shareToken = None, wl_createdAt = now\<rparr>
      in (wishlist, s\<lparr>ws_lists := tbl_save wl_id wishlist (ws_lists s)\<rparr>))"

definition items_of :: "uuid \<Rightarrow> 'r wishes \<Rightarrow> wishlist_item list" where
  "items_of wishlistId s = filter (\<lambda>i. wi_wishlistId i = wishlistId) (ws_items s)"

definition findAllByUser :: "string \<Rightarrow> 'r wishes \<Rightarrow> (wishlist_row \<times> wishlist_item list) list" where
  "findAllByUser userId s =
     map (\<lambda>w. (w, items_of (wl_id w) s))
       (sort_key (\<lambda>w. - wl_createdAt w) (filter (\<lambda>w. wl_userId w = userId) (ws_lists s)))"

definition findOne_wishlist :: "string \<Rightarrow> uuid \<Rightarrow> 'r wishes \<Rightarrow> (wishlist_row, 'r wishes) result" where
  "findOne_wishlist userId wishlistId s =
     (case List.find (\<lambda>w. wl_id w = wishlistId \<and> wl_userId w = userId) (ws_lists s) of
        None \<Rightarrow> (Inl (NotFoundException [Txt ''Wishlist not found'']), s)
      | Some wishlist \<Rightarrow> (Inr wishlist, s))"

definition findPublicByToken :: "string \<Rightarrow> 'r wishes \<Rightarrow> error + wishlist_row \<times> wishlist_item list" where
  "findPublicByToken shareToken s =
     (case List.find (\<lambda>w. wl_shareToken w = Some shareToken \<and> wl_isPublic w) (ws_lists s) of
        None \<Rightarrow> Inl (NotFoundException [Txt ''Shared wishlist not found''])
      | Some wishlist \<Rightarrow> Inr (wishlist, items_of (wl_id wishlist) s))"

record update_wishlist_dto =
  uw_name :: "string option"
  uw_description :: "string option"
  uw_isPublic :: "bool option"

definition save_wishlist :: "wishlist_row \<Rightarrow> 'r wishes \<Rightarrow> 'r wishes" where
  "save_wishlist w s = s\<lparr>ws_lists := tbl_save wl_id w (ws_lists s)\<rparr>"

definition update_wishlist ::
  "string \<Rightarrow> uuid \<Rightarrow> update_wishlist_dto \<Rightarrow> 'r wishes \<Rightarrow> (wishlist_row, 'r wishes) result" where
  "update_wishlist userId wishlistId dto s =
     and_then (findOne_wishlist userId wishlistId s) (\<lambda>w s.
       let w = w\<lparr>wl_name := pick (wl_name w) (uw_name dto),
             wl_description := (case uw_description dto of None \<Rightarrow> wl_description w | Some d \<Rightarrow> Some d),
             wl_isPublic := pick (wl_isPublic w) (uw_isPublic dto)\<rparr>
       in (Inr w, save_wishlist w s))"

text \<open>Removing a list removes its items (\<open>ON DELETE CASCADE\<close>).\<close>

definition remove_wishlist :: "string \<Rightarrow> uuid \<Rightarrow> 'r wishes \<Rightarrow> (unit, 'r wishes) result" where
  "remove_wishlist userId wishlistId s =
     and_then (findOne_wishlist userId wishlistId s) (\<lambda>w s.
       (Inr (), s\<lparr>ws_lists := filter (\<lambda>x. wl_id x \<noteq> wl_id w) (ws_lists s),
          ws_items := filter (\<lambda>i. wi_wishlistId i \<noteq> wl_id w) (ws_items s)\<rparr>))"

definition toggleShare :: "string \<Rightarrow> string \<Rightarrow> uuid \<Rightarrow> bool \<Rightarrow> 'r wishes \<Rightarrow> (wishlist_row, 'r wishes) result" where
  "toggleShare newToken userId wishlistId share s =
     and_then (findOne_wishlist userId wishlistId s) (\<lambda>w s.
       let w = (if share then w\<lparr>wl_isPublic := True, wl_shareToken := Some newToken\<rparr>
                else w\<lparr>wl_isPublic := False, wl_shareToken := None\<rparr>)
       in (Inr w, save_wishlist w s))"

subsection \<open>Items\<close>

record add_item_dto =
  ai_productId :: uuid
  ai_productName :: string
  ai_currentPrice :: number
  ai_productImageUrl :: "string option"
  ai_productUrl :: "string option"
  ai_priceAlertThreshold :: "number option"
  ai_notificationsEnabled :: "bool option"

definition new_item :: "uuid \<Rightarrow> time \<Rightarrow> uuid \<Rightarrow> add_item_dto \<Rightarrow> wishlist_item" where
  "new_item newId now wishlistId dto =
     \<lparr>wi_id = newId, wi_wishlistId = wishlistId, wi_productId = ai_productId dto,
      wi_productName = ai_productName dto, wi_priceAtAdded = ai_currentPrice dto, wi_currentPrice = ai_currentPrice dto,
      wi_lowestPrice = Some (ai_currentPrice dto), wi_productImageUrl = ai_productImageUrl dto,
      wi_productUrl = ai_productUrl dto, wi_isAvailable = True,
      wi_priceAlertThreshold = ai_priceAlertThreshold dto,
      wi_notificationsEnabled = pick True (ai_notificationsEnabled dto),
      wi_priceHistory = Some [\<lparr>pp_price = ai_currentPrice dto, pp_recordedAt = now\<rparr>]\<rparr>"

definition addItem ::
  "uuid \<Rightarrow> time \<Rightarrow> string \<Rightarrow> uuid \<Rightarrow> add_item_dto \<Rightarrow> 'r wishes \<Rightarrow> (wishlist_item, 'r wishes) result" where
  "addItem newId now userId wishlistId dto s =
     and_then (findOne_wishlist userId wishlistId s) (\<lambda>w s.
       if length (items_of wishlistId s) \<ge> MAX_ITEMS_PER_WISHLIST
       then (Inl (BadRequestException [Txt ''Wishlists support a maximum of '', Num (of_nat MAX_ITEMS_PER_WISHLIST), Txt '' items'']), s)
       else if \<exists>i \<in> set (ws_items s). wi_wishlistId i = wishlistId \<and> wi_productId i = ai_productId dto
       then (Inl (ConflictException [Txt ''Product already exists in this wishlist'']), s)
       else
         let item = new_item newId now wishlistId dto
         in and_then (save_items [item] s) (\<lambda>_ s. (Inr item, s)))"

definition find_item :: "uuid \<Rightarrow> uuid \<Rightarrow> 'r wishes \<Rightarrow> (wishlist_item, 'r wishes) result" where
  "find_item wishlistId itemId s =
     (case List.find (\<lambda>i. wi_id i = itemId \<and> wi_wishlistId i = wishlistId) (ws_items s) of
        None \<Rightarrow> (Inl (NotFoundException [Txt ''Wishlist item not found'']), s)
      | Some item \<Rightarrow> (Inr item, s))"

record update_item_dto =
  ui_priceAlertThreshold :: "number option"
  ui_notificationsEnabled :: "bool option"

definition changed_item :: "update_item_dto \<Rightarrow> wishlist_item \<Rightarrow> wishlist_item" where
  "changed_item dto item =
     item\<lparr>wi_priceAlertThreshold := (case ui_priceAlertThreshold dto of None \<Rightarrow> wi_priceAlertThreshold item | Some t \<Rightarrow> Some t),
       wi_notificationsEnabled := pick (wi_notificationsEnabled item) (ui_notificationsEnabled dto)\<rparr>"

definition updateItem ::
  "string \<Rightarrow> uuid \<Rightarrow> uuid \<Rightarrow> update_item_dto \<Rightarrow> 'r wishes \<Rightarrow> (wishlist_item, 'r wishes) result" where
  "updateItem userId wishlistId itemId dto s =
     and_then (findOne_wishlist userId wishlistId s) (\<lambda>_ s.
     and_then (find_item wishlistId itemId s) (\<lambda>item s.
       let item = changed_item dto item
       in and_then (save_items [item] s) (\<lambda>_ s. (Inr item, s))))"

definition removeItem :: "string \<Rightarrow> uuid \<Rightarrow> uuid \<Rightarrow> 'r wishes \<Rightarrow> (unit, 'r wishes) result" where
  "removeItem userId wishlistId itemId s =
     and_then (findOne_wishlist userId wishlistId s) (\<lambda>_ s.
     and_then (find_item wishlistId itemId s) (\<lambda>item s.
       (Inr (), s\<lparr>ws_items := filter (\<lambda>i. wi_id i \<noteq> wi_id item) (ws_items s)\<rparr>)))"

subsection \<open>Price alerts\<close>

record price_update =
  pu_productId :: uuid
  pu_newPrice :: number
  pu_isAvailable :: bool

definition push_history :: "price_point \<Rightarrow> price_point list \<Rightarrow> price_point list" where
  "push_history p entries = (let entries = entries @ [p] in if length entries > 90 then tl entries else entries)"

definition sync_item :: "time \<Rightarrow> price_update \<Rightarrow> wishlist_item \<Rightarrow> wishlist_item" where
  "sync_item now u item =
     (let newPrice = pu_newPrice u; oldPrice = wi_currentPrice item;
          item = item\<lparr>wi_isAvailable := pu_isAvailable u\<rparr>
      in if newPrice \<noteq> oldPrice
         then item\<lparr>wi_currentPrice := newPrice,
           wi_priceHistory := Some (push_history \<lparr>pp_price = newPrice, pp_recordedAt = now\<rparr> (pick [] (wi_priceHistory item))),
           wi_lowestPrice := (if newPrice < pick oldPrice (wi_lowestPrice item) then Some newPrice else wi_lowestPrice item)\<rparr>
         else item)"

text \<open>Whether the change of an item, as it was, is announced.\<close>

definition announces :: "price_update \<Rightarrow> wishlist_item \<Rightarrow> bool" where
  "announces u item \<longleftrightarrow> pu_newPrice u < wi_currentPrice item \<and> wi_notificationsEnabled item
     \<and> (case wi_priceAlertThreshold item of None \<Rightarrow> True | Some t \<Rightarrow> pu_newPrice u \<le> t)"

text \<open>\<open>Math.round\<close>.\<close>

definition js_round :: "number \<Rightarrow> int" where
  "js_round x = \<lfloor>x + 1 / 2\<rfloor>"

definition price_drop_dto :: "wishlist_row \<Rightarrow> wishlist_item \<Rightarrow> number \<Rightarrow> number \<Rightarrow> create_notification_dto" where
  "price_drop_dto w item oldPrice newPrice =
     (let savings = oldPrice - newPrice; savingsPercent = js_round (savings / oldPrice * 100)
      in \<lparr>cn_userId = wl_userId w, cn_title = ''Price Drop Alert!'',
          cn_message = wi_productName item @ '' has dropped from $'' @ to_fixed 2 oldPrice @ '' to $'' @ to_fixed 2 newPrice
            @ '' ('' @ int_text savingsPercent @ ''% off)!'',
          cn_type = Some PRICE_DROP, cn_channel = One_channel IN_APP, cn_priority = Some NP_MEDIUM,
          cn_metadata = Some [(''wishlistId'', JText (wi_wishlistId item)), (''wishlistName'', JText (wl_name w)),
            (''productId'', JText (wi_productId item)), (''productName'', JText (wi_productName item)),
            (''oldPrice'', JNumber oldPrice), (''newPrice'', JNumber newPrice), (''savings'', JNumber savings),
            (''savingsPercent'', JNumber (of_int savingsPercent))],
          cn_relatedEntityId = None, cn_relatedEntityType = None, cn_scheduledAt = None, cn_expiresAt = None,
          cn_createdAt = None\<rparr>)"

text \<open>The items of known products with notifications on, with the update of each; a later update of a
  product replaces an earlier one.\<close>

definition price_map :: "price_update list \<Rightarrow> (uuid \<times> price_update) list" where
  "price_map updates = fold (\<lambda>u m. map_set (pu_productId u) u m) updates []"

definition tracked :: "price_update list \<Rightarrow> 'r wishes \<Rightarrow> (wishlist_item \<times> price_update) list" where
  "tracked updates s = concat (map (\<lambda>i. case map_of (price_map updates) (wi_productId i) of
       None \<Rightarrow> [] | Some u \<Rightarrow> [(i, u)]) (filter wi_notificationsEnabled (ws_items s)))"

text \<open>The notifications to fire; reading the owner of an item without a list throws.\<close>

fun alerts :: "wishlist_row list \<Rightarrow> (wishlist_item \<times> price_update) list \<Rightarrow> error + create_notification_dto list" where
  "alerts owners [] = Inr []"
| "alerts owners ((item, u) # rest) =
     (if announces u item
      then case tbl_find wl_id (wi_wishlistId item) owners of
             None \<Rightarrow> Inl (TypeError [Txt ''Cannot read properties of null (reading userId)''])
           | Some w \<Rightarrow> map_sum id (\<lambda>ds. price_drop_dto w item (wi_currentPrice item) (pu_newPrice u) # ds) (alerts owners rest)
      else alerts owners rest)"

text \<open>Notifications that fail are ignored (\<open>allSettled\<close>). \<open>newIds\<close> and \<open>refused\<close> are those of each one.\<close>

fun fire ::
  "(cached, 'r) cache_redis \<Rightarrow> (nat \<Rightarrow> error option) \<Rightarrow> (nat \<Rightarrow> nat \<Rightarrow> uuid) \<Rightarrow> time \<Rightarrow> nat \<Rightarrow> create_notification_dto list \<Rightarrow>
   'r notify \<Rightarrow> 'r notify" where
  "fire ops refused newIds now n [] t = t"
| "fire ops refused newIds now n (dto # rest) t =
     fire ops refused newIds now (Suc n) rest (snd (createNotification ops (refused n) (newIds n) now dto t))"

definition syncPrices ::
  "(cached, 'r) cache_redis \<Rightarrow> (nat \<Rightarrow> error option) \<Rightarrow> (nat \<Rightarrow> nat \<Rightarrow> uuid) \<Rightarrow> time \<Rightarrow> price_update list \<Rightarrow> 'r wishes \<Rightarrow>
   (unit, 'r wishes) result" where
  "syncPrices ops refused newIds now updates s =
     (if updates = [] then (Inr (), s)
      else
        let pairs = tracked updates s
        in case alerts (ws_lists s) pairs of
             Inl e \<Rightarrow> (Inl e, s)
           | Inr dtos \<Rightarrow>
             and_then (save_items (map (\<lambda>(i, u). sync_item now u i) pairs) s) (\<lambda>_ s.
               (Inr (), s\<lparr>ws_notify := fire ops refused newIds now 0 dtos (ws_notify s)\<rparr>)))"

subsection \<open>The hourly job\<close>

text \<open>The columns of the product table that the job reads.\<close>

record priced_product =
  dp_id :: uuid
  dp_price :: number
  dp_active :: bool
  dp_available :: int

definition fetchCurrentPrices ::
  "(currency \<Rightarrow> string) \<Rightarrow> priced_product list \<Rightarrow> catalog \<Rightarrow> uuid list \<Rightarrow> price_update list" where
  "fetchCurrentPrices rates db_products c productIds =
     map (\<lambda>productId. case tbl_find dp_id productId db_products of
         Some p \<Rightarrow> \<lparr>pu_productId = productId, pu_newPrice = dp_price p, pu_isAvailable = dp_active p \<and> dp_available p > 0\<rparr>
       | None \<Rightarrow>
         (case findOneProduct rates productId None c of
            Inr (Some mock) \<Rightarrow> \<lparr>pu_productId = productId, pu_newPrice = price_number (cp_price (vw_product mock)), pu_isAvailable = True\<rparr>
          | _ \<Rightarrow> \<lparr>pu_productId = productId, pu_newPrice = 0, pu_isAvailable = False\<rparr>)) productIds"

definition handlePriceSync ::
  "(cached, 'r) cache_redis \<Rightarrow> (nat \<Rightarrow> error option) \<Rightarrow> (nat \<Rightarrow> nat \<Rightarrow> uuid) \<Rightarrow> time \<Rightarrow> (currency \<Rightarrow> string) \<Rightarrow>
   priced_product list \<Rightarrow> catalog \<Rightarrow> 'r wishes \<Rightarrow> (unit, 'r wishes) result" where
  "handlePriceSync ops refused newIds now rates db_products c s =
     (let productIds = remdups (map wi_productId (ws_items s))
      in if productIds = [] then (Inr (), s)
         else syncPrices ops refused newIds now (fetchCurrentPrices rates db_products c productIds) s)"

subsection \<open>Histories of operations\<close>

datatype wish_op =
    Create_list uuid time string create_wishlist_dto
  | Update_list string uuid update_wishlist_dto
  | Remove_list string uuid
  | Share string string uuid bool
  | Add_item uuid time string uuid add_item_dto
  | Update_item string uuid uuid update_item_dto
  | Remove_item string uuid uuid
  | Sync "nat \<Rightarrow> error option" "nat \<Rightarrow> nat \<Rightarrow> uuid" time "price_update list"

primrec run_wish :: "(cached, 'r) cache_redis \<Rightarrow> wish_op \<Rightarrow> 'r wishes \<Rightarrow> 'r wishes" where
  "run_wish ops (Create_list i now u dto) s = snd (create_wishlist i now u dto s)"
| "run_wish ops (Update_list u w dto) s = snd (update_wishlist u w dto s)"
| "run_wish ops (Remove_list u w) s = snd (remove_wishlist u w s)"
| "run_wish ops (Share tok u w b) s = snd (toggleShare tok u w b s)"
| "run_wish ops (Add_item i now u w dto) s = snd (addItem i now u w dto s)"
| "run_wish ops (Update_item u w i dto) s = snd (updateItem u w i dto s)"
| "run_wish ops (Remove_item u w i) s = snd (removeItem u w i s)"
| "run_wish ops (Sync r f now us) s = snd (syncPrices ops r f now us s)"

text \<open>New identifiers of items are new.\<close>

fun fresh_items :: "(cached, 'r) cache_redis \<Rightarrow> wish_op list \<Rightarrow> 'r wishes \<Rightarrow> bool" where
  "fresh_items ops [] s \<longleftrightarrow> True"
| "fresh_items ops (x # xs) s \<longleftrightarrow>
     (case x of Add_item i now u w dto \<Rightarrow> i \<notin> wi_id ` set (ws_items s) | _ \<Rightarrow> True) \<and> fresh_items ops xs (run_wish ops x s)"

subsection \<open>Saving items\<close>

definition item_key :: "wishlist_item \<Rightarrow> uuid \<times> uuid \<times> uuid" where
  "item_key i = (wi_id i, wi_wishlistId i, wi_productId i)"

lemma item_key_simps [simp]:
  "item_key (round_item i) = item_key i" "item_key (sync_item now u i) = item_key i" "wi_id (round_item i) = wi_id i"
  by (simp_all add: item_key_def round_item_def sync_item_def Let_def)

lemma save_keeps_keys:
  assumes "distinct (map wi_id t)" "item_key r \<in> item_key ` set t"
  shows "map item_key (tbl_save wi_id r t) = map item_key t"
proof -
  obtain old where old: "old \<in> set t" "item_key old = item_key r" using assms(2) by auto
  then have "tbl_find wi_id (wi_id r) t = Some old" using tbl_find_distinct [OF assms(1) old(1)] by (simp add: item_key_def)
  then show ?thesis using old(2) by (simp add: tbl_save_map)
qed

lemma ids_of_keys: "map fst (map item_key t) = map wi_id t"
  by (induction t) (simp_all add: item_key_def)

lemma distinct_ids_keys: "map item_key t = map item_key u \<Longrightarrow> map wi_id t = map wi_id u"
proof -
  assume e: "map item_key t = map item_key u"
  show "map wi_id t = map wi_id u" using arg_cong [OF e, of "map fst"] unfolding ids_of_keys .
qed

lemma save_all_keeps_keys:
  assumes "distinct (map wi_id t)" "\<forall>r \<in> set xs. item_key r \<in> item_key ` set t"
  shows "map item_key (fold (tbl_save wi_id) xs t) = map item_key t"
  using assms
proof (induction xs arbitrary: t)
  case (Cons r xs)
  have keys: "map item_key (tbl_save wi_id r t) = map item_key t" using Cons.prems by (intro save_keeps_keys) simp_all
  then have "distinct (map wi_id (tbl_save wi_id r t))" using Cons.prems(1) distinct_ids_keys [OF keys] by simp
  moreover have "\<forall>r' \<in> set xs. item_key r' \<in> item_key ` set (tbl_save wi_id r t)"
    using Cons.prems(2) keys by (metis list.set_intros(2) list.set_map)
  ultimately show ?case using Cons.IH keys by simp
qed simp

lemma save_all_mem: "i \<in> set (fold (tbl_save wi_id) xs t) \<Longrightarrow> i \<in> set xs \<or> i \<in> set t"
  by (induction xs arbitrary: t) (auto dest: tbl_save_mem)

lemma round_to_mono: "a \<le> b \<Longrightarrow> round_to p a \<le> round_to p b"
proof -
  assume ab: "a \<le> b"
  have up: "of_int \<lfloor>x * 10 ^ p + 1 / 2\<rfloor> \<le> (of_int \<lfloor>y * 10 ^ p + 1 / 2\<rfloor> :: number)" if "x \<le> y" for x y :: number
    using that by (simp add: floor_mono mult_right_mono)
  have nonneg: "0 \<le> (of_int \<lfloor>x * 10 ^ p + 1 / 2\<rfloor> :: number)" if "0 \<le> x" for x :: number
    using that by simp
  consider "0 < a" | "a \<le> 0" "0 \<le> b" | "b < 0" by linarith
  then show ?thesis
  proof cases
    case 1
    then show ?thesis using ab up [OF ab] by (simp add: round_to_def divide_right_mono)
  next
    case 2
    have "round_to p a = 0 \<or> round_to p a = - (of_int \<lfloor>- a * 10 ^ p + 1 / 2\<rfloor> / 10 ^ p)"
      using 2 by (auto simp: round_to_def sgn_if)
    then have "round_to p a \<le> 0" using nonneg [of "- a"] 2 by auto
    moreover have "round_to p b = 0 \<or> round_to p b = of_int \<lfloor>b * 10 ^ p + 1 / 2\<rfloor> / 10 ^ p"
      using 2 by (auto simp: round_to_def sgn_if)
    then have "0 \<le> round_to p b" using nonneg [of b] 2 by auto
    ultimately show ?thesis by linarith
  next
    case 3
    then have "- b \<le> - a" using ab by simp
    from up [OF this] show ?thesis using 3 ab by (simp add: round_to_def divide_right_mono)
  qed
qed

subsection \<open>The bounds\<close>

definition item_ok :: "wishlist_item \<Rightarrow> bool" where
  "item_ok i \<longleftrightarrow> (case wi_lowestPrice i of None \<Rightarrow> True | Some l \<Rightarrow> l \<le> wi_currentPrice i)
     \<and> (case wi_priceHistory i of None \<Rightarrow> True | Some h \<Rightarrow> length h \<le> 90)"

definition keys_ok :: "(uuid \<times> uuid \<times> uuid) list \<Rightarrow> bool" where
  "keys_ok ks \<longleftrightarrow> distinct (map fst ks) \<and> distinct (map snd ks)
     \<and> (\<forall>w. length (filter (\<lambda>k. fst (snd k) = w) ks) \<le> MAX_ITEMS_PER_WISHLIST)"

definition wishes_ok :: "'r wishes \<Rightarrow> bool" where
  "wishes_ok s \<longleftrightarrow> keys_ok (map item_key (ws_items s)) \<and> (\<forall>i \<in> set (ws_items s). item_ok i)"

lemma item_ok_round [simp]: "item_ok i \<Longrightarrow> item_ok (round_item i)"
  by (auto simp: item_ok_def round_item_def round_to_mono split: option.splits)

lemma item_ok_sync [simp]: "item_ok i \<Longrightarrow> item_ok (sync_item now u i)"
  by (auto simp: item_ok_def sync_item_def push_history_def pick_def Let_def split: option.splits)

lemma keys_ok_filter: "keys_ok (map item_key xs) \<Longrightarrow> keys_ok (map item_key (filter P xs))"
proof -
  assume ok: "keys_ok (map item_key xs)"
  have "length (filter (\<lambda>k. fst (snd k) = w) (map item_key (filter P xs))) \<le> length (filter (\<lambda>k. fst (snd k) = w) (map item_key xs))" for w
    by (induction xs) auto
  then show "keys_ok (map item_key (filter P xs))"
    using ok unfolding keys_ok_def by (auto simp: distinct_map_filter o_def intro: order_trans)
qed

lemma wishes_ok_filter: "wishes_ok s \<Longrightarrow> wishes_ok (s\<lparr>ws_items := filter P (ws_items s)\<rparr>)"
  by (auto simp: wishes_ok_def keys_ok_filter)

lemma wishes_ok_cong: "ws_items t = ws_items s \<Longrightarrow> wishes_ok s \<Longrightarrow> wishes_ok t"
  by (simp add: wishes_ok_def)

lemma save_items_ok:
  assumes "wishes_ok s" "\<forall>r \<in> set xs. item_key r \<in> item_key ` set (ws_items s) \<and> item_ok r" "save_items xs s = (r, t)"
  shows "wishes_ok t"
proof (cases "t = s")
  case False
  then have t: "t = s\<lparr>ws_items := fold (tbl_save wi_id) (map round_item xs) (ws_items s)\<rparr>"
    using assms(3) by (auto simp: save_items_def split: if_splits)
  have ids: "distinct (map wi_id (ws_items s))"
    using assms(1) by (simp add: wishes_ok_def keys_ok_def o_def item_key_def)
  have keys: "map item_key (ws_items t) = map item_key (ws_items s)"
    using save_all_keeps_keys [OF ids, of "map round_item xs"] assms(2) unfolding t by simp
  have rows: "\<forall>i \<in> set (ws_items t). item_ok i"
    using assms(1,2) unfolding t wishes_ok_def by (auto dest!: save_all_mem)
  have "keys_ok (map item_key (ws_items t))"
    unfolding keys using assms(1) by (simp only: wishes_ok_def)
  with rows show ?thesis unfolding wishes_ok_def by blast
qed (use assms(1) in simp)

lemma keys_ok_snoc:
  "keys_ok ks \<Longrightarrow> fst k \<notin> fst ` set ks \<Longrightarrow> snd k \<notin> snd ` set ks \<Longrightarrow>
   length (filter (\<lambda>x. fst (snd x) = fst (snd k)) ks) < MAX_ITEMS_PER_WISHLIST \<Longrightarrow> keys_ok (ks @ [k])"
  by (auto simp: keys_ok_def)

lemma count_keys: "length (filter (\<lambda>k. fst (snd k) = w) (map item_key xs)) = length (filter (\<lambda>i. wi_wishlistId i = w) xs)"
  by (induction xs) (simp_all add: item_key_def)

lemma findOne_wishlist_cases:
  "findOne_wishlist u w s = (Inl (NotFoundException [Txt ''Wishlist not found'']), s)
   \<or> (\<exists>row. findOne_wishlist u w s = (Inr row, s))"
  by (simp add: findOne_wishlist_def split: option.split)

lemma and_then_state: "snd (and_then r (\<lambda>_ s. (Inr x, s))) = snd r"
  by (cases r) (simp add: and_then_def split: sum.split)

lemma item_keys_new [simp]:
  "item_key (new_item newId now w dto) = (newId, w, ai_productId dto)" "item_ok (new_item newId now w dto)"
  "wi_id (new_item newId now w dto) = newId"
  by (simp_all add: new_item_def item_key_def item_ok_def)

lemma item_keys_changed [simp]:
  "item_key (changed_item dto i) = item_key i" "item_ok (changed_item dto i) = item_ok i"
  by (simp_all add: changed_item_def item_key_def item_ok_def cong: option.case_cong)

lemma addItem_state:
  "snd (addItem newId now u w dto s) = s
   \<or> length (items_of w s) < MAX_ITEMS_PER_WISHLIST
     \<and> \<not> (\<exists>i \<in> set (ws_items s). wi_wishlistId i = w \<and> wi_productId i = ai_productId dto)
     \<and> snd (addItem newId now u w dto s) = s\<lparr>ws_items := tbl_save wi_id (round_item (new_item newId now w dto)) (ws_items s)\<rparr>"
  using findOne_wishlist_cases [of u w s]
  by (elim disjE exE) (simp_all add: addItem_def Let_def save_items_def not_le)

lemma addItem_ok:
  assumes ok: "wishes_ok s" and new: "newId \<notin> wi_id ` set (ws_items s)"
  shows "wishes_ok (snd (addItem newId now u w dto s))"
  using addItem_state [of newId now u w dto s]
proof (elim disjE conjE)
  let ?item = "new_item newId now w dto"
  assume few: "length (items_of w s) < MAX_ITEMS_PER_WISHLIST"
    and other: "\<not> (\<exists>i \<in> set (ws_items s). wi_wishlistId i = w \<and> wi_productId i = ai_productId dto)"
    and t: "snd (addItem newId now u w dto s) = s\<lparr>ws_items := tbl_save wi_id (round_item ?item) (ws_items s)\<rparr>"
  have "tbl_find wi_id (wi_id (round_item ?item)) (ws_items s) = None" using new by (simp add: tbl_find_none_iff)
  then have rows: "tbl_save wi_id (round_item ?item) (ws_items s) = ws_items s @ [round_item ?item]" by (rule tbl_save_new)
  have "keys_ok (map item_key (ws_items s) @ [item_key ?item])"
  proof (rule keys_ok_snoc)
    show "keys_ok (map item_key (ws_items s))" using ok by (simp add: wishes_ok_def)
    show "fst (item_key ?item) \<notin> fst ` set (map item_key (ws_items s))" using new by (auto simp: item_key_def)
    show "snd (item_key ?item) \<notin> snd ` set (map item_key (ws_items s))" using other by (auto simp: item_key_def new_item_def)
    show "length (filter (\<lambda>x. fst (snd x) = fst (snd (item_key ?item))) (map item_key (ws_items s))) < MAX_ITEMS_PER_WISHLIST"
      using few unfolding items_of_def count_keys by simp
  qed
  moreover have "\<forall>i \<in> set (ws_items s @ [round_item ?item]). item_ok i" using ok by (auto simp: wishes_ok_def)
  ultimately show ?thesis unfolding wishes_ok_def t by (simp only: rows wishes.simps wishes.update_convs list.map map_append item_key_simps)
      simp
qed (simp add: ok)

lemma find_item_cases:
  "find_item w k s = (Inl (NotFoundException [Txt ''Wishlist item not found'']), s)
   \<or> (\<exists>item \<in> set (ws_items s). find_item w k s = (Inr item, s))"
  by (auto simp: find_item_def find_Some_iff in_set_conv_nth split: option.split)

lemma updateItem_state:
  "snd (updateItem u w k dto s) = s
   \<or> (\<exists>item \<in> set (ws_items s). snd (updateItem u w k dto s) = snd (save_items [changed_item dto item] s))"
  using findOne_wishlist_cases [of u w s] find_item_cases [of w k s]
  by (elim disjE exE bexE) (auto simp: updateItem_def Let_def and_then_state)

lemma updateItem_ok:
  assumes ok: "wishes_ok s" shows "wishes_ok (snd (updateItem u w k dto s))"
  using updateItem_state [of u w k dto s]
proof (elim disjE bexE)
  fix item assume "item \<in> set (ws_items s)" and t: "snd (updateItem u w k dto s) = snd (save_items [changed_item dto item] s)"
  then show ?thesis
    unfolding t by (intro save_items_ok [OF ok _ prod.collapse [symmetric]]) (use ok in \<open>simp add: wishes_ok_def\<close>)
qed (simp add: ok)

lemma tracked_mem: "(i, v) \<in> set (tracked us s) \<Longrightarrow> i \<in> set (ws_items s)"
  by (auto simp: tracked_def split: option.splits)

lemma syncPrices_ok:
  assumes "wishes_ok s" "syncPrices ops rf f now us s = (r, t)" shows "wishes_ok t"
proof (cases "us = [] \<or> (\<exists>e. alerts (ws_lists s) (tracked us s) = Inl e)")
  case True
  then have "t = s" using assms(2) by (elim disjE exE) (simp_all add: syncPrices_def Let_def split: if_splits)
  with assms(1) show ?thesis by simp
next
  case False
  let ?xs = "map (\<lambda>(i, u). sync_item now u i) (tracked us s)"
  obtain q s' where save: "save_items ?xs s = (q, s')" by (cases "save_items ?xs s")
  have "wishes_ok s'"
    using assms(1) by (intro save_items_ok [OF assms(1) _ save]) (auto simp: wishes_ok_def dest: tracked_mem)
  moreover have "ws_items t = ws_items s'"
    using assms(2) False save by (auto simp: syncPrices_def Let_def split: sum.splits) (cases q; auto)+
  ultimately show ?thesis by (metis wishes_ok_cong)
qed

lemma findOne_wishlist_state [simp]: "snd (findOne_wishlist u w s) = s"
  by (simp add: findOne_wishlist_def split: option.split)

lemma run_wish_ok:
  assumes ok: "wishes_ok s" and new: "\<forall>i now u w dto. x = Add_item i now u w dto \<longrightarrow> i \<notin> wi_id ` set (ws_items s)"
  shows "wishes_ok (run_wish ops x s)"
proof (cases x)
  case (Remove_list u w)
  then show ?thesis using findOne_wishlist_cases [of u w s] wishes_ok_filter [OF ok]
    by (elim disjE exE) (simp_all add: remove_wishlist_def ok, simp add: wishes_ok_def)
next
  case (Remove_item u w k)
  then show ?thesis using findOne_wishlist_cases [of u w s] find_item_cases [of w k s] wishes_ok_filter [OF ok]
    by (elim disjE exE bexE) (simp_all add: removeItem_def ok)
next
  case (Add_item i now u w dto)
  then show ?thesis using addItem_ok [OF ok] new by simp
next
  case (Update_item u w k dto)
  then show ?thesis using updateItem_ok [OF ok] by simp
next
  case (Sync r f now us)
  then show ?thesis using syncPrices_ok [OF ok prod.collapse [symmetric]] by simp
next
  case (Create_list i now u dto)
  then show ?thesis using ok by (simp add: create_wishlist_def Let_def wishes_ok_def)
next
  case (Update_list u w dto)
  then show ?thesis using findOne_wishlist_cases [of u w s] ok
    by (elim disjE exE) (simp_all add: update_wishlist_def Let_def save_wishlist_def wishes_ok_def)
next
  case (Share tok u w b)
  then show ?thesis using findOne_wishlist_cases [of u w s] ok
    by (elim disjE exE) (simp_all add: toggleShare_def Let_def save_wishlist_def wishes_ok_def)
qed

lemma wishes_ok_history: "wishes_ok s \<Longrightarrow> fresh_items ops xs s \<Longrightarrow> wishes_ok (fold (run_wish ops) xs s)"
proof (induction xs arbitrary: s)
  case (Cons x xs)
  have "wishes_ok (run_wish ops x s)" by (rule run_wish_ok) (use Cons.prems in auto)
  then show ?case using Cons.IH Cons.prems(2) by simp
qed simp

text \<open>
  Property C22: after any history of operations of any users and price synchronisations that starts
  without items, a list holds at most one hundred items and a product at most once, the recorded
  history of an item has at most ninety prices, and its lowest price is never above its current one.
\<close>

theorem wishlist_bounds:
  assumes "ws_items s = []" "fresh_items ops xs s" "t = fold (run_wish ops) xs s"
  shows "length (items_of w t) \<le> 100
     \<and> distinct (map (\<lambda>i. (wi_wishlistId i, wi_productId i)) (ws_items t))
     \<and> (\<forall>i \<in> set (ws_items t). (\<forall>l. wi_lowestPrice i = Some l \<longrightarrow> l \<le> wi_currentPrice i)
          \<and> (\<forall>h. wi_priceHistory i = Some h \<longrightarrow> length h \<le> 90))"
proof -
  have "wishes_ok s" using assms(1) by (simp add: wishes_ok_def keys_ok_def)
  then have ok: "wishes_ok t" using wishes_ok_history assms(2,3) by simp
  have "length (items_of w t) \<le> 100"
    using ok unfolding wishes_ok_def keys_ok_def count_keys items_of_def by (simp add: MAX_ITEMS_PER_WISHLIST_def)
  moreover have "map snd (map item_key (ws_items t)) = map (\<lambda>i. (wi_wishlistId i, wi_productId i)) (ws_items t)"
    by (simp add: item_key_def o_def)
  then have "distinct (map (\<lambda>i. (wi_wishlistId i, wi_productId i)) (ws_items t))"
    using ok unfolding wishes_ok_def keys_ok_def by metis
  moreover have "item_ok i" if "i \<in> set (ws_items t)" for i using ok that by (simp add: wishes_ok_def)
  ultimately show ?thesis by (fastforce simp: item_ok_def)
qed

text \<open>
  The hourly job takes a product it can find neither in the table nor in the catalogue
  for one that costs nothing: the item's price and its lowest price ever become 0, and its owner's
  notice says that it is \<open>100% off\<close>.
\<close>

lemma lost_product_announced_free:
  assumes "tbl_find dp_id (wi_productId i) db_products = None" "findOneProduct rates (wi_productId i) None c = Inr None"
    "0 < wi_currentPrice i" "wi_lowestPrice i = Some l" "0 < l" "wi_notificationsEnabled i" "wi_priceAlertThreshold i = None"
    "fetchCurrentPrices rates db_products c [wi_productId i] = [u]"
  shows "wi_currentPrice (sync_item now u i) = 0 \<and> wi_lowestPrice (sync_item now u i) = Some 0
     \<and> \<not> wi_isAvailable (sync_item now u i) \<and> announces u i
     \<and> cn_message (price_drop_dto w i (wi_currentPrice i) (pu_newPrice u))
       = wi_productName i @ '' has dropped from $'' @ to_fixed 2 (wi_currentPrice i) @ '' to $'' @ to_fixed 2 0 @ '' (100% off)!''"
proof -
  have u: "u = \<lparr>pu_productId = wi_productId i, pu_newPrice = 0, pu_isAvailable = False\<rparr>"
    using assms by (simp add: fetchCurrentPrices_def)
  have "int_text 100 = ''100''" by code_simp
  moreover have "\<lfloor>201 / 2 :: number\<rfloor> = 100" by code_simp
  ultimately have off: "int_text \<lfloor>201 / 2 :: number\<rfloor> = ''100''" by simp
  show ?thesis using assms(1-7) unfolding u
    by (simp add: off sync_item_def announces_def price_drop_dto_def js_round_def Let_def pick_def)
qed

definition sample_item :: add_item_dto where
  "sample_item = \<lparr>ai_productId = ''p1'', ai_productName = ''Lamp'', ai_currentPrice = 25, ai_productImageUrl = None,
     ai_productUrl = None, ai_priceAlertThreshold = None, ai_notificationsEnabled = None\<rparr>"

abbreviation "fresh_wishes \<equiv> \<lparr>ws_lists = [\<lparr>wl_id = ''w1'', wl_userId = ''u1'', wl_name = ''Home'', wl_description = None, wl_isPublic = False,
     wl_shareToken = None, wl_createdAt = 0\<rparr>], ws_items = [], ws_notify = fresh_notify\<rparr>"

theorem wishlist_bounds_witness:
  "length (items_of ''w1'' (fold (run_wish list_cache_redis) [Add_item ''i1'' 0 ''u1'' ''w1'' sample_item,
     Remove_item ''u1'' ''w1'' ''i1'', Add_item ''i1'' 0 ''u1'' ''w1'' sample_item] fresh_wishes)) \<le> 100"
proof -
  have "fresh_items list_cache_redis [Add_item ''i1'' 0 ''u1'' ''w1'' sample_item,
     Remove_item ''u1'' ''w1'' ''i1'', Add_item ''i1'' 0 ''u1'' ''w1'' sample_item] fresh_wishes"
    by (simp add: removeItem_def findOne_wishlist_def find_item_def addItem_def items_of_def MAX_ITEMS_PER_WISHLIST_def
        sample_item_def new_item_def save_items_def too_wide_def round_item_def round_to_def sgn_if Let_def)
  moreover have "ws_items fresh_wishes = []" by simp
  ultimately show ?thesis using wishlist_bounds by blast
qed

theorem lost_product_announced_free_witness:
  "let i = new_item ''i1'' 0 ''w1'' sample_item; u = \<lparr>pu_productId = ''p1'', pu_newPrice = 0, pu_isAvailable = False\<rparr>
   in wi_lowestPrice (sync_item 5 u i) = Some 0 \<and> announces u i"
  using lost_product_announced_free [where i = "new_item ''i1'' 0 ''w1'' sample_item" and db_products = "[]" and rates = "\<lambda>_. ''1''"
      and c = empty_catalog and l = 25 and u = "\<lparr>pu_productId = ''p1'', pu_newPrice = 0, pu_isAvailable = False\<rparr>"
      and now = 5 and w = undefined]
  by (simp add: new_item_def sample_item_def fetchCurrentPrices_def findOneProduct_def empty_catalog_def pick_def)

end
