(* ===== verification/Shipping.thy ===== *)
theory Shipping
  imports Orders Calendar
begin

text \<open>
  \<open>ShippingService\<close> (src/src/shipping/shipping.service.ts): the carriers, the shipments of
  orders and the orders they mark as shipped and delivered. Identifiers and the clock are
  parameters; the parsed date of a request stands for its ISO text. A response copies the row.
\<close>

subsection \<open>Rows\<close>

datatype shipping_carrier = UPS | FEDEX | DHL | USPS | LOCAL_COURIER

datatype shipment_status = SH_LABEL_CREATED | SH_PICKED_UP | SH_IN_TRANSIT | SH_OUT_FOR_DELIVERY
  | SH_DELIVERED | SH_FAILED | SH_RETURNED

fun carrier_text :: "shipping_carrier \<Rightarrow> string" where
  "carrier_text UPS = ''ups''"
| "carrier_text FEDEX = ''fedex''"
| "carrier_text DHL = ''dhl''"
| "carrier_text USPS = ''usps''"
| "carrier_text LOCAL_COURIER = ''local''"

fun shipment_status_text :: "shipment_status \<Rightarrow> string" where
  "shipment_status_text SH_LABEL_CREATED = ''label_created''"
| "shipment_status_text SH_PICKED_UP = ''picked_up''"
| "shipment_status_text SH_IN_TRANSIT = ''in_transit''"
| "shipment_status_text SH_OUT_FOR_DELIVERY = ''out_for_delivery''"
| "shipment_status_text SH_DELIVERED = ''delivered''"
| "shipment_status_text SH_FAILED = ''failed''"
| "shipment_status_text SH_RETURNED = ''returned''"

record ship_address =
  sa_street :: string
  sa_city :: string
  sa_state :: string
  sa_postalCode :: string
  sa_country :: string

record dimensions =
  dm_length :: number
  dm_width :: number
  dm_height :: number
  dm_unit :: "string option"

record shipment =
  sh_id :: uuid
  sh_orderId :: uuid
  sh_carrier :: shipping_carrier
  sh_trackingNumber :: string
  sh_status :: shipment_status
  sh_shippingAddress :: ship_address
  sh_weight :: "number option"
  sh_dimensions :: "dimensions option"
  sh_shippingCost :: "number option"
  sh_estimatedDeliveryDate :: "time option"
  sh_actualDeliveryDate :: "time option"
  sh_labelUrl :: "string option"
  sh_notes :: "string option"
  sh_createdAt :: time
  sh_updatedAt :: time

datatype ship_event =
    ShipmentCreatedEvent uuid uuid string shipping_carrier
  | ShipmentStatusUpdatedEvent uuid uuid shipment_status shipment_status

text \<open>The shipments stand beside the database of the orders.\<close>

record shipping =
  shop_db :: db
  shipments :: "shipment list"
  ship_events :: "ship_event list"

text \<open>The two decimal columns have ten digits, two of them behind the point.\<close>

definition rounded_shipment :: "shipment \<Rightarrow> shipment" where
  "rounded_shipment x = x\<lparr>sh_weight := map_option (round_to 2) (sh_weight x),
     sh_shippingCost := map_option (round_to 2) (sh_shippingCost x)\<rparr>"

definition wide_number :: "number option \<Rightarrow> bool" where
  "wide_number v = (case v of None \<Rightarrow> False | Some n \<Rightarrow> 10 ^ 8 \<le> \<bar>n\<bar>)"

definition save_shipment :: "shipment \<Rightarrow> shipping \<Rightarrow> (shipment, shipping) result" where
  "save_shipment x s =
     (let row = rounded_shipment x
      in if wide_number (sh_weight row) \<or> wide_number (sh_shippingCost row)
         then (Inl (Error [Txt ''numeric field overflow'']), s)
         else (Inr x, s\<lparr>shipments := tbl_save sh_id row (shipments s)\<rparr>))"

definition on_db :: "(db \<Rightarrow> ('a, db) result) \<Rightarrow> shipping \<Rightarrow> ('a, shipping) result" where
  "on_db f s = (case f (shop_db s) of (r, d) \<Rightarrow> (r, s\<lparr>shop_db := d\<rparr>))"

definition dquoted :: "string \<Rightarrow> piece" where
  "dquoted t = Txt (CHR 0x22 # t @ [CHR 0x22])"

subsection \<open>Carriers\<close>

record carrier_info =
  cf_carrier :: shipping_carrier
  cf_name :: string
  cf_trackingUrlTemplate :: string
  cf_minDays :: int
  cf_maxDays :: int

definition carrierDetails :: "carrier_info list" where
  "carrierDetails =
     [\<lparr>cf_carrier = UPS, cf_name = ''United Parcel Service'',
       cf_trackingUrlTemplate = ''https://www.ups.com/track?tracknum={trackingNumber}'', cf_minDays = 3, cf_maxDays = 7\<rparr>,
      \<lparr>cf_carrier = FEDEX, cf_name = ''FedEx'',
       cf_trackingUrlTemplate = ''https://www.fedex.com/fedextrack/?trknbr={trackingNumber}'', cf_minDays = 2, cf_maxDays = 5\<rparr>,
      \<lparr>cf_carrier = DHL, cf_name = ''DHL Express'',
       cf_trackingUrlTemplate = ''https://www.dhl.com/en/express/tracking.html?AWB={trackingNumber}'', cf_minDays = 3, cf_maxDays = 10\<rparr>,
      \<lparr>cf_carrier = USPS, cf_name = ''United States Postal Service'',
       cf_trackingUrlTemplate = ''https://tools.usps.com/go/TrackConfirmAction?tLabels={trackingNumber}'', cf_minDays = 5, cf_maxDays = 14\<rparr>,
      \<lparr>cf_carrier = LOCAL_COURIER, cf_name = ''Local Courier'', cf_trackingUrlTemplate = '''', cf_minDays = 1, cf_maxDays = 3\<rparr>]"

definition getCarrierInfo :: "carrier_info list" where
  "getCarrierInfo = carrierDetails"

definition getEstimatedDelivery :: "time \<Rightarrow> shipping_carrier \<Rightarrow> error + (int \<times> int) \<times> time" where
  "getEstimatedDelivery now carrier =
     (case List.find (\<lambda>c. cf_carrier c = carrier) carrierDetails of
        None \<Rightarrow> Inl (BadRequestException [Txt ''Unsupported carrier: '', Txt (carrier_text carrier)])
      | Some carrierInfo \<Rightarrow>
        let estimatedDate = setDate (getDate now + cf_maxDays carrierInfo) now
        in Inr ((cf_minDays carrierInfo, cf_maxDays carrierInfo), estimatedDate))"

definition calculateEstimatedDelivery :: "time \<Rightarrow> shipping_carrier \<Rightarrow> error + time" where
  "calculateEstimatedDelivery now carrier = map_sum id snd (getEstimatedDelivery now carrier)"

subsection \<open>Creating\<close>

record create_shipment_dto =
  cs_orderId :: uuid
  cs_carrier :: shipping_carrier
  cs_trackingNumber :: string
  cs_shippingAddress :: ship_address
  cs_weight :: "number option"
  cs_dimensions :: "dimensions option"
  cs_shippingCost :: "number option"
  cs_estimatedDeliveryDate :: "time option"
  cs_labelUrl :: "string option"
  cs_notes :: "string option"

definition new_shipment :: "uuid \<Rightarrow> time \<Rightarrow> time \<Rightarrow> create_shipment_dto \<Rightarrow> shipment" where
  "new_shipment newId now estimate dto =
     \<lparr>sh_id = newId, sh_orderId = cs_orderId dto, sh_carrier = cs_carrier dto, sh_trackingNumber = cs_trackingNumber dto,
      sh_status = SH_LABEL_CREATED, sh_shippingAddress = cs_shippingAddress dto, sh_weight = cs_weight dto,
      sh_dimensions = cs_dimensions dto, sh_shippingCost = cs_shippingCost dto, sh_estimatedDeliveryDate = Some estimate,
      sh_actualDeliveryDate = None, sh_labelUrl = cs_labelUrl dto, sh_notes = cs_notes dto,
      sh_createdAt = now, sh_updatedAt = now\<rparr>"

definition createShipment :: "uuid \<Rightarrow> time \<Rightarrow> create_shipment_dto \<Rightarrow> shipping \<Rightarrow> (shipment, shipping) result" where
  "createShipment newId now dto s =
     (case tbl_find o_id (cs_orderId dto) (orders (shop_db s)) of
        None \<Rightarrow> (Inl (NotFoundException [Txt ''Order with ID '', dquoted (cs_orderId dto), Txt '' not found'']), s)
      | Some order \<Rightarrow>
        if o_status order \<noteq> OS_PAID
        then (Inl (BadRequestException [Txt ''Order must be in PAID status to create a shipment. Current status: '',
                Txt (order_status_text (o_status order))]), s)
        else if \<exists>x \<in> set (shipments s). sh_orderId x = cs_orderId dto
        then (Inl (BadRequestException [Txt ''A shipment already exists for order '', dquoted (cs_orderId dto)]), s)
        else
          case (case cs_estimatedDeliveryDate dto of
                  Some t \<Rightarrow> Inr t
                | None \<Rightarrow> calculateEstimatedDelivery now (cs_carrier dto)) of
            Inl e \<Rightarrow> (Inl e, s)
          | Inr estimate \<Rightarrow>
            and_then (save_shipment (new_shipment newId now estimate dto) s) (\<lambda>savedShipment s.
            and_then (on_db (save_order (order\<lparr>o_status := OS_SHIPPED, o_trackingNumber := Some (cs_trackingNumber dto),
                o_shippedAt := Some now\<rparr>)) s) (\<lambda>_ s.
              (Inr savedShipment, s\<lparr>ship_events := ship_events s @ [ShipmentCreatedEvent (sh_id savedShipment) (o_id order)
                 (sh_trackingNumber savedShipment) (sh_carrier savedShipment)]\<rparr>))))"

text \<open>The route names the order; the body cannot.\<close>

definition createShipment_route :: "uuid \<Rightarrow> time \<Rightarrow> uuid \<Rightarrow> create_shipment_dto \<Rightarrow> shipping \<Rightarrow> (shipment, shipping) result" where
  "createShipment_route newId now orderId dto = createShipment newId now (dto\<lparr>cs_orderId := orderId\<rparr>)"

subsection \<open>Following a shipment\<close>

fun shipmentTransitions :: "shipment_status \<Rightarrow> shipment_status list" where
  "shipmentTransitions SH_LABEL_CREATED = [SH_PICKED_UP, SH_FAILED]"
| "shipmentTransitions SH_PICKED_UP = [SH_IN_TRANSIT, SH_FAILED]"
| "shipmentTransitions SH_IN_TRANSIT = [SH_OUT_FOR_DELIVERY, SH_FAILED, SH_RETURNED]"
| "shipmentTransitions SH_OUT_FOR_DELIVERY = [SH_DELIVERED, SH_FAILED, SH_RETURNED]"
| "shipmentTransitions SH_DELIVERED = []"
| "shipmentTransitions SH_FAILED = [SH_LABEL_CREATED]"
| "shipmentTransitions SH_RETURNED = []"

interpretation shipment_life: lifecycle shipmentTransitions .

definition isValidShipmentTransition :: "shipment_status \<Rightarrow> shipment_status \<Rightarrow> bool" where
  "isValidShipmentTransition currentStatus newStatus = List.member (shipmentTransitions currentStatus) newStatus"

definition syncOrderStatus :: "time \<Rightarrow> uuid \<Rightarrow> shipment_status \<Rightarrow> shipping \<Rightarrow> (unit, shipping) result" where
  "syncOrderStatus now orderId shipmentStatus s =
     (case tbl_find o_id orderId (orders (shop_db s)) of
        None \<Rightarrow> (Inr (), s)
      | Some order \<Rightarrow>
        if shipmentStatus = SH_DELIVERED
        then and_then (on_db (save_order (order\<lparr>o_status := OS_DELIVERED, o_deliveredAt := Some now\<rparr>)) s) (\<lambda>_ s. (Inr (), s))
        else (Inr (), s))"

definition moved_shipment :: "time \<Rightarrow> shipment_status \<Rightarrow> string option \<Rightarrow> shipment \<Rightarrow> shipment" where
  "moved_shipment now status notes x =
     x\<lparr>sh_status := status, sh_notes := (if truthy_text notes then notes else sh_notes x),
       sh_actualDeliveryDate := (if status = SH_DELIVERED then Some now else sh_actualDeliveryDate x), sh_updatedAt := now\<rparr>"

definition updateShipmentStatus ::
  "time \<Rightarrow> uuid \<Rightarrow> shipment_status \<Rightarrow> string option \<Rightarrow> shipping \<Rightarrow> (shipment, shipping) result" where
  "updateShipmentStatus now i status notes s =
     (case tbl_find sh_id i (shipments s) of
        None \<Rightarrow> (Inl (NotFoundException [Txt ''Shipment with ID '', dquoted i, Txt '' not found'']), s)
      | Some x \<Rightarrow>
        if \<not> isValidShipmentTransition (sh_status x) status
        then (Inl (BadRequestException [Txt ''Invalid state transition from '', Txt (shipment_status_text (sh_status x)),
                Txt '' to '', Txt (shipment_status_text status)]), s)
        else
          and_then (save_shipment (moved_shipment now status notes x) s) (\<lambda>updatedShipment s.
          and_then (syncOrderStatus now (sh_orderId x) status s) (\<lambda>_ s.
            (Inr updatedShipment, s\<lparr>ship_events := ship_events s @ [ShipmentStatusUpdatedEvent i (sh_orderId x) status (sh_status x)]\<rparr>))))"

definition find_shipment :: "(shipment \<Rightarrow> bool) \<Rightarrow> msg \<Rightarrow> shipping \<Rightarrow> error + shipment" where
  "find_shipment P missing s =
     (case List.find P (shipments s) of None \<Rightarrow> Inl (NotFoundException missing) | Some x \<Rightarrow> Inr x)"

definition findByTrackingNumber :: "string \<Rightarrow> shipping \<Rightarrow> error + shipment" where
  "findByTrackingNumber trackingNumber =
     find_shipment (\<lambda>x. sh_trackingNumber x = trackingNumber)
       [Txt ''Shipment with tracking number '', dquoted trackingNumber, Txt '' not found'']"

definition findByOrderId :: "uuid \<Rightarrow> shipping \<Rightarrow> error + shipment" where
  "findByOrderId orderId =
     find_shipment (\<lambda>x. sh_orderId x = orderId) [Txt ''Shipment for order '', dquoted orderId, Txt '' not found'']"

definition findShipmentById :: "uuid \<Rightarrow> shipping \<Rightarrow> error + shipment" where
  "findShipmentById i = find_shipment (\<lambda>x. sh_id x = i) [Txt ''Shipment with ID '', dquoted i, Txt '' not found'']"

subsection \<open>Histories beside the operations on orders\<close>

datatype ship_op =
    Ship uuid time create_shipment_dto
  | Move time uuid shipment_status "string option"
  | Order_op "db \<Rightarrow> db"

primrec run_ship :: "ship_op \<Rightarrow> shipping \<Rightarrow> shipping" where
  "run_ship (Ship i now dto) s = snd (createShipment i now dto s)"
| "run_ship (Move now i status notes) s = snd (updateShipmentStatus now i status notes s)"
| "run_ship (Order_op f) s = s\<lparr>shop_db := f (shop_db s)\<rparr>"

subsection \<open>What a step does\<close>

lemma on_db_simps [simp]:
  "on_db f s = (Inr r, t) \<longleftrightarrow> (\<exists>d. f (shop_db s) = (Inr r, d) \<and> t = s\<lparr>shop_db := d\<rparr>)"
  "shipments (snd (on_db f s)) = shipments s" "ship_events (snd (on_db f s)) = ship_events s"
  by (auto simp: on_db_def split: prod.splits)

lemma rounded_shipment_simps [simp]:
  "sh_id (rounded_shipment x) = sh_id x" "sh_orderId (rounded_shipment x) = sh_orderId x" "sh_status (rounded_shipment x) = sh_status x"
  "sh_estimatedDeliveryDate (rounded_shipment x) = sh_estimatedDeliveryDate x"
  "sh_trackingNumber (rounded_shipment x) = sh_trackingNumber x"
  by (simp_all add: rounded_shipment_def)

lemma save_shipment_Inr [simp]:
  "save_shipment x s = (Inr y, t) \<longleftrightarrow> y = x \<and> \<not> wide_number (sh_weight (rounded_shipment x))
     \<and> \<not> wide_number (sh_shippingCost (rounded_shipment x)) \<and> t = s\<lparr>shipments := tbl_save sh_id (rounded_shipment x) (shipments s)\<rparr>"
  by (auto simp: save_shipment_def Let_def)

lemma save_shipment_rows:
  "shipments (snd (save_shipment x s)) \<in> {shipments s, tbl_save sh_id (rounded_shipment x) (shipments s)}"
  by (auto simp: save_shipment_def Let_def)

lemma and_then_rows:
  "(\<And>x u. shipments (snd (k x u)) = shipments u) \<Longrightarrow> shipments (snd (and_then r k)) = shipments (snd r)"
  by (simp add: and_then_def split: sum.split)

lemma createShipment_rows:
  obtains "shipments (snd (createShipment newId now dto s)) = shipments s"
  | estimate where "\<not> (\<exists>x \<in> set (shipments s). sh_orderId x = cs_orderId dto)"
      "shipments (snd (createShipment newId now dto s)) = tbl_save sh_id (rounded_shipment (new_shipment newId now estimate dto)) (shipments s)"
proof -
  let ?r = "\<lambda>estimate order. and_then (save_shipment (new_shipment newId now estimate dto) s) (\<lambda>savedShipment s.
            and_then (on_db (save_order (order\<lparr>o_status := OS_SHIPPED, o_trackingNumber := Some (cs_trackingNumber dto),
                o_shippedAt := Some now\<rparr>)) s) (\<lambda>_ s.
              (Inr savedShipment, s\<lparr>ship_events := ship_events s @ [ShipmentCreatedEvent (sh_id savedShipment) (o_id order)
                 (sh_trackingNumber savedShipment) (sh_carrier savedShipment)]\<rparr>)))"
  have "shipments (snd (?r e ord)) = shipments (snd (save_shipment (new_shipment newId now e dto) s))" for e ord
    by (intro and_then_rows) (simp add: and_then_rows)
  then show ?thesis
    using that save_shipment_rows [of "new_shipment newId now _ dto" s]
    unfolding createShipment_def by (fastforce split: option.splits sum.splits if_splits)
qed

lemma updateShipmentStatus_rows:
  obtains "shipments (snd (updateShipmentStatus now i status notes s)) = shipments s"
  | x where "tbl_find sh_id i (shipments s) = Some x" "status \<in> set (shipmentTransitions (sh_status x))"
      "shipments (snd (updateShipmentStatus now i status notes s)) = tbl_save sh_id (rounded_shipment (moved_shipment now status notes x)) (shipments s)"
proof -
  have sync: "shipments (snd (syncOrderStatus now k st u)) = shipments u" for k st u
    by (auto simp: syncOrderStatus_def and_then_rows split: option.split)
  let ?r = "\<lambda>x. and_then (save_shipment (moved_shipment now status notes x) s) (\<lambda>updatedShipment s.
          and_then (syncOrderStatus now (sh_orderId x) status s) (\<lambda>_ s.
            (Inr updatedShipment, s\<lparr>ship_events := ship_events s @ [ShipmentStatusUpdatedEvent i (sh_orderId x) status (sh_status x)]\<rparr>)))"
  have "shipments (snd (?r x)) = shipments (snd (save_shipment (moved_shipment now status notes x) s))" for x
    by (intro and_then_rows) (simp add: and_then_rows sync)
  then show ?thesis
    using that save_shipment_rows [of "moved_shipment now status notes _" s]
    unfolding updateShipmentStatus_def isValidShipmentTransition_def by (fastforce split: option.splits if_splits)
qed

lemma moved_simps [simp]:
  "sh_id (moved_shipment now status notes x) = sh_id x" "sh_orderId (moved_shipment now status notes x) = sh_orderId x"
  by (simp_all add: moved_shipment_def)

lemma new_shipment_simps [simp]:
  "sh_id (new_shipment newId now e dto) = newId" "sh_orderId (new_shipment newId now e dto) = cs_orderId dto"
  by (simp_all add: new_shipment_def)

subsection \<open>One shipment per order, and its end\<close>

definition ships_ok :: "shipping \<Rightarrow> bool" where
  "ships_ok s \<longleftrightarrow> distinct (map sh_id (shipments s)) \<and> distinct (map sh_orderId (shipments s))"

fun fresh_ships :: "ship_op list \<Rightarrow> shipping \<Rightarrow> bool" where
  "fresh_ships [] s \<longleftrightarrow> True"
| "fresh_ships (x # xs) s \<longleftrightarrow>
     (case x of Ship i now dto \<Rightarrow> i \<notin> sh_id ` set (shipments s) | _ \<Rightarrow> True) \<and> fresh_ships xs (run_ship x s)"

text \<open>A shipment that was delivered or returned.\<close>

definition settled_shipment :: "shipment \<Rightarrow> bool" where
  "settled_shipment x \<longleftrightarrow> sh_status x = SH_DELIVERED \<or> sh_status x = SH_RETURNED"

lemma settled_terminal: "settled_shipment x \<longleftrightarrow> shipmentTransitions (sh_status x) = []"
  by (cases "sh_status x") (simp_all add: settled_shipment_def)

text \<open>What the shipments keep from one state to a later one.\<close>

definition ships_kept :: "shipping \<Rightarrow> shipping \<Rightarrow> bool" where
  "ships_kept s t \<longleftrightarrow> sh_orderId ` set (shipments s) \<subseteq> sh_orderId ` set (shipments t)
     \<and> {x \<in> set (shipments s). settled_shipment x} \<subseteq> set (shipments t)"

lemma ships_kept_trans:
  assumes "ships_kept s t" "ships_kept t u" shows "ships_kept s u"
proof -
  have "x \<in> set (shipments u)" if "x \<in> set (shipments s)" "settled_shipment x" for x
    using assms that by (auto simp: ships_kept_def)
  moreover have "sh_orderId ` set (shipments s) \<subseteq> sh_orderId ` set (shipments u)"
    using assms unfolding ships_kept_def by (meson subset_trans)
  ultimately show ?thesis unfolding ships_kept_def by blast
qed

lemma rows_step:
  assumes "ships_ok s" "fresh_ships [op] s"
  shows "ships_ok (run_ship op s) \<and> ships_kept s (run_ship op s)"
proof (cases op)
  case (Ship i now dto)
  then have new: "tbl_find sh_id i (shipments s) = None" using assms(2) by (simp add: tbl_find_none_iff)
  show ?thesis
  proof (rule createShipment_rows [of i now dto s])
    fix e
    let ?x = "rounded_shipment (new_shipment i now e dto)"
    assume none: "\<not> (\<exists>x \<in> set (shipments s). sh_orderId x = cs_orderId dto)"
      and rows: "shipments (snd (createShipment i now dto s)) = tbl_save sh_id ?x (shipments s)"
    have "tbl_save sh_id ?x (shipments s) = shipments s @ [?x]" by (rule tbl_save_new) (simp add: new)
    moreover have "i \<notin> sh_id ` set (shipments s)" using new by (simp add: tbl_find_none_iff)
    ultimately show ?thesis using assms(1) none Ship rows by (auto simp: ships_ok_def ships_kept_def)
  qed (use assms(1) Ship in \<open>auto simp: ships_ok_def ships_kept_def\<close>)
next
  case (Move now i status memo)
  show ?thesis
  proof (rule updateShipmentStatus_rows [of now i status memo s])
    fix x
    let ?x = "rounded_shipment (moved_shipment now status memo x)"
    assume old: "tbl_find sh_id i (shipments s) = Some x" and step: "status \<in> set (shipmentTransitions (sh_status x))"
      and rows: "shipments (snd (updateShipmentStatus now i status memo s)) = tbl_save sh_id ?x (shipments s)"
    have i: "sh_id x = i" using old by (rule tbl_find_key)
    have keys: "map f (tbl_save sh_id ?x (shipments s)) = map f (shipments s)" if "f ?x = f x" for f :: "shipment \<Rightarrow> uuid"
      using tbl_save_map [of sh_id ?x "shipments s" x f] old i that by simp
    have "y \<in> set (tbl_save sh_id ?x (shipments s))" if y: "y \<in> set (shipments s)" "settled_shipment y" for y
    proof -
      have "y \<noteq> x" using step y(2) by (auto simp: settled_terminal)
      moreover have "tbl_find sh_id (sh_id y) (shipments s) = Some y"
        using assms(1) y(1) by (intro tbl_find_distinct) (simp_all add: ships_ok_def)
      ultimately have "sh_id y \<noteq> i" using old by auto
      with \<open>tbl_find sh_id (sh_id y) (shipments s) = Some y\<close> have "tbl_find sh_id (sh_id y) (tbl_save sh_id ?x (shipments s)) = Some y"
        by (simp add: i)
      then show ?thesis by (rule tbl_find_mem)
    qed
    moreover have "sh_orderId ` set (tbl_save sh_id ?x (shipments s)) = sh_orderId ` set (shipments s)"
      using arg_cong [OF keys [of sh_orderId], of set] by simp
    ultimately show ?thesis using assms(1) Move rows keys [of sh_id] keys [of sh_orderId] by (auto simp: ships_ok_def ships_kept_def)
  qed (use assms(1) Move in \<open>auto simp: ships_ok_def ships_kept_def\<close>)
qed (use assms(1) in \<open>auto simp: ships_ok_def ships_kept_def\<close>)

lemma rows_history:
  "ships_ok s \<Longrightarrow> fresh_ships ops s \<Longrightarrow> ships_ok (fold run_ship ops s) \<and> ships_kept s (fold run_ship ops s)"
proof (induction ops arbitrary: s)
  case (Cons op ops)
  have fresh: "fresh_ships [op] s" "fresh_ships ops (run_ship op s)" using Cons.prems(2) by auto
  have now: "ships_ok (run_ship op s)" "ships_kept s (run_ship op s)" using rows_step [OF Cons.prems(1) fresh(1)] by simp_all
  then show ?case using Cons.IH [OF now(1) fresh(2)] ships_kept_trans by auto
qed (simp add: ships_kept_def)

lemma fresh_ships_append: "fresh_ships (xs @ ys) s \<longleftrightarrow> fresh_ships xs s \<and> fresh_ships ys (fold run_ship xs s)"
  by (induction xs arbitrary: s) auto

text \<open>
  Property C19: whatever else happens to the orders, an order has at most one shipment; a shipment
  that was delivered or returned stays as it is for ever; and once an order has a shipment, no
  later request creates another one for it, not even after the shipment failed or came back.
\<close>

theorem one_shipment_per_order:
  assumes "shipments s = []" "fresh_ships (xs @ ys) s" "t = fold run_ship xs s" "u = fold run_ship ys t"
  shows "distinct (map sh_orderId (shipments t))
     \<and> (\<forall>x \<in> set (shipments t). settled_shipment x \<longrightarrow> x \<in> set (shipments u))
     \<and> (\<forall>x \<in> set (shipments t). \<forall>i now dto. cs_orderId dto = sh_orderId x \<longrightarrow>
          (\<exists>e. createShipment i now dto u = (Inl e, u)))"
proof -
  have "ships_ok s" using assms(1) by (simp add: ships_ok_def)
  then have t: "ships_ok t" using rows_history [of s xs] assms(2,3) by (simp add: fresh_ships_append)
  then have u: "sh_orderId ` set (shipments t) \<subseteq> sh_orderId ` set (shipments u)"
      "{x \<in> set (shipments t). settled_shipment x} \<subseteq> set (shipments u)"
    using rows_history [OF t, of ys] assms(2-4) by (simp_all add: fresh_ships_append ships_kept_def)
  have "\<exists>e. createShipment i now dto u = (Inl e, u)" if "x \<in> set (shipments t)" "cs_orderId dto = sh_orderId x" for x i now dto
  proof -
    have "\<exists>y \<in> set (shipments u). sh_orderId y = cs_orderId dto" using u(1) that by (metis image_iff subsetD)
    then show ?thesis unfolding createShipment_def by (simp split: option.split)
  qed
  with t u show ?thesis by (auto simp: ships_ok_def)
qed

subsection \<open>The orders\<close>

text \<open>
  A shipment is created only for a paid order without one; it marks that order as
  shipped with the tracking number, changes no other order, and without a date of the request the
  delivery is promised from three to fourteen days from now.
\<close>

lemma shipment_created_effect:
  assumes "createShipment newId now dto s = (Inr x, t)"
  shows "(\<exists>ord. tbl_find o_id (cs_orderId dto) (orders (shop_db s)) = Some ord \<and> o_status ord = OS_PAID)
     \<and> (\<exists>ord'. tbl_find o_id (cs_orderId dto) (orders (shop_db t)) = Some ord' \<and> o_status ord' = OS_SHIPPED
          \<and> o_trackingNumber ord' = Some (cs_trackingNumber dto) \<and> o_shippedAt ord' = Some now)
     \<and> (\<forall>k. k \<noteq> cs_orderId dto \<longrightarrow> tbl_find o_id k (orders (shop_db t)) = tbl_find o_id k (orders (shop_db s)))
     \<and> sh_status x = SH_LABEL_CREATED \<and> sh_orderId x = cs_orderId dto
     \<and> tbl_find sh_id newId (shipments t) = Some (rounded_shipment x)
     \<and> (cs_estimatedDeliveryDate dto = None \<longrightarrow>
          (\<exists>days \<in> {3..14}. sh_estimatedDeliveryDate x = Some (now + days * day_ms)))"
proof -
  obtain ord where ord: "tbl_find o_id (cs_orderId dto) (orders (shop_db s)) = Some ord"
    using assms by (auto simp: createShipment_def split: option.splits)
  then have key: "o_id ord = cs_orderId dto" by (rule tbl_find_key)
  obtain est where est: "(case cs_estimatedDeliveryDate dto of Some t \<Rightarrow> Inr t
      | None \<Rightarrow> calculateEstimatedDelivery now (cs_carrier dto)) = Inr est"
    using assms ord by (auto simp: createShipment_def split: if_splits sum.splits)
  have paid: "o_status ord = OS_PAID"
    and x: "x = new_shipment newId now est dto"
    and t: "orders (shop_db t) = tbl_save o_id (rounded_order (ord\<lparr>o_status := OS_SHIPPED, o_trackingNumber := Some (cs_trackingNumber dto),
                o_shippedAt := Some now\<rparr>)) (orders (shop_db s))"
      "shipments t = tbl_save sh_id (rounded_shipment x) (shipments s)"
    using assms ord est by (auto simp: createShipment_def and_then_Inr_iff save_order_Inr split: if_splits)
  have "\<exists>days \<in> {3..14}. est = now + days * day_ms" if "cs_estimatedDeliveryDate dto = None"
    using est that by (cases "cs_carrier dto")
      (auto simp: calculateEstimatedDelivery_def getEstimatedDelivery_def carrierDetails_def setDate_shift Let_def)
  then show ?thesis using ord paid x t key
    by (auto simp: new_shipment_def rounded_order_def)
qed

text \<open>
  The buyer of an order that has been shipped may cancel it, and its stock goes back on
  sale; when the parcel then arrives the order counts as delivered, a change the table of the
  orders refuses, and the stock stays on sale.
\<close>

lemma delivery_revives_cancelled_order:
  assumes "cancelOrder (sh_orderId x) buyer now (shop_db s) = (Inr r, d)"
    and "updateShipmentStatus later (sh_id x) SH_DELIVERED notes (s\<lparr>shop_db := d\<rparr>) = (Inr y, t)"
    and "tbl_find sh_id (sh_id x) (shipments s) = Some x"
  shows "(\<exists>ord. tbl_find o_id (sh_orderId x) (orders d) = Some ord \<and> o_status ord = OS_CANCELLED)
     \<and> (\<exists>ord. tbl_find o_id (sh_orderId x) (orders (shop_db t)) = Some ord \<and> o_status ord = OS_DELIVERED
          \<and> o_deliveredAt ord = Some later)
     \<and> validate orderTransitionValidator OS_CANCELLED OS_DELIVERED \<noteq> Inr ()
     \<and> products (shop_db t) = products d"
proof -
  obtain ord where ord: "tbl_find o_id (sh_orderId x) (orders d) = Some ord" "o_status ord = OS_CANCELLED"
  proof -
    obtain o' where o': "tbl_find o_id (sh_orderId x) (orders (shop_db s)) = Some o'"
      and run: "and_then (for_each (release_line buyer now) (o_items o') (shop_db s))
             (\<lambda>_ s1. save_order (o'\<lparr>o_status := OS_CANCELLED, o_cancelledAt := Some now\<rparr>) s1) = (Inr r, d)"
      using assms(1) unfolding cancelOrder_def transaction_Inr_iff by (auto split: option.splits if_splits)
    have "o_id o' = sh_orderId x" using o' by (rule tbl_find_key)
    with run that show ?thesis by (auto simp: and_then_Inr_iff save_order_Inr)
  qed
  have "o_id ord = sh_orderId x" using ord(1) by (rule tbl_find_key)
  moreover have "shop_db t = d\<lparr>orders := tbl_save o_id (rounded_order (ord\<lparr>o_status := OS_DELIVERED, o_deliveredAt := Some later\<rparr>)) (orders d)\<rparr>"
    using assms(2,3) ord by (auto simp: updateShipmentStatus_def syncOrderStatus_def and_then_Inr_iff save_order_Inr split: if_splits)
  ultimately show ?thesis using ord by simp
qed

subsection \<open>Witnesses\<close>

definition parcel_dto :: create_shipment_dto where
  "parcel_dto = \<lparr>cs_orderId = ''o'', cs_carrier = DHL, cs_trackingNumber = ''T1'',
     cs_shippingAddress = \<lparr>sa_street = ''Main'', sa_city = ''X'', sa_state = ''Y'', sa_postalCode = ''1'', sa_country = ''Z''\<rparr>,
     cs_weight = Some 2, cs_dimensions = None, cs_shippingCost = None, cs_estimatedDeliveryDate = None, cs_labelUrl = None,
     cs_notes = None\<rparr>"

definition parcel_order :: "order_status \<Rightarrow> order_row" where
  "parcel_order st = (new_order ''o'' 0 (sample_order_dto USD) USD [] 60)\<lparr>o_status := st\<rparr>"

definition depot :: "order_status \<Rightarrow> shipping" where
  "depot st = \<lparr>shop_db = empty_db\<lparr>orders := [parcel_order st]\<rparr>, shipments = [], ship_events = []\<rparr>"

lemma parcel_order_stored: "stored (parcel_order st)"
proof -
  have "\<lfloor>12001 / 2 :: number\<rfloor> = 6000" by code_simp
  then show ?thesis
    by (simp add: stored_def write_order_def order_amounts_def rounded_order_def parcel_order_def new_order_def sample_order_dto_def
      round_to_def sgn_if)
qed

lemma parcel_order_saved:
  "order_amounts r = order_amounts (parcel_order OS_PAID) \<Longrightarrow> o_currency r = USD \<Longrightarrow>
   save_order r s = (Inr r, s\<lparr>orders := tbl_save o_id r (orders s)\<rparr>)"
  using stored_keeps [OF parcel_order_stored [of OS_PAID]] by (intro save_stored) (simp add: parcel_order_def new_order_def)

lemma parcel_amounts [simp]: "order_amounts (parcel_order st) = order_amounts (parcel_order OS_PAID)" if "st \<noteq> OS_PAID"
  by (simp add: parcel_order_def order_amounts_def)

lemma amounts_updates [simp]:
  "order_amounts (r\<lparr>o_status := a\<rparr>) = order_amounts r" "order_amounts (r\<lparr>o_trackingNumber := b\<rparr>) = order_amounts r"
  "order_amounts (r\<lparr>o_shippedAt := c\<rparr>) = order_amounts r" "order_amounts (r\<lparr>o_cancelledAt := d\<rparr>) = order_amounts r"
  "order_amounts (r\<lparr>o_deliveredAt := e\<rparr>) = order_amounts r"
  by (simp_all add: order_amounts_def)

lemma parcel_order_simps [simp]: "o_id (parcel_order st) = ''o''" "o_status (parcel_order st) = st" "o_items (parcel_order st) = []"
  "o_buyerId (parcel_order st) = ''b''" "o_currency (parcel_order st) = USD"
  by (simp_all add: parcel_order_def new_order_def sample_order_dto_def)

lemma parcel_created: "\<exists>x t. createShipment ''s1'' 7 parcel_dto (depot OS_PAID) = (Inr x, t)"
proof -
  obtain e where e: "calculateEstimatedDelivery 7 DHL = Inr e"
    by (simp add: calculateEstimatedDelivery_def getEstimatedDelivery_def carrierDetails_def Let_def)
  have "wide_number (sh_weight (rounded_shipment (new_shipment ''s1'' 7 e parcel_dto))) = False"
    "wide_number (sh_shippingCost (rounded_shipment (new_shipment ''s1'' 7 e parcel_dto))) = False"
    by (simp_all add: wide_number_def rounded_shipment_def new_shipment_def parcel_dto_def round_to_def sgn_if)
  then show ?thesis
    by (simp add: createShipment_def depot_def parcel_dto_def e save_shipment_def on_db_def parcel_order_saved Let_def)
qed

theorem shipment_created_effect_witness:
  "\<exists>x t. createShipment ''s1'' 7 parcel_dto (depot OS_PAID) = (Inr x, t)
     \<and> (\<exists>ord. tbl_find o_id ''o'' (orders (shop_db t)) = Some ord \<and> o_status ord = OS_SHIPPED)"
proof -
  obtain x t where run: "createShipment ''s1'' 7 parcel_dto (depot OS_PAID) = (Inr x, t)" using parcel_created by blast
  have "cs_orderId parcel_dto = ''o''" by (simp add: parcel_dto_def)
  with run shipment_created_effect [OF run] show ?thesis by metis
qed

theorem one_shipment_per_order_witness:
  "distinct (map sh_orderId (shipments (fold run_ship [Ship ''s1'' 7 parcel_dto] (depot OS_PAID))))"
proof -
  have "shipments (depot OS_PAID) = []" by (simp add: depot_def)
  moreover have "fresh_ships ([Ship ''s1'' 7 parcel_dto] @ [Move 8 ''s1'' SH_FAILED None, Order_op id]) (depot OS_PAID)"
    by (simp add: depot_def)
  ultimately show ?thesis using one_shipment_per_order [OF _ _ refl refl] by blast
qed

definition parcel :: shipment where
  "parcel = (new_shipment ''s1'' 7 8 parcel_dto)\<lparr>sh_status := SH_OUT_FOR_DELIVERY\<rparr>"

theorem delivery_revives_cancelled_order_witness:
  "\<exists>d y t. cancelOrder ''o'' ''b'' 9 (shop_db (depot OS_SHIPPED)) = (Inr (parcel_order OS_SHIPPED\<lparr>o_status := OS_CANCELLED, o_cancelledAt := Some 9\<rparr>), d)
     \<and> updateShipmentStatus 9 ''s1'' SH_DELIVERED None ((depot OS_SHIPPED)\<lparr>shipments := [parcel], shop_db := d\<rparr>) = (Inr y, t)
     \<and> (\<exists>ord. tbl_find o_id ''o'' (orders (shop_db t)) = Some ord \<and> o_status ord = OS_DELIVERED)"
proof -
  let ?s = "(depot OS_SHIPPED)\<lparr>shipments := [parcel]\<rparr>"
  let ?r = "parcel_order OS_SHIPPED\<lparr>o_status := OS_CANCELLED, o_cancelledAt := Some 9\<rparr>"
  let ?d = "empty_db\<lparr>orders := [?r]\<rparr>"
  have keys: "sh_orderId parcel = ''o''" "sh_id parcel = ''s1''" "sh_status parcel = SH_OUT_FOR_DELIVERY"
    by (simp_all add: parcel_def parcel_dto_def)
  have cancel: "cancelOrder ''o'' ''b'' 9 (shop_db ?s) = (Inr ?r, ?d)"
    by (simp add: cancelOrder_def transaction_def depot_def parcel_order_saved empty_db_def)
  have "wide_number (sh_weight (rounded_shipment (moved_shipment 9 SH_DELIVERED None parcel))) = False"
    "wide_number (sh_shippingCost (rounded_shipment (moved_shipment 9 SH_DELIVERED None parcel))) = False"
    by (simp_all add: wide_number_def rounded_shipment_def moved_shipment_def parcel_def new_shipment_def parcel_dto_def round_to_def sgn_if)
  then obtain y t where run: "updateShipmentStatus 9 ''s1'' SH_DELIVERED None (?s\<lparr>shop_db := ?d\<rparr>) = (Inr y, t)"
    by (simp add: updateShipmentStatus_def keys isValidShipmentTransition_def syncOrderStatus_def save_shipment_def on_db_def
        parcel_order_saved Let_def)
  have found: "tbl_find sh_id (sh_id parcel) (shipments ?s) = Some parcel" by simp
  from delivery_revives_cancelled_order [of parcel "''b''" 9 ?s, unfolded keys, OF cancel run found [unfolded keys]] cancel run
  show ?thesis by (auto simp: depot_def)
qed

end
