(* ===== verification/Verification.thy ===== *)
theory Verification
  imports Products Retry DeadLetter
begin

text \<open>
  \<open>VerificationService\<close> (src/src/verification/verification.service.ts): the verifications of
  users, the review of administrators, the daily expiry and the figures that a user's row carries;
  and the seller guard and the legacy route that starts a verification. New identifiers, the clock
  and the files that \<open>DocumentStorageService\<close> stored are parameters.
\<close>

subsection \<open>Rows\<close>

datatype verification_type = VT_EMAIL | VT_PHONE | VT_IDENTITY | VT_SELLER | VT_BUSINESS

datatype verification_status = VS_PENDING | VS_UNDER_REVIEW | VS_VERIFIED | VS_REJECTED | VS_EXPIRED | VS_REQUIRES_ACTION

datatype verification_level = VL_BASIC | VL_STANDARD | VL_PREMIUM | VL_VERIFIED_SELLER

datatype document_type = ID_CARD | PASSPORT | DRIVERS_LICENSE | BUSINESS_LICENSE | TAX_DOCUMENT | ADDRESS_PROOF | BANK_STATEMENT

datatype verification_step = STEP_PERSONAL_INFO | STEP_DOCUMENT_UPLOAD | STEP_BUSINESS_VERIFICATION | STEP_ADMIN_REVIEW | STEP_COMPLETED

record personal_info =
  pi_firstName :: string
  pi_lastName :: string
  pi_dateOfBirth :: string
  pi_address :: string
  pi_city :: string
  pi_country :: string
  pi_postalCode :: string

record business_info =
  bi_businessName :: string
  bi_businessType :: string
  bi_registrationNumber :: string
  bi_taxId :: string
  bi_businessAddress :: string
  bi_website :: "string option"
  bi_description :: "string option"

record document =
  doc_url :: string
  doc_type :: document_type
  doc_uploadedAt :: time
  doc_verified :: bool
  doc_iv :: "string option"
  doc_authTag :: "string option"

type_synonym documents = "(document_type \<times> document) list"

record verification =
  vf_id :: nat
  vf_userId :: nat
  vf_type :: verification_type
  vf_status :: verification_status
  vf_level :: verification_level
  vf_currentStep :: verification_step
  vf_personalInfo :: "personal_info option"
  vf_businessInfo :: "business_info option"
  vf_documents :: "documents option"
  vf_adminNotes :: "string option"
  vf_rejectionReason :: "string option"
  vf_expiresAt :: "time option"
  vf_reviewedBy :: "nat option"
  vf_verifiedAt :: "time option"
  vf_retryCount :: nat
  vf_metadata :: "jobject option"
  vf_createdAt :: time

text \<open>The columns of a user's row that the service writes.\<close>

record verified_user =
  vu_id :: nat
  vu_verificationStatus :: "verification_status option"
  vu_verificationLevel :: verification_level
  vu_isVerifiedSeller :: bool
  vu_trustScore :: nat
  vu_verificationExpiryAt :: "time option"

record verifications =
  vs_rows :: "verification list"
  vs_users :: "verified_user list"

definition rows_of :: "nat \<Rightarrow> verifications \<Rightarrow> verification list" where
  "rows_of userId s = filter (\<lambda>v. vf_userId v = userId) (vs_rows s)"

text \<open>An update of a missing row changes nothing.\<close>

definition update_user :: "nat \<Rightarrow> (verified_user \<Rightarrow> verified_user) \<Rightarrow> verifications \<Rightarrow> verifications" where
  "update_user userId f s = s\<lparr>vs_users := map (\<lambda>u. if vu_id u = userId then f u else u) (vs_users s)\<rparr>"

subsection \<open>The figures of a user\<close>

definition valid_now :: "time \<Rightarrow> verification \<Rightarrow> bool" where
  "valid_now now v \<longleftrightarrow> vf_status v = VS_VERIFIED \<and> (case vf_expiresAt v of None \<Rightarrow> True | Some t \<Rightarrow> t > now)"

fun type_score :: "verification_type \<Rightarrow> nat" where
  "type_score VT_EMAIL = 10"
| "type_score VT_PHONE = 20"
| "type_score VT_IDENTITY = 40"
| "type_score VT_SELLER = 60"
| "type_score VT_BUSINESS = 50"

definition score_of :: "time \<Rightarrow> verification list \<Rightarrow> nat" where
  "score_of now vs = fold (\<lambda>v score. if valid_now now v then score + type_score (vf_type v) else score) vs 0"

definition calculateTrustScore :: "time \<Rightarrow> nat \<Rightarrow> verifications \<Rightarrow> nat \<times> verifications" where
  "calculateTrustScore now userId s =
     (let score = score_of now (rows_of userId s)
      in (score, update_user userId (\<lambda>u. u\<lparr>vu_trustScore := score\<rparr>) s))"

definition getHighestVerificationLevel :: "time \<Rightarrow> verification list \<Rightarrow> verification_level" where
  "getHighestVerificationLevel now vs =
     (let validVerifications = filter (valid_now now) vs
      in if \<exists>v \<in> set validVerifications. vf_type v = VT_SELLER then VL_VERIFIED_SELLER
         else if \<exists>v \<in> set validVerifications. vf_type v = VT_IDENTITY then VL_PREMIUM
         else if \<exists>v \<in> set validVerifications. vf_type v = VT_PHONE then VL_STANDARD
         else VL_BASIC)"

definition getEarliestExpiryDate :: "verification list \<Rightarrow> time option" where
  "getEarliestExpiryDate vs =
     (case concat (map (\<lambda>v. case vf_expiresAt v of None \<Rightarrow> [] | Some t \<Rightarrow> if vf_status v = VS_VERIFIED then [t] else []) vs) of
        [] \<Rightarrow> None
      | t # ts \<Rightarrow> Some (fold min ts t))"

definition verified_seller :: "time \<Rightarrow> verification list \<Rightarrow> bool" where
  "verified_seller now vs \<longleftrightarrow> (\<exists>v \<in> set vs. vf_type v = VT_SELLER \<and> valid_now now v)"

text \<open>A column set to \<open>undefined\<close> keeps its value.\<close>

definition user_figures :: "time \<Rightarrow> verification list \<Rightarrow> nat \<Rightarrow> verified_user \<Rightarrow> verified_user" where
  "user_figures now vs trustScore u =
     (let hasValidVerification = (\<exists>v \<in> set vs. valid_now now v)
      in u\<lparr>vu_verificationStatus := Some (if hasValidVerification then VS_VERIFIED else VS_PENDING),
           vu_verificationLevel := getHighestVerificationLevel now vs, vu_isVerifiedSeller := verified_seller now vs,
           vu_trustScore := trustScore,
           vu_verificationExpiryAt := (case getEarliestExpiryDate vs of None \<Rightarrow> vu_verificationExpiryAt u | Some t \<Rightarrow> Some t)\<rparr>)"

definition updateUserVerificationStatus :: "time \<Rightarrow> nat \<Rightarrow> verifications \<Rightarrow> verifications" where
  "updateUserVerificationStatus now userId s =
     (let vs = rows_of userId s; (trustScore, s) = calculateTrustScore now userId s
      in update_user userId (user_figures now vs trustScore) s)"

definition save_verification :: "time \<Rightarrow> verification \<Rightarrow> verifications \<Rightarrow> (verification, verifications) result" where
  "save_verification now v s =
     (Inr v, updateUserVerificationStatus now (vf_userId v) (s\<lparr>vs_rows := tbl_save vf_id v (vs_rows s)\<rparr>))"

subsection \<open>Submitting\<close>

record document_upload_dto =
  du_documentType :: document_type
  du_documentUrl :: string

record submit_dto =
  sv_verificationType :: verification_type
  sv_personalInfo :: "personal_info option"
  sv_businessInfo :: "business_info option"
  sv_documents :: "document_upload_dto list option"

definition new_verification :: "nat \<Rightarrow> time \<Rightarrow> nat \<Rightarrow> verification_type \<Rightarrow> verification" where
  "new_verification newId now userId vt =
     \<lparr>vf_id = newId, vf_userId = userId, vf_type = vt, vf_status = VS_PENDING, vf_level = VL_BASIC,
      vf_currentStep = STEP_PERSONAL_INFO, vf_personalInfo = None, vf_businessInfo = None, vf_documents = None,
      vf_adminNotes = None, vf_rejectionReason = None, vf_expiresAt = None, vf_reviewedBy = None, vf_verifiedAt = None,
      vf_retryCount = 0, vf_metadata = None, vf_createdAt = now\<rparr>"

definition with_personal_info :: "submit_dto \<Rightarrow> verification \<Rightarrow> verification" where
  "with_personal_info dto v = (case sv_personalInfo dto of
       None \<Rightarrow> v
     | Some info \<Rightarrow> v\<lparr>vf_personalInfo := Some info, vf_currentStep := STEP_DOCUMENT_UPLOAD\<rparr>)"

definition with_business_info :: "submit_dto \<Rightarrow> verification \<Rightarrow> verification" where
  "with_business_info dto v = (case sv_businessInfo dto of
       Some info \<Rightarrow> if sv_verificationType dto = VT_SELLER
         then v\<lparr>vf_businessInfo := Some info, vf_currentStep := STEP_DOCUMENT_UPLOAD\<rparr> else v
     | None \<Rightarrow> v)"

definition with_documents :: "time \<Rightarrow> submit_dto \<Rightarrow> verification \<Rightarrow> verification" where
  "with_documents now dto v =
     (let docs = (case sv_documents dto of None \<Rightarrow> [] | Some ds \<Rightarrow> ds)
      in if docs = [] then v
         else v\<lparr>vf_documents := Some (fold (\<lambda>d m. map_set (du_documentType d)
                  \<lparr>doc_url = du_documentUrl d, doc_type = du_documentType d, doc_uploadedAt = now, doc_verified = False,
                   doc_iv = None, doc_authTag = None\<rparr> m) docs (case vf_documents v of None \<Rightarrow> [] | Some m \<Rightarrow> m)),
                vf_currentStep := STEP_ADMIN_REVIEW, vf_status := VS_UNDER_REVIEW\<rparr>)"

definition submitVerification :: "nat \<Rightarrow> time \<Rightarrow> nat \<Rightarrow> submit_dto \<Rightarrow> verifications \<Rightarrow> (verification, verifications) result" where
  "submitVerification newId now userId dto s =
     (let existing = List.find (\<lambda>v. vf_userId v = userId \<and> vf_type v = sv_verificationType dto) (vs_rows s)
      in case existing of
           Some v \<Rightarrow>
             if vf_status v = VS_VERIFIED then (Inl (BadRequestException [Txt ''User is already verified for this type'']), s)
             else save_verification now (with_documents now dto (with_business_info dto (with_personal_info dto v))) s
         | None \<Rightarrow>
             save_verification now (with_documents now dto (with_business_info dto (with_personal_info dto
               (new_verification newId now userId (sv_verificationType dto))))) s)"

text \<open>The legacy route takes the user from the body.\<close>

definition startVerification :: "nat \<Rightarrow> time \<Rightarrow> nat \<Rightarrow> verification_type \<Rightarrow> verifications \<Rightarrow> (verification, verifications) result" where
  "startVerification newId now body_userId body_type =
     submitVerification newId now body_userId \<lparr>sv_verificationType = body_type,
       sv_personalInfo = Some \<lparr>pi_firstName = '''', pi_lastName = '''', pi_dateOfBirth = '''', pi_address = '''',
         pi_city = '''', pi_country = '''', pi_postalCode = ''''\<rparr>,
       sv_businessInfo = None, sv_documents = None\<rparr>"

subsection \<open>Documents\<close>

definition getDocumentTypeFromFilename :: "string \<Rightarrow> document_type" where
  "getDocumentTypeFromFilename filename =
     (let lowerFilename = lower_text filename
      in if includes_text lowerFilename ''passport'' then PASSPORT
         else if includes_text lowerFilename ''driver'' \<or> includes_text lowerFilename ''license'' then DRIVERS_LICENSE
         else if includes_text lowerFilename ''business'' \<or> includes_text lowerFilename ''license'' then BUSINESS_LICENSE
         else if includes_text lowerFilename ''tax'' then TAX_DOCUMENT
         else if includes_text lowerFilename ''bank'' then BANK_STATEMENT
         else if includes_text lowerFilename ''address'' then ADDRESS_PROOF
         else ID_CARD)"

text \<open>A file with what the storage answered for it.\<close>

record stored_file =
  sf_filename :: string
  sf_uploadedAt :: time
  sf_iv :: string
  sf_authTag :: string

fun store_files :: "(string \<times> (error + stored_file)) list \<Rightarrow> documents \<Rightarrow> error + documents" where
  "store_files [] m = Inr m"
| "store_files ((originalname, Inl e) # files) m = Inl e"
| "store_files ((originalname, Inr metadata) # files) m =
     (let documentType = getDocumentTypeFromFilename originalname
      in store_files files (map_set documentType
           \<lparr>doc_url = sf_filename metadata, doc_type = documentType, doc_uploadedAt = sf_uploadedAt metadata,
            doc_verified = False, doc_iv = Some (sf_iv metadata), doc_authTag = Some (sf_authTag metadata)\<rparr> m))"

definition uploadDocuments ::
  "time \<Rightarrow> nat \<Rightarrow> nat \<Rightarrow> (string \<times> (error + stored_file)) list \<Rightarrow> verifications \<Rightarrow> (verification, verifications) result" where
  "uploadDocuments now userId verificationId files s =
     (case List.find (\<lambda>v. vf_id v = verificationId \<and> vf_userId v = userId) (vs_rows s) of
        None \<Rightarrow> (Inl (NotFoundException [Txt ''Verification not found'']), s)
      | Some v \<Rightarrow>
        if vf_status v = VS_VERIFIED then (Inl (BadRequestException [Txt ''Cannot upload documents for a verified account'']), s)
        else case store_files files (case vf_documents v of None \<Rightarrow> [] | Some m \<Rightarrow> m) of
               Inl e \<Rightarrow> (Inl e, s)
             | Inr documents \<Rightarrow>
               save_verification now (v\<lparr>vf_documents := Some documents, vf_currentStep := STEP_ADMIN_REVIEW,
                 vf_status := VS_UNDER_REVIEW\<rparr>) s)"

subsection \<open>Reviewing\<close>

record admin_review_dto =
  ar_verificationId :: nat
  ar_action :: verification_status
  ar_adminNotes :: "string option"
  ar_rejectionReason :: "string option"
  ar_verificationLevel :: "verification_level option"
  ar_expiresInSeconds :: "number option"
  ar_metadata :: "jobject option"

text \<open>A date drops fractions of milliseconds.\<close>

definition time_clip :: "number \<Rightarrow> time" where
  "time_clip x = (if 0 \<le> x then \<lfloor>x\<rfloor> else \<lceil>x\<rceil>)"

definition reviewed :: "time \<Rightarrow> nat \<Rightarrow> admin_review_dto \<Rightarrow> verification \<Rightarrow> verification" where
  "reviewed now adminId dto v =
     (let v = v\<lparr>vf_status := ar_action dto, vf_reviewedBy := Some adminId, vf_adminNotes := ar_adminNotes dto\<rparr>;
          v = (if ar_action dto = VS_REJECTED
               then v\<lparr>vf_rejectionReason := ar_rejectionReason dto, vf_retryCount := vf_retryCount v + 1\<rparr>
               else if ar_action dto = VS_VERIFIED
               then let expiryDays = (if truthy_num (ar_expiresInSeconds dto) then the (ar_expiresInSeconds dto) else 365 * 24 * 60 * 60)
                    in v\<lparr>vf_verifiedAt := Some now,
                         vf_level := (case ar_verificationLevel dto of None \<Rightarrow> VL_VERIFIED_SELLER | Some l \<Rightarrow> l),
                         vf_expiresAt := Some (time_clip (of_int now + expiryDays * 1000))\<rparr>
               else v)
      in case ar_metadata dto of
           None \<Rightarrow> v
         | Some extra \<Rightarrow> v\<lparr>vf_metadata := Some (fold (\<lambda>(k, x) m. map_set k x m) extra
                              (case vf_metadata v of None \<Rightarrow> [] | Some m \<Rightarrow> m))\<rparr>)"

definition adminReview :: "time \<Rightarrow> nat \<Rightarrow> admin_review_dto \<Rightarrow> verifications \<Rightarrow> (verification, verifications) result" where
  "adminReview now adminId dto s =
     (case tbl_find vf_id (ar_verificationId dto) (vs_rows s) of
        None \<Rightarrow> (Inl (NotFoundException [Txt ''Verification not found'']), s)
      | Some v \<Rightarrow> save_verification now (reviewed now adminId dto v) s)"

record bulk_review_dto =
  br_verificationIds :: "nat list"
  br_action :: verification_status
  br_adminNotes :: "string option"
  br_rejectionReason :: "string option"

fun review_all :: "time \<Rightarrow> nat \<Rightarrow> bulk_review_dto \<Rightarrow> verification list \<Rightarrow> verifications \<Rightarrow> (verification list, verifications) result" where
  "review_all now adminId dto [] s = (Inr [], s)"
| "review_all now adminId dto (v # vs) s =
     and_then (adminReview now adminId \<lparr>ar_verificationId = vf_id v, ar_action = br_action dto, ar_adminNotes = br_adminNotes dto,
         ar_rejectionReason = br_rejectionReason dto, ar_verificationLevel = None, ar_expiresInSeconds = None, ar_metadata = None\<rparr> s)
       (\<lambda>saved s. and_then (review_all now adminId dto vs s) (\<lambda>rest s. (Inr (saved # rest), s)))"

definition bulkReview :: "time \<Rightarrow> nat \<Rightarrow> bulk_review_dto \<Rightarrow> verifications \<Rightarrow> (verification list, verifications) result" where
  "bulkReview now adminId dto s =
     review_all now adminId dto (filter (\<lambda>v. vf_id v \<in> set (br_verificationIds dto)) (vs_rows s)) s"

subsection \<open>Reading\<close>

record verification_overview =
  vo_hasVerification :: bool
  vo_isVerifiedSeller :: bool
  vo_trustScore :: nat
  vo_verifications :: "verification list"
  vo_currentVerifications :: "verification list"

definition getVerificationStatus :: "time \<Rightarrow> nat \<Rightarrow> verifications \<Rightarrow> verification_overview \<times> verifications" where
  "getVerificationStatus now userId s =
     (let vs = sort_key (\<lambda>v. - vf_createdAt v) (rows_of userId s)
      in if vs = [] then (\<lparr>vo_hasVerification = False, vo_isVerifiedSeller = False, vo_trustScore = 0, vo_verifications = [],
                           vo_currentVerifications = []\<rparr>, s)
         else let (trustScore, s) = calculateTrustScore now userId s
              in (\<lparr>vo_hasVerification = True, vo_isVerifiedSeller = verified_seller now vs, vo_trustScore = trustScore,
                   vo_verifications = vs,
                   vo_currentVerifications = filter (\<lambda>v. vf_status v = VS_PENDING \<or> vf_status v = VS_UNDER_REVIEW) vs\<rparr>, s))"

record verification_query =
  vq_status :: "verification_status option"
  vq_verificationType :: "verification_type option"
  vq_userId :: "nat option"
  vq_page :: "int option"
  vq_limit :: "int option"
  vq_ascending :: bool

text \<open>\<open>column\<close> is the value of the column to sort by. PostgreSQL refuses a negative offset or limit;
  a limit of 0 is no limit to TypeORM.\<close>

definition getAllVerifications ::
  "(verification \<Rightarrow> int) \<Rightarrow> verification_query \<Rightarrow> verifications \<Rightarrow> error + verification list \<times> nat" where
  "getAllVerifications column q s =
     (let page = pick 1 (vq_page q); limit = pick 10 (vq_limit q); skip = (page - 1) * limit;
          selected = filter (\<lambda>v. (case vq_status q of None \<Rightarrow> True | Some x \<Rightarrow> vf_status v = x)
            \<and> (case vq_verificationType q of None \<Rightarrow> True | Some x \<Rightarrow> vf_type v = x)
            \<and> (case vq_userId q of None \<Rightarrow> True | Some x \<Rightarrow> x = 0 \<or> vf_userId v = x)) (vs_rows s);
          sorted = sort_key (\<lambda>v. if vq_ascending q then column v else - column v) selected
      in if limit < 0 then Inl (Error [Txt ''LIMIT must not be negative''])
         else if skip < 0 then Inl (Error [Txt ''OFFSET must not be negative''])
         else Inr (if limit = 0 then sorted else take (nat limit) (drop (nat skip) sorted), length selected))"

subsection \<open>Expiry\<close>

definition expire :: "time \<Rightarrow> verification \<Rightarrow> verifications \<Rightarrow> verifications" where
  "expire now v s = snd (save_verification now (v\<lparr>vf_status := VS_EXPIRED\<rparr>) s)"

definition checkExpiredVerifications :: "time \<Rightarrow> verifications \<Rightarrow> verifications" where
  "checkExpiredVerifications now s =
     fold (expire now) (filter (\<lambda>v. vf_status v = VS_VERIFIED \<and> (case vf_expiresAt v of None \<Rightarrow> False | Some t \<Rightarrow> t < now)) (vs_rows s)) s"

subsection \<open>The guard of sellers' routes\<close>

definition verified_seller_guard :: "verified_user option \<Rightarrow> error + bool" where
  "verified_seller_guard user = (case user of
       None \<Rightarrow> Inr False
     | Some u \<Rightarrow> if \<not> vu_isVerifiedSeller u
         then Inl (ForbiddenException [Txt ''This action requires a verified seller account. Please complete your seller verification.''])
         else Inr True)"

subsection \<open>Histories\<close>

datatype verify_op =
    Submit nat time nat submit_dto
  | Upload time nat nat "(string \<times> (error + stored_file)) list"
  | Review time nat admin_review_dto
  | Review_all time nat bulk_review_dto
  | Read_status time nat
  | Sweep time

primrec run_verify :: "verify_op \<Rightarrow> verifications \<Rightarrow> verifications" where
  "run_verify (Submit i now u dto) s = snd (submitVerification i now u dto s)"
| "run_verify (Upload now u i files) s = snd (uploadDocuments now u i files s)"
| "run_verify (Review now a dto) s = snd (adminReview now a dto s)"
| "run_verify (Review_all now a dto) s = snd (bulkReview now a dto s)"
| "run_verify (Read_status now u) s = snd (getVerificationStatus now u s)"
| "run_verify (Sweep now) s = checkExpiredVerifications now s"

fun fresh_verifications :: "verify_op list \<Rightarrow> verifications \<Rightarrow> bool" where
  "fresh_verifications [] s \<longleftrightarrow> True"
| "fresh_verifications (x # xs) s \<longleftrightarrow>
     (case x of Submit i now u dto \<Rightarrow> i \<notin> vf_id ` set (vs_rows s) | _ \<Rightarrow> True) \<and> fresh_verifications xs (run_verify x s)"

subsection \<open>One verification of each type\<close>

text \<open>The parts of a row that no step changes.\<close>

definition vf_key :: "verification \<Rightarrow> nat \<times> nat \<times> verification_type" where
  "vf_key v = (vf_id v, vf_userId v, vf_type v)"

definition rows_ok :: "verifications \<Rightarrow> bool" where
  "rows_ok s \<longleftrightarrow> distinct (map vf_id (vs_rows s)) \<and> distinct (map (\<lambda>v. (vf_userId v, vf_type v)) (vs_rows s))"

lemma update_user_rows [simp]: "vs_rows (update_user k f s) = vs_rows s" "map vu_id (vs_users (calc s)) = map vu_id (vs_users (calc s))"
  by (simp_all add: update_user_def)

lemma updateUser_rows [simp]:
  "vs_rows (updateUserVerificationStatus now u s) = vs_rows s" "vs_rows (snd (calculateTrustScore now u s)) = vs_rows s"
  by (simp_all add: updateUserVerificationStatus_def calculateTrustScore_def Let_def)

lemma save_verification_simps [simp]:
  "fst (save_verification now v s) = Inr v" "vs_rows (snd (save_verification now v s)) = tbl_save vf_id v (vs_rows s)"
  by (simp_all add: save_verification_def)

lemma same_key_ok:
  assumes "rows_ok s" "old \<in> set (vs_rows s)" "vf_key v = vf_key old" "vs_rows t = tbl_save vf_id v (vs_rows s)"
  shows "rows_ok t \<and> map vf_key (vs_rows t) = map vf_key (vs_rows s)"
proof -
  have "tbl_find vf_id (vf_id v) (vs_rows s) = Some old"
    using tbl_find_distinct [of vf_id "vs_rows s" old] assms by (simp add: rows_ok_def vf_key_def)
  then have keep: "map f (vs_rows t) = map f (vs_rows s)" if "f v = f old" for f :: "verification \<Rightarrow> 'b"
    unfolding assms(4) using that by (rule tbl_save_map)
  show ?thesis using assms(1,3) keep [of vf_id] keep [of "\<lambda>v. (vf_userId v, vf_type v)"] keep [of vf_key]
    by (simp add: rows_ok_def vf_key_def)
qed

lemma with_key [simp]:
  "vf_key (with_personal_info dto v) = vf_key v" "vf_key (with_business_info dto v) = vf_key v"
  "vf_key (with_documents now dto v) = vf_key v" "vf_key (reviewed now a r v) = vf_key v"
  by (simp_all add: vf_key_def with_personal_info_def with_business_info_def with_documents_def reviewed_def Let_def
      split: option.split)

definition keeps_rows :: "verifications \<Rightarrow> verifications \<Rightarrow> bool" where
  "keeps_rows s t \<longleftrightarrow> rows_ok t \<and> map vf_key (vs_rows t) = map vf_key (vs_rows s)"

lemma keeps_rows_trans: "keeps_rows s t \<Longrightarrow> keeps_rows t u \<Longrightarrow> keeps_rows s u"
  by (simp add: keeps_rows_def)

lemma keeps_rows_same: "rows_ok s \<Longrightarrow> vs_rows t = vs_rows s \<Longrightarrow> keeps_rows s t"
  by (simp add: keeps_rows_def rows_ok_def)

lemma save_keeps_rows:
  "rows_ok s \<Longrightarrow> vf_key v \<in> set (map vf_key (vs_rows s)) \<Longrightarrow> keeps_rows s (snd (save_verification now v s))"
  using same_key_ok [of s _ v "snd (save_verification now v s)"] by (auto simp: keeps_rows_def)

lemma find_in_rows: "List.find P xs = Some v \<Longrightarrow> v \<in> set xs"
  by (auto simp: find_Some_iff in_set_conv_nth)

lemma upload_keeps_rows: "rows_ok s \<Longrightarrow> keeps_rows s (snd (uploadDocuments now u i files s))"
  unfolding uploadDocuments_def
  by (auto split: option.split sum.split dest!: find_in_rows intro!: keeps_rows_same save_keeps_rows simp: vf_key_def)

lemma review_keeps_rows: "rows_ok s \<Longrightarrow> keeps_rows s (snd (adminReview now a dto s))"
  unfolding adminReview_def
  by (auto split: option.split dest!: tbl_find_mem intro!: keeps_rows_same save_keeps_rows)

lemma bulk_keeps_rows: "rows_ok s \<Longrightarrow> keeps_rows s (snd (review_all now a dto vs s))"
proof (induction vs arbitrary: s)
  case (Cons v vs)
  show ?case
  proof -
    obtain r t where rt: "adminReview now a \<lparr>ar_verificationId = vf_id v, ar_action = br_action dto, ar_adminNotes = br_adminNotes dto,
         ar_rejectionReason = br_rejectionReason dto, ar_verificationLevel = None, ar_expiresInSeconds = None, ar_metadata = None\<rparr> s = (r, t)"
      by fastforce
    then have t: "keeps_rows s t" using review_keeps_rows [OF Cons.prems] by (metis snd_conv)
    then have "keeps_rows t (snd (review_all now a dto vs t))" using Cons.IH by (simp add: keeps_rows_def)
    with t have "keeps_rows s (snd (review_all now a dto vs t))" by (rule keeps_rows_trans)
    then show ?thesis using t rt by (cases r; cases "review_all now a dto vs t"; cases "fst (review_all now a dto vs t)") auto
  qed
qed (simp add: keeps_rows_same)

text \<open>Saving changed rows of a table one after the other changes them in their places.\<close>

lemma fold_expire_rows:
  assumes "distinct (map vf_id (vs_rows s))" "set xs \<subseteq> set (vs_rows s)" "distinct xs"
  shows "vs_rows (fold (expire now) xs s) = map (\<lambda>v. if v \<in> set xs then v\<lparr>vf_status := VS_EXPIRED\<rparr> else v) (vs_rows s)"
  using assms(2,3)
proof (induction xs rule: rev_induct)
  case (snoc x xs)
  let ?t = "map (\<lambda>v. if v \<in> set xs then v\<lparr>vf_status := VS_EXPIRED\<rparr> else v) (vs_rows s)"
  have rows: "vs_rows (fold (expire now) xs s) = ?t" using snoc by simp
  have save: "tbl_save vf_id (x\<lparr>vf_status := VS_EXPIRED\<rparr>) (map f t) = map (\<lambda>v. if v = x then x\<lparr>vf_status := VS_EXPIRED\<rparr> else f v) t"
    if "distinct (map vf_id t)" "x \<in> set t" "\<forall>v. vf_id (f v) = vf_id v" for f t
    using that by (induction t) (auto simp: image_iff intro: map_cong)
  have "vs_rows (fold (expire now) (xs @ [x]) s) = tbl_save vf_id (x\<lparr>vf_status := VS_EXPIRED\<rparr>) ?t"
    by (simp add: expire_def rows)
  also have "\<dots> = map (\<lambda>v. if v = x then x\<lparr>vf_status := VS_EXPIRED\<rparr> else if v \<in> set xs then v\<lparr>vf_status := VS_EXPIRED\<rparr> else v) (vs_rows s)"
    by (rule save) (use assms(1) snoc.prems in auto)
  finally show ?case by (auto intro!: map_cong)
qed simp

definition due :: "time \<Rightarrow> verification \<Rightarrow> bool" where
  "due now v \<longleftrightarrow> vf_status v = VS_VERIFIED \<and> (case vf_expiresAt v of None \<Rightarrow> False | Some t \<Rightarrow> t < now)"

lemma sweep_rows_exact:
  assumes "rows_ok s"
  shows "vs_rows (checkExpiredVerifications now s) = map (\<lambda>v. if due now v then v\<lparr>vf_status := VS_EXPIRED\<rparr> else v) (vs_rows s)"
proof -
  have "distinct (vs_rows s)" using assms by (simp add: rows_ok_def distinct_map)
  then have "vs_rows (checkExpiredVerifications now s)
      = map (\<lambda>v. if v \<in> set (filter (due now) (vs_rows s)) then v\<lparr>vf_status := VS_EXPIRED\<rparr> else v) (vs_rows s)"
    unfolding checkExpiredVerifications_def due_def [symmetric]
    by (intro fold_expire_rows) (use assms in \<open>auto simp: rows_ok_def\<close>)
  then show ?thesis by (auto intro!: map_cong)
qed

lemma sweep_keeps_rows: "rows_ok s \<Longrightarrow> keeps_rows s (checkExpiredVerifications now s)"
proof -
  assume ok: "rows_ok s"
  have same: "map f (map (\<lambda>v. if due now v then v\<lparr>vf_status := VS_EXPIRED\<rparr> else v) t) = map f t"
    if "\<forall>v st. f (v\<lparr>vf_status := st\<rparr>) = f v" for f :: "verification \<Rightarrow> 'b" and t
    using that by (simp add: o_def if_distrib cong: if_cong)
  show ?thesis
    using ok same [of vf_id "vs_rows s"] same [of "\<lambda>v. (vf_userId v, vf_type v)" "vs_rows s"] same [of vf_key "vs_rows s"]
    by (simp add: keeps_rows_def rows_ok_def sweep_rows_exact [OF ok] vf_key_def del: map_map)
qed

lemma submit_ok:
  assumes ok: "rows_ok s" and new: "i \<notin> vf_id ` set (vs_rows s)"
  shows "rows_ok (snd (submitVerification i now u dto s))"
proof (cases "List.find (\<lambda>v. vf_userId v = u \<and> vf_type v = sv_verificationType dto) (vs_rows s)")
  case None
  let ?v = "with_documents now dto (with_business_info dto (with_personal_info dto (new_verification i now u (sv_verificationType dto))))"
  have key: "vf_key ?v = (i, u, sv_verificationType dto)" by simp (simp add: vf_key_def new_verification_def)
  then have "tbl_find vf_id (vf_id ?v) (vs_rows s) = None" using new by (simp add: tbl_find_none_iff vf_key_def)
  then have "vs_rows (snd (submitVerification i now u dto s)) = vs_rows s @ [?v]"
    using None by (simp add: submitVerification_def Let_def tbl_save_new)
  moreover have "\<not> (\<exists>v \<in> set (vs_rows s). vf_userId v = u \<and> vf_type v = sv_verificationType dto)"
    using None by (auto simp: find_None_iff)
  ultimately show ?thesis using ok new key by (auto simp: rows_ok_def vf_key_def)
next
  case (Some v)
  then have "keeps_rows s (snd (submitVerification i now u dto s))"
    using ok find_in_rows [OF Some] by (auto simp: submitVerification_def Let_def intro!: keeps_rows_same save_keeps_rows)
  then show ?thesis by (simp add: keeps_rows_def)
qed

lemma status_rows [simp]: "vs_rows (snd (getVerificationStatus now u s)) = vs_rows s"
  by (simp add: getVerificationStatus_def Let_def split: prod.split) (metis snd_conv updateUser_rows(2))

lemma verifications_ok: "rows_ok s \<Longrightarrow> fresh_verifications ops s \<Longrightarrow> rows_ok (fold run_verify ops s)"
proof (induction ops arbitrary: s)
  case (Cons x ops)
  have "rows_ok (run_verify x s)"
    using Cons.prems submit_ok [OF Cons.prems(1)] upload_keeps_rows [OF Cons.prems(1)] review_keeps_rows [OF Cons.prems(1)]
      bulk_keeps_rows [OF Cons.prems(1)] sweep_keeps_rows [OF Cons.prems(1)]
    by (cases x) (auto simp: keeps_rows_def bulkReview_def rows_ok_def)
  then show ?case using Cons by simp
qed simp

subsection \<open>The trust score\<close>

lemma score_sum: "score_of now vs = sum_list (map type_score (map vf_type (filter (valid_now now) vs)))"
proof -
  have "fold (\<lambda>v score. if valid_now now v then score + type_score (vf_type v) else score) vs n
      = n + sum_list (map type_score (map vf_type (filter (valid_now now) vs)))" for n
    by (induction vs arbitrary: n) simp_all
  then show ?thesis by (simp add: score_of_def)
qed

lemma all_types: "(UNIV :: verification_type set) = {VT_EMAIL, VT_PHONE, VT_IDENTITY, VT_SELLER, VT_BUSINESS}"
  by (auto intro: verification_type.exhaust)

lemma types_of_user: "rows_ok s \<Longrightarrow> distinct (map vf_type (rows_of u s))"
proof -
  assume "rows_ok s"
  then have "distinct (map (\<lambda>v. (vf_userId v, vf_type v)) (vs_rows s))" by (simp add: rows_ok_def)
  then show ?thesis unfolding rows_of_def by (induction "vs_rows s" arbitrary: s rule: list.induct) (auto simp: image_iff distinct_map inj_on_def)
qed

text \<open>
  Property C26: in every history of submissions, uploads, reviews and sweeps a user has at most one
  verification of each type, so the trust score is the sum of the weights of the types that are
  verified and not expired, and never above 180.
\<close>

theorem trust_score_exact:
  assumes "vs_rows s = []" "fresh_verifications ops s" "t = fold run_verify ops s"
  shows "distinct (map vf_type (rows_of u t))
     \<and> fst (calculateTrustScore now u t) = (\<Sum>vt \<in> vf_type ` {v \<in> set (rows_of u t). valid_now now v}. type_score vt)
     \<and> fst (calculateTrustScore now u t) \<le> 180"
proof -
  have "rows_ok s" using assms(1) by (simp add: rows_ok_def)
  then have "rows_ok t" using verifications_ok assms(2,3) by simp
  then have d: "distinct (map vf_type (rows_of u t))" by (rule types_of_user)
  then have "distinct (map vf_type (filter (valid_now now) (rows_of u t)))" by (rule distinct_map_filter)
  then have sum: "score_of now (rows_of u t) = (\<Sum>vt \<in> vf_type ` {v \<in> set (rows_of u t). valid_now now v}. type_score vt)"
    unfolding score_sum by (simp only: sum_list_distinct_conv_sum_set set_map set_filter)
  have fin: "finite (UNIV :: verification_type set)" by (simp add: all_types)
  have "score_of now (rows_of u t) \<le> (\<Sum>vt \<in> UNIV. type_score vt)"
    unfolding sum by (rule sum_mono2 [OF fin]) simp_all
  also have "\<dots> = 180" by (simp add: all_types)
  finally show ?thesis using d sum by (simp add: calculateTrustScore_def Let_def)
qed

subsection \<open>The row of the user\<close>

definition figures_current :: "time \<Rightarrow> nat \<Rightarrow> verifications \<Rightarrow> bool" where
  "figures_current now u s \<longleftrightarrow> (\<forall>r \<in> set (vs_users s). vu_id r = u \<longrightarrow>
     vu_isVerifiedSeller r = verified_seller now (rows_of u s) \<and> vu_trustScore r = score_of now (rows_of u s)
     \<and> vu_verificationLevel r = getHighestVerificationLevel now (rows_of u s))"

lemma updateUser_users:
  "vs_users (updateUserVerificationStatus now u s)
   = map (\<lambda>r. if vu_id r = u then user_figures now (rows_of u s) (score_of now (rows_of u s)) r else r) (vs_users s)"
proof -
  have "user_figures now vs n (r\<lparr>vu_trustScore := k\<rparr>) = user_figures now vs n r" for vs n k r
    by (simp add: user_figures_def Let_def split: option.split)
  then show ?thesis by (simp add: updateUserVerificationStatus_def calculateTrustScore_def Let_def update_user_def)
qed

lemma user_figures_simps [simp]:
  "vu_id (user_figures now vs n r) = vu_id r" "vu_isVerifiedSeller (user_figures now vs n r) = verified_seller now vs"
  "vu_trustScore (user_figures now vs n r) = n" "vu_verificationLevel (user_figures now vs n r) = getHighestVerificationLevel now vs"
  by (simp_all add: user_figures_def Let_def)

lemma rows_of_updateUser [simp]: "rows_of k (updateUserVerificationStatus now u s) = rows_of k s"
  by (simp add: rows_of_def)

lemma rows_of_update [simp]: "rows_of u (update_user k f s) = rows_of u s"
  by (simp add: rows_of_def)

lemma update_is_current: "figures_current now u (updateUserVerificationStatus now u s)"
  unfolding figures_current_def rows_of_updateUser updateUser_users set_map ball_simps(9) by simp

lemma update_keeps_current:
  "figures_current now u s \<Longrightarrow> rows_of u t = rows_of u s \<Longrightarrow> vs_users t = vs_users s \<Longrightarrow> k \<noteq> u \<Longrightarrow>
   figures_current now u (updateUserVerificationStatus now k t)"
  by (auto simp: figures_current_def updateUser_users)

lemma save_current:
  "figures_current now (vf_userId v) (snd (save_verification now v s))"
  by (simp add: save_verification_def update_is_current)

lemma rows_of_save:
  "tbl_find vf_id (vf_id v) t = Some old \<Longrightarrow> vf_userId v \<noteq> u \<Longrightarrow> vf_userId old \<noteq> u \<Longrightarrow>
   filter (\<lambda>x. vf_userId x = u) (tbl_save vf_id v t) = filter (\<lambda>x. vf_userId x = u) t"
  by (rule filter_save_unaffected)

lemma expire_keeps_current:
  assumes "figures_current now u s" "rows_ok s" "vf_key v \<in> set (map vf_key (vs_rows s))" "vf_userId v \<noteq> u"
  shows "figures_current now u (expire now v s)"
proof -
  obtain old where old: "old \<in> set (vs_rows s)" "vf_key old = vf_key v" using assms(3) by auto
  then have "tbl_find vf_id (vf_id v) (vs_rows s) = Some old"
    using tbl_find_distinct [of vf_id "vs_rows s" old] assms(2) by (simp add: rows_ok_def vf_key_def)
  then have "rows_of u (s\<lparr>vs_rows := tbl_save vf_id (v\<lparr>vf_status := VS_EXPIRED\<rparr>) (vs_rows s)\<rparr>) = rows_of u s"
    using rows_of_save [of "v\<lparr>vf_status := VS_EXPIRED\<rparr>" "vs_rows s" old u] assms(4) old(2) by (simp add: rows_of_def vf_key_def)
  then show ?thesis unfolding expire_def save_verification_def using assms(1,4) by (auto intro: update_keeps_current)
qed

lemma sweep_current:
  assumes "rows_ok s" "\<forall>v \<in> set vs. vf_key v \<in> set (map vf_key (vs_rows s))" "v \<in> set vs"
  shows "figures_current now (vf_userId v) (fold (expire now) vs s)"
  using assms
proof (induction vs rule: rev_induct)
  case (snoc x vs)
  note keys = snoc.prems(2)
  have keep: "keeps_rows s (fold (expire now) xs s)" if "set xs \<subseteq> set (vs @ [x])" for xs
    using that
  proof (induction xs rule: rev_induct)
    case (snoc y ys)
    then have IH: "keeps_rows s (fold (expire now) ys s)" by simp
    then have t: "rows_ok (fold (expire now) ys s)" "map vf_key (vs_rows (fold (expire now) ys s)) = map vf_key (vs_rows s)"
      by (simp_all add: keeps_rows_def)
    have "vf_key y \<in> set (map vf_key (vs_rows s))" using keys snoc.prems by auto
    then have "vf_key (y\<lparr>vf_status := VS_EXPIRED\<rparr>) \<in> set (map vf_key (vs_rows (fold (expire now) ys s)))"
      unfolding t(2) by (simp add: vf_key_def)
    from save_keeps_rows [OF t(1) this] have "keeps_rows (fold (expire now) ys s) (expire now y (fold (expire now) ys s))"
      unfolding expire_def [of now y] .
    with IH show ?case by (auto intro: keeps_rows_trans)
  qed (simp add: keeps_rows_same assms(1))
  let ?t = "fold (expire now) vs s"
  have "set vs \<subseteq> set (vs @ [x])" by auto
  then have t: "rows_ok ?t" "vf_key x \<in> set (map vf_key (vs_rows ?t))"
    using keep [of vs] snoc.prems(2) by (simp_all add: keeps_rows_def del: set_map)
  show ?case
  proof (cases "vf_userId v = vf_userId x")
    case True
    then show ?thesis using save_current [of now "x\<lparr>vf_status := VS_EXPIRED\<rparr>" ?t, folded expire_def] by simp
  next
    case False
    then have "v \<in> set vs" using snoc.prems(3) by auto
    then have "figures_current now (vf_userId v) ?t" using snoc by simp
    then show ?thesis using expire_keeps_current t False by simp
  qed
qed simp

text \<open>
  The midnight job turns exactly the verified rows whose date has passed into expired
  ones and leaves all others as they are, and the seller flag, the level and the trust score of
  every user it found agree with the rows afterwards.
\<close>

lemma sweep_expires_exactly_due:
  assumes "rows_ok s" "t = checkExpiredVerifications now s"
  shows "vs_rows t = map (\<lambda>v. if due now v then v\<lparr>vf_status := VS_EXPIRED\<rparr> else v) (vs_rows s)
     \<and> (\<forall>v \<in> set (vs_rows s). due now v \<longrightarrow> figures_current now (vf_userId v) t)"
proof -
  have "figures_current now (vf_userId v) t" if "v \<in> set (vs_rows s)" "due now v" for v
    unfolding assms(2) checkExpiredVerifications_def due_def [symmetric]
    by (rule sweep_current [OF assms(1)]) (use that in auto)
  then show ?thesis using sweep_rows_exact [OF assms(1)] assms(2) by auto
qed

text \<open>
  An administrator may reject a verification that was granted; when it was the only one of
  the user, every figure of the user falls back, but the date until which the user counts as verified
  stays, for the update carries \<open>undefined\<close> and writes nothing.
\<close>

lemma rejection_keeps_expiry_date:
  assumes "tbl_find vf_id (vf_id v) (vs_rows s) = Some v" "rows_of (vf_userId v) s = [v]"
    and "tbl_find vu_id (vf_userId v) (vs_users s) = Some u"
    and "ar_verificationId dto = vf_id v" "ar_action dto = VS_REJECTED"
    and "adminReview now a dto s = (Inr w, t)"
  shows "vf_status w = VS_REJECTED \<and> vf_expiresAt w = vf_expiresAt v \<and> vf_retryCount w = vf_retryCount v + 1
     \<and> (\<exists>r. tbl_find vu_id (vf_userId v) (vs_users t) = Some r \<and> vu_verificationStatus r = Some VS_PENDING
          \<and> \<not> vu_isVerifiedSeller r \<and> vu_trustScore r = 0 \<and> vu_verificationLevel r = VL_BASIC
          \<and> vu_verificationExpiryAt r = vu_verificationExpiryAt u)"
proof -
  let ?w = "reviewed now a dto v"
  have run: "w = ?w" "t = updateUserVerificationStatus now (vf_userId v) (s\<lparr>vs_rows := tbl_save vf_id ?w (vs_rows s)\<rparr>)"
    using assms(1,4,6) with_key(4) [of now a dto v] by (auto simp: adminReview_def save_verification_def vf_key_def)
  have w: "vf_status ?w = VS_REJECTED" "vf_expiresAt ?w = vf_expiresAt v" "vf_retryCount ?w = vf_retryCount v + 1"
    using assms(5) by (simp_all add: reviewed_def Let_def split: option.split)
  have id: "vf_id ?w = vf_id v" "vf_userId ?w = vf_userId v" using with_key(4) [of now a dto v] by (simp_all add: vf_key_def)
  have "filter (\<lambda>x. vf_userId x = vf_userId v) (tbl_save vf_id ?w xs) = map (\<lambda>x. ?w) (filter (\<lambda>x. vf_userId x = vf_userId v) xs)"
    if "tbl_find vf_id (vf_id v) xs = Some v" "filter (\<lambda>x. vf_userId x = vf_userId v) xs = [v]" for xs
    using that by (induction xs) (auto simp: id split: if_splits)
  from this [OF assms(1)] assms(2) have rows: "filter (\<lambda>x. vf_userId x = vf_userId v) (tbl_save vf_id ?w (vs_rows s)) = [?w]"
    by (simp add: rows_of_def)
  have user: "tbl_find vu_id k (map (\<lambda>u. if vu_id u = k then f u else u) us) = map_option f (tbl_find vu_id k us)"
    if "\<forall>u. vu_id (f u) = vu_id u" for f k us
    using that by (induction us) auto
  have "tbl_find vu_id (vf_userId v) (vs_users t) = Some (user_figures now [?w] (score_of now [?w]) u)"
    unfolding run(2) updateUser_users using rows assms(3) by (simp add: rows_of_def user)
  moreover have "\<not> valid_now now ?w" "getEarliestExpiryDate [?w] = None"
    using w(1) by (simp_all add: valid_now_def getEarliestExpiryDate_def split: option.split)
  ultimately show ?thesis using w unfolding run(1)
    by (simp add: user_figures_def Let_def score_of_def verified_seller_def getHighestVerificationLevel_def)
qed

text \<open>
  The legacy route asks nobody who they are: for any user with a verification that is not
  yet granted, it replaces the personal information by blanks and leaves status and documents, so
  what an administrator then reviews is not what the user sent.
\<close>

lemma legacy_start_blanks_personal_info:
  assumes "List.find (\<lambda>v. vf_userId v = u \<and> vf_type v = vt) (vs_rows s) = Some v" "vf_status v \<noteq> VS_VERIFIED"
    and "startVerification newId now u vt s = (r, t)"
  shows "\<exists>w. r = Inr w \<and> tbl_find vf_id (vf_id v) (vs_rows t) = Some w \<and> vf_userId w = u
     \<and> map_option pi_firstName (vf_personalInfo w) = Some '''' \<and> map_option pi_address (vf_personalInfo w) = Some ''''
     \<and> vf_status w = vf_status v \<and> vf_documents w = vf_documents v"
proof -
  have v: "vf_userId v = u" using assms(1) by (auto simp: find_Some_iff)
  let ?dto = "\<lparr>sv_verificationType = vt,
       sv_personalInfo = Some \<lparr>pi_firstName = '''', pi_lastName = '''', pi_dateOfBirth = '''', pi_address = '''',
         pi_city = '''', pi_country = '''', pi_postalCode = ''''\<rparr>,
       sv_businessInfo = None, sv_documents = None\<rparr>"
  have w: "with_documents now ?dto (with_business_info ?dto (with_personal_info ?dto v))
      = v\<lparr>vf_personalInfo := sv_personalInfo ?dto, vf_currentStep := STEP_DOCUMENT_UPLOAD\<rparr>"
    by (simp add: with_documents_def with_business_info_def with_personal_info_def)
  have "r = Inr (v\<lparr>vf_personalInfo := sv_personalInfo ?dto, vf_currentStep := STEP_DOCUMENT_UPLOAD\<rparr>)"
    "vs_rows t = tbl_save vf_id (v\<lparr>vf_personalInfo := sv_personalInfo ?dto, vf_currentStep := STEP_DOCUMENT_UPLOAD\<rparr>) (vs_rows s)"
    using assms w by (auto simp: startVerification_def submitVerification_def Let_def save_verification_def)
  then show ?thesis using v by simp
qed

text \<open>
  A file whose name speaks of a licence is a driver's licence (or a passport) whatever else
  the name says, so no business licence is ever recognised by that word.
\<close>

lemma license_never_business:
  assumes "includes_text (lower_text filename) ''license''"
  shows "getDocumentTypeFromFilename filename \<in> {PASSPORT, DRIVERS_LICENSE}"
  using assms by (simp add: getDocumentTypeFromFilename_def Let_def)

subsection \<open>Witnesses\<close>

definition granted :: "time option \<Rightarrow> verification" where
  "granted expiry = (new_verification 1 0 7 VT_SELLER)\<lparr>vf_status := VS_VERIFIED, vf_expiresAt := expiry\<rparr>"

definition seller_row :: verified_user where
  "seller_row = \<lparr>vu_id = 7, vu_verificationStatus = Some VS_VERIFIED, vu_verificationLevel = VL_VERIFIED_SELLER, vu_isVerifiedSeller = True,
     vu_trustScore = 60, vu_verificationExpiryAt = Some 100\<rparr>"

theorem trust_score_exact_witness:
  "fst (calculateTrustScore 5 7 (fold run_verify [Submit 1 0 7 \<lparr>sv_verificationType = VT_SELLER, sv_personalInfo = None,
     sv_businessInfo = None, sv_documents = None\<rparr>, Sweep 3] \<lparr>vs_rows = [], vs_users = [seller_row]\<rparr>)) \<le> 180"
proof -
  have "fresh_verifications [Submit 1 0 7 \<lparr>sv_verificationType = VT_SELLER, sv_personalInfo = None,
     sv_businessInfo = None, sv_documents = None\<rparr>, Sweep 3] \<lparr>vs_rows = [], vs_users = [seller_row]\<rparr>" by simp
  from trust_score_exact [OF _ this refl] show ?thesis by (metis verifications.select_convs(1))
qed

theorem sweep_expires_exactly_due_witness:
  "vs_rows (checkExpiredVerifications 101 \<lparr>vs_rows = [granted (Some 100), (granted None)\<lparr>vf_id := 2, vf_userId := 8\<rparr>], vs_users = [seller_row]\<rparr>)
   = [(granted (Some 100))\<lparr>vf_status := VS_EXPIRED\<rparr>, (granted None)\<lparr>vf_id := 2, vf_userId := 8\<rparr>]"
  using sweep_expires_exactly_due [OF _ refl, of "\<lparr>vs_rows = [granted (Some 100), (granted None)\<lparr>vf_id := 2, vf_userId := 8\<rparr>], vs_users = [seller_row]\<rparr>" 101]
  by (simp add: rows_ok_def granted_def new_verification_def due_def)

theorem rejection_keeps_expiry_date_witness:
  "\<exists>w t r. adminReview 5 9 \<lparr>ar_verificationId = 1, ar_action = VS_REJECTED, ar_adminNotes = None, ar_rejectionReason = None,
       ar_verificationLevel = None, ar_expiresInSeconds = None, ar_metadata = None\<rparr> \<lparr>vs_rows = [granted (Some 100)], vs_users = [seller_row]\<rparr> = (Inr w, t)
     \<and> tbl_find vu_id 7 (vs_users t) = Some r \<and> \<not> vu_isVerifiedSeller r \<and> vu_verificationExpiryAt r = Some 100"
proof -
  let ?dto = "\<lparr>ar_verificationId = 1, ar_action = VS_REJECTED, ar_adminNotes = None, ar_rejectionReason = None,
       ar_verificationLevel = None, ar_expiresInSeconds = None, ar_metadata = None\<rparr>"
  let ?s = "\<lparr>vs_rows = [granted (Some 100)], vs_users = [seller_row]\<rparr>"
  have v: "vf_id (granted (Some 100)) = 1" "vf_userId (granted (Some 100)) = 7" by (simp_all add: granted_def new_verification_def)
  obtain w t where run: "adminReview 5 9 ?dto ?s = (Inr w, t)" by (simp add: adminReview_def v save_verification_def)
  from rejection_keeps_expiry_date [OF _ _ _ _ _ run, of "granted (Some 100)" seller_row] run
  show ?thesis by (auto simp: v rows_of_def seller_row_def)
qed

theorem legacy_start_blanks_personal_info_witness:
  "\<exists>w t. startVerification 9 5 7 VT_SELLER \<lparr>vs_rows = [(granted None)\<lparr>vf_status := VS_UNDER_REVIEW\<rparr>], vs_users = []\<rparr> = (Inr w, t)
     \<and> map_option pi_firstName (vf_personalInfo w) = Some ''''"
proof -
  let ?v = "(granted None)\<lparr>vf_status := VS_UNDER_REVIEW\<rparr>"
  have "List.find (\<lambda>v. vf_userId v = 7 \<and> vf_type v = VT_SELLER) (vs_rows \<lparr>vs_rows = [?v], vs_users = []\<rparr>) = Some ?v"
    by (simp add: granted_def new_verification_def)
  moreover obtain r t where run: "startVerification 9 5 7 VT_SELLER \<lparr>vs_rows = [?v], vs_users = []\<rparr> = (r, t)" by fastforce
  ultimately obtain w where "r = Inr w" "map_option pi_firstName (vf_personalInfo w) = Some ''''"
    using legacy_start_blanks_personal_info [of 7 VT_SELLER "\<lparr>vs_rows = [?v], vs_users = []\<rparr>" ?v 9 5 r t] by auto
  with run show ?thesis by blast
qed

theorem license_never_business_witness:
  "getDocumentTypeFromFilename ''Business-License.pdf'' \<in> {PASSPORT, DRIVERS_LICENSE}"
  by (rule license_never_business) code_simp

end
