(* ===== verification/WebhookGuard.thy ===== *)
theory WebhookGuard
  imports Fraud "HOL-Library.Word"
begin

unbundle bit_operations_syntax

text \<open>
  \<open>WebhookVerificationGuard\<close> (src/src/webhooks/guards/webhook-verification.guard.ts), the options of its
  decorator and \<open>WebhooksMetricsService\<close>: signature, timestamp and nonce of an incoming webhook.
  The HMAC of \<open>node:crypto\<close>, the configuration and the cache behind \<open>RedisCacheService\<close> are parameters.
\<close>

subsection \<open>What the guard uses\<close>

datatype webhook_error = UnauthorizedException string | Bad_request string

text \<open>The digests of a secret and a text.\<close>

record hmac =
  hm_hex :: "string \<Rightarrow> string \<Rightarrow> string"
  hm_base64 :: "string \<Rightarrow> string \<Rightarrow> string"

record webhook_metrics =
  wm_totalVerifications :: nat
  wm_successfulVerifications :: nat
  wm_failedVerifications :: nat
  wm_averageVerificationTime :: number
  wm_lastVerificationAt :: time
  wm_signature :: nat
  wm_timestamp :: nat
  wm_nonce :: nat
  wm_other :: nat

text \<open>The cache holds used nonces and the metrics, whose JSON text is read back as what it was.\<close>

datatype guard_value = Used_nonce | Metrics webhook_metrics

record 'r guard_cache =
  gc_get :: "string \<Rightarrow> time \<Rightarrow> 'r \<Rightarrow> guard_value option"
  gc_set :: "string \<Rightarrow> guard_value \<Rightarrow> int \<Rightarrow> time \<Rightarrow> 'r \<Rightarrow> 'r"

text \<open>A value is there for as long as the cache takes a time to live to mean: milliseconds or seconds,
  according to its version.\<close>

locale expiring_cache =
  fixes ops :: "'r guard_cache" and life :: "int \<Rightarrow> int"
  assumes get_set: "gc_get ops k now (gc_set ops k' v ttl t r) =
      (if k = k' then (if now < t + life ttl then Some v else None) else gc_get ops k now r)"

datatype provider = Stripe | Sendgrid | Stellar | Generic

record verified_options =
  wo_secretHeader :: string
  wo_signatureHeader :: string
  wo_timestampHeader :: string
  wo_nonceHeader :: string
  wo_timestampToleranceMs :: "int option"
  wo_provider :: provider

text \<open>The defaults of the decorator.\<close>

definition default_options :: verified_options where
  "default_options = \<lparr>wo_secretHeader = ''X-Webhook-Secret'', wo_signatureHeader = ''X-Webhook-Signature'',
     wo_timestampHeader = ''X-Webhook-Timestamp'', wo_nonceHeader = ''X-Webhook-Nonce'',
     wo_timestampToleranceMs = Some 300000, wo_provider = Generic\<rparr>"

text \<open>A request: its headers and \<open>JSON.stringify\<close> of its parsed body.\<close>

record webhook_request =
  rq_header :: "string \<Rightarrow> string option"
  rq_body :: string

definition getRawBody :: "webhook_request \<Rightarrow> string" where
  "getRawBody request = rq_body request"

subsection \<open>Signatures\<close>

text \<open>A missing character would be \<open>NaN\<close>, but the lengths agree; the bits are those of 32-bit integers.\<close>

definition char_code :: "char \<Rightarrow> 32 word" where
  "char_code c = word_of_nat (of_char c)"

definition secureCompare :: "string \<Rightarrow> string \<Rightarrow> bool" where
  "secureCompare a b =
     (if length a \<noteq> length b then False
      else fold (\<lambda>(x, y) result. result OR (char_code x XOR char_code y)) (zip a b) 0 = 0)"

fun split_comma :: "string \<Rightarrow> string list" where
  "split_comma [] = [[]]"
| "split_comma (c # cs) = (if c = CHR '','' then [] # split_comma cs
     else case split_comma cs of [] \<Rightarrow> [[c]] | x # xs \<Rightarrow> (c # x) # xs)"

definition startsWith :: "string \<Rightarrow> string \<Rightarrow> bool" where
  "startsWith p t \<longleftrightarrow> take (length p) t = p"

text \<open>\<open>replace(/(.{64})/g, '$1\n')\<close> on text without line ends.\<close>

fun group_64 :: "string \<Rightarrow> string" where
  "group_64 t = (if length t < 64 then t else take 64 t @ [CHR 0x0A] @ group_64 (drop 64 t))"

declare group_64.simps [simp del]

definition verifyStripeSignature :: "hmac \<Rightarrow> string \<Rightarrow> string \<Rightarrow> string \<Rightarrow> webhook_error + string" where
  "verifyStripeSignature h payload signature secret =
     (let elements = split_comma signature
      in case (List.find (startsWith ''t='') elements, List.find (startsWith ''v1='') elements) of
           (Some timestampElement, Some signatureElement) \<Rightarrow>
             let timestamp = drop 2 timestampElement; signedPayload = timestamp @ ''.'' @ payload
             in Inr (trim_white (group_64 (hm_hex h secret signedPayload)))
         | _ \<Rightarrow> Inl (UnauthorizedException ''Invalid Stripe signature format''))"

definition verifySendGridSignature :: "hmac \<Rightarrow> string \<Rightarrow> string \<Rightarrow> string" where
  "verifySendGridSignature h payload secret = hm_base64 h secret payload"

definition verifyStellarSignature :: "hmac \<Rightarrow> string \<Rightarrow> string \<Rightarrow> string" where
  "verifyStellarSignature h payload secret = hm_hex h secret payload"

definition verifyGenericSignature :: "hmac \<Rightarrow> string \<Rightarrow> string \<Rightarrow> string" where
  "verifyGenericSignature h payload secret = hm_hex h secret payload"

definition getSecret :: "(string \<Rightarrow> string option) \<Rightarrow> webhook_request \<Rightarrow> verified_options \<Rightarrow> string option" where
  "getSecret config request options =
     (let headerSecret = rq_header request (wo_secretHeader options)
      in if truthy_text headerSecret then headerSecret
         else case wo_provider options of
                Stripe \<Rightarrow> config ''STRIPE_WEBHOOK_SECRET''
              | Sendgrid \<Rightarrow> config ''SENDGRID_WEBHOOK_SECRET''
              | Stellar \<Rightarrow> config ''STELLAR_WEBHOOK_SECRET''
              | Generic \<Rightarrow> config ''DEFAULT_WEBHOOK_SECRET'')"

definition expected_signature :: "hmac \<Rightarrow> provider \<Rightarrow> string \<Rightarrow> string \<Rightarrow> string \<Rightarrow> webhook_error + string" where
  "expected_signature h p rawBody signature secret = (case p of
       Stripe \<Rightarrow> verifyStripeSignature h rawBody signature secret
     | Sendgrid \<Rightarrow> Inr (verifySendGridSignature h rawBody secret)
     | Stellar \<Rightarrow> Inr (verifyStellarSignature h rawBody secret)
     | Generic \<Rightarrow> Inr (verifyGenericSignature h rawBody secret))"

definition verifySignature ::
  "hmac \<Rightarrow> (string \<Rightarrow> string option) \<Rightarrow> string \<Rightarrow> webhook_request \<Rightarrow> verified_options \<Rightarrow> webhook_error + unit" where
  "verifySignature h config rawBody request options =
     (let signature = rq_header request (wo_signatureHeader options); secret = getSecret config request options
      in if \<not> truthy_text signature then Inl (UnauthorizedException ''Missing webhook signature'')
         else if \<not> truthy_text secret then Inl (UnauthorizedException ''Missing webhook secret'')
         else case expected_signature h (wo_provider options) rawBody (the signature) (the secret) of
                Inl e \<Rightarrow> Inl e
              | Inr expected \<Rightarrow>
                if secureCompare (the signature) expected then Inr ()
                else Inl (UnauthorizedException ''Invalid webhook signature''))"

subsection \<open>Timestamps and nonces\<close>

definition js_parseInt :: "string \<Rightarrow> int option" where
  "js_parseInt t = (case dropWhile white_space t of
       [] \<Rightarrow> None
     | c # cs \<Rightarrow> if c = CHR ''-'' then map_option (\<lambda>n. - int n) (parse_int cs)
         else if c = CHR ''+'' then map_option int (parse_int cs)
         else map_option int (parse_int (c # cs)))"

definition tolerance_of :: "verified_options \<Rightarrow> int" where
  "tolerance_of options = (case wo_timestampToleranceMs options of None \<Rightarrow> 300000 | Some n \<Rightarrow> if n = 0 then 300000 else n)"

definition verifyTimestamp :: "time \<Rightarrow> webhook_request \<Rightarrow> verified_options \<Rightarrow> webhook_error + unit" where
  "verifyTimestamp now request options =
     (let timestampHeader = rq_header request (wo_timestampHeader options)
      in if \<not> truthy_text timestampHeader then Inl (Bad_request ''Missing timestamp header'')
         else case js_parseInt (the timestampHeader) of
                None \<Rightarrow> Inl (Bad_request ''Invalid timestamp format'')
              | Some timestamp \<Rightarrow>
                if \<bar>now - timestamp\<bar> > tolerance_of options
                then Inl (UnauthorizedException ''Timestamp outside tolerance window'') else Inr ())"

definition WEBHOOK_NONCE_CACHE_PREFIX :: string where
  "WEBHOOK_NONCE_CACHE_PREFIX = ''webhook_nonce:''"

definition WEBHOOK_METRICS_KEY :: string where
  "WEBHOOK_METRICS_KEY = ''webhook_metrics''"

definition verifyNonce ::
  "'r guard_cache \<Rightarrow> time \<Rightarrow> webhook_request \<Rightarrow> verified_options \<Rightarrow> 'r \<Rightarrow> (webhook_error + unit) \<times> 'r" where
  "verifyNonce ops now request options r =
     (let nonce = rq_header request (wo_nonceHeader options)
      in if \<not> truthy_text nonce then (Inl (Bad_request ''Missing nonce header''), r)
         else let cacheKey = WEBHOOK_NONCE_CACHE_PREFIX @ the nonce
              in case gc_get ops cacheKey now r of
                   Some _ \<Rightarrow> (Inl (UnauthorizedException ''Nonce already used (replay attack)''), r)
                 | None \<Rightarrow> (Inr (), gc_set ops cacheKey Used_nonce 86400 now r))"

definition verifyWebhook ::
  "hmac \<Rightarrow> (string \<Rightarrow> string option) \<Rightarrow> 'r guard_cache \<Rightarrow> time \<Rightarrow> webhook_request \<Rightarrow> verified_options \<Rightarrow> 'r \<Rightarrow>
   (webhook_error + unit) \<times> 'r" where
  "verifyWebhook h config ops now request options r =
     (let rawBody = getRawBody request
      in case verifySignature h config rawBody request options of
           Inl e \<Rightarrow> (Inl e, r)
         | Inr _ \<Rightarrow>
           case verifyTimestamp now request options of
             Inl e \<Rightarrow> (Inl e, r)
           | Inr _ \<Rightarrow> verifyNonce ops now request options r)"

subsection \<open>Metrics\<close>

definition getDefaultMetrics :: "time \<Rightarrow> webhook_metrics" where
  "getDefaultMetrics now = \<lparr>wm_totalVerifications = 0, wm_successfulVerifications = 0, wm_failedVerifications = 0,
     wm_averageVerificationTime = 0, wm_lastVerificationAt = now, wm_signature = 0, wm_timestamp = 0, wm_nonce = 0, wm_other = 0\<rparr>"

definition get_webhook_metrics :: "'r guard_cache \<Rightarrow> time \<Rightarrow> 'r \<Rightarrow> webhook_metrics" where
  "get_webhook_metrics ops now r = (case gc_get ops WEBHOOK_METRICS_KEY now r of
       Some (Metrics m) \<Rightarrow> m
     | _ \<Rightarrow> getDefaultMetrics now)"

definition saveMetrics :: "'r guard_cache \<Rightarrow> time \<Rightarrow> webhook_metrics \<Rightarrow> 'r \<Rightarrow> 'r" where
  "saveMetrics ops now m r = gc_set ops WEBHOOK_METRICS_KEY (Metrics m) 86400 now r"

definition recordVerification :: "'r guard_cache \<Rightarrow> time \<Rightarrow> bool \<Rightarrow> number \<Rightarrow> 'r \<Rightarrow> 'r" where
  "recordVerification ops now success duration r =
     (let m = get_webhook_metrics ops now r; total = wm_totalVerifications m + 1;
          m = m\<lparr>wm_totalVerifications := total,
                wm_averageVerificationTime := (wm_averageVerificationTime m * of_nat (total - 1) + duration) / of_nat total,
                wm_lastVerificationAt := now\<rparr>;
          m = (if success then m\<lparr>wm_successfulVerifications := wm_successfulVerifications m + 1\<rparr>
               else m\<lparr>wm_failedVerifications := wm_failedVerifications m + 1, wm_other := wm_other m + 1\<rparr>)
      in saveMetrics ops now m r)"

datatype failure_kind = F_signature | F_timestamp | F_nonce | F_other

definition recordVerificationFailure :: "'r guard_cache \<Rightarrow> time \<Rightarrow> failure_kind \<Rightarrow> 'r \<Rightarrow> 'r" where
  "recordVerificationFailure ops now kind r =
     (let m = get_webhook_metrics ops now r;
          m = m\<lparr>wm_failedVerifications := wm_failedVerifications m + 1\<rparr>;
          m = (case kind of
                 F_signature \<Rightarrow> m\<lparr>wm_signature := wm_signature m + 1\<rparr>
               | F_timestamp \<Rightarrow> m\<lparr>wm_timestamp := wm_timestamp m + 1\<rparr>
               | F_nonce \<Rightarrow> m\<lparr>wm_nonce := wm_nonce m + 1\<rparr>
               | F_other \<Rightarrow> m\<lparr>wm_other := wm_other m + 1\<rparr>)
      in saveMetrics ops now m r)"

definition reset_webhook_metrics :: "'r guard_cache \<Rightarrow> time \<Rightarrow> 'r \<Rightarrow> 'r" where
  "reset_webhook_metrics ops now r = saveMetrics ops now (getDefaultMetrics now) r"

definition getHealthStatus :: "webhook_metrics \<Rightarrow> bool \<times> string list" where
  "getHealthStatus m =
     (let failureRate = of_nat (wm_failedVerifications m) / of_nat (wm_totalVerifications m) :: number;
          rate_issues = (if wm_totalVerifications m > 100 \<and> failureRate > 1 / 10
            then [''High failure rate: '' @ to_fixed 2 (failureRate * 100) @ ''%''] else []);
          time_issues = (if wm_averageVerificationTime m > 1000
            then [''Slow verification: '' @ to_fixed 2 (wm_averageVerificationTime m) @ ''ms average''] else []);
          totalFailures = wm_signature m + wm_timestamp m + wm_nonce m + wm_other m;
          pattern_issues = (if totalFailures > 50 \<and> of_nat (wm_signature m) / of_nat totalFailures > (1 / 2 :: number)
            then [''High signature verification failure rate''] else []);
          issues = rate_issues @ time_issues @ pattern_issues
      in (issues = [], issues))"

subsection \<open>The guard\<close>

text \<open>\<open>took\<close> is the time a verification takes.\<close>

definition canActivate_webhook ::
  "hmac \<Rightarrow> (string \<Rightarrow> string option) \<Rightarrow> 'r guard_cache \<Rightarrow> time \<Rightarrow> number \<Rightarrow> webhook_request \<Rightarrow> verified_options option \<Rightarrow> 'r \<Rightarrow>
   (webhook_error + bool) \<times> 'r" where
  "canActivate_webhook h config ops now took request options r = (case options of
       None \<Rightarrow> (Inr True, r)
     | Some options \<Rightarrow>
       case verifyWebhook h config ops now request options r of
         (Inr _, r) \<Rightarrow> (Inr True, recordVerification ops now True took r)
       | (Inl e, r) \<Rightarrow> (Inl e, recordVerification ops now False took r))"

subsection \<open>Comparing signatures\<close>

lemma char_code_inj: "char_code x = char_code y \<longleftrightarrow> x = y"
proof
  assume "char_code x = char_code y"
  then have "unat (char_code x) = unat (char_code y)" by simp
  moreover have "(of_char c :: nat) mod 2 ^ 32 = of_char c" for c :: char
    by (rule mod_less, rule less_le_trans [OF nat_of_char_less_256]) simp
  ultimately have "(of_char x :: nat) = of_char y" by (simp add: char_code_def unat_of_nat take_bit_eq_mod)
  then show "x = y" by simp
qed simp

lemma or_zero: "a OR b = 0 \<longleftrightarrow> a = 0 \<and> b = 0" for a b :: "32 word"
  by (auto simp: bit_eq_iff bit_or_iff)

lemma xor_zero: "a XOR b = 0 \<longleftrightarrow> a = b" for a b :: "32 word"
  by (auto simp: bit_eq_iff bit_xor_iff)

lemma compare_loop:
  "fold (\<lambda>(x, y) result. result OR (char_code x XOR char_code y)) zs r = 0 \<longleftrightarrow> r = 0 \<and> (\<forall>(x, y) \<in> set zs. x = y)"
  by (induction zs arbitrary: r) (auto simp: or_zero xor_zero char_code_inj)

text \<open>
  The comparison that looks at every character accepts exactly equal texts.
\<close>

lemma secure_compare_exact: "secureCompare a b \<longleftrightarrow> a = b"
proof (cases "length a = length b")
  case True
  then have "a = b \<longleftrightarrow> (\<forall>(x, y) \<in> set (zip a b). x = y)"
    by (induction a b rule: list_induct2) auto
  then show ?thesis using True by (simp add: secureCompare_def compare_loop)
qed (auto simp: secureCompare_def)

lemma secureCompare_same [simp]: "secureCompare a a"
  using compare_loop [of "zip a a" 0] by (auto simp: secureCompare_def zip_same)

lemma secureCompare_eq: "secureCompare a b \<Longrightarrow> a = b"
proof -
  assume c: "secureCompare a b"
  then have l: "length a = length b" by (simp add: secureCompare_def split: if_splits)
  then have "\<forall>(x, y) \<in> set (zip a b). x = y" using c by (simp add: secureCompare_def compare_loop)
  with l show "a = b" by (induction a b rule: list_induct2) auto
qed

subsection \<open>Forging and replaying\<close>

lemma guard_accepts:
  "fst (canActivate_webhook h config ops now took request (Some options) r) = Inr True \<longleftrightarrow>
   verifySignature h config (rq_body request) request options = Inr () \<and> verifyTimestamp now request options = Inr ()
   \<and> fst (verifyNonce ops now request options r) = Inr ()"
  by (auto simp: canActivate_webhook_def verifyWebhook_def getRawBody_def split: sum.splits prod.splits)

lemma timestamp_now:
  assumes "rq_header request (wo_timestampHeader options) = Some (show_nat n)" "0 \<le> tolerance_of options"
  shows "verifyTimestamp (int n) request options = Inr ()"
proof -
  obtain c cs where t: "show_nat n = c # cs" using show_nat_nonempty [of n] by (cases "show_nat n") auto
  then have "is_digit c" using show_nat_digits [of n] by simp
  then have c: "\<not> white_space c" "c \<noteq> CHR ''-''" "c \<noteq> CHR ''+''" by (auto simp: is_digit_def white_space_def)
  then have "js_parseInt (show_nat n) = map_option int (parse_int (show_nat n))" by (simp add: js_parseInt_def t)
  then show ?thesis using assms show_nat_nonempty [of n] by (simp add: verifyTimestamp_def Let_def)
qed

text \<open>
  The secret that checks the signature may come with the request, so whoever signs a body
  with a key of their own and sends that key along is accepted, whatever secret is configured.
\<close>

lemma forged_webhook_accepted:
  assumes "rq_header request (wo_secretHeader options) = Some key" "key \<noteq> []"
    and "wo_provider options = Generic \<or> wo_provider options = Stellar"
    and "rq_header request (wo_signatureHeader options) = Some (hm_hex h key (rq_body request))" "hm_hex h key (rq_body request) \<noteq> []"
    and "rq_header request (wo_timestampHeader options) = Some (show_nat n)" "0 \<le> tolerance_of options"
    and "rq_header request (wo_nonceHeader options) = Some nonce" "nonce \<noteq> []"
    and "gc_get ops (WEBHOOK_NONCE_CACHE_PREFIX @ nonce) (int n) r = None"
  shows "fst (canActivate_webhook h config ops (int n) took request (Some options) r) = Inr True"
proof -
  have "verifySignature h config (rq_body request) request options = Inr ()"
    using assms(1-5) by (auto simp: verifySignature_def Let_def getSecret_def expected_signature_def
        verifyGenericSignature_def verifyStellarSignature_def)
  moreover have "verifyTimestamp (int n) request options = Inr ()" using assms(6,7) by (rule timestamp_now)
  moreover have "fst (verifyNonce ops (int n) request options r) = Inr ()"
    using assms(8-10) by (simp add: verifyNonce_def Let_def)
  ultimately show ?thesis by (simp add: guard_accepts)
qed

text \<open>
  The signature covers neither the timestamp nor the nonce: a request that was accepted once is
  accepted again at any later time, by anybody who has seen it, with a new timestamp and nonce.
\<close>

lemma replay_with_new_nonce_accepted:
  assumes "fst (canActivate_webhook h config ops t took request (Some options) r) = Inr True"
    and "wo_timestampHeader options \<notin> {wo_signatureHeader options, wo_secretHeader options, wo_nonceHeader options}"
    and "wo_nonceHeader options \<notin> {wo_signatureHeader options, wo_secretHeader options}"
    and "nonce \<noteq> []" "gc_get ops (WEBHOOK_NONCE_CACHE_PREFIX @ nonce) (int n) r' = None"
    and "replayed = request\<lparr>rq_header := (rq_header request)(wo_timestampHeader options \<mapsto> show_nat n, wo_nonceHeader options \<mapsto> nonce)\<rparr>"
  shows "fst (canActivate_webhook h config ops (int n) took' replayed (Some options) r') = Inr True"
proof -
  have ok: "verifySignature h config (rq_body request) request options = Inr ()" "verifyTimestamp t request options = Inr ()"
    using assms(1) by (simp_all add: guard_accepts)
  have "rq_header replayed (wo_signatureHeader options) = rq_header request (wo_signatureHeader options)"
    "rq_header replayed (wo_secretHeader options) = rq_header request (wo_secretHeader options)" "rq_body replayed = rq_body request"
    using assms(2,3) by (auto simp: assms(6))
  then have "verifySignature h config (rq_body replayed) replayed options = Inr ()"
    using ok(1) by (simp add: verifySignature_def getSecret_def)
  moreover have "0 \<le> tolerance_of options"
    using ok(2) by (auto simp: verifyTimestamp_def Let_def split: if_splits option.splits)
  then have "verifyTimestamp (int n) replayed options = Inr ()"
    by (intro timestamp_now) (use assms(2) in \<open>auto simp: assms(6)\<close>)
  moreover have "fst (verifyNonce ops (int n) replayed options r') = Inr ()"
    using assms(4,5) by (simp add: verifyNonce_def Let_def assms(6))
  ultimately show ?thesis by (simp add: guard_accepts)
qed

text \<open>The digest in hexadecimal has no equals sign, but a Stripe signature has.\<close>

lemma split_comma_set: "x \<in> set (split_comma t) \<Longrightarrow> set x \<subseteq> set t"
proof (induction t arbitrary: x)
  case (Cons c cs)
  then show ?case by (cases "split_comma cs") (fastforce split: if_splits)+
qed simp

lemma group_64_set: "set (group_64 t) \<subseteq> insert (CHR 0x0A) (set t)"
proof (induction t rule: group_64.induct)
  case (1 t)
  then show ?case
    by (subst group_64.simps) (use set_take_subset [of 64 t] set_drop_subset [of 64 t] in auto)
qed

lemma trim_white_set: "set (trim_white t) \<subseteq> set t"
  unfolding trim_white_def by (auto dest!: set_dropWhileD)

text \<open>
  No Stripe webhook is ever accepted, since the whole header is compared with the bare
  digest, and a header in Stripe's format is never one.
\<close>

lemma stripe_never_accepted:
  assumes "wo_provider options = Stripe" "\<And>k p. CHR ''='' \<notin> set (hm_hex h k p)"
  shows "fst (canActivate_webhook h config ops now took request (Some options) r) \<noteq> Inr True"
proof
  assume "fst (canActivate_webhook h config ops now took request (Some options) r) = Inr True"
  then obtain signature secret expected where e: "verifyStripeSignature h (rq_body request) signature secret = Inr expected"
    and c: "secureCompare signature expected"
    using assms(1) by (auto simp: guard_accepts verifySignature_def Let_def expected_signature_def split: if_splits sum.splits)
  obtain el where el: "List.find (startsWith ''t='') (split_comma signature) = Some el"
    and x: "\<exists>p. expected = trim_white (group_64 (hm_hex h secret p))"
    using e by (auto simp: verifyStripeSignature_def Let_def split: option.splits)
  from el have "startsWith ''t='' el" "el \<in> set (split_comma signature)" by (auto simp: find_Some_iff in_set_conv_nth)
  then have "CHR ''='' \<in> set signature"
    using split_comma_set [of el signature] set_take_subset [of 2 el] by (auto simp: startsWith_def numeral_2_eq_2)
  moreover have "CHR ''='' \<notin> set expected"
    using x assms(2) trim_white_set group_64_set by fastforce
  ultimately show False using secureCompare_eq [OF c] by simp
qed

subsection \<open>A nonce counts once\<close>

text \<open>Calls of the guard one after the other, each with its time.\<close>

record guard_call =
  gl_now :: time
  gl_took :: number
  gl_request :: webhook_request
  gl_options :: "verified_options option"

definition run_guard :: "hmac \<Rightarrow> (string \<Rightarrow> string option) \<Rightarrow> 'r guard_cache \<Rightarrow> guard_call \<Rightarrow> 'r \<Rightarrow> 'r" where
  "run_guard h config ops c r = snd (canActivate_webhook h config ops (gl_now c) (gl_took c) (gl_request c) (gl_options c) r)"

lemma keys_differ: "WEBHOOK_METRICS_KEY \<noteq> WEBHOOK_NONCE_CACHE_PREFIX @ x"
  by (simp add: WEBHOOK_METRICS_KEY_def WEBHOOK_NONCE_CACHE_PREFIX_def)

context expiring_cache
begin

lemma record_keeps: "gc_get ops (WEBHOOK_NONCE_CACHE_PREFIX @ x) t (recordVerification ops now b took r) = gc_get ops (WEBHOOK_NONCE_CACHE_PREFIX @ x) t r"
  using keys_differ [of x] by (auto simp: recordVerification_def Let_def saveMetrics_def get_set)

text \<open>Whatever the guard does before the time \<open>until\<close>, a nonce that is used until then stays used.\<close>

lemma call_keeps:
  assumes used: "\<And>t. t < until \<Longrightarrow> gc_get ops (WEBHOOK_NONCE_CACHE_PREFIX @ x) t r \<noteq> None"
    and now: "gl_now c < until" and t: "t < until"
  shows "gc_get ops (WEBHOOK_NONCE_CACHE_PREFIX @ x) t (run_guard h config ops c r) \<noteq> None"
proof (cases "gl_options c")
  case (Some options)
  let ?n = "verifyNonce ops (gl_now c) (gl_request c) options r"
  have nonce: "gc_get ops (WEBHOOK_NONCE_CACHE_PREFIX @ x) t (snd ?n) \<noteq> None"
    using used [OF t] used [OF now] t now by (auto simp: verifyNonce_def Let_def get_set split: option.split)
  have "snd (verifyWebhook h config ops (gl_now c) (gl_request c) options r) \<in> {r, snd ?n}"
    by (auto simp: verifyWebhook_def Let_def split: sum.split)
  then have "gc_get ops (WEBHOOK_NONCE_CACHE_PREFIX @ x) t (snd (verifyWebhook h config ops (gl_now c) (gl_request c) options r)) \<noteq> None"
    using nonce used [OF t] by auto
  then show ?thesis
    by (auto simp: run_guard_def Some canActivate_webhook_def record_keeps split: prod.splits sum.splits)
qed (simp add: run_guard_def canActivate_webhook_def used t)

lemma calls_keep:
  assumes "\<And>t. t < until \<Longrightarrow> gc_get ops (WEBHOOK_NONCE_CACHE_PREFIX @ x) t r \<noteq> None" "\<forall>c \<in> set cs. gl_now c < until" "t < until"
  shows "gc_get ops (WEBHOOK_NONCE_CACHE_PREFIX @ x) t (fold (run_guard h config ops) cs r) \<noteq> None"
  using assms
proof (induction cs arbitrary: r)
  case (Cons c cs)
  have "gl_now c < until" using Cons.prems(2) by simp
  with Cons.prems(1) have "\<And>t. t < until \<Longrightarrow> gc_get ops (WEBHOOK_NONCE_CACHE_PREFIX @ x) t (run_guard h config ops c r) \<noteq> None"
    by (rule call_keeps)
  from Cons.IH [OF this] Cons.prems(2,3) show ?case by simp
qed simp

lemma accepted_is_used:
  assumes "fst (canActivate_webhook h config ops now took request (Some options) r) = Inr True"
    and "rq_header request (wo_nonceHeader options) = Some x" "t < now + life 86400"
  shows "gc_get ops (WEBHOOK_NONCE_CACHE_PREFIX @ x) t (snd (canActivate_webhook h config ops now took request (Some options) r)) \<noteq> None"
  using assms
  by (auto simp: canActivate_webhook_def verifyWebhook_def verifyNonce_def Let_def get_set record_keeps
      split: sum.splits prod.splits option.splits if_splits)

end

text \<open>
  Property C25: between a request that was accepted and the end of the nonce's life in the cache, whatever
  other requests come in, no request with the same nonce is accepted.
\<close>

theorem nonce_accepted_once:
  assumes "expiring_cache ops life"
    and "fst (canActivate_webhook h config ops t took request (Some options) r) = Inr True"
    and "rq_header request (wo_nonceHeader options) = Some x"
    and "list_all (\<lambda>c. gl_now c < t + life 86400) calls" "now < t + life 86400"
    and "r' = fold (run_guard h config ops) calls (snd (canActivate_webhook h config ops t took request (Some options) r))"
    and "rq_header again (wo_nonceHeader options') = Some x"
  shows "fst (canActivate_webhook h config ops now took' again (Some options') r') \<noteq> Inr True"
proof -
  have "gc_get ops (WEBHOOK_NONCE_CACHE_PREFIX @ x) now r' \<noteq> None"
    unfolding assms(6)
    by (rule expiring_cache.calls_keep [OF assms(1) expiring_cache.accepted_is_used [OF assms(1-3)]]) (use assms(4,5) in \<open>auto simp: list_all_iff\<close>)
  then show ?thesis using assms(7) by (auto simp: guard_accepts verifyNonce_def Let_def split: if_splits option.splits)
qed

subsection \<open>A cache, and witnesses\<close>

text \<open>Times to live in milliseconds, as \<open>cache-manager\<close> has them since its version 5.\<close>

definition memory_cache :: "(string \<times> guard_value \<times> time) list guard_cache" where
  "memory_cache = \<lparr>gc_get = (\<lambda>k now r. case map_of r k of None \<Rightarrow> None | Some (v, until) \<Rightarrow> if now < until then Some v else None),
     gc_set = (\<lambda>k v ttl t r. map_set k (v, t + ttl) r)\<rparr>"

interpretation memory_cache: expiring_cache memory_cache "\<lambda>ttl. ttl"
  by unfold_locales (simp add: memory_cache_def)

definition toy_hmac :: hmac where
  "toy_hmac = \<lparr>hm_hex = (\<lambda>k p. ''a'' @ k), hm_base64 = (\<lambda>k p. ''b'')\<rparr>"

definition toy_request :: webhook_request where
  "toy_request = \<lparr>rq_header = [''X-Webhook-Secret'' \<mapsto> ''mine'', ''X-Webhook-Signature'' \<mapsto> ''amine'', ''X-Webhook-Timestamp'' \<mapsto> show_nat 5,
     ''X-Webhook-Nonce'' \<mapsto> ''n1''], rq_body = ''{}''\<rparr>"

lemma toy_accepted: "fst (canActivate_webhook toy_hmac (\<lambda>_. Some ''theirs'') memory_cache 5 took toy_request (Some default_options) []) = Inr True"
  using forged_webhook_accepted [of toy_request default_options "''mine''" toy_hmac 5 "''n1''" memory_cache "[]"]
  by (simp add: toy_request_def default_options_def toy_hmac_def tolerance_of_def memory_cache_def)

theorem forged_webhook_accepted_witness:
  "fst (canActivate_webhook toy_hmac (\<lambda>_. Some ''theirs'') memory_cache (int 5) 1 toy_request (Some default_options) []) = Inr True"
  by (rule forged_webhook_accepted [where key = "''mine''" and nonce = "''n1''"])
    (simp_all add: toy_request_def default_options_def toy_hmac_def tolerance_of_def memory_cache_def)

theorem replay_with_new_nonce_accepted_witness:
  "fst (canActivate_webhook toy_hmac (\<lambda>_. Some ''theirs'') memory_cache (int 900000) 1
     (toy_request\<lparr>rq_header := (rq_header toy_request)(''X-Webhook-Timestamp'' \<mapsto> show_nat 900000, ''X-Webhook-Nonce'' \<mapsto> ''n2'')\<rparr>)
     (Some default_options) []) = Inr True"
  by (rule replay_with_new_nonce_accepted [OF toy_accepted, where nonce = "''n2''"])
    (simp_all add: default_options_def memory_cache_def)

theorem stripe_never_accepted_witness:
  "fst (canActivate_webhook (toy_hmac\<lparr>hm_hex := (\<lambda>k p. ''a'')\<rparr>) (\<lambda>_. Some ''theirs'') memory_cache 5 1 toy_request
     (Some (default_options\<lparr>wo_provider := Stripe\<rparr>)) []) \<noteq> Inr True"
  by (rule stripe_never_accepted) simp_all

theorem nonce_accepted_once_witness:
  "fst (canActivate_webhook toy_hmac (\<lambda>_. Some ''theirs'') memory_cache 7 1 toy_request (Some default_options)
     (fold (run_guard toy_hmac (\<lambda>_. Some ''theirs'') memory_cache) [\<lparr>gl_now = 6, gl_took = 1, gl_request = toy_request, gl_options = None\<rparr>]
       (snd (canActivate_webhook toy_hmac (\<lambda>_. Some ''theirs'') memory_cache 5 1 toy_request (Some default_options) [])))) \<noteq> Inr True"
  by (rule nonce_accepted_once [OF memory_cache.expiring_cache_axioms toy_accepted _ _ _ refl, where x = "''n1''"])
    (simp_all add: toy_request_def default_options_def)

end
