(* ===== verification/Webhooks.thy ===== *)
theory Webhooks
  imports Retry DeadLetter
begin

text \<open>
  \<open>WebhooksService\<close> (src/src/webhooks/webhooks.service.ts):
  the subscribers of events, the queue of deliveries, their
  attempts and the timers that repeat them. Identifiers, the clock, the digest, the JSON text of
  payloads and the answers of the receivers are parameters.
\<close>

subsection \<open>Rows and deliveries\<close>

datatype webhook_event = USER_CREATED | USER_UPDATED | USER_DELETED | WE_ORDER_CREATED | ORDER_UPDATED | ORDER_COMPLETED
  | PAYMENT_SUCCESS | PAYMENT_FAILED

fun event_text :: "webhook_event \<Rightarrow> string" where
  "event_text USER_CREATED = ''user.created''"
| "event_text USER_UPDATED = ''user.updated''"
| "event_text USER_DELETED = ''user.deleted''"
| "event_text WE_ORDER_CREATED = ''order.created''"
| "event_text ORDER_UPDATED = ''order.updated''"
| "event_text ORDER_COMPLETED = ''order.completed''"
| "event_text PAYMENT_SUCCESS = ''payment.success''"
| "event_text PAYMENT_FAILED = ''payment.failed''"

record webhook =
  wh_id :: uuid
  wh_url :: string
  wh_secret :: string
  wh_events :: "webhook_event list"
  wh_isActive :: bool
  wh_failureCount :: nat
  wh_lastFailureAt :: "time option"
  wh_lastSuccessAt :: "time option"
  wh_createdAt :: time

datatype delivery_status = D_pending | D_success | D_failed | D_exhausted

record delivery_response =
  wr_statusCode :: nat
  wr_body :: msg
  wr_headers :: "(string \<times> string) list"

record webhook_delivery =
  wd_id :: uuid
  wd_webhookId :: uuid
  wd_eventType :: webhook_event
  wd_payload :: string
  wd_signature :: string
  wd_attempts :: nat
  wd_maxRetries :: nat
  wd_nextRetryAt :: "time option"
  wd_status :: delivery_status
  wd_response :: "delivery_response option"
  wd_createdAt :: time
  wd_updatedAt :: time

text \<open>What was posted to a receiver: the body in its parts and the headers of its own.\<close>

record posted =
  po_url :: string
  po_event :: webhook_event
  po_data :: string
  po_timestamp :: time
  po_delivery_id :: uuid
  po_signature :: string
  po_agent :: string

text \<open>The timers of the process, in the order in which they were set.\<close>

datatype timer_action = Attempt uuid | Drop uuid

record hooks =
  hk_rows :: "webhook list"
  deliveryQueue :: "webhook_delivery list"
  hk_timers :: "(time \<times> timer_action) list"
  hk_posts :: "posted list"

definition maxRetries :: nat where
  "maxRetries = 5"

subsection \<open>Subscribers\<close>

record create_webhook_dto =
  ch_url :: string
  ch_secret :: string
  ch_events :: "webhook_event list"

definition create_webhook :: "uuid \<Rightarrow> time \<Rightarrow> create_webhook_dto \<Rightarrow> hooks \<Rightarrow> webhook \<times> hooks" where
  "create_webhook newId now dto s =
     (let w = \<lparr>wh_id = newId, wh_url = ch_url dto, wh_secret = ch_secret dto, wh_events = ch_events dto, wh_isActive = True,
           wh_failureCount = 0, wh_lastFailureAt = None, wh_lastSuccessAt = None, wh_createdAt = now\<rparr>
      in (w, s\<lparr>hk_rows := tbl_save wh_id w (hk_rows s)\<rparr>))"

definition findAll_webhooks :: "hooks \<Rightarrow> webhook list" where
  "findAll_webhooks s = sort_key (\<lambda>w. - wh_createdAt w) (hk_rows s)"

definition findOne_webhook :: "uuid \<Rightarrow> hooks \<Rightarrow> error + webhook" where
  "findOne_webhook i s = (case tbl_find wh_id i (hk_rows s) of
       None \<Rightarrow> Inl (NotFoundException [Txt ''Webhook with ID '', Txt i, Txt '' not found''])
     | Some w \<Rightarrow> Inr w)"

record update_webhook_dto =
  uh_url :: "string option"
  uh_secret :: "string option"
  uh_events :: "webhook_event list option"
  uh_isActive :: "bool option"

text \<open>TypeORM refuses an update without values.\<close>

definition update_webhook :: "uuid \<Rightarrow> update_webhook_dto \<Rightarrow> hooks \<Rightarrow> (webhook, hooks) result" where
  "update_webhook i dto s =
     (if uh_url dto = None \<and> uh_secret dto = None \<and> uh_events dto = None \<and> uh_isActive dto = None
      then (Inl (Error [Txt ''Cannot perform update query because update values are not defined.'']), s)
      else
        let change = (\<lambda>w. w\<lparr>wh_url := pick (wh_url w) (uh_url dto), wh_secret := pick (wh_secret w) (uh_secret dto),
                wh_events := pick (wh_events w) (uh_events dto), wh_isActive := pick (wh_isActive w) (uh_isActive dto)\<rparr>);
            s = s\<lparr>hk_rows := map (\<lambda>w. if wh_id w = i then change w else w) (hk_rows s)\<rparr>
        in (findOne_webhook i s, s))"

definition remove_webhook :: "uuid \<Rightarrow> hooks \<Rightarrow> (unit, hooks) result" where
  "remove_webhook i s =
     (if \<not> (\<exists>w \<in> set (hk_rows s). wh_id w = i)
      then (Inl (NotFoundException [Txt ''Webhook with ID '', Txt i, Txt '' not found'']), s)
      else (Inr (), s\<lparr>hk_rows := filter (\<lambda>w. wh_id w \<noteq> i) (hk_rows s)\<rparr>))"

text \<open>A column of type \<open>simple-array\<close> is a text with commas, and the condition compares that text with the event.\<close>

definition stored_events :: "webhook_event list \<Rightarrow> string" where
  "stored_events es = join_commas (map event_text es)"

definition findActiveWebhooksForEvent :: "webhook_event \<Rightarrow> hooks \<Rightarrow> webhook list" where
  "findActiveWebhooksForEvent e s = filter (\<lambda>w. wh_isActive w \<and> stored_events (wh_events w) = event_text e) (hk_rows s)"

subsection \<open>Deliveries\<close>

definition scheduleDelivery ::
  "(string \<Rightarrow> string \<Rightarrow> string) \<Rightarrow> uuid \<Rightarrow> time \<Rightarrow> webhook_event \<Rightarrow> string \<Rightarrow> webhook \<Rightarrow> hooks \<Rightarrow> hooks" where
  "scheduleDelivery hmac deliveryId now e payload w s =
     (let d = \<lparr>wd_id = deliveryId, wd_webhookId = wh_id w, wd_eventType = e, wd_payload = payload,
           wd_signature = hmac (wh_secret w) payload, wd_attempts = 0, wd_maxRetries = maxRetries, wd_nextRetryAt = None,
           wd_status = D_pending, wd_response = None, wd_createdAt = now, wd_updatedAt = now\<rparr>
      in s\<lparr>deliveryQueue := tbl_save wd_id d (deliveryQueue s), hk_timers := hk_timers s @ [(now, Attempt deliveryId)]\<rparr>)"

text \<open>\<open>newIds n\<close> is the identifier of the n-th delivery of a dispatch.\<close>

fun schedule_all ::
  "(string \<Rightarrow> string \<Rightarrow> string) \<Rightarrow> (nat \<Rightarrow> uuid) \<Rightarrow> nat \<Rightarrow> time \<Rightarrow> webhook_event \<Rightarrow> string \<Rightarrow> webhook list \<Rightarrow> hooks \<Rightarrow> hooks" where
  "schedule_all hmac newIds n now e payload [] s = s"
| "schedule_all hmac newIds n now e payload (w # ws) s =
     schedule_all hmac newIds (Suc n) now e payload ws (scheduleDelivery hmac (newIds n) now e payload w s)"

definition dispatchEvent ::
  "(string \<Rightarrow> string \<Rightarrow> string) \<Rightarrow> (nat \<Rightarrow> uuid) \<Rightarrow> time \<Rightarrow> webhook_event \<Rightarrow> string \<Rightarrow> hooks \<Rightarrow> hooks" where
  "dispatchEvent hmac newIds now e payload s =
     schedule_all hmac newIds 0 now e payload (findActiveWebhooksForEvent e s) s"

definition calculateBackoffDelay :: "nat \<Rightarrow> int" where
  "calculateBackoffDelay attempt = min (2 ^ attempt * 1000) 60000"

definition updateWebhookSuccess :: "time \<Rightarrow> uuid \<Rightarrow> hooks \<Rightarrow> hooks" where
  "updateWebhookSuccess now i s =
     s\<lparr>hk_rows := map (\<lambda>w. if wh_id w = i then w\<lparr>wh_failureCount := 0, wh_lastSuccessAt := Some now\<rparr> else w) (hk_rows s)\<rparr>"

definition updateWebhookFailure :: "time \<Rightarrow> uuid \<Rightarrow> hooks \<Rightarrow> hooks" where
  "updateWebhookFailure now i s =
     s\<lparr>hk_rows := map (\<lambda>w. if wh_id w = i then w\<lparr>wh_failureCount := wh_failureCount w + 1, wh_lastFailureAt := Some now\<rparr> else w)
         (hk_rows s)\<rparr>"

text \<open>The answer of a receiver: a response, or an error with the response that it may carry.\<close>

record http_failure =
  hf_message :: msg
  hf_status :: "nat option"
  hf_headers :: "(string \<times> string) list"

type_synonym answer = "http_failure + nat \<times> string \<times> (string \<times> string) list"

definition post_of :: "webhook \<Rightarrow> webhook_delivery \<Rightarrow> posted" where
  "post_of w d = \<lparr>po_url = wh_url w, po_event = wd_eventType d, po_data = wd_payload d, po_timestamp = wd_createdAt d,
     po_delivery_id = wd_id d, po_signature = wd_signature d, po_agent = ''Webhook-Service/1.0''\<rparr>"

definition save_delivery :: "webhook_delivery \<Rightarrow> hooks \<Rightarrow> hooks" where
  "save_delivery d s = s\<lparr>deliveryQueue := tbl_save wd_id d (deliveryQueue s)\<rparr>"

definition set_timer :: "time \<Rightarrow> timer_action \<Rightarrow> hooks \<Rightarrow> hooks" where
  "set_timer t a s = s\<lparr>hk_timers := hk_timers s @ [(t, a)]\<rparr>"

definition attempt_failed :: "time \<Rightarrow> http_failure \<Rightarrow> webhook_delivery \<Rightarrow> hooks \<Rightarrow> hooks" where
  "attempt_failed now f d s =
     (let d = d\<lparr>wd_response := Some \<lparr>wr_statusCode = (case hf_status f of None \<Rightarrow> 0 | Some n \<Rightarrow> n), wr_body = hf_message f,
            wr_headers = hf_headers f\<rparr>\<rparr>
      in if wd_attempts d \<ge> wd_maxRetries d
         then set_timer (now + 300000) (Drop (wd_id d))
                (updateWebhookFailure now (wd_webhookId d) (save_delivery (d\<lparr>wd_status := D_exhausted\<rparr>) s))
         else let delay = calculateBackoffDelay (wd_attempts d)
              in set_timer (now + delay) (Attempt (wd_id d))
                   (save_delivery (d\<lparr>wd_status := D_failed, wd_nextRetryAt := Some (now + delay)\<rparr>) s))"

definition attemptDelivery :: "time \<Rightarrow> answer \<Rightarrow> uuid \<Rightarrow> hooks \<Rightarrow> hooks" where
  "attemptDelivery now ans deliveryId s =
     (case tbl_find wd_id deliveryId (deliveryQueue s) of
        None \<Rightarrow> s
      | Some d \<Rightarrow>
        let d = d\<lparr>wd_attempts := wd_attempts d + 1, wd_updatedAt := now\<rparr>
        in case findOne_webhook (wd_webhookId d) s of
             Inl e \<Rightarrow> attempt_failed now \<lparr>hf_message = error_message e, hf_status = None, hf_headers = []\<rparr> d s
           | Inr w \<Rightarrow>
             let s = s\<lparr>hk_posts := hk_posts s @ [post_of w d]\<rparr>
             in case ans of
                  Inl f \<Rightarrow> attempt_failed now f d s
                | Inr (code, body, headers) \<Rightarrow>
                  set_timer (now + 60000) (Drop deliveryId)
                    (updateWebhookSuccess now (wh_id w)
                      (save_delivery (d\<lparr>wd_status := D_success,
                         wd_response := Some \<lparr>wr_statusCode = code, wr_body = [Txt body], wr_headers = headers\<rparr>\<rparr>) s)))"

definition drop_delivery :: "uuid \<Rightarrow> hooks \<Rightarrow> hooks" where
  "drop_delivery i s = s\<lparr>deliveryQueue := filter (\<lambda>d. wd_id d \<noteq> i) (deliveryQueue s)\<rparr>"

text \<open>A timer that is due fires; \<open>k\<close> is its place.\<close>

definition fire_timer :: "nat \<Rightarrow> time \<Rightarrow> answer \<Rightarrow> hooks \<Rightarrow> hooks" where
  "fire_timer k now ans s =
     (if k < length (hk_timers s) \<and> fst (hk_timers s ! k) \<le> now
      then let a = snd (hk_timers s ! k); s = s\<lparr>hk_timers := take k (hk_timers s) @ drop (Suc k) (hk_timers s)\<rparr>
           in case a of Attempt i \<Rightarrow> attemptDelivery now ans i s | Drop i \<Rightarrow> drop_delivery i s
      else s)"

definition cleanupOldDeliveries :: "time \<Rightarrow> hooks \<Rightarrow> hooks" where
  "cleanupOldDeliveries now s =
     (let cutoff = 24 * 60 * 60 * 1000
      in s\<lparr>deliveryQueue := filter (\<lambda>d. \<not> now - wd_createdAt d > cutoff) (deliveryQueue s)\<rparr>)"

definition getDeliveryStatus :: "uuid \<Rightarrow> hooks \<Rightarrow> webhook_delivery option" where
  "getDeliveryStatus i s = tbl_find wd_id i (deliveryQueue s)"

record queue_stats =
  qs_total :: nat
  qs_pending :: nat
  qs_failed :: nat

definition getQueueStats :: "hooks \<Rightarrow> queue_stats" where
  "getQueueStats s = \<lparr>qs_total = length (deliveryQueue s),
     qs_pending = length (filter (\<lambda>d. wd_status d = D_pending) (deliveryQueue s)),
     qs_failed = length (filter (\<lambda>d. wd_status d = D_failed) (deliveryQueue s))\<rparr>"

text \<open>A test posts once and touches neither the queue nor the row.\<close>

record test_result =
  tr_success :: bool
  tr_statusCode :: nat
  tr_error :: "msg option"

definition testWebhook ::
  "(string \<Rightarrow> string \<Rightarrow> string) \<Rightarrow> uuid \<Rightarrow> string \<Rightarrow> time \<Rightarrow> answer \<Rightarrow> uuid \<Rightarrow> webhook_event \<Rightarrow> string option \<Rightarrow> hooks \<Rightarrow> (test_result, hooks) result" where
  "testWebhook hmac newId default_payload now ans i e payload s =
     (case findOne_webhook i s of
        Inl err \<Rightarrow> (Inl err, s)
      | Inr w \<Rightarrow>
        let testPayload = (case payload of None \<Rightarrow> default_payload | Some p \<Rightarrow> p);
            s = s\<lparr>hk_posts := hk_posts s @ [\<lparr>po_url = wh_url w, po_event = e, po_data = testPayload, po_timestamp = now,
                  po_delivery_id = ''test-'' @ newId, po_signature = hmac (wh_secret w) testPayload,
                  po_agent = ''Webhook-Service/1.0 (Test)''\<rparr>]\<rparr>
        in (Inr (case ans of
              Inr (code, body, headers) \<Rightarrow> \<lparr>tr_success = True, tr_statusCode = code, tr_error = None\<rparr>
            | Inl f \<Rightarrow> \<lparr>tr_success = False, tr_statusCode = (case hf_status f of None \<Rightarrow> 0 | Some n \<Rightarrow> n),
                         tr_error = Some (hf_message f)\<rparr>), s))"

subsection \<open>Histories\<close>

datatype hook_op =
    Create_hook uuid time create_webhook_dto
  | Update_hook uuid update_webhook_dto
  | Remove_hook uuid
  | Dispatch "nat \<Rightarrow> uuid" time webhook_event string
  | Fire nat time answer
  | Cleanup time

primrec run_hook :: "(string \<Rightarrow> string \<Rightarrow> string) \<Rightarrow> hook_op \<Rightarrow> hooks \<Rightarrow> hooks" where
  "run_hook hmac (Create_hook i now dto) s = snd (create_webhook i now dto s)"
| "run_hook hmac (Update_hook i dto) s = snd (update_webhook i dto s)"
| "run_hook hmac (Remove_hook i) s = snd (remove_webhook i s)"
| "run_hook hmac (Dispatch ids now e payload) s = dispatchEvent hmac ids now e payload s"
| "run_hook hmac (Fire k now ans) s = fire_timer k now ans s"
| "run_hook hmac (Cleanup now) s = cleanupOldDeliveries now s"

subsection \<open>Who is told\<close>

lemma event_text_facts [simp]: "CHR '','' \<notin> set (event_text e)" "event_text e \<noteq> []"
  by (cases e; simp)+

lemma event_text_inj [simp]: "event_text a = event_text b \<longleftrightarrow> a = b"
  by (cases a; cases b; simp)

lemma stored_events_one: "stored_events es = event_text e \<longleftrightarrow> es = [e]"
proof (cases es)
  case Nil
  then show ?thesis by (simp add: stored_events_def not_sym [OF event_text_facts(2)])
next
  case (Cons a as)
  show ?thesis
  proof (cases as)
    case Nil
    then show ?thesis using Cons by (simp add: stored_events_def)
  next
    case (Cons b bs)
    then have "CHR '','' \<in> set (stored_events es)" using \<open>es = a # as\<close> by (simp add: stored_events_def)
    then have "stored_events es \<noteq> event_text e" using event_text_facts(1) [of e] by (intro notI) simp
    then show ?thesis using Cons \<open>es = a # as\<close> by simp
  qed
qed

text \<open>
  An event reaches exactly the active webhooks that subscribed to it and to nothing else: one
  that subscribed to two events or more is never told about any.
\<close>

lemma only_single_event_webhooks_told:
  "findActiveWebhooksForEvent e s = filter (\<lambda>w. wh_isActive w \<and> wh_events w = [e]) (hk_rows s)"
  by (simp add: findActiveWebhooksForEvent_def stored_events_one)

subsection \<open>At most five posts\<close>

definition posts_of :: "uuid \<Rightarrow> hooks \<Rightarrow> nat" where
  "posts_of i s = length (filter (\<lambda>p. po_delivery_id p = i) (hk_posts s))"

definition attempts_due :: "uuid \<Rightarrow> hooks \<Rightarrow> nat" where
  "attempts_due i s = length (filter (\<lambda>t. snd t = Attempt i) (hk_timers s))"

definition unsettled :: "webhook_delivery \<Rightarrow> bool" where
  "unsettled d \<longleftrightarrow> wd_status d = D_pending \<or> wd_status d = D_failed"

definition delivery_ok :: "hooks \<Rightarrow> webhook_delivery \<Rightarrow> bool" where
  "delivery_ok s d \<longleftrightarrow> wd_maxRetries d = 5 \<and> posts_of (wd_id d) s \<le> wd_attempts d \<and> wd_attempts d \<le> 5
     \<and> (unsettled d \<longrightarrow> wd_attempts d < 5) \<and> (wd_status d = D_exhausted \<longrightarrow> wd_attempts d = 5)
     \<and> attempts_due (wd_id d) s = (if unsettled d then 1 else 0)"

definition known :: "uuid \<Rightarrow> hooks \<Rightarrow> bool" where
  "known i s \<longleftrightarrow> i \<in> wd_id ` set (deliveryQueue s) \<or> 0 < attempts_due i s \<or> 0 < posts_of i s"

definition queue_ok :: "hooks \<Rightarrow> bool" where
  "queue_ok s \<longleftrightarrow> distinct (map wd_id (deliveryQueue s)) \<and> (\<forall>i. posts_of i s \<le> 5)
     \<and> (\<forall>i d. tbl_find wd_id i (deliveryQueue s) = Some d \<longrightarrow> delivery_ok s d)"

text \<open>The identifiers of a dispatch are new and differ from each other.\<close>

fun fresh_hooks :: "(string \<Rightarrow> string \<Rightarrow> string) \<Rightarrow> hook_op list \<Rightarrow> hooks \<Rightarrow> bool" where
  "fresh_hooks hmac [] s \<longleftrightarrow> True"
| "fresh_hooks hmac (x # xs) s \<longleftrightarrow>
     (case x of Dispatch ids now e payload \<Rightarrow> inj ids \<and> (\<forall>n. \<not> known (ids n) s) | _ \<Rightarrow> True) \<and> fresh_hooks hmac xs (run_hook hmac x s)"

text \<open>Only queue, timers and posts matter.\<close>

lemma queue_ok_cong:
  "deliveryQueue t = deliveryQueue s \<Longrightarrow> hk_timers t = hk_timers s \<Longrightarrow> hk_posts t = hk_posts s \<Longrightarrow> queue_ok t = queue_ok s"
  by (simp add: queue_ok_def delivery_ok_def posts_of_def attempts_due_def)

lemma find_filter:
  "distinct (map key t) \<Longrightarrow> tbl_find key k (filter P t) = (case tbl_find key k t of None \<Rightarrow> None | Some x \<Rightarrow> if P x then Some x else None)"
  by (induction t) (auto split: option.split simp: tbl_find_none_iff, metis image_eqI tbl_find_key tbl_find_mem)

lemma delivery_ok_cong:
  "hk_timers t = hk_timers s \<Longrightarrow> hk_posts t = hk_posts s \<Longrightarrow> delivery_ok t = delivery_ok s"
  by (simp add: delivery_ok_def posts_of_def attempts_due_def fun_eq_iff)

lemma filter_queue_ok:
  assumes ok: "queue_ok s" shows "queue_ok (s\<lparr>deliveryQueue := filter P (deliveryQueue s)\<rparr>)"
proof -
  let ?t = "s\<lparr>deliveryQueue := filter P (deliveryQueue s)\<rparr>"
  have d: "distinct (map wd_id (deliveryQueue s))" using ok by (simp add: queue_ok_def)
  have same: "delivery_ok ?t = delivery_ok s" by (rule delivery_ok_cong) simp_all
  have "delivery_ok s x" if "tbl_find wd_id i (deliveryQueue ?t) = Some x" for i x
    using that ok by (auto simp: find_filter [OF d] queue_ok_def split: option.splits if_splits)
  then show ?thesis using ok d unfolding queue_ok_def same by (simp add: posts_of_def distinct_map_filter)
qed

lemma schedule_ok:
  assumes "queue_ok s" "\<not> known i s"
  shows "queue_ok (scheduleDelivery hmac i now e payload w s)"
    and "k \<noteq> i \<Longrightarrow> known k (scheduleDelivery hmac i now e payload w s) = known k s"
proof -
  have new: "tbl_find wd_id i (deliveryQueue s) = None" "attempts_due i s = 0" "posts_of i s = 0"
    using assms(2) by (auto simp: known_def tbl_find_none_iff)
  let ?t = "scheduleDelivery hmac i now e payload w s"
  have posts: "posts_of k ?t = posts_of k s" for k by (simp add: posts_of_def scheduleDelivery_def Let_def)
  have due: "attempts_due k ?t = attempts_due k s + (if k = i then 1 else 0)" for k
    by (simp add: attempts_due_def scheduleDelivery_def Let_def)
  have "delivery_ok ?t d" if d: "tbl_find wd_id k (deliveryQueue ?t) = Some d" for k d
  proof (cases "k = i")
    case True
    then show ?thesis using d new due [of i] posts [of i]
      by (auto simp: scheduleDelivery_def Let_def delivery_ok_def unsettled_def maxRetries_def)
  next
    case False
    then have "tbl_find wd_id k (deliveryQueue s) = Some d" using d by (simp add: scheduleDelivery_def Let_def)
    then have "delivery_ok s d" "wd_id d = k" using assms(1) by (auto simp: queue_ok_def dest: tbl_find_key)
    then show ?thesis using False posts due by (simp add: delivery_ok_def)
  qed
  moreover have "distinct (map wd_id (deliveryQueue ?t))"
    using assms(1) by (simp add: scheduleDelivery_def Let_def queue_ok_def tbl_save_distinct)
  ultimately show "queue_ok ?t" using assms(1) posts by (simp add: queue_ok_def)
  show "known k (scheduleDelivery hmac i now e payload w s) = known k s" if "k \<noteq> i"
  proof -
    have "wd_id ` set (tbl_save wd_id d (deliveryQueue s)) = insert (wd_id d) (wd_id ` set (deliveryQueue s))" for d
      using arg_cong [OF tbl_save_keys [of wd_id d "deliveryQueue s"], of set] by (auto split: if_splits)
    then show ?thesis using that by (simp add: known_def scheduleDelivery_def Let_def attempts_due_def posts_of_def)
  qed
qed

lemma schedule_all_ok:
  "queue_ok s \<Longrightarrow> inj ids \<Longrightarrow> \<forall>m \<ge> n. \<not> known (ids m) s \<Longrightarrow> queue_ok (schedule_all hmac ids n now e payload ws s)"
proof (induction ws arbitrary: n s)
  case (Cons w ws)
  have fresh: "\<not> known (ids n) s" using Cons.prems(3) by simp
  have "\<forall>m \<ge> Suc n. \<not> known (ids m) (scheduleDelivery hmac (ids n) now e payload w s)"
    using Cons.prems(2,3) schedule_ok(2) [OF Cons.prems(1) fresh] by (metis Suc_leD injD not_less_eq_eq order_refl)
  with Cons.IH [OF schedule_ok(1) [OF Cons.prems(1) fresh] Cons.prems(2)] show ?case by simp
qed simp

lemma replace_ok:
  assumes "queue_ok s" "deliveryQueue t = tbl_save wd_id d (deliveryQueue s)" "delivery_ok t d"
    and "\<And>k. k \<noteq> wd_id d \<Longrightarrow> attempts_due k t = attempts_due k s \<and> posts_of k t = posts_of k s"
  shows "queue_ok t"
proof -
  have "delivery_ok t x" if x: "tbl_find wd_id k (deliveryQueue t) = Some x" for k x
  proof (cases "k = wd_id d")
    case False
    then have "tbl_find wd_id k (deliveryQueue s) = Some x" using x assms(2) by simp
    then have "delivery_ok s x" "wd_id x = k" using assms(1) by (auto simp: queue_ok_def dest: tbl_find_key)
    then show ?thesis using False assms(4) by (simp add: delivery_ok_def)
  qed (use x assms(2,3) in auto)
  moreover have "posts_of k t \<le> 5" for k
    using assms(1,3,4) by (cases "k = wd_id d") (auto simp: queue_ok_def delivery_ok_def)
  ultimately show ?thesis using assms(1,2) by (simp add: queue_ok_def tbl_save_distinct)
qed

lemma count_simps [simp]:
  "posts_of i (s\<lparr>hk_posts := hk_posts s @ [p]\<rparr>) = posts_of i s + (if po_delivery_id p = i then 1 else 0)"
  "posts_of i (save_delivery d s) = posts_of i s" "posts_of i (set_timer t a s) = posts_of i s"
  "posts_of i (updateWebhookSuccess t w s) = posts_of i s" "posts_of i (updateWebhookFailure t w s) = posts_of i s"
  "attempts_due i (s\<lparr>hk_posts := ps\<rparr>) = attempts_due i s" "attempts_due i (save_delivery d s) = attempts_due i s"
  "attempts_due i (set_timer t a s) = attempts_due i s + (if a = Attempt i then 1 else 0)"
  "attempts_due i (updateWebhookSuccess t w s) = attempts_due i s" "attempts_due i (updateWebhookFailure t w s) = attempts_due i s"
  "deliveryQueue (save_delivery d s) = tbl_save wd_id d (deliveryQueue s)" "deliveryQueue (set_timer t a s) = deliveryQueue s"
  "deliveryQueue (updateWebhookSuccess t w s) = deliveryQueue s" "deliveryQueue (updateWebhookFailure t w s) = deliveryQueue s"
  by (simp_all add: posts_of_def attempts_due_def save_delivery_def set_timer_def updateWebhookSuccess_def updateWebhookFailure_def)

text \<open>A failed attempt, with or without a post.\<close>

lemma attempt_failed_ok:
  assumes "queue_ok s" "wd_maxRetries d = 5" "posts_of (wd_id d) u \<le> wd_attempts d" "wd_attempts d \<le> 5"
    and "attempts_due (wd_id d) u = 0" "deliveryQueue u = deliveryQueue s"
    and "\<And>k. k \<noteq> wd_id d \<Longrightarrow> attempts_due k u = attempts_due k s \<and> posts_of k u = posts_of k s"
  shows "queue_ok (attempt_failed now f d u)"
proof (cases "wd_attempts d \<ge> wd_maxRetries d")
  case True
  show ?thesis
    by (rule replace_ok [OF assms(1), where d = "d\<lparr>wd_response := Some \<lparr>wr_statusCode = (case hf_status f of None \<Rightarrow> 0 | Some n \<Rightarrow> n),
            wr_body = hf_message f, wr_headers = hf_headers f\<rparr>, wd_status := D_exhausted\<rparr>"])
      (use True assms in \<open>simp_all add: attempt_failed_def Let_def delivery_ok_def unsettled_def\<close>)
next
  case False
  show ?thesis
    by (rule replace_ok [OF assms(1), where d = "d\<lparr>wd_response := Some \<lparr>wr_statusCode = (case hf_status f of None \<Rightarrow> 0 | Some n \<Rightarrow> n),
            wr_body = hf_message f, wr_headers = hf_headers f\<rparr>, wd_status := D_failed,
            wd_nextRetryAt := Some (now + calculateBackoffDelay (wd_attempts d))\<rparr>"])
      (use False assms in \<open>simp_all add: attempt_failed_def Let_def delivery_ok_def unsettled_def\<close>)
qed

lemma attempt_ok:
  assumes ok: "queue_ok s" and due: "\<And>k. attempts_due k s = attempts_due k u + (if k = i then 1 else 0)"
    and same: "deliveryQueue u = deliveryQueue s" "hk_posts u = hk_posts s"
  shows "queue_ok (attemptDelivery now ans i u)"
proof (cases "tbl_find wd_id i (deliveryQueue s)")
  case None
  have "delivery_ok u d" if d: "tbl_find wd_id k (deliveryQueue s) = Some d" for k d
  proof -
    have "delivery_ok s d" "wd_id d = k" "k \<noteq> i" using d None ok by (auto simp: queue_ok_def dest: tbl_find_key)
    then show ?thesis using due same by (simp add: delivery_ok_def posts_of_def)
  qed
  then have "queue_ok u" using ok same by (simp add: queue_ok_def posts_of_def)
  then show ?thesis using None same by (simp add: attemptDelivery_def)
next
  case (Some d)
  then have d: "delivery_ok s d" "wd_id d = i" using ok by (auto simp: queue_ok_def dest: tbl_find_key)
  have "0 < attempts_due i s" using due [of i] by simp
  then have open_: "unsettled d" "attempts_due i s = 1" using d by (auto simp: delivery_ok_def split: if_splits)
  then have none: "attempts_due i u = 0" using due [of i] by simp
  have few: "wd_attempts d < 5" "wd_maxRetries d = 5" "posts_of i u \<le> wd_attempts d"
    using d open_ same by (auto simp: delivery_ok_def posts_of_def)
  let ?d = "d\<lparr>wd_attempts := wd_attempts d + 1, wd_updatedAt := now\<rparr>"
  have others: "attempts_due k u = attempts_due k s \<and> posts_of k u = posts_of k s" if "k \<noteq> i" for k
    using due [of k] that same by (simp add: posts_of_def)
  show ?thesis
  proof (cases "findOne_webhook (wd_webhookId d) u")
    case (Inl e)
    have "queue_ok (attempt_failed now \<lparr>hf_message = error_message e, hf_status = None, hf_headers = []\<rparr> ?d u)"
      by (rule attempt_failed_ok [OF ok]) (use few none others d(2) same(1) in auto)
    then show ?thesis using Some same Inl by (simp add: attemptDelivery_def Let_def)
  next
    case (Inr w)
    let ?u = "u\<lparr>hk_posts := hk_posts u @ [post_of w ?d]\<rparr>"
    have post: "po_delivery_id (post_of w ?d) = i" by (simp add: post_of_def d)
    show ?thesis
    proof (cases ans)
      case (Inl f)
      have "queue_ok (attempt_failed now f ?d ?u)"
        by (rule attempt_failed_ok [OF ok]) (use few none others d(2) same(1) post in auto)
      then show ?thesis using Some same Inr Inl by (simp add: attemptDelivery_def Let_def)
    next
      case ans: (Inr r)
      obtain code body headers where r: "r = (code, body, headers)" by (cases r)
      let ?e = "?d\<lparr>wd_status := D_success, wd_response := Some \<lparr>wr_statusCode = code, wr_body = [Txt body], wr_headers = headers\<rparr>\<rparr>"
      have "queue_ok (set_timer (now + 60000) (Drop i) (updateWebhookSuccess now (wh_id w) (save_delivery ?e ?u)))"
        by (rule replace_ok [OF ok, where d = ?e])
          (use few none others d(2) same(1) post in \<open>simp_all add: delivery_ok_def unsettled_def\<close>)
      then show ?thesis using Some same Inr ans r by (simp add: attemptDelivery_def Let_def)
    qed
  qed
qed

lemma timer_removed:
  assumes "k < length (hk_timers s)" "u = s\<lparr>hk_timers := take k (hk_timers s) @ drop (Suc k) (hk_timers s)\<rparr>"
  shows "attempts_due i s = attempts_due i u + (if snd (hk_timers s ! k) = Attempt i then 1 else 0)"
proof -
  have "hk_timers s = take k (hk_timers s) @ hk_timers s ! k # drop (Suc k) (hk_timers s)" using assms(1) by (rule id_take_nth_drop)
  then have "filter (\<lambda>t. snd t = Attempt i) (hk_timers s)
      = filter (\<lambda>t. snd t = Attempt i) (take k (hk_timers s) @ hk_timers s ! k # drop (Suc k) (hk_timers s))" by simp
  then show ?thesis unfolding assms(2) attempts_due_def by simp
qed

lemma fire_ok: "queue_ok s \<Longrightarrow> queue_ok (fire_timer k now ans s)"
proof (cases "k < length (hk_timers s) \<and> fst (hk_timers s ! k) \<le> now")
  case True
  assume ok: "queue_ok s"
  let ?u = "s\<lparr>hk_timers := take k (hk_timers s) @ drop (Suc k) (hk_timers s)\<rparr>"
  show ?thesis
  proof (cases "snd (hk_timers s ! k)")
    case (Attempt i)
    have "queue_ok (attemptDelivery now ans i ?u)"
      by (rule attempt_ok [OF ok]) (use timer_removed [OF conjunct1 [OF True] refl] Attempt in auto)
    then show ?thesis using True Attempt by (simp add: fire_timer_def Let_def)
  next
    case (Drop i)
    have "delivery_ok ?u = delivery_ok s"
      using timer_removed [OF conjunct1 [OF True] refl] Drop by (simp add: delivery_ok_def posts_of_def fun_eq_iff)
    then have "queue_ok ?u" using ok by (simp add: queue_ok_def posts_of_def)
    then show ?thesis using True Drop filter_queue_ok [of ?u] by (simp add: fire_timer_def Let_def drop_delivery_def)
  qed
qed (auto simp: fire_timer_def)

lemma run_hook_ok:
  assumes ok: "queue_ok s" and fresh: "fresh_hooks hmac [x] s"
  shows "queue_ok (run_hook hmac x s)"
proof (cases x)
  case (Dispatch ids now e payload)
  then show ?thesis using schedule_all_ok [OF ok] fresh by (simp add: dispatchEvent_def)
next
  case (Fire k now ans)
  then show ?thesis using fire_ok [OF ok] by simp
next
  case (Cleanup now)
  then show ?thesis using filter_queue_ok [OF ok] by (simp add: cleanupOldDeliveries_def Let_def)
next
  case (Create_hook i now dto)
  have "queue_ok (run_hook hmac x s) = queue_ok s" by (rule queue_ok_cong) (simp_all add: Create_hook create_webhook_def Let_def)
  then show ?thesis using ok by simp
next
  case (Update_hook i dto)
  have "queue_ok (run_hook hmac x s) = queue_ok s" by (rule queue_ok_cong) (simp_all add: Update_hook update_webhook_def Let_def)
  then show ?thesis using ok by simp
next
  case (Remove_hook i)
  have "queue_ok (run_hook hmac x s) = queue_ok s" by (rule queue_ok_cong) (simp_all add: Remove_hook remove_webhook_def)
  then show ?thesis using ok by simp
qed

lemma hooks_ok: "queue_ok s \<Longrightarrow> fresh_hooks hmac xs s \<Longrightarrow> queue_ok (fold (run_hook hmac) xs s)"
proof (induction xs arbitrary: s)
  case (Cons x xs)
  have "queue_ok (run_hook hmac x s)" by (rule run_hook_ok) (use Cons.prems in auto)
  then show ?case using Cons by simp
qed simp

definition no_hooks :: hooks where
  "no_hooks = \<lparr>hk_rows = [], deliveryQueue = [], hk_timers = [], hk_posts = []\<rparr>"

text \<open>
  Property C20: in every history of subscriptions, dispatches, timers, receivers' answers and clean-ups a
  delivery is posted at most five times; one that gave up was attempted exactly five times; and a
  delivery waits for one further attempt exactly while it is pending or failed.
\<close>

theorem webhook_attempts_bounded:
  assumes "fresh_hooks hmac xs no_hooks" "t = fold (run_hook hmac) xs no_hooks"
  shows "posts_of i t \<le> 5
     \<and> (\<forall>d. getDeliveryStatus i t = Some d \<longrightarrow> wd_attempts d \<le> 5 \<and> posts_of i t \<le> wd_attempts d
          \<and> (wd_status d = D_exhausted \<longrightarrow> wd_attempts d = 5)
          \<and> attempts_due i t = (if wd_status d \<in> {D_pending, D_failed} then 1 else 0))"
proof -
  have "queue_ok no_hooks" by (simp add: queue_ok_def no_hooks_def posts_of_def)
  then have ok: "queue_ok t" using hooks_ok assms by simp
  have "delivery_ok t d \<and> wd_id d = i" if "getDeliveryStatus i t = Some d" for d
    using ok that by (auto simp: queue_ok_def getDeliveryStatus_def dest: tbl_find_key)
  then show ?thesis using ok by (auto simp: queue_ok_def delivery_ok_def unsettled_def)
qed

subsection \<open>Giving up\<close>

text \<open>
  A delivery whose receiver never answers is tried five times, after pauses of 2, 4, 8 and 16
  seconds, and counts as one failure of its webhook, however many attempts it took.
\<close>

lemma five_failures_count_once:
  assumes "tbl_find wh_id (wh_id w) (hk_rows s) = Some w" "tbl_find wd_id i (deliveryQueue s) = None" "hk_timers s = []"
    and "t = fold (\<lambda>now s. fire_timer 0 now (Inl f) s) [now, now + 2000, now + 6000, now + 14000, now + 30000]
               (scheduleDelivery hmac i now e payload w s)"
  shows "\<exists>d. getDeliveryStatus i t = Some d \<and> wd_status d = D_exhausted \<and> wd_attempts d = 5
     \<and> hk_timers t = [(now + 330000, Drop i)]
     \<and> map_option wh_failureCount (tbl_find wh_id (wh_id w) (hk_rows t)) = Some (wh_failureCount w + 1)
     \<and> posts_of i t = posts_of i s + 5"
proof -
  have rows: "tbl_find wh_id (wh_id w) (map (\<lambda>x. if wh_id x = wh_id w then g x else x) rs) = map_option g (tbl_find wh_id (wh_id w) rs)"
    if "\<forall>x. wh_id (g x) = wh_id x" for g rs
    using that by (induction rs) auto
  show ?thesis unfolding assms(4)
    using assms(1-3)
    by (simp add: fire_timer_def attemptDelivery_def scheduleDelivery_def attempt_failed_def findOne_webhook_def
        getDeliveryStatus_def save_delivery_def set_timer_def updateWebhookFailure_def calculateBackoffDelay_def maxRetries_def
        post_of_def posts_of_def rows Let_def)
qed

subsection \<open>Witnesses\<close>

definition sample_hook :: webhook where
  "sample_hook = \<lparr>wh_id = ''h'', wh_url = ''https://x'', wh_secret = ''s'', wh_events = [WE_ORDER_CREATED], wh_isActive = True,
     wh_failureCount = 3, wh_lastFailureAt = None, wh_lastSuccessAt = None, wh_createdAt = 0\<rparr>"

theorem five_failures_count_once_witness:
  "map_option wh_failureCount (tbl_find wh_id ''h'' (hk_rows (fold (\<lambda>now s. fire_timer 0 now (Inl \<lparr>hf_message = [], hf_status = None, hf_headers = []\<rparr>) s)
     [0, 0 + 2000, 0 + 6000, 0 + 14000, 0 + 30000] (scheduleDelivery (\<lambda>k p. k @ p) ''d'' 0 WE_ORDER_CREATED ''{}'' sample_hook
       (no_hooks\<lparr>hk_rows := [sample_hook]\<rparr>))))) = Some 4"
proof -
  have i: "wh_id sample_hook = ''h''" "wh_failureCount sample_hook = 3" by (simp_all add: sample_hook_def)
  have "tbl_find wh_id (wh_id sample_hook) (hk_rows (no_hooks\<lparr>hk_rows := [sample_hook]\<rparr>)) = Some sample_hook"
    "tbl_find wd_id ''d'' (deliveryQueue (no_hooks\<lparr>hk_rows := [sample_hook]\<rparr>)) = None"
    "hk_timers (no_hooks\<lparr>hk_rows := [sample_hook]\<rparr>) = []" by (simp_all add: no_hooks_def)
  from five_failures_count_once [OF this refl, of "\<lparr>hf_message = [], hf_status = None, hf_headers = []\<rparr>" 0 "\<lambda>k p. k @ p" WE_ORDER_CREATED "''{}''"]
  show ?thesis unfolding i by (elim exE conjE) (simp only: refl, simp)
qed

theorem webhook_attempts_bounded_witness:
  "posts_of ''d'' (fold (run_hook (\<lambda>k p. k @ p)) [Create_hook ''h'' 0 \<lparr>ch_url = ''u'', ch_secret = ''s'', ch_events = [WE_ORDER_CREATED]\<rparr>,
     Dispatch (\<lambda>n. ''d'' @ replicate n CHR ''x'') 1 WE_ORDER_CREATED ''{}'', Fire 0 1 (Inr (200, ''ok'', []))] no_hooks) \<le> 5"
proof -
  have "inj (\<lambda>n. ''d'' @ replicate n CHR ''x'')" by (auto simp: inj_on_def dest: arg_cong [where f = length])
  then have "fresh_hooks (\<lambda>k p. k @ p) [Create_hook ''h'' 0 \<lparr>ch_url = ''u'', ch_secret = ''s'', ch_events = [WE_ORDER_CREATED]\<rparr>,
     Dispatch (\<lambda>n. ''d'' @ replicate n CHR ''x'') 1 WE_ORDER_CREATED ''{}'', Fire 0 1 (Inr (200, ''ok'', []))] no_hooks"
    by (simp add: known_def create_webhook_def no_hooks_def Let_def attempts_due_def posts_of_def)
  from webhook_attempts_bounded [OF this refl] show ?thesis by blast
qed

end
