(* ===== verification/Wallet.thy ===== *)
theory Wallet
  imports Products "HOL-Library.Word"
begin

unbundle bit_operations_syntax

text \<open>
  \<open>WalletService\<close> (src/src/wallet/wallet.service.ts): the keys of a user's wallet, their encryption, the
  balance that Horizon tells and the audit events of withdrawals and deposits. Random bytes, the hash,
  the key stream of the cipher, the clock and Horizon's answers are parameters.
\<close>

subsection \<open>Rows and events\<close>

record user_wallet =
  uw_id :: uuid
  uw_publicKey :: string
  uw_secretKey :: string
  uw_userId :: string

record key_audit =
  ka_userId :: string
  ka_oldPublicKey :: string
  ka_oldSecretKey :: string

datatype wallet_action = Withdrawal_requested | Withdrawal_completed | Deposit_requested

record wallet_event =
  we_action :: wallet_action
  we_userId :: string
  we_ipAddress :: string
  we_userAgent :: "string option"
  we_success :: bool
  we_errorMessage :: "msg option"
  we_resourceId :: string
  we_previous :: "number option"
  we_new :: "number option"
  we_amount :: number
  we_destination :: "string option"
  we_transaction :: "string option"
  we_reason :: "string option"

record wallet_state =
  ws_wallets :: "user_wallet list"
  ws_audit :: "key_audit list"
  ws_events :: "wallet_event list"

subsection \<open>Keys\<close>

text \<open>The hexadecimal text of bytes.\<close>

definition hex_digit :: "nat \<Rightarrow> char" where
  "hex_digit n = ''0123456789abcdef'' ! n"

definition hex_byte :: "8 word \<Rightarrow> string" where
  "hex_byte b = [hex_digit (unat b div 16), hex_digit (unat b mod 16)]"

definition to_hex :: "8 word list \<Rightarrow> string" where
  "to_hex bs = concat (map hex_byte bs)"

definition text_bytes :: "string \<Rightarrow> 8 word list" where
  "text_bytes t = map (\<lambda>c. word_of_nat (of_char c)) t"

text \<open>Counter mode adds a stream of bytes to the text that depends on the key and the first counter alone;
  the first counter is always zero.\<close>

type_synonym key_stream = "string \<Rightarrow> 8 word list \<Rightarrow> nat \<Rightarrow> 8 word"

definition ctr :: "(nat \<Rightarrow> 8 word) \<Rightarrow> 8 word list \<Rightarrow> 8 word list" where
  "ctr stream bs = map (\<lambda>(i, b). b XOR stream i) (enumerate 0 bs)"

definition encrypt :: "key_stream \<Rightarrow> string option \<Rightarrow> string \<Rightarrow> error + string" where
  "encrypt stream SECRET_KEY t =
     (if \<not> truthy_text SECRET_KEY then Inl (Error [Txt ''SECRET_KEY is not defined in environment variables''])
      else Inr (to_hex (ctr (stream (take 32 (the SECRET_KEY)) (replicate 16 0)) (text_bytes t))))"

text \<open>The public key is the hash of the text of the secret key.\<close>

definition generateKeyPair :: "(string \<Rightarrow> 8 word list) \<Rightarrow> 8 word list \<Rightarrow> string \<times> string" where
  "generateKeyPair sha256 random = (let secretKey = to_hex random in (to_hex (sha256 secretKey), secretKey))"

definition createWalletForUser ::
  "(string \<Rightarrow> 8 word list) \<Rightarrow> key_stream \<Rightarrow> string option \<Rightarrow> 8 word list \<Rightarrow> uuid \<Rightarrow> string \<Rightarrow> wallet_state \<Rightarrow>
   (user_wallet, wallet_state) result" where
  "createWalletForUser sha256 stream key random newId userId s =
     (case generateKeyPair sha256 random of (publicKey, secretKey) \<Rightarrow>
        case encrypt stream key secretKey of
          Inl e \<Rightarrow> (Inl e, s)
        | Inr encryptedSecret \<Rightarrow>
          let w = \<lparr>uw_id = newId, uw_publicKey = publicKey, uw_secretKey = encryptedSecret, uw_userId = userId\<rparr>
          in (Inr w, s\<lparr>ws_wallets := tbl_save uw_id w (ws_wallets s)\<rparr>))"

definition findByUserId :: "string \<Rightarrow> wallet_state \<Rightarrow> user_wallet option" where
  "findByUserId userId s = List.find (\<lambda>w. uw_userId w = userId) (ws_wallets s)"

definition regenerateWalletKeys ::
  "(string \<Rightarrow> 8 word list) \<Rightarrow> key_stream \<Rightarrow> string option \<Rightarrow> 8 word list \<Rightarrow> string \<Rightarrow> wallet_state \<Rightarrow>
   (user_wallet, wallet_state) result" where
  "regenerateWalletKeys sha256 stream key random userId s =
     (case findByUserId userId s of
        None \<Rightarrow> (Inl (Error [Txt ''Wallet not found for user'']), s)
      | Some w \<Rightarrow>
        let s = s\<lparr>ws_audit := ws_audit s @ [\<lparr>ka_userId = userId, ka_oldPublicKey = uw_publicKey w, ka_oldSecretKey = uw_secretKey w\<rparr>]\<rparr>
        in case generateKeyPair sha256 random of (publicKey, secretKey) \<Rightarrow>
             case encrypt stream key secretKey of
               Inl e \<Rightarrow> (Inl e, s)
             | Inr encryptedSecret \<Rightarrow>
               let w = w\<lparr>uw_publicKey := publicKey, uw_secretKey := encryptedSecret\<rparr>
               in (Inr w, s\<lparr>ws_wallets := tbl_save uw_id w (ws_wallets s)\<rparr>))"

subsection \<open>Balances\<close>

text \<open>Horizon's answer for an account: its balances with their asset types, or an error with a status.\<close>

record horizon_error =
  he_status :: "nat option"
  he_message :: msg

type_synonym horizon = "string \<Rightarrow> horizon_error + (string \<times> string) list"

definition getWalletBalance :: "horizon \<Rightarrow> string \<Rightarrow> wallet_state \<Rightarrow> error + string \<times> string \<times> string" where
  "getWalletBalance horizon userId s =
     (case findByUserId userId s of
        None \<Rightarrow> Inl (Error [Txt ''Wallet not found for user''])
      | Some w \<Rightarrow>
        case horizon (uw_publicKey w) of
          Inl e \<Rightarrow> if he_status e = Some 404 then Inl (Error [Txt ''Wallet not found on Stellar network''])
                   else Inl (Error (Txt ''Failed to fetch wallet balance: '' # he_message e))
        | Inr balances \<Rightarrow>
          case List.find (\<lambda>b. fst b = ''native'') balances of
            None \<Rightarrow> Inl (Error [Txt ''Failed to fetch wallet balance: '', Txt ''No balance found for wallet''])
          | Some nativeBalance \<Rightarrow> Inr (snd nativeBalance, ''XLM'', uw_publicKey w))"

text \<open>What the sync prints, per wallet: it stores nothing.\<close>

definition syncAllWalletBalances :: "horizon \<Rightarrow> wallet_state \<Rightarrow> (uuid \<times> (msg + string)) list" where
  "syncAllWalletBalances horizon s =
     concat (map (\<lambda>w. case horizon (uw_publicKey w) of
         Inl e \<Rightarrow> [(uw_id w, Inl (he_message e))]
       | Inr balances \<Rightarrow> (case List.find (\<lambda>b. fst b = ''native'') balances of
             None \<Rightarrow> [] | Some b \<Rightarrow> [(uw_id w, Inr (snd b))])) (ws_wallets s))"

text \<open>\<open>/^G[A-Z2-7]{55}$/\<close>.\<close>

definition isValidStellarAddress :: "string \<Rightarrow> bool" where
  "isValidStellarAddress address = (case address of
       [] \<Rightarrow> False
     | c # cs \<Rightarrow> c = CHR ''G'' \<and> length cs = 55 \<and> (\<forall>x \<in> set cs. x \<in> set ''ABCDEFGHIJKLMNOPQRSTUVWXYZ234567''))"

subsection \<open>Requests\<close>

definition emit_wallet :: "wallet_event \<Rightarrow> wallet_state \<Rightarrow> wallet_state" where
  "emit_wallet e s = s\<lparr>ws_events := ws_events s @ [e]\<rparr>"

record request_context =
  rc_userId :: string
  rc_ipAddress :: string
  rc_userAgent :: "string option"

text \<open>The event of the \<open>catch\<close> clauses: its resource is the user.\<close>

definition failure_event :: "wallet_action \<Rightarrow> request_context \<Rightarrow> number \<Rightarrow> string option \<Rightarrow> string option \<Rightarrow> string option \<Rightarrow> error \<Rightarrow> wallet_event" where
  "failure_event action c amount destination tx reason e =
     \<lparr>we_action = action, we_userId = rc_userId c, we_ipAddress = rc_ipAddress c, we_userAgent = rc_userAgent c, we_success = False,
      we_errorMessage = Some (error_message e), we_resourceId = rc_userId c, we_previous = None, we_new = None, we_amount = amount,
      we_destination = destination, we_transaction = tx, we_reason = reason\<rparr>"

definition caught :: "(error \<Rightarrow> wallet_event) \<Rightarrow> ('a, wallet_state) result \<Rightarrow> ('a, wallet_state) result" where
  "caught f r = (case fst r of Inl e \<Rightarrow> (Inl e, emit_wallet (f e) (snd r)) | Inr x \<Rightarrow> r)"

text \<open>\<open>parseFloat\<close> of a plain decimal; other text is \<open>NaN\<close>, which no comparison holds for.\<close>

definition parse_float :: "string \<Rightarrow> number option" where
  "parse_float t = text_value t"

definition less_num :: "number option \<Rightarrow> number \<Rightarrow> bool" where
  "less_num a b = (case a of None \<Rightarrow> False | Some x \<Rightarrow> x < b)"

definition transaction_id :: "string \<Rightarrow> time \<Rightarrow> string \<Rightarrow> string" where
  "transaction_id kind now random = kind @ ''_'' @ int_text now @ ''_'' @ random"

definition withdrawal_work ::
  "horizon \<Rightarrow> time \<Rightarrow> string \<Rightarrow> request_context \<Rightarrow> number \<Rightarrow> string \<Rightarrow> wallet_state \<Rightarrow> (string, wallet_state) result" where
  "withdrawal_work horizon now random c amount destination s =
     (if amount \<le> 0 then (Inl (BadRequestException [Txt ''Withdrawal amount must be positive'']), s)
      else case findByUserId (rc_userId c) s of
        None \<Rightarrow> (Inl (BadRequestException [Txt ''Wallet not found for user'']), s)
      | Some w \<Rightarrow>
        if \<not> isValidStellarAddress destination then (Inl (BadRequestException [Txt ''Invalid destination address'']), s)
        else case getWalletBalance horizon (rc_userId c) s of
          Inl e \<Rightarrow> (Inl e, s)
        | Inr (balance, _, _) \<Rightarrow>
          let value = parse_float balance;
              event = \<lparr>we_action = Withdrawal_requested, we_userId = rc_userId c, we_ipAddress = rc_ipAddress c,
                we_userAgent = rc_userAgent c, we_success = True, we_errorMessage = None, we_resourceId = uw_id w,
                we_previous = value, we_new = map_option (\<lambda>b. b - amount) value, we_amount = amount,
                we_destination = Some destination, we_transaction = None, we_reason = None\<rparr>
          in if less_num value amount
             then (Inl (BadRequestException [Txt ''Insufficient balance for withdrawal'']),
                   emit_wallet (event\<lparr>we_success := False, we_errorMessage := Some [Txt ''Insufficient balance''],
                     we_reason := Some ''insufficient_balance''\<rparr>) s)
             else let transactionId = transaction_id ''withdrawal'' now random
                  in (Inr transactionId, emit_wallet (event\<lparr>we_transaction := Some transactionId\<rparr>) s))"

definition requestWithdrawal ::
  "horizon \<Rightarrow> time \<Rightarrow> string \<Rightarrow> request_context \<Rightarrow> number \<Rightarrow> string \<Rightarrow> wallet_state \<Rightarrow> (string, wallet_state) result" where
  "requestWithdrawal horizon now random c amount destination s =
     caught (failure_event Withdrawal_requested c amount (Some destination) None (Some ''system_error''))
       (withdrawal_work horizon now random c amount destination s)"

definition completeWithdrawal ::
  "request_context \<Rightarrow> string \<Rightarrow> number \<Rightarrow> string \<Rightarrow> wallet_state \<Rightarrow> (bool, wallet_state) result" where
  "completeWithdrawal c transactionHash amount destination s =
     caught (failure_event Withdrawal_completed c amount (Some destination) (Some transactionHash) None)
       (if transactionHash = [] then (Inl (BadRequestException [Txt ''Transaction hash is required'']), s)
        else case findByUserId (rc_userId c) s of
          None \<Rightarrow> (Inl (BadRequestException [Txt ''Wallet not found for user'']), s)
        | Some w \<Rightarrow> (Inr True, emit_wallet \<lparr>we_action = Withdrawal_completed, we_userId = rc_userId c, we_ipAddress = rc_ipAddress c,
                we_userAgent = rc_userAgent c, we_success = True, we_errorMessage = None, we_resourceId = uw_id w,
                we_previous = None, we_new = None, we_amount = amount,
                we_destination = Some destination, we_transaction = Some transactionHash, we_reason = None\<rparr> s))"

definition requestDeposit ::
  "horizon \<Rightarrow> time \<Rightarrow> string \<Rightarrow> request_context \<Rightarrow> number \<Rightarrow> wallet_state \<Rightarrow> (string, wallet_state) result" where
  "requestDeposit horizon now random c amount s =
     caught (failure_event Deposit_requested c amount None None (Some ''system_error''))
       (if amount \<le> 0 then (Inl (BadRequestException [Txt ''Deposit amount must be positive'']), s)
        else case findByUserId (rc_userId c) s of
          None \<Rightarrow> (Inl (BadRequestException [Txt ''Wallet not found for user'']), s)
        | Some w \<Rightarrow>
          case getWalletBalance horizon (rc_userId c) s of
            Inl e \<Rightarrow> (Inl e, s)
          | Inr (balance, _, _) \<Rightarrow>
            let transactionId = transaction_id ''deposit'' now random; value = parse_float balance
            in (Inr transactionId, emit_wallet \<lparr>we_action = Deposit_requested, we_userId = rc_userId c, we_ipAddress = rc_ipAddress c,
                we_userAgent = rc_userAgent c, we_success = True, we_errorMessage = None, we_resourceId = uw_id w,
                we_previous = value, we_new = map_option (\<lambda>b. b + amount) value, we_amount = amount,
                we_destination = None, we_transaction = Some transactionId, we_reason = None\<rparr> s))"

subsection \<open>What the requests leave\<close>

lemma wallets_kept [simp]: "ws_wallets (emit_wallet e s) = ws_wallets s" "ws_wallets (snd (caught f r)) = ws_wallets (snd r)"
  by (simp_all add: emit_wallet_def caught_def split: sum.split)

text \<open>What a withdrawal that is granted leaves.\<close>

definition granted_event :: "horizon \<Rightarrow> time \<Rightarrow> string \<Rightarrow> request_context \<Rightarrow> number \<Rightarrow> string \<Rightarrow> user_wallet \<Rightarrow> string \<Rightarrow> wallet_event" where
  "granted_event horizon now random c amount destination w balance =
     \<lparr>we_action = Withdrawal_requested, we_userId = rc_userId c, we_ipAddress = rc_ipAddress c,
      we_userAgent = rc_userAgent c, we_success = True, we_errorMessage = None, we_resourceId = uw_id w,
      we_previous = parse_float balance, we_new = map_option (\<lambda>b. b - amount) (parse_float balance), we_amount = amount,
      we_destination = Some destination, we_transaction = Some (transaction_id ''withdrawal'' now random), we_reason = None\<rparr>"

lemma caught_Inr: "caught f r = (Inr x, t) \<longleftrightarrow> r = (Inr x, t)"
  by (cases r) (auto simp: caught_def split: sum.splits)

lemma withdrawal_granted:
  "requestWithdrawal horizon now random c amount destination s = (Inr tx, t) \<longleftrightarrow>
   0 < amount \<and> isValidStellarAddress destination \<and> tx = transaction_id ''withdrawal'' now random
   \<and> (\<exists>w balance cur key. findByUserId (rc_userId c) s = Some w \<and> getWalletBalance horizon (rc_userId c) s = Inr (balance, cur, key)
        \<and> \<not> less_num (parse_float balance) amount
        \<and> t = emit_wallet (granted_event horizon now random c amount destination w balance) s)"
  unfolding requestWithdrawal_def caught_Inr withdrawal_work_def
  by (cases "findByUserId (rc_userId c) s"; cases "getWalletBalance horizon (rc_userId c) s")
    (auto simp: granted_event_def Let_def split: prod.splits)

text \<open>
  A withdrawal reserves nothing: when one is granted, every further one of the same amount
  is granted too while Horizon tells the same balance, whatever their sum, and each is on record as
  leaving the same balance behind.
\<close>

lemma withdrawals_reserve_nothing:
  assumes "requestWithdrawal horizon now random c amount destination s = (Inr tx, t)"
    and "rs = map (\<lambda>n. requestWithdrawal horizon n random c amount destination t) moments"
  shows "list_all (\<lambda>r. \<exists>tx'. fst r = Inr tx' \<and> (\<exists>e. ws_events (snd r) = ws_events t @ [e] \<and> we_success e
      \<and> we_new e = we_new (last (ws_events t)) \<and> we_amount e = amount)) rs"
proof -
  obtain w balance cur key where found: "findByUserId (rc_userId c) s = Some w" "getWalletBalance horizon (rc_userId c) s = Inr (balance, cur, key)"
    and enough: "0 < amount" "isValidStellarAddress destination" "\<not> less_num (parse_float balance) amount"
    and t: "t = emit_wallet (granted_event horizon now random c amount destination w balance) s"
    using assms(1) unfolding withdrawal_granted by blast
  have same: "findByUserId (rc_userId c) t = Some w" "getWalletBalance horizon (rc_userId c) t = Inr (balance, cur, key)"
    using found unfolding t by (simp_all add: findByUserId_def getWalletBalance_def)
  have again: "requestWithdrawal horizon n random c amount destination t
      = (Inr (transaction_id ''withdrawal'' n random), emit_wallet (granted_event horizon n random c amount destination w balance) t)" for n
    unfolding withdrawal_granted using same enough by blast
  show ?thesis unfolding assms(2) again
    by (simp add: list_all_iff granted_event_def emit_wallet_def t)
qed

text \<open>
  A withdrawal of more than the balance is refused and recorded twice: once with the
  balance and once as a system error of the user.
\<close>

lemma refused_withdrawal_recorded_twice:
  assumes "0 < amount" "findByUserId (rc_userId c) s = Some w" "isValidStellarAddress destination"
    and "getWalletBalance horizon (rc_userId c) s = Inr (balance, cur, key)" "parse_float balance = Some b" "b < amount"
  shows "\<exists>e f t. requestWithdrawal horizon now random c amount destination s = (Inl (BadRequestException [Txt ''Insufficient balance for withdrawal'']), t)
     \<and> ws_events t = ws_events s @ [e, f] \<and> \<not> we_success e \<and> \<not> we_success f
     \<and> we_resourceId e = uw_id w \<and> we_reason e = Some ''insufficient_balance'' \<and> we_reason f = Some ''system_error'' \<and> ws_wallets t = ws_wallets s"
  using assms by (simp add: requestWithdrawal_def withdrawal_work_def caught_def emit_wallet_def failure_event_def less_num_def Let_def)

subsection \<open>The keys\<close>

definition hex_chars :: "char set" where
  "hex_chars = set ''0123456789abcdef''"

lemma hex_digits: "n < 16 \<Longrightarrow> hex_digit n \<in> hex_chars"
  unfolding hex_digit_def hex_chars_def by (rule nth_mem) simp

lemma hex_byte_chars: "set (hex_byte b) \<subseteq> hex_chars"
proof -
  have "unat b < 256" using unsigned_less [of b] by simp
  then have "unat b div 16 < 16" "unat b mod 16 < 16" by linarith+
  from this [THEN hex_digits] show ?thesis unfolding hex_byte_def by simp
qed

lemma to_hex_chars: "set (to_hex bs) \<subseteq> hex_chars"
  unfolding to_hex_def using hex_byte_chars by auto

text \<open>
  The keys that the service makes are not keys of Stellar: no wallet it creates or renews has a
  public key that its own check of addresses accepts.
\<close>

lemma generated_key_no_stellar_address:
  "\<not> isValidStellarAddress (fst (generateKeyPair sha256 random))"
proof
  assume "isValidStellarAddress (fst (generateKeyPair sha256 random))"
  then have "CHR ''G'' \<in> set (to_hex (sha256 (to_hex random)))"
    by (auto simp: isValidStellarAddress_def generateKeyPair_def Let_def split: list.splits)
  then have "CHR ''G'' \<in> hex_chars" using to_hex_chars by blast
  then show False by (simp add: hex_chars_def)
qed

lemma xor_swap: "(a XOR k) XOR (b XOR k) = a XOR b" for a b k :: "8 word"
  by (auto simp: bit_eq_iff bit_xor_iff)

text \<open>
  Since every text is encrypted from the same counter, the sum of two encrypted secrets of one
  length is the sum of the secrets: who knows one of them reads all others.
\<close>

lemma encrypted_secrets_share_stream:
  assumes "length a = length b"
  shows "map2 (XOR) (ctr stream (text_bytes a)) (ctr stream (text_bytes b)) = map2 (XOR) (text_bytes a) (text_bytes b)"
proof (rule nth_equalityI)
  fix i assume "i < length (map2 (XOR) (ctr stream (text_bytes a)) (ctr stream (text_bytes b)))"
  then have "i < length a" "i < length b" using assms by (simp_all add: ctr_def text_bytes_def)
  then show "map2 (XOR) (ctr stream (text_bytes a)) (ctr stream (text_bytes b)) ! i = map2 (XOR) (text_bytes a) (text_bytes b) ! i"
    by (simp add: ctr_def text_bytes_def nth_enumerate_eq xor_swap)
qed (use assms in \<open>simp add: ctr_def text_bytes_def\<close>)

subsection \<open>Witnesses\<close>

definition purse :: wallet_state where
  "purse = \<lparr>ws_wallets = [\<lparr>uw_id = ''w'', uw_publicKey = ''K'', uw_secretKey = ''S'', uw_userId = ''u''\<rparr>], ws_audit = [], ws_events = []\<rparr>"

definition caller :: request_context where
  "caller = \<lparr>rc_userId = ''u'', rc_ipAddress = ''::1'', rc_userAgent = None\<rparr>"

definition target :: string where
  "target = CHR ''G'' # replicate 55 (CHR ''A'')"

lemma purse_facts:
  "findByUserId (rc_userId caller) purse = Some \<lparr>uw_id = ''w'', uw_publicKey = ''K'', uw_secretKey = ''S'', uw_userId = ''u''\<rparr>"
  "isValidStellarAddress target" "getWalletBalance (\<lambda>_. Inr [(''native'', ''100'')]) (rc_userId caller) purse = Inr (''100'', ''XLM'', ''K'')"
  "parse_float ''100'' = Some 100"
  by (simp_all add: findByUserId_def getWalletBalance_def purse_def caller_def target_def isValidStellarAddress_def parse_float_def
      text_value_def text_eval)

theorem withdrawals_reserve_nothing_witness:
  "\<exists>t. requestWithdrawal (\<lambda>_. Inr [(''native'', ''100'')]) 1 ''r'' caller 80 target purse = (Inr (transaction_id ''withdrawal'' 1 ''r''), t)
     \<and> list_all (\<lambda>r. \<exists>tx'. fst r = Inr tx') (map (\<lambda>n. requestWithdrawal (\<lambda>_. Inr [(''native'', ''100'')]) n ''r'' caller 80 target t) [2, 3, 4])"
proof -
  obtain t where run: "requestWithdrawal (\<lambda>_. Inr [(''native'', ''100'')]) 1 ''r'' caller 80 target purse = (Inr (transaction_id ''withdrawal'' 1 ''r''), t)"
    unfolding withdrawal_granted using purse_facts by (simp add: less_num_def)
  from withdrawals_reserve_nothing [OF run refl, of "[2, 3, 4]"] run show ?thesis by auto
qed

theorem refused_withdrawal_recorded_twice_witness:
  "\<exists>t. requestWithdrawal (\<lambda>_. Inr [(''native'', ''100'')]) 1 ''r'' caller 180 target purse
     = (Inl (BadRequestException [Txt ''Insufficient balance for withdrawal'']), t) \<and> length (ws_events t) = 2"
  using refused_withdrawal_recorded_twice [OF _ purse_facts(1-4), of 180 1 "''r''"] by (auto simp: purse_def)

theorem encrypted_secrets_share_stream_witness:
  "map2 (XOR) (ctr (\<lambda>i. of_nat i) (text_bytes ''ab'')) (ctr (\<lambda>i. of_nat i) (text_bytes ''cd'')) = map2 (XOR) (text_bytes ''ab'') (text_bytes ''cd'')"
  by (rule encrypted_secrets_share_stream) simp

end
