(* ===== verification/Auth.thy ===== *)
theory Auth
  imports WebhookGuard
begin

text \<open>
  \<open>AuthService\<close> (src/src/auth/auth.service.ts), \<open>TokenRegistryService\<close> (auth/token-registry.service.ts), the
  profiles of OAuth providers (auth/types/oauth-profile.types.ts), the routes and guards that call them
  and \<open>UsersService\<close> (src/src/users/users.service.ts). The cache, \<open>bcrypt\<close>, the signing of access
  tokens, the codes of \<open>otplib\<close>, random texts and the clock are parameters.
\<close>

subsection \<open>Users\<close>

record user_account =
  ua_id :: nat
  ua_email :: string
  ua_password :: "string option"
  ua_name :: string
  ua_bio :: "string option"
  ua_avatarUrl :: "string option"
  ua_language :: "string option"
  ua_oauthProvider :: "string option"
  ua_oauthProviderId :: "string option"
  ua_status :: string
  ua_isActive :: bool
  ua_twoFAEnabled :: bool
  ua_twoFASecret :: "string option"
  ua_refreshToken :: "string option"
  ua_deletedAt :: "time option"

record user_listing =
  li_userId :: string
  li_deletedAt :: "time option"

record password_event =
  pe_userId :: string
  pe_success :: bool
  pe_errorMessage :: "string option"
  pe_reason :: string

datatype auth_event = Password_changed password_event | Reset_requested string string string | User_created nat

record accounts =
  ac_users :: "user_account list"
  ac_listings :: "user_listing list"
  ac_events :: "auth_event list"

text \<open>Soft-deleted rows are invisible to finds, but not to the unique columns.\<close>

definition visible :: "user_account \<Rightarrow> bool" where
  "visible u \<longleftrightarrow> ua_deletedAt u = None"

datatype auth_error = Unauthorized string | Forbidden string | Bad string | Not_found string | Driver string

primrec auth_message :: "auth_error \<Rightarrow> string" where
  "auth_message (Unauthorized m) = m"
| "auth_message (Forbidden m) = m"
| "auth_message (Bad m) = m"
| "auth_message (Not_found m) = m"
| "auth_message (Driver m) = m"

type_synonym 'a auth_result = "(auth_error + 'a) \<times> accounts"

record create_user_dto =
  nw_email :: string
  nw_password :: "string option"
  nw_name :: string
  nw_bio :: "string option"
  nw_avatarUrl :: "string option"
  nw_language :: "string option"
  nw_oauthProvider :: "string option"
  nw_oauthProviderId :: "string option"

definition new_user :: "nat \<Rightarrow> create_user_dto \<Rightarrow> user_account" where
  "new_user newId dto =
     \<lparr>ua_id = newId, ua_email = nw_email dto, ua_password = nw_password dto, ua_name = nw_name dto, ua_bio = nw_bio dto,
      ua_avatarUrl = nw_avatarUrl dto, ua_language = (case nw_language dto of None \<Rightarrow> Some ''en'' | Some l \<Rightarrow> Some l),
      ua_oauthProvider = nw_oauthProvider dto, ua_oauthProviderId = nw_oauthProviderId dto, ua_status = ''active'',
      ua_isActive = True, ua_twoFAEnabled = False, ua_twoFASecret = None, ua_refreshToken = None, ua_deletedAt = None\<rparr>"

text \<open>The welcome mail is left to the notifications.\<close>

definition create_user :: "nat \<Rightarrow> create_user_dto \<Rightarrow> accounts \<Rightarrow> user_account auth_result" where
  "create_user newId dto s =
     (if \<exists>u \<in> set (ac_users s). ua_email u = nw_email dto \<or> (nw_oauthProviderId dto \<noteq> None \<and> ua_oauthProviderId u = nw_oauthProviderId dto)
      then (Inl (Driver ''duplicate key value violates unique constraint''), s)
      else let u = new_user newId dto
           in (Inr u, s\<lparr>ac_users := ac_users s @ [u], ac_events := ac_events s @ [User_created newId]\<rparr>))"

definition findAll_users :: "accounts \<Rightarrow> user_account list" where
  "findAll_users s = filter visible (ac_users s)"

definition findOne_user :: "nat \<Rightarrow> accounts \<Rightarrow> auth_error + user_account" where
  "findOne_user i s = (case List.find (\<lambda>u. ua_id u = i \<and> visible u) (ac_users s) of
       None \<Rightarrow> Inl (Not_found (''User with ID '' @ show_nat i @ '' not found''))
     | Some u \<Rightarrow> Inr u)"

definition findByEmail :: "string \<Rightarrow> accounts \<Rightarrow> user_account option" where
  "findByEmail email s = List.find (\<lambda>u. ua_email u = email \<and> visible u) (ac_users s)"

definition save_user :: "user_account \<Rightarrow> accounts \<Rightarrow> accounts" where
  "save_user u s = s\<lparr>ac_users := tbl_save ua_id u (ac_users s)\<rparr>"

text \<open>An update by identifier changes the row whether it is deleted or not.\<close>

definition update_account :: "nat \<Rightarrow> (user_account \<Rightarrow> user_account) \<Rightarrow> accounts \<Rightarrow> accounts" where
  "update_account i f s = s\<lparr>ac_users := map (\<lambda>u. if ua_id u = i then f u else u) (ac_users s)\<rparr>"

record update_profile_dto =
  up_name :: "string option"
  up_bio :: "string option"
  up_avatarUrl :: "string option"
  up_language :: "string option"

definition updateProfile :: "nat \<Rightarrow> update_profile_dto \<Rightarrow> accounts \<Rightarrow> user_account auth_result" where
  "updateProfile i dto s = (case findOne_user i s of
       Inl e \<Rightarrow> (Inl e, s)
     | Inr u \<Rightarrow>
       let u = u\<lparr>ua_name := (case up_name dto of None \<Rightarrow> ua_name u | Some x \<Rightarrow> x),
             ua_bio := (case up_bio dto of None \<Rightarrow> ua_bio u | Some x \<Rightarrow> Some x),
             ua_avatarUrl := (case up_avatarUrl dto of None \<Rightarrow> ua_avatarUrl u | Some x \<Rightarrow> Some x),
             ua_language := (case up_language dto of None \<Rightarrow> ua_language u | Some x \<Rightarrow> Some (lower_text x))\<rparr>
       in (Inr u, save_user u s))"

definition remove_user :: "nat \<Rightarrow> accounts \<Rightarrow> unit auth_result" where
  "remove_user i s =
     (if \<not> (\<exists>u \<in> set (ac_users s). ua_id u = i) then (Inl (Not_found (''User with ID '' @ show_nat i @ '' not found'')), s)
      else (Inr (), s\<lparr>ac_users := filter (\<lambda>u. ua_id u \<noteq> i) (ac_users s)\<rparr>))"

definition softDeleteUser :: "time \<Rightarrow> nat \<Rightarrow> accounts \<Rightarrow> unit auth_result" where
  "softDeleteUser now i s = (case List.find (\<lambda>u. ua_id u = i \<and> visible u) (ac_users s) of
       None \<Rightarrow> (Inl (Not_found (''User with ID '' @ show_nat i @ '' not found'')), s)
     | Some _ \<Rightarrow>
       let s = update_account i (\<lambda>u. u\<lparr>ua_status := ''deleted'', ua_isActive := False\<rparr>) s;
           s = update_account i (\<lambda>u. u\<lparr>ua_deletedAt := Some now\<rparr>) s
       in (Inr (), s\<lparr>ac_listings := map (\<lambda>l. if li_userId l = show_nat i \<and> li_deletedAt l = None then l\<lparr>li_deletedAt := Some now\<rparr> else l)
            (ac_listings s)\<rparr>))"

text \<open>A driver refuses \<open>NaN\<close> as an identifier.\<close>

definition not_a_number :: auth_error where
  "not_a_number = Driver ''invalid input syntax for type integer''"

definition as_id :: "string \<Rightarrow> auth_error + int" where
  "as_id t = (case js_parseInt t of None \<Rightarrow> Inl not_a_number | Some n \<Rightarrow> Inr n)"

definition find_by_text :: "string \<Rightarrow> accounts \<Rightarrow> auth_error + user_account" where
  "find_by_text t s = (case as_id t of
       Inl e \<Rightarrow> Inl e
     | Inr n \<Rightarrow> if n < 0 then Inl (Not_found (''User with ID '' @ int_text n @ '' not found'')) else findOne_user (nat n) s)"

definition update_by_text :: "string \<Rightarrow> (user_account \<Rightarrow> user_account) \<Rightarrow> accounts \<Rightarrow> unit auth_result" where
  "update_by_text t f s = (case as_id t of
       Inl e \<Rightarrow> (Inl e, s)
     | Inr n \<Rightarrow> (Inr (), if n < 0 then s else update_account (nat n) f s))"

definition update2FA :: "string \<Rightarrow> string \<Rightarrow> bool \<Rightarrow> accounts \<Rightarrow> unit auth_result" where
  "update2FA t secret enabled = update_by_text t (\<lambda>u. u\<lparr>ua_twoFASecret := Some secret, ua_twoFAEnabled := enabled\<rparr>)"

definition updatePassword :: "string \<Rightarrow> string \<Rightarrow> accounts \<Rightarrow> unit auth_result" where
  "updatePassword t passwordHash = update_by_text t (\<lambda>u. u\<lparr>ua_password := Some passwordHash\<rparr>)"

definition updateRefreshToken :: "nat \<Rightarrow> string option \<Rightarrow> accounts \<Rightarrow> accounts" where
  "updateRefreshToken i token = update_account i (\<lambda>u. u\<lparr>ua_refreshToken := token\<rparr>)"

definition validateRefreshToken :: "string \<Rightarrow> string \<Rightarrow> accounts \<Rightarrow> auth_error + bool" where
  "validateRefreshToken t token s = map_sum id (\<lambda>u. ua_refreshToken u = Some token) (find_by_text t s)"

subsection \<open>The registry of refresh tokens\<close>

datatype token_value = Active | Token_list "string list"

record 'r token_cache =
  tc_get :: "string \<Rightarrow> time \<Rightarrow> 'r \<Rightarrow> token_value option"
  tc_set :: "string \<Rightarrow> token_value \<Rightarrow> int \<Rightarrow> time \<Rightarrow> 'r \<Rightarrow> 'r"
  tc_del :: "string \<Rightarrow> 'r \<Rightarrow> 'r"

locale token_cache =
  fixes ops :: "'r token_cache"
  assumes get_set: "tc_get ops k now (tc_set ops k' v ttl t r) =
      (if k = k' then (if now < t + ttl then Some v else None) else tc_get ops k now r)"
    and get_del: "tc_get ops k now (tc_del ops k' r) = (if k = k' then None else tc_get ops k now r)"
    and expires_once: "tc_get ops k later r = Some v \<Longrightarrow> now \<le> later \<Longrightarrow> tc_get ops k now r = Some v"

definition token_key :: "string \<Rightarrow> string \<Rightarrow> string" where
  "token_key userId token = ''refresh_token:'' @ userId @ '':'' @ token"

definition list_key :: "string \<Rightarrow> string" where
  "list_key userId = ''user_refresh_tokens:'' @ userId"

definition week_ms :: int where
  "week_ms = 604800000"

definition tokens_of :: "'r token_cache \<Rightarrow> time \<Rightarrow> string \<Rightarrow> 'r \<Rightarrow> string list" where
  "tokens_of ops now userId r = (case tc_get ops (list_key userId) now r of Some (Token_list ts) \<Rightarrow> ts | _ \<Rightarrow> [])"

definition addTokenToUserList :: "'r token_cache \<Rightarrow> time \<Rightarrow> string \<Rightarrow> string \<Rightarrow> 'r \<Rightarrow> 'r" where
  "addTokenToUserList ops now userId token r =
     (let tokens = tokens_of ops now userId r
      in if token \<in> set tokens then r else tc_set ops (list_key userId) (Token_list (tokens @ [token])) week_ms now r)"

definition removeTokenFromUserList :: "'r token_cache \<Rightarrow> time \<Rightarrow> string \<Rightarrow> string \<Rightarrow> 'r \<Rightarrow> 'r" where
  "removeTokenFromUserList ops now userId token r =
     (let filteredTokens = filter (\<lambda>t. t \<noteq> token) (tokens_of ops now userId r)
      in if filteredTokens \<noteq> [] then tc_set ops (list_key userId) (Token_list filteredTokens) week_ms now r
         else tc_del ops (list_key userId) r)"

definition store_token :: "'r token_cache \<Rightarrow> time \<Rightarrow> string \<Rightarrow> string \<Rightarrow> 'r \<Rightarrow> 'r" where
  "store_token ops now userId token r = addTokenToUserList ops now userId token (tc_set ops (token_key userId token) Active week_ms now r)"

definition token_exists :: "'r token_cache \<Rightarrow> time \<Rightarrow> string \<Rightarrow> string \<Rightarrow> 'r \<Rightarrow> bool" where
  "token_exists ops now userId token r \<longleftrightarrow> tc_get ops (token_key userId token) now r \<noteq> None"

definition invalidate_token :: "'r token_cache \<Rightarrow> time \<Rightarrow> string \<Rightarrow> string \<Rightarrow> 'r \<Rightarrow> 'r" where
  "invalidate_token ops now userId token r = removeTokenFromUserList ops now userId token (tc_del ops (token_key userId token) r)"

definition invalidateAllForUser :: "'r token_cache \<Rightarrow> time \<Rightarrow> string \<Rightarrow> 'r \<Rightarrow> 'r" where
  "invalidateAllForUser ops now userId r =
     tc_del ops (list_key userId) (fold (\<lambda>t. tc_del ops (token_key userId t)) (tokens_of ops now userId r) r)"

subsection \<open>Tokens\<close>

record token_pair =
  tp_accessToken :: string
  tp_refreshToken :: string

definition getTokens ::
  "'r token_cache \<Rightarrow> (string \<Rightarrow> string \<Rightarrow> string) \<Rightarrow> time \<Rightarrow> string \<Rightarrow> string \<Rightarrow> string \<Rightarrow> 'r \<Rightarrow> token_pair \<times> 'r" where
  "getTokens ops sign now random userId email r =
     (\<lparr>tp_accessToken = sign userId email, tp_refreshToken = random\<rparr>, store_token ops now userId random r)"

text \<open>The user is a constant of the code. \<open>same pw hash\<close> is \<open>bcrypt.compare\<close>.\<close>

definition validateUser ::
  "'r token_cache \<Rightarrow> (string \<Rightarrow> string \<Rightarrow> string) \<Rightarrow> (string \<Rightarrow> string \<Rightarrow> bool) \<Rightarrow> (string \<Rightarrow> string) \<Rightarrow> time \<Rightarrow> string \<Rightarrow> string \<Rightarrow> string \<Rightarrow> 'r \<Rightarrow>
   (auth_error + token_pair) \<times> 'r" where
  "validateUser ops sign same hash now random email password r =
     (let user_password = hash ''password123''
      in if same password user_password
         then (case getTokens ops sign now random ''uuid-123'' ''test@example.com'' r of (p, r) \<Rightarrow> (Inr p, r))
         else (Inl (Unauthorized ''Invalid credentials''), r))"

definition refreshTokens ::
  "'r token_cache \<Rightarrow> (string \<Rightarrow> string \<Rightarrow> string) \<Rightarrow> time \<Rightarrow> string \<Rightarrow> string \<Rightarrow> string \<Rightarrow> string \<Rightarrow> 'r \<Rightarrow> (auth_error + token_pair) \<times> 'r" where
  "refreshTokens ops sign now random userId email oldRefreshToken r =
     (if \<not> token_exists ops now userId oldRefreshToken r
      then (Inl (Forbidden ''Access Denied: Refresh token reuse detected.''), invalidateAllForUser ops now userId r)
      else case getTokens ops sign now random userId email (invalidate_token ops now userId oldRefreshToken r) of (p, r) \<Rightarrow> (Inr p, r))"

text \<open>What the two JWT strategies make of a payload: an identifier and an email, no token and no flag.\<close>

record jwt_payload =
  jp_sub :: string
  jp_email :: string

record request_user =
  ru_userId :: string
  ru_email :: string
  ru_refreshToken :: "string option"
  ru_id :: "string option"
  ru_twoFAEnabled :: "bool option"

definition validate_payload :: "jwt_payload \<Rightarrow> request_user" where
  "validate_payload payload = \<lparr>ru_userId = jp_sub payload, ru_email = jp_email payload, ru_refreshToken = None, ru_id = None,
     ru_twoFAEnabled = None\<rparr>"

text \<open>An absent token reads \<open>undefined\<close> in the key.\<close>

definition refresh_route ::
  "'r token_cache \<Rightarrow> (string \<Rightarrow> string \<Rightarrow> string) \<Rightarrow> time \<Rightarrow> string \<Rightarrow> jwt_payload \<Rightarrow> string \<Rightarrow> 'r \<Rightarrow> (auth_error + token_pair) \<times> 'r" where
  "refresh_route ops sign now random payload body_email r =
     (let user = validate_payload payload
      in refreshTokens ops sign now random (ru_userId user) body_email
           (case ru_refreshToken user of None \<Rightarrow> ''undefined'' | Some t \<Rightarrow> t) r)"

definition login_route ::
  "'r token_cache \<Rightarrow> (string \<Rightarrow> string \<Rightarrow> string) \<Rightarrow> (string \<Rightarrow> string \<Rightarrow> bool) \<Rightarrow> (string \<Rightarrow> string) \<Rightarrow> time \<Rightarrow> string \<Rightarrow> string \<Rightarrow> string \<Rightarrow> 'r \<Rightarrow>
   (auth_error + token_pair) \<times> 'r" where
  "login_route ops sign same hash now random email password r =
     (case validateUser ops sign same hash now random email password r of
        (Inl _, r) \<Rightarrow> (Inl (Unauthorized ''Invalid credentials''), r)
      | (Inr token, r) \<Rightarrow> (Inr token, r))"

subsection \<open>Second factor\<close>

definition enable2FA :: "string \<Rightarrow> string \<Rightarrow> accounts \<Rightarrow> string auth_result" where
  "enable2FA secret userId s = (case update2FA userId secret True s of
       (Inl e, s) \<Rightarrow> (Inl e, s)
     | (Inr _, s) \<Rightarrow> (Inr secret, s))"

definition verify2FA :: "(string \<Rightarrow> string \<Rightarrow> bool) \<Rightarrow> string \<Rightarrow> string \<Rightarrow> accounts \<Rightarrow> auth_error + bool" where
  "verify2FA valid_code userId code s = (case find_by_text userId s of
       Inl e \<Rightarrow> Inl e
     | Inr u \<Rightarrow>
       if \<not> ua_twoFAEnabled u \<or> \<not> truthy_text (ua_twoFASecret u) then Inl (Bad ''2FA not enabled for this user'')
       else if \<not> valid_code (the (ua_twoFASecret u)) code then Inl (Bad ''Invalid 2FA code'')
       else Inr True)"

definition twofa_guard :: "(string \<Rightarrow> string \<Rightarrow> bool) \<Rightarrow> request_user \<Rightarrow> string option \<Rightarrow> accounts \<Rightarrow> auth_error + bool" where
  "twofa_guard valid_code user code s =
     (if ru_twoFAEnabled user = Some True
      then if \<not> truthy_text code then Inl (Forbidden ''2FA code required'')
           else verify2FA valid_code (case ru_id user of None \<Rightarrow> ''undefined'' | Some i \<Rightarrow> i) (the code) s
      else Inr True)"

subsection \<open>Passwords\<close>

text \<open>The address and the agent of the client, which the events carry along, are left out.\<close>

definition emit_auth :: "auth_event \<Rightarrow> accounts \<Rightarrow> accounts" where
  "emit_auth e s = s\<lparr>ac_events := ac_events s @ [e]\<rparr>"

definition password_changed_event :: "string \<Rightarrow> bool \<Rightarrow> string option \<Rightarrow> string \<Rightarrow> auth_event" where
  "password_changed_event userId success msg reason =
     Password_changed \<lparr>pe_userId = userId, pe_success = success, pe_errorMessage = msg, pe_reason = reason\<rparr>"

definition record_failure :: "string \<Rightarrow> 'a auth_result \<Rightarrow> 'a auth_result" where
  "record_failure userId r = (case fst r of
       Inl e \<Rightarrow> (Inl e, emit_auth (password_changed_event userId False (Some (auth_message e)) ''system_error'') (snd r))
     | Inr x \<Rightarrow> r)"

text \<open>\<open>bcrypt.compare\<close> throws for a user without a password.\<close>

definition changePassword ::
  "(string \<Rightarrow> string \<Rightarrow> bool) \<Rightarrow> (string \<Rightarrow> string) \<Rightarrow> string \<Rightarrow> string \<Rightarrow> string \<Rightarrow> accounts \<Rightarrow> bool auth_result" where
  "changePassword same hash userId oldPassword newPassword s = record_failure userId
     (case find_by_text userId s of
        Inl e \<Rightarrow> (Inl (Unauthorized ''User not found''), s)
      | Inr u \<Rightarrow>
        case ua_password u of
          None \<Rightarrow> (Inl (Driver ''data and hash arguments required''), s)
        | Some h \<Rightarrow>
          if \<not> same oldPassword h
          then (Inl (Bad ''Invalid current password''),
                emit_auth (password_changed_event userId False (Some ''Invalid current password'') ''invalid_current_password'') s)
          else (case updatePassword userId (hash newPassword) s of
                  (Inl e, s) \<Rightarrow> (Inl e, s)
                | (Inr _, s) \<Rightarrow> (Inr True, emit_auth (password_changed_event userId True None ''user_initiated'') s)))"

definition resetPassword :: "(string \<Rightarrow> string) \<Rightarrow> string \<Rightarrow> string \<Rightarrow> accounts \<Rightarrow> bool auth_result" where
  "resetPassword hash userId newPassword s = record_failure userId
     (case updatePassword userId (hash newPassword) s of
        (Inl e, s) \<Rightarrow> (Inl e, s)
      | (Inr _, s) \<Rightarrow> (Inr True, emit_auth (password_changed_event userId True None ''password_reset'') s))"

definition forgotPassword :: "time \<Rightarrow> string \<Rightarrow> accounts \<Rightarrow> accounts" where
  "forgotPassword now email s =
     (let resetUrl = ''https://marketx.com/reset-password?token=mock-token-'' @ int_text now
      in emit_auth (Reset_requested email ''User'' resetUrl) s)"

subsection \<open>OAuth\<close>

datatype oauth_provider = Google | Github

primrec provider_text :: "oauth_provider \<Rightarrow> string" where
  "provider_text Google = ''google''"
| "provider_text Github = ''github''"

record oauth_profile =
  op_provider :: oauth_provider
  op_providerId :: string
  op_email :: string
  op_name :: string
  op_avatarUrl :: "string option"

definition isValidOAuthProfile :: "oauth_profile \<Rightarrow> bool" where
  "isValidOAuthProfile p \<longleftrightarrow> op_providerId p \<noteq> [] \<and> op_name p \<noteq> []"

definition json_flag :: "string \<Rightarrow> bool \<Rightarrow> string" where
  "json_flag k b = [CHR 0x22] @ k @ [CHR 0x22] @ '':'' @ (if b then ''true'' else ''false'')"

definition validateOAuthProfile :: "oauth_profile \<Rightarrow> auth_error + unit" where
  "validateOAuthProfile p =
     (if isValidOAuthProfile p then Inr ()
      else Inl (Driver (''Invalid OAuth profile: {'' @ json_flag ''hasProvider'' True @ '','' @ json_flag ''hasProviderId'' True @ '',''
             @ json_flag ''hasEmail'' True @ '','' @ json_flag ''hasName'' True @ '','' @ json_flag ''hasAvatarUrl'' (op_avatarUrl p \<noteq> None) @ ''}'')))"

definition createOAuthProfile :: "oauth_provider \<Rightarrow> string \<Rightarrow> string \<Rightarrow> string \<Rightarrow> string option \<Rightarrow> auth_error + oauth_profile" where
  "createOAuthProfile provider providerId email name avatarUrl =
     (let p = \<lparr>op_provider = provider, op_providerId = providerId, op_email = email, op_name = name,
            op_avatarUrl = (if truthy_text avatarUrl then avatarUrl else None)\<rparr>
      in map_sum id (\<lambda>_. p) (validateOAuthProfile p))"

definition findOrCreateOAuthUser ::
  "(nat \<Rightarrow> string \<Rightarrow> string) \<Rightarrow> nat \<Rightarrow> oauth_profile \<Rightarrow> accounts \<Rightarrow> string auth_result" where
  "findOrCreateOAuthUser sign newId p s = (case validateOAuthProfile p of
       Inl e \<Rightarrow> (Inl (Bad (''Invalid OAuth profile: '' @ auth_message e)), s)
     | Inr _ \<Rightarrow>
       case (if op_email p \<noteq> [] then findByEmail (op_email p) s else None) of
         Some u \<Rightarrow> (Inr (sign (ua_id u) (ua_email u)), s)
       | None \<Rightarrow>
         (case create_user newId \<lparr>nw_email = op_email p, nw_password = None, nw_name = op_name p, nw_bio = None,
              nw_avatarUrl = op_avatarUrl p, nw_language = None, nw_oauthProvider = Some (provider_text (op_provider p)),
              nw_oauthProviderId = Some (op_providerId p)\<rparr> s of
            (Inl e, s) \<Rightarrow> (Inl e, s)
          | (Inr u, s) \<Rightarrow> (Inr (sign (ua_id u) (ua_email u)), s)))"

record provider_email =
  em_value :: string
  em_primary :: bool

record provider_profile =
  pp_id :: string
  pp_displayName :: "string option"
  pp_username :: "string option"
  pp_emails :: "provider_email list"
  pp_photos :: "string list"

definition first_value :: "'a list \<Rightarrow> 'a option" where
  "first_value xs = (case xs of [] \<Rightarrow> None | x # _ \<Rightarrow> Some x)"

definition google_validate :: "(nat \<Rightarrow> string \<Rightarrow> string) \<Rightarrow> nat \<Rightarrow> provider_profile \<Rightarrow> accounts \<Rightarrow> string auth_result" where
  "google_validate sign newId pr s =
     (let email = (case pp_emails pr of [] \<Rightarrow> [] | e # _ \<Rightarrow> em_value e);
          name = (case pp_displayName pr of None \<Rightarrow> ''Google User'' | Some n \<Rightarrow> n)
      in case createOAuthProfile Google (pp_id pr) email name (first_value (pp_photos pr)) of
           Inl e \<Rightarrow> (Inl e, s)
         | Inr p \<Rightarrow> findOrCreateOAuthUser sign newId p s)"

definition github_validate :: "(nat \<Rightarrow> string \<Rightarrow> string) \<Rightarrow> nat \<Rightarrow> provider_profile \<Rightarrow> accounts \<Rightarrow> string auth_result" where
  "github_validate sign newId pr s =
     (let email = (case List.find em_primary (pp_emails pr) of
            Some e \<Rightarrow> em_value e
          | None \<Rightarrow> (case pp_emails pr of [] \<Rightarrow> [] | e # _ \<Rightarrow> em_value e));
          name = (case pp_displayName pr of Some n \<Rightarrow> n | None \<Rightarrow> (case pp_username pr of Some n \<Rightarrow> n | None \<Rightarrow> ''GitHub User''))
      in case createOAuthProfile Github (pp_id pr) email name (first_value (pp_photos pr)) of
           Inl e \<Rightarrow> (Inl e, s)
         | Inr p \<Rightarrow> findOrCreateOAuthUser sign newId p s)"

subsection \<open>Reuse detection\<close>

context token_cache
begin

lemma other_get: "k \<noteq> k' \<Longrightarrow> tc_get ops k now (tc_set ops k' v ttl t r) = tc_get ops k now r"
  by (simp add: get_set)

lemma del_keys:
  "tc_get ops k now (fold (\<lambda>x. tc_del ops (f x)) xs r) = (if k \<in> f ` set xs then None else tc_get ops k now r)"
  by (induction xs arbitrary: r) (auto simp: get_del)

end

definition plain_id :: "string \<Rightarrow> bool" where
  "plain_id u \<longleftrightarrow> CHR 0x3A \<notin> set u"

lemma split_at_colon: "a @ CHR 0x3A # x = b @ CHR 0x3A # y \<Longrightarrow> plain_id a \<Longrightarrow> plain_id b \<Longrightarrow> a = b \<and> x = y"
proof (induction a arbitrary: b)
  case Nil
  then show ?case by (cases b) (auto simp: plain_id_def)
next
  case (Cons c a)
  then show ?case by (cases b) (auto simp: plain_id_def)
qed

lemma token_key_inject: "plain_id u \<Longrightarrow> plain_id v \<Longrightarrow> token_key u t = token_key v t' \<longleftrightarrow> u = v \<and> t = t'"
  using split_at_colon [of u t v t'] by (auto simp: token_key_def)

lemma list_key_inject [simp]: "list_key u = list_key v \<longleftrightarrow> u = v"
  by (simp add: list_key_def)

lemma token_keys_differ [simp]: "token_key u t \<noteq> list_key v" "list_key v \<noteq> token_key u t"
  by (simp_all add: token_key_def list_key_def)

text \<open>Every token that is or will be active is in the list of its user for as long as it is, and expires
  within a week.\<close>

definition tokens_listed :: "'r token_cache \<Rightarrow> time \<Rightarrow> 'r \<Rightarrow> bool" where
  "tokens_listed ops now r \<longleftrightarrow> (\<forall>u t \<tau>. plain_id u \<longrightarrow> now \<le> \<tau> \<longrightarrow> token_exists ops \<tau> u t r \<longrightarrow> t \<in> set (tokens_of ops \<tau> u r) \<and> \<tau> < now + week_ms)"

lemma listedD:
  "tokens_listed ops now r \<Longrightarrow> plain_id u \<Longrightarrow> now \<le> \<tau> \<Longrightarrow> token_exists ops \<tau> u t r \<Longrightarrow> t \<in> set (tokens_of ops \<tau> u r) \<and> \<tau> < now + week_ms"
  unfolding tokens_listed_def by blast

lemma listedI:
  "(\<And>u t \<tau>. plain_id u \<Longrightarrow> now \<le> \<tau> \<Longrightarrow> token_exists ops \<tau> u t r \<Longrightarrow> t \<in> set (tokens_of ops \<tau> u r) \<and> \<tau> < now + week_ms) \<Longrightarrow> tokens_listed ops now r"
  unfolding tokens_listed_def by blast

lemma listed_later: "tokens_listed ops now r \<Longrightarrow> now \<le> later \<Longrightarrow> tokens_listed ops later r"
proof (rule listedI)
  fix u t \<tau>
  assume "tokens_listed ops now r" "now \<le> later" "plain_id u" "later \<le> \<tau>" "token_exists ops \<tau> u t r"
  then have "t \<in> set (tokens_of ops \<tau> u r) \<and> \<tau> < now + week_ms" by (intro listedD) simp_all
  then show "t \<in> set (tokens_of ops \<tau> u r) \<and> \<tau> < later + week_ms" using \<open>now \<le> later\<close> by simp
qed

context token_cache
begin

lemma tokens_earlier: "t \<in> set (tokens_of ops \<tau> u r) \<Longrightarrow> now \<le> \<tau> \<Longrightarrow> t \<in> set (tokens_of ops now u r)"
proof -
  assume t: "t \<in> set (tokens_of ops \<tau> u r)" and le: "now \<le> \<tau>"
  then obtain ts where ts: "tc_get ops (list_key u) \<tau> r = Some (Token_list ts)" "t \<in> set ts"
    by (cases "tc_get ops (list_key u) \<tau> r"; (cases "the (tc_get ops (list_key u) \<tau> r)")?) (auto simp: tokens_of_def)
  then show ?thesis using expires_once [OF ts(1) le] by (simp add: tokens_of_def)
qed

lemma tokens_set: "tokens_of ops \<tau> u (tc_set ops (list_key v) (Token_list ts) week_ms now r) =
    (if u = v then (if \<tau> < now + week_ms then ts else []) else tokens_of ops \<tau> u r)"
  by (simp add: tokens_of_def get_set)

lemma tokens_set_token: "tokens_of ops \<tau> u (tc_set ops (token_key v t) x ttl now r) = tokens_of ops \<tau> u r"
  by (simp add: tokens_of_def get_set)

lemma exists_list: "token_exists ops \<tau> u t (tc_set ops (list_key v) x ttl now r) = token_exists ops \<tau> u t r"
  by (simp add: token_exists_def get_set)

lemma exists_del_list: "token_exists ops \<tau> u t (tc_del ops (list_key v) r) = token_exists ops \<tau> u t r"
  by (simp add: token_exists_def get_del)

lemma tokens_del: "tokens_of ops \<tau> u (tc_del ops (list_key v) r) = (if u = v then [] else tokens_of ops \<tau> u r)"
  by (simp add: tokens_of_def get_del)

lemma tokens_del_token: "tokens_of ops \<tau> u (tc_del ops (token_key v t) r) = tokens_of ops \<tau> u r"
  by (simp add: tokens_of_def get_del)

lemma exists_store:
  assumes "plain_id u" "plain_id v"
  shows "token_exists ops \<tau> u t (store_token ops now v t' r) \<longleftrightarrow>
    (if u = v \<and> t = t' then \<tau> < now + week_ms else token_exists ops \<tau> u t r)"
  using assms by (simp add: store_token_def addTokenToUserList_def Let_def exists_list token_exists_def get_set token_key_inject)

lemma exists_invalidate:
  assumes "plain_id u" "plain_id v"
  shows "token_exists ops \<tau> u t (invalidate_token ops now v t' r) \<longleftrightarrow> \<not> (u = v \<and> t = t') \<and> token_exists ops \<tau> u t r"
  using assms
  by (simp add: invalidate_token_def removeTokenFromUserList_def Let_def exists_list exists_del_list token_exists_def get_set get_del token_key_inject)

lemma listed_store:
  assumes l: "tokens_listed ops now r" and v: "plain_id v" and fresh: "t' \<notin> set (tokens_of ops now v r)"
  shows "tokens_listed ops now (store_token ops now v t' r)"
proof (rule listedI)
  fix u t \<tau>
  assume u: "plain_id u" and le: "now \<le> \<tau>" and ex: "token_exists ops \<tau> u t (store_token ops now v t' r)"
  have toks: "tokens_of ops \<tau> u (store_token ops now v t' r) =
      (if u = v then (if \<tau> < now + week_ms then tokens_of ops now v r @ [t'] else []) else tokens_of ops \<tau> u r)"
    using fresh by (simp add: store_token_def addTokenToUserList_def Let_def tokens_set tokens_set_token)
  show "t \<in> set (tokens_of ops \<tau> u (store_token ops now v t' r)) \<and> \<tau> < now + week_ms"
  proof (cases "u = v \<and> t = t'")
    case True
    then show ?thesis using ex u v toks by (simp add: exists_store)
  next
    case False
    then have "token_exists ops \<tau> u t r" using ex u v by (auto simp: exists_store)
    then have "t \<in> set (tokens_of ops \<tau> u r)" "\<tau> < now + week_ms" using listedD [OF l u le] by blast+
    then show ?thesis using toks tokens_earlier [OF _ le] by auto
  qed
qed

lemma listed_invalidate:
  assumes l: "tokens_listed ops now r" and v: "plain_id v"
  shows "tokens_listed ops now (invalidate_token ops now v t' r)"
proof (rule listedI)
  fix u t \<tau>
  assume u: "plain_id u" and le: "now \<le> \<tau>" and ex: "token_exists ops \<tau> u t (invalidate_token ops now v t' r)"
  then have diff: "\<not> (u = v \<and> t = t')" and "token_exists ops \<tau> u t r" using v by (auto simp: exists_invalidate)
  then have t: "t \<in> set (tokens_of ops \<tau> u r)" "\<tau> < now + week_ms" using listedD [OF l u le] by blast+
  have "filter (\<lambda>x. x \<noteq> t') (tokens_of ops now v r) \<noteq> [] \<and> t \<noteq> t' \<and> t \<in> set (tokens_of ops now v r)" if "u = v"
    using tokens_earlier [OF t(1) le] diff that by (auto simp: filter_empty_conv)
  then show "t \<in> set (tokens_of ops \<tau> u (invalidate_token ops now v t' r)) \<and> \<tau> < now + week_ms"
    using t by (auto simp: invalidate_token_def removeTokenFromUserList_def Let_def tokens_set tokens_del tokens_del_token)
qed

lemma exists_invalidate_all:
  assumes "plain_id u" "plain_id v"
  shows "token_exists ops \<tau> u t (invalidateAllForUser ops now v r) \<longleftrightarrow>
    \<not> (u = v \<and> t \<in> set (tokens_of ops now v r)) \<and> token_exists ops \<tau> u t r"
proof -
  have "token_key u t \<in> token_key v ` set ts \<longleftrightarrow> u = v \<and> t \<in> set ts" for ts
    using assms by (auto simp: token_key_inject)
  then show ?thesis by (simp add: invalidateAllForUser_def exists_del_list) (simp add: token_exists_def del_keys)
qed

lemma tokens_del_tokens: "tokens_of ops \<tau> u (fold (\<lambda>t. tc_del ops (token_key v t)) ts r) = tokens_of ops \<tau> u r"
  by (induction ts arbitrary: r) (simp_all add: tokens_del_token)

lemma listed_invalidate_all:
  assumes l: "tokens_listed ops now r" and v: "plain_id v"
  shows "tokens_listed ops now (invalidateAllForUser ops now v r)"
proof (rule listedI)
  fix u t \<tau>
  assume u: "plain_id u" and le: "now \<le> \<tau>" and ex: "token_exists ops \<tau> u t (invalidateAllForUser ops now v r)"
  then have diff: "\<not> (u = v \<and> t \<in> set (tokens_of ops now v r))" and "token_exists ops \<tau> u t r"
    using v by (auto simp: exists_invalidate_all)
  then have t: "t \<in> set (tokens_of ops \<tau> u r)" "\<tau> < now + week_ms" using listedD [OF l u le] by blast+
  then have "u \<noteq> v" using diff tokens_earlier [OF _ le] by auto
  then show "t \<in> set (tokens_of ops \<tau> u (invalidateAllForUser ops now v r)) \<and> \<tau> < now + week_ms"
    using t by (simp add: invalidateAllForUser_def tokens_del tokens_del_tokens)
qed

lemma none_left:
  assumes "tokens_listed ops now r" "plain_id u" "now \<le> \<tau>"
  shows "\<not> token_exists ops \<tau> u t (invalidateAllForUser ops now u r)"
  using assms listedD [OF assms, of t] tokens_earlier [OF _ \<open>now \<le> \<tau>\<close>] by (auto simp: exists_invalidate_all)

end

text \<open>Requests to the service, each with the random text it draws.\<close>

datatype token_request =
  Log_in string string string
| Refresh_by string string string string
| Sign_out_everywhere string

text \<open>Signing and hashing; \<open>same\<close> is \<open>bcrypt.compare\<close>.\<close>

record signer =
  sg_sign :: "string \<Rightarrow> string \<Rightarrow> string"
  sg_same :: "string \<Rightarrow> string \<Rightarrow> bool"
  sg_hash :: "string \<Rightarrow> string"

primrec run_token :: "'r token_cache \<Rightarrow> signer \<Rightarrow> time \<times> token_request \<Rightarrow> 'r \<Rightarrow> 'r" where
  "run_token ops sg (now, q) r = (case q of
       Log_in random email password \<Rightarrow> snd (validateUser ops (sg_sign sg) (sg_same sg) (sg_hash sg) now random email password r)
     | Refresh_by random userId email old \<Rightarrow> snd (refreshTokens ops (sg_sign sg) now random userId email old r)
     | Sign_out_everywhere userId \<Rightarrow> invalidateAllForUser ops now userId r)"

text \<open>The clock never goes back, identifiers contain no colon and a random text is none of the live tokens.\<close>

fun sound_requests :: "'r token_cache \<Rightarrow> signer \<Rightarrow> time \<Rightarrow> (time \<times> token_request) list \<Rightarrow> 'r \<Rightarrow> bool" where
  "sound_requests ops sg start [] r \<longleftrightarrow> True"
| "sound_requests ops sg start ((now, q) # qs) r \<longleftrightarrow> start \<le> now \<and>
     (case q of
        Log_in random email password \<Rightarrow> random \<notin> set (tokens_of ops now ''uuid-123'' r) \<and> random \<noteq> ''undefined''
      | Refresh_by random userId email old \<Rightarrow> plain_id userId \<and> random \<notin> set (tokens_of ops now userId r) \<and> random \<noteq> ''undefined''
      | Sign_out_everywhere userId \<Rightarrow> plain_id userId) \<and>
     sound_requests ops sg now qs (run_token ops sg (now, q) r)"

fun end_of :: "time \<Rightarrow> (time \<times> token_request) list \<Rightarrow> time" where
  "end_of start [] = start"
| "end_of start ((now, q) # qs) = end_of now qs"

definition no_undefined :: "'r token_cache \<Rightarrow> 'r \<Rightarrow> bool" where
  "no_undefined ops r \<longleftrightarrow> (\<forall>u \<tau>. plain_id u \<longrightarrow> \<not> token_exists ops \<tau> u ''undefined'' r)"

lemma plain_mock [simp]: "plain_id ''uuid-123''"
  by (simp add: plain_id_def)

lemma getTokens_state: "snd (getTokens ops sign now random u e r) = store_token ops now u random r"
  by (simp add: getTokens_def)

lemma refreshTokens_state:
  "snd (refreshTokens ops sign now random u e old r) =
     (if token_exists ops now u old r then store_token ops now u random (invalidate_token ops now u old r)
      else invalidateAllForUser ops now u r)"
  by (simp add: refreshTokens_def getTokens_def)

lemma validateUser_state:
  "snd (validateUser ops sign same hash now random e pw r) =
     (if same pw (hash ''password123'') then store_token ops now ''uuid-123'' random r else r)"
  by (simp add: validateUser_def getTokens_def)

context token_cache
begin

lemma tokens_invalidate: "set (tokens_of ops now u (invalidate_token ops now u old r)) \<subseteq> set (tokens_of ops now u r)"
  by (auto simp: invalidate_token_def removeTokenFromUserList_def Let_def tokens_set tokens_del tokens_del_token)

lemma listed_step:
  assumes "tokens_listed ops start r" "sound_requests ops sg start ((now, q) # qs) r"
  shows "tokens_listed ops now (run_token ops sg (now, q) r)"
proof -
  have l: "tokens_listed ops now r" using assms listed_later by auto
  show ?thesis
  proof (cases q)
    case Log_in
    then show ?thesis using l assms by (simp add: validateUser_state listed_store)
  next
    case (Refresh_by random u e old)
    then show ?thesis
      using l assms tokens_invalidate [of now u old r]
      by (auto simp: refreshTokens_state intro!: listed_store listed_invalidate listed_invalidate_all)
  next
    case Sign_out_everywhere
    then show ?thesis using l assms by (simp add: listed_invalidate_all)
  qed
qed

lemma undefined_step:
  assumes "no_undefined ops r" "sound_requests ops sg start ((now, q) # qs) r"
  shows "no_undefined ops (run_token ops sg (now, q) r)"
  using assms unfolding no_undefined_def
  by (cases q) (auto simp: validateUser_state refreshTokens_state exists_store exists_invalidate exists_invalidate_all)

lemma listed_run:
  "tokens_listed ops start r \<Longrightarrow> sound_requests ops sg start qs r \<Longrightarrow> tokens_listed ops (end_of start qs) (fold (run_token ops sg) qs r)"
proof (induction qs arbitrary: start r)
  case (Cons q qs)
  obtain now x where q: "q = (now, x)" by (cases q)
  then have "tokens_listed ops now (run_token ops sg q r)" using listed_step Cons.prems by blast
  moreover have "sound_requests ops sg now qs (run_token ops sg q r)" using Cons.prems q by simp
  ultimately show ?case using Cons.IH q by simp
qed simp

lemma undefined_run:
  "no_undefined ops r \<Longrightarrow> sound_requests ops sg start qs r \<Longrightarrow> no_undefined ops (fold (run_token ops sg) qs r)"
proof (induction qs arbitrary: start r)
  case (Cons q qs)
  obtain now x where q: "q = (now, x)" by (cases q)
  then have "no_undefined ops (run_token ops sg q r)" using undefined_step Cons.prems by blast
  moreover have "sound_requests ops sg now qs (run_token ops sg q r)" using Cons.prems q by simp
  ultimately show ?case using Cons.IH q by simp
qed simp

end

definition no_tokens :: "'r token_cache \<Rightarrow> 'r \<Rightarrow> bool" where
  "no_tokens ops r \<longleftrightarrow> (\<forall>k \<tau>. tc_get ops k \<tau> r = None)"

lemma no_tokens_listed: "no_tokens ops r \<Longrightarrow> tokens_listed ops now r \<and> no_undefined ops r"
  by (auto simp: no_tokens_def tokens_listed_def no_undefined_def token_exists_def)

fun drawn :: "(time \<times> token_request) list \<Rightarrow> string list" where
  "drawn [] = []"
| "drawn ((now, Log_in random email password) # qs) = random # drawn qs"
| "drawn ((now, Refresh_by random userId email old) # qs) = random # drawn qs"
| "drawn ((now, Sign_out_everywhere userId) # qs) = drawn qs"

definition dead :: "'r token_cache \<Rightarrow> time \<Rightarrow> string \<Rightarrow> string \<Rightarrow> 'r \<Rightarrow> bool" where
  "dead ops now u t r \<longleftrightarrow> (\<forall>\<tau> \<ge> now. \<not> token_exists ops \<tau> u t r)"

lemma deadD: "dead ops now u t r \<Longrightarrow> now \<le> \<tau> \<Longrightarrow> \<not> token_exists ops \<tau> u t r"
  unfolding dead_def by blast

lemma sound_append:
  "sound_requests ops sg start (qs @ qs') r \<longleftrightarrow>
     sound_requests ops sg start qs r \<and> sound_requests ops sg (end_of start qs) qs' (fold (run_token ops sg) qs r)"
  by (induction ops sg start qs r rule: sound_requests.induct) auto

lemma end_append: "end_of start (qs @ qs') = end_of (end_of start qs) qs'"
  by (induction start qs rule: end_of.induct) auto

lemma dead_refused: "dead ops start u old r \<Longrightarrow> start \<le> now \<Longrightarrow> refreshTokens ops sign now random u e old r =
    (Inl (Forbidden ''Access Denied: Refresh token reuse detected.''), invalidateAllForUser ops now u r)"
  by (simp add: deadD refreshTokens_def)

context token_cache
begin

lemma dead_store: "dead ops now u t r \<Longrightarrow> plain_id u \<Longrightarrow> plain_id v \<Longrightarrow> t \<noteq> t' \<Longrightarrow> dead ops now u t (store_token ops later v t' r)"
  by (simp add: dead_def exists_store)

lemma dead_invalidate: "dead ops now u t r \<Longrightarrow> plain_id u \<Longrightarrow> plain_id v \<Longrightarrow> dead ops now u t (invalidate_token ops later v t' r)"
  by (simp add: dead_def exists_invalidate)

lemma dead_invalidate_all: "dead ops now u t r \<Longrightarrow> plain_id u \<Longrightarrow> plain_id v \<Longrightarrow> dead ops now u t (invalidateAllForUser ops later v r)"
  by (simp add: dead_def exists_invalidate_all)

lemma dead_step:
  assumes "dead ops start u t r" "plain_id u" "t \<notin> set (drawn ((now, q) # qs))" "sound_requests ops sg start ((now, q) # qs) r"
  shows "dead ops now u t (run_token ops sg (now, q) r)"
proof -
  have d: "dead ops now u t r" using assms(1,4) by (simp add: dead_def)
  show ?thesis
  proof (cases q)
    case Log_in
    then show ?thesis using d assms(2,3) by (simp add: validateUser_state dead_store)
  next
    case (Refresh_by random v e old)
    then have "plain_id v" "t \<noteq> random" using assms(3,4) by auto
    then show ?thesis
      using d assms(2) Refresh_by by (simp add: refreshTokens_state dead_store dead_invalidate dead_invalidate_all)
  next
    case (Sign_out_everywhere v)
    then have "plain_id v" using assms(4) by simp
    then show ?thesis using d assms(2) Sign_out_everywhere by (simp add: dead_invalidate_all)
  qed
qed

lemma dead_run:
  "dead ops start u t r \<Longrightarrow> plain_id u \<Longrightarrow> t \<notin> set (drawn qs) \<Longrightarrow> sound_requests ops sg start qs r
    \<Longrightarrow> dead ops (end_of start qs) u t (fold (run_token ops sg) qs r)"
proof (induction qs arbitrary: start r)
  case (Cons q qs)
  obtain now x where q: "q = (now, x)" by (cases q)
  then have "dead ops now u t (run_token ops sg q r)" using dead_step Cons.prems by blast
  moreover have "t \<notin> set (drawn qs)" using Cons.prems(3) q by (cases x) auto
  moreover have "sound_requests ops sg now qs (run_token ops sg q r)" using Cons.prems q by simp
  ultimately show ?case using Cons.IH Cons.prems(2) q by simp
qed simp

lemma used_dies:
  assumes "plain_id u" "random \<noteq> old"
  shows "dead ops now u old (snd (refreshTokens ops sign now random u e old r))"
proof (cases "token_exists ops now u old r")
  case True
  then show ?thesis using assms by (simp add: refreshTokens_state dead_def exists_store exists_invalidate)
next
  case False
  have "dead ops now u old r"
    unfolding dead_def token_exists_def
  proof (intro allI impI notI)
    fix \<tau>
    assume "now \<le> \<tau>" "tc_get ops (token_key u old) \<tau> r \<noteq> None"
    then have "tc_get ops (token_key u old) now r \<noteq> None" using expires_once by blast
    then show False using False by (simp add: token_exists_def)
  qed
  then show ?thesis using False assms by (simp add: refreshTokens_state dead_invalidate_all)
qed

end

lemma end_of_Cons: "end_of start ((now, q) # qs) = end_of now qs"
  by simp

text \<open>
  Property C18: replay detection - once a user has presented a token for a refresh, whatever followed,
  presenting it again is refused (unless a later draw produced the same text), and from then on no
  refresh token of the user is valid, the ones issued meanwhile included.
\<close>

theorem refresh_token_used_once:
  assumes "token_cache ops" "no_tokens ops r0"
    "sound_requests ops sg start (qs @ (now, Refresh_by random u e old) # qs') r0"
    "old \<notin> set (drawn ((now, Refresh_by random u e old) # qs'))"
    "r = fold (run_token ops sg) (qs @ (now, Refresh_by random u e old) # qs') r0"
    "end_of now qs' \<le> later" "later \<le> \<tau>"
  shows "fst (refreshTokens ops sign later random' u e' old r) = Inl (Forbidden ''Access Denied: Refresh token reuse detected.'')
    \<and> \<not> token_exists ops \<tau> u t (snd (refreshTokens ops sign later random' u e' old r))"
proof -
  let ?r1 = "fold (run_token ops sg) qs r0" and ?r2 = "\<lambda>r. snd (refreshTokens ops (sg_sign sg) now random u e old r)"
  have sound: "sound_requests ops sg now qs' (?r2 ?r1)" and plain: "plain_id u"
    using assms(3) by (simp_all add: sound_append)
  have r: "r = fold (run_token ops sg) qs' (?r2 ?r1)" using assms(5) by simp
  have "dead ops now u old (?r2 ?r1)" using token_cache.used_dies [OF assms(1) plain] assms(4) by auto
  then have "dead ops (end_of now qs') u old r"
    unfolding r using token_cache.dead_run [OF assms(1) _ plain _ sound] assms(4) by auto
  then have refused: "refreshTokens ops sign later random' u e' old r =
      (Inl (Forbidden ''Access Denied: Refresh token reuse detected.''), invalidateAllForUser ops later u r)"
    using assms(6) by (rule dead_refused)
  have "tokens_listed ops (end_of start (qs @ (now, Refresh_by random u e old) # qs')) r"
    unfolding assms(5) by (rule token_cache.listed_run [OF assms(1) _ assms(3)]) (simp add: no_tokens_listed assms(2))
  then have "tokens_listed ops (end_of now qs') r" by (simp add: end_append)
  then have "tokens_listed ops later r" using assms(6) by (rule listed_later)
  then show ?thesis using refused token_cache.none_left [OF assms(1) _ plain assms(7)] by simp
qed

text \<open>
  The refresh route never refreshes - the strategy of the route leaves no token on the
  request, so that the text undefined is looked up: every call is refused as a replay, and ends every
  session of the user the access token names.
\<close>

lemma refresh_route_never_refreshes:
  assumes "token_cache ops" "no_tokens ops r0" "sound_requests ops sg start qs r0" "r = fold (run_token ops sg) qs r0"
    "end_of start qs \<le> now" "plain_id (jp_sub payload)" "now \<le> \<tau>"
  shows "fst (refresh_route ops sign now random payload email r) = Inl (Forbidden ''Access Denied: Refresh token reuse detected.'')
    \<and> \<not> token_exists ops \<tau> (jp_sub payload) t (snd (refresh_route ops sign now random payload email r))"
proof -
  have "no_undefined ops r"
    unfolding assms(4) by (rule token_cache.undefined_run [OF assms(1) _ assms(3)]) (simp add: no_tokens_listed assms(2))
  then have refused: "refresh_route ops sign now random payload email r =
      (Inl (Forbidden ''Access Denied: Refresh token reuse detected.''), invalidateAllForUser ops now (jp_sub payload) r)"
    using assms(6) by (simp add: refresh_route_def validate_payload_def refreshTokens_def no_undefined_def)
  have "tokens_listed ops (end_of start qs) r"
    unfolding assms(4) by (rule token_cache.listed_run [OF assms(1) _ assms(3)]) (simp add: no_tokens_listed assms(2))
  then have "tokens_listed ops now r" using assms(5) by (rule listed_later)
  then show ?thesis using refused token_cache.none_left [OF assms(1) _ assms(6,7)] by simp
qed

text \<open>
  The login looks at no e-mail address - whatever address is given, the password
  password123, and only a password that compares equal to it, signs in as one constant user.
\<close>

lemma login_ignores_email:
  assumes "\<And>p q. same p (hash q) \<longleftrightarrow> p = q"
  shows "fst (login_route ops sign same hash now random email password r) =
    (if password = ''password123'' then Inr \<lparr>tp_accessToken = sign ''uuid-123'' ''test@example.com'', tp_refreshToken = random\<rparr>
     else Inl (Unauthorized ''Invalid credentials''))"
  by (simp add: login_route_def validateUser_def getTokens_def assms)

subsection \<open>Accounts\<close>

datatype account_op =
  Create_user nat create_user_dto
| Update_profile nat update_profile_dto
| Remove_user nat
| Soft_delete time nat
| Enable_2FA string string
| Change_password string string string
| Reset_password string string
| Oauth_sign_in nat oauth_profile

primrec run_account :: "signer \<Rightarrow> account_op \<Rightarrow> accounts \<Rightarrow> accounts" where
  "run_account sg (Create_user i dto) s = snd (create_user i dto s)"
| "run_account sg (Update_profile i dto) s = snd (updateProfile i dto s)"
| "run_account sg (Remove_user i) s = snd (remove_user i s)"
| "run_account sg (Soft_delete now i) s = snd (softDeleteUser now i s)"
| "run_account sg (Enable_2FA secret t) s = snd (enable2FA secret t s)"
| "run_account sg (Change_password t old new) s = snd (changePassword (sg_same sg) (sg_hash sg) t old new s)"
| "run_account sg (Reset_password t new) s = snd (resetPassword (sg_hash sg) t new s)"
| "run_account sg (Oauth_sign_in i p) s = snd (findOrCreateOAuthUser (\<lambda>n. sg_sign sg (show_nat n)) i p s)"

text \<open>A new identifier is one no row has; rows keep their identifiers.\<close>

fun fresh_accounts :: "signer \<Rightarrow> account_op list \<Rightarrow> accounts \<Rightarrow> bool" where
  "fresh_accounts sg [] s \<longleftrightarrow> True"
| "fresh_accounts sg (a # as) s \<longleftrightarrow>
     (case a of Create_user i dto \<Rightarrow> i \<notin> ua_id ` set (ac_users s) | Oauth_sign_in i p \<Rightarrow> i \<notin> ua_id ` set (ac_users s) | _ \<Rightarrow> True)
     \<and> fresh_accounts sg as (run_account sg a s)"

definition logins :: "user_account list \<Rightarrow> (nat \<times> string) list" where
  "logins us = map (\<lambda>u. (ua_id u, ua_email u)) us"

definition accounts_ok :: "accounts \<Rightarrow> bool" where
  "accounts_ok s \<longleftrightarrow> distinct (map fst (logins (ac_users s))) \<and> distinct (map snd (logins (ac_users s)))"

lemma update_account_logins:
  "(\<And>u. ua_id (f u) = ua_id u \<and> ua_email (f u) = ua_email u) \<Longrightarrow> logins (ac_users (update_account i f s)) = logins (ac_users s)"
  by (simp add: update_account_def logins_def)

lemma update_by_text_logins:
  "(\<And>u. ua_id (f u) = ua_id u \<and> ua_email (f u) = ua_email u) \<Longrightarrow> logins (ac_users (snd (update_by_text t f s))) = logins (ac_users s)"
  by (simp add: update_by_text_def update_account_logins split: sum.split)

lemma updates_logins:
  "logins (ac_users (snd (update2FA t x b s))) = logins (ac_users s)"
  "logins (ac_users (snd (updatePassword t h s))) = logins (ac_users s)"
  by (simp_all add: update2FA_def updatePassword_def update_by_text_logins)

lemma emit_auth_users [simp]: "ac_users (emit_auth e s) = ac_users s"
  by (simp add: emit_auth_def)

lemma record_failure_users [simp]: "ac_users (snd (record_failure t r)) = ac_users (snd r)"
  by (simp add: record_failure_def split: sum.split)

lemma changePassword_logins: "logins (ac_users (snd (changePassword same hash t old new s))) = logins (ac_users s)"
  using updates_logins(2) [of t "hash new" s]
  by (auto simp: changePassword_def split: sum.splits option.splits prod.splits)

lemma resetPassword_logins: "logins (ac_users (snd (resetPassword hash t new s))) = logins (ac_users s)"
  using updates_logins(2) [of t "hash new" s] by (auto simp: resetPassword_def split: sum.splits prod.splits)

lemma enable2FA_logins: "logins (ac_users (snd (enable2FA secret t s))) = logins (ac_users s)"
  using updates_logins(1) [of t secret True s] by (auto simp: enable2FA_def split: sum.splits prod.splits)

lemma softDelete_logins: "logins (ac_users (snd (softDeleteUser now i s))) = logins (ac_users s)"
  by (simp add: softDeleteUser_def Let_def update_account_logins split: option.split)

lemma remove_ok: "accounts_ok s \<Longrightarrow> accounts_ok (snd (remove_user i s))"
  by (auto simp: remove_user_def accounts_ok_def logins_def distinct_map inj_on_def comp_def)

lemma create_ok: "accounts_ok s \<Longrightarrow> i \<notin> ua_id ` set (ac_users s) \<Longrightarrow> accounts_ok (snd (create_user i dto s))"
  by (auto simp: create_user_def accounts_ok_def logins_def new_user_def Let_def comp_def image_iff)

lemma oauth_ok: "accounts_ok s \<Longrightarrow> i \<notin> ua_id ` set (ac_users s) \<Longrightarrow> accounts_ok (snd (findOrCreateOAuthUser sign i p s))"
  using create_ok [of s i]
  by (fastforce simp: findOrCreateOAuthUser_def split: sum.splits option.splits prod.splits dest: sndI)

lemma save_same_login:
  "(ua_id v, ua_email v) \<in> set (logins ws) \<Longrightarrow> distinct (map fst (logins ws)) \<Longrightarrow> logins (tbl_save ua_id v ws) = logins ws"
  by (induction ws) (auto simp: logins_def)

lemma profile_ok:
  assumes "accounts_ok s"
  shows "accounts_ok (snd (updateProfile i dto s))"
proof (cases "findOne_user i s")
  case (Inr u)
  then have "u \<in> set (ac_users s)" by (auto simp: findOne_user_def find_Some_iff split: option.splits)
  then have "(ua_id u, ua_email u) \<in> set (logins (ac_users s))" by (auto simp: logins_def)
  then have "logins (tbl_save ua_id v (ac_users s)) = logins (ac_users s)" if "ua_id v = ua_id u" "ua_email v = ua_email u" for v
    using that assms by (intro save_same_login) (simp_all add: accounts_ok_def)
  then show ?thesis using assms Inr by (simp add: updateProfile_def Let_def save_user_def accounts_ok_def)
qed (use assms in \<open>simp add: updateProfile_def\<close>)

lemma account_step: "accounts_ok s \<Longrightarrow> fresh_accounts sg [a] s \<Longrightarrow> accounts_ok (run_account sg a s)"
  by (cases a)
    (simp_all add: create_ok oauth_ok profile_ok remove_ok, simp_all add: accounts_ok_def changePassword_logins resetPassword_logins
      enable2FA_logins softDelete_logins)

text \<open>
  Accounts never share an e-mail address - whatever mix of registrations, profile changes,
  deletions, password changes and sign-ins through a provider is run, with new identifiers for new rows, no two
  rows of the table have the same address or identifier. It is the unique index of the column that
  refuses what the lookups of the services let through.
\<close>

lemma accounts_never_share_email:
  assumes "ac_users s0 = []" "fresh_accounts sg as s0"
  shows "distinct (map ua_email (ac_users (fold (run_account sg) as s0))) \<and> distinct (map ua_id (ac_users (fold (run_account sg) as s0)))"
proof -
  have "accounts_ok s \<Longrightarrow> fresh_accounts sg as s \<Longrightarrow> accounts_ok (fold (run_account sg) as s)" for s
  proof (induction as arbitrary: s)
    case (Cons a as)
    have "accounts_ok (run_account sg a s)" by (rule account_step) (use Cons.prems in simp_all)
    then show ?case using Cons by simp
  qed simp
  from this [of s0] show ?thesis using assms by (simp add: accounts_ok_def logins_def comp_def)
qed

text \<open>
  Signing in through a provider - a valid profile whose address an account has signs in as
  that account, of whatever provider, and changes nothing; a profile without an address is refused as
  soon as one account without address exists, its own owner included; and so is one whose address
  belongs to a deleted account.
\<close>

lemma oauth_sign_in_by_email:
  assumes "accounts_ok s" "isValidOAuthProfile p" "u \<in> set (ac_users s)" "ua_email u = op_email p"
  shows "findOrCreateOAuthUser sign newId p s =
    (if visible u \<and> op_email p \<noteq> [] then (Inr (sign (ua_id u) (op_email p)), s)
     else (Inl (Driver ''duplicate key value violates unique constraint''), s))"
proof -
  have unique: "v = u" if "v \<in> set (ac_users s)" "ua_email v = op_email p" for v
    using assms that by (auto simp: accounts_ok_def logins_def comp_def distinct_map inj_on_def)
  have "findByEmail (op_email p) s = (if visible u then Some u else None)"
  proof (cases "visible u")
    case True
    then obtain v where v: "findByEmail (op_email p) s = Some v"
      using assms(3,4) by (cases "findByEmail (op_email p) s") (auto simp: findByEmail_def find_None_iff)
    then have "v \<in> set (ac_users s)" "ua_email v = op_email p" by (auto simp: findByEmail_def find_Some_iff)
    then show ?thesis using unique v True by simp
  next
    case False
    then show ?thesis using unique by (force simp: findByEmail_def find_None_iff)
  qed
  then show ?thesis
    using assms by (auto simp: findOrCreateOAuthUser_def validateOAuthProfile_def create_user_def)
qed

subsection \<open>A cache, and examples\<close>

definition list_tokens :: "(string \<times> token_value \<times> time) list token_cache" where
  "list_tokens = \<lparr>tc_get = (\<lambda>k now r. case map_of r k of None \<Rightarrow> None | Some (v, until) \<Rightarrow> if now < until then Some v else None),
     tc_set = (\<lambda>k v ttl t r. map_set k (v, t + ttl) r), tc_del = (\<lambda>k r. filter (\<lambda>x. fst x \<noteq> k) r)\<rparr>"

lemma map_of_without: "map_of (filter (\<lambda>x. fst x \<noteq> k') r) k = (if k = k' then None else map_of r k)"
  by (induction r) auto

interpretation list_tokens: token_cache list_tokens
  by unfold_locales (auto simp: list_tokens_def map_of_without split: option.splits if_splits)

definition toy_signer :: signer where
  "toy_signer = \<lparr>sg_sign = (\<lambda>i e. i @ e), sg_same = (\<lambda>p h. h = CHR 0x23 # p), sg_hash = (\<lambda>p. CHR 0x23 # p)\<rparr>"

theorem login_ignores_email_witness:
  "fst (login_route list_tokens (\<lambda>i e. i) (\<lambda>p h. h = CHR 0x23 # p) (\<lambda>p. CHR 0x23 # p) 5 ''aa'' ''eve@x'' ''password123'' []) =
    Inr \<lparr>tp_accessToken = ''uuid-123'', tp_refreshToken = ''aa''\<rparr>"
  by (subst login_ignores_email) auto

theorem refresh_token_used_once_witness:
  "fst (refreshTokens list_tokens (\<lambda>i e. i) 9 ''cc'' ''uuid-123'' ''b'' ''aa''
      (fold (run_token list_tokens toy_signer) [(5, Log_in ''aa'' ''x'' ''password123''), (6, Refresh_by ''bb'' ''uuid-123'' ''x'' ''aa'')] []))
    = Inl (Forbidden ''Access Denied: Refresh token reuse detected.'')
   \<and> \<not> token_exists list_tokens 10 ''uuid-123'' ''bb'' (snd (refreshTokens list_tokens (\<lambda>i e. i) 9 ''cc'' ''uuid-123'' ''b'' ''aa''
      (fold (run_token list_tokens toy_signer) [(5, Log_in ''aa'' ''x'' ''password123''), (6, Refresh_by ''bb'' ''uuid-123'' ''x'' ''aa'')] [])))"
  by (rule refresh_token_used_once [OF list_tokens.token_cache_axioms, where start = 0 and qs = "[(5, Log_in ''aa'' ''x'' ''password123'')]"
        and now = 6 and qs' = "[]" and random = "''bb''" and ?r0.0 = "[]" and sg = toy_signer])
    (simp_all add: no_tokens_def list_tokens_def validateUser_state toy_signer_def store_token_def addTokenToUserList_def tokens_of_def
      token_key_def list_key_def Let_def)

theorem refresh_route_never_refreshes_witness:
  "fst (refresh_route list_tokens (\<lambda>i e. i) 7 ''bb'' \<lparr>jp_sub = ''uuid-123'', jp_email = ''x''\<rparr> ''x''
      (fold (run_token list_tokens toy_signer) [(5, Log_in ''aa'' ''x'' ''password123'')] []))
    = Inl (Forbidden ''Access Denied: Refresh token reuse detected.'')
   \<and> \<not> token_exists list_tokens 8 (jp_sub \<lparr>jp_sub = ''uuid-123'', jp_email = ''x''\<rparr>) ''aa''
      (snd (refresh_route list_tokens (\<lambda>i e. i) 7 ''bb'' \<lparr>jp_sub = ''uuid-123'', jp_email = ''x''\<rparr> ''x''
      (fold (run_token list_tokens toy_signer) [(5, Log_in ''aa'' ''x'' ''password123'')] [])))"
  by (rule refresh_route_never_refreshes [OF list_tokens.token_cache_axioms, where start = 0 and qs = "[(5, Log_in ''aa'' ''x'' ''password123'')]"
        and ?r0.0 = "[]" and sg = toy_signer])
    (simp_all add: no_tokens_def list_tokens_def tokens_of_def)

definition nobody :: accounts where
  "nobody = \<lparr>ac_users = [], ac_listings = [], ac_events = []\<rparr>"

definition octo :: oauth_profile where
  "octo = \<lparr>op_provider = Github, op_providerId = ''7'', op_email = [], op_name = ''Octo'', op_avatarUrl = None\<rparr>"

theorem accounts_never_share_email_witness:
  "distinct (map ua_email (ac_users (fold (run_account toy_signer) [Oauth_sign_in 1 octo, Oauth_sign_in 2 octo, Soft_delete 5 1] nobody)))
   \<and> distinct (map ua_id (ac_users (fold (run_account toy_signer) [Oauth_sign_in 1 octo, Oauth_sign_in 2 octo, Soft_delete 5 1] nobody)))"
  by (rule accounts_never_share_email)
    (simp_all add: nobody_def octo_def findOrCreateOAuthUser_def validateOAuthProfile_def isValidOAuthProfile_def create_user_def new_user_def Let_def)

theorem oauth_sign_in_by_email_witness:
  "findOrCreateOAuthUser (\<lambda>n e. e) 2 octo (snd (findOrCreateOAuthUser (\<lambda>n e. e) 1 octo nobody)) =
    (Inl (Driver ''duplicate key value violates unique constraint''), snd (findOrCreateOAuthUser (\<lambda>n e. e) 1 octo nobody))"
  by (subst oauth_sign_in_by_email [where u = "hd (ac_users (snd (findOrCreateOAuthUser (\<lambda>n e. e) 1 octo nobody)))"])
    (simp_all add: nobody_def octo_def findOrCreateOAuthUser_def validateOAuthProfile_def isValidOAuthProfile_def create_user_def new_user_def
      accounts_ok_def logins_def Let_def visible_def)

end
