(* ===== verification/Recommendation.thy ===== *)
theory Recommendation
  imports Cache Orders
begin

text \<open>
  \<open>RecommendationsService\<close> (src/src/recommendation/recommendation.service.ts) with its queue processor, its
  scheduler and the \<open>IdempotencyService\<close> (src/src/common/idempotency/idempotency.service.ts) that guards the
  jobs. The cache is the one of the theory Cache. The distance of a listing, new identifiers and the clock are
  parameters; the identifiers of purchases and pairs play no role and are left out.
\<close>

subsection \<open>Tables\<close>

record browse_row =
  bh_id :: uuid
  bh_userId :: uuid
  bh_listingId :: uuid
  bh_viewedAt :: time
  bh_viewDuration :: int
  bh_addedToCart :: bool
  bh_purchased :: bool

record purchase_row =
  ph_userId :: uuid
  ph_orderId :: uuid
  ph_listingId :: uuid
  ph_quantity :: int
  ph_price :: number
  ph_currency :: string
  ph_purchasedAt :: time

record pair_row =
  fb_listingIdA :: uuid
  fb_listingIdB :: uuid
  fb_purchaseCount :: nat
  fb_confidence :: number

record similarity_row =
  us_userIdA :: uuid
  us_userIdB :: uuid
  us_similarityScore :: number
  us_commonPurchases :: nat

text \<open>The listings that are not soft-deleted.\<close>

record rec_listing =
  rl_id :: uuid
  rl_category :: "string option"
  rl_isActive :: bool
  rl_createdAt :: time
  rl_views :: int
  rl_shareLocation :: bool

datatype cached_list = Listings "rec_listing list" | Listing_ids "uuid list"

record 'r recs =
  rs_browsed :: "browse_row list"
  rs_purchases :: "purchase_row list"
  rs_pairs :: "pair_row list"
  rs_similar :: "similarity_row list"
  rs_listings :: "rec_listing list"
  rs_cache :: "(cached_list, 'r) cache"
  rs_queue :: "(uuid \<times> nat) list"

text \<open>What the surroundings do: the size of the memory, Redis, the time a read takes, whether the driver
  returns decimals as text, and whether it accepts an empty list after \<open>NOT IN\<close>.\<close>

record 'r rec_env =
  re_max :: nat
  re_ops :: "(cached_list, 'r) cache_redis"
  re_elapsed :: int
  re_text_decimals :: bool
  re_empty_in :: bool

definition CACHE_TTL :: int where
  "CACHE_TTL = 3600"

definition CACHE_TTL_SHORT :: int where
  "CACHE_TTL_SHORT = 300"

definition PRECOMPUTED_TTL :: int where
  "PRECOMPUTED_TTL = 60 * 60 * 24"

definition cached_get :: "'r rec_env \<Rightarrow> time \<Rightarrow> string \<Rightarrow> 'r recs \<Rightarrow> cached_list option \<times> 'r recs" where
  "cached_get env now key s =
     (case cache_get (\<lambda>_. True) (re_max env) (re_ops env) (re_elapsed env) key None now (rs_cache s) of
        (found, c) \<Rightarrow> (found, s\<lparr>rs_cache := c\<rparr>))"

definition cached_set :: "'r rec_env \<Rightarrow> time \<Rightarrow> string \<Rightarrow> cached_list \<Rightarrow> int \<Rightarrow> 'r recs \<Rightarrow> 'r recs" where
  "cached_set env now key v ttl s =
     s\<lparr>rs_cache := cache_set (re_max env) (re_ops env) key v \<lparr>cc_ttl = ttl, cc_tags = None\<rparr> now (rs_cache s)\<rparr>"

definition cached_delete :: "'r rec_env \<Rightarrow> string \<Rightarrow> 'r recs \<Rightarrow> 'r recs" where
  "cached_delete env key s = s\<lparr>rs_cache := cache_delete (re_ops env) key (rs_cache s)\<rparr>"

definition listings_of :: "cached_list \<Rightarrow> rec_listing list" where
  "listings_of v = (case v of Listings ls \<Rightarrow> ls | Listing_ids _ \<Rightarrow> [])"

definition user_key :: "uuid \<Rightarrow> string" where
  "user_key userId = ''recommendations:user:'' @ userId"

definition user_limit_key :: "uuid \<Rightarrow> nat \<Rightarrow> string" where
  "user_limit_key userId limit = user_key userId @ '':'' @ show_nat limit"

definition getPrecomputedKey :: "uuid \<Rightarrow> string" where
  "getPrecomputedKey userId = ''recommendations:precomputed:user:'' @ userId"

definition similar_key :: "uuid \<Rightarrow> string" where
  "similar_key listingId = ''recommendations:similar:'' @ listingId"

definition fbt_key :: "uuid \<Rightarrow> string" where
  "fbt_key listingId = ''recommendations:fbt:'' @ listingId"

definition newest :: "rec_listing list \<Rightarrow> rec_listing list" where
  "newest ls = sort_key (\<lambda>l. - rl_createdAt l) ls"

definition most_viewed :: "rec_listing list \<Rightarrow> rec_listing list" where
  "most_viewed ls = sort_key (\<lambda>l. - rl_views l) ls"

definition find_listing :: "uuid \<Rightarrow> 'r recs \<Rightarrow> rec_listing option" where
  "find_listing i s = tbl_find rl_id i (rs_listings s)"

definition category_of :: "rec_listing option \<Rightarrow> string option" where
  "category_of l = (case l of None \<Rightarrow> None | Some x \<Rightarrow> if truthy_text (rl_category x) then rl_category x else None)"

subsection \<open>Tracking\<close>

definition queueRecommendationRefresh :: "uuid \<Rightarrow> nat \<Rightarrow> 'r recs \<Rightarrow> 'r recs" where
  "queueRecommendationRefresh userId limit s = s\<lparr>rs_queue := rs_queue s @ [(userId, limit)]\<rparr>"

definition latest_view :: "uuid \<Rightarrow> uuid \<Rightarrow> 'r recs \<Rightarrow> browse_row option" where
  "latest_view userId listingId s =
     List.find (\<lambda>_. True) (sort_key (\<lambda>b. - bh_viewedAt b)
       (filter (\<lambda>b. bh_userId b = userId \<and> bh_listingId b = listingId) (rs_browsed s)))"

definition save_view :: "browse_row \<Rightarrow> 'r recs \<Rightarrow> 'r recs" where
  "save_view b s = s\<lparr>rs_browsed := tbl_save bh_id b (rs_browsed s)\<rparr>"

definition new_view :: "uuid \<Rightarrow> time \<Rightarrow> uuid \<Rightarrow> uuid \<Rightarrow> int \<Rightarrow> bool \<Rightarrow> browse_row" where
  "new_view newId now userId listingId viewDuration addedToCart =
     \<lparr>bh_id = newId, bh_userId = userId, bh_listingId = listingId, bh_viewedAt = now, bh_viewDuration = viewDuration,
      bh_addedToCart = addedToCart, bh_purchased = False\<rparr>"

definition forget_user :: "'r rec_env \<Rightarrow> uuid \<Rightarrow> 'r recs \<Rightarrow> 'r recs" where
  "forget_user env userId s = cached_delete env (getPrecomputedKey userId) (cached_delete env (user_key userId) s)"

definition trackView :: "'r rec_env \<Rightarrow> uuid \<Rightarrow> time \<Rightarrow> uuid \<Rightarrow> uuid \<Rightarrow> int option \<Rightarrow> 'r recs \<Rightarrow> browse_row \<times> 'r recs" where
  "trackView env newId now userId listingId viewDuration s =
     (let viewDuration = (case viewDuration of None \<Rightarrow> 0 | Some d \<Rightarrow> d); oneHourAgo = now - 60 * 60 * 1000;
          fresh = (let b = new_view newId now userId listingId viewDuration False
                   in (b, queueRecommendationRefresh userId 100 (forget_user env userId (save_view b s))))
      in case latest_view userId listingId s of
           None \<Rightarrow> fresh
         | Some recentView \<Rightarrow>
           if bh_viewedAt recentView > oneHourAgo
           then let b = recentView\<lparr>bh_viewDuration := bh_viewDuration recentView + viewDuration\<rparr> in (b, save_view b s)
           else fresh)"

definition trackAddToCart :: "uuid \<Rightarrow> time \<Rightarrow> uuid \<Rightarrow> uuid \<Rightarrow> 'r recs \<Rightarrow> browse_row \<times> 'r recs" where
  "trackAddToCart newId now userId listingId s =
     (let b = (case latest_view userId listingId s of
            None \<Rightarrow> new_view newId now userId listingId 0 True
          | Some recentView \<Rightarrow> recentView\<lparr>bh_addedToCart := True\<rparr>)
      in (b, save_view b s))"

subsection \<open>Purchases\<close>

record bought_item =
  bi_listingId :: uuid
  bi_quantity :: int
  bi_price :: number
  bi_currency :: string

definition purchase_of :: "time \<Rightarrow> uuid \<Rightarrow> uuid \<Rightarrow> bought_item \<Rightarrow> purchase_row" where
  "purchase_of now userId orderId item =
     \<lparr>ph_userId = userId, ph_orderId = orderId, ph_listingId = bi_listingId item, ph_quantity = bi_quantity item,
      ph_price = round_to 2 (bi_price item), ph_currency = bi_currency item, ph_purchasedAt = now\<rparr>"

text \<open>The columns hold three letters and ten digits.\<close>

definition save_purchase :: "purchase_row \<Rightarrow> 'r recs \<Rightarrow> (unit, 'r recs) result" where
  "save_purchase p s =
     (if length (ph_currency p) > 3 then (Inl (Error [Txt ''value too long for type character varying(3)'']), s)
      else if \<bar>ph_price p\<bar> \<ge> 10 ^ 8 then (Inl (Error [Txt ''numeric field overflow'']), s)
      else (Inr (), s\<lparr>rs_purchases := rs_purchases s @ [p]\<rparr>))"

definition mark_purchased :: "uuid \<Rightarrow> uuid \<Rightarrow> 'r recs \<Rightarrow> 'r recs" where
  "mark_purchased userId listingId s =
     (case List.find (\<lambda>b. bh_userId b = userId \<and> bh_listingId b = listingId) (rs_browsed s) of
        None \<Rightarrow> s
      | Some recentView \<Rightarrow> save_view (recentView\<lparr>bh_purchased := True\<rparr>) s)"

fun record_items :: "time \<Rightarrow> uuid \<Rightarrow> uuid \<Rightarrow> bought_item list \<Rightarrow> 'r recs \<Rightarrow> (unit, 'r recs) result" where
  "record_items now userId orderId [] s = (Inr (), s)"
| "record_items now userId orderId (item # items) s =
     and_then (save_purchase (purchase_of now userId orderId item) s) (\<lambda>_ s.
       record_items now userId orderId items (mark_purchased userId (bi_listingId item) s))"

definition same_pair :: "uuid \<Rightarrow> uuid \<Rightarrow> pair_row \<Rightarrow> bool" where
  "same_pair a b f \<longleftrightarrow> fb_listingIdA f = a \<and> fb_listingIdB f = b \<or> fb_listingIdA f = b \<and> fb_listingIdB f = a"

text \<open>\<open>parseFloat((..).toFixed(2))\<close> of a number of the interval from 0 to 1.\<close>

definition bought_again :: "pair_row \<Rightarrow> pair_row" where
  "bought_again f =
     (let n = fb_purchaseCount f + 1
      in f\<lparr>fb_purchaseCount := n, fb_confidence := round_to 2 ((fb_confidence f * (of_nat n - 1) + 1) / of_nat n)\<rparr>)"

fun count_pair :: "uuid \<Rightarrow> uuid \<Rightarrow> pair_row list \<Rightarrow> pair_row list" where
  "count_pair a b [] = [\<lparr>fb_listingIdA = a, fb_listingIdB = b, fb_purchaseCount = 1, fb_confidence = 1 / 2\<rparr>]"
| "count_pair a b (f # fs) = (if same_pair a b f then bought_again f # fs else f # count_pair a b fs)"

fun pairs_of :: "'a list \<Rightarrow> ('a \<times> 'a) list" where
  "pairs_of [] = []"
| "pairs_of (x # xs) = map (\<lambda>y. (x, y)) xs @ pairs_of xs"

definition updateFrequentlyBoughtTogether :: "bought_item list \<Rightarrow> 'r recs \<Rightarrow> 'r recs" where
  "updateFrequentlyBoughtTogether items s =
     (if length items < 2 then s
      else s\<lparr>rs_pairs := fold (\<lambda>(a, b). count_pair a b) (pairs_of (map bi_listingId items)) (rs_pairs s)\<rparr>)"

definition forget_items :: "'r rec_env \<Rightarrow> bought_item list \<Rightarrow> 'r recs \<Rightarrow> 'r recs" where
  "forget_items env items s =
     fold (\<lambda>item s. cached_delete env (fbt_key (bi_listingId item)) (cached_delete env (similar_key (bi_listingId item)) s)) items s"

definition recordPurchase :: "'r rec_env \<Rightarrow> time \<Rightarrow> uuid \<Rightarrow> uuid \<Rightarrow> bought_item list \<Rightarrow> 'r recs \<Rightarrow> (unit, 'r recs) result" where
  "recordPurchase env now userId orderId items s =
     and_then (record_items now userId orderId items s) (\<lambda>_ s.
       (Inr (), queueRecommendationRefresh userId 100
          (forget_items env items (forget_user env userId (updateFrequentlyBoughtTogether items s)))))"

subsection \<open>Similar users\<close>

text \<open>A raw row of the query builder has the name of the table's alias before that of the column; a name it
  does not have reads \<open>undefined\<close>.\<close>

definition raw_rows :: "string \<Rightarrow> string \<Rightarrow> string list \<Rightarrow> (string \<times> string) list list" where
  "raw_rows alias column xs = map (\<lambda>x. [(alias @ ''_'' @ column, x)]) (remdups xs)"

text \<open>An \<open>undefined\<close> value in the condition of a find is no condition.\<close>

definition meets :: "'a option \<Rightarrow> 'a \<Rightarrow> bool" where
  "meets wanted x \<longleftrightarrow> (case wanted of None \<Rightarrow> True | Some y \<Rightarrow> x = y)"

definition items_bought :: "uuid option \<Rightarrow> 'r recs \<Rightarrow> uuid list" where
  "items_bought userId s = remdups (map ph_listingId (filter (\<lambda>p. meets userId (ph_userId p)) (rs_purchases s)))"

definition same_users :: "uuid option \<Rightarrow> uuid option \<Rightarrow> similarity_row \<Rightarrow> bool" where
  "same_users a b u \<longleftrightarrow> meets a (us_userIdA u) \<and> meets b (us_userIdB u) \<or> meets b (us_userIdA u) \<and> meets a (us_userIdB u)"

fun update_first :: "('a \<Rightarrow> bool) \<Rightarrow> ('a \<Rightarrow> 'a) \<Rightarrow> 'a list \<Rightarrow> 'a list option" where
  "update_first P f [] = None"
| "update_first P f (x # xs) = (if P x then Some (f x # xs) else map_option ((#) x) (update_first P f xs))"

definition compare_users :: "uuid option \<times> uuid option \<Rightarrow> 'r recs \<Rightarrow> (unit, 'r recs) result" where
  "compare_users ab s =
     (let (a, b) = ab; itemsA = items_bought a s; itemsB = items_bought b s;
          commonPurchases = length (filter (\<lambda>x. x \<in> set itemsB) itemsA)
      in if commonPurchases > 0
         then let similarity = round_to 4 (of_nat commonPurchases / of_nat (length (remdups (itemsA @ itemsB))))
              in case update_first (same_users a b)
                        (\<lambda>u. u\<lparr>us_similarityScore := similarity, us_commonPurchases := commonPurchases\<rparr>) (rs_similar s) of
                   Some rows \<Rightarrow> (Inr (), s\<lparr>rs_similar := rows\<rparr>)
                 | None \<Rightarrow>
                   (case (a, b) of
                      (Some userA, Some userB) \<Rightarrow>
                        (Inr (), s\<lparr>rs_similar := rs_similar s @ [\<lparr>us_userIdA = userA, us_userIdB = userB,
                           us_similarityScore = similarity, us_commonPurchases = commonPurchases\<rparr>]\<rparr>)
                    | _ \<Rightarrow> (Inl (Error [Txt ''null value in column userIdA violates not-null constraint'']), s))
         else (Inr (), s))"

fun compare_all :: "(uuid option \<times> uuid option) list \<Rightarrow> 'r recs \<Rightarrow> (unit, 'r recs) result" where
  "compare_all [] s = (Inr (), s)"
| "compare_all (ab # rest) s = and_then (compare_users ab s) (\<lambda>_ s. compare_all rest s)"

definition calculateUserSimilarity :: "'r recs \<Rightarrow> (unit, 'r recs) result" where
  "calculateUserSimilarity s =
     (let users = raw_rows ''ph'' ''userId'' (map ph_userId (rs_purchases s));
          userIds = map (\<lambda>u. map_of u ''userId'') users
      in compare_all (pairs_of userIds) s)"

subsection \<open>Recommendations\<close>

text \<open>\<open>NULL\<close> is in no list, and not in none but the empty one; \<open>undefined\<close> is sent as \<open>NULL\<close>.\<close>

definition not_in_column :: "'a option list \<Rightarrow> 'a \<Rightarrow> bool" where
  "not_in_column xs x \<longleftrightarrow> None \<notin> set xs \<and> Some x \<notin> set xs"

definition similar_users :: "uuid \<Rightarrow> 'r recs \<Rightarrow> similarity_row list" where
  "similar_users userId s =
     take 10 (sort_key (\<lambda>u. - us_similarityScore u) (filter (\<lambda>u. us_userIdA u = userId \<or> us_userIdB u = userId) (rs_similar s)))"

definition other_user :: "uuid \<Rightarrow> similarity_row \<Rightarrow> uuid" where
  "other_user userId u = (if us_userIdA u = userId then us_userIdB u else us_userIdA u)"

text \<open>The purchases of similar users, joined with the similarity that names both, the most similar first.\<close>

definition similar_purchases :: "uuid \<Rightarrow> nat \<Rightarrow> 'r recs \<Rightarrow> purchase_row list" where
  "similar_purchases userId limit s =
     (let similarUserIds = map (other_user userId) (similar_users userId s);
          userPurchasedIds = map (\<lambda>p. map_of p ''listingId'')
            (raw_rows ''ph'' ''listingId'' (map ph_listingId (filter (\<lambda>p. ph_userId p = userId) (rs_purchases s))));
          joined = concat (map (\<lambda>(i, p). map (\<lambda>u. ((i, p), u)) (filter (\<lambda>u. us_userIdA u = ph_userId p \<and> us_userIdB u = userId
              \<or> us_userIdB u = ph_userId p \<and> us_userIdA u = userId) (rs_similar s))) (enumerate 0 (rs_purchases s)));
          found = filter (\<lambda>((i, p), u). ph_userId p \<in> set similarUserIds
              \<and> (if userPurchasedIds \<noteq> [] then not_in_column userPurchasedIds (ph_listingId p) else True)) joined;
          sorted_rows = sort_key (\<lambda>(x, u). - us_similarityScore u) (sort_key (\<lambda>((i, p), u). - ph_purchasedAt p) found)
      in map snd (take (limit * 2) (rev (remdups (rev (map fst sorted_rows))))))"

definition getCollaborativeRecommendations :: "uuid \<Rightarrow> nat \<Rightarrow> 'r recs \<Rightarrow> (rec_listing \<times> number) list" where
  "getCollaborativeRecommendations userId limit s =
     (let similarUsers = similar_users userId s
      in if similarUsers = [] then []
         else let similarPurchases = similar_purchases userId limit s; listingIds = remdups (map ph_listingId similarPurchases)
              in if listingIds = [] then []
                 else let listings = filter (\<lambda>l. rl_id l \<in> set listingIds \<and> rl_isActive l) (rs_listings s);
                          score = (\<lambda>l. case List.find (\<lambda>p. ph_listingId p = rl_id l) similarPurchases of
                            None \<Rightarrow> 0
                          | Some p \<Rightarrow> (case List.find (\<lambda>u. us_userIdA u = ph_userId p \<or> us_userIdB u = ph_userId p) similarUsers of
                               None \<Rightarrow> 0 | Some u \<Rightarrow> us_similarityScore u))
                      in sort_key (\<lambda>(l, score). - score) (map (\<lambda>l. (l, score l)) listings))"

definition category_scores :: "browse_row list \<Rightarrow> 'r recs \<Rightarrow> (string \<times> nat) list" where
  "category_scores browsed s =
     fold (\<lambda>view m. case category_of (find_listing (bh_listingId view) s) of
         None \<Rightarrow> m
       | Some c \<Rightarrow> map_set c ((case map_of m c of None \<Rightarrow> 0 | Some n \<Rightarrow> n) + (if bh_purchased view then 3 else 1)) m) browsed []"

text \<open>Adding a decimal that came as text joins the texts of the two.\<close>

definition add_score :: "bool \<Rightarrow> number \<Rightarrow> number \<Rightarrow> number" where
  "add_score text_decimals a b =
     (if text_decimals then (case text_value (int_text \<lfloor>a\<rfloor> @ to_fixed 4 b) of None \<Rightarrow> 0 | Some x \<Rightarrow> x) else a + b)"

definition content_based :: "nat \<Rightarrow> (string \<times> nat) list \<Rightarrow> uuid list \<Rightarrow> 'r recs \<Rightarrow> rec_listing list" where
  "content_based limit categoryScores relevant s =
     (if relevant = [] \<or> categoryScores = [] then []
      else take (limit * 2) (newest (filter (\<lambda>l. (case rl_category l of None \<Rightarrow> False | Some c \<Rightarrow> c \<in> fst ` set categoryScores)
             \<and> rl_id l \<notin> set relevant \<and> rl_isActive l) (rs_listings s))))"

definition content_score :: "(string \<times> nat) list \<Rightarrow> uuid list \<Rightarrow> uuid list \<Rightarrow> rec_listing \<Rightarrow> number" where
  "content_score categoryScores purchasedIds browsedIds l =
     of_nat (case rl_category l of None \<Rightarrow> 0 | Some c \<Rightarrow> (case map_of categoryScores c of None \<Rightarrow> 0 | Some n \<Rightarrow> n))
     + (if rl_id l \<notin> set purchasedIds \<and> rl_id l \<notin> set browsedIds then 1 else 0)
     + (if rl_id l \<notin> set purchasedIds then 2 else 0)"

definition add_collaborative ::
  "bool \<Rightarrow> (rec_listing \<times> number) list \<Rightarrow> (uuid \<times> rec_listing \<times> number) list \<Rightarrow> (uuid \<times> rec_listing \<times> number) list" where
  "add_collaborative text_decimals recommended m =
     fold (\<lambda>(l, score) m. map_set (rl_id l) (case map_of m (rl_id l) of
          Some (listing, existing) \<Rightarrow> (listing, add_score text_decimals existing score)
        | None \<Rightarrow> (l, score)) m) recommended m"

definition rank_listings :: "bool \<Rightarrow> nat \<Rightarrow> (string \<times> nat) list \<Rightarrow> uuid list \<Rightarrow> uuid list \<Rightarrow> rec_listing list \<Rightarrow> (rec_listing \<times> number) list \<Rightarrow> rec_listing list" where
  "rank_listings text_decimals limit categoryScores purchasedIds browsedIds content collaborative =
     (let scored = fold (\<lambda>l. map_set (rl_id l) (l, content_score categoryScores purchasedIds browsedIds l)) content []
      in map fst (take limit (sort_key (\<lambda>(l, score). - score) (map snd (add_collaborative text_decimals collaborative scored)))))"

definition recent_purchases :: "uuid \<Rightarrow> 'r recs \<Rightarrow> uuid list" where
  "recent_purchases u s = map ph_listingId (take 20 (sort_key (\<lambda>p. - ph_purchasedAt p) (filter (\<lambda>p. ph_userId p = u) (rs_purchases s))))"

definition popular :: "uuid list \<Rightarrow> nat \<Rightarrow> 'r recs \<Rightarrow> rec_listing list" where
  "popular exclude n s = take n (most_viewed (filter (\<lambda>l. rl_id l \<notin> set exclude \<and> rl_isActive l) (rs_listings s)))"

definition generatePersonalizedRecommendations :: "'r rec_env \<Rightarrow> uuid \<Rightarrow> nat \<Rightarrow> 'r recs \<Rightarrow> error + rec_listing list" where
  "generatePersonalizedRecommendations env userId limit s =
     (let browsed = take 20 (sort_key (\<lambda>b. - bh_viewedAt b) (filter (\<lambda>b. bh_userId b = userId) (rs_browsed s)));
          browsedIds = map bh_listingId browsed; purchasedIds = recent_purchases userId s;
          categoryScores = category_scores browsed s;
          collaborative = getCollaborativeRecommendations userId limit s;
          content = content_based limit categoryScores (browsedIds @ purchasedIds) s;
          ranked = rank_listings (re_text_decimals env) limit categoryScores purchasedIds browsedIds content collaborative;
          exclude = purchasedIds @ map rl_id ranked
      in if length ranked < limit
         then if exclude = [] \<and> \<not> re_empty_in env then Inl (Error [Txt ''syntax error at or near )''])
              else Inr (ranked @ popular exclude (limit - length ranked) s)
         else Inr ranked)"

definition getPrecomputedRecommendations :: "'r rec_env \<Rightarrow> time \<Rightarrow> uuid \<Rightarrow> nat \<Rightarrow> 'r recs \<Rightarrow> rec_listing list \<times> 'r recs" where
  "getPrecomputedRecommendations env now userId limit s =
     (case cached_get env now (getPrecomputedKey userId) s of
        (found, s) \<Rightarrow>
          (case found of
             Some (Listing_ids (i # ids)) \<Rightarrow>
               (concat (map (\<lambda>i. case find_listing i s of None \<Rightarrow> [] | Some l \<Rightarrow> if rl_isActive l then [l] else [])
                  (take limit (i # ids))), s)
           | _ \<Rightarrow> ([], queueRecommendationRefresh userId (max limit 100) s)))"

definition getRecommendedForUser :: "'r rec_env \<Rightarrow> time \<Rightarrow> uuid \<Rightarrow> nat option \<Rightarrow> 'r recs \<Rightarrow> (rec_listing list, 'r recs) result" where
  "getRecommendedForUser env now userId limit s =
     (let limit = (case limit of None \<Rightarrow> 10 | Some n \<Rightarrow> n);
          (precomputed, s) = getPrecomputedRecommendations env now userId limit s
      in if precomputed \<noteq> [] then (Inr precomputed, s)
         else case cached_get env now (user_limit_key userId limit) s of
                (Some cached, s) \<Rightarrow> (Inr (listings_of cached), s)
              | (None, s) \<Rightarrow>
                (case generatePersonalizedRecommendations env userId limit s of
                   Inl e \<Rightarrow> (Inl e, s)
                 | Inr recommendations \<Rightarrow>
                   (Inr recommendations, cached_set env now (user_limit_key userId limit) (Listings recommendations) CACHE_TTL s)))"

definition precomputeRecommendations :: "'r rec_env \<Rightarrow> time \<Rightarrow> uuid \<Rightarrow> nat \<Rightarrow> 'r recs \<Rightarrow> (unit, 'r recs) result" where
  "precomputeRecommendations env now userId limit s =
     (case generatePersonalizedRecommendations env userId limit s of
        Inl e \<Rightarrow> (Inl e, s)
      | Inr recommendations \<Rightarrow>
        (Inr (), cached_set env now (getPrecomputedKey userId) (Listing_ids (map rl_id recommendations)) PRECOMPUTED_TTL s))"

definition getUsersNeedingRefresh :: "'r recs \<Rightarrow> uuid list" where
  "getUsersNeedingRefresh s =
     filter (\<lambda>u. u \<noteq> []) (rev (remdups (rev (remdups (map bh_userId (rs_browsed s)) @ remdups (map ph_userId (rs_purchases s))))))"

subsection \<open>Similar products and products bought together\<close>

definition getSimilarProducts :: "'r rec_env \<Rightarrow> time \<Rightarrow> uuid \<Rightarrow> nat option \<Rightarrow> 'r recs \<Rightarrow> rec_listing list \<times> 'r recs" where
  "getSimilarProducts env now listingId limit s =
     (let limit = (case limit of None \<Rightarrow> 5 | Some n \<Rightarrow> n); cacheKey = similar_key listingId @ '':'' @ show_nat limit
      in case cached_get env now cacheKey s of
           (Some cached, s) \<Rightarrow> (listings_of cached, s)
         | (None, s) \<Rightarrow>
           (case find_listing listingId s of
              None \<Rightarrow> ([], s)
            | Some original \<Rightarrow>
              let similar = take limit (newest (filter (\<lambda>l. rl_category original \<noteq> None \<and> rl_category l = rl_category original
                    \<and> rl_id l \<noteq> listingId \<and> rl_isActive l) (rs_listings s)))
              in (similar, cached_set env now cacheKey (Listings similar) CACHE_TTL s)))"

definition together_rows :: "uuid \<Rightarrow> nat \<Rightarrow> 'r recs \<Rightarrow> pair_row list" where
  "together_rows listingId limit s =
     take limit (sort_key (\<lambda>f. - fb_confidence f) (sort_key (\<lambda>f. - int (fb_purchaseCount f))
       (filter (\<lambda>f. fb_listingIdA f = listingId \<or> fb_listingIdB f = listingId) (rs_pairs s))))"

definition getFrequentlyBoughtTogether :: "'r rec_env \<Rightarrow> time \<Rightarrow> uuid \<Rightarrow> nat option \<Rightarrow> 'r recs \<Rightarrow> rec_listing list \<times> 'r recs" where
  "getFrequentlyBoughtTogether env now listingId limit s =
     (let limit = (case limit of None \<Rightarrow> 5 | Some n \<Rightarrow> n); cacheKey = fbt_key listingId @ '':'' @ show_nat limit
      in case cached_get env now cacheKey s of
           (Some cached, s) \<Rightarrow> (listings_of cached, s)
         | (None, s) \<Rightarrow>
           let fbtItems = together_rows listingId limit s
           in if fbtItems = []
              then (case find_listing listingId s of
                      None \<Rightarrow> ([], s)
                    | Some listing \<Rightarrow>
                      let fallback = take limit (most_viewed (filter (\<lambda>l. rl_category listing \<noteq> None
                            \<and> rl_category l = rl_category listing \<and> rl_id l \<noteq> listingId \<and> rl_isActive l) (rs_listings s)))
                      in (fallback, cached_set env now cacheKey (Listings fallback) CACHE_TTL_SHORT s))
              else let relatedIds = map (\<lambda>f. if fb_listingIdA f = listingId then fb_listingIdB f else fb_listingIdA f) fbtItems;
                       sortedListings = concat (map (\<lambda>i. case find_listing i s of
                          None \<Rightarrow> [] | Some l \<Rightarrow> if rl_isActive l then [l] else []) relatedIds)
                   in (sortedListings, cached_set env now cacheKey (Listings sortedListings) CACHE_TTL s))"

text \<open>\<open>distance\<close> is the distance in metres of a listing with a place.\<close>

definition findNearbyListings :: "(rec_listing \<Rightarrow> number option) \<Rightarrow> number \<Rightarrow> 'r recs \<Rightarrow> (rec_listing \<times> number) list" where
  "findNearbyListings distance maxDistanceInMeters s =
     sort_key snd (concat (map (\<lambda>l. case distance l of
         None \<Rightarrow> [] | Some d \<Rightarrow> if d \<le> maxDistanceInMeters \<and> rl_shareLocation l then [(l, d)] else []) (rs_listings s)))"

definition getRecommendedForUserLegacy :: "uuid \<Rightarrow> 'r recs \<Rightarrow> rec_listing list" where
  "getRecommendedForUserLegacy userId s = take 10 (newest (filter rl_shareLocation (rs_listings s)))"

definition getSimilarProductsLegacy :: "uuid \<Rightarrow> 'r recs \<Rightarrow> rec_listing list" where
  "getSimilarProductsLegacy listingId s =
     (case find_listing listingId s of
        None \<Rightarrow> []
      | Some original \<Rightarrow> take 5 (filter (\<lambda>l. rl_category original \<noteq> None \<and> rl_category l = rl_category original
             \<and> rl_id l \<noteq> listingId) (rs_listings s)))"

subsection \<open>The jobs\<close>

record 'd once_cache =
  oc_get :: "string \<Rightarrow> time \<Rightarrow> 'd \<Rightarrow> time option"
  oc_set :: "string \<Rightarrow> time \<Rightarrow> int \<Rightarrow> time \<Rightarrow> 'd \<Rightarrow> 'd"

locale once_cache =
  fixes ops :: "'d once_cache"
  assumes get_set: "oc_get ops k now (oc_set ops k' v ttl t d) =
      (if k = k' then (if now < t + ttl then Some v else None) else oc_get ops k now d)"

record 'd idempotency =
  id_cache :: 'd
  inFlight :: "string list"

definition toCacheKey :: "string \<Rightarrow> string" where
  "toCacheKey key = ''idempotency:'' @ key"

text \<open>The operation starts at \<open>now\<close> and ends at \<open>done\<close>; the first component of the result is whether it was run.\<close>

definition executeOnce ::
  "'d once_cache \<Rightarrow> string \<Rightarrow> ('s \<Rightarrow> (unit, 's) result) \<Rightarrow> int \<Rightarrow> time \<Rightarrow> time \<Rightarrow> 'd idempotency \<times> 's \<Rightarrow> (bool, 'd idempotency \<times> 's) result" where
  "executeOnce ops key operation ttlSeconds now ended ds =
     (let (d, s) = ds; cacheKey = toCacheKey key
      in if cacheKey \<in> set (inFlight d) then (Inr False, (d, s))
         else if oc_get ops cacheKey now (id_cache d) \<noteq> None then (Inr False, (d, s))
         else case operation s of
                (Inr _, s) \<Rightarrow> (Inr True, (d\<lparr>id_cache := oc_set ops cacheKey ended (ttlSeconds * 1000) ended (id_cache d)\<rparr>, s))
              | (Inl e, s) \<Rightarrow> (Inl e, (d, s)))"

definition job_key :: "uuid \<times> nat \<Rightarrow> string" where
  "job_key job = ''recommendations-job:'' @ fst job @ '':'' @ show_nat (snd job)"

definition refreshUserRecommendations ::
  "'r rec_env \<Rightarrow> 'd once_cache \<Rightarrow> uuid \<times> nat \<Rightarrow> time \<Rightarrow> time \<Rightarrow> 'd idempotency \<times> 'r recs \<Rightarrow> (bool, 'd idempotency \<times> 'r recs) result" where
  "refreshUserRecommendations env ops job now ended ds =
     executeOnce ops (job_key job) (precomputeRecommendations env ended (fst job) (snd job)) (15 * 60) now ended ds"

definition refreshNightlyRecommendations :: "'r recs \<Rightarrow> 'r recs" where
  "refreshNightlyRecommendations s = s\<lparr>rs_queue := rs_queue s @ map (\<lambda>u. (u, 100)) (getUsersNeedingRefresh s)\<rparr>"

subsection \<open>Nobody is ever similar\<close>

datatype rec_op =
  Track_view uuid time uuid uuid "int option"
| Add_to_cart uuid time uuid uuid
| Record_purchase time uuid uuid "bought_item list"
| Recommend time uuid "nat option"
| Refresh time uuid nat
| Similar time uuid "nat option"
| Together time uuid "nat option"
| Calculate

primrec run_rec :: "'r rec_env \<Rightarrow> rec_op \<Rightarrow> 'r recs \<Rightarrow> 'r recs" where
  "run_rec env (Track_view i now u l d) s = snd (trackView env i now u l d s)"
| "run_rec env (Add_to_cart i now u l) s = snd (trackAddToCart i now u l s)"
| "run_rec env (Record_purchase now u k items) s = snd (recordPurchase env now u k items s)"
| "run_rec env (Recommend now u n) s = snd (getRecommendedForUser env now u n s)"
| "run_rec env (Refresh now u n) s = snd (precomputeRecommendations env now u n s)"
| "run_rec env (Similar now l n) s = snd (getSimilarProducts env now l n s)"
| "run_rec env (Together now l n) s = snd (getFrequentlyBoughtTogether env now l n s)"
| "run_rec env Calculate s = snd (calculateUserSimilarity s)"

lemma cached_simps [simp]:
  "rs_similar (snd (cached_get env now k s)) = rs_similar s" "rs_listings (snd (cached_get env now k s)) = rs_listings s"
  "rs_pairs (snd (cached_get env now k s)) = rs_pairs s"
  "rs_similar (cached_set env now k v t s) = rs_similar s" "rs_similar (cached_delete env k s) = rs_similar s"
  "rs_pairs (cached_set env now k v t s) = rs_pairs s" "rs_pairs (cached_delete env k s) = rs_pairs s"
  "rs_similar (queueRecommendationRefresh u n s) = rs_similar s" "rs_similar (save_view b s) = rs_similar s"
  by (simp_all add: cached_get_def cached_set_def cached_delete_def queueRecommendationRefresh_def save_view_def split: prod.split)

lemma cached_get_similar: "cached_get env now k s = (v, s') \<Longrightarrow> rs_similar s' = rs_similar s"
  by (metis cached_simps(1) snd_conv)

lemma forget_similar [simp]:
  "rs_similar (forget_user env u s) = rs_similar s" "rs_similar (forget_items env items s) = rs_similar s"
proof -
  show "rs_similar (forget_user env u s) = rs_similar s" by (simp add: forget_user_def)
  show "rs_similar (forget_items env items s) = rs_similar s"
    unfolding forget_items_def by (induction items arbitrary: s) simp_all
qed

lemma purchase_similar [simp]:
  "rs_similar (mark_purchased u l s) = rs_similar s" "rs_similar (snd (save_purchase p s)) = rs_similar s"
  by (simp_all add: mark_purchased_def save_purchase_def split: option.split)

lemma record_items_similar: "rs_similar (snd (record_items now u k items s)) = rs_similar s"
proof (induction items arbitrary: s)
  case (Cons item items)
  then show ?case by (simp add: and_then_def split: sum.split)
qed simp

lemma compare_all_nobody:
  "rs_similar s = [] \<Longrightarrow> \<forall>ab \<in> set rest. ab = (None, None) \<Longrightarrow> snd (compare_all rest s) = s"
  by (induction rest s rule: compare_all.induct)
    (auto simp: compare_users_def Let_def and_then_def split: sum.split)

lemma raw_undefined: "map (\<lambda>u. map_of u ''userId'') (raw_rows ''ph'' ''userId'' xs) = replicate (length (remdups xs)) None"
  by (simp add: raw_rows_def map_replicate_const comp_def)

lemma raw_undefined_listing: "map (\<lambda>u. map_of u ''listingId'') (raw_rows ''ph'' ''listingId'' xs) = replicate (length (remdups xs)) None"
  by (simp add: raw_rows_def map_replicate_const comp_def)

lemma pairs_of_replicate: "\<forall>ab \<in> set (pairs_of (replicate n x)). ab = (x, x)"
  by (induction n) auto

lemma calculate_nothing: "rs_similar s = [] \<Longrightarrow> snd (calculateUserSimilarity s) = s"
  by (simp add: calculateUserSimilarity_def raw_undefined compare_all_nobody [OF _ pairs_of_replicate])

lemma precomputed_similar: "rs_similar (snd (getPrecomputedRecommendations env now u n s)) = rs_similar s"
  using cached_get_similar [of env now "getPrecomputedKey u" s]
  by (cases "cached_get env now (getPrecomputedKey u) s")
    (auto simp: getPrecomputedRecommendations_def split: option.split cached_list.split list.split)

lemma recommended_similar: "rs_similar (snd (getRecommendedForUser env now u m s)) = rs_similar s"
proof -
  let ?n = "case m of None \<Rightarrow> 10 | Some n \<Rightarrow> n"
  obtain ls t where p: "getPrecomputedRecommendations env now u ?n s = (ls, t)" by fastforce
  then have t: "rs_similar t = rs_similar s" using precomputed_similar [of env now u ?n s] by simp
  obtain found t' where g: "cached_get env now (user_limit_key u ?n) t = (found, t')" by fastforce
  then have "rs_similar t' = rs_similar s" using cached_get_similar t by metis
  then show ?thesis using t by (simp add: getRecommendedForUser_def Let_def p g split: option.split sum.split)
qed

lemma similar_products_similar: "rs_similar (snd (getSimilarProducts env now l m s)) = rs_similar s"
proof -
  obtain found t where g: "cached_get env now (similar_key l @ '':'' @ show_nat (case m of None \<Rightarrow> 5 | Some n \<Rightarrow> n)) s = (found, t)"
    by fastforce
  then have "rs_similar t = rs_similar s" using cached_get_similar by metis
  then show ?thesis by (simp add: getSimilarProducts_def Let_def g [simplified] split: option.split)
qed

lemma together_similar: "rs_similar (snd (getFrequentlyBoughtTogether env now l m s)) = rs_similar s"
proof -
  obtain found t where g: "cached_get env now (fbt_key l @ '':'' @ show_nat (case m of None \<Rightarrow> 5 | Some n \<Rightarrow> n)) s = (found, t)"
    by fastforce
  then have "rs_similar t = rs_similar s" using cached_get_similar by metis
  then show ?thesis by (simp add: getFrequentlyBoughtTogether_def Let_def g [simplified] split: option.split)
qed

lemma run_rec_similar:
  assumes "rs_similar s = []"
  shows "rs_similar (run_rec env q s) = []"
proof (cases q)
  case Track_view
  then show ?thesis using assms by (simp add: trackView_def Let_def split: option.split)
next
  case Add_to_cart
  then show ?thesis using assms by (simp add: trackAddToCart_def Let_def)
next
  case (Record_purchase now u k items)
  then show ?thesis
    using assms record_items_similar [of now u k items s]
    by (auto simp: recordPurchase_def and_then_def updateFrequentlyBoughtTogether_def split: sum.split)
next
  case Recommend
  then show ?thesis using assms by (simp add: recommended_similar)
next
  case Refresh
  then show ?thesis using assms by (simp add: precomputeRecommendations_def split: sum.split)
next
  case Similar
  then show ?thesis using assms by (simp add: similar_products_similar)
next
  case Together
  then show ?thesis using assms by (simp add: together_similar)
next
  case Calculate
  then show ?thesis using assms by (simp add: calculate_nothing)
qed

text \<open>
  Collaborative filtering never recommends anything - the raw rows of the query for the
  buyers have no field userId, so that calculating the similarities compares undefined with undefined:
  with purchases of two users it fails and stores nothing; the table stays empty whatever is run, and
  no recommendation ever comes from a similar user.
\<close>

lemma similarity_never_learned:
  assumes "rs_similar s0 = []" "s = fold (run_rec env) ops s0"
  shows "rs_similar s = [] \<and> getCollaborativeRecommendations u n s = [] \<and>
    (card (ph_userId ` set (rs_purchases s)) \<ge> 2 \<longrightarrow>
       calculateUserSimilarity s = (Inl (Error [Txt ''null value in column userIdA violates not-null constraint'']), s))"
proof -
  have empty: "rs_similar s = []"
    unfolding assms(2) using assms(1) by (induction ops arbitrary: s0) (simp_all add: run_rec_similar)
  then have "getCollaborativeRecommendations u n s = []"
    by (simp add: getCollaborativeRecommendations_def similar_users_def Let_def)
  moreover have "calculateUserSimilarity s = (Inl (Error [Txt ''null value in column userIdA violates not-null constraint'']), s)"
    if many: "card (ph_userId ` set (rs_purchases s)) \<ge> 2"
  proof -
    have "length (remdups (map ph_userId (rs_purchases s))) \<ge> 2"
      using many by (simp add: length_remdups_card_conv)
    then obtain k where k: "length (remdups (map ph_userId (rs_purchases s))) = Suc (Suc k)"
      by (metis add_2_eq_Suc le_Suc_ex)
    have "rs_purchases s \<noteq> []" using many by auto
    then have "length (items_bought None s) > 0" by (simp add: items_bought_def meets_def length_remdups_card_conv card_gt_0_iff)
    then have "compare_users (None, None) s = (Inl (Error [Txt ''null value in column userIdA violates not-null constraint'']), s)"
      using empty by (simp add: compare_users_def Let_def)
    then show ?thesis by (simp add: calculateUserSimilarity_def raw_undefined k and_then_def)
  qed
  ultimately show ?thesis using empty by blast
qed

subsection \<open>Products bought together\<close>

definition pair_key :: "uuid \<Rightarrow> uuid \<Rightarrow> uuid set" where
  "pair_key a b = {a, b}"

definition row_key :: "pair_row \<Rightarrow> uuid set" where
  "row_key f = pair_key (fb_listingIdA f) (fb_listingIdB f)"

lemma same_pair_key: "same_pair a b f \<longleftrightarrow> row_key f = pair_key a b"
  by (auto simp: same_pair_def row_key_def pair_key_def doubleton_eq_iff)

lemma new_pair_key [simp]: "row_key \<lparr>fb_listingIdA = a, fb_listingIdB = b, fb_purchaseCount = n, fb_confidence = c\<rparr> = pair_key a b"
  by (simp add: row_key_def)

text \<open>How often a pair was times_together, read off the table.\<close>

definition times_together :: "uuid set \<Rightarrow> pair_row list \<Rightarrow> nat" where
  "times_together k fs = sum_list (map fb_purchaseCount (filter (\<lambda>f. row_key f = k) fs))"

definition pair_ok :: "pair_row \<Rightarrow> bool" where
  "pair_ok f \<longleftrightarrow> 1 \<le> fb_purchaseCount f \<and> 1 / 2 \<le> fb_confidence f \<and> fb_confidence f \<le> 1"

definition pairs_ok :: "pair_row list \<Rightarrow> bool" where
  "pairs_ok fs \<longleftrightarrow> distinct (map row_key fs) \<and> (\<forall>f \<in> set fs. pair_ok f)"

lemma round_to_le: "a \<le> b \<Longrightarrow> 0 \<le> a \<Longrightarrow> round_to k a \<le> round_to k b"
  by (cases "a = 0"; cases "b = 0")
    (auto simp: round_to_def divide_simps mult_right_mono intro!: floor_mono)

lemma bought_again_key [simp]: "row_key (bought_again f) = row_key f" "fb_purchaseCount (bought_again f) = Suc (fb_purchaseCount f)"
  by (simp_all add: bought_again_def row_key_def Let_def)

lemma bought_again_ok:
  assumes "pair_ok f"
  shows "pair_ok (bought_again f)"
proof -
  let ?c = "fb_confidence f" and ?n = "of_nat (fb_purchaseCount f) :: number"
  have c: "1 / 2 \<le> ?c" "?c \<le> 1" and n: "1 \<le> ?n" using assms by (simp_all add: pair_ok_def)
  have conf: "fb_confidence (bought_again f) = round_to 2 ((?c * ?n + 1) / (?n + 1))"
    by (simp add: bought_again_def Let_def add.commute)
  have "1 / 2 * ?n \<le> ?c * ?n" "?c * ?n \<le> 1 * ?n" using c n by (intro mult_right_mono; simp)+
  moreover have "1 / 2 \<le> (m + 1) / (?n + 1) \<and> (m + 1) / (?n + 1) \<le> 1" if "1 / 2 * ?n \<le> m" "m \<le> 1 * ?n" for m
    using n that by (simp add: field_simps)
  ultimately have "1 / 2 \<le> (?c * ?n + 1) / (?n + 1)" "(?c * ?n + 1) / (?n + 1) \<le> 1" by blast+
  then have "round_to 2 (1 / 2) \<le> fb_confidence (bought_again f)" "fb_confidence (bought_again f) \<le> round_to 2 1"
    unfolding conf by (intro round_to_le; simp)+
  moreover have "round_to 2 (1 / 2) = (1 / 2 :: number)" "round_to 2 1 = (1 :: number)"
    using round_to_exact [of 2 50] round_to_exact [of 2 100] by simp_all
  ultimately show ?thesis by (simp add: pair_ok_def)
qed

lemma count_pair_keys: "row_key ` set (count_pair a b fs) = insert (pair_key a b) (row_key ` set fs)"
  by (induction fs) (auto simp: same_pair_key)

lemma count_pair_ok: "pairs_ok fs \<Longrightarrow> pairs_ok (count_pair a b fs)"
proof (induction fs)
  case Nil
  then show ?case by (simp add: pairs_ok_def pair_ok_def)
next
  case (Cons f fs)
  then have fs: "pairs_ok fs" "pair_ok f" "row_key f \<notin> row_key ` set fs" by (auto simp: pairs_ok_def)
  show ?case
  proof (cases "same_pair a b f")
    case True
    then show ?thesis using Cons.prems bought_again_ok [OF fs(2)] by (simp add: pairs_ok_def)
  next
    case False
    then have "row_key f \<notin> row_key ` set (count_pair a b fs)" using fs(3) by (simp add: count_pair_keys same_pair_key)
    then show ?thesis using False Cons.IH [OF fs(1)] fs(2) by (simp add: pairs_ok_def)
  qed
qed

lemma count_pair_counted: "times_together k (count_pair a b fs) = times_together k fs + (if k = pair_key a b then 1 else 0)"
  by (induction fs) (auto simp: times_together_def same_pair_key)

lemma count_pairs:
  "pairs_ok fs \<Longrightarrow> pairs_ok (fold (\<lambda>(a, b). count_pair a b) ps fs)
    \<and> times_together k (fold (\<lambda>(a, b). count_pair a b) ps fs) = times_together k fs + length (filter (\<lambda>(a, b). pair_key a b = k) ps)"
  by (induction ps arbitrary: fs) (auto simp: count_pair_ok count_pair_counted)

lemma updated_pairs:
  "rs_pairs (updateFrequentlyBoughtTogether items s) = fold (\<lambda>(a, b). count_pair a b) (pairs_of (map bi_listingId items)) (rs_pairs s)"
  by (cases items; cases "tl items") (auto simp: updateFrequentlyBoughtTogether_def)

text \<open>
  Property C24: products bought together are times_together exactly - after any number of baskets the table has
  at most one row for two listings, in whichever order they were bought; its count is the number of times
  a basket had the two, and its confidence stays between one half and one.
\<close>

theorem bought_together_exact:
  assumes "rs_pairs s0 = []" "s = fold updateFrequentlyBoughtTogether baskets s0"
  shows "pairs_ok (rs_pairs s) \<and> times_together {a, b} (rs_pairs s) =
    length (filter (\<lambda>(x, y). {x, y} = {a, b}) (concat (map (\<lambda>items. pairs_of (map bi_listingId items)) baskets)))"
proof -
  have "pairs_ok (rs_pairs s1) \<Longrightarrow> pairs_ok (rs_pairs (fold updateFrequentlyBoughtTogether baskets s1)) \<and>
      times_together k (rs_pairs (fold updateFrequentlyBoughtTogether baskets s1)) = times_together k (rs_pairs s1) +
        length (filter (\<lambda>(x, y). pair_key x y = k) (concat (map (\<lambda>items. pairs_of (map bi_listingId items)) baskets)))" for k and s1 :: "'a recs"
  proof (induction baskets arbitrary: s1)
    case (Cons items baskets)
    have "pairs_ok (rs_pairs (updateFrequentlyBoughtTogether items s1))"
      unfolding updated_pairs using count_pairs Cons.prems by blast
    then show ?case using Cons.IH count_pairs [OF Cons.prems, of "pairs_of (map bi_listingId items)" k]
      by (simp add: updated_pairs)
  qed simp
  from this [of s0 "pair_key a b"] show ?thesis using assms by (simp add: pairs_ok_def times_together_def pair_key_def)
qed

subsection \<open>What is recommended\<close>

text \<open>A listing that may be recommended: in the table, active and not among \<open>bought\<close>.\<close>

definition offered :: "uuid list \<Rightarrow> 'r recs \<Rightarrow> rec_listing \<Rightarrow> bool" where
  "offered bought s l \<longleftrightarrow> l \<in> set (rs_listings s) \<and> rl_isActive l \<and> rl_id l \<notin> set bought"

text \<open>A ranking under construction: listings under their own identifiers, each offered.\<close>

definition ranking_ok :: "uuid list \<Rightarrow> 'r recs \<Rightarrow> (uuid \<times> rec_listing \<times> number) list \<Rightarrow> bool" where
  "ranking_ok bought s m \<longleftrightarrow> distinct (map fst m) \<and> (\<forall>(i, l, score) \<in> set m. i = rl_id l \<and> offered bought s l)"

lemma distinct_map_sort: "distinct (map f (sort_key k xs)) \<longleftrightarrow> distinct (map f xs)"
  by (metis distinct_map distinct_sort mset_map mset_eq_imp_distinct_iff mset_sort)

lemma map_set_mem: "x \<in> set (map_set k e m) \<Longrightarrow> x = (k, e) \<or> x \<in> set m"
  by (induction m) (auto split: if_splits)

lemma ranking_set: "ranking_ok bought s m \<Longrightarrow> offered bought s l \<Longrightarrow> ranking_ok bought s (map_set (rl_id l) (l, score) m)"
  by (auto simp: ranking_ok_def map_set_distinct dest!: map_set_mem)

lemma ranking_content:
  "ranking_ok bought s m \<Longrightarrow> \<forall>l \<in> set content. offered bought s l
    \<Longrightarrow> ranking_ok bought s (fold (\<lambda>l. map_set (rl_id l) (l, f l)) content m)"
  by (induction content arbitrary: m) (auto simp: ranking_set)

lemma ranking_collaborative:
  "ranking_ok bought s m \<Longrightarrow> \<forall>(l, score) \<in> set recommended. offered bought s l
    \<Longrightarrow> ranking_ok bought s (add_collaborative pg recommended m)"
proof (induction recommended arbitrary: m)
  case (Cons x recommended)
  obtain l score where x: "x = (l, score)" by (cases x)
  let ?e = "case map_of m (rl_id l) of Some (listing, existing) \<Rightarrow> (listing, add_score pg existing score) | None \<Rightarrow> (l, score)"
  have "ranking_ok bought s (map_set (rl_id l) ?e m)"
  proof (cases "map_of m (rl_id l)")
    case None
    then show ?thesis using Cons.prems x by (auto intro: ranking_set)
  next
    case (Some e)
    then have "(rl_id l, e) \<in> set m" by (rule map_of_SomeD)
    then have "rl_id l = rl_id (fst e)" "offered bought s (fst e)" using Cons.prems(1) by (auto simp: ranking_ok_def)
    then show ?thesis using Some ranking_set [OF Cons.prems(1), of "fst e" "add_score pg (snd e) score"] by (simp add: case_prod_beta)
  qed
  then show ?case using Cons x by (simp add: add_collaborative_def)
qed (simp add: add_collaborative_def)

lemma content_offered: "l \<in> set (content_based n cs (browsed @ bought) s) \<Longrightarrow> offered bought s l"
  by (auto simp: content_based_def newest_def offered_def split: if_splits dest!: in_set_takeD)

lemma no_purchases_collaborative:
  assumes "filter (\<lambda>p. ph_userId p = u) (rs_purchases s) \<noteq> []"
  shows "getCollaborativeRecommendations u n s = []"
proof -
  have "remdups (map ph_listingId (filter (\<lambda>p. ph_userId p = u) (rs_purchases s))) \<noteq> []" using assms by simp
  then have "replicate (length (remdups (map ph_listingId (filter (\<lambda>p. ph_userId p = u) (rs_purchases s))))) None \<noteq> ([] :: string option list)"
    by simp
  then have "None \<in> set (replicate (length (remdups (map ph_listingId (filter (\<lambda>p. ph_userId p = u) (rs_purchases s))))) (None :: string option))"
    by (metis in_set_replicate length_0_conv length_replicate)
  then have "similar_purchases u n s = []"
    by (simp add: similar_purchases_def Let_def raw_undefined_listing not_in_column_def assms)
  then show ?thesis by (simp add: getCollaborativeRecommendations_def Let_def)
qed

lemma collaborative_offered:
  assumes "(l, score) \<in> set (getCollaborativeRecommendations u n s)"
  shows "offered (recent_purchases u s) s l"
proof -
  have "filter (\<lambda>p. ph_userId p = u) (rs_purchases s) = []" using assms no_purchases_collaborative by fastforce
  then have "recent_purchases u s = []" by (simp add: recent_purchases_def)
  then show ?thesis
    using assms by (auto simp: getCollaborativeRecommendations_def Let_def offered_def split: if_splits)
qed

definition ranked_ok :: "nat \<Rightarrow> uuid list \<Rightarrow> 'r recs \<Rightarrow> rec_listing list \<Rightarrow> bool" where
  "ranked_ok n bought s ls \<longleftrightarrow> length ls \<le> n \<and> distinct (map rl_id ls) \<and> (\<forall>l \<in> set ls. offered bought s l)"

lemma rank_offered: "ranking_ok bought s m \<Longrightarrow> x \<in> set (take n (sort_key k (map snd m))) \<Longrightarrow> offered bought s (fst x)"
  by (fastforce simp: ranking_ok_def dest!: in_set_takeD)

lemma rank_distinct:
  assumes "ranking_ok bought s m"
  shows "distinct (map rl_id (map fst (take n (sort_key k (map snd m)))))"
proof -
  have "map (rl_id \<circ> fst) (map snd m) = map fst m" using assms by (auto simp: ranking_ok_def)
  then have "distinct (map (rl_id \<circ> fst) (map snd m))" using assms by (metis ranking_ok_def)
  then have "distinct (map (rl_id \<circ> fst) (sort_key k (map snd m)))" by (simp only: distinct_map_sort)
  then have "distinct (take n (map (rl_id \<circ> fst) (sort_key k (map snd m))))" by (rule distinct_take)
  then show ?thesis by (simp add: take_map)
qed

lemma rank_listings_ok:
  assumes "\<forall>l \<in> set content. offered bought s l" "\<And>l score. (l, score) \<in> set collaborative \<Longrightarrow> offered bought s l"
  shows "ranked_ok n bought s (rank_listings pg n cs purchased browsed content collaborative)"
proof -
  define m where "m = add_collaborative pg collaborative
      (fold (\<lambda>l. map_set (rl_id l) (l, content_score cs purchased browsed l)) content [])"
  have "ranking_ok bought s (fold (\<lambda>l. map_set (rl_id l) (l, content_score cs purchased browsed l)) content [])"
    by (rule ranking_content) (use assms(1) in \<open>simp_all add: ranking_ok_def\<close>)
  then have m: "ranking_ok bought s m" unfolding m_def by (rule ranking_collaborative) (use assms(2) in auto)
  have "rank_listings pg n cs purchased browsed content collaborative = map fst (take n (sort_key (\<lambda>(l, score). - score) (map snd m)))"
    by (simp add: rank_listings_def m_def)
  then show ?thesis using rank_distinct [OF m] rank_offered [OF m] unfolding ranked_ok_def by auto
qed

lemma popular_mem: "l \<in> set (popular exclude n s) \<Longrightarrow> l \<in> set (rs_listings s) \<and> rl_isActive l \<and> rl_id l \<notin> set exclude"
  by (auto simp: popular_def most_viewed_def dest!: in_set_takeD)

lemma popular_distinct: "distinct (map rl_id (rs_listings s)) \<Longrightarrow> distinct (map rl_id (popular exclude n s))"
  by (simp add: popular_def most_viewed_def flip: take_map) (simp add: distinct_map_filter distinct_map_sort)

lemma popular_length: "length (popular exclude n s) \<le> n"
  by (simp add: popular_def)

lemma ranked_append:
  assumes "ranked_ok n bought s xs" "length xs + length ys \<le> n" "distinct (map rl_id ys)"
    "\<And>l. l \<in> set ys \<Longrightarrow> offered bought s l \<and> rl_id l \<notin> rl_id ` set xs"
  shows "ranked_ok n bought s (xs @ ys)"
proof -
  have "rl_id ` set xs \<inter> rl_id ` set ys = {}"
  proof (rule ccontr)
    assume "rl_id ` set xs \<inter> rl_id ` set ys \<noteq> {}"
    then obtain y where y: "y \<in> rl_id ` set xs" "y \<in> rl_id ` set ys" by (meson Int_iff ex_in_conv)
    from y(2) obtain l where "y = rl_id l" "l \<in> set ys" by (rule imageE)
    then show False using assms(4) [of l] y(1) by simp
  qed
  then show ?thesis using assms by (simp add: ranked_ok_def ball_Un)
qed

lemma popular_ok:
  assumes "ranked_ok n bought s ranked" "distinct (map rl_id (rs_listings s))"
  shows "ranked_ok n bought s (ranked @ popular (bought @ map rl_id ranked) (n - length ranked) s)"
proof (rule ranked_append [OF assms(1) _ popular_distinct [OF assms(2)]])
  show "length ranked + length (popular (bought @ map rl_id ranked) (n - length ranked) s) \<le> n"
  proof -
    have "length ranked \<le> n" using assms(1) by (simp add: ranked_ok_def)
    then show ?thesis using popular_length [of "bought @ map rl_id ranked" "n - length ranked" s] by linarith
  qed
  fix l
  assume "l \<in> set (popular (bought @ map rl_id ranked) (n - length ranked) s)"
  from popular_mem [OF this] show "offered bought s l \<and> rl_id l \<notin> rl_id ` set ranked" by (simp add: offered_def)
qed

lemma generated_sound:
  assumes "distinct (map rl_id (rs_listings s))" "generatePersonalizedRecommendations env u n s = Inr ls"
  shows "length ls \<le> n \<and> distinct (map rl_id ls) \<and> (\<forall>l \<in> set ls. offered (recent_purchases u s) s l)"
proof -
  obtain cs browsed where content: "\<forall>l \<in> set (content_based n cs (browsed @ recent_purchases u s) s). offered (recent_purchases u s) s l"
    and ls: "ls = rank_listings (re_text_decimals env) n cs (recent_purchases u s) browsed
        (content_based n cs (browsed @ recent_purchases u s) s) (getCollaborativeRecommendations u n s)
      \<or> (\<exists>ranked. ranked = rank_listings (re_text_decimals env) n cs (recent_purchases u s) browsed
        (content_based n cs (browsed @ recent_purchases u s) s) (getCollaborativeRecommendations u n s) \<and> length ranked < n
        \<and> ls = ranked @ popular (recent_purchases u s @ map rl_id ranked) (n - length ranked) s)"
    using assms(2) content_offered unfolding generatePersonalizedRecommendations_def Let_def
    by (metis (no_types, lifting) Inr_inject sum.distinct(1))
  obtain ranked where ranked: "ranked_ok n (recent_purchases u s) s ranked"
    and cases: "ls = ranked \<or> length ranked < n \<and> ls = ranked @ popular (recent_purchases u s @ map rl_id ranked) (n - length ranked) s"
    using ls rank_listings_ok [OF content] collaborative_offered by blast
  then show ?thesis using popular_ok [OF ranked assms(1)] by (auto simp: ranked_ok_def)
qed

text \<open>
  Property C21: a list of recommendations generated for a user (what the service stores and returns when it holds no
  stored list for them; a stored one is not looked at again) has, when no two listings share an
  identifier, at most as many listings as asked for, no listing twice, and only active listings of the table that
  are in none of the user's twenty latest purchases. Generating it fails in one case only: the driver
  accepts no empty list, something was asked for, and the user has bought nothing; then it is the syntax
  error of that query.
\<close>

theorem recommendations_sound:
  assumes "distinct (map rl_id (rs_listings s))"
  shows "case generatePersonalizedRecommendations env u n s of
      Inr ls \<Rightarrow> length ls \<le> n \<and> distinct (map rl_id ls)
        \<and> (\<forall>l \<in> set ls. l \<in> set (rs_listings s) \<and> rl_isActive l \<and> rl_id l \<notin> set (recent_purchases u s))
    | Inl e \<Rightarrow> \<not> re_empty_in env \<and> 0 < n \<and> recent_purchases u s = [] \<and> e = Error [Txt ''syntax error at or near )'']"
proof (cases "generatePersonalizedRecommendations env u n s")
  case (Inr ls)
  then show ?thesis using generated_sound [OF assms Inr] by (auto simp: offered_def)
next
  case (Inl e)
  then show ?thesis by (auto simp: generatePersonalizedRecommendations_def Let_def split: if_splits)
qed

subsection \<open>Old recommendations\<close>

text \<open>The cache holds \<open>ls\<close> for the user and the limit until \<open>d\<close>.\<close>

definition remembers :: "'r rec_env \<Rightarrow> uuid \<Rightarrow> nat \<Rightarrow> rec_listing list \<Rightarrow> time \<Rightarrow> 'r recs \<Rightarrow> bool" where
  "remembers env u n ls d s \<longleftrightarrow> holds (re_ops env) (user_limit_key u n) (Listings ls) d (rs_cache s)"

definition forgotten :: "'r rec_env \<Rightarrow> string \<Rightarrow> 'r recs \<Rightarrow> bool" where
  "forgotten env k s \<longleftrightarrow> map_of (inMemoryCache (rs_cache s)) k = None \<and> (\<forall>now. cr_get (re_ops env) k now (cache_redis_state (rs_cache s)) = None)"

lemma limit_key_differs:
  "user_limit_key u n \<noteq> user_key v \<longleftrightarrow> u @ '':'' @ show_nat n \<noteq> v"
  "user_limit_key u n \<noteq> getPrecomputedKey v" "user_limit_key u n \<noteq> similar_key l" "user_limit_key u n \<noteq> fbt_key l"
  by (simp_all add: user_limit_key_def user_key_def getPrecomputedKey_def similar_key_def fbt_key_def)

lemma precomputed_key_differs: "getPrecomputedKey u \<noteq> similar_key l" "getPrecomputedKey u \<noteq> fbt_key l" "getPrecomputedKey u \<noteq> user_key v"
  by (simp_all add: user_key_def getPrecomputedKey_def similar_key_def fbt_key_def)

lemma record_items_cache: "rs_cache (snd (record_items now u k items s)) = rs_cache s"
proof (induction items arbitrary: s)
  case (Cons item items)
  have "rs_cache (snd (save_purchase (purchase_of now u k item) s)) = rs_cache s" by (simp add: save_purchase_def)
  moreover have "rs_cache (mark_purchased u l t) = rs_cache t" for l and t :: "'a recs"
    by (simp add: mark_purchased_def save_view_def split: option.split)
  ultimately show ?case using Cons by (simp add: and_then_def split: sum.split)
qed simp

context key_value
begin

lemma delete_holds: "holds ops k v d c \<Longrightarrow> k \<noteq> k' \<Longrightarrow> holds ops k v d (cache_delete ops k' c)"
  using run_op_holds [of k v d c "Delete k'"] by simp

end

lemma items_remembered:
  assumes "key_value (re_ops env)" "remembers env u n ls d s"
  shows "remembers env u n ls d (forget_items env items s)"
  using assms(2) unfolding forget_items_def
proof (induction items arbitrary: s)
  case (Cons item items)
  have "remembers env u n ls d (cached_delete env (fbt_key (bi_listingId item)) (cached_delete env (similar_key (bi_listingId item)) s))"
    using Cons.prems limit_key_differs by (simp add: remembers_def cached_delete_def key_value.delete_holds [OF assms(1)])
  then show ?case using Cons.IH by simp
qed simp

lemma items_forgotten:
  assumes "key_value (re_ops env)" "forgotten env k s"
  shows "forgotten env k (forget_items env items s)"
  using assms(2) unfolding forget_items_def
proof (induction items arbitrary: s)
  case (Cons item items)
  have "forgotten env k (cached_delete env (fbt_key (bi_listingId item)) (cached_delete env (similar_key (bi_listingId item)) s))"
    using Cons.prems key_value.deleted_stays_away [OF assms(1)] unfolding forgotten_def cached_delete_def by simp
  then show ?case using Cons.IH by simp
qed simp

lemma forgotten_get: "forgotten env k s \<Longrightarrow> fst (cached_get env now k s) = None"
  by (simp add: forgotten_def cached_get_def cache_get_def getFromMemory_def Let_def)

lemma cached_get_fst:
  "fst (cached_get env now k s) = fst (cache_get (\<lambda>_. True) (re_max env) (re_ops env) (re_elapsed env) k None now (rs_cache s))"
  by (simp add: cached_get_def case_prod_beta)

lemma forgotten_get_cache: "forgotten env k s \<Longrightarrow> holds ops k' v d (rs_cache (snd (cached_get env now k s))) = holds ops k' v d (rs_cache s)"
  by (simp add: forgotten_def cached_get_def cache_get_def getFromMemory_def Let_def)

text \<open>A listing is not forgotten by a purchase unless the identifier of a user ends in a limit.\<close>

lemma purchase_remembers:
  assumes "key_value (re_ops env)" "remembers env u n ls d s" "u @ '':'' @ show_nat n \<noteq> v"
    "recordPurchase env now v k items s = (Inr (), s')"
  shows "remembers env u n ls d s'" "forgotten env (getPrecomputedKey v) s'"
proof -
  obtain t where t: "record_items now v k items s = (Inr (), t)"
      and s': "s' = queueRecommendationRefresh v 100 (forget_items env items (forget_user env v (updateFrequentlyBoughtTogether items t)))"
    using assms(4) by (cases "record_items now v k items s") (auto simp: recordPurchase_def and_then_def split: sum.splits)
  have "rs_cache t = rs_cache s" using record_items_cache [of now v k items s] t by simp
  then have c: "rs_cache (updateFrequentlyBoughtTogether items t) = rs_cache s" by (simp add: updateFrequentlyBoughtTogether_def)
  have "remembers env u n ls d (forget_user env v (updateFrequentlyBoughtTogether items t))"
    using assms(2,3) c limit_key_differs
    by (simp add: remembers_def forget_user_def cached_delete_def key_value.delete_holds [OF assms(1)])
  then show "remembers env u n ls d s'"
    using items_remembered [OF assms(1)] by (simp add: s' queueRecommendationRefresh_def remembers_def)
  have "forgotten env (getPrecomputedKey v) (forget_user env v (updateFrequentlyBoughtTogether items t))"
    using assms(1) by (simp add: forgotten_def forget_user_def cached_delete_def cache_delete_def deleteFromMemory_def key_value.get_del)
  then show "forgotten env (getPrecomputedKey v) s'"
    using items_forgotten [OF assms(1)] by (simp add: s' queueRecommendationRefresh_def forgotten_def)
qed

text \<open>
  A purchase leaves old recommendations in place - recording it deletes the entry of the
  user without a limit, which nothing ever writes: until the hour of the entry with the limit is over,
  or the refresh job has run, the user is recommended the same listings as before, the one just bought
  included.
\<close>

lemma purchase_keeps_old_recommendations:
  assumes "key_value (re_ops env)" "remembers env u n ls d s" "recordPurchase env now u k items s = (Inr (), s')" "later < d"
  shows "fst (getRecommendedForUser env later u (Some n) s') = Inr ls"
proof -
  have "u @ '':'' @ show_nat n \<noteq> u" by simp
  then have r: "remembers env u n ls d s'" and f: "forgotten env (getPrecomputedKey u) s'"
    using purchase_remembers [OF assms(1,2) _ assms(3)] by blast+
  obtain t where t: "cached_get env later (getPrecomputedKey u) s' = (None, t)"
    using forgotten_get [OF f, of later] by (metis prod.collapse)
  have "holds (re_ops env) (user_limit_key u n) (Listings ls) d (rs_cache t)"
    using forgotten_get_cache [OF f, of "re_ops env" "user_limit_key u n" "Listings ls" d later] t r by (simp add: remembers_def)
  then have "fst (cached_get env later (user_limit_key u n) (queueRecommendationRefresh u (max n 100) t)) = Some (Listings ls)"
    using cache_get_holds(1) [OF _ _ assms(4), of "re_ops env" "user_limit_key u n" "Listings ls" "rs_cache t" "\<lambda>_. True"]
    by (simp add: cached_get_fst queueRecommendationRefresh_def)
  then obtain t' where "cached_get env later (user_limit_key u n) (queueRecommendationRefresh u (max n 100) t) = (Some (Listings ls), t')"
    by (metis prod.collapse)
  then show ?thesis by (simp add: getRecommendedForUser_def getPrecomputedRecommendations_def t listings_of_def)
qed

text \<open>
  A refresh may be lost - a refresh job of a user that ends is the last one for fifteen
  minutes: the job that a purchase queues within that time is skipped, although the purchase has
  deleted the precomputed list.
\<close>

lemma refresh_after_purchase_skipped:
  assumes "once_cache oc" "key_value (re_ops env)" "refreshUserRecommendations env oc (u, n) start ended (d, s) = (Inr True, (d', s'))"
    "recordPurchase env now u k items s' = (Inr (), s'')" "later < ended + 900000"
  shows "refreshUserRecommendations env oc (u, n) later ended' (d', s'') = (Inr False, (d', s''))
    \<and> fst (cached_get env later (getPrecomputedKey u) s'') = None"
proof -
  have "oc_get oc (toCacheKey (job_key (u, n))) later (id_cache d') \<noteq> None"
    using assms(3,5) by (auto simp: refreshUserRecommendations_def executeOnce_def Let_def once_cache.get_set [OF assms(1)] split: if_splits prod.splits sum.splits)
  then have "refreshUserRecommendations env oc (u, n) later ended' (d', s'') = (Inr False, (d', s''))"
    by (simp add: refreshUserRecommendations_def executeOnce_def Let_def)
  obtain t where t: "record_items now u k items s' = (Inr (), t)"
      and s'': "s'' = queueRecommendationRefresh u 100 (forget_items env items (forget_user env u (updateFrequentlyBoughtTogether items t)))"
    using assms(4) by (cases "record_items now u k items s'") (auto simp: recordPurchase_def and_then_def split: sum.splits)
  have "forgotten env (getPrecomputedKey u) (forget_user env u (updateFrequentlyBoughtTogether items t))"
    using assms(2) by (simp add: forgotten_def forget_user_def cached_delete_def cache_delete_def deleteFromMemory_def key_value.get_del)
  then have "forgotten env (getPrecomputedKey u) s''"
    using items_forgotten [OF assms(2)] by (simp add: s'' queueRecommendationRefresh_def forgotten_def)
  then show ?thesis using forgotten_get \<open>refreshUserRecommendations env oc (u, n) later ended' (d', s'') = _\<close> by blast
qed

subsection \<open>Examples\<close>

definition list_once :: "(string \<times> time \<times> time) list once_cache" where
  "list_once = \<lparr>oc_get = (\<lambda>k now d. case map_of d k of None \<Rightarrow> None | Some (v, until) \<Rightarrow> if now < until then Some v else None),
     oc_set = (\<lambda>k v ttl t d. map_set k (v, t + ttl) d)\<rparr>"

interpretation list_once: once_cache list_once
  by unfold_locales (simp add: list_once_def)

definition shop_env :: "cached_list kv_store rec_env" where
  "shop_env = \<lparr>re_max = 10, re_ops = list_cache_redis, re_elapsed = 0, re_text_decimals = True, re_empty_in = False\<rparr>"

definition lamp :: rec_listing where
  "lamp = \<lparr>rl_id = ''lamp'', rl_category = Some ''home'', rl_isActive = True, rl_createdAt = 1, rl_views = 5, rl_shareLocation = True\<rparr>"

definition small_shop :: "cached_list kv_store recs" where
  "small_shop = \<lparr>rs_browsed = [], rs_purchases = [], rs_pairs = [], rs_similar = [], rs_listings = [lamp],
     rs_cache = \<lparr>inMemoryCache = [], cache_redis_state = \<lparr>kv_values = [], kv_sets = []\<rparr>,
       metrics = \<lparr>cm_hits = 0, cm_misses = 0, cm_totalRequests = 0, cm_averageResponseTime = 0\<rparr>\<rparr>, rs_queue = []\<rparr>"

definition one :: "uuid \<Rightarrow> bought_item" where
  "one l = \<lparr>bi_listingId = l, bi_quantity = 1, bi_price = 5, bi_currency = ''USD''\<rparr>"

lemma shop_nobody: "rs_similar small_shop = []"
  by (simp add: small_shop_def)

theorem similarity_never_learned_witness:
  "getCollaborativeRecommendations ''ann'' 5
     (fold (run_rec shop_env) [Record_purchase 5 ''ann'' ''o1'' [one ''lamp''], Record_purchase 6 ''bob'' ''o2'' [one ''lamp'']] small_shop) = []"
  by (rule similarity_never_learned [OF shop_nobody refl, THEN conjunct2, THEN conjunct1])

theorem bought_together_exact_witness:
  "pairs_ok (rs_pairs (fold updateFrequentlyBoughtTogether [[one ''lamp'', one ''desk''], [one ''desk'', one ''lamp'']] small_shop))
   \<and> times_together {''lamp'', ''desk''} (rs_pairs (fold updateFrequentlyBoughtTogether [[one ''lamp'', one ''desk''], [one ''desk'', one ''lamp'']] small_shop)) = 2"
  using bought_together_exact [OF _ refl, of small_shop "[[one ''lamp'', one ''desk''], [one ''desk'', one ''lamp'']]" "''lamp''" "''desk''"]
  by (simp add: small_shop_def one_def insert_commute)

definition told :: "cached_list kv_store recs" where
  "told = small_shop\<lparr>rs_cache := cache_set 10 list_cache_redis (user_limit_key ''ann'' 5) (Listings [lamp]) \<lparr>cc_ttl = 3600, cc_tags = None\<rparr> 0 (rs_cache small_shop)\<rparr>"

lemma ann_buys: "recordPurchase env now u k [one ''lamp''] (s\<lparr>rs_browsed := []\<rparr>) =
    (Inr (), snd (recordPurchase env now u k [one ''lamp''] (s\<lparr>rs_browsed := []\<rparr>)))"
proof -
  have "round_to 2 (5 :: number) = 5" using round_to_exact [of 2 500] by simp
  then show ?thesis
    by (simp add: recordPurchase_def and_then_def save_purchase_def purchase_of_def one_def)
qed

theorem purchase_keeps_old_recommendations_witness:
  "fst (getRecommendedForUser shop_env 3599999 ''ann'' (Some 5)
     (snd (recordPurchase shop_env 9 ''ann'' ''o1'' [one ''lamp''] (told\<lparr>rs_browsed := []\<rparr>)))) = Inr [lamp]"
proof (rule purchase_keeps_old_recommendations)
  show "key_value (re_ops shop_env)" using lists.key_value_axioms by (simp add: shop_env_def)
  show "remembers shop_env ''ann'' 5 [lamp] (0 + 3600 * 1000) (told\<lparr>rs_browsed := []\<rparr>)"
    using lists.cache_set_holds [of "user_limit_key ''ann'' 5" "Listings [lamp]" 0 "\<lparr>cc_ttl = 3600, cc_tags = None\<rparr>" 10 "rs_cache small_shop"]
    by (simp add: remembers_def told_def shop_env_def)
qed (rule ann_buys, simp)

theorem recommendations_sound_witness:
  "generatePersonalizedRecommendations (shop_env\<lparr>re_empty_in := True\<rparr>) ''ann'' 5 (small_shop\<lparr>rs_listings := [lamp]\<rparr>) = Inr [lamp]
   \<and> length [lamp] \<le> 5 \<and> rl_isActive lamp \<and> rl_id lamp \<notin> set (recent_purchases ''ann'' (small_shop\<lparr>rs_listings := [lamp]\<rparr>))"
proof -
  let ?s = "small_shop\<lparr>rs_listings := [lamp]\<rparr>"
  have run: "generatePersonalizedRecommendations (shop_env\<lparr>re_empty_in := True\<rparr>) ''ann'' 5 ?s = Inr [lamp]"
    by (simp add: small_shop_def generatePersonalizedRecommendations_def Let_def recent_purchases_def rank_listings_def add_collaborative_def
      category_scores_def content_based_def getCollaborativeRecommendations_def similar_users_def popular_def most_viewed_def shop_env_def lamp_def)
  have "distinct (map rl_id (rs_listings ?s))" by simp
  from recommendations_sound [OF this, where env = "shop_env\<lparr>re_empty_in := True\<rparr>" and u = "''ann''" and n = 5] run show ?thesis by simp
qed

definition open_env :: "cached_list kv_store rec_env" where
  "open_env = shop_env\<lparr>re_empty_in := True\<rparr>"

definition refreshed :: "(bool, (string \<times> time \<times> time) list idempotency \<times> cached_list kv_store recs) result" where
  "refreshed = refreshUserRecommendations open_env list_once (''ann'', 100) 1 2 (\<lparr>id_cache = [], inFlight = []\<rparr>, small_shop)"

lemma shop_generated: "generatePersonalizedRecommendations open_env ''ann'' 100 small_shop = Inr [lamp]"
  by (simp add: small_shop_def generatePersonalizedRecommendations_def Let_def recent_purchases_def rank_listings_def add_collaborative_def
      category_scores_def content_based_def getCollaborativeRecommendations_def similar_users_def popular_def most_viewed_def
      open_env_def shop_env_def lamp_def)

lemma unbrowsed: "rs_browsed s = [] \<Longrightarrow> s\<lparr>rs_browsed := []\<rparr> = s"
  by (cases s) simp

lemma cached_set_browsed: "rs_browsed (cached_set env now k v t s) = rs_browsed s"
  by (simp add: cached_set_def)

lemma refreshed_ran:
  "refreshed = (Inr True, fst (snd refreshed), snd (snd refreshed))"
  "(snd (snd refreshed))\<lparr>rs_browsed := []\<rparr> = snd (snd refreshed)"
proof -
  have r: "refreshed = (Inr True, \<lparr>id_cache = oc_set list_once (toCacheKey (job_key (''ann'', 100))) 2 900000 2 [], inFlight = []\<rparr>,
      cached_set open_env 2 (getPrecomputedKey ''ann'') (Listing_ids [''lamp'']) PRECOMPUTED_TTL small_shop)"
    by (simp add: refreshed_def refreshUserRecommendations_def executeOnce_def precomputeRecommendations_def shop_generated list_once_def)
      (simp add: lamp_def)
  show "refreshed = (Inr True, fst (snd refreshed), snd (snd refreshed))" unfolding r by simp
  show "(snd (snd refreshed))\<lparr>rs_browsed := []\<rparr> = snd (snd refreshed)"
    unfolding r by (rule unbrowsed) (simp add: cached_set_browsed small_shop_def)
qed

theorem refresh_after_purchase_skipped_witness:
  "refreshUserRecommendations open_env list_once (''ann'', 100) 900001 900002
     (fst (snd refreshed), snd (recordPurchase open_env 9 ''ann'' ''o1'' [one ''lamp''] (snd (snd refreshed))))
   = (Inr False, fst (snd refreshed), snd (recordPurchase open_env 9 ''ann'' ''o1'' [one ''lamp''] (snd (snd refreshed))))
   \<and> fst (cached_get open_env 900001 (getPrecomputedKey ''ann'')
       (snd (recordPurchase open_env 9 ''ann'' ''o1'' [one ''lamp''] (snd (snd refreshed))))) = None"
proof (rule refresh_after_purchase_skipped [OF list_once.once_cache_axioms])
  show "key_value (re_ops open_env)" using lists.key_value_axioms by (simp add: open_env_def shop_env_def)
  show "refreshUserRecommendations open_env list_once (''ann'', 100) 1 2 (\<lparr>id_cache = [], inFlight = []\<rparr>, small_shop)
      = (Inr True, fst (snd refreshed), snd (snd refreshed))"
    unfolding refreshed_def [symmetric] by (rule refreshed_ran(1))
  show "recordPurchase open_env 9 ''ann'' ''o1'' [one ''lamp''] (snd (snd refreshed))
      = (Inr (), snd (recordPurchase open_env 9 ''ann'' ''o1'' [one ''lamp''] (snd (snd refreshed))))"
    by (rule ann_buys [where s = "snd (snd refreshed)", unfolded refreshed_ran(2)])
qed simp

end
