(* ===== verification/Listings.thy ===== *)
theory Listings
  imports Fraud Retry Orders
begin

text \<open>
  \<open>ListingsService\<close> (src/src/listing/listing.service.ts) and \<open>DeletedListingsService\<close>
  (src/src/deleted-listings/deleted-listings.service.ts): creation, import from CSV, reading, updating and
  removing listings with their variants, and restoring soft-deleted ones. New identifiers, the clock, the
  CSV parser, the geometry of the database and its pattern matching are parameters. The index of the
  search engine, whose failures are only logged, is left out.
\<close>

subsection \<open>Rows\<close>

text \<open>A variant as it is built, received or loaded; a loaded one has an identifier and every field.\<close>

record variant_data =
  vd_id :: "uuid option"
  vd_sku :: "string option"
  vd_price :: number
  vd_currency :: "string option"
  vd_quantity :: "int option"
  vd_reserved :: "int option"
  vd_available :: "int option"

record shop_listing =
  sl_id :: uuid
  sl_title :: string
  sl_description :: string
  sl_price :: number
  sl_currency :: string
  sl_address :: "string option"
  sl_category :: "string option"
  sl_isActive :: bool
  sl_quantity :: int
  sl_reserved :: int
  sl_available :: int
  sl_createdAt :: time
  sl_deletedAt :: "time option"
  sl_userId :: "uuid option"
  sl_location :: "string option"
  sl_variants :: "variant_data list"
  sl_views :: int
  sl_isFeatured :: bool
  sl_expiresAt :: "time option"

record create_listing_dto =
  lc_title :: string
  lc_description :: string
  lc_price :: number
  lc_category :: string
  lc_location :: string
  lc_currency :: "string option"
  lc_quantity :: "int option"
  lc_reserved :: "int option"
  lc_variants :: "variant_data list"

record update_listing_dto =
  lu_title :: "string option"
  lu_description :: "string option"
  lu_price :: "number option"
  lu_category :: "string option"
  lu_location :: "string option"
  lu_currency :: "string option"
  lu_quantity :: "int option"
  lu_reserved :: "int option"
  lu_expiresAt :: "time option"
  lu_variants :: "variant_data list option"

subsection \<open>Variants\<close>

definition buildVariant :: "variant_data \<Rightarrow> variant_data" where
  "buildVariant dto =
     (let quantity = pick 1 (vd_quantity dto); reserved = pick 0 (vd_reserved dto); available = quantity - reserved
      in \<lparr>vd_id = None, vd_sku = vd_sku dto, vd_price = vd_price dto, vd_currency = Some (pick ''USD'' (vd_currency dto)),
          vd_quantity = Some quantity, vd_reserved = Some reserved,
          vd_available = Some (if available < 0 then 0 else available)\<rparr>)"

definition min_price :: "variant_data list \<Rightarrow> number" where
  "min_price vs = Min (set (map vd_price vs))"

definition total :: "(variant_data \<Rightarrow> int option) \<Rightarrow> variant_data list \<Rightarrow> int" where
  "total f vs = sum_list (map (\<lambda>v. pick 0 (f v)) vs)"

definition first_currency :: "variant_data list \<Rightarrow> string" where
  "first_currency vs = (case vs of [] \<Rightarrow> ''USD'' | v # _ \<Rightarrow> if truthy_text (vd_currency v) then the (vd_currency v) else ''USD'')"

definition aggregateListing :: "shop_listing \<Rightarrow> shop_listing" where
  "aggregateListing l =
     (let vs = sl_variants l
      in if vs \<noteq> []
         then l\<lparr>sl_quantity := total vd_quantity vs, sl_reserved := total vd_reserved vs, sl_available := total vd_available vs,
                sl_price := min_price vs, sl_currency := first_currency vs\<rparr>
         else l\<lparr>sl_available := max 0 (sl_quantity l - sl_reserved l)\<rparr>)"

definition prepareVariants ::
  "number option \<Rightarrow> string option \<Rightarrow> int option \<Rightarrow> int option \<Rightarrow> variant_data list \<Rightarrow> variant_data list" where
  "prepareVariants price currency quantity reserved given =
     (if given \<noteq> [] then map buildVariant given
      else case price of
             None \<Rightarrow> []
           | Some p \<Rightarrow> [buildVariant \<lparr>vd_id = None, vd_sku = None, vd_price = p, vd_currency = Some (pick ''USD'' currency),
                vd_quantity = Some (pick 1 quantity), vd_reserved = Some (pick 0 reserved), vd_available = None\<rparr>])"

subsection \<open>Saving\<close>

text \<open>What the columns hold: a listing needs an address and an owner, a variant its listing, so that one a
  saved listing leaves out is in the way. New variants get the defaults of the columns.\<close>

definition saved_variant :: "uuid \<Rightarrow> variant_data \<Rightarrow> variant_data" where
  "saved_variant newId v =
     v\<lparr>vd_id := (case vd_id v of None \<Rightarrow> Some newId | Some i \<Rightarrow> Some i),
       vd_currency := Some (pick ''USD'' (vd_currency v)), vd_quantity := Some (pick 1 (vd_quantity v)),
       vd_reserved := Some (pick 0 (vd_reserved v)), vd_available := Some (pick 1 (vd_available v))\<rparr>"

definition rounded_listing :: "shop_listing \<Rightarrow> shop_listing" where
  "rounded_listing l = l\<lparr>sl_price := round_to 2 (sl_price l),
     sl_variants := map (\<lambda>v. v\<lparr>vd_price := round_to 2 (vd_price v)\<rparr>) (sl_variants l)\<rparr>"

definition column_error :: "(string \<Rightarrow> bool) \<Rightarrow> shop_listing \<Rightarrow> string option" where
  "column_error geography l =
     (if sl_address l = None then Some ''null value in column address violates not-null constraint''
      else if sl_userId l = None then Some ''null value in column userId violates not-null constraint''
      else if (case sl_location l of None \<Rightarrow> False | Some g \<Rightarrow> \<not> geography g) then Some ''parse error - invalid geometry''
      else if length (sl_title l) > 255 \<or> length (sl_currency l) > 3 \<or> (\<exists>v \<in> set (sl_variants l). length (pick ''USD'' (vd_currency v)) > 3)
      then Some ''value too long for type character varying''
      else if \<bar>round_to 2 (sl_price l)\<bar> \<ge> 10 ^ 8 \<or> (\<exists>v \<in> set (sl_variants l). \<bar>round_to 2 (vd_price v)\<bar> \<ge> 10 ^ 8)
      then Some ''numeric field overflow'' else None)"

definition orphans :: "shop_listing \<Rightarrow> shop_listing list \<Rightarrow> bool" where
  "orphans l rows \<longleftrightarrow> (case tbl_find sl_id (sl_id l) rows of
       None \<Rightarrow> False | Some old \<Rightarrow> \<exists>v \<in> set (sl_variants old). vd_id v \<notin> vd_id ` set (sl_variants l))"

definition store_listing ::
  "(string \<Rightarrow> bool) \<Rightarrow> (nat \<Rightarrow> uuid) \<Rightarrow> shop_listing \<Rightarrow> shop_listing list \<Rightarrow> (shop_listing, shop_listing list) result" where
  "store_listing geography variantId l rows =
     (case column_error geography l of
        Some m \<Rightarrow> (Inl (Error [Txt m]), rows)
      | None \<Rightarrow>
        if orphans l rows then (Inl (Error [Txt ''null value in column listingId violates not-null constraint'']), rows)
        else let vs = map (\<lambda>(k, v). saved_variant (variantId k) v) (enumerate 0 (sl_variants l));
                 saved = l\<lparr>sl_variants := vs\<rparr>
             in (Inr saved, tbl_save sl_id (rounded_listing saved) rows))"

subsection \<open>Operations\<close>

text \<open>The columns that the data of the client does not name have their defaults; it never names the address.\<close>

definition new_listing :: "uuid \<Rightarrow> time \<Rightarrow> time \<Rightarrow> create_listing_dto \<Rightarrow> uuid option \<Rightarrow> shop_listing" where
  "new_listing newId now expiresAt dto userId =
     \<lparr>sl_id = newId, sl_title = lc_title dto, sl_description = lc_description dto, sl_price = lc_price dto,
      sl_currency = pick ''USD'' (lc_currency dto), sl_address = None, sl_category = Some (lc_category dto), sl_isActive = True,
      sl_quantity = pick 1 (lc_quantity dto), sl_reserved = pick 0 (lc_reserved dto), sl_available = 1, sl_createdAt = now,
      sl_deletedAt = None, sl_userId = userId, sl_location = Some (lc_location dto), sl_variants = [], sl_views = 0,
      sl_isFeatured = False, sl_expiresAt = Some expiresAt\<rparr>"

definition create_listing ::
  "(string \<Rightarrow> bool) \<Rightarrow> (nat \<Rightarrow> uuid) \<Rightarrow> int \<Rightarrow> uuid \<Rightarrow> time \<Rightarrow> create_listing_dto \<Rightarrow> uuid option \<Rightarrow> shop_listing list \<Rightarrow>
   (shop_listing, shop_listing list) result" where
  "create_listing geography variantId expiryDays newId now dto userId rows =
     (let expiresAt = now + expiryDays * 24 * 60 * 60 * 1000; listing = new_listing newId now expiresAt dto userId;
          vs = prepareVariants (Some (lc_price dto)) (lc_currency dto) (lc_quantity dto) (lc_reserved dto) (lc_variants dto);
          listing = (if vs \<noteq> [] then aggregateListing (listing\<lparr>sl_variants := vs\<rparr>) else listing)
      in and_then (store_listing geography variantId listing rows) (\<lambda>saved rows. (Inr (aggregateListing saved), rows)))"

definition live :: "shop_listing \<Rightarrow> bool" where
  "live l \<longleftrightarrow> sl_deletedAt l = None"

definition findOne_listing ::
  "(string \<Rightarrow> bool) \<Rightarrow> uuid \<Rightarrow> shop_listing list \<Rightarrow> (shop_listing, shop_listing list) result" where
  "findOne_listing geography i rows =
     (case List.find (\<lambda>l. sl_id l = i \<and> live l) rows of
        None \<Rightarrow> (Inl (NotFoundException [Txt ''Listing not found'']), rows)
      | Some listing \<Rightarrow>
        let listing = listing\<lparr>sl_views := sl_views listing + 1\<rparr>
        in and_then (store_listing geography (\<lambda>_. []) listing rows) (\<lambda>_ rows. (Inr (aggregateListing listing), rows)))"

definition assign_dto :: "update_listing_dto \<Rightarrow> shop_listing \<Rightarrow> shop_listing" where
  "assign_dto dto l =
     l\<lparr>sl_title := pick (sl_title l) (lu_title dto), sl_description := pick (sl_description l) (lu_description dto),
       sl_price := pick (sl_price l) (lu_price dto), sl_currency := pick (sl_currency l) (lu_currency dto),
       sl_category := (case lu_category dto of None \<Rightarrow> sl_category l | Some c \<Rightarrow> Some c),
       sl_quantity := pick (sl_quantity l) (lu_quantity dto), sl_reserved := pick (sl_reserved l) (lu_reserved dto),
       sl_location := (case lu_location dto of None \<Rightarrow> sl_location l | Some g \<Rightarrow> Some g),
       sl_expiresAt := (case lu_expiresAt dto of None \<Rightarrow> sl_expiresAt l | Some t \<Rightarrow> Some t),
       sl_variants := pick (sl_variants l) (lu_variants dto)\<rparr>"

text \<open>The prepared variants are overwritten by those of the client.\<close>

definition update_listing ::
  "(string \<Rightarrow> bool) \<Rightarrow> (nat \<Rightarrow> uuid) \<Rightarrow> uuid \<Rightarrow> update_listing_dto \<Rightarrow> shop_listing list \<Rightarrow> (shop_listing, shop_listing list) result" where
  "update_listing geography variantId i dto rows =
     and_then (findOne_listing geography i rows) (\<lambda>listing rows.
       let listing = (case lu_variants dto of
              None \<Rightarrow> listing
            | Some vs \<Rightarrow> listing\<lparr>sl_variants := prepareVariants (lu_price dto) (lu_currency dto) (lu_quantity dto) (lu_reserved dto) vs\<rparr>);
           listing = aggregateListing (assign_dto dto listing)
       in and_then (store_listing geography variantId listing rows) (\<lambda>saved rows. (Inr (aggregateListing saved), rows)))"

definition remove_listing :: "(string \<Rightarrow> bool) \<Rightarrow> uuid \<Rightarrow> shop_listing list \<Rightarrow> (string, shop_listing list) result" where
  "remove_listing geography i rows =
     and_then (findOne_listing geography i rows) (\<lambda>listing rows.
       (Inr ''Listing removed successfully'', filter (\<lambda>l. sl_id l \<noteq> sl_id listing) rows))"

definition delete_listing :: "(string \<Rightarrow> bool) \<Rightarrow> uuid \<Rightarrow> shop_listing list \<Rightarrow> (string, shop_listing list) result" where
  "delete_listing geography i rows =
     and_then (findOne_listing geography i rows) (\<lambda>listing rows.
       (Inr ''Listing deleted'', filter (\<lambda>l. sl_id l \<noteq> sl_id listing) rows))"

subsection \<open>Import\<close>

definition normalized :: "(string \<times> string) list \<Rightarrow> (string \<times> string) list" where
  "normalized record = fold (\<lambda>(key, v). map_set (lower_text (trim_white key)) v) record []"

fun getCsvValue :: "(string \<times> string) list \<Rightarrow> string list \<Rightarrow> string option" where
  "getCsvValue record [] = None"
| "getCsvValue record (alias # aliases) =
     (case map_of (normalized record) (lower_text alias) of Some v \<Rightarrow> Some v | None \<Rightarrow> getCsvValue record aliases)"

text \<open>\<open>Number\<close> of a cell in plain decimals; an empty cell is 0.\<close>

definition cell_number :: "string option \<Rightarrow> number option" where
  "cell_number cell = (case cell of None \<Rightarrow> None | Some t \<Rightarrow> if t = [] then Some 0 else text_value t)"

definition csv_dto :: "(string \<times> string) list \<Rightarrow> create_listing_dto option" where
  "csv_dto record =
     (let cell = (\<lambda>k. getCsvValue record [k])
      in case cell_number (cell ''price'') of
           None \<Rightarrow> None
         | Some price \<Rightarrow>
           if price \<ge> 0 \<and> truthy_text (cell ''title'') \<and> truthy_text (cell ''description'') \<and> truthy_text (cell ''category'')
              \<and> truthy_text (cell ''location'')
           then Some \<lparr>lc_title = the (cell ''title''), lc_description = the (cell ''description''), lc_price = price,
             lc_category = the (cell ''category''), lc_location = the (cell ''location''), lc_currency = None, lc_quantity = None,
             lc_reserved = None, lc_variants = []\<rparr>
           else None)"

record row_result =
  bi_row :: nat
  bi_success :: bool
  bi_listingId :: "uuid option"
  bi_errors :: "msg list"

record import_result =
  ir_totalRows :: nat
  ir_successCount :: nat
  ir_failureCount :: nat
  ir_rows :: "row_result list"

text \<open>\<open>messages\<close> are those of the validator for a row; each row has a fresh identifier and time.\<close>

fun import_rows ::
  "(string \<Rightarrow> bool) \<Rightarrow> (nat \<Rightarrow> nat \<Rightarrow> uuid) \<Rightarrow> int \<Rightarrow> (nat \<Rightarrow> uuid) \<Rightarrow> (nat \<Rightarrow> time) \<Rightarrow> ((string \<times> string) list \<Rightarrow> msg list) \<Rightarrow> uuid option \<Rightarrow>
   nat \<Rightarrow> (string \<times> string) list list \<Rightarrow> shop_listing list \<Rightarrow> row_result list \<times> shop_listing list" where
  "import_rows geography variantId expiryDays newId now messages userId dataRow [] rows = ([], rows)"
| "import_rows geography variantId expiryDays newId now messages userId dataRow (record # records) rows =
     (let csvLine = dataRow + 1;
          (r, rows) = (case csv_dto record of
              None \<Rightarrow> (\<lparr>bi_row = csvLine, bi_success = False, bi_listingId = None, bi_errors = messages record\<rparr>, rows)
            | Some dto \<Rightarrow>
              (case create_listing geography (variantId dataRow) expiryDays (newId dataRow) (now dataRow) dto userId rows of
                 (Inr listing, rows) \<Rightarrow> (\<lparr>bi_row = csvLine, bi_success = True, bi_listingId = Some (sl_id listing), bi_errors = []\<rparr>, rows)
               | (Inl e, rows) \<Rightarrow> (\<lparr>bi_row = csvLine, bi_success = False, bi_listingId = None, bi_errors = [error_message e]\<rparr>, rows)));
          (rs, rows) = import_rows geography variantId expiryDays newId now messages userId (dataRow + 1) records rows
      in (r # rs, rows))"

definition importFromCsv ::
  "(string \<Rightarrow> bool) \<Rightarrow> (nat \<Rightarrow> nat \<Rightarrow> uuid) \<Rightarrow> int \<Rightarrow> (nat \<Rightarrow> uuid) \<Rightarrow> (nat \<Rightarrow> time) \<Rightarrow> ((string \<times> string) list \<Rightarrow> msg list) \<Rightarrow> uuid option \<Rightarrow>
   (string \<times> string) list list \<Rightarrow> shop_listing list \<Rightarrow> import_result \<times> shop_listing list" where
  "importFromCsv geography variantId expiryDays newId now messages userId records rows =
     (case import_rows geography variantId expiryDays newId now messages userId 1 records rows of
        (rs, rows) \<Rightarrow> (\<lparr>ir_totalRows = length rs, ir_successCount = length (filter bi_success rs),
           ir_failureCount = length (filter (\<lambda>r. \<not> bi_success r) rs), ir_rows = rs\<rparr>, rows))"

subsection \<open>Lists\<close>

record listing_filters =
  lf_take :: nat
  lf_skip :: nat
  lf_category :: "string option"
  lf_location :: "string option"
  lf_minPrice :: "number option"
  lf_maxPrice :: "number option"
  lf_q :: "string option"

definition latest_listings :: "shop_listing list \<Rightarrow> shop_listing list" where
  "latest_listings ls = sort_key (\<lambda>l. - sl_createdAt l) ls"

text \<open>\<open>at_place\<close> and \<open>ilike\<close> are the pattern match of the database, for the pattern with percent signs around.\<close>

definition active_listing ::
  "(string \<Rightarrow> shop_listing \<Rightarrow> bool) \<Rightarrow> (string \<Rightarrow> string \<Rightarrow> bool) \<Rightarrow> time \<Rightarrow> listing_filters \<Rightarrow> shop_listing \<Rightarrow> bool" where
  "active_listing at_place ilike now f l \<longleftrightarrow> sl_isActive l \<and> live l
     \<and> (case sl_expiresAt l of None \<Rightarrow> True | Some t \<Rightarrow> t > now)
     \<and> (truthy_text (lf_category f) \<longrightarrow> sl_category l = lf_category f)
     \<and> (truthy_text (lf_location f) \<longrightarrow> at_place (the (lf_location f)) l)
     \<and> (case lf_minPrice f of None \<Rightarrow> True | Some p \<Rightarrow> sl_price l \<ge> p)
     \<and> (case lf_maxPrice f of None \<Rightarrow> True | Some p \<Rightarrow> sl_price l \<le> p)
     \<and> (truthy_text (lf_q f) \<longrightarrow> ilike (the (lf_q f)) (sl_title l) \<or> ilike (the (lf_q f)) (sl_description l))"

definition findActiveListingsPaginated ::
  "(string \<Rightarrow> shop_listing \<Rightarrow> bool) \<Rightarrow> (string \<Rightarrow> string \<Rightarrow> bool) \<Rightarrow> time \<Rightarrow> listing_filters \<Rightarrow> shop_listing list \<Rightarrow> shop_listing list \<times> nat" where
  "findActiveListingsPaginated at_place ilike now f rows =
     (let found = latest_listings (filter (active_listing at_place ilike now f) rows)
      in (map aggregateListing (take (lf_take f) (drop (lf_skip f) found)), length found))"

record listing_page =
  lp_listings :: "shop_listing list"
  lp_total :: nat
  lp_page :: nat
  lp_limit :: nat

definition or_nat :: "nat option \<Rightarrow> nat \<Rightarrow> nat" where
  "or_nat x d = (case x of None \<Rightarrow> d | Some n \<Rightarrow> if n = 0 then d else n)"

definition findAll_listings :: "nat option \<Rightarrow> nat option \<Rightarrow> string option \<Rightarrow> shop_listing list \<Rightarrow> listing_page" where
  "findAll_listings page limit category rows =
     (let take_n = or_nat limit 10; skip = (or_nat page 1 - 1) * take_n;
          found = latest_listings (filter (\<lambda>l. sl_isActive l \<and> live l \<and> (truthy_text category \<longrightarrow> sl_category l = category)) rows)
      in \<lparr>lp_listings = map aggregateListing (take take_n (drop skip found)), lp_total = length found, lp_page = or_nat page 1,
          lp_limit = take_n\<rparr>)"

definition findFeatured :: "shop_listing list \<Rightarrow> shop_listing list" where
  "findFeatured rows = map aggregateListing (take 10 (latest_listings (filter (\<lambda>l. sl_isActive l \<and> live l) rows)))"

subsection \<open>Deleted listings\<close>

definition findAllDeleted :: "nat \<Rightarrow> nat \<Rightarrow> shop_listing list \<Rightarrow> shop_listing list \<times> nat" where
  "findAllDeleted take_n skip rows =
     (let found = sort_key (\<lambda>l. - the (sl_deletedAt l)) (filter (\<lambda>l. sl_deletedAt l \<noteq> None) rows)
      in (take take_n (drop skip found), length found))"

definition findOneDeleted :: "uuid \<Rightarrow> shop_listing list \<Rightarrow> error + shop_listing" where
  "findOneDeleted i rows =
     (case tbl_find sl_id i rows of
        None \<Rightarrow> Inl (NotFoundException [Txt ''Deleted listing with ID '', Txt i, Txt '' not found''])
      | Some l \<Rightarrow> if sl_deletedAt l = None then Inl (NotFoundException [Txt ''Deleted listing with ID '', Txt i, Txt '' not found'']) else Inr l)"

definition restore_listing :: "uuid \<Rightarrow> shop_listing list \<Rightarrow> (shop_listing, shop_listing list) result" where
  "restore_listing i rows =
     (case findOneDeleted i rows of
        Inl e \<Rightarrow> (Inl e, rows)
      | Inr _ \<Rightarrow>
        let rows = map (\<lambda>l. if sl_id l = i then l\<lparr>sl_deletedAt := None\<rparr> else l) rows
        in case tbl_find sl_id i rows of
             None \<Rightarrow> (Inl (NotFoundException [Txt ''Listing with ID '', Txt i, Txt '' could not be restored'']), rows)
           | Some restored \<Rightarrow> (Inr restored, rows))"

subsection \<open>No listing is created\<close>

lemma aggregate_keeps [simp]:
  "sl_address (aggregateListing l) = sl_address l" "sl_variants (aggregateListing l) = sl_variants l"
  "sl_id (aggregateListing l) = sl_id l" "sl_views (aggregateListing l) = sl_views l"
  "sl_deletedAt (aggregateListing l) = sl_deletedAt l" "sl_isActive (aggregateListing l) = sl_isActive l"
  "sl_expiresAt (aggregateListing l) = sl_expiresAt l"
  by (simp_all add: aggregateListing_def Let_def)

lemma save_needs_address:
  "sl_address l = None \<Longrightarrow> store_listing geography f l rows =
    (Inl (Error [Txt ''null value in column address violates not-null constraint'']), rows)"
  by (simp add: store_listing_def column_error_def)

lemma create_refused: "create_listing geography f days newId now dto userId rows =
    (Inl (Error [Txt ''null value in column address violates not-null constraint'']), rows)"
proof -
  have "sl_address (new_listing newId now t dto userId) = None" for t by (simp add: new_listing_def)
  then show ?thesis by (simp add: create_listing_def Let_def save_needs_address)
qed

lemma import_rows_refused:
  "length (fst (import_rows geography f days newId now messages userId k records rows)) = length records
   \<and> (\<forall>r \<in> set (fst (import_rows geography f days newId now messages userId k records rows)). \<not> bi_success r)
   \<and> snd (import_rows geography f days newId now messages userId k records rows) = rows"
proof (induction records arbitrary: k)
  case (Cons r0 records)
  show ?case
    using Cons.IH [of "Suc k"]
    by (cases "csv_dto r0"; cases "import_rows geography f days newId now messages userId (Suc k) records rows")
      (auto simp: create_refused)
qed simp

text \<open>
  No listing is ever created - the data of the client has no address, which the table
  requires: creating a listing fails whatever it is given, and an import reports every row as failed;
  the table stays as it was.
\<close>

lemma listings_never_created:
  "create_listing geography f days newId now dto userId rows =
     (Inl (Error [Txt ''null value in column address violates not-null constraint'']), rows)
   \<and> (let (r, rows') = importFromCsv geography g days' ids clock messages user records rows
      in ir_successCount r = 0 \<and> ir_failureCount r = length records \<and> ir_totalRows r = length records \<and> rows' = rows)"
proof -
  have "filter bi_success rs = [] \<and> filter (\<lambda>r. \<not> bi_success r) rs = rs" if "\<forall>r \<in> set rs. \<not> bi_success r" for rs
    using that by (simp add: filter_empty_conv filter_id_conv)
  then show ?thesis
    using import_rows_refused [of geography g days' ids clock messages user 1 records rows]
    by (auto simp: create_refused importFromCsv_def split: prod.split)
qed

subsection \<open>Prices and amounts\<close>

lemma findOne_result:
  assumes "findOne_listing geography i rows = (Inr l, rows')"
  obtains old where "old \<in> set rows" "sl_id old = i" "live old" "l = aggregateListing (old\<lparr>sl_views := sl_views old + 1\<rparr>)"
proof -
  obtain old where "List.find (\<lambda>l. sl_id l = i \<and> live l) rows = Some old"
      "l = aggregateListing (old\<lparr>sl_views := sl_views old + 1\<rparr>)"
    using assms by (auto simp: findOne_listing_def Let_def split: option.splits)
  moreover from this(1) have "old \<in> set rows \<and> sl_id old = i \<and> live old" by (auto simp: find_Some_iff)
  ultimately show ?thesis using that by blast
qed

lemma save_result:
  assumes "store_listing geography f l rows = (Inr saved, rows')"
  shows "saved = l\<lparr>sl_variants := map (\<lambda>(k, v). saved_variant (f k) v) (enumerate 0 (sl_variants l))\<rparr>"
    "rows' = tbl_save sl_id (rounded_listing saved) rows"
  using assms by (auto simp: store_listing_def Let_def split: option.splits if_splits)

lemma saved_prices: "map vd_price (map (\<lambda>(k, v). saved_variant (f k) v) (enumerate n vs)) = map vd_price vs"
  by (induction vs arbitrary: n) (simp_all add: saved_variant_def)

text \<open>
  The price of an update is ignored - a listing with variants costs what its cheapest
  variant costs, and has as many pieces as its variants together: an update that names another price
  (and no variants) changes neither.
\<close>

lemma price_update_ignored:
  assumes "update_listing geography f i dto rows = (Inr l, rows')" "lu_variants dto = None" "distinct (map sl_id rows)"
    "old \<in> set rows" "sl_id old = i" "sl_variants old \<noteq> []"
  shows "sl_price l = min_price (sl_variants old)"
proof -
  obtain found rows1 where found: "findOne_listing geography i rows = (Inr found, rows1)"
      and rest: "and_then (store_listing geography f (aggregateListing (assign_dto dto found)) rows1)
        (\<lambda>saved rows. (Inr (aggregateListing saved), rows)) = (Inr l, rows')"
    using assms(1) unfolding update_listing_def by (elim and_then_InrE) (simp add: assms(2) Let_def)
  obtain saved rows2 where saved: "store_listing geography f (aggregateListing (assign_dto dto found)) rows1 = (Inr saved, rows2)"
      and l: "l = aggregateListing saved"
    using rest by (elim and_then_InrE) simp
  obtain old' where "old' \<in> set rows" "sl_id old' = i" and f: "found = aggregateListing (old'\<lparr>sl_views := sl_views old' + 1\<rparr>)"
    using findOne_result [OF found] by metis
  then have "old' = old" using assms(3-5) by (auto simp: distinct_map inj_on_def)
  then have "sl_variants (aggregateListing (assign_dto dto found)) = sl_variants old"
    using f assms(2) by (simp add: assign_dto_def pick_def)
  then have vs: "sl_variants saved = map (\<lambda>(k, v). saved_variant (f k) v) (enumerate 0 (sl_variants old))"
    using save_result(1) [OF saved] by simp
  have "sl_variants saved \<noteq> []" using vs assms(6) by (metis enumerate_Suc_eq length_0_conv length_enumerate length_map)
  then have "sl_price l = min_price (sl_variants saved)" by (simp add: l aggregateListing_def Let_def)
  then show ?thesis unfolding min_price_def vs by (simp only: saved_prices)
qed

subsection \<open>Lists for clients\<close>

lemma active_listingD:
  assumes "active_listing at_place ilike now f row"
  shows "sl_isActive row" "live row" "sl_expiresAt row = Some t \<Longrightarrow> t > now"
    "truthy_text (lf_category f) \<Longrightarrow> sl_category row = lf_category f"
  using assms unfolding active_listing_def by (meson, meson, force, meson)

text \<open>
  The page of active listings - at most as many as asked for, every one a live, active
  listing of the table that has not expired and is of the category asked for; and the total is the
  number of all such listings, whatever page is read.
\<close>

lemma active_page_sound:
  assumes "findActiveListingsPaginated at_place ilike now f rows = (ls, n)"
  shows "length ls \<le> lf_take f \<and> n = length (filter (active_listing at_place ilike now f) rows)
    \<and> (\<forall>l \<in> set ls. \<exists>row \<in> set rows. l = aggregateListing row \<and> sl_isActive row \<and> live row
         \<and> (\<forall>t. sl_expiresAt row = Some t \<longrightarrow> t > now) \<and> (truthy_text (lf_category f) \<longrightarrow> sl_category row = lf_category f))"
proof -
  let ?found = "latest_listings (filter (active_listing at_place ilike now f) rows)"
  have ls: "ls = map aggregateListing (take (lf_take f) (drop (lf_skip f) ?found))" and n: "n = length ?found"
    using assms by (simp_all add: findActiveListingsPaginated_def Let_def)
  have "\<exists>row \<in> set rows. l = aggregateListing row \<and> sl_isActive row \<and> live row
      \<and> (\<forall>t. sl_expiresAt row = Some t \<longrightarrow> t > now) \<and> (truthy_text (lf_category f) \<longrightarrow> sl_category row = lf_category f)"
    if l: "l \<in> set ls" for l
  proof -
    obtain row where row: "row \<in> set (take (lf_take f) (drop (lf_skip f) ?found))" and l: "l = aggregateListing row"
      using l unfolding ls by (auto simp del: set_filter)
    have "row \<in> set ?found" using row by (meson in_set_dropD in_set_takeD)
    then have "row \<in> set rows" and active: "active_listing at_place ilike now f row" by (simp_all add: latest_listings_def)
    then show ?thesis
      using l active_listingD(1,2) [OF active] active_listingD(3) [OF active] active_listingD(4) [OF active] by (intro bexI [of _ row] conjI) blast+
  qed
  moreover have "n = length (filter (active_listing at_place ilike now f) rows)" by (simp add: n latest_listings_def)
  moreover have "length ls \<le> lf_take f" by (simp add: ls)
  ultimately show ?thesis by simp
qed

definition shirt :: shop_listing where
  "shirt = \<lparr>sl_id = ''s'', sl_title = ''shirt'', sl_description = ''blue'', sl_price = 5, sl_currency = ''USD'', sl_address = Some ''road'',
     sl_category = Some ''clothes'', sl_isActive = True, sl_quantity = 1, sl_reserved = 0, sl_available = 1, sl_createdAt = 1,
     sl_deletedAt = None, sl_userId = Some ''u'', sl_location = None, sl_variants = [\<lparr>vd_id = Some ''v'', vd_sku = None, vd_price = 5,
       vd_currency = Some ''USD'', vd_quantity = Some 1, vd_reserved = Some 0, vd_available = Some 1\<rparr>],
     sl_views = 0, sl_isFeatured = False, sl_expiresAt = Some 99\<rparr>"

definition only_price :: "number \<Rightarrow> update_listing_dto" where
  "only_price p = \<lparr>lu_title = None, lu_description = None, lu_price = Some p, lu_category = None, lu_location = None,
     lu_currency = None, lu_quantity = None, lu_reserved = None, lu_expiresAt = None, lu_variants = None\<rparr>"

lemma five: "round_to 2 (5 :: number) = 5"
  using round_to_exact [of 2 500] by simp

definition seen_shirt :: shop_listing where
  "seen_shirt = shirt\<lparr>sl_views := 1\<rparr>"

lemma shirt_found: "findOne_listing (\<lambda>_. True) ''s'' [shirt] = (Inr seen_shirt, [seen_shirt])"
  by (simp add: findOne_listing_def store_listing_def column_error_def orphans_def shirt_def seen_shirt_def live_def pick_def
      saved_variant_def rounded_listing_def five aggregateListing_def total_def min_price_def first_currency_def and_then_def Let_def)

lemma shirt_assigned: "aggregateListing (assign_dto (only_price 9) seen_shirt) = seen_shirt"
  by (simp add: assign_dto_def only_price_def seen_shirt_def shirt_def pick_def aggregateListing_def total_def min_price_def first_currency_def)

lemma shirt_updates: "update_listing (\<lambda>_. True) (\<lambda>_. []) ''s'' (only_price 9) [shirt] = (Inr seen_shirt, [seen_shirt])"
proof -
  have "store_listing (\<lambda>_. True) (\<lambda>_. []) seen_shirt [seen_shirt] = (Inr seen_shirt, [seen_shirt])"
    by (simp add: store_listing_def column_error_def orphans_def seen_shirt_def shirt_def pick_def saved_variant_def rounded_listing_def five Let_def)
  moreover have "aggregateListing seen_shirt = seen_shirt"
    by (simp add: seen_shirt_def shirt_def aggregateListing_def total_def pick_def min_price_def first_currency_def)
  moreover have "lu_variants (only_price 9) = None" by (simp add: only_price_def)
  ultimately show ?thesis by (simp add: update_listing_def shirt_found shirt_assigned)
qed

theorem price_update_ignored_witness:
  "update_listing (\<lambda>_. True) (\<lambda>_. []) ''s'' (only_price 9) [shirt] = (Inr seen_shirt, [seen_shirt]) \<and> sl_price seen_shirt = min_price (sl_variants shirt)"
  by (rule conjI [OF shirt_updates], rule price_update_ignored [OF shirt_updates]) (simp_all add: only_price_def shirt_def)

definition no_filters :: listing_filters where
  "no_filters = \<lparr>lf_take = 5, lf_skip = 0, lf_category = Some ''clothes'', lf_location = None, lf_minPrice = None, lf_maxPrice = None, lf_q = None\<rparr>"

theorem active_page_sound_witness:
  "length [aggregateListing shirt] \<le> lf_take no_filters
   \<and> 1 = length (filter (active_listing (\<lambda>_ _. True) (\<lambda>_ _. True) 50 no_filters) [shirt])"
  using active_page_sound [of "\<lambda>_ _. True" "\<lambda>_ _. True" 50 no_filters "[shirt]" "[aggregateListing shirt]" 1]
  by (simp add: findActiveListingsPaginated_def latest_listings_def active_listing_def no_filters_def shirt_def live_def Let_def)

end
