(* ===== verification/Media.thy ===== *)
theory Media
  imports Fraud Retry Recommendation
begin

text \<open>
  \<open>MediaService\<close> (src/src/media/media.service.ts) with image processing and moderation
  (media/services), the storage on the local disk (media/providers/local-storage.provider.ts) and the
  worker (media/media.processor.ts). The image library, the hash, the moderation service and the
  failures of the disk are arguments; a buffer is the text of its bytes. Jobs carry the buffer itself
  instead of its base64 text.
\<close>

subsection \<open>Images\<close>

datatype image_format = JPEG | PNG | WEBP

primrec format_text :: "image_format \<Rightarrow> string" where
  "format_text JPEG = ''jpeg''"
| "format_text PNG = ''png''"
| "format_text WEBP = ''webp''"

record image_variant =
  iv_url :: string
  iv_width :: nat
  iv_height :: nat
  iv_size :: nat

record image_variants =
  im_thumbnail :: image_variant
  im_medium :: image_variant
  im_original :: image_variant

record product_image =
  pi_id :: uuid
  pi_productId :: uuid
  pi_originalName :: string
  pi_format :: image_format
  pi_mimeType :: string
  pi_originalWidth :: nat
  pi_originalHeight :: nat
  pi_originalSize :: nat
  pi_variants :: image_variants
  pi_altText :: "string option"
  pi_displayOrder :: int
  pi_storageKey :: string
  pi_storageProvider :: string
  pi_createdAt :: time

datatype image_size = Thumbnail | Medium | Original

definition variant_of :: "image_variants \<Rightarrow> image_size \<Rightarrow> image_variant" where
  "variant_of vs z = (case z of Thumbnail \<Rightarrow> im_thumbnail vs | Medium \<Rightarrow> im_medium vs | Original \<Rightarrow> im_original vs)"

definition getUrl :: "image_size \<Rightarrow> product_image \<Rightarrow> string" where
  "getUrl z i = or_text (Some (iv_url (variant_of (pi_variants i) z))) (iv_url (im_original (pi_variants i)))"

definition getAllUrls :: "product_image \<Rightarrow> string list" where
  "getAllUrls i = [iv_url (im_thumbnail (pi_variants i)), iv_url (im_medium (pi_variants i)), iv_url (im_original (pi_variants i))]"

subsection \<open>Processing\<close>

datatype fit = Cover | Contain | Fill | Inside | Outside

datatype sharp_step =
    Resize nat nat fit bool
  | Watermark
  | To_format image_format nat

text \<open>\<open>sharp\<close>: the data it reads in a buffer, and the buffer it renders; both may fail.\<close>

record metadata =
  md_format :: "string option"
  md_width :: "nat option"
  md_height :: "nat option"

record sharp =
  sp_metadata :: "string \<Rightarrow> metadata option"
  sp_render :: "sharp_step list \<Rightarrow> string \<Rightarrow> string option"

record image_config =
  ic_maxFileSize :: nat
  ic_maxWidth :: nat
  ic_maxHeight :: nat

record image_dimensions =
  dn_width :: nat
  dn_height :: nat

record validation_result =
  vr_dimensions :: image_dimensions
  vr_format :: image_format
  vr_size :: nat

record processed_image =
  pr_buffer :: string
  pr_width :: nat
  pr_height :: nat
  pr_size :: nat
  pr_format :: image_format

definition getMimeType :: "string \<Rightarrow> string" where
  "getMimeType f =
     (let l = lower_text f
      in if l = ''jpeg'' \<or> l = ''jpg'' then ''image/jpeg'' else if l = ''png'' then ''image/png''
         else if l = ''webp'' then ''image/webp'' else ''image/'' @ f)"

definition mapSharpFormatToEnum :: "string \<Rightarrow> image_format" where
  "mapSharpFormatToEnum f =
     (let l = lower_text f
      in if l = ''jpeg'' \<or> l = ''jpg'' then JPEG else if l = ''png'' then PNG else if l = ''webp'' then WEBP else JPEG)"

definition allowedFormats :: "string list" where
  "allowedFormats = [''image/jpeg'', ''image/png'', ''image/webp'']"

text \<open>The result of a validation: the message of what is wrong, or what was read.\<close>

definition validateImage :: "sharp \<Rightarrow> image_config \<Rightarrow> string \<Rightarrow> msg + validation_result" where
  "validateImage sp config buffer =
     (if length buffer > ic_maxFileSize config
      then Inl [Txt ''File size exceeds maximum allowed size of '', Num (of_nat (ic_maxFileSize config) / 1024 / 1024), Txt ''MB'']
      else case sp_metadata sp buffer of
        None \<Rightarrow> Inl [Txt ''Invalid image file'']
      | Some m \<Rightarrow>
        if \<not> truthy_text (md_format m) \<or> pick 0 (md_width m) = 0 \<or> pick 0 (md_height m) = 0
        then Inl [Txt ''Unable to read image metadata'']
        else if getMimeType (the (md_format m)) \<notin> set allowedFormats
        then Inl [Txt ''Invalid image format. Allowed formats: JPEG, PNG, WebP'']
        else if the (md_width m) > ic_maxWidth config \<or> the (md_height m) > ic_maxHeight config
        then Inl [Txt ''Image dimensions exceed maximum allowed size of '', Num (of_nat (ic_maxWidth config)), Txt ''x'', Num (of_nat (ic_maxHeight config))]
        else Inr \<lparr>vr_dimensions = \<lparr>dn_width = the (md_width m), dn_height = the (md_height m)\<rparr>,
                   vr_format = mapSharpFormatToEnum (the (md_format m)), vr_size = length buffer\<rparr>)"

text \<open>\<open>width || d\<close> of the data read in a rendered buffer.\<close>

definition side :: "nat option \<Rightarrow> nat \<Rightarrow> nat" where
  "side x d = (case x of None \<Rightarrow> d | Some n \<Rightarrow> if n = 0 then d else n)"

definition rendered :: "sharp \<Rightarrow> sharp_step list \<Rightarrow> image_format \<Rightarrow> nat \<Rightarrow> string \<Rightarrow> error + processed_image" where
  "rendered sp steps format d buffer =
     (case sp_render sp steps buffer of
        None \<Rightarrow> Inl (Error [Txt ''sharp''])
      | Some out \<Rightarrow>
        (case sp_metadata sp out of
           None \<Rightarrow> Inl (Error [Txt ''sharp''])
         | Some m \<Rightarrow> Inr \<lparr>pr_buffer = out, pr_width = side (md_width m) d, pr_height = side (md_height m) d, pr_size = length out,
                          pr_format = format\<rparr>))"

record processing_options =
  po_width :: "nat option"
  po_height :: "nat option"
  po_quality :: "nat option"
  po_format :: "image_format option"
  po_fit :: "fit option"

definition resizeImage :: "sharp \<Rightarrow> processing_options \<Rightarrow> string \<Rightarrow> error + processed_image" where
  "resizeImage sp po buffer =
     (let resize = (if pick 0 (po_width po) \<noteq> 0 \<or> pick 0 (po_height po) \<noteq> 0
                    then [Resize (pick 0 (po_width po)) (pick 0 (po_height po)) (pick Inside (po_fit po)) True] else []);
          format = pick JPEG (po_format po); quality = side (po_quality po) 85
      in rendered sp (resize @ [To_format format quality]) format 0 buffer)"

definition convertToWebP :: "sharp \<Rightarrow> nat option \<Rightarrow> string \<Rightarrow> error + processed_image" where
  "convertToWebP sp quality buffer = rendered sp [To_format WEBP (pick 85 quality)] WEBP 0 buffer"

definition createMarketXAsset :: "sharp \<Rightarrow> image_config \<Rightarrow> string \<Rightarrow> error + processed_image" where
  "createMarketXAsset sp config buffer =
     (case validateImage sp config buffer of
        Inl m \<Rightarrow> Inl (BadRequestException m)
      | Inr _ \<Rightarrow> rendered sp [Resize 1080 1080 Cover False, Watermark, To_format WEBP 80] WEBP 1080 buffer)"

definition getDimensions :: "sharp \<Rightarrow> string \<Rightarrow> error + image_dimensions" where
  "getDimensions sp buffer =
     (case sp_metadata sp buffer of
        None \<Rightarrow> Inl (Error [Txt ''sharp'']) | Some m \<Rightarrow> Inr \<lparr>dn_width = side (md_width m) 0, dn_height = side (md_height m) 0\<rparr>)"

record variant_config =
  vc_name :: string
  vc_width :: nat
  vc_height :: nat
  vc_quality :: nat
  vc_fit :: fit

definition variantConfigs :: "variant_config list" where
  "variantConfigs =
     [\<lparr>vc_name = ''thumbnail'', vc_width = 200, vc_height = 200, vc_quality = 80, vc_fit = Cover\<rparr>,
      \<lparr>vc_name = ''medium'', vc_width = 800, vc_height = 800, vc_quality = 85, vc_fit = Inside\<rparr>,
      \<lparr>vc_name = ''original'', vc_width = 2048, vc_height = 2048, vc_quality = 90, vc_fit = Inside\<rparr>]"

fun process_variants :: "sharp \<Rightarrow> image_format \<Rightarrow> string \<Rightarrow> variant_config list \<Rightarrow> error + (string \<times> processed_image) list" where
  "process_variants sp format buffer [] = Inr []"
| "process_variants sp format buffer (c # cs) =
     (case resizeImage sp \<lparr>po_width = Some (vc_width c), po_height = Some (vc_height c), po_quality = Some (vc_quality c),
             po_format = Some format, po_fit = Some (vc_fit c)\<rparr> buffer of
        Inl _ \<Rightarrow> Inl (BadRequestException [Txt (''Failed to process image variant: '' @ vc_name c)])
      | Inr p \<Rightarrow> (case process_variants sp format buffer cs of Inl e \<Rightarrow> Inl e | Inr ps \<Rightarrow> Inr ((vc_name c, p) # ps)))"

definition processImage :: "sharp \<Rightarrow> image_config \<Rightarrow> string \<Rightarrow> error + (string \<times> processed_image) list" where
  "processImage sp config buffer =
     (case validateImage sp config buffer of
        Inl m \<Rightarrow> Inl (BadRequestException m) | Inr v \<Rightarrow> process_variants sp (vr_format v) buffer variantConfigs)"

subsection \<open>Moderation\<close>

text \<open>
  \<open>None\<close> when no credentials are configured; else the labels of an image with their confidence, or a
  failure of the service, which lets the image pass.
\<close>

type_synonym moderation = "(string \<Rightarrow> (string \<times> number option) list option) option"

definition offensive :: "string \<times> number option \<Rightarrow> bool" where
  "offensive l \<longleftrightarrow> fst l \<in> {''Explicit Nudity'', ''Violence'', ''Visually Disturbing''} \<and> pick 0 (snd l) > 90"

definition validateImageContent :: "moderation \<Rightarrow> string \<Rightarrow> error option" where
  "validateImageContent moderation buffer =
     (case moderation of
        None \<Rightarrow> None
      | Some labels \<Rightarrow>
        (case List.find offensive (pick [] (labels buffer)) of
           None \<Rightarrow> None
         | Some l \<Rightarrow> Some (BadRequestException
             [Txt (''Image rejected due to content policy violation: '' @ fst l @ '' detected with high confidence.'')])))"

subsection \<open>Storage\<close>

text \<open>The files of the upload directory by key; \<open>disk\<close> tells which writes and which deletions fail.\<close>

record disk =
  dk_write :: "string \<Rightarrow> error option"
  dk_unlink :: "string \<Rightarrow> error option"
  dk_baseUrl :: string

type_synonym files = "(string \<times> string) list"

definition storage_url :: "disk \<Rightarrow> string \<Rightarrow> string" where
  "storage_url disk key = dk_baseUrl disk @ ''/uploads/'' @ key"

definition upload_file :: "disk \<Rightarrow> string \<Rightarrow> string \<Rightarrow> files \<Rightarrow> (string, files) result" where
  "upload_file disk buffer key fs =
     (case dk_write disk key of
        Some e \<Rightarrow> (Inl e, fs) | None \<Rightarrow> (Inr (storage_url disk key), map_set key buffer fs))"

definition delete_file :: "disk \<Rightarrow> string \<Rightarrow> files \<Rightarrow> (unit, files) result" where
  "delete_file disk key fs =
     (if map_of fs key = None then (Inr (), fs)
      else case dk_unlink disk key of Some e \<Rightarrow> (Inl e, fs) | None \<Rightarrow> (Inr (), map_delete key fs))"

text \<open>\<open>Promise.all\<close> starts every deletion before one of them may fail.\<close>

definition deleteMany :: "disk \<Rightarrow> string list \<Rightarrow> files \<Rightarrow> files" where
  "deleteMany disk keys fs = fold (\<lambda>key fs. snd (delete_file disk key fs)) keys fs"

subsection \<open>The service\<close>

record upload_dto =
  ud_altText :: "string option"
  ud_displayOrder :: "int option"

record image_file =
  fi_buffer :: string
  fi_originalname :: string
  fi_mimetype :: string
  fi_size :: nat

record image_job =
  ij_productId :: uuid
  ij_file :: image_file
  ij_dto :: "upload_dto option"
  ij_displayOrder :: int

record queued_upload =
  qu_jobId :: string
  qu_productId :: uuid
  qu_originalName :: string

record media =
  images :: "product_image list"
  kept_files :: files
  jobs :: "(string \<times> image_job) list"

record media_env =
  en_sharp :: sharp
  en_config :: image_config
  en_moderation :: moderation
  en_disk :: disk
  en_sha :: "string \<Rightarrow> string"
  en_provider :: string

definition strip_extension :: "string \<Rightarrow> string" where
  "strip_extension n =
     (let ext = takeWhile (\<lambda>c. c \<noteq> CHR ''/'' \<and> c \<noteq> CHR ''.'') (rev n); rest = drop (length ext) (rev n)
      in if ext \<noteq> [] \<and> rest \<noteq> [] \<and> hd rest = CHR ''.'' then rev (tl rest) else n)"

definition plain_char :: "char \<Rightarrow> char" where
  "plain_char c = (if c \<in> set ''abcdefghijklmnopqrstuvwxyz0123456789'' then c else CHR ''-'')"

fun collapse :: "string \<Rightarrow> string" where
  "collapse (a # b # cs) = (if a = CHR ''-'' \<and> b = CHR ''-'' then collapse (b # cs) else a # collapse (b # cs))"
| "collapse cs = cs"

definition sanitizeFileName :: "string \<Rightarrow> string" where
  "sanitizeFileName fileName = take 50 (collapse (map plain_char (lower_text (strip_extension fileName))))"

definition getFormatFromMimeType :: "string \<Rightarrow> image_format" where
  "getFormatFromMimeType m = (if m = ''image/png'' then PNG else if m = ''image/webp'' then WEBP else JPEG)"

text \<open>\<open>LIKE\<close> with percent signs around a text without wildcards.\<close>

fun contains_text :: "string \<Rightarrow> string \<Rightarrow> bool" where
  "contains_text t [] \<longleftrightarrow> t = []"
| "contains_text t (c # cs) \<longleftrightarrow> take (length t) (c # cs) = t \<or> contains_text t cs"

definition base_key :: "uuid \<Rightarrow> time \<Rightarrow> string \<Rightarrow> string \<Rightarrow> string" where
  "base_key productId timestamp contentHash name =
     ''products/'' @ productId @ ''/'' @ show_nat (nat timestamp) @ ''-'' @ contentHash @ ''-'' @ name"

definition file_key :: "string \<Rightarrow> string \<Rightarrow> image_format \<Rightarrow> string" where
  "file_key baseKey variant format = baseKey @ ''/'' @ variant @ ''.'' @ format_text format"

definition variant_names :: "string list" where
  "variant_names = [''thumbnail'', ''medium'', ''original'']"

definition duplicate_of :: "media_env \<Rightarrow> uuid \<Rightarrow> string \<Rightarrow> media \<Rightarrow> product_image option" where
  "duplicate_of env productId buffer s =
     List.find (\<lambda>i. pi_productId i = productId \<and> contains_text (en_sha env buffer) (pi_storageKey i)) (images s)"

text \<open>The three files of an upload, one after the other; a failure leaves those already written.\<close>

fun upload_variants ::
  "disk \<Rightarrow> string \<Rightarrow> processed_image \<Rightarrow> string list \<Rightarrow> files \<Rightarrow> (image_variant list, files) result" where
  "upload_variants disk baseKey p [] fs = (Inr [], fs)"
| "upload_variants disk baseKey p (v # vs) fs =
     and_then (upload_file disk (pr_buffer p) (file_key baseKey v (pr_format p)) fs) (\<lambda>url fs.
       and_then (upload_variants disk baseKey p vs fs) (\<lambda>rest fs.
         (Inr (\<lparr>iv_url = url, iv_width = pr_width p, iv_height = pr_height p, iv_size = pr_size p\<rparr> # rest), fs)))"

definition variants_record :: "image_variant list \<Rightarrow> image_variants" where
  "variants_record vs = \<lparr>im_thumbnail = vs ! 0, im_medium = vs ! 1, im_original = vs ! 2\<rparr>"

definition too_long :: "product_image \<Rightarrow> bool" where
  "too_long i \<longleftrightarrow> length (pi_originalName i) > 255 \<or> length (pick [] (pi_altText i)) > 500 \<or> length (pi_storageKey i) > 500"

definition uploadSingleImage ::
  "media_env \<Rightarrow> uuid \<Rightarrow> time \<Rightarrow> uuid \<Rightarrow> image_file \<Rightarrow> upload_dto option \<Rightarrow> int \<Rightarrow> media \<Rightarrow> (product_image, media) result" where
  "uploadSingleImage env newId now productId file dto displayOrder s =
     (case duplicate_of env productId (fi_buffer file) s of
        Some existing \<Rightarrow> (Inr existing, s)
      | None \<Rightarrow>
     (case validateImageContent (en_moderation env) (fi_buffer file) of
        Some e \<Rightarrow> (Inl e, s)
      | None \<Rightarrow>
     (case createMarketXAsset (en_sharp env) (en_config env) (fi_buffer file) of
        Inl e \<Rightarrow> (Inl e, s)
      | Inr p \<Rightarrow>
        let baseKey = base_key productId now (en_sha env (fi_buffer file)) (sanitizeFileName (fi_originalname file))
        in case upload_variants (en_disk env) baseKey p variant_names (kept_files s) of
             (Inl e, fs) \<Rightarrow> (Inl e, s\<lparr>kept_files := fs\<rparr>)
           | (Inr vs, fs) \<Rightarrow>
             let img = \<lparr>pi_id = newId, pi_productId = productId, pi_originalName = fi_originalname file,
                   pi_format = getFormatFromMimeType (fi_mimetype file), pi_mimeType = ''image/webp'', pi_originalWidth = pr_width p,
                   pi_originalHeight = pr_height p, pi_originalSize = pr_size p, pi_variants = variants_record vs,
                   pi_altText = (case dto of None \<Rightarrow> None | Some d \<Rightarrow> ud_altText d),
                   pi_displayOrder = (case dto of None \<Rightarrow> displayOrder | Some d \<Rightarrow> pick displayOrder (ud_displayOrder d)),
                   pi_storageKey = baseKey, pi_storageProvider = en_provider env, pi_createdAt = now\<rparr>
             in if too_long img then (Inl (Error [Txt ''value too long for type character varying'']), s\<lparr>kept_files := fs\<rparr>)
                else (Inr img, s\<lparr>kept_files := fs, images := tbl_save pi_id img (images s)\<rparr>))))"

definition processQueuedImage :: "media_env \<Rightarrow> uuid \<Rightarrow> time \<Rightarrow> image_job \<Rightarrow> media \<Rightarrow> (product_image, media) result" where
  "processQueuedImage env newId now job s =
     uploadSingleImage env newId now (ij_productId job) (ij_file job) (ij_dto job) (ij_displayOrder job) s"

definition maxOrder :: "uuid \<Rightarrow> media \<Rightarrow> int option" where
  "maxOrder productId s =
     (let ds = map pi_displayOrder (filter (\<lambda>i. pi_productId i = productId) (images s)) in if ds = [] then None else Some (Max (set ds)))"

definition uploadProductImages ::
  "(nat \<Rightarrow> string) \<Rightarrow> uuid \<Rightarrow> image_file list \<Rightarrow> upload_dto option \<Rightarrow> media \<Rightarrow> (queued_upload list, media) result" where
  "uploadProductImages newJob productId files dto s =
     (if files = [] then (Inl (BadRequestException [Txt ''No files provided'']), s)
      else let currentOrder = pick (- 1) (maxOrder productId s) + 1;
               queued = map (\<lambda>(k, f). (newJob k, \<lparr>ij_productId = productId, ij_file = f, ij_dto = dto, ij_displayOrder = currentOrder + int k\<rparr>))
                          (enumerate 0 files)
           in (Inr (map (\<lambda>(i, j). \<lparr>qu_jobId = i, qu_productId = productId, qu_originalName = fi_originalname (ij_file j)\<rparr>) queued),
               s\<lparr>jobs := jobs s @ queued\<rparr>))"

definition getProductImages :: "uuid \<Rightarrow> media \<Rightarrow> product_image list" where
  "getProductImages productId s =
     sort_key pi_displayOrder (sort_key pi_createdAt (filter (\<lambda>i. pi_productId i = productId) (images s)))"

definition getImageById :: "uuid \<Rightarrow> media \<Rightarrow> error + product_image" where
  "getImageById i s =
     (case tbl_find pi_id i (images s) of
        None \<Rightarrow> Inl (NotFoundException [Txt (''Image with ID '' @ i @ '' not found'')]) | Some img \<Rightarrow> Inr img)"

definition getPrimaryImage :: "uuid \<Rightarrow> media \<Rightarrow> product_image option" where
  "getPrimaryImage productId s = (case getProductImages productId s of [] \<Rightarrow> None | i # _ \<Rightarrow> Some i)"

definition updateImage :: "uuid \<Rightarrow> upload_dto \<Rightarrow> media \<Rightarrow> (product_image, media) result" where
  "updateImage i updates s =
     (case getImageById i s of
        Inl e \<Rightarrow> (Inl e, s)
      | Inr img \<Rightarrow>
        let saved = img\<lparr>pi_altText := (case ud_altText updates of None \<Rightarrow> pi_altText img | Some t \<Rightarrow> Some t),
              pi_displayOrder := pick (pi_displayOrder img) (ud_displayOrder updates)\<rparr>
        in if too_long saved then (Inl (Error [Txt ''value too long for type character varying'']), s)
           else (Inr saved, s\<lparr>images := tbl_save pi_id saved (images s)\<rparr>))"

definition set_order :: "nat \<times> uuid \<Rightarrow> media \<Rightarrow> media" where
  "set_order ki s = s\<lparr>images := map (\<lambda>i. if pi_id i = snd ki then i\<lparr>pi_displayOrder := int (fst ki)\<rparr> else i) (images s)\<rparr>"

definition reorderImages :: "uuid \<Rightarrow> uuid list \<Rightarrow> media \<Rightarrow> (product_image list, media) result" where
  "reorderImages productId imageIds s =
     (case List.find (\<lambda>i. i \<notin> set (map pi_id (getProductImages productId s))) imageIds of
        Some i \<Rightarrow> (Inl (BadRequestException [Txt (''Image '' @ i @ '' does not exist or does not belong to this product'')]), s)
      | None \<Rightarrow> let s = fold set_order (enumerate 0 imageIds) s in (Inr (getProductImages productId s), s))"

definition keys_of_image :: "product_image \<Rightarrow> string list" where
  "keys_of_image i = map (\<lambda>v. file_key (pi_storageKey i) v (pi_format i)) variant_names"

definition deleteImage :: "media_env \<Rightarrow> uuid \<Rightarrow> media \<Rightarrow> (unit, media) result" where
  "deleteImage env i s =
     (case getImageById i s of
        Inl e \<Rightarrow> (Inl e, s)
      | Inr img \<Rightarrow> (Inr (), s\<lparr>kept_files := deleteMany (en_disk env) (keys_of_image img) (kept_files s),
                             images := filter (\<lambda>j. pi_id j \<noteq> pi_id img) (images s)\<rparr>))"

definition deleteProductImages :: "media_env \<Rightarrow> uuid \<Rightarrow> media \<Rightarrow> nat \<times> media" where
  "deleteProductImages env productId s =
     (let found = getProductImages productId s
      in if found = [] then (0, s)
         else (length found, s\<lparr>kept_files := deleteMany (en_disk env) (concat (map keys_of_image found)) (kept_files s),
                 images := filter (\<lambda>j. pi_id j \<notin> set (map pi_id found)) (images s)\<rparr>))"

subsection \<open>Keys\<close>

lemma contains_text_iff: "contains_text t xs \<longleftrightarrow> (\<exists>p q. xs = p @ t @ q)"
proof (induction xs)
  case (Cons c cs)
  have "take (length t) (c # cs) = t \<longleftrightarrow> (\<exists>q. c # cs = t @ q)"
    by (metis append_eq_conv_conj append_take_drop_id)
  moreover have "(\<exists>p q. c # cs = p @ t @ q) \<longleftrightarrow> (\<exists>q. c # cs = t @ q) \<or> (\<exists>p q. cs = p @ t @ q)"
    by (metis append_Cons append_Nil list.exhaust list.inject)
  ultimately show ?case using Cons by simp
qed simp

lemma split_at_dash:
  assumes "CHR ''-'' \<notin> set a" "CHR ''-'' \<notin> set b" "a @ ''-'' @ x = b @ ''-'' @ y"
  shows "a = b \<and> x = y"
proof -
  have before: "takeWhile (\<lambda>c. c \<noteq> CHR ''-'') (u @ ''-'' @ w) = u" if "CHR ''-'' \<notin> set u" for u w
    using that by (induction u) auto
  have "a = b" using before [OF assms(1), of x] before [OF assms(2), of y] unfolding assms(3) by (rule trans [OF sym])
  then show ?thesis using assms(3) by simp
qed

lemma base_key_inj:
  assumes "CHR ''-'' \<notin> set h" "CHR ''-'' \<notin> set h'" "base_key p ts h n = base_key p ts' h' n'"
  shows "h = h'"
proof -
  have "\<not> is_digit (CHR ''-'')" by (simp add: is_digit_def)
  then have nodash: "CHR ''-'' \<notin> set (show_nat m)" for m using show_nat_digits [of m] by blast
  have "show_nat (nat ts) @ ''-'' @ (h @ ''-'' @ n) = show_nat (nat ts') @ ''-'' @ (h' @ ''-'' @ n')"
    using assms(3) by (simp add: base_key_def)
  then have "h @ ''-'' @ n = h' @ ''-'' @ n'" using split_at_dash [OF nodash nodash] by blast
  then show ?thesis using split_at_dash [OF assms(1,2)] by blast
qed

lemma base_key_contains: "contains_text h (base_key p ts h n)"
proof -
  have "base_key p ts h n = (''products/'' @ p @ ''/'' @ show_nat (nat ts) @ ''-'') @ h @ (''-'' @ n)" by (simp add: base_key_def)
  then show ?thesis unfolding contains_text_iff by blast
qed

lemma file_key_formats: "file_key k v f = file_key k' v' f' \<Longrightarrow> (f = WEBP) = (f' = WEBP)"
proof -
  assume "file_key k v f = file_key k' v' f'"
  then have "List.last (format_text f) = List.last (format_text f')"
    unfolding file_key_def by (cases f; cases f') (metis append_assoc last_appendR format_text.simps list.distinct(1))+
  then show ?thesis by (cases f; cases f') auto
qed

lemma find_snoc: "List.find P (xs @ [x]) = (case List.find P xs of Some y \<Rightarrow> Some y | None \<Rightarrow> if P x then Some x else None)"
  by (induction xs) auto

subsection \<open>Uploads\<close>

lemma upload_variants_stored:
  assumes "upload_variants disk k p names fs = (Inr vs, fs')"
  shows "(\<forall>v \<in> set names. map_of fs' (file_key k v (pr_format p)) = Some (pr_buffer p))
    \<and> (\<forall>x. map_of fs x = Some (pr_buffer p) \<longrightarrow> map_of fs' x = Some (pr_buffer p))"
  using assms
proof (induction names arbitrary: fs vs)
  case (Cons v names)
  from Cons.prems obtain url fs1 rest where up: "upload_file disk (pr_buffer p) (file_key k v (pr_format p)) fs = (Inr url, fs1)"
    and "upload_variants disk k p names fs1 = (Inr rest, fs')"
    by (fastforce simp: and_then_Inr_iff)
  moreover have "fs1 = map_set (file_key k v (pr_format p)) (pr_buffer p) fs" using up by (simp add: upload_file_def split: option.splits)
  ultimately show ?case using Cons.IH by auto
qed simp

text \<open>What an upload that ends does: it finds the image, or stores it as a new row with its files.\<close>

lemma uploadSingleImage_cases:
  assumes "uploadSingleImage env i now p file dto k s = (Inr r, t)"
  shows "(duplicate_of env p (fi_buffer file) s = Some r \<and> t = s) \<or>
    (duplicate_of env p (fi_buffer file) s = None \<and> pi_id r = i \<and> pi_productId r = p
     \<and> pi_storageKey r = base_key p now (en_sha env (fi_buffer file)) (sanitizeFileName (fi_originalname file))
     \<and> pi_format r = getFormatFromMimeType (fi_mimetype file) \<and> images t = tbl_save pi_id r (images s) \<and> jobs t = jobs s
     \<and> (\<exists>b. \<forall>v \<in> set variant_names. map_of (kept_files t) (file_key (pi_storageKey r) v WEBP) = Some b))"
proof (cases "duplicate_of env p (fi_buffer file) s")
  case (Some x)
  then show ?thesis using assms by (simp add: uploadSingleImage_def)
next
  case None
  let ?k = "base_key p now (en_sha env (fi_buffer file)) (sanitizeFileName (fi_originalname file))"
  obtain q vs fs where q: "createMarketXAsset (en_sharp env) (en_config env) (fi_buffer file) = Inr q"
      and up: "upload_variants (en_disk env) ?k q variant_names (kept_files s) = (Inr vs, fs)"
      and rest: "pi_id r = i" "pi_productId r = p" "pi_storageKey r = ?k" "pi_format r = getFormatFromMimeType (fi_mimetype file)"
        "t = s\<lparr>kept_files := fs, images := tbl_save pi_id r (images s)\<rparr>"
    using assms None unfolding uploadSingleImage_def Let_def
    by (auto split: option.splits sum.splits prod.splits if_splits)
  have "pr_format q = WEBP" using q by (auto simp: createMarketXAsset_def rendered_def split: sum.splits option.splits)
  then show ?thesis using None rest upload_variants_stored [OF up] by auto
qed

text \<open>
  An upload happens once - as long as its image is there, uploading the same bytes for
  the same product again, under whatever name and at whatever time, gives the first image and changes
  nothing.
\<close>

lemma upload_idempotent:
  assumes "uploadSingleImage env i now p file dto k s = (Inr r, t)" "fi_buffer again = fi_buffer file"
    "tbl_find pi_id i (images s) = None"
  shows "uploadSingleImage env i' now' p again dto' k' t = (Inr r, t)"
proof -
  have "duplicate_of env p (fi_buffer file) t = Some r"
    using uploadSingleImage_cases [OF assms(1)]
  proof (elim disjE conjE)
    assume none: "duplicate_of env p (fi_buffer file) s = None" and r: "pi_id r = i" "pi_productId r = p"
      "pi_storageKey r = base_key p now (en_sha env (fi_buffer file)) (sanitizeFileName (fi_originalname file))"
      "images t = tbl_save pi_id r (images s)"
    have "images t = images s @ [r]" using r(1,4) assms(3) by (simp add: tbl_save_new)
    moreover have "contains_text (en_sha env (fi_buffer file)) (pi_storageKey r)" unfolding r(3) by (rule base_key_contains)
    ultimately show ?thesis using none r(2) by (simp add: duplicate_of_def find_snoc)
  qed simp
  then show ?thesis using assms(2) by (simp add: uploadSingleImage_def)
qed

text \<open>
  Deleting an image leaves its files - every variant is stored as webp, but the names
  to delete are built with the format of the uploaded file: unless that was webp, the row is gone
  and all three files stay on the disk.
\<close>

lemma deletion_leaves_files:
  assumes "uploadSingleImage env i now p file dto k s = (Inr r, t)" "duplicate_of env p (fi_buffer file) s = None"
    "fi_mimetype file \<noteq> ''image/webp''" "deleteImage env i t = (Inr (), u)" "v \<in> set variant_names"
  shows "i \<notin> pi_id ` set (images u) \<and> map_of (kept_files u) (file_key (pi_storageKey r) v WEBP) \<noteq> None
    \<and> map_of (kept_files u) (file_key (pi_storageKey r) v WEBP) = map_of (kept_files t) (file_key (pi_storageKey r) v WEBP)"
proof -
  have r: "pi_id r = i" "pi_format r \<noteq> WEBP" "images t = tbl_save pi_id r (images s)"
      "map_of (kept_files t) (file_key (pi_storageKey r) v WEBP) \<noteq> None"
    using uploadSingleImage_cases [OF assms(1)] assms(2,3,5) by (auto simp: getFormatFromMimeType_def)
  have "tbl_find pi_id i (images t) = Some r" using r(1,3) by auto
  then have u: "u = t\<lparr>kept_files := deleteMany (en_disk env) (keys_of_image r) (kept_files t), images := filter (\<lambda>j. pi_id j \<noteq> i) (images t)\<rparr>"
    using assms(4) r(1) by (simp add: deleteImage_def getImageById_def)
  have kept: "map_of (deleteMany d ks fs) x = map_of fs x" if "x \<notin> set ks" for d ks fs x
    using that by (induction ks arbitrary: fs) (auto simp: deleteMany_def delete_file_def split: option.splits)
  have "file_key (pi_storageKey r) v WEBP \<notin> set (keys_of_image r)"
    using r(2) by (auto simp: keys_of_image_def dest!: file_key_formats)
  then show ?thesis using u r(4) by (auto simp: kept)
qed

subsection \<open>One image per content\<close>

datatype media_op =
    Upload_one uuid time uuid image_file "upload_dto option" int
  | Enqueue "nat \<Rightarrow> string" uuid "image_file list" "upload_dto option"
  | Update_image uuid upload_dto
  | Reorder uuid "uuid list"
  | Delete_image uuid
  | Delete_images uuid

primrec run_media :: "media_env \<Rightarrow> media_op \<Rightarrow> media \<Rightarrow> media" where
  "run_media env (Upload_one i now p file dto k) s = snd (uploadSingleImage env i now p file dto k s)"
| "run_media env (Enqueue newJob p fs dto) s = snd (uploadProductImages newJob p fs dto s)"
| "run_media env (Update_image i dto) s = snd (updateImage i dto s)"
| "run_media env (Reorder p ids) s = snd (reorderImages p ids s)"
| "run_media env (Delete_image i) s = snd (deleteImage env i s)"
| "run_media env (Delete_images p) s = snd (deleteProductImages env p s)"

text \<open>New images have new identifiers.\<close>

fun fresh_images :: "media_env \<Rightarrow> media_op list \<Rightarrow> media \<Rightarrow> bool" where
  "fresh_images env [] s \<longleftrightarrow> True"
| "fresh_images env (x # xs) s \<longleftrightarrow>
     (case x of Upload_one i now p file dto k \<Rightarrow> i \<notin> pi_id ` set (images s) | _ \<Rightarrow> True) \<and> fresh_images env xs (run_media env x s)"

text \<open>An image of the bytes \<open>b\<close> is one whose files were named with their hash.\<close>

definition image_of :: "media_env \<Rightarrow> string \<Rightarrow> product_image \<Rightarrow> bool" where
  "image_of env b i \<longleftrightarrow> (\<exists>ts n. pi_storageKey i = base_key (pi_productId i) ts (en_sha env b) n)"

definition identity :: "product_image \<Rightarrow> uuid \<times> uuid \<times> string" where
  "identity i = (pi_id i, pi_productId i, pi_storageKey i)"

definition keyed :: "media_env \<Rightarrow> string \<Rightarrow> uuid \<times> uuid \<times> string \<Rightarrow> bool" where
  "keyed env b x \<longleftrightarrow> (\<exists>c d. snd (snd x) = base_key (fst (snd x)) c (en_sha env b) d)"

definition one_each :: "media_env \<Rightarrow> (uuid \<times> uuid \<times> string) list \<Rightarrow> bool" where
  "one_each env ts \<longleftrightarrow> distinct (map fst ts) \<and>
     (\<forall>x \<in> set ts. \<forall>y \<in> set ts. \<forall>b. fst (snd x) = fst (snd y) \<and> keyed env b x \<and> keyed env b y \<longrightarrow> x = y)"

lemma image_of_keyed: "image_of env b i \<longleftrightarrow> keyed env b (identity i)"
  by (simp add: image_of_def keyed_def identity_def)

lemma one_eachD:
  assumes "one_each env (map identity rows)" "i \<in> set rows" "j \<in> set rows" "pi_productId i = pi_productId j" "image_of env b i" "image_of env b j"
  shows "identity i = identity j"
proof -
  have "identity i \<in> set (map identity rows)" "identity j \<in> set (map identity rows)" using assms(2,3) by simp_all
  moreover have "fst (snd (identity i)) = fst (snd (identity j))" using assms(4) by (simp add: identity_def)
  ultimately show ?thesis using assms(1,5,6) unfolding one_each_def image_of_keyed by meson
qed

lemma one_each_filter:
  assumes "one_each env (map identity rows)"
  shows "one_each env (map identity (filter P rows))"
proof -
  have "set (map identity (filter P rows)) \<subseteq> set (map identity rows)" by auto
  moreover have "distinct (map fst (map identity (filter P rows)))"
    using assms unfolding one_each_def map_map by (auto intro: distinct_map_filter)
  ultimately show ?thesis using assms unfolding one_each_def by blast
qed

lemma one_each_upload:
  assumes "one_each env (map identity (images s))" "i \<notin> pi_id ` set (images s)" "\<forall>b. CHR ''-'' \<notin> set (en_sha env b)"
  shows "one_each env (map identity (images (snd (uploadSingleImage env i now p file dto k s))))"
proof (cases "uploadSingleImage env i now p file dto k s")
  case (Pair r t)
  show ?thesis
  proof (cases r)
    case (Inl e)
    then have "images t = images s" using Pair unfolding uploadSingleImage_def Let_def
      by (auto split: option.splits sum.splits prod.splits if_splits)
    then show ?thesis using assms(1) Pair by simp
  next
    case (Inr img)
    show ?thesis
      using uploadSingleImage_cases [OF Pair [unfolded Inr]]
    proof (elim disjE conjE)
      assume "t = s"
      then show ?thesis using assms(1) Pair by simp
    next
      let ?h = "en_sha env (fi_buffer file)" and ?n = "sanitizeFileName (fi_originalname file)"
      assume none: "duplicate_of env p (fi_buffer file) s = None" and img: "pi_id img = i" "pi_productId img = p"
        "pi_storageKey img = base_key p now ?h ?n" "images t = tbl_save pi_id img (images s)"
      have "tbl_find pi_id (pi_id img) (images s) = None" using assms(2) img(1) by (simp add: tbl_find_none_iff)
      then have t: "map identity (images t) = map identity (images s) @ [(i, p, base_key p now ?h ?n)]"
        using img by (simp add: tbl_save_new identity_def)
      have new: False if x: "x \<in> set (map identity (images s))" "fst (snd x) = p" "keyed env b x"
          "keyed env b (i, p, base_key p now ?h ?n)" for x b
      proof -
        obtain e f where "base_key p now ?h ?n = base_key p e (en_sha env b) f" using x(4) by (auto simp: keyed_def)
        then have h: "en_sha env b = ?h" using base_key_inj assms(3) by metis
        obtain j where j: "j \<in> set (images s)" "identity j = x" using x(1) unfolding set_map by blast
        have "contains_text ?h (snd (snd x))" using x(3) base_key_contains by (auto simp: keyed_def h)
        then have "contains_text ?h (pi_storageKey j)" "pi_productId j = p" using x(2) j(2) by (auto simp: identity_def)
        then show False using none j(1) by (auto simp: duplicate_of_def find_None_iff)
      qed
      have "distinct (map fst (map identity (images t)))"
        using assms(1,2) unfolding t by (auto simp: one_each_def identity_def)
      then show ?thesis
        unfolding Pair snd_conv one_each_def
      proof (intro conjI ballI allI impI)
        fix x y b assume x: "x \<in> set (map identity (images t))" and y: "y \<in> set (map identity (images t))"
          and same: "fst (snd x) = fst (snd y) \<and> keyed env b x \<and> keyed env b y"
        let ?new = "(i, p, base_key p now ?h ?n)"
        have "x \<in> set (map identity (images s)) \<or> x = ?new" "y \<in> set (map identity (images s)) \<or> y = ?new"
          using x y unfolding t by auto
        then show "x = y" using same new [of x b] new [of y b] assms(1) unfolding one_each_def by (metis fst_conv snd_conv)
      qed
    qed
  qed
qed

lemma identity_order [simp]: "identity (i\<lparr>pi_displayOrder := k\<rparr>) = identity i"
  by (simp add: identity_def)

lemma set_order_identity: "map identity (images (fold set_order kis s)) = map identity (images s)"
proof (induction kis arbitrary: s)
  case (Cons x xs)
  have "map identity (images (set_order x s)) = map identity (images s)" by (simp add: set_order_def)
  then show ?case using Cons by simp
qed simp

lemma one_each_step:
  assumes "one_each env (map identity (images s))" "fresh_images env [x] s" "\<forall>b. CHR ''-'' \<notin> set (en_sha env b)"
  shows "one_each env (map identity (images (run_media env x s)))"
proof (cases x)
  case (Upload_one i now p f dto k)
  then show ?thesis using one_each_upload [OF assms(1) _ assms(3)] assms(2) by simp
next
  case (Enqueue newJob p fs dto)
  then show ?thesis using assms(1) by (simp add: uploadProductImages_def Let_def)
next
  case (Update_image i dto)
  have "map identity (images (snd (updateImage i dto s))) = map identity (images s)"
  proof (cases "tbl_find pi_id i (images s)")
    case (Some img)
    moreover have "pi_id img = i" using Some by (rule tbl_find_key)
    ultimately show ?thesis
      by (auto simp: updateImage_def getImageById_def Let_def identity_def intro!: tbl_save_map)
  qed (simp add: updateImage_def getImageById_def)
  then show ?thesis using assms(1) Update_image by simp
next
  case (Reorder p ids)
  then show ?thesis using assms(1) by (simp add: reorderImages_def set_order_identity Let_def split: option.split)
next
  case (Delete_image i)
  then show ?thesis using assms(1) by (simp add: deleteImage_def one_each_filter split: sum.split)
next
  case (Delete_images p)
  then show ?thesis using assms(1) by (simp add: deleteProductImages_def one_each_filter Let_def)
qed

text \<open>
  Property C27: one image per content - starting without images, and with operations that run one after the
  other, whatever is queued, processed, updated, reordered and deleted, under whatever names and at whatever times, a
  product never has two images whose files are named with the hash of the same bytes. New images have new
  identifiers, and the text of a hash, being hexadecimal, has no hyphen.
\<close>

theorem one_image_per_content:
  assumes "images s0 = []" "\<forall>b. CHR ''-'' \<notin> set (en_sha env b)" "fresh_images env xs s0" "s = fold (run_media env) xs s0"
    "i \<in> set (images s)" "j \<in> set (images s)" "pi_productId i = pi_productId j" "image_of env b i" "image_of env b j"
  shows "i = j"
proof -
  have run: "one_each env (map identity (images (fold (run_media env) xs s)))"
    if "one_each env (map identity (images s))" "fresh_images env xs s" for s
    using that
  proof (induction xs arbitrary: s)
    case (Cons x xs)
    have "fresh_images env [x] s" "fresh_images env xs (run_media env x s)" using Cons.prems(2) by simp_all
    then show ?case using Cons.IH one_each_step [OF Cons.prems(1) _ assms(2)] by simp
  qed simp
  have "one_each env (map identity (images s))" using run [of s0] assms(1,3) unfolding assms(4) by (simp add: one_each_def)
  moreover from this have "distinct (map pi_id (images s))"
    unfolding one_each_def map_map by (simp add: identity_def comp_def)
  ultimately show ?thesis using one_eachD [OF _ assms(5-9)] assms(5,6) by (auto simp: identity_def distinct_map inj_on_def)
qed

subsection \<open>Order\<close>

lemma set_order_rows:
  assumes "distinct ids"
  shows "images (fold set_order (enumerate m ids) s) =
    map (\<lambda>i. case map_of (zip ids [m..<m + length ids]) (pi_id i) of Some k \<Rightarrow> i\<lparr>pi_displayOrder := int k\<rparr> | None \<Rightarrow> i) (images s)"
  using assms
proof (induction ids arbitrary: m s)
  case (Cons x ids)
  have "x \<notin> set ids" using Cons.prems by simp
  then have none: "map_of (zip ids [Suc m..<Suc m + length ids]) x = None" by (simp add: map_of_zip_is_None)
  have z: "zip (x # ids) [m..<m + length (x # ids)] = (x, m) # zip ids [Suc m..<Suc m + length ids]"
    by (simp add: upt_conv_Cons del: upt_Suc)
  have "images (fold set_order (enumerate m (x # ids)) s) = images (fold set_order (enumerate (Suc m) ids) (set_order (m, x) s))" by simp
  also have "\<dots> = map (\<lambda>i. case map_of (zip ids [Suc m..<Suc m + length ids]) (pi_id i) of Some k \<Rightarrow> i\<lparr>pi_displayOrder := int k\<rparr> | None \<Rightarrow> i)
      (images (set_order (m, x) s))" using Cons by simp
  also have "\<dots> = map (\<lambda>i. case map_of (zip (x # ids) [m..<m + length (x # ids)]) (pi_id i) of Some k \<Rightarrow> i\<lparr>pi_displayOrder := int k\<rparr> | None \<Rightarrow> i)
      (images s)" unfolding z
  proof -
    have step: "images (set_order (m, x) s) = map (\<lambda>i. if pi_id i = x then i\<lparr>pi_displayOrder := int m\<rparr> else i) (images s)"
      by (simp add: set_order_def)
    have "(case map_of (zip ids [Suc m..<Suc m + length ids]) (pi_id (if pi_id i = x then i\<lparr>pi_displayOrder := int m\<rparr> else i)) of
            Some k \<Rightarrow> (if pi_id i = x then i\<lparr>pi_displayOrder := int m\<rparr> else i)\<lparr>pi_displayOrder := int k\<rparr>
          | None \<Rightarrow> (if pi_id i = x then i\<lparr>pi_displayOrder := int m\<rparr> else i))
        = (case map_of ((x, m) # zip ids [Suc m..<Suc m + length ids]) (pi_id i) of Some k \<Rightarrow> i\<lparr>pi_displayOrder := int k\<rparr> | None \<Rightarrow> i)" for i
    proof (cases "pi_id i = x")
      case True
      then have "pi_id (if pi_id i = x then i\<lparr>pi_displayOrder := int m\<rparr> else i) = x" by simp
      then show ?thesis unfolding \<open>pi_id (if _ then _ else _) = x\<close> none using True by simp
    qed simp
    then show "map (\<lambda>i. case map_of (zip ids [Suc m..<Suc m + length ids]) (pi_id i) of Some k \<Rightarrow> i\<lparr>pi_displayOrder := int k\<rparr> | None \<Rightarrow> i)
        (images (set_order (m, x) s)) = map (\<lambda>i. case map_of ((x, m) # zip ids [Suc m..<Suc m + length ids]) (pi_id i) of
          Some k \<Rightarrow> i\<lparr>pi_displayOrder := int k\<rparr> | None \<Rightarrow> i) (images s)"
      unfolding step map_map comp_def by (rule map_cong [OF refl])
  qed
  finally show ?case .
qed simp

lemma sorted_by_rank:
  fixes g :: "'a \<Rightarrow> int"
  assumes "distinct xs" "distinct ys" "set xs = set ys" "sorted (map g xs)" "sorted (map g ys)" "inj_on g (set ys)"
  shows "xs = ys"
proof -
  have "map g xs = map g ys"
    using assms by (intro sorted_distinct_set_unique) (auto simp: distinct_map inj_on_def)
  then show ?thesis using assms(3,6) by (metis map_inj_on sup.idem)
qed

text \<open>
  Reordering - if every identifier named (no one twice) is one of an image of the
  product, the images named are afterwards listed to clients in exactly the order named, and no image
  changes in anything but its position, the unnamed ones not at all; if one of them is not, nothing
  changes.
\<close>

lemma reorder_exact:
  assumes "distinct ids" "distinct (map pi_id (images s))" "reorderImages p ids s = (r, t)"
  shows "(\<forall>e. r = Inl e \<longrightarrow> t = s \<and> \<not> set ids \<subseteq> pi_id ` {i \<in> set (images s). pi_productId i = p})
    \<and> (\<forall>ls. r = Inr ls \<longrightarrow> ls = getProductImages p t \<and> filter (\<lambda>i. i \<in> set ids) (map pi_id ls) = ids
        \<and> map identity (images t) = map identity (images s) \<and> filter (\<lambda>i. pi_id i \<notin> set ids) (images t) = filter (\<lambda>i. pi_id i \<notin> set ids) (images s))"
proof -
  have listed: "set (getProductImages p s) = {i \<in> set (images s). pi_productId i = p}" for s by (auto simp: getProductImages_def)
  show ?thesis
  proof (cases "List.find (\<lambda>i. i \<notin> set (map pi_id (getProductImages p s))) ids")
    case (Some i)
    then have "i \<in> set ids" "i \<notin> pi_id ` {i \<in> set (images s). pi_productId i = p}"
      by (auto simp: find_Some_iff listed)
    then show ?thesis using assms(3) Some by (auto simp: reorderImages_def)
  next
    case None
    let ?t = "fold set_order (enumerate 0 ids) s" and ?m = "map_of (zip ids [0..<length ids])"
    have r: "r = Inr (getProductImages p ?t)" "t = ?t" using assms(3) None by (auto simp: reorderImages_def Let_def)
    have all: "set ids \<subseteq> pi_id ` {i \<in> set (images s). pi_productId i = p}" using None by (auto simp: find_None_iff listed)
    let ?f = "\<lambda>i. case ?m (pi_id i) of Some k \<Rightarrow> i\<lparr>pi_displayOrder := int k\<rparr> | None \<Rightarrow> i"
    have rows: "images ?t = map ?f (images s)" using set_order_rows [OF assms(1), of 0 s] by simp
    have ident: "map identity (images t) = map identity (images s)" unfolding r(2) by (rule set_order_identity)
    have unnamed: "filter (\<lambda>i. pi_id i \<notin> set ids) (images t) = filter (\<lambda>i. pi_id i \<notin> set ids) (images s)"
    proof -
      have "filter (\<lambda>i. pi_id i \<notin> set ids) (map ?f xs) = filter (\<lambda>i. pi_id i \<notin> set ids) xs" for xs
      proof (induction xs)
        case (Cons x xs)
        have "pi_id (?f x) = pi_id x" by (simp split: option.split)
        moreover have "?f x = x" if "pi_id x \<notin> set ids"
        proof -
          have m: "?m (pi_id x) = None" using that by (simp add: map_of_zip_is_None)
          show ?thesis unfolding m by simp
        qed
        ultimately have "pi_id (?f x) = pi_id x" "pi_id x \<notin> set ids \<Longrightarrow> ?f x = x" .
        then show ?case using Cons by simp
      qed simp
      then show ?thesis unfolding r(2) rows .
    qed
    let ?L = "filter (\<lambda>i. pi_id i \<in> set ids) (getProductImages p ?t)" and ?g = "\<lambda>x. int (the (?m x))"
    have order: "pi_displayOrder i = ?g (pi_id i)" if "i \<in> set ?L" for i
    proof -
      have "i \<in> set (images ?t)" "pi_id i \<in> set ids" using that by (auto simp: listed)
      then obtain j where "i = ?f j" unfolding rows by auto
      moreover from this have "pi_id i = pi_id j" by (simp split: option.split)
      moreover obtain k where "?m (pi_id i) = Some k"
        using \<open>pi_id i \<in> set ids\<close> by (metis map_of_zip_is_None length_upt minus_nat.diff_0 not_None_eq)
      ultimately show ?thesis by simp
    qed
    have ids_at: "?m (ids ! k) = Some k" if "k < length ids" for k
      using that assms(1) by (simp add: map_of_zip_nth)
    have "map pi_id ?L = ids"
    proof (rule sorted_by_rank [where g = ?g])
      have "distinct (map pi_id (images ?t))"
        using assms(2) arg_cong [OF ident, of "map fst"] unfolding r(2) by (simp add: identity_def comp_def)
      then have "distinct (map pi_id (getProductImages p ?t))"
        by (auto simp: getProductImages_def distinct_map distinct_filter distinct_sort intro: inj_on_subset)
      then show "distinct (map pi_id ?L)" by (rule distinct_map_filter)
      show "distinct ids" by (rule assms(1))
      show "set (map pi_id ?L) = set ids"
      proof (intro equalityI subsetI)
        fix x assume x: "x \<in> set ids"
        then obtain i where i: "i \<in> set (images s)" "pi_productId i = p" "pi_id i = x" using all by blast
        have "?f i \<in> set (images ?t)" unfolding rows set_map using i(1) by (rule imageI)
        moreover have "pi_id (?f i) = x" "pi_productId (?f i) = p" using i(2,3) by (simp_all split: option.split)
        ultimately have "?f i \<in> set ?L" using x unfolding set_filter listed by simp
        then show "x \<in> set (map pi_id ?L)" using \<open>pi_id (?f i) = x\<close> by force
      qed auto
      have "sorted (map pi_displayOrder ?L)" by (simp add: getProductImages_def sorted_filter)
      moreover have "map ?g (map pi_id ?L) = map pi_displayOrder ?L"
        unfolding map_map comp_def by (rule map_cong [OF refl], rule order [symmetric])
      ultimately show "sorted (map ?g (map pi_id ?L))" by (simp only:)
      have "map ?g ids = map int [0..<length ids]" by (rule nth_equalityI) (simp_all add: ids_at)
      then show "sorted (map ?g ids)" by (simp add: sorted_map)
      have "distinct (map ?g ids)" unfolding \<open>map ?g ids = map int [0..<length ids]\<close> by (simp add: distinct_map)
      then show "inj_on ?g (set ids)" by (simp add: distinct_map)
    qed
    then have "filter (\<lambda>i. i \<in> set ids) (map pi_id (getProductImages p ?t)) = ids" by (simp add: filter_map comp_def)
    then show ?thesis using r ident unnamed by simp
  qed
qed

subsection \<open>The worker\<close>

text \<open>No job carries a key of its own, so the one of the product, the name and the position is used.\<close>

definition image_job_key :: "image_job \<Rightarrow> string" where
  "image_job_key job = ''image-job:'' @ ij_productId job @ '':'' @ fi_originalname (ij_file job) @ '':'' @ show_int (ij_displayOrder job)"

definition handleImageProcessing ::
  "media_env \<Rightarrow> 'd once_cache \<Rightarrow> uuid \<Rightarrow> time \<Rightarrow> time \<Rightarrow> image_job \<Rightarrow> 'd idempotency \<times> media \<Rightarrow> (bool, 'd idempotency \<times> media) result" where
  "handleImageProcessing env ops newId now ended job ds =
     executeOnce ops (image_job_key job) (\<lambda>s. and_then (processQueuedImage env newId now job s) (\<lambda>_ s. (Inr (), s))) (24 * 60 * 60) now ended ds"

text \<open>
  A name is taken for a day - once a job has ended, a job with other bytes but the
  same product, file name and position is skipped without an error for the next 24 hours, even when
  the first image has been deleted meanwhile.
\<close>

lemma reused_name_skipped:
  assumes "once_cache ops" "handleImageProcessing env ops i now ended job (d, s) = (Inr True, (d', s'))"
    "ij_productId job' = ij_productId job" "fi_originalname (ij_file job') = fi_originalname (ij_file job)"
    "ij_displayOrder job' = ij_displayOrder job" "later < ended + 86400000"
  shows "handleImageProcessing env ops i' later ended' job' (d', t) = (Inr False, (d', t))"
proof -
  have key: "image_job_key job' = image_job_key job" using assms(3-5) by (simp add: image_job_key_def)
  have "oc_get ops (toCacheKey (image_job_key job)) later (id_cache d') \<noteq> None"
    using assms(2,6) by (auto simp: handleImageProcessing_def executeOnce_def Let_def once_cache.get_set [OF assms(1)] split: if_splits prod.splits sum.splits)
  then show ?thesis by (simp add: handleImageProcessing_def executeOnce_def Let_def key)
qed

subsection \<open>Examples\<close>

definition plain_sharp :: sharp where
  "plain_sharp = \<lparr>sp_metadata = (\<lambda>_. Some \<lparr>md_format = Some ''png'', md_width = Some 10, md_height = Some 10\<rparr>), sp_render = (\<lambda>_ b. Some b)\<rparr>"

definition plain_env :: media_env where
  "plain_env = \<lparr>en_sharp = plain_sharp, en_config = \<lparr>ic_maxFileSize = 100, ic_maxWidth = 4096, ic_maxHeight = 4096\<rparr>, en_moderation = None,
     en_disk = \<lparr>dk_write = (\<lambda>_. None), dk_unlink = (\<lambda>_. None), dk_baseUrl = ''http''\<rparr>, en_sha = (\<lambda>b. map (\<lambda>_. CHR ''a'') b), en_provider = ''local''\<rparr>"

definition cat :: image_file where
  "cat = \<lparr>fi_buffer = ''meow'', fi_originalname = ''Cat.PNG'', fi_mimetype = ''image/png'', fi_size = 4\<rparr>"

definition album :: media where
  "album = \<lparr>images = [], kept_files = [], jobs = []\<rparr>"

definition cat_key :: string where
  "cat_key = base_key ''p'' 5 ''aaaa'' ''cat''"

definition cat_image :: product_image where
  "cat_image =
     (let v = (\<lambda>n. \<lparr>iv_url = ''http/uploads/'' @ file_key cat_key n WEBP, iv_width = 10, iv_height = 10, iv_size = 4\<rparr>)
      in \<lparr>pi_id = ''i'', pi_productId = ''p'', pi_originalName = ''Cat.PNG'', pi_format = PNG, pi_mimeType = ''image/webp'',
          pi_originalWidth = 10, pi_originalHeight = 10, pi_originalSize = 4,
          pi_variants = \<lparr>im_thumbnail = v ''thumbnail'', im_medium = v ''medium'', im_original = v ''original''\<rparr>, pi_altText = None,
          pi_displayOrder = 0, pi_storageKey = cat_key, pi_storageProvider = ''local'', pi_createdAt = 5\<rparr>)"

definition cat_album :: media where
  "cat_album = \<lparr>images = [cat_image], kept_files = map (\<lambda>v. (file_key cat_key v WEBP, ''meow'')) variant_names, jobs = []\<rparr>"

lemma cat_name: "sanitizeFileName ''Cat.PNG'' = ''cat''"
  by code_simp

lemma show_five: "show_nat 5 = ''5''"
  by (simp add: show_nat.simps digit_char_def)

lemma cat_uploaded: "uploadSingleImage plain_env ''i'' 5 ''p'' cat None 0 album = (Inr cat_image, cat_album)"
  by (simp add: uploadSingleImage_def duplicate_of_def album_def validateImageContent_def plain_env_def createMarketXAsset_def validateImage_def
      plain_sharp_def getMimeType_def lower_text_def lower_char_def allowedFormats_def rendered_def side_def cat_def cat_name pick_def
      variant_names_def upload_file_def storage_url_def variants_record_def too_long_def getFormatFromMimeType_def cat_image_def cat_album_def
      cat_key_def base_key_def file_key_def show_five Let_def)

theorem upload_idempotent_witness:
  "uploadSingleImage plain_env ''j'' 9 ''p'' (cat\<lparr>fi_originalname := ''dog.webp''\<rparr>) None 3 cat_album = (Inr cat_image, cat_album)"
  by (rule upload_idempotent [OF cat_uploaded]) (simp_all add: album_def)

theorem deletion_leaves_files_witness:
  "map_of (kept_files (snd (deleteImage plain_env ''i'' cat_album))) (file_key (pi_storageKey cat_image) ''medium'' WEBP) \<noteq> None"
proof -
  obtain u where u: "deleteImage plain_env ''i'' cat_album = (Inr (), u)"
    by (simp add: deleteImage_def getImageById_def cat_album_def cat_image_def Let_def)
  have "duplicate_of plain_env ''p'' (fi_buffer cat) album = None" by (simp add: duplicate_of_def album_def)
  moreover have "fi_mimetype cat \<noteq> ''image/webp''" "''medium'' \<in> set variant_names" by (simp_all add: cat_def variant_names_def)
  ultimately show ?thesis
    unfolding u snd_conv by (rule deletion_leaves_files [OF cat_uploaded _ _ u, THEN conjunct2, THEN conjunct1])
qed

theorem one_image_per_content_witness:
  "cat_image = cat_image \<and> images (fold (run_media plain_env) [Upload_one ''i'' 5 ''p'' cat None 0, Upload_one ''j'' 9 ''p'' cat None 0] album) = [cat_image]"
proof -
  let ?xs = "[Upload_one ''i'' 5 ''p'' cat None 0, Upload_one ''j'' 9 ''p'' cat None 0]"
  have again: "uploadSingleImage plain_env ''j'' 9 ''p'' cat None 0 cat_album = (Inr cat_image, cat_album)"
    by (simp add: uploadSingleImage_def duplicate_of_def cat_album_def cat_image_def cat_key_def base_key_contains plain_env_def cat_def)
  have run: "fold (run_media plain_env) ?xs album = cat_album" by (simp add: cat_uploaded again)
  have of: "image_of plain_env ''meow'' cat_image"
    unfolding image_of_def by (rule exI [of _ 5], rule exI [of _ "''cat''"]) (simp add: cat_image_def cat_key_def plain_env_def)
  have hash: "\<forall>b. CHR ''-'' \<notin> set (en_sha plain_env b)" by (auto simp: plain_env_def)
  have fresh: "fresh_images plain_env ?xs album" by (simp add: cat_uploaded) (simp add: album_def cat_album_def cat_image_def)
  have "images album = []" "cat_image \<in> set (images cat_album)" by (simp_all add: album_def cat_album_def)
  then have "cat_image = cat_image"
    using one_image_per_content [OF _ hash fresh run [symmetric] _ _ refl of of] by blast
  then show ?thesis unfolding run by (simp add: cat_album_def)
qed

theorem reorder_exact_witness:
  "map pi_id (getProductImages ''p'' (snd (reorderImages ''p'' [''i''] cat_album))) = [''i'']"
proof -
  have ok: "reorderImages ''p'' [''i''] cat_album = (Inr [cat_image], cat_album)"
    by (simp add: reorderImages_def getProductImages_def cat_album_def cat_image_def set_order_def Let_def)
  have "filter (\<lambda>i. i \<in> set [''i'']) (map pi_id [cat_image]) = [''i'']"
    using reorder_exact [OF _ _ ok] by (simp add: cat_album_def)
  then show ?thesis unfolding ok by (simp add: getProductImages_def cat_album_def cat_image_def)
qed

definition cat_job :: image_job where
  "cat_job = \<lparr>ij_productId = ''p'', ij_file = cat, ij_dto = None, ij_displayOrder = 0\<rparr>"

theorem reused_name_skipped_witness:
  "handleImageProcessing plain_env list_once ''j'' 7 8 (cat_job\<lparr>ij_file := cat\<lparr>fi_buffer := ''purr''\<rparr>\<rparr>)
     (\<lparr>id_cache = [(toCacheKey (image_job_key cat_job), (6, 86400006))], inFlight = []\<rparr>, album)
   = (Inr False, (\<lparr>id_cache = [(toCacheKey (image_job_key cat_job), (6, 86400006))], inFlight = []\<rparr>, album))"
proof -
  have "handleImageProcessing plain_env list_once ''i'' 5 6 cat_job (\<lparr>id_cache = [], inFlight = []\<rparr>, album)
      = (Inr True, (\<lparr>id_cache = [(toCacheKey (image_job_key cat_job), (6, 86400006))], inFlight = []\<rparr>, cat_album))"
    by (simp add: handleImageProcessing_def executeOnce_def processQueuedImage_def cat_job_def cat_uploaded list_once_def Let_def)
  then show ?thesis by (rule reused_name_skipped [OF list_once.once_cache_axioms]) (simp_all add: cat_job_def)
qed

end
