(* ===== verification/FeatureFlags.thy ===== *)
theory FeatureFlags
  imports Prelude Retry "HOL-Library.Word"
begin

unbundle bit_operations_syntax

text \<open>
  \<open>FeatureFlagsService\<close> (src/src/feature-flags/feature-flag.service.ts) with the cache in front of its
  table (redis-caching/redis-cache.service.ts). The store of the cache is the argument \<open>ops\<close>; locale
  \<open>flag_store\<close> states what the service relies on: a key answers what was last set under it or, once
  its time is over, nothing. Whether the store refuses to keep \<open>null\<close> is an argument too. The hash of a
  user is computed on 32 bits the way JavaScript does. Timestamps of rows are left out.
\<close>

subsection \<open>Data\<close>

record feature_flag =
  ff_key :: string
  ff_enabled :: bool
  ff_description :: "string option"
  ff_environmentDefaults :: "(string \<times> bool) list option"
  ff_userOverrides :: "(string \<times> bool) list option"
  ff_rolloutPercentage :: "number option"

record flag_dto =
  fd_key :: "string option"
  fd_enabled :: "bool option"
  fd_description :: "string option"
  fd_environmentDefaults :: "(string \<times> bool) list option"
  fd_rolloutPercentage :: "number option"

text \<open>The store keeps a flag or \<open>null\<close> under a key; it answers \<open>None\<close> for both \<open>null\<close> and nothing.\<close>

record 'r flag_cache =
  fs_get :: "string \<Rightarrow> time \<Rightarrow> 'r \<Rightarrow> feature_flag option"
  fs_set :: "string \<Rightarrow> feature_flag option \<Rightarrow> int \<Rightarrow> time \<Rightarrow> 'r \<Rightarrow> 'r"
  fs_del :: "string \<Rightarrow> 'r \<Rightarrow> 'r"
  fs_null_error :: "error option"

locale flag_store =
  fixes ops :: "'r flag_cache"
  assumes get_set_same: "fs_get ops k now (fs_set ops k v ttl t r) \<in> {v, None}"
    and get_set_other: "k \<noteq> k' \<Longrightarrow> fs_get ops k now (fs_set ops k' v ttl t r) = fs_get ops k now r"
    and get_del: "fs_get ops k now (fs_del ops k' r) = (if k = k' then None else fs_get ops k now r)"

record 'r flags =
  fl_rows :: "feature_flag list"
  fl_store :: 'r
  fl_hits :: nat
  fl_misses :: nat

definition FEATURE_FLAG :: int where
  "FEATURE_FLAG = 60"

definition featureFlag_key :: "string \<Rightarrow> string" where
  "featureFlag_key key = ''feature_flag:'' @ key"

subsection \<open>The cache\<close>

definition redis_get :: "'r flag_cache \<Rightarrow> string \<Rightarrow> time \<Rightarrow> 'r flags \<Rightarrow> feature_flag option \<times> 'r flags" where
  "redis_get ops key now s =
     (case fs_get ops key now (fl_store s) of
        Some v \<Rightarrow> (Some v, s\<lparr>fl_hits := fl_hits s + 1\<rparr>)
      | None \<Rightarrow> (None, s\<lparr>fl_misses := fl_misses s + 1\<rparr>))"

definition redis_set ::
  "'r flag_cache \<Rightarrow> string \<Rightarrow> feature_flag option \<Rightarrow> int \<Rightarrow> time \<Rightarrow> 'r flags \<Rightarrow> (unit, 'r flags) result" where
  "redis_set ops key v ttl now s =
     (case (v, fs_null_error ops) of
        (None, Some e) \<Rightarrow> (Inl e, s)
      | _ \<Rightarrow> (Inr (), s\<lparr>fl_store := fs_set ops key v ttl now (fl_store s)\<rparr>))"

definition redis_del :: "'r flag_cache \<Rightarrow> string \<Rightarrow> 'r flags \<Rightarrow> 'r flags" where
  "redis_del ops key s = s\<lparr>fl_store := fs_del ops key (fl_store s)\<rparr>"

definition redis_getOrSet ::
  "'r flag_cache \<Rightarrow> string \<Rightarrow> ('r flags \<Rightarrow> feature_flag option) \<Rightarrow> int \<Rightarrow> time \<Rightarrow> 'r flags \<Rightarrow> (feature_flag option, 'r flags) result" where
  "redis_getOrSet ops key factory ttl now s =
     (case redis_get ops key now s of
        (Some cached, s) \<Rightarrow> (Inr (Some cached), s)
      | (None, s) \<Rightarrow>
        let v = factory s in and_then (redis_set ops key v ttl now s) (\<lambda>_ s. (Inr v, s)))"

definition redis_stats :: "'r flags \<Rightarrow> nat \<times> nat \<times> nat \<times> number option" where
  "redis_stats s =
     (let total = fl_hits s + fl_misses s
      in (fl_hits s, fl_misses s, total, if total > 0 then Some (of_nat (fl_hits s) / of_nat total * 100) else None))"

definition redis_resetStats :: "'r flags \<Rightarrow> 'r flags" where
  "redis_resetStats s = s\<lparr>fl_hits := 0, fl_misses := 0\<rparr>"

subsection \<open>The flags\<close>

definition spread_flag :: "flag_dto \<Rightarrow> feature_flag \<Rightarrow> feature_flag" where
  "spread_flag dto f =
     f\<lparr>ff_key := pick (ff_key f) (fd_key dto), ff_enabled := pick (ff_enabled f) (fd_enabled dto),
       ff_description := (case fd_description dto of None \<Rightarrow> ff_description f | Some d \<Rightarrow> Some d),
       ff_environmentDefaults := (case fd_environmentDefaults dto of None \<Rightarrow> ff_environmentDefaults f | Some d \<Rightarrow> Some d),
       ff_rolloutPercentage := (case fd_rolloutPercentage dto of None \<Rightarrow> ff_rolloutPercentage f | Some p \<Rightarrow> Some p)\<rparr>"

text \<open>
  \<open>save\<close> of an entity with a key of the client: it inserts a row with the defaults of the columns, or
  writes the named columns of the row that has the key already.
\<close>

definition blank_flag :: "string \<Rightarrow> feature_flag" where
  "blank_flag key = \<lparr>ff_key = key, ff_enabled = False, ff_description = None, ff_environmentDefaults = None,
     ff_userOverrides = None, ff_rolloutPercentage = None\<rparr>"

definition create_flag :: "string \<Rightarrow> flag_dto \<Rightarrow> 'r flags \<Rightarrow> 'r flags" where
  "create_flag key dto s =
     (let dto = dto\<lparr>fd_key := Some key\<rparr>;
          row = (case tbl_find ff_key key (fl_rows s) of None \<Rightarrow> blank_flag key | Some f \<Rightarrow> f)
      in s\<lparr>fl_rows := tbl_save ff_key (spread_flag dto row) (fl_rows s)\<rparr>)"

definition findOne_flag :: "string \<Rightarrow> 'r flags \<Rightarrow> error + feature_flag" where
  "findOne_flag key s =
     (case tbl_find ff_key key (fl_rows s) of
        None \<Rightarrow> Inl (NotFoundException [Txt (''Feature flag '' @ [CHR 0x22] @ key @ [CHR 0x22] @ '' not found'')]) | Some f \<Rightarrow> Inr f)"

text \<open>A row is saved, then the entry of the key asked for leaves the cache.\<close>

definition save_flag :: "'r flag_cache \<Rightarrow> string \<Rightarrow> feature_flag \<Rightarrow> 'r flags \<Rightarrow> 'r flags" where
  "save_flag ops key f s = redis_del ops (featureFlag_key key) (s\<lparr>fl_rows := tbl_save ff_key f (fl_rows s)\<rparr>)"

definition update_flag :: "'r flag_cache \<Rightarrow> string \<Rightarrow> flag_dto \<Rightarrow> 'r flags \<Rightarrow> (feature_flag, 'r flags) result" where
  "update_flag ops key dto s =
     (case findOne_flag key s of
        Inl e \<Rightarrow> (Inl e, s)
      | Inr f \<Rightarrow> let saved = spread_flag dto f in (Inr saved, save_flag ops key saved s))"

definition remove_flag :: "'r flag_cache \<Rightarrow> string \<Rightarrow> 'r flags \<Rightarrow> (unit, 'r flags) result" where
  "remove_flag ops key s =
     (case findOne_flag key s of
        Inl e \<Rightarrow> (Inl e, s)
      | Inr f \<Rightarrow> (Inr (), redis_del ops (featureFlag_key key) (s\<lparr>fl_rows := filter (\<lambda>g. ff_key g \<noteq> ff_key f) (fl_rows s)\<rparr>)))"

definition setUserOverride :: "'r flag_cache \<Rightarrow> string \<Rightarrow> string \<Rightarrow> bool \<Rightarrow> 'r flags \<Rightarrow> (feature_flag, 'r flags) result" where
  "setUserOverride ops key userId v s =
     (case findOne_flag key s of
        Inl e \<Rightarrow> (Inl e, s)
      | Inr f \<Rightarrow>
        let saved = f\<lparr>ff_userOverrides := Some (map_set userId v (pick [] (ff_userOverrides f)))\<rparr> in (Inr saved, save_flag ops key saved s))"

definition removeUserOverride :: "'r flag_cache \<Rightarrow> string \<Rightarrow> string \<Rightarrow> 'r flags \<Rightarrow> (feature_flag, 'r flags) result" where
  "removeUserOverride ops key userId s =
     (case findOne_flag key s of
        Inl e \<Rightarrow> (Inl e, s)
      | Inr f \<Rightarrow>
        let saved = f\<lparr>ff_userOverrides := Some (map_delete userId (pick [] (ff_userOverrides f)))\<rparr> in (Inr saved, save_flag ops key saved s))"

subsection \<open>Evaluation\<close>

text \<open>
  \<open>hash * 33\<close> is a multiplication of numbers, \<open>^\<close> takes both operands to 32 bits and gives a
  signed number, \<open>hash >>> 0\<close> reads its bits as an unsigned one.
\<close>

definition js_xor :: "int \<Rightarrow> int \<Rightarrow> int" where
  "js_xor a b = sint (word_of_int a XOR word_of_int b :: 32 word)"

definition unsigned_32 :: "int \<Rightarrow> int" where
  "unsigned_32 a = a mod 2 ^ 32"

definition hash_text :: "string \<Rightarrow> int" where
  "hash_text str = fold (\<lambda>c hash. js_xor (hash * 33) (of_char c)) str 5381"

definition hashBucket :: "string \<Rightarrow> string \<Rightarrow> int" where
  "hashBucket userId key = \<bar>unsigned_32 (hash_text (userId @ '':'' @ key))\<bar> mod 100"

definition evaluate_flag :: "string option \<Rightarrow> string \<Rightarrow> string option \<Rightarrow> feature_flag \<Rightarrow> bool" where
  "evaluate_flag nodeEnv key userId f =
     (case (if truthy_text userId then map_of (pick [] (ff_userOverrides f)) (the userId) else None) of
        Some v \<Rightarrow> v
      | None \<Rightarrow>
        if ff_rolloutPercentage f \<noteq> None \<and> truthy_text userId
        then of_int (hashBucket (the userId) key) < the (ff_rolloutPercentage f)
        else case map_of (pick [] (ff_environmentDefaults f)) (pick ''development'' nodeEnv) of
               Some v \<Rightarrow> v | None \<Rightarrow> ff_enabled f)"

definition isEnabled :: "'r flag_cache \<Rightarrow> string option \<Rightarrow> string \<Rightarrow> string option \<Rightarrow> time \<Rightarrow> 'r flags \<Rightarrow> (bool, 'r flags) result" where
  "isEnabled ops nodeEnv key userId now s =
     and_then (redis_getOrSet ops (featureFlag_key key) (\<lambda>s. tbl_find ff_key key (fl_rows s)) FEATURE_FLAG now s) (\<lambda>flag s.
       case flag of
         None \<Rightarrow> (Inr False, s)
       | Some f \<Rightarrow> (Inr (evaluate_flag nodeEnv key userId f), s))"

subsection \<open>The hash\<close>

lemma js_xor_range: "- (2 ^ 31) \<le> js_xor a b" "js_xor a b < 2 ^ 31"
  using sint_ge [of "word_of_int a XOR word_of_int b :: 32 word"] sint_lt [of "word_of_int a XOR word_of_int b :: 32 word"]
  by (simp_all add: js_xor_def)

lemma hash_text_snoc: "hash_text (str @ [c]) = js_xor (hash_text str * 33) (of_char c)"
  by (simp add: hash_text_def)

lemma hash_text_range: "- (2 ^ 31) \<le> hash_text str \<and> hash_text str < 2 ^ 31"
proof (cases str rule: rev_cases)
  case Nil
  then show ?thesis by (simp add: hash_text_def)
next
  case (snoc ys c)
  then show ?thesis using js_xor_range [of "hash_text ys * 33" "of_char c"] by (simp add: hash_text_snoc)
qed

definition hash_word :: "string \<Rightarrow> 32 word" where
  "hash_word str = fold (\<lambda>c hash. (hash * 33) XOR of_char c) str 5381"

lemma hash_text_word: "hash_text str = sint (hash_word str)"
proof (induction str rule: rev_induct)
  case Nil
  show ?case by (simp add: hash_text_def hash_word_def)
next
  case (snoc c str)
  have "word_of_int (sint (hash_word str) * 33) = hash_word str * (33 :: 32 word)" by (simp flip: of_int_mult add: of_int_mult)
  moreover have "word_of_int (of_char c) = (of_char c :: 32 word)" by (simp add: of_char_def)
  ultimately show ?case using snoc by (simp add: hash_text_snoc js_xor_def hash_word_def)
qed

lemma hash_bucket_exact_range: "0 \<le> hashBucket u key" "hashBucket u key < 100"
  by (simp_all add: hashBucket_def)

text \<open>
  The bucket of a user is computed exactly - no product on the way leaves the integers
  that JavaScript represents exactly, so the bucket is the one of the hash on 32-bit words, and it is
  between 0 and 99.
\<close>

lemma hash_bucket_exact:
  "\<bar>hash_text str * 33\<bar> < 2 ^ 53 \<and> hashBucket userId key = uint (hash_word (userId @ '':'' @ key)) mod 100
   \<and> hashBucket userId key \<in> {0..<100}"
proof (intro conjI)
  show "\<bar>hash_text str * 33\<bar> < 2 ^ 53" using hash_text_range [of str] by (auto simp: abs_less_iff)
  have "unsigned_32 (sint w) = uint w" for w :: "32 word"
    by (simp add: unsigned_32_def uint_sint take_bit_eq_mod)
  then show "hashBucket userId key = uint (hash_word (userId @ '':'' @ key)) mod 100"
    by (simp add: hashBucket_def hash_text_word)
  show "hashBucket userId key \<in> {0..<100}" by (simp add: hashBucket_def)
qed

subsection \<open>Roll-out\<close>

text \<open>
  A roll-out only ever grows - for users without an override, raising the percentage
  keeps every user who had the feature; at 0 nobody has it, at 100 everybody; and whatever the
  percentage, the user with an override has what the override says.
\<close>

lemma rollout_monotone:
  assumes "ff_rolloutPercentage f = Some p" "u \<noteq> []"
  shows "(\<forall>v. map_of (pick [] (ff_userOverrides f)) u = Some v \<longrightarrow> evaluate_flag env key (Some u) f = v)
    \<and> (map_of (pick [] (ff_userOverrides f)) u = None \<longrightarrow>
        (\<forall>q \<ge> p. evaluate_flag env key (Some u) f \<longrightarrow> evaluate_flag env key (Some u) (f\<lparr>ff_rolloutPercentage := Some q\<rparr>))
        \<and> (p \<le> 0 \<longrightarrow> \<not> evaluate_flag env key (Some u) f) \<and> (p \<ge> 100 \<longrightarrow> evaluate_flag env key (Some u) f))"
proof -
  have low: "0 \<le> (of_int (hashBucket u key) :: number)" and high: "(of_int (hashBucket u key) :: number) < 100"
    using hash_bucket_exact_range [of u key] by simp_all
  show ?thesis using assms low high by (auto simp: evaluate_flag_def)
qed

subsection \<open>The cache in front of the table\<close>

datatype flag_op =
    Create_flag string flag_dto
  | Update_flag string flag_dto
  | Remove_flag string
  | Override string string bool
  | Drop_override string string
  | Ask "string option" string "string option" time

primrec run_flag :: "'r flag_cache \<Rightarrow> flag_op \<Rightarrow> 'r flags \<Rightarrow> 'r flags" where
  "run_flag ops (Create_flag key dto) s = create_flag key dto s"
| "run_flag ops (Update_flag key dto) s = snd (update_flag ops key dto s)"
| "run_flag ops (Remove_flag key) s = snd (remove_flag ops key s)"
| "run_flag ops (Override key u v) s = snd (setUserOverride ops key u v s)"
| "run_flag ops (Drop_override key u) s = snd (removeUserOverride ops key u s)"
| "run_flag ops (Ask env key u now) s = snd (isEnabled ops env key u now s)"

text \<open>New flags have new keys, and no update names another key.\<close>

fun careful :: "'r flag_cache \<Rightarrow> flag_op list \<Rightarrow> 'r flags \<Rightarrow> bool" where
  "careful ops [] s \<longleftrightarrow> True"
| "careful ops (x # xs) s \<longleftrightarrow>
     (case x of Create_flag key dto \<Rightarrow> key \<notin> ff_key ` set (fl_rows s) | Update_flag key dto \<Rightarrow> fd_key dto \<in> {None, Some key} | _ \<Rightarrow> True)
     \<and> careful ops xs (run_flag ops x s)"

definition coherent :: "'r flag_cache \<Rightarrow> 'r flags \<Rightarrow> bool" where
  "coherent ops s \<longleftrightarrow> (\<forall>key now f. fs_get ops (featureFlag_key key) now (fl_store s) = Some f \<longrightarrow> tbl_find ff_key key (fl_rows s) = Some f)"

lemma featureFlag_key_eq [simp]: "featureFlag_key k = featureFlag_key k' \<longleftrightarrow> k = k'"
  by (simp add: featureFlag_key_def)

lemma find_without: "tbl_find key k (filter (\<lambda>g. key g \<noteq> k') t) = (if k = k' then None else tbl_find key k t)"
  by (induction t) auto

context flag_store
begin

lemma coherentD: "coherent ops s \<Longrightarrow> fs_get ops (featureFlag_key key) now (fl_store s) = Some f \<Longrightarrow> tbl_find ff_key key (fl_rows s) = Some f"
  unfolding coherent_def by blast

lemma coherent_save:
  assumes "coherent ops s" "ff_key f = key"
  shows "coherent ops (save_flag ops key f s)"
  using assms unfolding coherent_def save_flag_def redis_del_def by (auto simp: get_del split: if_splits)

lemma coherent_remove:
  assumes "coherent ops s"
  shows "coherent ops (redis_del ops (featureFlag_key key) (s\<lparr>fl_rows := filter (\<lambda>g. ff_key g \<noteq> key) (fl_rows s)\<rparr>))"
  using assms unfolding coherent_def redis_del_def by (auto simp: get_del find_without split: if_splits)

lemma coherent_asked:
  assumes "coherent ops s" "redis_getOrSet ops (featureFlag_key key) (\<lambda>s. tbl_find ff_key key (fl_rows s)) ttl now s = (r, t)"
  shows "coherent ops t \<and> r = (case tbl_find ff_key key (fl_rows s) of
       Some f \<Rightarrow> Inr (Some f) | None \<Rightarrow> (case fs_null_error ops of None \<Rightarrow> Inr None | Some e \<Rightarrow> Inl e))"
proof (cases "fs_get ops (featureFlag_key key) now (fl_store s)")
  case (Some f)
  then have "tbl_find ff_key key (fl_rows s) = Some f" using assms(1) by (rule coherentD [rotated])
  moreover have "r = Inr (Some f)" "t = s\<lparr>fl_hits := fl_hits s + 1\<rparr>"
    using assms(2) Some by (simp_all add: redis_getOrSet_def redis_get_def)
  ultimately show ?thesis using assms(1) by (simp add: coherent_def)
next
  case None
  let ?v = "tbl_find ff_key key (fl_rows s)" and ?s = "s\<lparr>fl_misses := fl_misses s + 1\<rparr>"
  show ?thesis
  proof (cases "?v = None \<and> fs_null_error ops \<noteq> None")
    case True
    then show ?thesis using assms None by (auto simp: redis_getOrSet_def redis_get_def redis_set_def coherent_def Let_def)
  next
    case False
    then have t: "r = Inr ?v" "t = ?s\<lparr>fl_store := fs_set ops (featureFlag_key key) ?v ttl now (fl_store s)\<rparr>"
      using assms(2) None by (auto simp: redis_getOrSet_def redis_get_def redis_set_def Let_def split: option.splits)
    have "tbl_find ff_key k (fl_rows s) = Some f"
      if "fs_get ops (featureFlag_key k) later (fs_set ops (featureFlag_key key) ?v ttl now (fl_store s)) = Some f" for k later f
    proof (cases "k = key")
      case True
      then show ?thesis using that get_set_same [of "featureFlag_key key" later ?v ttl now "fl_store s"] by auto
    next
      case False
      then show ?thesis using that assms(1) by (simp add: get_set_other coherent_def)
    qed
    then have "coherent ops t" using t by (simp add: coherent_def)
    then show ?thesis using t(1) False by (auto split: option.split)
  qed
qed

lemma coherent_step:
  assumes "coherent ops s" "careful ops [x] s"
  shows "coherent ops (run_flag ops x s)"
proof (cases x)
  case (Create_flag key dto)
  have new: "tbl_find ff_key key (fl_rows s) = None" using assms(2) Create_flag by (simp add: tbl_find_none_iff)
  show ?thesis
    using assms(1) new unfolding coherent_def Create_flag
    by (auto simp: create_flag_def spread_flag_def pick_def blank_flag_def Let_def)
next
  case (Update_flag key dto)
  then have "fd_key dto \<in> {None, Some key}" using assms(2) by simp
  then have "ff_key (spread_flag dto f) = key" if "findOne_flag key s = Inr f" for f
    using that by (auto simp: spread_flag_def pick_def findOne_flag_def split: option.splits dest: tbl_find_key)
  then show ?thesis using assms(1) Update_flag by (auto simp: update_flag_def Let_def coherent_save split: sum.split)
next
  case (Remove_flag key)
  have "ff_key f = key" if "findOne_flag key s = Inr f" for f
    using that by (auto simp: findOne_flag_def split: option.splits dest: tbl_find_key)
  then show ?thesis using assms(1) Remove_flag by (auto simp: remove_flag_def coherent_remove split: sum.split)
next
  case (Override key u v)
  have "ff_key f = key" if "findOne_flag key s = Inr f" for f
    using that by (auto simp: findOne_flag_def split: option.splits dest: tbl_find_key)
  then show ?thesis using assms(1) Override by (auto simp: setUserOverride_def Let_def coherent_save split: sum.split)
next
  case (Drop_override key u)
  have "ff_key f = key" if "findOne_flag key s = Inr f" for f
    using that by (auto simp: findOne_flag_def split: option.splits dest: tbl_find_key)
  then show ?thesis using assms(1) Drop_override by (auto simp: removeUserOverride_def Let_def coherent_save split: sum.split)
next
  case (Ask env key u now)
  obtain r t where rt: "redis_getOrSet ops (featureFlag_key key) (\<lambda>s. tbl_find ff_key key (fl_rows s)) FEATURE_FLAG now s = (r, t)" by fastforce
  then have "run_flag ops x s = t" using Ask by (cases r) (auto simp: isEnabled_def split: option.split)
  then show ?thesis using coherent_asked [OF assms(1) rt] by simp
qed

lemma coherent_run: "coherent ops s \<Longrightarrow> careful ops xs s \<Longrightarrow> coherent ops (fold (run_flag ops) xs s)"
proof (induction xs arbitrary: s)
  case (Cons x xs)
  have "careful ops [x] s" "careful ops xs (run_flag ops x s)" using Cons.prems(2) by simp_all
  then show ?case using Cons.IH coherent_step [OF Cons.prems(1)] by simp
qed simp

end

text \<open>
  Property C8: over a store that answers what was last set under a key or nothing, empty at the start,
  and with operations that run one after the other, any history of
  creations, changes, overrides, deletions and questions that creates flags only under keys not in the table and
  gives no flag another key leaves a cache that is never stale: whatever the life of its entries, a question is
  answered by the rules (override of the user, roll-out, environment, global) on the row that is in the
  table now, and "off" when there is none - or fails, when the store refuses to keep null.
\<close>

theorem flags_never_stale:
  assumes "flag_store ops" "\<forall>k t. fs_get ops k t (fl_store s0) = None" "careful ops xs s0" "s = fold (run_flag ops) xs s0"
  shows "fst (isEnabled ops env key u now s) =
    (case tbl_find ff_key key (fl_rows s) of
       Some f \<Rightarrow> Inr (evaluate_flag env key u f)
     | None \<Rightarrow> (case fs_null_error ops of None \<Rightarrow> Inr False | Some e \<Rightarrow> Inl e))"
proof -
  have "coherent ops s0" using assms(2) by (simp add: coherent_def)
  then have "coherent ops s" using flag_store.coherent_run [OF assms(1)] assms(3,4) by blast
  moreover obtain r t where rt: "redis_getOrSet ops (featureFlag_key key) (\<lambda>s. tbl_find ff_key key (fl_rows s)) FEATURE_FLAG now s = (r, t)"
    by fastforce
  ultimately have "r = (case tbl_find ff_key key (fl_rows s) of
       Some f \<Rightarrow> Inr (Some f) | None \<Rightarrow> (case fs_null_error ops of None \<Rightarrow> Inr None | Some e \<Rightarrow> Inl e))"
    using flag_store.coherent_asked [OF assms(1)] by blast
  then show ?thesis using rt by (simp add: isEnabled_def split: option.split)
qed

text \<open>
  Creating a flag under a key that exists overwrites its row but not its entry in the
  cache: as long as the store keeps the entry, users are answered from the row that is gone.
\<close>

lemma recreated_flag_is_stale:
  assumes "fs_get ops (featureFlag_key key) now (fl_store s) = Some f"
    and "fd_enabled dto = Some (\<not> ff_enabled f)" "tbl_find ff_key key (fl_rows s) = Some f"
  shows "fst (isEnabled ops env key u now (create_flag key dto s)) = Inr (evaluate_flag env key u f)
    \<and> (\<exists>g. tbl_find ff_key key (fl_rows (create_flag key dto s)) = Some g \<and> ff_enabled g = (\<not> ff_enabled f))"
  using assms by (simp add: isEnabled_def redis_getOrSet_def redis_get_def create_flag_def spread_flag_def pick_def)

subsection \<open>A store\<close>

definition list_flag_store :: "(string \<times> feature_flag option \<times> time) list flag_cache" where
  "list_flag_store =
     \<lparr>fs_get = (\<lambda>k now r. case map_of r k of Some (v, t) \<Rightarrow> if now < t then v else None | None \<Rightarrow> None),
      fs_set = (\<lambda>k v ttl t r. map_set k (v, t + ttl * 1000) r), fs_del = map_delete, fs_null_error = None\<rparr>"

interpretation list_flags: flag_store list_flag_store
  by unfold_locales (auto simp: list_flag_store_def split: option.splits if_splits)

definition dark :: feature_flag where
  "dark = \<lparr>ff_key = ''d'', ff_enabled = True, ff_description = None, ff_environmentDefaults = None,
     ff_userOverrides = Some [(''u'', False)], ff_rolloutPercentage = Some 100\<rparr>"

definition no_flag_data :: flag_dto where
  "no_flag_data = \<lparr>fd_key = None, fd_enabled = None, fd_description = None, fd_environmentDefaults = None, fd_rolloutPercentage = None\<rparr>"

definition no_flags :: "(string \<times> feature_flag option \<times> time) list flags" where
  "no_flags = \<lparr>fl_rows = [], fl_store = [], fl_hits = 0, fl_misses = 0\<rparr>"

lemma dark_simps [simp]:
  "ff_key dark = ''d''" "ff_enabled dark" "ff_userOverrides dark = Some [(''u'', False)]" "ff_rolloutPercentage dark = Some 100"
  by (simp_all add: dark_def)

theorem rollout_monotone_witness:
  "evaluate_flag None ''d'' (Some ''v'') dark \<and> \<not> evaluate_flag None ''d'' (Some ''u'') dark"
  using rollout_monotone [of dark 100 "''v''" None "''d''"] rollout_monotone [of dark 100 "''u''" None "''d''"] by (auto simp: pick_def)

theorem flags_never_stale_witness:
  "fst (isEnabled list_flag_store None ''d'' (Some ''v'') 9
     (fold (run_flag list_flag_store) [Create_flag ''d'' (no_flag_data\<lparr>fd_enabled := Some True\<rparr>), Ask None ''d'' None 5,
       Update_flag ''d'' (no_flag_data\<lparr>fd_enabled := Some False\<rparr>)] no_flags)) = Inr False"
  using flags_never_stale [of list_flag_store no_flags
      "[Create_flag ''d'' (no_flag_data\<lparr>fd_enabled := Some True\<rparr>), Ask None ''d'' None 5, Update_flag ''d'' (no_flag_data\<lparr>fd_enabled := Some False\<rparr>)]"
      _ None "''d''" "Some ''v''" 9, OF list_flags.flag_store_axioms _ _ refl]
  by (simp add: no_flags_def no_flag_data_def list_flag_store_def create_flag_def spread_flag_def blank_flag_def pick_def isEnabled_def
      redis_getOrSet_def redis_get_def redis_set_def update_flag_def findOne_flag_def save_flag_def redis_del_def evaluate_flag_def Let_def)

definition off :: flag_dto where
  "off = no_flag_data\<lparr>fd_enabled := Some False\<rparr>"

definition dark_flags :: "(string \<times> feature_flag option \<times> time) list flags" where
  "dark_flags = no_flags\<lparr>fl_rows := [dark], fl_store := [(featureFlag_key ''d'', Some dark, 9)]\<rparr>"

theorem recreated_flag_is_stale_witness:
  "fst (isEnabled list_flag_store None ''d'' None 5 (create_flag ''d'' off dark_flags)) = Inr (evaluate_flag None ''d'' None dark)"
  by (rule recreated_flag_is_stale [THEN conjunct1])
    (simp_all add: dark_flags_def no_flags_def list_flag_store_def off_def no_flag_data_def)

end
