(* ===== verification/Spec2Isabelle.thy ===== *)
theory Spec2Isabelle
  imports Pricing Products Lifecycle Database Inventory Rewards Orders Payments Escrow Disputes AutoRelease
    Milestones Refunds PaymentMonitor Coupons RateLimit Calendar Subscriptions Fraud Cache Retry DeadLetter Notifications
    Categories Wishlists Shipping Verification WebhookGuard Webhooks Wallet Auth Recommendation Listings Media FeatureFlags
begin

text \<open>
  A verification development for the MarketX backend (src/src, NestJS services in TypeScript).

  The program. MarketX is a marketplace: sellers list products with prices in XLM, USDC or USD;
  buyers place orders, which reserve stock; an order is paid by a transaction on the Stellar
  network that the payments service validates; the money may sit on an escrow account until it
  is released, refunded or split after a dispute; a daily job releases escrows seven days after
  delivery; paid orders earn reward points that reduce later payments. The services share one
  PostgreSQL database through TypeORM repositories and talk to each other by method calls and
  by events.

  How it is modelled. Every method of a service is a function from its arguments and the state of
  the backend to a result and a new state; a result is the value returned or the exception
  thrown, in the order in which the code runs, so that a throw keeps what was saved before it.
  The state is the record \<open>db\<close> of theory Database: one table per entity, the log of emitted
  events, the in-memory catalogue, and the ledger of payments the Stellar network accepted. The
  clock, new ids, the exchange rates, the network and the database driver are arguments.
  JavaScript numbers are exact rationals, except where the code compares a computed sum strictly
  (the settlement of an escrow), which theory Doubles rounds to binary64; elsewhere that rounding is
  outside the model. BigInt is \<open>int\<close>; hashes on 32 bits use \<open>word\<close>; amounts are rounded to the scale
  of their column whenever a row is saved. The later components (from Subscriptions on) keep the same
  style with a state record of their own, made of the tables and caches their service uses.

  The theories, in the order of their imports:

  Prelude: values, exceptions, statements that may throw, loops, tables, and the interface of a
  repository (locale \<open>repository\<close>, interpreted for every table in Database).

  Decimal: the text of decimal numbers, with the round trip between a number and its text.

  Pricing: products/services/pricing.service.ts. Minor units and decimal strings, conversion with
  half-up rounding, order totals, price validation. Its theorems bound the error of a conversion
  by half a unit, and show the round trip and the order total exact.

  Products: products/products.service.ts. The catalogue and its price history; the two columns of
  every price agree in every reachable catalogue, and only the seller changes a product.

  Lifecycle: common/validators/status-transition.validator.ts, the tables of orders and escrows,
  the subscriber orders/subscribers/order-state.subscriber.ts and the state machine of disputes.
  Locale \<open>lifecycle\<close> (and \<open>ranked_lifecycle\<close>) proves once what a table of statuses without
  cycles gives: histories are bounded and terminal statuses final.

  Database: the entities, the events, \<open>dataSource.transaction\<close>, and the decimal columns with the
  driver that reads them (locale \<open>decimal_driver\<close>, interpreted for a driver that returns numbers
  and for one that returns text, as the PostgreSQL driver does).

  Inventory: inventory/inventory.service.ts. Locale \<open>reservation\<close> is the abstract contract of
  reserving, releasing and committing stock; the checkout path on products and the order path on
  listings are its two interpretations, from which the absence of overselling and the round trips
  follow.

  Rewards: rewards/rewards.service.ts. Orders: orders/orders.service.ts. Payments:
  payments/payments.service.ts, with the life of payments as the step relation \<open>payment_step\<close>.

  Doubles: rounding to the nearest binary64 number, ties to even, with the numbers it leaves alone.

  Escrow: escrowes/escrow.service.ts. The accounting theorem says what the account of an escrow
  has paid in every reachable state on a network that accepts every payment; the error theorems
  say what a refused payment leaves behind.

  Disputes: disputes/disputes.service.ts; every operation follows the table of disputes, raising
  a dispute freezes the escrow, settling it pays the named parts or, when their rounded sum is not
  the amount, throws. AutoRelease:
  scheduler/escrow-auto-release.task.ts; the job pays exactly what is due, once.

  Milestones: milestones/milestones.service.ts and the method of transactions/transactions.service.ts
  it calls. What the ORM loads for the relation from a milestone to its order is an argument; the
  entity declares a join column of its own that no code writes, so a release throws after the
  milestone was saved, and lemmas about a relation that finds the order say so. Refunds: refunds/refunds.service.ts, return requests and reviews.

  PaymentMonitor: payments/payment-monitor.service.ts. Streams, timers and the sweep are the step
  relation \<open>monitor_step\<close> over the database and the two maps of the service. Every callback moves
  the payments by steps of the payments service (\<open>step_evolves\<close>), so that the invariants of theory
  Payments carry over to any interleaving of callbacks and requests.

  Coupons: coupons/coupons.service.ts with its two tables, the unique index of the codes and soft
  deletion. Usage counters are exact; validation refuses a coupon whose limits are reached, but no code
  records a usage.

  RateLimit: rate-limiting/rate-limit.service.ts and guards/rate-limit.guard.ts. Redis is an
  argument; locale \<open>sorted_sets\<close> states the documented laws of its sorted sets, and theorems about
  the limiter take them as a hypothesis, which the store of association lists at the end of the
  theory satisfies. However calls on other keys come in between, no window of a key lets more
  requests through than configured, unless its status is asked or it is reset.

  Calendar: the methods of a JavaScript date that the services use. Subscriptions:
  subscriptions/subscriptions.service.ts with the tables of tiers; the hourly job settles exactly what
  is due, and what fails in a renewal is an argument. Fraud: fraud/score.ts, fraud.service.ts and the
  request monitor, over a cache of counters (locale \<open>fraud_store\<close>).

  Cache: cache/cache.service.ts and cache-manager.service.ts, two tiers over a Redis with the laws of
  locale \<open>key_value\<close>; what was written is read. Retry and DeadLetter:
  notifications/retry-strategy.service.ts and dead-letter-queue.service.ts; Notifications:
  notifications/notifications.service.ts with its listener, which use them. A delivery is settled, and a
  failed one is kept. Locale \<open>key_value\<close> serves Notifications and Recommendation too.

  Categories: categories/categories.service.ts, the tree without cycles. Wishlists:
  wishlist/wishlists.service.ts and its scheduler. Shipping: shipping/shipping.service.ts.
  Verification: verification/verification.service.ts and the score of a seller.

  WebhookGuard: webhooks/guards and webhooks/services, signatures, timestamps and nonces over a cache
  whose entries expire (locale \<open>expiring_cache\<close>). Webhooks: webhooks/webhooks.service.ts, subscribers and the
  delivery queue; an attempt is one step. Wallet: wallet/wallet.service.ts, the keys of a user with the
  keystream of the cipher as an argument.

  Auth: auth/ and users/users.service.ts, with the registry of refresh tokens (locale \<open>token_cache\<close>),
  sign-in through providers and the second factor. The unique index of the e-mail column is part of the
  table. Recommendation: recommendation/ with common/idempotency (locale \<open>once_cache\<close>). Listings:
  listing/listing.service.ts and deleted-listings.

  Media: media/, the images of products with their files and the worker. FeatureFlags: feature-flags/
  and redis-caching/, the evaluation of flags with the cache in front of them (locale \<open>flag_store\<close>) and
  the hash that spreads users, on 32 bits.

  Loops and fuel. Loops over lists are structural recursion; where code follows links (the chain of
  parent categories, the retries of an operation, the digits of a number) the recursion has a
  termination proof or a bound that is proved to be enough where it is used.

  Two readings of decimal columns are kept apart: most code only compares and subtracts, which
  converts to numbers, and uses the number in the row; the code that adds or compares strictly
  takes the driver as an argument, and theorems say which driver they are about.

  Not modelled. Concurrency: requests run one after the other, so the row locks of the inventory
  have no counterpart, and races between a lookup and the write after it do not appear; deliveries,
  timers and callbacks are steps that any request may precede. Errors of the database other than those named
  (limits and unique indices of columns, the failing renewal, the refused dead letter). Controllers,
  DTO decorators, logging. The Stellar client and the signing of transactions. Search, e-mail, audit,
  analytics, administration, documents, retention (policy, which does not compile), the unused second
  copy of authentication, favourites and reviews, chat, migrations and the glue of the infrastructure.
  In the coupons, a date of the analytics is the number of its day; in the limiter a Redis that is down
  is left out.
\<close>

end
